(* ===== verification/Jx_Prelude.thy ===== *)
theory Jx_Prelude
  imports "HOL-Library.Word" "HOL-Library.Signed_Division"
begin

unbundle bit_operations_syntax

text \<open>
  Shared vocabulary of the development.

  \<^item> The C integer types of the code as words of their width (\<open>u_char\<close>, \<open>u_short\<close>,
    \<open>bpf_u_int32\<close>/\<open>u_int\<close>/\<open>int\<close>, \<open>u_int64_t\<close>); a C \<open>int\<close> is a 32-bit word read with \<open>sint\<close>.
  \<^item> Structures in memory and in files: a multi-byte field is a sequence of bytes in the byte
    order of the host, so the models carry the host's \<open>byte_order\<close> as a parameter, and the
    \<open>SWAPSHORT\<close>/\<open>SWAPLONG\<close>/\<open>SWAPLL\<close> macros are related to it by the locale \<open>byte_swap\<close>.
  \<^item> Loops that the code does not bound: \<open>run_machine\<close> iterates a step function until it
    stops; the locales \<open>guarded_machine\<close> and \<open>terminating_machine\<close> give the invariant and
    the termination rule once for all of them.
  \<^item> The part of stdio the code relies on: \<open>fread\<close> on a stream that ends by end-of-file or by
    a read error, \<open>fwrite\<close> on a file that may run out of room.
\<close>

named_theorems byte_simps \<comment> \<open>decoding what was encoded, lengths of encodings\<close>
named_theorems stdio_simps \<comment> \<open>reads of a stream with enough data\<close>

section \<open>Machine types\<close>

type_synonym u8 = "8 word"
type_synonym u16 = "16 word"
type_synonym u32 = "32 word"
type_synonym u64 = "64 word"

text \<open>Division of a C \<open>long\<close> (64 bits) rounds towards zero.\<close>

definition c_div64 :: "u64 \<Rightarrow> u64 \<Rightarrow> u64" where
  "c_div64 a b = word_of_int (sint a sdiv sint b)"

lemma unat32_lt: "unat (n :: u32) < 2 ^ 32"
  using unsigned_less [where 'a=nat, of n] by simp

lemma unat16_of_nat: "n < 2 ^ 16 \<Longrightarrow> unat (of_nat n :: u16) = n"
  by (simp add: unat_of_nat)

lemma unat32_of_nat: "n < 2 ^ 32 \<Longrightarrow> unat (of_nat n :: u32) = n"
  by (simp add: unat_of_nat)

lemma int_less_2_31: "int n < 2 ^ 31 \<longleftrightarrow> n < 2 ^ 31"
  by simp

lemma uint32_range: "0 \<le> uint (n :: u32)" "uint (n :: u32) < 2 ^ 32"
  using unsigned_less [where 'a=int, of n] by simp_all

lemma sint32_cases: "sint (w :: u32) = (if uint w < 2 ^ 31 then uint w else uint w - 2 ^ 32)"
proof -
  have "uint w div 2 ^ 31 = (if uint w < 2 ^ 31 then 0 else 1)"
    using uint32_range [of w] by auto
  then have "bit (uint w) 31 \<longleftrightarrow> \<not> uint w < 2 ^ 31" by (simp add: bit_iff_odd)
  then show ?thesis using uint32_range [of w]
    by (simp add: sint_uint signed_take_bit_eq_take_bit_minus take_bit_int_eq_self)
qed

lemma sint32_range: "- (2 ^ 31) \<le> sint (w :: u32)" "sint (w :: u32) < 2 ^ 31"
  using sint_ge [of w] sint_lt [of w] by simp_all

lemma sint32_nonneg: "0 \<le> sint (w :: u32) \<Longrightarrow> sint w = int (unat w)"
  using uint32_range [of w] by (simp add: sint32_cases split: if_splits)

lemma uint32_add_sint: "uint (a + k :: u32) = (uint a + sint k) mod 2 ^ 32"
proof -
  have "uint (a + k) = (uint a + uint k) mod 2 ^ 32" by (simp add: uint_word_ariths)
  moreover have "(uint a + (uint k - 2 ^ 32)) mod 2 ^ 32 = (uint a + uint k) mod (2 ^ 32 :: int)"
    by (metis add_diff_eq minus_mod_self2)
  ultimately show ?thesis by (simp add: sint32_cases)
qed

section \<open>Bytes and byte order\<close>

definition word_of_bytes :: "u8 list \<Rightarrow> 'a::len word" where
  "word_of_bytes bs = foldr (\<lambda>b acc. ucast b OR push_bit 8 acc) bs 0"

definition bytes_of_word :: "nat \<Rightarrow> 'a::len word \<Rightarrow> u8 list" where
  "bytes_of_word n w = map (\<lambda>i. ucast (drop_bit (8 * i) w)) [0..<n]"

lemma word_of_bytes_Nil [simp]: "word_of_bytes [] = 0"
  by (simp add: word_of_bytes_def)

lemma word_of_bytes_Cons:
  "word_of_bytes (b # bs) = (ucast b OR push_bit 8 (word_of_bytes bs) :: 'a::len word)"
  by (simp add: word_of_bytes_def)

lemma bit_word_of_bytes:
  "bit (word_of_bytes bs :: 'a::len word) i \<longleftrightarrow>
     i < LENGTH('a) \<and> i div 8 < length bs \<and> bit (bs ! (i div 8)) (i mod 8)"
proof (induction bs arbitrary: i)
  case Nil
  then show ?case by simp
next
  case (Cons b bs)
  show ?case
  proof (cases "i < 8")
    case True
    then show ?thesis by (auto simp: word_of_bytes_Cons bit_simps)
  next
    case False
    then obtain j where j: "i = j + 8" by (metis add.commute le_add_diff_inverse not_less)
    have "\<not> bit b i" using False by (auto dest: bit_imp_le_length)
    moreover have "(j + 8) div 8 = Suc (j div 8)" by simp
    ultimately show ?thesis using Cons [of j] by (auto simp: word_of_bytes_Cons bit_simps j)
  qed
qed

lemma length_bytes_of_word [simp]: "length (bytes_of_word n w) = n"
  by (simp add: bytes_of_word_def)

lemma nth_bytes_of_word: "i < n \<Longrightarrow> bytes_of_word n w ! i = ucast (drop_bit (8 * i) w)"
  by (simp add: bytes_of_word_def)

lemma word_of_bytes_of_word:
  "LENGTH('a) = 8 * n \<Longrightarrow> word_of_bytes (bytes_of_word n w) = (w :: 'a::len word)"
  by (rule bit_word_eqI)
    (auto simp: bit_word_of_bytes nth_bytes_of_word bit_simps less_mult_imp_div_less mult.commute)

lemma bytes_of_word_of_bytes:
  "LENGTH('a) = 8 * length bs \<Longrightarrow>
   bytes_of_word (length bs) (word_of_bytes bs :: 'a::len word) = bs"
proof (rule nth_equalityI, simp)
  fix i assume len: "LENGTH('a) = 8 * length bs"
    and i: "i < length (bytes_of_word (length bs) (word_of_bytes bs :: 'a word))"
  show "bytes_of_word (length bs) (word_of_bytes bs :: 'a word) ! i = bs ! i"
    by (rule bit_word_eqI) (use len i in \<open>auto simp: nth_bytes_of_word bit_word_of_bytes bit_simps\<close>)
qed

datatype byte_order = Little | Big

fun flip :: "byte_order \<Rightarrow> byte_order" where
  "flip Little = Big"
| "flip Big = Little"

lemma flip_flip [simp]: "flip (flip bo) = bo"
  by (cases bo) auto

lemma flip_neq [simp]: "flip bo \<noteq> bo" "bo \<noteq> flip bo"
  by (cases bo; simp)+

lemma neq_order_iff: "a \<noteq> b \<longleftrightarrow> a = flip b"
  by (cases a; cases b) auto

definition decode_word :: "byte_order \<Rightarrow> u8 list \<Rightarrow> 'a::len word" where
  "decode_word bo bs = word_of_bytes (case bo of Little \<Rightarrow> bs | Big \<Rightarrow> rev bs)"

definition encode_word :: "byte_order \<Rightarrow> nat \<Rightarrow> 'a::len word \<Rightarrow> u8 list" where
  "encode_word bo n w =
     (case bo of Little \<Rightarrow> bytes_of_word n w | Big \<Rightarrow> rev (bytes_of_word n w))"

lemma length_encode_word [simp, byte_simps]: "length (encode_word bo n w) = n"
  by (simp add: encode_word_def split: byte_order.split)

lemma decode_encode_word:
  "LENGTH('a) = 8 * n \<Longrightarrow> decode_word bo (encode_word bo n w) = (w :: 'a::len word)"
  by (simp add: decode_word_def encode_word_def word_of_bytes_of_word split: byte_order.split)

lemma encode_decode_word:
  assumes "LENGTH('a) = 8 * length bs"
  shows "encode_word bo (length bs) (decode_word bo bs :: 'a::len word) = bs"
  using assms bytes_of_word_of_bytes [where 'a='a, of bs]
    bytes_of_word_of_bytes [where 'a='a, of "rev bs"]
  by (simp add: decode_word_def encode_word_def split: byte_order.split)

text \<open>A field of a structure: \<open>n\<close> bytes from the given offset.\<close>

definition field :: "byte_order \<Rightarrow> nat \<Rightarrow> nat \<Rightarrow> u8 list \<Rightarrow> 'a::len word" where
  "field bo off n bs = decode_word bo (take n (drop off bs))"

text \<open>Fields of a buffer built field by field.\<close>

lemma field_here [byte_simps]:
  "LENGTH('a) = 8 * n \<Longrightarrow> field bo 0 n (encode_word w n (x :: 'a::len word) @ rest) =
     (decode_word bo (encode_word w n x) :: 'a word)"
  by (simp add: field_def)

lemma field_later [byte_simps]:
  "m \<le> off \<Longrightarrow> field bo off n (encode_word w m x @ rest) = field bo (off - m) n rest"
  by (simp add: field_def)

lemma field_end: "field bo 0 n (encode_word w n x) = decode_word bo (encode_word w n x)"
  by (simp add: field_def)

lemma field_take: "off + n \<le> m \<Longrightarrow> field bo off n (take m bs) = field bo off n bs"
  by (simp add: field_def drop_take take_take min_def)

definition put_bytes :: "nat \<Rightarrow> u8 list \<Rightarrow> u8 list \<Rightarrow> u8 list" where
  "put_bytes off new bs = take off bs @ new @ drop (off + length new) bs"

lemma length_put_bytes [simp, byte_simps]:
  "off + length new \<le> length bs \<Longrightarrow> length (put_bytes off new bs) = length bs"
  by (simp add: put_bytes_def)

lemma put_bytes_same:
  assumes "off + n \<le> length bs"
  shows "take n (drop off (put_bytes off new bs)) = take n (new @ drop (off + length new) bs)"
  using assms by (simp add: put_bytes_def)


lemma rev_encode_word: "rev (encode_word bo n w) = encode_word (flip bo) n w"
  by (cases bo) (simp_all add: encode_word_def)

text \<open>Rewriting a field in place, seen from the start of the buffer.\<close>

lemma put_bytes_split:
  assumes "off + length new \<le> length bs" and "n = off + length new"
  shows "take n (put_bytes off new bs) = take off bs @ new" and
    "drop n (put_bytes off new bs) = drop n bs"
  using assms by (simp_all add: put_bytes_def)

section \<open>The byte-swapping macros\<close>

text \<open>\<open>SWAPSHORT\<close> and \<open>SWAPLONG\<close> of pcap-common.h, \<open>SWAPLL\<close> of pcap-int.h.\<close>

definition SWAPSHORT :: "u16 \<Rightarrow> u16" where
  "SWAPSHORT y = push_bit 8 (y AND 0xff) OR drop_bit 8 (y AND 0xff00)"

definition SWAPLONG :: "u32 \<Rightarrow> u32" where
  "SWAPLONG y = push_bit 24 (y AND 0xff) OR push_bit 8 (y AND 0xff00) OR
     drop_bit 8 (y AND 0xff0000) OR (drop_bit 24 y AND 0xff)"

definition SWAPLL :: "u64 \<Rightarrow> u64" where
  "SWAPLL ull = drop_bit 56 (ull AND 0xff00000000000000) OR
     drop_bit 40 (ull AND 0x00ff000000000000) OR drop_bit 24 (ull AND 0x0000ff0000000000) OR
     drop_bit 8 (ull AND 0x000000ff00000000) OR push_bit 8 (ull AND 0x00000000ff000000) OR
     push_bit 24 (ull AND 0x0000000000ff0000) OR push_bit 40 (ull AND 0x000000000000ff00) OR
     push_bit 56 (ull AND 0x00000000000000ff)"

text \<open>
  What the readers of savefiles rely on: a swap macro reverses the bytes of a value, so the
  value read in the wrong byte order is the swap of the value that was written.
\<close>

locale byte_swap =
  fixes swap :: "'w::len word \<Rightarrow> 'w word"
    and width :: nat
  assumes width: "LENGTH('w) = 8 * width"
    and swap_bytes: "length bs = width \<Longrightarrow> swap (word_of_bytes bs) = word_of_bytes (rev bs)"
begin

lemma swap_decode: "length bs = width \<Longrightarrow> swap (decode_word bo bs) = decode_word (flip bo) bs"
  by (cases bo) (simp_all add: decode_word_def swap_bytes)

lemma swap_swap: "swap (swap w) = w"
proof -
  obtain bs where bs: "length bs = width" and w: "w = word_of_bytes bs"
    using word_of_bytes_of_word [OF width, of w] length_bytes_of_word by metis
  then show ?thesis by (simp add: swap_bytes)
qed

lemma swap_eq_iff: "swap v = w \<longleftrightarrow> v = swap w"
  using swap_swap by metis

lemma swap_inject: "swap v = swap w \<longleftrightarrow> v = w"
  using swap_swap by metis

lemma decode_flip_encode: "decode_word (flip bo) (encode_word bo width w) = swap w"
  by (simp add: decode_encode_word [OF width] swap_decode [symmetric])

lemma encode_swap: "length bs = width \<Longrightarrow> encode_word bo width (swap (decode_word bo bs)) = rev bs"
  using encode_decode_word [where 'a='w, of "rev bs" bo] width
  by (cases bo) (simp_all add: swap_bytes decode_word_def)

lemma swap_field:
  "off + width \<le> length bs \<Longrightarrow> swap (field bo off width bs) = field (flip bo) off width bs"
  by (simp add: field_def swap_decode)

end

lemma bits_upto:
  fixes a b :: "'a::len word"
  assumes "LENGTH('a) = n" and "list_all (\<lambda>i. bit a i = bit b i) [0..<n]"
  shows "a = b"
  using assms by (intro bit_word_eqI) (simp add: list_all_iff)

interpretation short: byte_swap SWAPSHORT 2
proof unfold_locales
  fix bs :: "u8 list" assume "length bs = 2"
  then obtain a b where "bs = [a, b]" by (auto simp: numeral_2_eq_2 length_Suc_conv)
  moreover have "SWAPSHORT (word_of_bytes [a, b]) = word_of_bytes [b, a]"
    by (rule bits_upto [where n=16], simp)
      (simp add: upt_rec bit_word_of_bytes SWAPSHORT_def bit_simps, simp add: eval_nat_numeral)
  ultimately show "SWAPSHORT (word_of_bytes bs) = word_of_bytes (rev bs)" by simp
qed simp

interpretation long: byte_swap SWAPLONG 4
proof unfold_locales
  fix bs :: "u8 list" assume "length bs = 4"
  then obtain a b c d where "bs = [a, b, c, d]"
    by (auto simp: eval_nat_numeral length_Suc_conv)
  moreover have "SWAPLONG (word_of_bytes [a, b, c, d]) = word_of_bytes [d, c, b, a]"
    by (rule bits_upto [where n=32], simp)
      (simp add: upt_rec bit_word_of_bytes SWAPLONG_def bit_simps, simp add: eval_nat_numeral)
  ultimately show "SWAPLONG (word_of_bytes bs) = word_of_bytes (rev bs)" by simp
qed simp

interpretation longlong: byte_swap SWAPLL 8
proof unfold_locales
  fix bs :: "u8 list" assume "length bs = 8"
  then obtain a b c d e f g h where "bs = [a, b, c, d, e, f, g, h]"
    by (auto simp: eval_nat_numeral length_Suc_conv)
  moreover have "SWAPLL (word_of_bytes [a, b, c, d, e, f, g, h]) = word_of_bytes [h, g, f, e, d, c, b, a]"
    by (rule bits_upto [where n=64], simp)
      (simp add: upt_rec bit_word_of_bytes SWAPLL_def bit_simps, simp add: eval_nat_numeral)
  ultimately show "SWAPLL (word_of_bytes bs) = word_of_bytes (rev bs)" by simp
qed simp

section \<open>Loops\<close>

text \<open>
  A loop body as a function: \<open>Inl s'\<close> goes round again from the state \<open>s'\<close>, \<open>Inr r\<close>
  leaves the loop with the result \<open>r\<close>. \<open>run_machine step s\<close> is \<open>None\<close> when the loop never ends.
\<close>

partial_function (option) run_machine :: "('s \<Rightarrow> 's + 'r) \<Rightarrow> 's \<Rightarrow> 'r option" where
  "run_machine step s = (case step s of Inr r \<Rightarrow> Some r | Inl s' \<Rightarrow> run_machine step s')"

inductive reaches :: "('s \<Rightarrow> 's + 'r) \<Rightarrow> 's \<Rightarrow> 's \<Rightarrow> bool" for step :: "'s \<Rightarrow> 's + 'r" where
  reaches_refl [intro]: "reaches step s s"
| reaches_step: "reaches step s t \<Longrightarrow> step t = Inl u \<Longrightarrow> reaches step s u"

lemma run_machine_Inr: "step s = Inr r \<Longrightarrow> run_machine step s = Some r"
  by (simp add: run_machine.simps [of step s])

lemma run_machine_Inl: "step s = Inl s' \<Longrightarrow> run_machine step s = run_machine step s'"
  by (simp add: run_machine.simps [of step s])

lemma reaches_prepend:
  assumes "reaches step s' t" and "step s = Inl s'"
  shows "reaches step s t"
  using assms by (induction rule: reaches.induct) (blast intro: reaches.intros)+

text \<open>The result of a run is the result of a step taken in a state the run reaches.\<close>

lemma run_machine_stops:
  assumes "run_machine step s = Some r"
  shows "\<exists>t. reaches step s t \<and> step t = Inr r"
proof (rule run_machine.raw_induct
    [where P = "\<lambda>step s r. \<exists>t. reaches step s t \<and> step t = Inr r", OF _ assms])
  fix f :: "('s \<Rightarrow> 's + 'r) \<Rightarrow> 's \<Rightarrow> 'r option" and step s r
  assume IH: "\<And>step s r. f step s = Some r \<Longrightarrow> \<exists>t. reaches step s t \<and> step t = Inr r"
    and eq: "(case step s of Inr r \<Rightarrow> Some r | Inl s' \<Rightarrow> f step s') = Some r"
  show "\<exists>t. reaches step s t \<and> step t = Inr r"
  proof (cases "step s")
    case (Inl s')
    with eq have "f step s' = Some r" by simp
    from IH [OF this] Inl show ?thesis by (blast intro: reaches_prepend)
  next
    case (Inr r')
    with eq show ?thesis by auto
  qed
qed

lemma self_loop_stuck:
  assumes "step s = Inl s"
  shows "run_machine step s = None"
proof (rule ccontr)
  have stay: "t = s" if "reaches step s t" for t
    using that assms by (induction rule: reaches.induct) simp_all
  assume "run_machine step s \<noteq> None"
  then obtain r where "run_machine step s = Some r" by blast
  from run_machine_stops [OF this] stay assms show False by fastforce
qed

text \<open>An invariant of the loop body, and what the results may be while it holds.\<close>

locale guarded_machine =
  fixes step :: "'s \<Rightarrow> 's + 'r"
    and inv :: "'s \<Rightarrow> bool"
    and good :: "'r \<Rightarrow> bool"
  assumes inv_step: "inv s \<Longrightarrow> step s = Inl s' \<Longrightarrow> inv s'"
    and good_result: "inv s \<Longrightarrow> step s = Inr r \<Longrightarrow> good r"
begin

lemma reaches_inv: "reaches step s t \<Longrightarrow> inv s \<Longrightarrow> inv t"
  by (induction rule: reaches.induct) (auto intro: inv_step)

lemma reaches_good: "reaches step s t \<Longrightarrow> inv s \<Longrightarrow> step t = Inr r \<Longrightarrow> good r"
  by (blast intro: reaches_inv good_result)

lemma run_good: "inv s \<Longrightarrow> run_machine step s = Some r \<Longrightarrow> good r"
  by (blast dest: run_machine_stops intro: reaches_good)

end

text \<open>A loop body that also decreases a measure: the loop ends.\<close>

locale terminating_machine = guarded_machine step inv good
  for step :: "'s \<Rightarrow> 's + 'r" and inv and good +
  fixes meas :: "'s \<Rightarrow> nat"
  assumes meas_step: "inv s \<Longrightarrow> step s = Inl s' \<Longrightarrow> meas s' < meas s"
begin

lemma run_terminates: "inv s \<Longrightarrow> \<exists>r. run_machine step s = Some r \<and> good r"
proof (induction s rule: measure_induct_rule [where f=meas])
  case (less s)
  show ?case
  proof (cases "step s")
    case (Inl s')
    with less show ?thesis by (simp add: run_machine_Inl meas_step inv_step)
  next
    case (Inr r)
    with less.prems show ?thesis by (simp add: run_machine_Inr good_result)
  qed
qed

end

section \<open>The stdio the code uses\<close>

text \<open>
  A stream opened for reading holds the bytes not read yet; when they run out, a read stops
  either at end-of-file or with a read error (\<open>ferror\<close>). \<open>fread_bytes n\<close> is
  \<open>fread(buf, 1, n, fp)\<close>: the bytes read and the stream afterwards.
\<close>

record stream =
  pending :: "u8 list"
  broken :: bool

definition fread_bytes :: "nat \<Rightarrow> stream \<Rightarrow> u8 list \<times> stream" where
  "fread_bytes n s = (take n (pending s), s\<lparr>pending := drop n (pending s)\<rparr>)"

text \<open>
  A file open for writing and how many more bytes fit on its device (\<open>None\<close>: no limit).
  \<open>fwrite_bytes\<close> is \<open>fwrite(p, n, 1, fp)\<close>, which returns 1 when everything was written.
\<close>

record outfile =
  written :: "u8 list"
  room :: "nat option"

definition fwrite_bytes :: "u8 list \<Rightarrow> outfile \<Rightarrow> bool \<times> outfile" where
  "fwrite_bytes bs f =
     (case room f of
        None \<Rightarrow> (True, f\<lparr>written := written f @ bs\<rparr>)
      | Some r \<Rightarrow> (length bs \<le> r,
          f\<lparr>written := written f @ take r bs, room := Some (r - length bs)\<rparr>))"

lemma fread_bytes_enough [stdio_simps]:
  "length bs = n \<Longrightarrow> pending s = bs @ rest \<Longrightarrow>
   fread_bytes n s = (bs, s\<lparr>pending := rest\<rparr>)"
  by (simp add: fread_bytes_def)

lemma length_fread_bytes: "length (fst (fread_bytes n s)) \<le> n"
  by (simp add: fread_bytes_def)

lemma fwrite_bytes_unlimited [stdio_simps]:
  "room f = None \<Longrightarrow> fwrite_bytes bs f = (True, f\<lparr>written := written f @ bs\<rparr>)"
  by (simp add: fwrite_bytes_def)

end
