(* ===== verification/Bpf_Insn.thy ===== *)
theory Bpf_Insn
  imports Jx_Prelude
begin

unbundle bit_operations_syntax

text \<open>
  The instruction set of the packet filter machine (jni/libpcap/pcap/bpf.h): the fields of an
  opcode, the instruction structure, and the opcodes the \<open>switch\<close> statements over \<open>code\<close>
  (in bpf_filter.c and bpf_image.c) name in their case labels, as a datatype with their numbers.
\<close>

section \<open>Opcode fields\<close>

definition BPF_CLASS :: "u16 \<Rightarrow> u16" where "BPF_CLASS code = code AND 0x07"
definition BPF_SIZE :: "u16 \<Rightarrow> u16" where "BPF_SIZE code = code AND 0x18"
definition BPF_MODE :: "u16 \<Rightarrow> u16" where "BPF_MODE code = code AND 0xe0"
definition BPF_OP :: "u16 \<Rightarrow> u16" where "BPF_OP code = code AND 0xf0"
definition BPF_SRC :: "u16 \<Rightarrow> u16" where "BPF_SRC code = code AND 0x08"
definition BPF_RVAL :: "u16 \<Rightarrow> u16" where "BPF_RVAL code = code AND 0x18"
definition BPF_MISCOP :: "u16 \<Rightarrow> u16" where "BPF_MISCOP code = code AND 0xf8"

abbreviation BPF_LD :: u16 where "BPF_LD \<equiv> 0x00"
abbreviation BPF_LDX :: u16 where "BPF_LDX \<equiv> 0x01"
abbreviation BPF_ST :: u16 where "BPF_ST \<equiv> 0x02"
abbreviation BPF_STX :: u16 where "BPF_STX \<equiv> 0x03"
abbreviation BPF_ALU :: u16 where "BPF_ALU \<equiv> 0x04"
abbreviation BPF_JMP :: u16 where "BPF_JMP \<equiv> 0x05"
abbreviation BPF_RET :: u16 where "BPF_RET \<equiv> 0x06"
abbreviation BPF_MISC :: u16 where "BPF_MISC \<equiv> 0x07"

abbreviation BPF_W :: u16 where "BPF_W \<equiv> 0x00"
abbreviation BPF_H :: u16 where "BPF_H \<equiv> 0x08"
abbreviation BPF_B :: u16 where "BPF_B \<equiv> 0x10"

abbreviation BPF_IMM :: u16 where "BPF_IMM \<equiv> 0x00"
abbreviation BPF_ABS :: u16 where "BPF_ABS \<equiv> 0x20"
abbreviation BPF_IND :: u16 where "BPF_IND \<equiv> 0x40"
abbreviation BPF_MEM :: u16 where "BPF_MEM \<equiv> 0x60"
abbreviation BPF_LEN :: u16 where "BPF_LEN \<equiv> 0x80"
abbreviation BPF_MSH :: u16 where "BPF_MSH \<equiv> 0xa0"

abbreviation BPF_ADD :: u16 where "BPF_ADD \<equiv> 0x00"
abbreviation BPF_SUB :: u16 where "BPF_SUB \<equiv> 0x10"
abbreviation BPF_MUL :: u16 where "BPF_MUL \<equiv> 0x20"
abbreviation BPF_DIV :: u16 where "BPF_DIV \<equiv> 0x30"
abbreviation BPF_OR :: u16 where "BPF_OR \<equiv> 0x40"
abbreviation BPF_AND :: u16 where "BPF_AND \<equiv> 0x50"
abbreviation BPF_LSH :: u16 where "BPF_LSH \<equiv> 0x60"
abbreviation BPF_RSH :: u16 where "BPF_RSH \<equiv> 0x70"
abbreviation BPF_NEG :: u16 where "BPF_NEG \<equiv> 0x80"
abbreviation BPF_MOD :: u16 where "BPF_MOD \<equiv> 0x90"
abbreviation BPF_XOR :: u16 where "BPF_XOR \<equiv> 0xa0"

abbreviation BPF_JA :: u16 where "BPF_JA \<equiv> 0x00"
abbreviation BPF_JEQ :: u16 where "BPF_JEQ \<equiv> 0x10"
abbreviation BPF_JGT :: u16 where "BPF_JGT \<equiv> 0x20"
abbreviation BPF_JGE :: u16 where "BPF_JGE \<equiv> 0x30"
abbreviation BPF_JSET :: u16 where "BPF_JSET \<equiv> 0x40"

abbreviation BPF_K :: u16 where "BPF_K \<equiv> 0x00"
abbreviation BPF_X :: u16 where "BPF_X \<equiv> 0x08"
abbreviation BPF_A :: u16 where "BPF_A \<equiv> 0x10"

abbreviation BPF_TAX :: u16 where "BPF_TAX \<equiv> 0x00"
abbreviation BPF_TXA :: u16 where "BPF_TXA \<equiv> 0x80"

abbreviation BPF_MEMWORDS :: nat where "BPF_MEMWORDS \<equiv> 16"

section \<open>Instructions\<close>

text \<open>\<open>struct bpf_insn\<close>; a program is the array of its instructions.\<close>

record bpf_insn =
  i_code :: u16
  i_jt :: u8
  i_jf :: u8
  i_k :: u32

definition BPF_STMT :: "u16 \<Rightarrow> u32 \<Rightarrow> bpf_insn" where
  "BPF_STMT code k = \<lparr>i_code = code, i_jt = 0, i_jf = 0, i_k = k\<rparr>"

definition BPF_JUMP :: "u16 \<Rightarrow> u32 \<Rightarrow> u8 \<Rightarrow> u8 \<Rightarrow> bpf_insn" where
  "BPF_JUMP code k jt jf = \<lparr>i_code = code, i_jt = jt, i_jf = jf, i_k = k\<rparr>"

section \<open>The opcodes of the case labels\<close>

datatype ld_size = SzW | SzH | SzB
datatype src = SrcK | SrcX
datatype cmp = Jgt | Jge | Jeq | Jset
datatype alu = Add | Sub | Mul | Div | Mod | And | Or | Xor | Lsh | Rsh

datatype opcode =
    Ret_K | Ret_A
  | Ld_Abs ld_size | Ld_Len | Ldx_Len | Ld_Ind ld_size | Ldx_Msh
  | Ld_Imm | Ldx_Imm | Ld_Mem | Ldx_Mem | St | Stx
  | Ja | Jmp cmp src
  | Alu alu src | Neg
  | Tax | Txa

primrec size_code :: "ld_size \<Rightarrow> u16" where
  "size_code SzW = BPF_W"
| "size_code SzH = BPF_H"
| "size_code SzB = BPF_B"

primrec src_code :: "src \<Rightarrow> u16" where
  "src_code SrcK = BPF_K"
| "src_code SrcX = BPF_X"

primrec cmp_code :: "cmp \<Rightarrow> u16" where
  "cmp_code Jgt = BPF_JGT"
| "cmp_code Jge = BPF_JGE"
| "cmp_code Jeq = BPF_JEQ"
| "cmp_code Jset = BPF_JSET"

primrec alu_code :: "alu \<Rightarrow> u16" where
  "alu_code Add = BPF_ADD"
| "alu_code Sub = BPF_SUB"
| "alu_code Mul = BPF_MUL"
| "alu_code Div = BPF_DIV"
| "alu_code Mod = BPF_MOD"
| "alu_code And = BPF_AND"
| "alu_code Or = BPF_OR"
| "alu_code Xor = BPF_XOR"
| "alu_code Lsh = BPF_LSH"
| "alu_code Rsh = BPF_RSH"

text \<open>The value of the case label of an opcode, written as the label is.\<close>

primrec label :: "opcode \<Rightarrow> u16" where
  "label Ret_K = BPF_RET OR BPF_K"
| "label Ret_A = BPF_RET OR BPF_A"
| "label (Ld_Abs sz) = BPF_LD OR size_code sz OR BPF_ABS"
| "label Ld_Len = BPF_LD OR BPF_W OR BPF_LEN"
| "label Ldx_Len = BPF_LDX OR BPF_W OR BPF_LEN"
| "label (Ld_Ind sz) = BPF_LD OR size_code sz OR BPF_IND"
| "label Ldx_Msh = BPF_LDX OR BPF_MSH OR BPF_B"
| "label Ld_Imm = BPF_LD OR BPF_IMM"
| "label Ldx_Imm = BPF_LDX OR BPF_IMM"
| "label Ld_Mem = BPF_LD OR BPF_MEM"
| "label Ldx_Mem = BPF_LDX OR BPF_MEM"
| "label St = BPF_ST"
| "label Stx = BPF_STX"
| "label Ja = BPF_JMP OR BPF_JA"
| "label (Jmp c s) = BPF_JMP OR cmp_code c OR src_code s"
| "label (Alu a s) = BPF_ALU OR alu_code a OR src_code s"
| "label Neg = BPF_ALU OR BPF_NEG"
| "label Tax = BPF_MISC OR BPF_TAX"
| "label Txa = BPF_MISC OR BPF_TXA"

definition all_opcodes :: "opcode list" where
  "all_opcodes =
     [Ret_K, Ret_A] @ map Ld_Abs [SzW, SzH, SzB] @ [Ld_Len, Ldx_Len] @
     map Ld_Ind [SzW, SzH, SzB] @ [Ldx_Msh, Ld_Imm, Ldx_Imm, Ld_Mem, Ldx_Mem, St, Stx, Ja] @
     concat (map (\<lambda>s. map (\<lambda>c. Jmp c s) [Jgt, Jge, Jeq, Jset]) [SrcK, SrcX]) @
     concat (map (\<lambda>s. map (\<lambda>a. Alu a s) [Add, Sub, Mul, Div, Mod, And, Or, Xor, Lsh, Rsh])
       [SrcX, SrcK]) @
     [Neg, Tax, Txa]"

text \<open>\<open>switch (code)\<close>: the case whose label is \<open>code\<close>, \<open>None\<close> for the default case.\<close>

definition decode :: "u16 \<Rightarrow> opcode option" where
  "decode code = List.find (\<lambda>op. label op = code) all_opcodes"

lemmas opcode_fields = BPF_CLASS_def BPF_SIZE_def BPF_MODE_def BPF_OP_def BPF_SRC_def

lemma all_opcodes_complete: "op \<in> set all_opcodes"
proof (cases op)
  case (Ld_Abs sz)
  then show ?thesis by (cases sz) (simp_all add: all_opcodes_def)
next
  case (Ld_Ind sz)
  then show ?thesis by (cases sz) (simp_all add: all_opcodes_def)
next
  case (Jmp c s)
  then show ?thesis by (cases c; cases s) (simp_all add: all_opcodes_def)
next
  case (Alu a s)
  then show ?thesis by (cases a; cases s) (simp_all add: all_opcodes_def)
qed (simp_all add: all_opcodes_def)

text \<open>No two case labels have the same value, so the order of the cases does not matter.\<close>

lemma distinct_labels: "distinct (map label all_opcodes)"
  by (simp add: all_opcodes_def)

lemma label_inject: "label a = label b \<longleftrightarrow> a = b"
  using distinct_labels all_opcodes_complete
  by (auto simp: distinct_map inj_on_def)

lemma decode_Some_iff: "decode code = Some op \<longleftrightarrow> label op = code"
proof
  assume "decode code = Some op"
  then show "label op = code" by (auto simp: decode_def find_Some_iff)
next
  assume eq: "label op = code"
  show "decode code = Some op"
  proof (cases "decode code")
    case None
    with eq all_opcodes_complete [of op] show ?thesis by (simp add: decode_def find_None_iff)
  next
    case (Some op')
    then have "label op' = code" by (auto simp: decode_def find_Some_iff)
    with eq Some show ?thesis by (simp add: label_inject [symmetric])
  qed
qed

lemma decode_label [simp]: "decode (label op) = Some op"
  by (simp add: decode_Some_iff)

lemma decode_None_iff: "decode code = None \<longleftrightarrow> code \<notin> range label"
  by (metis decode_Some_iff not_None_eq rangeE rangeI)

end
