(* ===== verification/Bpf_Filter.thy ===== *)
theory Bpf_Filter
  imports Bpf_Insn
begin

unbundle bit_operations_syntax

text \<open>
  The filter machine of jni/libpcap/bpf/net/bpf_filter.c in its user-land build (\<open>KERNEL\<close> and
  \<open>_KERNEL\<close> undefined): \<open>bpf_filter_with_aux_data\<close> and \<open>bpf_filter\<close>.

  The machine state is the accumulator, the index register, the scratch memory \<open>mem\<close> and the
  program counter. \<open>mem\<close> is an uninitialised local array of the C function, so its initial
  contents are a parameter. What C leaves undefined is a fault of the model: a program counter
  outside the program, a scratch or packet access outside its array, a division by a constant 0
  and a shift by 32 or more. \<open>abort()\<close> on an unknown opcode is an outcome of its own.
\<close>

section \<open>State and outcomes\<close>

text \<open>
  The arguments of \<open>bpf_filter_with_aux_data\<close> that do not change: the buffer \<open>p\<close>, \<open>wirelen\<close>,
  \<open>buflen\<close>, the auxiliary data (\<open>vlan_tag_present\<close>, \<open>vlan_tag\<close>; \<open>None\<close> is the null pointer),
  and the offsets \<open>SKF_AD_OFF + SKF_AD_VLAN_TAG\<close> and \<open>SKF_AD_OFF + SKF_AD_VLAN_TAG_PRESENT\<close> of
  the system's \<open>linux/filter.h\<close> (\<open>None\<close> where the macros are not defined).
\<close>

record bpf_aux_data =
  vlan_tag_present :: u16
  vlan_tag :: u16

record bpf_env =
  packet :: "u8 list"
  wirelen :: u32
  buflen :: u32
  aux_data :: "bpf_aux_data option"
  ancillary :: "(u32 \<times> u32) option"

record bpf_vm =
  reg_A :: u32
  reg_X :: u32
  scratch :: "u32 list"
  pc :: int

datatype bpf_fault = Bad_Pc | Bad_Scratch | Bad_Packet | Div_By_Zero | Bad_Shift

datatype bpf_outcome = Returned u32 | Aborted | Faulted bpf_fault

section \<open>Packet loads\<close>

text \<open>\<open>EXTRACT_SHORT\<close> and \<open>EXTRACT_LONG\<close>: network byte order, from the byte at \<open>k\<close>.\<close>

definition EXTRACT_LONG :: "u8 list \<Rightarrow> nat \<Rightarrow> u32 + bpf_outcome" where
  "EXTRACT_LONG p k =
     (if k + 4 \<le> length p
      then Inl (push_bit 24 (ucast (p ! k)) OR push_bit 16 (ucast (p ! (k + 1))) OR
        push_bit 8 (ucast (p ! (k + 2))) OR ucast (p ! (k + 3)))
      else Inr (Faulted Bad_Packet))"

definition EXTRACT_SHORT :: "u8 list \<Rightarrow> nat \<Rightarrow> u32 + bpf_outcome" where
  "EXTRACT_SHORT p k =
     (if k + 2 \<le> length p
      then Inl (push_bit 8 (ucast (p ! k)) OR ucast (p ! (k + 1)))
      else Inr (Faulted Bad_Packet))"

definition packet_byte :: "u8 list \<Rightarrow> nat \<Rightarrow> u32 + bpf_outcome" where
  "packet_byte p k = (if k < length p then Inl (ucast (p ! k)) else Inr (Faulted Bad_Packet))"

text \<open>
  \<open>BPF_LD|BPF_W|BPF_ABS\<close>, \<open>BPF_H\<close> and \<open>BPF_B\<close>. A load past the captured data rejects the
  packet (returns 0). The byte load also serves the VLAN ancillary data.
\<close>

definition ld_abs_byte :: "bpf_env \<Rightarrow> u32 \<Rightarrow> u32 + bpf_outcome" where
  "ld_abs_byte e k = (if buflen e \<le> k then Inr (Returned 0) else packet_byte (packet e) (unat k))"

definition ld_ancillary :: "bpf_env \<Rightarrow> (bpf_aux_data \<Rightarrow> u16) \<Rightarrow> u32 + bpf_outcome" where
  "ld_ancillary e sel =
     (case aux_data e of None \<Rightarrow> Inr (Returned 0) | Some d \<Rightarrow> Inl (ucast (sel d)))"

fun ld_abs :: "bpf_env \<Rightarrow> ld_size \<Rightarrow> u32 \<Rightarrow> u32 + bpf_outcome" where
  "ld_abs e SzW k =
     (if k > buflen e \<or> 4 > unat (buflen e - k) then Inr (Returned 0)
      else EXTRACT_LONG (packet e) (unat k))"
| "ld_abs e SzH k =
     (if k > buflen e \<or> 2 > unat (buflen e - k) then Inr (Returned 0)
      else EXTRACT_SHORT (packet e) (unat k))"
| "ld_abs e SzB k =
     (case ancillary e of
        None \<Rightarrow> ld_abs_byte e k
      | Some (tag, present) \<Rightarrow>
          if k = tag then ld_ancillary e vlan_tag
          else if k = present then ld_ancillary e vlan_tag_present
          else ld_abs_byte e k)"

text \<open>The same relative to the index register; \<open>X + pc->k\<close> is 32-bit arithmetic.\<close>

fun ld_ind :: "bpf_env \<Rightarrow> ld_size \<Rightarrow> u32 \<Rightarrow> u32 \<Rightarrow> u32 + bpf_outcome" where
  "ld_ind e SzW X i =
     (let k = X + i in
      if i > buflen e \<or> X > buflen e - i \<or> 4 > unat (buflen e - k) then Inr (Returned 0)
      else EXTRACT_LONG (packet e) (unat k))"
| "ld_ind e SzH X i =
     (let k = X + i in
      if X > buflen e \<or> i > buflen e - X \<or> 2 > unat (buflen e - k) then Inr (Returned 0)
      else EXTRACT_SHORT (packet e) (unat k))"
| "ld_ind e SzB X i =
     (let k = X + i in
      if i \<ge> buflen e \<or> X \<ge> buflen e - i then Inr (Returned 0)
      else packet_byte (packet e) (unat k))"

text \<open>\<open>BPF_LDX|BPF_MSH|BPF_B\<close>: four times the low nibble, the length of an IPv4 header.\<close>

definition ldx_msh :: "bpf_env \<Rightarrow> u32 \<Rightarrow> u32 + bpf_outcome" where
  "ldx_msh e k =
     (if k \<ge> buflen e then Inr (Returned 0)
      else case packet_byte (packet e) (unat k) of
          Inl b \<Rightarrow> Inl (push_bit 2 (b AND 0xf))
        | Inr r \<Rightarrow> Inr r)"

section \<open>Arithmetic, jumps and scratch memory\<close>

text \<open>
  \<open>BPF_ALU\<close> with the operand \<open>x\<close>. A zero divisor in the index register rejects the packet;
  a constant zero divisor is not checked here (\<open>bpf_validate\<close> refuses it).
\<close>

fun alu_op :: "alu \<Rightarrow> src \<Rightarrow> u32 \<Rightarrow> u32 \<Rightarrow> u32 + bpf_outcome" where
  "alu_op Add _ a x = Inl (a + x)"
| "alu_op Sub _ a x = Inl (a - x)"
| "alu_op Mul _ a x = Inl (a * x)"
| "alu_op Div SrcX a x = (if x = 0 then Inr (Returned 0) else Inl (a div x))"
| "alu_op Div SrcK a x = (if x = 0 then Inr (Faulted Div_By_Zero) else Inl (a div x))"
| "alu_op Mod SrcX a x = (if x = 0 then Inr (Returned 0) else Inl (a mod x))"
| "alu_op Mod SrcK a x = (if x = 0 then Inr (Faulted Div_By_Zero) else Inl (a mod x))"
| "alu_op And _ a x = Inl (a AND x)"
| "alu_op Or _ a x = Inl (a OR x)"
| "alu_op Xor _ a x = Inl (a XOR x)"
| "alu_op Lsh _ a x = (if unat x < 32 then Inl (push_bit (unat x) a) else Inr (Faulted Bad_Shift))"
| "alu_op Rsh _ a x = (if unat x < 32 then Inl (drop_bit (unat x) a) else Inr (Faulted Bad_Shift))"

fun jmp_cond :: "cmp \<Rightarrow> u32 \<Rightarrow> u32 \<Rightarrow> bool" where
  "jmp_cond Jgt a x = (a > x)"
| "jmp_cond Jge a x = (a \<ge> x)"
| "jmp_cond Jeq a x = (a = x)"
| "jmp_cond Jset a x = (a AND x \<noteq> 0)"

definition mem_read :: "u32 list \<Rightarrow> u32 \<Rightarrow> u32 + bpf_outcome" where
  "mem_read mem k =
     (if unat k < BPF_MEMWORDS \<and> unat k < length mem then Inl (mem ! unat k)
      else Inr (Faulted Bad_Scratch))"

definition mem_write :: "u32 list \<Rightarrow> u32 \<Rightarrow> u32 \<Rightarrow> u32 list + bpf_outcome" where
  "mem_write mem k v =
     (if unat k < BPF_MEMWORDS \<and> unat k < length mem then Inl (mem[unat k := v])
      else Inr (Faulted Bad_Scratch))"

fun operand :: "src \<Rightarrow> bpf_insn \<Rightarrow> bpf_vm \<Rightarrow> u32" where
  "operand SrcK i s = i_k i"
| "operand SrcX i s = reg_X s"

section \<open>The interpreter loop\<close>

text \<open>
  \<open>continue\<close> after an instruction: the program counter moves past it, plus a jump offset.
\<close>

definition continue_at :: "int \<Rightarrow> bpf_vm \<Rightarrow> bpf_vm + bpf_outcome" where
  "continue_at off s = Inl (s\<lparr>pc := pc s + off + 1\<rparr>)"

definition set_A :: "bpf_vm \<Rightarrow> u32 + bpf_outcome \<Rightarrow> bpf_vm + bpf_outcome" where
  "set_A s v = (case v of Inl a \<Rightarrow> continue_at 0 (s\<lparr>reg_A := a\<rparr>) | Inr r \<Rightarrow> Inr r)"

definition set_X :: "bpf_vm \<Rightarrow> u32 + bpf_outcome \<Rightarrow> bpf_vm + bpf_outcome" where
  "set_X s v = (case v of Inl x \<Rightarrow> continue_at 0 (s\<lparr>reg_X := x\<rparr>) | Inr r \<Rightarrow> Inr r)"

definition set_scratch :: "bpf_vm \<Rightarrow> u32 list + bpf_outcome \<Rightarrow> bpf_vm + bpf_outcome" where
  "set_scratch s v = (case v of Inl m \<Rightarrow> continue_at 0 (s\<lparr>scratch := m\<rparr>) | Inr r \<Rightarrow> Inr r)"

fun exec_op :: "bpf_env \<Rightarrow> bpf_insn \<Rightarrow> bpf_vm \<Rightarrow> opcode \<Rightarrow> bpf_vm + bpf_outcome" where
  "exec_op e i s Ret_K = Inr (Returned (i_k i))"
| "exec_op e i s Ret_A = Inr (Returned (reg_A s))"
| "exec_op e i s (Ld_Abs sz) = set_A s (ld_abs e sz (i_k i))"
| "exec_op e i s Ld_Len = set_A s (Inl (wirelen e))"
| "exec_op e i s Ldx_Len = set_X s (Inl (wirelen e))"
| "exec_op e i s (Ld_Ind sz) = set_A s (ld_ind e sz (reg_X s) (i_k i))"
| "exec_op e i s Ldx_Msh = set_X s (ldx_msh e (i_k i))"
| "exec_op e i s Ld_Imm = set_A s (Inl (i_k i))"
| "exec_op e i s Ldx_Imm = set_X s (Inl (i_k i))"
| "exec_op e i s Ld_Mem = set_A s (mem_read (scratch s) (i_k i))"
| "exec_op e i s Ldx_Mem = set_X s (mem_read (scratch s) (i_k i))"
| "exec_op e i s St = set_scratch s (mem_write (scratch s) (i_k i) (reg_A s))"
| "exec_op e i s Stx = set_scratch s (mem_write (scratch s) (i_k i) (reg_X s))"
| "exec_op e i s Ja = continue_at (sint (i_k i)) s"
| "exec_op e i s (Jmp c sr) =
     continue_at (uint (if jmp_cond c (reg_A s) (operand sr i s) then i_jt i else i_jf i)) s"
| "exec_op e i s (Alu a sr) = set_A s (alu_op a sr (reg_A s) (operand sr i s))"
| "exec_op e i s Neg = set_A s (Inl (- reg_A s))"
| "exec_op e i s Tax = set_X s (Inl (reg_A s))"
| "exec_op e i s Txa = set_A s (Inl (reg_X s))"

text \<open>One round of \<open>while (1)\<close>: fetch, \<open>switch (pc->code)\<close>, execute.\<close>

definition bpf_step :: "bpf_insn list \<Rightarrow> bpf_env \<Rightarrow> bpf_vm \<Rightarrow> bpf_vm + bpf_outcome" where
  "bpf_step f e s =
     (if 0 \<le> pc s \<and> pc s < int (length f)
      then let i = f ! nat (pc s) in
        (case decode (i_code i) of
           None \<Rightarrow> Inr Aborted
         | Some op \<Rightarrow> exec_op e i s op)
      else Inr (Faulted Bad_Pc))"

definition bpf_init :: "u32 list \<Rightarrow> bpf_vm" where
  "bpf_init mem = \<lparr>reg_A = 0, reg_X = 0, scratch = mem, pc = 0\<rparr>"

text \<open>
  \<open>bpf_filter_with_aux_data\<close>; \<open>None\<close> for the program is the null pointer (accept all), \<open>None\<close>
  as the result is a run that never ends.
\<close>

definition bpf_filter_with_aux_data ::
    "u32 list \<Rightarrow> (u32 \<times> u32) option \<Rightarrow> bpf_insn list option \<Rightarrow> u8 list \<Rightarrow> u32 \<Rightarrow> u32 \<Rightarrow>
     bpf_aux_data option \<Rightarrow> bpf_outcome option" where
  "bpf_filter_with_aux_data mem anc prog p wlen blen aux =
     (case prog of
        None \<Rightarrow> Some (Returned (-1))
      | Some f \<Rightarrow>
          run_machine
            (bpf_step f \<lparr>packet = p, wirelen = wlen, buflen = blen, aux_data = aux, ancillary = anc\<rparr>)
            (bpf_init mem))"

definition bpf_filter ::
    "u32 list \<Rightarrow> (u32 \<times> u32) option \<Rightarrow> bpf_insn list option \<Rightarrow> u8 list \<Rightarrow> u32 \<Rightarrow> u32 \<Rightarrow>
     bpf_outcome option" where
  "bpf_filter mem anc prog p wlen blen = bpf_filter_with_aux_data mem anc prog p wlen blen None"

lemmas set_reg_defs = set_A_def set_X_def set_scratch_def continue_at_def

section \<open>Packet loads stay inside the buffer\<close>

text \<open>
  The buffer holds the \<open>buflen\<close> bytes the caller says it does. Then no load of packet data
  faults: the 32-bit comparisons in front of the loads do not wrap around.
\<close>

definition buffer_ok :: "bpf_env \<Rightarrow> bool" where
  "buffer_ok e \<longleftrightarrow> unat (buflen e) \<le> length (packet e)"

lemma unat_diff_le: "k \<le> (n::u32) \<Longrightarrow> unat (n - k) = unat n - unat k"
  by (simp add: unat_sub word_le_nat_alt)

lemma index_sum:
  fixes n x i :: u32
  assumes "i \<le> n" and "x \<le> n - i"
  shows "unat (x + i) = unat x + unat i" and "unat (n - (x + i)) = unat n - (unat x + unat i)"
    and "unat x + unat i \<le> unat n"
proof -
  have le: "unat x + unat i \<le> unat n"
    using assms unat_diff_le [of i n] by (simp add: word_le_nat_alt)
  moreover have "unat n < 2 ^ 32" by (rule unat32_lt)
  ultimately show sum: "unat (x + i) = unat x + unat i" by (simp add: unat_word_ariths)
  from le sum have "x + i \<le> n" by (simp add: word_le_nat_alt)
  then show "unat (n - (x + i)) = unat n - (unat x + unat i)" by (simp add: unat_diff_le sum)
  show "unat x + unat i \<le> unat n" by (fact le)
qed

lemma index_sum_iff:
  fixes n x i :: u32
  shows "i \<le> n \<and> x \<le> n - i \<longleftrightarrow> unat x + unat i \<le> unat n"
proof
  assume "i \<le> n \<and> x \<le> n - i"
  then show "unat x + unat i \<le> unat n" using index_sum(3) by blast
next
  assume le: "unat x + unat i \<le> unat n"
  then have i: "i \<le> n" by (simp add: word_le_nat_alt)
  with le show "i \<le> n \<and> x \<le> n - i" by (simp add: word_le_nat_alt [of x] unat_diff_le)
qed

lemma index_sum_less:
  fixes n x i :: u32
  assumes "i < n" and "x < n - i"
  shows "unat (x + i) < unat n"
proof -
  have le: "i \<le> n" "x \<le> n - i" using assms by simp_all
  have "unat x < unat n - unat i"
    using assms(2) by (simp add: word_less_nat_alt unat_diff_le [OF le(1)])
  then show ?thesis using index_sum(1) [OF le] by simp
qed

lemma ld_abs_no_fault:
  assumes "buffer_ok e"
  shows "ld_abs e sz k \<noteq> Inr (Faulted x)" "ld_abs e sz k \<noteq> Inr Aborted"
  using assms
  by (cases sz; auto simp: buffer_ok_def EXTRACT_LONG_def EXTRACT_SHORT_def packet_byte_def
      ld_abs_byte_def ld_ancillary_def unat_diff_le not_less word_le_nat_alt word_less_nat_alt
      split: option.splits prod.splits if_splits)+

lemma ld_ind_no_fault:
  assumes "buffer_ok e"
  shows "ld_ind e sz X i \<noteq> Inr (Faulted x)" "ld_ind e sz X i \<noteq> Inr Aborted"
proof -
  show "ld_ind e sz X i \<noteq> Inr (Faulted x)"
  proof (cases sz)
    case SzW
    then show ?thesis using assms index_sum [of i "buflen e" X]
      by (auto simp: buffer_ok_def EXTRACT_LONG_def Let_def not_less)
  next
    case SzH
    then show ?thesis using assms index_sum [of X "buflen e" i]
      by (auto simp: buffer_ok_def EXTRACT_SHORT_def Let_def not_less add.commute)
  next
    case SzB
    with assms show ?thesis
      by (auto simp: buffer_ok_def packet_byte_def Let_def not_le dest: index_sum_less)
  qed
  show "ld_ind e sz X i \<noteq> Inr Aborted"
    by (cases sz; auto simp: EXTRACT_LONG_def EXTRACT_SHORT_def packet_byte_def Let_def)
qed

lemma ldx_msh_no_fault:
  "buffer_ok e \<Longrightarrow> ldx_msh e k \<noteq> Inr (Faulted x)" "ldx_msh e k \<noteq> Inr Aborted"
  by (auto simp: ldx_msh_def buffer_ok_def packet_byte_def not_le word_less_nat_alt split: if_splits)

text \<open>A word load within the captured data is the big-endian value of its bytes.\<close>

lemma EXTRACT_LONG_be:
  "k + 4 \<le> length p \<Longrightarrow> EXTRACT_LONG p k = Inl (field Big k 4 p)"
proof -
  assume le: "k + 4 \<le> length p"
  have "take 4 (drop k p) = [p ! k, p ! (k + 1), p ! (k + 2), p ! (k + 3)]"
    using le by (intro nth_equalityI) (auto simp: less_Suc_eq eval_nat_numeral)
  with le show ?thesis
    by (simp add: EXTRACT_LONG_def field_def decode_word_def word_of_bytes_Cons push_bit_or
        or.assoc or.commute or.left_commute)
qed

lemma EXTRACT_SHORT_be:
  "k + 2 \<le> length p \<Longrightarrow> EXTRACT_SHORT p k = Inl (field Big k 2 p)"
proof -
  assume le: "k + 2 \<le> length p"
  have "take 2 (drop k p) = [p ! k, p ! (k + 1)]"
    using le by (intro nth_equalityI) (auto simp: less_Suc_eq eval_nat_numeral)
  with le show ?thesis
    by (simp add: EXTRACT_SHORT_def field_def decode_word_def word_of_bytes_Cons or.commute)
qed


section \<open>Properties\<close>

lemma ld_abs_word:
  assumes "buffer_ok e"
  shows "ld_abs e SzW k = (if unat k + 4 \<le> unat (buflen e)
      then Inl (field Big (unat k) 4 (packet e)) else Inr (Returned 0))"
    "ld_abs e SzH k = (if unat k + 2 \<le> unat (buflen e)
      then Inl (field Big (unat k) 2 (packet e)) else Inr (Returned 0))"
  using assms unat_diff_le [of k "buflen e"]
  by (auto simp: buffer_ok_def EXTRACT_LONG_be EXTRACT_SHORT_be word_less_nat_alt word_le_nat_alt)

lemma ld_ind_word:
  assumes "buffer_ok e"
  shows "ld_ind e SzW X i = (if unat X + unat i + 4 \<le> unat (buflen e)
      then Inl (field Big (unat X + unat i) 4 (packet e)) else Inr (Returned 0))"
    "ld_ind e SzH X i = (if unat X + unat i + 2 \<le> unat (buflen e)
      then Inl (field Big (unat X + unat i) 2 (packet e)) else Inr (Returned 0))"
proof -
  show "ld_ind e SzW X i = (if unat X + unat i + 4 \<le> unat (buflen e)
      then Inl (field Big (unat X + unat i) 4 (packet e)) else Inr (Returned 0))"
  proof (cases "i \<le> buflen e \<and> X \<le> buflen e - i")
    case True
    with assms index_sum [of i "buflen e" X] show ?thesis
      by (auto simp: buffer_ok_def Let_def EXTRACT_LONG_be not_less)
  next
    case False
    moreover from this have "unat (buflen e) < unat X + unat i" by (simp add: index_sum_iff not_le)
    ultimately show ?thesis by (auto simp: Let_def not_le)
  qed
  show "ld_ind e SzH X i = (if unat X + unat i + 2 \<le> unat (buflen e)
      then Inl (field Big (unat X + unat i) 2 (packet e)) else Inr (Returned 0))"
  proof (cases "X \<le> buflen e \<and> i \<le> buflen e - X")
    case True
    with assms index_sum [of X "buflen e" i] show ?thesis
      by (auto simp: buffer_ok_def Let_def EXTRACT_SHORT_be not_less add.commute)
  next
    case False
    moreover from this have "unat (buflen e) < unat i + unat X" by (simp add: index_sum_iff not_le)
    ultimately show ?thesis by (auto simp: Let_def not_le)
  qed
qed

text \<open>
  Word and half-word loads, absolute and indexed, in exact arithmetic: when the
  field lies inside the captured data the load gives its value in network byte order, otherwise
  the packet is rejected. The 32-bit comparisons of the code cannot wrap around: \<open>X\<close> and \<open>pc->k\<close>
  are added as natural numbers here.
\<close>

theorem bpf_load_spec:
  assumes "unat (buflen e) \<le> length (packet e)"
    and "sz = SzW \<and> n = 4 \<or> sz = SzH \<and> n = 2"
  shows "ld_abs e sz k = (if unat k + n \<le> unat (buflen e)
      then Inl (field Big (unat k) n (packet e)) else Inr (Returned 0)) \<and>
    ld_ind e sz X k = (if unat X + unat k + n \<le> unat (buflen e)
      then Inl (field Big (unat X + unat k) n (packet e)) else Inr (Returned 0))"
proof -
  have "buffer_ok e" using assms(1) by (simp add: buffer_ok_def)
  with assms(2) show ?thesis by (auto simp only: ld_abs_word ld_ind_word)
qed

theorem bpf_load_spec_witness:
  "ld_ind \<lparr>packet = [1, 2, 3, 4, 5, 6], wirelen = 60, buflen = 6, aux_data = None,
     ancillary = None\<rparr> SzW 1 1 = Inl 0x03040506"
  using bpf_load_spec [of "\<lparr>packet = [1, 2, 3, 4, 5, 6], wirelen = 60, buflen = 6,
     aux_data = None, ancillary = None\<rparr>" SzW 4 1 1]
  by (simp add: field_def decode_word_def word_of_bytes_Cons)

lemma packet_byte_cong:
  assumes "take n p = take n q" and "n \<le> length p" and "n \<le> length q" and "k < n"
  shows "packet_byte p k = packet_byte q k"
proof -
  have "p ! k = q ! k" using assms(1,4) by (metis nth_take)
  with assms show ?thesis by (simp add: packet_byte_def)
qed

lemma field_cong:
  assumes "take m p = take m q" and "off + n \<le> m"
  shows "field bo off n p = field bo off n q"
  using assms field_take by metis

lemma exec_op_local:
  assumes "take (unat blen) p = take (unat blen) q"
    and "unat blen \<le> length p" and "unat blen \<le> length q"
  shows "exec_op \<lparr>packet = p, wirelen = wlen, buflen = blen, aux_data = aux, ancillary = anc\<rparr> i s op =
    exec_op \<lparr>packet = q, wirelen = wlen, buflen = blen, aux_data = aux, ancillary = anc\<rparr> i s op"
    (is "exec_op ?e i s op = exec_op ?e' i s op")
proof -
  have ok: "buffer_ok ?e" "buffer_ok ?e'" using assms by (simp_all add: buffer_ok_def)
  have byte: "packet_byte p (unat k) = packet_byte q (unat k)" if "\<not> blen \<le> k" for k
    using packet_byte_cong [OF assms] that by (simp add: word_le_nat_alt)
  have sum: "\<not> (k \<ge> blen \<or> X \<ge> blen - k) \<Longrightarrow> \<not> blen \<le> X + k" for X k
    using index_sum_less [of k blen X] by (simp add: not_le word_less_nat_alt)
  note cong = field_cong [OF assms(1)]
  have abs: "ld_abs ?e sz k = ld_abs ?e' sz k" for sz k
  proof (cases sz)
    case SzW
    show ?thesis unfolding SzW ld_abs_word(1) [OF ok(1)] ld_abs_word(1) [OF ok(2)]
      by (auto intro: cong)
  next
    case SzH
    show ?thesis unfolding SzH ld_abs_word(2) [OF ok(1)] ld_abs_word(2) [OF ok(2)]
      by (auto intro: cong)
  next
    case SzB
    then show ?thesis by (simp add: ld_abs_byte_def ld_ancillary_def byte split: option.split)
  qed
  have ind: "ld_ind ?e sz X k = ld_ind ?e' sz X k" for sz X k
  proof (cases sz)
    case SzW
    show ?thesis unfolding SzW ld_ind_word(1) [OF ok(1)] ld_ind_word(1) [OF ok(2)]
      by (auto intro: cong)
  next
    case SzH
    show ?thesis unfolding SzH ld_ind_word(2) [OF ok(1)] ld_ind_word(2) [OF ok(2)]
      by (auto intro: cong)
  next
    case SzB
    then show ?thesis using byte [OF sum] by (auto simp: Let_def)
  qed
  have msh: "ldx_msh ?e k = ldx_msh ?e' k" for k
    by (simp add: ldx_msh_def byte)
  show ?thesis by (cases op) (simp_all add: abs ind msh del: ld_abs.simps ld_ind.simps)
qed

text \<open>
  C14. A filter looks at nothing but the captured bytes: two buffers with the same
  first \<open>buflen\<close> bytes have the same result, whatever the program does.
\<close>

theorem bpf_filter_local:
  assumes "take (unat blen) p = take (unat blen) q"
    and "unat blen \<le> length p" and "unat blen \<le> length q"
  shows "bpf_filter_with_aux_data mem anc prog p wlen blen aux =
    bpf_filter_with_aux_data mem anc prog q wlen blen aux"
proof -
  have "bpf_step f \<lparr>packet = p, wirelen = wlen, buflen = blen, aux_data = aux, ancillary = anc\<rparr> =
    bpf_step f \<lparr>packet = q, wirelen = wlen, buflen = blen, aux_data = aux, ancillary = anc\<rparr>" for f
    by (rule ext) (simp add: bpf_step_def Let_def exec_op_local [OF assms] split: option.split)
  then show ?thesis by (simp add: bpf_filter_with_aux_data_def split: option.split)
qed

theorem bpf_filter_local_witness:
  "bpf_filter_with_aux_data (replicate 16 0) None (Some [BPF_STMT (BPF_LD OR BPF_H OR BPF_ABS) 0])
       [1, 2, 3] 60 2 None =
     bpf_filter_with_aux_data (replicate 16 0) None (Some [BPF_STMT (BPF_LD OR BPF_H OR BPF_ABS) 0])
       [1, 2, 9, 9] 60 2 None"
  by (rule bpf_filter_local) simp_all

end
