(* ===== verification/Bpf_Image.thy ===== *)
theory Bpf_Image
  imports Bpf_Filter
begin

unbundle bit_operations_syntax

text \<open>
  The disassembler of jni/libpcap/bpf_image.c and the dump of bpf_dump.c, with the conversions of
  \<open>snprintf\<close> they use. \<open>bpf_image\<close> is one \<open>switch\<close> over the opcode that picks a mnemonic and an
  operand format; the buffers are a 64-byte \<open>operand\<close> and a 256-byte \<open>image\<close>.
\<close>

section \<open>snprintf\<close>

definition digit_char :: "nat \<Rightarrow> char" where
  "digit_char d = ''0123456789abcdef'' ! d"

function show_base :: "nat \<Rightarrow> nat \<Rightarrow> string" where
  "show_base b n =
     (if b < 2 \<or> n < b then [digit_char n] else show_base b (n div b) @ [digit_char (n mod b)])"
  by pat_completeness auto
termination
  by (relation "measure snd") (auto intro: div_less_dividend)

declare show_base.simps [simp del]

definition show_int :: "int \<Rightarrow> string" where
  "show_int i = (if i < 0 then ''-'' @ show_base 10 (nat (- i)) else show_base 10 (nat i))"

text \<open>\<open>%03d\<close> and \<open>%-<width>s\<close>.\<close>

definition zero_pad :: "nat \<Rightarrow> string \<Rightarrow> string" where
  "zero_pad w s = replicate (w - length s) CHR ''0'' @ s"

definition show_03d :: "int \<Rightarrow> string" where
  "show_03d i = (if i < 0 then ''-'' @ zero_pad 2 (show_base 10 (nat (- i)))
     else zero_pad 3 (show_base 10 (nat i)))"

definition left_justify :: "nat \<Rightarrow> string \<Rightarrow> string" where
  "left_justify w s = s @ replicate (w - length s) CHR '' ''"

text \<open>A format with at most one conversion, \<open>%d\<close> or \<open>%x\<close>, applied to an \<open>int\<close>.\<close>

fun format1 :: "string \<Rightarrow> u32 \<Rightarrow> string" where
  "format1 (c # d # fmt) v =
     (if c = CHR ''%'' \<and> d = CHR ''d'' then show_int (sint v) @ format1 fmt v
      else if c = CHR ''%'' \<and> d = CHR ''x'' then show_base 16 (unat v) @ format1 fmt v
      else c # format1 (d # fmt) v)"
| "format1 fmt v = fmt"

text \<open>\<open>snprintf\<close> into a buffer of \<open>n\<close> bytes keeps room for the terminating null.\<close>

definition snprintf_to :: "nat \<Rightarrow> string \<Rightarrow> string" where
  "snprintf_to n s = take (n - 1) s"

section \<open>bpf_image\<close>

text \<open>The cases of the \<open>switch\<close>: mnemonic and format; \<open>None\<close> is the default case.\<close>

fun image_size :: "ld_size \<Rightarrow> string" where
  "image_size SzW = ''ld''"
| "image_size SzH = ''ldh''"
| "image_size SzB = ''ldb''"

fun image_load :: "opcode \<Rightarrow> (string \<times> string) option" where
  "image_load Ret_K = Some (''ret'', ''#%d'')"
| "image_load Ret_A = Some (''ret'', '''')"
| "image_load (Ld_Abs sz) = Some (image_size sz, ''[%d]'')"
| "image_load Ld_Len = Some (''ld'', ''#pktlen'')"
| "image_load (Ld_Ind sz) = Some (image_size sz, ''[x + %d]'')"
| "image_load Ld_Imm = Some (''ld'', ''#0x%x'')"
| "image_load Ldx_Imm = Some (''ldx'', ''#0x%x'')"
| "image_load Ldx_Msh = Some (''ldxb'', ''4*([%d]&0xf)'')"
| "image_load Ld_Mem = Some (''ld'', ''M[%d]'')"
| "image_load Ldx_Mem = Some (''ldx'', ''M[%d]'')"
| "image_load St = Some (''st'', ''M[%d]'')"
| "image_load Stx = Some (''stx'', ''M[%d]'')"
| "image_load _ = None"

fun image_cmp :: "cmp \<Rightarrow> string" where
  "image_cmp Jgt = ''jgt''"
| "image_cmp Jge = ''jge''"
| "image_cmp Jeq = ''jeq''"
| "image_cmp Jset = ''jset''"

fun image_jump :: "opcode \<Rightarrow> (string \<times> string) option" where
  "image_jump Ja = Some (''ja'', ''%d'')"
| "image_jump (Jmp c SrcK) = Some (image_cmp c, ''#0x%x'')"
| "image_jump (Jmp c SrcX) = Some (image_cmp c, ''x'')"
| "image_jump _ = None"

fun image_alu :: "alu \<Rightarrow> string \<times> string" where
  "image_alu Add = (''add'', ''#%d'')"
| "image_alu Sub = (''sub'', ''#%d'')"
| "image_alu Mul = (''mul'', ''#%d'')"
| "image_alu Div = (''div'', ''#%d'')"
| "image_alu Mod = (''mod'', ''#%d'')"
| "image_alu And = (''and'', ''#0x%x'')"
| "image_alu Or = (''or'', ''#0x%x'')"
| "image_alu Xor = (''xor'', ''#0x%x'')"
| "image_alu Lsh = (''lsh'', ''#%d'')"
| "image_alu Rsh = (''rsh'', ''#%d'')"

fun image_arith :: "opcode \<Rightarrow> (string \<times> string) option" where
  "image_arith (Alu a SrcX) = Some (fst (image_alu a), ''x'')"
| "image_arith (Alu a SrcK) = Some (image_alu a)"
| "image_arith Neg = Some (''neg'', '''')"
| "image_arith Tax = Some (''tax'', '''')"
| "image_arith Txa = Some (''txa'', '''')"
| "image_arith _ = None"

definition image_case :: "opcode \<Rightarrow> (string \<times> string) option" where
  "image_case op =
     (case image_load op of Some x \<Rightarrow> Some x
      | None \<Rightarrow> case image_jump op of Some x \<Rightarrow> Some x | None \<Rightarrow> image_arith op)"

text \<open>What the \<open>switch\<close> sets: \<open>op\<close>, \<open>fmt\<close> and \<open>v\<close>.\<close>

definition image_switch :: "bpf_insn \<Rightarrow> u32 \<Rightarrow> string \<times> string \<times> u32" where
  "image_switch p n =
     (case decode (i_code p) of
        Some op \<Rightarrow>
          (case image_case op of
             Some (name, fmt) \<Rightarrow> (name, fmt, if op = Ja then n + 1 + i_k p else i_k p)
           | None \<Rightarrow> (''unimp'', ''0x%x'', ucast (i_code p)))
      | None \<Rightarrow> (''unimp'', ''0x%x'', ucast (i_code p)))"

definition image_operand :: "bpf_insn \<Rightarrow> u32 \<Rightarrow> string" where
  "image_operand p n = (let (name, fmt, v) = image_switch p n in snprintf_to 64 (format1 fmt v))"

definition image_line :: "bpf_insn \<Rightarrow> u32 \<Rightarrow> string" where
  "image_line p n =
     (let name = fst (image_switch p n); operand = image_operand p n in
      if BPF_CLASS (i_code p) = BPF_JMP \<and> BPF_OP (i_code p) \<noteq> BPF_JA
      then ''('' @ show_03d (sint n) @ '') '' @ left_justify 8 name @ '' '' @
        left_justify 16 operand @ '' jt '' @ show_int (sint (n + 1 + ucast (i_jt p))) @
        CHR 0x09 # ''jf '' @ show_int (sint (n + 1 + ucast (i_jf p)))
      else ''('' @ show_03d (sint n) @ '') '' @ left_justify 8 name @ '' '' @ operand)"

definition bpf_image :: "bpf_insn \<Rightarrow> u32 \<Rightarrow> string" where
  "bpf_image p n = snprintf_to 256 (image_line p n)"

section \<open>bpf_dump\<close>

text \<open>\<open>%08x\<close> of bpf_dump, and the lines it prints for each value of \<open>option\<close>.\<close>

definition dump_numbers :: "bpf_insn \<Rightarrow> string" where
  "dump_numbers i =
     show_base 10 (unat (i_code i)) @ '' '' @ show_base 10 (unat (i_jt i)) @ '' '' @
     show_base 10 (unat (i_jf i)) @ '' '' @ show_base 10 (unat (i_k i))"

definition dump_initializer :: "bpf_insn \<Rightarrow> string" where
  "dump_initializer i =
     ''{ 0x'' @ show_base 16 (unat (i_code i)) @ '', '' @ show_base 10 (unat (i_jt i)) @ '', '' @
     show_base 10 (unat (i_jf i)) @ '', 0x'' @ zero_pad 8 (show_base 16 (unat (i_k i))) @ '' },''"

definition bpf_dump :: "bpf_insn list \<Rightarrow> int \<Rightarrow> string list" where
  "bpf_dump p opt =
     (if opt > 2 then show_base 10 (length p) # map dump_numbers p
      else if opt > 1 then map dump_initializer p
      else map (\<lambda>i. bpf_image (p ! i) (of_nat i)) [0..<length p])"

section \<open>Lengths\<close>

lemma length_show_base:
  assumes "2 \<le> b" and "0 < k" and "n < b ^ k"
  shows "0 < length (show_base b n) \<and> length (show_base b n) \<le> k"
  using assms(2,3)
proof (induction k arbitrary: n)
  case 0
  then show ?case by simp
next
  case (Suc k)
  show ?case
  proof (cases "n < b")
    case True
    then show ?thesis using assms(1) by (simp add: show_base.simps [of b n])
  next
    case False
    then have "n div b < b ^ k" and "0 < k"
      using Suc.prems assms(1) by (auto simp: less_mult_imp_div_less mult.commute intro: gr0I)
    with Suc.IH [of "n div b"] False assms(1) show ?thesis by (auto simp: show_base.simps [of b n])
  qed
qed

lemma length_show_int32: "length (show_int (sint (v :: u32))) \<le> 11"
proof -
  have "nat (sint v) < 10 ^ 10" "nat (- sint v) < 10 ^ 10"
    using sint32_range [of v, simplified] by simp_all
  then show ?thesis
    using length_show_base [of 10 10 "nat (sint v)"] length_show_base [of 10 10 "nat (- sint v)"]
    by (auto simp: show_int_def)
qed

lemma length_show_hex32: "length (show_base 16 (unat (v :: u32))) \<le> 8"
  using length_show_base [of 16 8 "unat v"] unat32_lt [of v] by simp

lemma length_show_03d: "length (show_03d (sint (v :: u32))) \<le> 11"
proof -
  have "nat (sint v) < 10 ^ 10" "nat (- sint v) < 10 ^ 10"
    using sint32_range [of v, simplified] by simp_all
  then show ?thesis
    using length_show_base [of 10 10 "nat (sint v)"] length_show_base [of 10 10 "nat (- sint v)"]
    by (auto simp: show_03d_def zero_pad_def)
qed

lemma length_format1: "length (format1 fmt v) \<le> length fmt + 10 * count_list fmt (CHR ''%'')"
proof (induction fmt v rule: format1.induct)
  case (1 c d fmt v)
  then show ?case using length_show_int32 [of v] length_show_hex32 [of v] by auto
qed auto

lemma image_switch_cases:
  "image_switch p n = (''unimp'', ''0x%x'', ucast (i_code p)) \<or>
   (\<exists>op name fmt v. decode (i_code p) = Some op \<and> image_case op = Some (name, fmt) \<and>
      image_switch p n = (name, fmt, v))"
  by (auto simp: image_switch_def split: option.split)

lemma image_case_small:
  assumes "image_case op = Some (name, fmt)"
  shows "length name \<le> 5 \<and> name \<noteq> ''unimp'' \<and> length fmt \<le> 12 \<and> count_list fmt (CHR ''%'') \<le> 1"
proof (cases op)
  case (Ld_Abs sz)
  with assms show ?thesis by (cases sz) (auto simp: image_case_def)
next
  case (Ld_Ind sz)
  with assms show ?thesis by (cases sz) (auto simp: image_case_def)
next
  case (Jmp c s)
  with assms show ?thesis by (cases c; cases s) (auto simp: image_case_def)
next
  case (Alu a s)
  with assms show ?thesis by (cases a; cases s) (auto simp: image_case_def)
qed (use assms in \<open>auto simp: image_case_def\<close>)

lemma image_case_None: "image_case op = None \<longleftrightarrow> op = Ldx_Len"
proof (cases op)
  case (Jmp c s)
  then show ?thesis by (cases s) (auto simp: image_case_def)
next
  case (Alu a s)
  then show ?thesis by (cases s) (auto simp: image_case_def)
qed (auto simp: image_case_def)

lemma image_switch_small:
  assumes "image_switch p n = (name, fmt, v)"
  shows "length name \<le> 5 \<and> length (format1 fmt v) \<le> 22"
  using image_switch_cases [of p n]
proof (elim disjE exE conjE)
  assume "image_switch p n = (''unimp'', ''0x%x'', ucast (i_code p))"
  with assms length_format1 [of fmt v] show ?thesis by auto
next
  fix op name' fmt' v'
  assume "image_case op = Some (name', fmt')" and "image_switch p n = (name', fmt', v')"
  with assms image_case_small [of op name fmt] length_format1 [of fmt v] show ?thesis by auto
qed

section \<open>Properties\<close>

text \<open>
  C17. Neither buffer of \<open>bpf_image\<close> is ever too small: the operand text and the
  line are never truncated, whatever the instruction and its number.
\<close>

theorem bpf_image_fits:
  "bpf_image p n = image_line p n \<and> length (bpf_image p n) < 256 \<and>
   image_operand p n = (let (name, fmt, v) = image_switch p n in format1 fmt v)"
proof -
  obtain name fmt v where sw: "image_switch p n = (name, fmt, v)" by (metis prod_cases3)
  note small = image_switch_small [OF sw]
  have opnd: "image_operand p n = format1 fmt v"
    using small by (simp add: image_operand_def sw snprintf_to_def)
  have "length (image_line p n) < 256"
    using small length_show_03d [of n] length_show_int32 [of "n + 1 + ucast (i_jt p)"]
      length_show_int32 [of "n + 1 + ucast (i_jf p)"]
    by (auto simp: image_line_def Let_def sw opnd left_justify_def)
  then show ?thesis by (simp add: bpf_image_def snprintf_to_def sw opnd)
qed

text \<open>
  C18. The disassembler names the instructions the interpreter executes, with one
  exception: it prints \<open>unimp\<close> exactly for the opcodes on which \<open>bpf_filter\<close> aborts, and for
  \<open>BPF_LDX|BPF_W|BPF_LEN\<close>, which \<open>bpf_filter\<close> does execute.
\<close>

theorem bpf_image_known:
  "fst (image_switch p n) = ''unimp'' \<longleftrightarrow>
     bpf_step [p] e (bpf_init mem) = Inr Aborted \<or> i_code p = BPF_LDX OR BPF_W OR BPF_LEN"
proof (cases "decode (i_code p)")
  case None
  then show ?thesis by (simp add: image_switch_def bpf_step_def bpf_init_def)
next
  case (Some op)
  have len: "i_code p = BPF_LDX OR BPF_W OR BPF_LEN \<longleftrightarrow> op = Ldx_Len"
    using Some label_inject [of op Ldx_Len] by (auto simp: decode_Some_iff)
  have "alu_op a sr x y \<noteq> Inr Aborted" for a sr x y by (cases a; cases sr) auto
  moreover have "ld_abs e sz k \<noteq> Inr Aborted" "ld_ind e sz X k \<noteq> Inr Aborted" for sz k X
    by (cases sz; auto simp: EXTRACT_LONG_def EXTRACT_SHORT_def packet_byte_def ld_abs_byte_def
        ld_ancillary_def Let_def split: option.split)+
  ultimately have "exec_op e p (bpf_init mem) op \<noteq> Inr Aborted"
    using ldx_msh_no_fault(2) [of e]
    by (cases op) (auto simp: set_reg_defs mem_read_def mem_write_def split: sum.splits if_splits)
  with Some len image_case_None [of op] image_case_small [of op] show ?thesis
    by (auto simp: image_switch_def bpf_step_def bpf_init_def split: option.split)
qed

end
