(* ===== verification/Icode.thy ===== *)
theory Icode
  imports Bpf_Insn "HOL-Library.Monad_Syntax"
begin

text \<open>
  The flow graph of the filter compiler (jni/libpcap/gencode.h) and its list surgery in
  jni/libpcap/gencode.c: blocks of statements that end in a branch, and the combinators
  \<open>gen_and\<close>, \<open>gen_or\<close>, \<open>gen_not\<close> that join the graphs of two conditions by back-patching.

  The blocks live in a store, a list indexed by the block's number (the order of allocation); a
  \<open>struct block *\<close> is an index, the null pointer is \<open>None\<close>. While an expression is being parsed,
  the branches of a condition that are not resolved yet are threaded into two lists through the
  very fields that will hold their targets; \<open>sense\<close> says which of the two fields of a block is
  the link. Following such a list need not end on a list with a cycle, and a pointer that is not
  in the store has no contents: both are \<open>None\<close>, no defined result.

  The abstraction: a condition is a decision tree whose leaves say whether it holds
  (\<open>Exit\<close>), and \<open>represents\<close> relates it to the blocks. The combinators are substitutions of trees
  for leaves.
\<close>

section \<open>Statements and blocks\<close>

text \<open>
  \<open>struct stmt\<close> and the nodes of \<open>struct slist\<close>. \<open>jt\<close> and \<open>jf\<close> of a statement point to nodes of
  the same list, so a node carries its address. The \<open>int\<close> code is a 32-bit word, \<open>NOP\<close> is -1.
\<close>

record stmt =
  s_code :: u32
  s_jt :: "nat option"
  s_jf :: "nat option"
  s_k :: u32

record slist =
  sl_addr :: nat
  sl_stmt :: stmt

text \<open>
  \<open>struct block\<close>: the fields that code generation and the conversion to BPF use
  (\<open>et.succ\<close> and \<open>ef.succ\<close> are \<open>JT\<close> and \<open>JF\<close>). The fields of the data-flow analysis are not
  here, and \<open>mark\<close> is membership in the set of marked blocks of a traversal.
\<close>

record block =
  b_stmts :: "slist list"
  b_s :: stmt
  b_longjt :: u32
  b_longjf :: u32
  b_offset :: u32
  b_sense :: bool
  b_jt :: "nat option"
  b_jf :: "nat option"
  b_head :: nat

type_synonym graph = "block list"

definition NOP :: u32 where "NOP = - 1"

definition JMP_code :: "u16 \<Rightarrow> u32" where
  "JMP_code c = ucast (c OR BPF_JMP OR BPF_K)"

definition plain_stmt :: "u32 \<Rightarrow> u32 \<Rightarrow> stmt" where
  "plain_stmt c k = \<lparr>s_code = c, s_jt = None, s_jf = None, s_k = k\<rparr>"

text \<open>\<open>new_block\<close>, with the branch operand its callers store next; memory from \<open>newchunk\<close> is zeroed.\<close>

definition fresh_block :: "u32 \<Rightarrow> nat \<Rightarrow> block" where
  "fresh_block code i =
     \<lparr>b_stmts = [], b_s = plain_stmt code 0, b_longjt = 0, b_longjf = 0, b_offset = 0,
      b_sense = False, b_jt = None, b_jf = None, b_head = i\<rparr>"

definition new_block :: "u32 \<Rightarrow> graph \<Rightarrow> nat \<times> graph" where
  "new_block code g = (length g, g @ [fresh_block code (length g)])"

definition set_stmts :: "nat \<Rightarrow> slist list \<Rightarrow> graph \<Rightarrow> graph" where
  "set_stmts i ss g = g[i := (g ! i)\<lparr>b_stmts := ss\<rparr>]"

definition set_k :: "nat \<Rightarrow> u32 \<Rightarrow> graph \<Rightarrow> graph" where
  "set_k i k g = g[i := (g ! i)\<lparr>b_s := (b_s (g ! i))\<lparr>s_k := k\<rparr>\<rparr>]"

definition gen_retblk :: "u32 \<Rightarrow> graph \<Rightarrow> nat \<times> graph" where
  "gen_retblk v g = (let (b, g) = new_block (ucast (BPF_RET OR BPF_K)) g in (b, set_k b v g))"

section \<open>Back-patching\<close>

definition b_succ :: "block \<Rightarrow> bool \<Rightarrow> nat option" where
  "b_succ b arm = (if arm then b_jt b else b_jf b)"

definition set_succ :: "nat \<Rightarrow> bool \<Rightarrow> nat option \<Rightarrow> graph \<Rightarrow> graph" where
  "set_succ i arm v g =
     g[i := (if arm then (g ! i)\<lparr>b_jt := v\<rparr> else (g ! i)\<lparr>b_jf := v\<rparr>)]"

definition flip_sense :: "nat \<Rightarrow> graph \<Rightarrow> graph" where
  "flip_sense i g = g[i := (g ! i)\<lparr>b_sense := \<not> b_sense (g ! i)\<rparr>]"

definition set_head :: "nat \<Rightarrow> nat \<Rightarrow> graph \<Rightarrow> graph" where
  "set_head i h g = g[i := (g ! i)\<lparr>b_head := h\<rparr>]"

text \<open>The field a block is linked by: \<open>!sense\<close> selects \<open>JT\<close>.\<close>

definition list_arm :: "block \<Rightarrow> bool" where
  "list_arm b = (\<not> b_sense b)"

partial_function (option) backpatch :: "nat option \<Rightarrow> nat \<Rightarrow> graph \<Rightarrow> graph option" where
  "backpatch lst target g =
     (case lst of
        None \<Rightarrow> Some g
      | Some i \<Rightarrow>
          if i < length g then
            let arm = list_arm (g ! i); nxt = b_succ (g ! i) arm in
            backpatch nxt target (set_succ i arm (Some target) g)
          else None)"

text \<open>\<open>merge\<close> is never called with a null \<open>b0\<close>; the end of its list is the field to assign.\<close>

partial_function (option) merge :: "nat \<Rightarrow> nat \<Rightarrow> graph \<Rightarrow> graph option" where
  "merge b0 b1 g =
     (if b0 < length g then
        let arm = list_arm (g ! b0) in
        (case b_succ (g ! b0) arm of
           None \<Rightarrow> Some (set_succ b0 arm (Some b1) g)
         | Some n \<Rightarrow> merge n b1 g)
      else None)"

definition gen_and :: "nat \<Rightarrow> nat \<Rightarrow> graph \<Rightarrow> graph option" where
  "gen_and b0 b1 g = do {
     g \<leftarrow> backpatch (Some b0) (b_head (g ! b1)) g;
     let g = flip_sense b0 g;
     let g = flip_sense b1 g;
     g \<leftarrow> merge b1 b0 g;
     let g = flip_sense b1 g;
     Some (set_head b1 (b_head (g ! b0)) g)
   }"

definition gen_or :: "nat \<Rightarrow> nat \<Rightarrow> graph \<Rightarrow> graph option" where
  "gen_or b0 b1 g = do {
     let g = flip_sense b0 g;
     g \<leftarrow> backpatch (Some b0) (b_head (g ! b1)) g;
     let g = flip_sense b0 g;
     g \<leftarrow> merge b1 b0 g;
     Some (set_head b1 (b_head (g ! b0)) g)
   }"

definition gen_not :: "nat \<Rightarrow> graph \<Rightarrow> graph" where
  "gen_not b g = flip_sense b g"

text \<open>
  The end of \<open>finish_parse\<close>: the unresolved branches go to the two return blocks; the result is
  the root of the program.
\<close>

definition finish_branches :: "u32 \<Rightarrow> nat \<Rightarrow> graph \<Rightarrow> (nat \<times> graph) option" where
  "finish_branches snaplen p g = do {
     let (r, g) = gen_retblk snaplen g;
     g \<leftarrow> backpatch (Some p) r g;
     let g = flip_sense p g;
     let (r, g) = gen_retblk 0 g;
     g \<leftarrow> backpatch (Some p) r g;
     Some (b_head (g ! p), g)
   }"

end
