(* ===== verification/Linktype.thy ===== *)
theory Linktype
  imports Jx_Prelude
begin

text \<open>
  Link-layer types: the \<open>DLT_\<close> values a program sees, which differ between operating systems
  (pcap/bpf.h), the \<open>LINKTYPE_\<close> values a savefile carries, which do not (pcap-common.c), and
  the two functions that map one to the other. A C \<open>int\<close> is an \<open>int\<close>: the code only
  compares these values.
\<close>

section \<open>The values\<close>

text \<open>The operating systems pcap/bpf.h tells apart with \<open>#ifdef\<close>.\<close>

datatype platform = OpenBSD | NetBSD | FreeBSD | DragonFly | Apple | Other_OS

abbreviation (input) "DLT_NULL \<equiv> 0 :: int"
abbreviation (input) "DLT_EN10MB \<equiv> 1 :: int"
abbreviation (input) "DLT_EN3MB \<equiv> 2 :: int"
abbreviation (input) "DLT_AX25 \<equiv> 3 :: int"
abbreviation (input) "DLT_PRONET \<equiv> 4 :: int"
abbreviation (input) "DLT_CHAOS \<equiv> 5 :: int"
abbreviation (input) "DLT_IEEE802 \<equiv> 6 :: int"
abbreviation (input) "DLT_ARCNET \<equiv> 7 :: int"
abbreviation (input) "DLT_SLIP \<equiv> 8 :: int"
abbreviation (input) "DLT_PPP \<equiv> 9 :: int"
abbreviation (input) "DLT_FDDI \<equiv> 10 :: int"
abbreviation (input) "DLT_ATM_RFC1483 \<equiv> 11 :: int"
abbreviation (input) "DLT_ATM_CLIP \<equiv> 19 :: int"
abbreviation (input) "DLT_PPP_SERIAL \<equiv> 50 :: int"
abbreviation (input) "DLT_PPP_ETHER \<equiv> 51 :: int"
abbreviation (input) "DLT_SYMANTEC_FIREWALL \<equiv> 99 :: int"
abbreviation (input) "DLT_MATCHING_MIN \<equiv> 104 :: int"
abbreviation (input) "DLT_C_HDLC \<equiv> 104 :: int"
abbreviation (input) "DLT_USER2 \<equiv> 149 :: int"
abbreviation (input) "DLT_USB_LINUX \<equiv> 189 :: int"
abbreviation (input) "DLT_USB_LINUX_MMAPPED \<equiv> 220 :: int"
abbreviation (input) "DLT_NFLOG \<equiv> 239 :: int"
abbreviation (input) "DLT_MATCHING_MAX \<equiv> 263 :: int"

definition DLT_RAW :: "platform \<Rightarrow> int" where
  "DLT_RAW pf = (if pf = OpenBSD then 14 else 12)"

definition DLT_SLIP_BSDOS :: "platform \<Rightarrow> int" where
  "DLT_SLIP_BSDOS pf = (if pf = NetBSD \<or> pf = FreeBSD then 13 else 15)"

definition DLT_PPP_BSDOS :: "platform \<Rightarrow> int" where
  "DLT_PPP_BSDOS pf = (if pf = NetBSD \<or> pf = FreeBSD then 14 else 16)"

definition DLT_LOOP :: "platform \<Rightarrow> int" where
  "DLT_LOOP pf = (if pf = OpenBSD then 12 else 108)"

definition DLT_ENC :: "platform \<Rightarrow> int" where
  "DLT_ENC pf = (if pf = OpenBSD then 13 else 109)"

text \<open>\<open>DLT_PFSYNC\<close>: 18 where pf came from, 121 on FreeBSD, 246 where nobody defined it.\<close>

definition DLT_PFSYNC :: "platform \<Rightarrow> int" where
  "DLT_PFSYNC pf = (case pf of OpenBSD \<Rightarrow> 18 | NetBSD \<Rightarrow> 18 | DragonFly \<Rightarrow> 18 | Apple \<Rightarrow> 18
     | FreeBSD \<Rightarrow> 121 | Other_OS \<Rightarrow> 246)"

definition DLT_PKTAP :: "platform \<Rightarrow> int" where
  "DLT_PKTAP pf = (if pf = Apple then DLT_USER2 else 258)"

abbreviation (input) "LINKTYPE_PPP_HDLC \<equiv> 50 :: int"
abbreviation (input) "LINKTYPE_PPP_ETHER \<equiv> 51 :: int"
abbreviation (input) "LINKTYPE_SYMANTEC_FIREWALL \<equiv> 99 :: int"
abbreviation (input) "LINKTYPE_ATM_RFC1483 \<equiv> 100 :: int"
abbreviation (input) "LINKTYPE_RAW \<equiv> 101 :: int"
abbreviation (input) "LINKTYPE_SLIP_BSDOS \<equiv> 102 :: int"
abbreviation (input) "LINKTYPE_PPP_BSDOS \<equiv> 103 :: int"
abbreviation (input) "LINKTYPE_MATCHING_MIN \<equiv> 104 :: int"
abbreviation (input) "LINKTYPE_C_HDLC \<equiv> 104 :: int"
abbreviation (input) "LINKTYPE_ATM_CLIP \<equiv> 106 :: int"
abbreviation (input) "LINKTYPE_PFSYNC \<equiv> 246 :: int"
abbreviation (input) "LINKTYPE_PKTAP \<equiv> 258 :: int"
abbreviation (input) "LINKTYPE_MATCHING_MAX \<equiv> 262 :: int"

section \<open>The table and the two functions\<close>

text \<open>
  The table \<open>map[]\<close>, its end marker included; \<open>DLT_FR\<close> is defined by no platform of
  pcap/bpf.h, so its entry is not compiled.
\<close>

definition linktype_map :: "platform \<Rightarrow> (int \<times> int) list" where
  "linktype_map pf =
    [(DLT_NULL, 0), (DLT_EN10MB, 1), (DLT_EN3MB, 2), (DLT_AX25, 3), (DLT_PRONET, 4),
     (DLT_CHAOS, 5), (DLT_IEEE802, 6), (DLT_ARCNET, 7), (DLT_SLIP, 8), (DLT_PPP, 9),
     (DLT_FDDI, 10),
     (DLT_SYMANTEC_FIREWALL, LINKTYPE_SYMANTEC_FIREWALL),
     (DLT_ATM_RFC1483, LINKTYPE_ATM_RFC1483),
     (DLT_RAW pf, LINKTYPE_RAW),
     (DLT_SLIP_BSDOS pf, LINKTYPE_SLIP_BSDOS),
     (DLT_PPP_BSDOS pf, LINKTYPE_PPP_BSDOS),
     (DLT_C_HDLC, LINKTYPE_C_HDLC),
     (DLT_ATM_CLIP, LINKTYPE_ATM_CLIP),
     (DLT_PPP_SERIAL, LINKTYPE_PPP_HDLC),
     (DLT_PPP_ETHER, LINKTYPE_PPP_ETHER),
     (-1, -1)]"

text \<open>The two loops over the table; each returns \<open>None\<close> when it meets the end marker.\<close>

fun find_dlt :: "(int \<times> int) list \<Rightarrow> int \<Rightarrow> int option" where
  "find_dlt [] dlt = None"
| "find_dlt ((d, l) # rest) dlt =
     (if d = -1 then None else if d = dlt then Some l else find_dlt rest dlt)"

fun find_linktype :: "(int \<times> int) list \<Rightarrow> int \<Rightarrow> int option" where
  "find_linktype [] lt = None"
| "find_linktype ((d, l) # rest) lt =
     (if l = -1 then None else if l = lt then Some d else find_linktype rest lt)"

definition dlt_to_linktype :: "platform \<Rightarrow> int \<Rightarrow> int" where
  "dlt_to_linktype pf dlt =
     (if dlt = DLT_PFSYNC pf then LINKTYPE_PFSYNC
      else if dlt = DLT_PKTAP pf then LINKTYPE_PKTAP
      else if DLT_MATCHING_MIN \<le> dlt \<and> dlt \<le> DLT_MATCHING_MAX then dlt
      else (case find_dlt (linktype_map pf) dlt of Some l \<Rightarrow> l | None \<Rightarrow> -1))"

definition linktype_to_dlt :: "platform \<Rightarrow> int \<Rightarrow> int" where
  "linktype_to_dlt pf linktype =
     (if linktype = LINKTYPE_PFSYNC then DLT_PFSYNC pf
      else if linktype = LINKTYPE_PKTAP then DLT_PKTAP pf
      else if LINKTYPE_MATCHING_MIN \<le> linktype \<and> linktype \<le> LINKTYPE_MATCHING_MAX then linktype
      else (case find_linktype (linktype_map pf) linktype of Some d \<Rightarrow> d | None \<Rightarrow> linktype))"

lemmas platform_values =
  DLT_RAW_def DLT_SLIP_BSDOS_def DLT_PPP_BSDOS_def DLT_LOOP_def DLT_ENC_def DLT_PFSYNC_def
  DLT_PKTAP_def

lemmas linktype_defs = dlt_to_linktype_def linktype_to_dlt_def linktype_map_def platform_values

section \<open>Properties\<close>

text \<open>
  The values that do not come back: the file values of \<open>DLT_PFSYNC\<close> and \<open>DLT_PKTAP\<close> on a
  platform where these are other numbers, and \<open>DLT_ATM_CLIP\<close>.
\<close>

definition lost_dlt :: "platform \<Rightarrow> int \<Rightarrow> bool" where
  "lost_dlt pf dlt \<longleftrightarrow>
     dlt = LINKTYPE_PFSYNC \<and> DLT_PFSYNC pf \<noteq> dlt \<or> dlt = LINKTYPE_PKTAP \<and> DLT_PKTAP pf \<noteq> dlt \<or>
     dlt = DLT_ATM_CLIP"

lemma dlt_to_linktype_range:
  "dlt_to_linktype pf dlt = -1 \<or> 0 \<le> dlt_to_linktype pf dlt \<and> dlt_to_linktype pf dlt \<le> 263"
  by (simp add: linktype_defs split: platform.splits)

text \<open>
  What a link-layer type is saved as can be read back: whenever
  \<open>dlt_to_linktype\<close> finds a file value, \<open>linktype_to_dlt\<close> on the same platform gives the
  \<open>DLT_\<close> value back, but for three values: 246 and 258 on a platform whose own \<open>DLT_PFSYNC\<close>
  or \<open>DLT_PKTAP\<close> is a different number, and 19, \<open>DLT_ATM_CLIP\<close>. The ends of the two matching
  ranges differ (263 is in the range of \<open>DLT_\<close> values only) without harm.
\<close>

theorem dlt_roundtrip:
  assumes "dlt_to_linktype pf dlt \<noteq> -1" and "\<not> lost_dlt pf dlt"
  shows "linktype_to_dlt pf (dlt_to_linktype pf dlt) = dlt"
  using assms
  by (cases pf) (auto simp: linktype_defs lost_dlt_def split: if_splits)

theorem dlt_roundtrip_witness: "linktype_to_dlt OpenBSD (dlt_to_linktype OpenBSD 14) = 14"
  by (rule dlt_roundtrip) (simp_all add: linktype_defs lost_dlt_def)

text \<open>The link-layer types with a name of their own, and the value of the name on a platform.\<close>

datatype link_name = Raw_IP | Slip_BSDOS | Ppp_BSDOS | Pfsync | Pktap | Loopback | Enc | Shared int

fun dlt_of :: "platform \<Rightarrow> link_name \<Rightarrow> int" where
  "dlt_of pf Raw_IP = DLT_RAW pf"
| "dlt_of pf Slip_BSDOS = DLT_SLIP_BSDOS pf"
| "dlt_of pf Ppp_BSDOS = DLT_PPP_BSDOS pf"
| "dlt_of pf Pfsync = DLT_PFSYNC pf"
| "dlt_of pf Pktap = DLT_PKTAP pf"
| "dlt_of pf Loopback = DLT_LOOP pf"
| "dlt_of pf Enc = DLT_ENC pf"
| "dlt_of pf (Shared n) = n"

text \<open>The value documented for a savefile.\<close>

fun file_value :: "link_name \<Rightarrow> int" where
  "file_value Raw_IP = 101"
| "file_value Slip_BSDOS = 102"
| "file_value Ppp_BSDOS = 103"
| "file_value Pfsync = 246"
| "file_value Pktap = 258"
| "file_value Loopback = 108"
| "file_value Enc = 109"
| "file_value (Shared n) = (if n = 11 then 100 else n)"

text \<open>
  The names the mapping carries from one platform to another. \<open>DLT_LOOP\<close> and \<open>DLT_ENC\<close> have
  their own values on OpenBSD, and the table has no entry for them. A value shared by all
  platforms is one of the old ones (at most 11, or 50, 51, 99) or in the matching range, where
  121 is \<open>DLT_PFSYNC\<close> on FreeBSD and 149 is \<open>DLT_PKTAP\<close> on Apple's systems, and where 108 and
  109, which OpenBSD does not use for a name of its own, stand for themselves.
\<close>

definition shared_value :: "int \<Rightarrow> bool" where
  "shared_value n \<longleftrightarrow>
     0 \<le> n \<and> n \<le> 11 \<or> n = 50 \<or> n = 51 \<or> n = 99 \<or> 104 \<le> n \<and> n \<le> 263 \<and> n \<noteq> 246 \<and> n \<noteq> 258"

fun portable :: "link_name \<Rightarrow> platform \<Rightarrow> bool" where
  "portable Loopback pf \<longleftrightarrow> pf \<noteq> OpenBSD"
| "portable Enc pf \<longleftrightarrow> pf \<noteq> OpenBSD"
| "portable (Shared n) pf \<longleftrightarrow>
     shared_value n \<and> \<not> (n = 121 \<and> pf = FreeBSD) \<and> \<not> (n = 149 \<and> pf = Apple)"
| "portable _ pf \<longleftrightarrow> True"

lemma shared_value_cases:
  assumes "shared_value n"
  obtains "n = 0" | "n = 1" | "n = 2" | "n = 3" | "n = 4" | "n = 5" | "n = 6" | "n = 7" | "n = 8"
    | "n = 9" | "n = 10" | "n = 11" | "n = 50" | "n = 51" | "n = 99"
    | "104 \<le> n" "n \<le> 263" "n \<noteq> 246" "n \<noteq> 258"
proof -
  have "0 \<le> n \<and> n \<le> 11 \<Longrightarrow> n \<in> {0, 1, 2, 3, 4, 5, 6, 7, 8, 9, 10, 11}"
    by simp presburger
  then show thesis using assms that by (auto simp: shared_value_def)
qed

lemma shared_saved:
  "shared_value n \<Longrightarrow> (n = 121 \<longrightarrow> pf \<noteq> FreeBSD) \<Longrightarrow> (n = 149 \<longrightarrow> pf \<noteq> Apple) \<Longrightarrow>
   dlt_to_linktype pf n = file_value (Shared n)"
  by (erule shared_value_cases; cases pf; simp add: linktype_defs)

lemma shared_read:
  "shared_value n \<Longrightarrow> (n = 121 \<longrightarrow> pf \<noteq> FreeBSD) \<Longrightarrow> (n = 149 \<longrightarrow> pf \<noteq> Apple) \<Longrightarrow>
   linktype_to_dlt pf (file_value (Shared n)) = n"
  by (erule shared_value_cases; cases pf; simp add: linktype_defs)

lemma saved_as_file_value:
  assumes "portable n pf"
  shows "dlt_to_linktype pf (dlt_of pf n) = file_value n"
proof (cases "\<exists>m. n = Shared m")
  case True
  then show ?thesis using assms shared_saved by auto
next
  case False
  then show ?thesis using assms by (cases n; cases pf; simp add: linktype_defs)
qed

lemma read_as_dlt_of:
  assumes "portable n pf"
  shows "linktype_to_dlt pf (file_value n) = dlt_of pf n"
proof (cases "\<exists>m. n = Shared m")
  case True
  then show ?thesis using assms shared_read by (auto simp del: file_value.simps)
next
  case False
  then show ?thesis using assms by (cases n; cases pf; simp add: linktype_defs)
qed

text \<open>
  C15. A savefile written on one platform is read on any other with the same
  meaning: the file value of a named link-layer type is the same whoever writes it, and the
  reader maps it to the \<open>DLT_\<close> value that the same name has on its own platform.
\<close>

theorem dlt_portable:
  assumes "portable n writer" and "portable n reader"
  shows "dlt_to_linktype writer (dlt_of writer n) = file_value n \<and>
    linktype_to_dlt reader (dlt_to_linktype writer (dlt_of writer n)) = dlt_of reader n"
  using assms by (simp add: saved_as_file_value read_as_dlt_of)

theorem dlt_portable_witness:
  "linktype_to_dlt FreeBSD (dlt_to_linktype OpenBSD 14) = 12"
  using conjunct2 [OF dlt_portable [of Raw_IP OpenBSD FreeBSD]] by (simp add: DLT_RAW_def)

text \<open>
  Where the mapping fails. On OpenBSD \<open>DLT_LOOP\<close> (12) and \<open>DLT_ENC\<close> (13)
  have no file value: a capture on an OpenBSD loopback device cannot be saved, and a file with
  \<open>LINKTYPE_LOOP\<close> (108) read there is not \<open>DLT_LOOP\<close>. On every platform \<open>DLT_ATM_CLIP\<close> (19) is
  saved as 106, which lies in the matching range and so is read as 106 and never as 19: the
  table's entry is not reached on the way back.
\<close>

theorem dlt_mapping_gaps:
  "dlt_to_linktype OpenBSD (DLT_LOOP OpenBSD) = -1 \<and>
   dlt_to_linktype OpenBSD (DLT_ENC OpenBSD) = -1 \<and>
   linktype_to_dlt OpenBSD (dlt_to_linktype Other_OS (DLT_LOOP Other_OS)) \<noteq> DLT_LOOP OpenBSD \<and>
   dlt_to_linktype pf DLT_ATM_CLIP = 106 \<and> linktype_to_dlt pf 106 = 106"
  by (cases pf) (simp_all add: linktype_defs)

end
