(* ===== verification/Gencode_State.thy ===== *)
theory Gencode_State
  imports Icode Linktype
begin

unbundle bit_operations_syntax

text \<open>
  The code generator's state and its lowest layer (jni/libpcap/gencode.c): the static variables
  that describe the packet's layout and their initialisation for a link type
  (\<open>init_linktype\<close>), the allocation of scratch registers and statements, the loads of packet
  fields, and the comparisons made of them.

  The generator's functions change static variables and leave through \<open>longjmp\<close> when they call
  \<open>bpf_error\<close>: a function of the model takes the state and gives an error or a value and the new
  state. \<open>newchunk\<close> is assumed to find memory (when it does not, \<open>bpf_error\<close> ends the
  compilation as for any other error). A statement list is used by one owner at a time, so that
  \<open>sappend\<close> is the append of lists.
\<close>

section \<open>State\<close>

text \<open>
  \<open>bpf_abs_offset\<close>; \<open>reg\<close> is -1 or a register's number. \<open>layout\<close> holds the offsets of the
  headers, \<open>cstate\<close> the rest of the generator's state: \<open>regused\<close>, \<open>curreg\<close>, the blocks, and
  the address of the next statement.
\<close>

record abs_offset =
  is_variable :: bool
  constant_part :: u32
  ao_reg :: int

record layout =
  outermostlinktype :: int
  prevlinktype :: int
  linktype :: int
  off_outermostlinkhdr :: abs_offset
  off_prevlinkhdr :: abs_offset
  off_linkhdr :: abs_offset
  off_linkpl :: abs_offset
  off_linktype :: abs_offset
  off_nl :: u32
  off_nl_nosnap :: u32
  is_atm :: bool
  is_geneve :: bool
  off_vpi :: u32
  off_vci :: u32
  off_proto :: u32
  off_payload :: u32
  off_li :: u32
  off_li_hsl :: u32
  off_sio :: u32
  off_opc :: u32
  off_dpc :: u32
  off_sls :: u32
  label_stack_depth :: u32
  vlan_stack_depth :: u32

record cstate =
  cs_layout :: layout
  cs_snaplen :: u32
  cs_netmask :: u32
  cs_regused :: "bool list"
  cs_curreg :: nat
  cs_next_addr :: nat
  cs_graph :: graph

text \<open>
  The errors: \<open>bpf_error\<close> with its format and its arguments, \<open>abort()\<close>, and a run without a
  defined result.
\<close>

datatype gen_error = Bpf_error string "int list" | Aborts | No_result

type_synonym ('s, 'a) gen_in = "'s \<Rightarrow> gen_error + 'a \<times> 's"
type_synonym 'a gen = "(cstate, 'a) gen_in"

definition gret :: "'a \<Rightarrow> ('s, 'a) gen_in" where
  "gret a s = Inr (a, s)"

definition gbind :: "('s, 'a) gen_in \<Rightarrow> ('a \<Rightarrow> ('s, 'b) gen_in) \<Rightarrow> ('s, 'b) gen_in" where
  "gbind m f s = (case m s of Inl e \<Rightarrow> Inl e | Inr (a, s) \<Rightarrow> f a s)"

definition gfail :: "gen_error \<Rightarrow> ('s, 'a) gen_in" where
  "gfail e s = Inl e"

definition gget :: "('s \<Rightarrow> 'a) \<Rightarrow> ('s, 'a) gen_in" where
  "gget f s = Inr (f s, s)"

definition gmodify :: "('s \<Rightarrow> 's) \<Rightarrow> ('s, unit) gen_in" where
  "gmodify f s = Inr ((), f s)"

definition on_graph :: "(graph \<Rightarrow> graph option) \<Rightarrow> unit gen" where
  "on_graph f s =
     (case f (cs_graph s) of None \<Rightarrow> Inl No_result | Some g \<Rightarrow> Inr ((), s\<lparr>cs_graph := g\<rparr>))"

section \<open>Link types\<close>

abbreviation (input) "DLT_FRELAY \<equiv> 107 :: int"
abbreviation (input) "DLT_IEEE802_11 \<equiv> 105 :: int"
abbreviation (input) "DLT_LINUX_SLL \<equiv> 113 :: int"
abbreviation (input) "DLT_LTALK \<equiv> 114 :: int"
abbreviation (input) "DLT_PFLOG \<equiv> 117 :: int"
abbreviation (input) "DLT_PRISM_HEADER \<equiv> 119 :: int"
abbreviation (input) "DLT_IP_OVER_FC \<equiv> 122 :: int"
abbreviation (input) "DLT_SUNATM \<equiv> 123 :: int"
abbreviation (input) "DLT_IEEE802_11_RADIO \<equiv> 127 :: int"
abbreviation (input) "DLT_ARCNET_LINUX \<equiv> 129 :: int"
abbreviation (input) "DLT_JUNIPER_MLPPP \<equiv> 130 :: int"
abbreviation (input) "DLT_JUNIPER_MLFR \<equiv> 131 :: int"
abbreviation (input) "DLT_JUNIPER_ES \<equiv> 132 :: int"
abbreviation (input) "DLT_JUNIPER_GGSN \<equiv> 133 :: int"
abbreviation (input) "DLT_JUNIPER_MFR \<equiv> 134 :: int"
abbreviation (input) "DLT_JUNIPER_ATM2 \<equiv> 135 :: int"
abbreviation (input) "DLT_JUNIPER_SERVICES \<equiv> 136 :: int"
abbreviation (input) "DLT_JUNIPER_ATM1 \<equiv> 137 :: int"
abbreviation (input) "DLT_APPLE_IP_OVER_IEEE1394 \<equiv> 138 :: int"
abbreviation (input) "DLT_MTP2_WITH_PHDR \<equiv> 139 :: int"
abbreviation (input) "DLT_MTP2 \<equiv> 140 :: int"
abbreviation (input) "DLT_IEEE802_11_RADIO_AVS \<equiv> 163 :: int"
abbreviation (input) "DLT_JUNIPER_MONITOR \<equiv> 164 :: int"
abbreviation (input) "DLT_BACNET_MS_TP \<equiv> 165 :: int"
abbreviation (input) "DLT_PPP_PPPD \<equiv> 166 :: int"
abbreviation (input) "DLT_JUNIPER_PPPOE \<equiv> 167 :: int"
abbreviation (input) "DLT_JUNIPER_PPPOE_ATM \<equiv> 168 :: int"
abbreviation (input) "DLT_JUNIPER_ETHER \<equiv> 178 :: int"
abbreviation (input) "DLT_JUNIPER_PPP \<equiv> 179 :: int"
abbreviation (input) "DLT_JUNIPER_FRELAY \<equiv> 180 :: int"
abbreviation (input) "DLT_JUNIPER_CHDLC \<equiv> 181 :: int"
abbreviation (input) "DLT_MFR \<equiv> 182 :: int"
abbreviation (input) "DLT_JUNIPER_VP \<equiv> 183 :: int"
abbreviation (input) "DLT_PPI \<equiv> 192 :: int"
abbreviation (input) "DLT_JUNIPER_ISM \<equiv> 194 :: int"
abbreviation (input) "DLT_ERF \<equiv> 197 :: int"
abbreviation (input) "DLT_JUNIPER_ST \<equiv> 200 :: int"
abbreviation (input) "DLT_AX25_KISS \<equiv> 202 :: int"
abbreviation (input) "DLT_IPNET \<equiv> 226 :: int"
abbreviation (input) "DLT_IPV4 \<equiv> 228 :: int"
abbreviation (input) "DLT_IPV6 \<equiv> 229 :: int"
abbreviation (input) "DLT_JUNIPER_VS \<equiv> 232 :: int"
abbreviation (input) "DLT_JUNIPER_SRX_E2E \<equiv> 233 :: int"
abbreviation (input) "DLT_JUNIPER_FIBRECHANNEL \<equiv> 234 :: int"
abbreviation (input) "DLT_JUNIPER_ATM_CEMIC \<equiv> 238 :: int"
abbreviation (input) "DLT_NETANALYZER \<equiv> 240 :: int"
abbreviation (input) "DLT_NETANALYZER_TRANSPARENT \<equiv> 241 :: int"

text \<open>
  \<open>init_linktype\<close>: everything is reset, then the \<open>switch\<close> sets the offsets of the link type
  (the case of \<open>DLT_PFLOG\<close> is not compiled, \<open>HAVE_NET_PFVAR_H\<close> is undefined). \<open>fddipad\<close> is
  the handle's. The cases are in five functions, each \<open>None\<close> for a type that is not among its own.
  \<open>set_offsets\<close> is the common form of the cases, in the order \<open>off_linktype\<close>,
  \<open>off_linkpl\<close>, \<open>off_nl\<close>, \<open>off_nl_nosnap\<close>.
\<close>

definition no_offset :: abs_offset where
  "no_offset = \<lparr>is_variable = False, constant_part = 0, ao_reg = - 1\<rparr>"

definition fresh_layout :: "int \<Rightarrow> layout" where
  "fresh_layout dlt =
     \<lparr>outermostlinktype = dlt, prevlinktype = dlt, linktype = dlt,
      off_outermostlinkhdr = no_offset, off_prevlinkhdr = no_offset, off_linkhdr = no_offset,
      off_linkpl = no_offset, off_linktype = no_offset, off_nl = 0, off_nl_nosnap = 0,
      is_atm = False, is_geneve = False, off_vpi = - 1, off_vci = - 1, off_proto = - 1,
      off_payload = - 1, off_li = - 1, off_li_hsl = - 1, off_sio = - 1, off_opc = - 1,
      off_dpc = - 1, off_sls = - 1, label_stack_depth = 0, vlan_stack_depth = 0\<rparr>"

definition set_offsets :: "u32 \<Rightarrow> u32 \<Rightarrow> u32 \<Rightarrow> u32 \<Rightarrow> layout \<Rightarrow> layout" where
  "set_offsets lt pl nl nosnap l =
     l\<lparr>off_linktype := (off_linktype l)\<lparr>constant_part := lt\<rparr>,
       off_linkpl := (off_linkpl l)\<lparr>constant_part := pl\<rparr>, off_nl := nl, off_nl_nosnap := nosnap\<rparr>"

definition set_linkhdr :: "u32 \<Rightarrow> layout \<Rightarrow> layout" where
  "set_linkhdr c l = l\<lparr>off_linkhdr := (off_linkhdr l)\<lparr>constant_part := c\<rparr>\<rparr>"

definition variable_linkhdr :: "layout \<Rightarrow> layout" where
  "variable_linkhdr l = l\<lparr>off_linkhdr := (off_linkhdr l)\<lparr>is_variable := True\<rparr>\<rparr>"

definition variable_linkpl :: "layout \<Rightarrow> layout" where
  "variable_linkpl l = l\<lparr>off_linkpl := (off_linkpl l)\<lparr>is_variable := True\<rparr>\<rparr>"

definition set_ss7 :: "u32 \<Rightarrow> u32 \<Rightarrow> u32 \<Rightarrow> u32 \<Rightarrow> u32 \<Rightarrow> u32 \<Rightarrow> layout \<Rightarrow> layout" where
  "set_ss7 li li_hsl sio opc dpc sls l =
     l\<lparr>off_li := li, off_li_hsl := li_hsl, off_sio := sio, off_opc := opc, off_dpc := dpc, off_sls := sls\<rparr>"

definition classic_offsets :: "platform \<Rightarrow> u32 \<Rightarrow> layout \<Rightarrow> layout option" where
  "classic_offsets pf fddipad l =
     (let dlt = linktype l in
      if dlt = DLT_ARCNET then Some (set_offsets 2 6 0 0 l)
      else if dlt = DLT_ARCNET_LINUX then Some (set_offsets 4 8 0 0 l)
      else if dlt = DLT_EN10MB then Some (set_offsets 12 14 0 3 l)
      else if dlt = DLT_SLIP then Some (set_offsets (- 1) 16 0 0 l)
      else if dlt = DLT_SLIP_BSDOS pf then Some (set_offsets (- 1) 24 0 0 l)
      else if dlt = DLT_NULL \<or> dlt = DLT_LOOP pf then Some (set_offsets 0 4 0 0 l)
      else if dlt = DLT_ENC pf then Some (set_offsets 0 12 0 0 l)
      else if dlt \<in> {DLT_PPP, DLT_PPP_PPPD, DLT_C_HDLC, DLT_PPP_SERIAL} then Some (set_offsets 2 4 0 0 l)
      else if dlt = DLT_PPP_ETHER then Some (set_offsets 6 8 0 0 l)
      else if dlt = DLT_PPP_BSDOS pf then Some (set_offsets 5 24 0 0 l)
      else if dlt = DLT_FDDI then Some (set_offsets (13 + fddipad) (13 + fddipad) 8 3 l)
      else if dlt = DLT_IEEE802 then Some (set_offsets 14 14 8 3 l)
      else None)"

definition radio_atm_offsets :: "platform \<Rightarrow> u32 \<Rightarrow> layout \<Rightarrow> layout option" where
  "radio_atm_offsets pf fddipad l =
     (let dlt = linktype l in
      if dlt \<in> {DLT_PRISM_HEADER, DLT_IEEE802_11_RADIO_AVS, DLT_IEEE802_11_RADIO} then
        Some (variable_linkpl (set_offsets 24 0 8 3 (variable_linkhdr l)))
      else if dlt = DLT_IEEE802_11 then Some (variable_linkpl (set_offsets 24 0 8 3 l))
      else if dlt = DLT_PPI then Some (variable_linkhdr (variable_linkpl (set_offsets 24 0 8 3 l)))
      else if dlt \<in> {DLT_ATM_RFC1483, DLT_ATM_CLIP} then Some (set_offsets 0 0 8 3 l)
      else if dlt = DLT_SUNATM then
        Some (set_offsets 4 4 8 3 (l\<lparr>is_atm := True, off_vpi := 1, off_vci := 2, off_proto := 0, off_payload := 4\<rparr>))
      else None)"

definition raw_offsets :: "platform \<Rightarrow> u32 \<Rightarrow> layout \<Rightarrow> layout option" where
  "raw_offsets pf fddipad l =
     (let dlt = linktype l in
      if dlt \<in> {DLT_RAW pf, DLT_IPV4, DLT_IPV6} then Some (set_offsets (- 1) 0 0 0 l)
      else if dlt = DLT_LINUX_SLL then Some (set_offsets 14 16 0 0 l)
      else if dlt = DLT_LTALK then Some (set_offsets (- 1) 0 0 0 l)
      else if dlt = DLT_IP_OVER_FC then Some (set_offsets 16 16 8 3 l)
      else if dlt = DLT_FRELAY then Some (set_offsets (- 1) 0 0 0 l)
      else if dlt = DLT_MFR then Some (set_offsets (- 1) 0 4 0 l)
      else if dlt = DLT_APPLE_IP_OVER_IEEE1394 then Some (set_offsets 16 18 0 0 l)
      else if dlt = DLT_SYMANTEC_FIREWALL then Some (set_offsets 6 44 0 0 l)
      else None)"

definition juniper_offsets :: "platform \<Rightarrow> u32 \<Rightarrow> layout \<Rightarrow> layout option" where
  "juniper_offsets pf fddipad l =
     (let dlt = linktype l in
      if dlt \<in> {DLT_JUNIPER_MFR, DLT_JUNIPER_MLFR, DLT_JUNIPER_MLPPP, DLT_JUNIPER_PPP,
          DLT_JUNIPER_CHDLC, DLT_JUNIPER_FRELAY} then Some (set_offsets 4 4 0 (- 1) l)
      else if dlt = DLT_JUNIPER_ATM1 then Some (set_offsets 4 4 0 10 l)
      else if dlt = DLT_JUNIPER_ATM2 then Some (set_offsets 8 8 0 10 l)
      else if dlt \<in> {DLT_JUNIPER_PPPOE, DLT_JUNIPER_ETHER} then Some (set_offsets 16 14 18 21 l)
      else if dlt = DLT_JUNIPER_PPPOE_ATM then Some (set_offsets 4 6 0 (- 1) l)
      else if dlt = DLT_JUNIPER_GGSN then Some (set_offsets 6 12 0 (- 1) l)
      else if dlt = DLT_JUNIPER_ES then Some (set_offsets 6 (- 1) (- 1) (- 1) l)
      else if dlt = DLT_JUNIPER_MONITOR then Some (set_offsets 12 12 0 (- 1) l)
      else if dlt = DLT_BACNET_MS_TP then Some (set_offsets (- 1) (- 1) (- 1) (- 1) l)
      else if dlt = DLT_JUNIPER_SERVICES then Some (set_offsets 12 (- 1) (- 1) (- 1) l)
      else if dlt \<in> {DLT_JUNIPER_VP, DLT_JUNIPER_ST} then Some (set_offsets 18 (- 1) (- 1) (- 1) l)
      else if dlt \<in> {DLT_JUNIPER_ISM, DLT_JUNIPER_VS, DLT_JUNIPER_SRX_E2E, DLT_JUNIPER_FIBRECHANNEL,
          DLT_JUNIPER_ATM_CEMIC} then Some (set_offsets 8 (- 1) (- 1) (- 1) l)
      else None)"

definition ss7_offsets :: "platform \<Rightarrow> u32 \<Rightarrow> layout \<Rightarrow> layout option" where
  "ss7_offsets pf fddipad l =
     (let dlt = linktype l in
      if dlt = DLT_MTP2 then
        Some (set_offsets (- 1) (- 1) (- 1) (- 1) (set_ss7 2 4 3 4 4 7 l))
      else if dlt = DLT_MTP2_WITH_PHDR then
        Some (set_offsets (- 1) (- 1) (- 1) (- 1) (set_ss7 6 8 7 8 8 11 l))
      else if dlt = DLT_ERF then
        Some (set_offsets (- 1) (- 1) (- 1) (- 1) (set_ss7 22 24 23 24 24 27 l))
      else if dlt = DLT_PFSYNC pf then Some (set_offsets (- 1) 4 0 0 l)
      else if dlt = DLT_AX25_KISS then Some (set_offsets (- 1) (- 1) (- 1) (- 1) l)
      else if dlt = DLT_IPNET then Some (set_offsets 1 24 0 (- 1) l)
      else if dlt = DLT_NETANALYZER then Some (set_offsets (4 + 12) (4 + 14) 0 3 (set_linkhdr 4 l))
      else if dlt = DLT_NETANALYZER_TRANSPARENT then
        Some (set_offsets (12 + 12) (12 + 14) 0 3 (set_linkhdr 12 l))
      else None)"

fun first_some :: "'a option list \<Rightarrow> 'a option" where
  "first_some [] = None"
| "first_some (Some x # xs) = Some x"
| "first_some (None # xs) = first_some xs"

definition linktype_offsets :: "platform \<Rightarrow> u32 \<Rightarrow> layout \<Rightarrow> gen_error + layout" where
  "linktype_offsets pf fddipad l =
     (case first_some (map (\<lambda>f. f pf fddipad l)
          [classic_offsets, radio_atm_offsets, raw_offsets, juniper_offsets, ss7_offsets]) of
        Some l' \<Rightarrow> Inr l'
      | None \<Rightarrow>
          if DLT_MATCHING_MIN \<le> linktype l \<and> linktype l \<le> DLT_MATCHING_MAX then
            Inr (set_offsets (- 1) (- 1) (- 1) (- 1) l)
          else Inl (Bpf_error ''unknown data link type %d'' [linktype l]))"

definition init_linktype :: "platform \<Rightarrow> u32 \<Rightarrow> int \<Rightarrow> gen_error + layout" where
  "init_linktype pf fddipad dlt =
     map_sum id (\<lambda>l. l\<lparr>off_prevlinkhdr := off_linkhdr l, off_outermostlinkhdr := off_linkhdr l\<rparr>)
       (linktype_offsets pf fddipad (fresh_layout dlt))"

section \<open>Registers\<close>

text \<open>
  \<open>init_regs\<close>, \<open>alloc_reg\<close> and \<open>free_reg\<close>: the search starts at \<open>curreg\<close>, which is where the
  last allocation left it, and gives up after one round.
\<close>

definition init_regs :: "cstate \<Rightarrow> cstate" where
  "init_regs s = s\<lparr>cs_curreg := 0, cs_regused := replicate BPF_MEMWORDS False\<rparr>"

fun alloc_search :: "nat \<Rightarrow> bool list \<Rightarrow> nat \<Rightarrow> nat option \<times> nat" where
  "alloc_search 0 used cur = (None, cur)"
| "alloc_search (Suc n) used cur =
     (if used ! cur then alloc_search n used ((cur + 1) mod BPF_MEMWORDS) else (Some cur, cur))"

definition alloc_reg :: "nat gen" where
  "alloc_reg s =
     (case alloc_search BPF_MEMWORDS (cs_regused s) (cs_curreg s) of
        (Some r, cur) \<Rightarrow> Inr (r, s\<lparr>cs_regused := (cs_regused s)[r := True], cs_curreg := cur\<rparr>)
      | (None, _) \<Rightarrow> Inl (Bpf_error ''too many registers needed to evaluate expression'' []))"

definition free_reg :: "nat \<Rightarrow> unit gen" where
  "free_reg n = gmodify (\<lambda>s. s\<lparr>cs_regused := (cs_regused s)[n := False]\<rparr>)"

section \<open>Statements and blocks\<close>

text \<open>\<open>new_stmt(code)\<close> with the assignment of \<open>s.k\<close> that follows it, a list of one node.\<close>

definition new_stmt :: "u16 \<Rightarrow> u32 \<Rightarrow> slist list gen" where
  "new_stmt code k s =
     Inr ([\<lparr>sl_addr = cs_next_addr s, sl_stmt = plain_stmt (ucast code) k\<rparr>],
       s\<lparr>cs_next_addr := cs_next_addr s + 1\<rparr>)"

text \<open>\<open>new_block(code)\<close> with the assignments of \<open>stmts\<close> and \<open>s.k\<close> that follow it.\<close>

definition block_with :: "u32 \<Rightarrow> slist list \<Rightarrow> u32 \<Rightarrow> nat gen" where
  "block_with code ss k s =
     (let (b, g) = new_block code (cs_graph s) in
      Inr (b, s\<lparr>cs_graph := set_k b k (set_stmts b ss g)\<rparr>))"

definition gen_not_m :: "nat \<Rightarrow> unit gen" where
  "gen_not_m b = on_graph (\<lambda>g. Some (gen_not b g))"

text \<open>Assignments to the offsets; \<open>then_layout\<close> makes them after a condition is generated.\<close>

definition set_layout :: "(layout \<Rightarrow> layout) \<Rightarrow> unit gen" where
  "set_layout f = gmodify (\<lambda>s. s\<lparr>cs_layout := f (cs_layout s)\<rparr>)"

definition then_layout :: "'a gen \<Rightarrow> (layout \<Rightarrow> layout) \<Rightarrow> 'a gen" where
  "then_layout m f = gbind m (\<lambda>b. gbind (set_layout f) (\<lambda>_. gret b))"

section \<open>Loads\<close>

datatype e_offrel =
    OR_PACKET | OR_LINKHDR | OR_PREVLINKHDR | OR_LLC | OR_PREVMPLSHDR | OR_LINKTYPE | OR_LINKPL
  | OR_LINKPL_NOSNAP | OR_TRAN_IPV4 | OR_TRAN_IPV6

text \<open>
  \<open>gen_abs_offset_varpart\<close>, given the \<open>bpf_abs_offset\<close> by its field of the layout: \<open>None\<close> where
  the code returns a null pointer.
\<close>

definition gen_abs_offset_varpart ::
    "(layout \<Rightarrow> abs_offset) \<Rightarrow> ((abs_offset \<Rightarrow> abs_offset) \<Rightarrow> layout \<Rightarrow> layout) \<Rightarrow> slist list option gen" where
  "gen_abs_offset_varpart sel upd =
     gbind (gget (\<lambda>s. sel (cs_layout s))) (\<lambda>off.
       if is_variable off then
         gbind
           (if ao_reg off = - 1
            then gbind alloc_reg (\<lambda>r.
              gmodify (\<lambda>s. s\<lparr>cs_layout := upd (\<lambda>off. off\<lparr>ao_reg := int r\<rparr>) (cs_layout s)\<rparr>))
            else gret ())
           (\<lambda>_. gbind (gget (\<lambda>s. ao_reg (sel (cs_layout s)))) (\<lambda>reg.
             gbind (new_stmt (BPF_LDX OR BPF_MEM) (word_of_int reg)) (\<lambda>ss. gret (Some ss))))
       else gret None)"

text \<open>
  \<open>gen_load_absoffsetrel\<close>; \<open>upd\<close> is the update of the field \<open>sel\<close>, for the register.
\<close>

definition gen_load_absoffsetrel ::
    "(layout \<Rightarrow> abs_offset) \<Rightarrow> ((abs_offset \<Rightarrow> abs_offset) \<Rightarrow> layout \<Rightarrow> layout) \<Rightarrow> u32 \<Rightarrow> u16 \<Rightarrow> slist list gen" where
  "gen_load_absoffsetrel sel upd offset sz =
     gbind (gen_abs_offset_varpart sel upd) (\<lambda>var.
     gbind (gget (\<lambda>s. constant_part (sel (cs_layout s)) + offset)) (\<lambda>k.
       case var of
         Some ss \<Rightarrow> gbind (new_stmt (BPF_LD OR BPF_IND OR sz) k) (\<lambda>s2. gret (ss @ s2))
       | None \<Rightarrow> new_stmt (BPF_LD OR BPF_ABS OR sz) k))"

text \<open>\<open>gen_loadx_iphdrlen\<close>: the length of the IPv4 header into the index register.\<close>

definition gen_loadx_iphdrlen :: "slist list gen" where
  "gen_loadx_iphdrlen =
     gbind (gen_abs_offset_varpart off_linkpl off_linkpl_update) (\<lambda>var.
     gbind (gget (\<lambda>s. constant_part (off_linkpl (cs_layout s)) + off_nl (cs_layout s))) (\<lambda>k.
       case var of
         Some ss \<Rightarrow>
           gbind (new_stmt (BPF_LD OR BPF_IND OR BPF_B) k) (\<lambda>s1.
           gbind (new_stmt (BPF_ALU OR BPF_AND OR BPF_K) 0xf) (\<lambda>s2.
           gbind (new_stmt (BPF_ALU OR BPF_LSH OR BPF_K) 2) (\<lambda>s3.
           gbind (new_stmt (BPF_ALU OR BPF_ADD OR BPF_X) 0) (\<lambda>s4.
           gbind (new_stmt (BPF_MISC OR BPF_TAX) 0) (\<lambda>s5.
             gret (ss @ s1 @ s2 @ s3 @ s4 @ s5))))))
       | None \<Rightarrow> new_stmt (BPF_LDX OR BPF_MSH OR BPF_B) k))"

definition gen_load_a :: "e_offrel \<Rightarrow> u32 \<Rightarrow> u16 \<Rightarrow> slist list gen" where
  "gen_load_a offrel offset sz =
     gbind (gget cs_layout) (\<lambda>l.
       case offrel of
         OR_PACKET \<Rightarrow> new_stmt (BPF_LD OR BPF_ABS OR sz) offset
       | OR_LINKHDR \<Rightarrow> gen_load_absoffsetrel off_linkhdr off_linkhdr_update offset sz
       | OR_PREVLINKHDR \<Rightarrow> gen_load_absoffsetrel off_prevlinkhdr off_prevlinkhdr_update offset sz
       | OR_LLC \<Rightarrow> gen_load_absoffsetrel off_linkpl off_linkpl_update offset sz
       | OR_PREVMPLSHDR \<Rightarrow> gen_load_absoffsetrel off_linkpl off_linkpl_update (off_nl l - 4 + offset) sz
       | OR_LINKPL \<Rightarrow> gen_load_absoffsetrel off_linkpl off_linkpl_update (off_nl l + offset) sz
       | OR_LINKPL_NOSNAP \<Rightarrow>
           gen_load_absoffsetrel off_linkpl off_linkpl_update (off_nl_nosnap l + offset) sz
       | OR_LINKTYPE \<Rightarrow> gen_load_absoffsetrel off_linktype off_linktype_update offset sz
       | OR_TRAN_IPV4 \<Rightarrow>
           gbind gen_loadx_iphdrlen (\<lambda>s1.
           gbind (gget (\<lambda>s. constant_part (off_linkpl (cs_layout s)) + off_nl (cs_layout s) + offset)) (\<lambda>k.
           gbind (new_stmt (BPF_LD OR BPF_IND OR sz) k) (\<lambda>s2. gret (s1 @ s2))))
       | OR_TRAN_IPV6 \<Rightarrow>
           gen_load_absoffsetrel off_linkpl off_linkpl_update (off_nl l + 40 + offset) sz)"

section \<open>Comparisons\<close>

definition gen_ncmp :: "e_offrel \<Rightarrow> u32 \<Rightarrow> u16 \<Rightarrow> u32 \<Rightarrow> u16 \<Rightarrow> bool \<Rightarrow> u32 \<Rightarrow> nat gen" where
  "gen_ncmp offrel offset sz msk jtype rvs v =
     gbind (gen_load_a offrel offset sz) (\<lambda>ss.
     gbind (if msk \<noteq> 0xffffffff
        then gbind (new_stmt (BPF_ALU OR BPF_AND OR BPF_K) msk) (\<lambda>s2. gret (ss @ s2))
        else gret ss) (\<lambda>ss.
     gbind (block_with (JMP_code jtype) ss v) (\<lambda>b.
     gbind (if rvs \<and> (jtype = BPF_JGT \<or> jtype = BPF_JGE) then gen_not_m b else gret ()) (\<lambda>_.
       gret b))))"

definition gen_cmp :: "e_offrel \<Rightarrow> u32 \<Rightarrow> u16 \<Rightarrow> u32 \<Rightarrow> nat gen" where
  "gen_cmp offrel offset sz v = gen_ncmp offrel offset sz 0xffffffff BPF_JEQ False v"

definition gen_cmp_gt :: "e_offrel \<Rightarrow> u32 \<Rightarrow> u16 \<Rightarrow> u32 \<Rightarrow> nat gen" where
  "gen_cmp_gt offrel offset sz v = gen_ncmp offrel offset sz 0xffffffff BPF_JGT False v"

definition gen_cmp_ge :: "e_offrel \<Rightarrow> u32 \<Rightarrow> u16 \<Rightarrow> u32 \<Rightarrow> nat gen" where
  "gen_cmp_ge offrel offset sz v = gen_ncmp offrel offset sz 0xffffffff BPF_JGE False v"

definition gen_cmp_lt :: "e_offrel \<Rightarrow> u32 \<Rightarrow> u16 \<Rightarrow> u32 \<Rightarrow> nat gen" where
  "gen_cmp_lt offrel offset sz v = gen_ncmp offrel offset sz 0xffffffff BPF_JGE True v"

definition gen_cmp_le :: "e_offrel \<Rightarrow> u32 \<Rightarrow> u16 \<Rightarrow> u32 \<Rightarrow> nat gen" where
  "gen_cmp_le offrel offset sz v = gen_ncmp offrel offset sz 0xffffffff BPF_JGT True v"

definition gen_mcmp :: "e_offrel \<Rightarrow> u32 \<Rightarrow> u16 \<Rightarrow> u32 \<Rightarrow> u32 \<Rightarrow> nat gen" where
  "gen_mcmp offrel offset sz v msk = gen_ncmp offrel offset sz msk BPF_JEQ False v"

text \<open>
  The four ways in which the generator joins two conditions, and the negation of one. The block
  that stands for the result is always the second argument of \<open>gen_and\<close> and \<open>gen_or\<close>:
  \<open>both_and\<close> is \<open>b0 = m0; b1 = m1; gen_and(b0, b1); return b1;\<close>, \<open>and_before\<close> is
  \<open>b1 = m1; b0 = m0; gen_and(b0, b1); return b1;\<close>, where the condition generated last is
  tested first.
\<close>

definition gen_and_m :: "nat \<Rightarrow> nat \<Rightarrow> unit gen" where
  "gen_and_m b0 b1 = on_graph (gen_and b0 b1)"

definition gen_or_m :: "nat \<Rightarrow> nat \<Rightarrow> unit gen" where
  "gen_or_m b0 b1 = on_graph (gen_or b0 b1)"

definition both_and :: "nat gen \<Rightarrow> nat gen \<Rightarrow> nat gen" where
  "both_and m0 m1 = gbind m0 (\<lambda>b0. gbind m1 (\<lambda>b1. gbind (gen_and_m b0 b1) (\<lambda>_. gret b1)))"

definition both_or :: "nat gen \<Rightarrow> nat gen \<Rightarrow> nat gen" where
  "both_or m0 m1 = gbind m0 (\<lambda>b0. gbind m1 (\<lambda>b1. gbind (gen_or_m b0 b1) (\<lambda>_. gret b1)))"

definition and_before :: "nat gen \<Rightarrow> nat gen \<Rightarrow> nat gen" where
  "and_before m1 m0 = gbind m1 (\<lambda>b1. gbind m0 (\<lambda>b0. gbind (gen_and_m b0 b1) (\<lambda>_. gret b1)))"

definition or_before :: "nat gen \<Rightarrow> nat gen \<Rightarrow> nat gen" where
  "or_before m1 m0 = gbind m1 (\<lambda>b1. gbind m0 (\<lambda>b0. gbind (gen_or_m b0 b1) (\<lambda>_. gret b1)))"

definition negated :: "nat gen \<Rightarrow> nat gen" where
  "negated m = gbind m (\<lambda>b. gbind (gen_not_m b) (\<lambda>_. gret b))"

text \<open>A check that may be missing (a null pointer), in front of a condition.\<close>

definition opt_and :: "nat option gen \<Rightarrow> nat gen \<Rightarrow> nat gen" where
  "opt_and m0 m1 =
     gbind m0 (\<lambda>b0. gbind m1 (\<lambda>b1.
       gbind (case b0 of None \<Rightarrow> gret () | Some b0 \<Rightarrow> gen_and_m b0 b1) (\<lambda>_. gret b1)))"

text \<open>
  \<open>gen_bcmp\<close>: the last bytes first, in words, then half-words, then a byte; each new comparison
  \<open>tmp\<close> goes behind the earlier ones (\<open>gen_and(b, tmp)\<close>). No bytes give the null pointer, which no caller expects.
\<close>

definition and_opt :: "nat option \<Rightarrow> nat \<Rightarrow> nat gen" where
  "and_opt b tmp = (case b of None \<Rightarrow> gret tmp | Some b \<Rightarrow> gbind (gen_and_m b tmp) (\<lambda>_. gret tmp))"

definition be_value :: "u8 list \<Rightarrow> u32" where
  "be_value bs = foldl (\<lambda>acc b. push_bit 8 acc OR ucast b) 0 bs"

function gen_bcmp_from :: "nat option \<Rightarrow> e_offrel \<Rightarrow> u32 \<Rightarrow> nat \<Rightarrow> u8 list \<Rightarrow> nat option gen" where
  "gen_bcmp_from b offrel offset sz v =
     (if 4 \<le> sz then
        gbind (gen_cmp offrel (offset + of_nat sz - 4) BPF_W (be_value (take 4 (drop (sz - 4) v)))) (\<lambda>tmp.
        gbind (and_opt b tmp) (\<lambda>b. gen_bcmp_from (Some b) offrel offset (sz - 4) v))
      else if 2 \<le> sz then
        gbind (gen_cmp offrel (offset + of_nat sz - 2) BPF_H (be_value (take 2 (drop (sz - 2) v)))) (\<lambda>tmp.
        gbind (and_opt b tmp) (\<lambda>b. gen_bcmp_from (Some b) offrel offset (sz - 2) v))
      else if 0 < sz then
        gbind (gen_cmp offrel offset BPF_B (be_value (take 1 v))) (\<lambda>tmp.
        gbind (and_opt b tmp) (\<lambda>b. gret (Some b)))
      else gret b)"
  by auto
termination by (relation "measure (\<lambda>(b, offrel, offset, sz, v). sz)") auto

definition gen_bcmp :: "e_offrel \<Rightarrow> u32 \<Rightarrow> nat \<Rightarrow> u8 list \<Rightarrow> nat gen" where
  "gen_bcmp offrel offset sz v =
     gbind (gen_bcmp_from None offrel offset sz v) (\<lambda>b.
       case b of None \<Rightarrow> gfail No_result | Some b \<Rightarrow> gret b)"

text \<open>
  The blocks that test bits of a field: \<open>s = gen_load_a(...); b = new_block(JMP(BPF_JSET));
  b->s.k = k; b->stmts = s;\<close>.
\<close>

definition load_jset :: "e_offrel \<Rightarrow> u32 \<Rightarrow> u16 \<Rightarrow> u32 \<Rightarrow> nat gen" where
  "load_jset offrel offset sz k =
     gbind (gen_load_a offrel offset sz) (\<lambda>ss. block_with (JMP_code BPF_JSET) ss k)"

definition gen_uncond :: "bool \<Rightarrow> nat gen" where
  "gen_uncond rsense =
     gbind (new_stmt (BPF_LD OR BPF_IMM) (if rsense then 0 else 1)) (\<lambda>ss.
       block_with (JMP_code BPF_JEQ) ss 0)"

definition gen_true :: "nat gen" where "gen_true = gen_uncond True"
definition gen_false :: "nat gen" where "gen_false = gen_uncond False"


text \<open>\<open>gen_len\<close>, \<open>gen_greater\<close> and \<open>gen_less\<close>: the length of the packet on the wire.\<close>

definition gen_len :: "u16 \<Rightarrow> u32 \<Rightarrow> nat gen" where
  "gen_len jmp n = gbind (new_stmt (BPF_LD OR BPF_LEN) 0) (\<lambda>ss. block_with (JMP_code jmp) ss n)"

definition gen_greater :: "u32 \<Rightarrow> nat gen" where
  "gen_greater n = gen_len BPF_JGE n"

definition gen_less :: "u32 \<Rightarrow> nat gen" where
  "gen_less n = negated (gen_len BPF_JGT n)"

text \<open>
  \<open>gen_byteop\<close>. The code of \<open>&\<close> and \<open>|\<close> has no load: it works on whatever the accumulator
  holds.
\<close>

definition gen_byteop :: "char \<Rightarrow> u32 \<Rightarrow> u32 \<Rightarrow> nat gen" where
  "gen_byteop op' idx val =
     (if op' = CHR ''='' then gen_cmp OR_LINKHDR idx BPF_B val
      else if op' = CHR ''<'' then gen_cmp_lt OR_LINKHDR idx BPF_B val
      else if op' = CHR ''>'' then gen_cmp_gt OR_LINKHDR idx BPF_B val
      else if op' = CHR ''|'' then
        negated (gbind (new_stmt (BPF_ALU OR BPF_OR OR BPF_K) val) (\<lambda>ss. block_with (JMP_code BPF_JEQ) ss 0))
      else if op' = CHR ''&'' then
        negated (gbind (new_stmt (BPF_ALU OR BPF_AND OR BPF_K) val) (\<lambda>ss. block_with (JMP_code BPF_JEQ) ss 0))
      else gfail Aborts)"

end
