(* ===== verification/Icode_To_Fcode.thy ===== *)
theory Icode_To_Fcode
  imports Icode
begin

unbundle bit_operations_syntax

text \<open>
  The last phase of the filter compiler (jni/libpcap/optimize.c): \<open>icode_to_fcode\<close> lays the
  blocks of the flow graph out as a BPF program. \<open>convert_code_r\<close> visits the graph depth first
  and fills the array from its end, so that every jump is forward; a branch that is longer than
  the 8 bits of \<open>jt\<close> and \<open>jf\<close> can hold makes the block ask for an extra long jump, and the whole
  conversion starts again with the larger block.

  The marks of a traversal are the set of the blocks visited; \<open>unMarkAll\<close> starts from the empty
  set (in the code it steps \<open>cur_mark\<close>, whose wrap-around after \<open>2 ^ 32\<close> traversals is not
  modelled). A call marks a block before it recurses, so that the depth of the recursion is at
  most the number of blocks plus one: the fuel the entry points give.
\<close>

section \<open>Counting\<close>

definition slength :: "slist list \<Rightarrow> nat" where
  "slength ss = length (filter (\<lambda>x. s_code (sl_stmt x) \<noteq> NOP) ss)"

definition block_size :: "block \<Rightarrow> nat" where
  "block_size b = slength (b_stmts b) + 1 + unat (b_longjt b) + unat (b_longjf b)"

fun count_stmts :: "nat \<Rightarrow> nat option \<Rightarrow> graph \<Rightarrow> nat set \<Rightarrow> (nat \<times> nat set) option" where
  "count_stmts 0 p g marked = None"
| "count_stmts (Suc fuel) p g marked =
     (case p of
        None \<Rightarrow> Some (0, marked)
      | Some i \<Rightarrow>
          if i \<in> marked then Some (0, marked)
          else if i < length g then do {
            (m, marked) \<leftarrow> count_stmts fuel (b_jt (g ! i)) g (insert i marked);
            (n, marked) \<leftarrow> count_stmts fuel (b_jf (g ! i)) g marked;
            Some (block_size (g ! i) + m + n, marked)
          }
          else None)"

section \<open>One block\<close>

text \<open>
  Where \<open>bpf_error\<close> is called: the message of \<open>ljerr\<close> and the offset it prints.
\<close>

datatype conv_error = Ljerr string nat

text \<open>
  The instruction of a statement at offset \<open>off\<close> of a block with \<open>slen\<close> instructions: \<open>k\<close> and
  the code, and for a conditional jump inside the block the distances to its targets. \<open>offset\<close>
  is the array of the first \<open>slen\<close> nodes of the list, found by their addresses. The statement
  before the last is not filled in (its targets are the next one).
\<close>

definition local_targets :: "slist list \<Rightarrow> nat \<Rightarrow> nat option \<Rightarrow> nat list" where
  "local_targets offset slen target =
     filter (\<lambda>i. Some (sl_addr (offset ! i)) = target) [0..<slen]"

definition stmt_code :: "stmt \<Rightarrow> u16" where
  "stmt_code s = ucast (s_code s)"

definition emit_stmt :: "slist list \<Rightarrow> nat \<Rightarrow> nat \<Rightarrow> stmt \<Rightarrow> conv_error + bpf_insn" where
  "emit_stmt offset slen off s =
     (let dst = BPF_STMT (stmt_code s) (s_k s) in
      if s_code s AND 0x07 \<noteq> ucast BPF_JMP \<or> s_code s = ucast (BPF_JMP OR BPF_JA) then Inr dst
      else if off + 2 = slen then Inr dst
      else if s_jt s = None \<or> s_jf s = None then Inl (Ljerr ''no jmp destination'' off)
      else
        let jts = local_targets offset slen (s_jt s); jfs = local_targets offset slen (s_jf s) in
        if 1 < length jts \<or> 1 < length jfs then Inl (Ljerr ''multiple matches'' off)
        else if jts = [] \<or> jfs = [] then Inl (Ljerr ''no destination found'' off)
        else Inr (dst\<lparr>i_jt := of_nat (hd jts) - of_nat off - 1, i_jf := of_nat (hd jfs) - of_nat off - 1\<rparr>))"

fun emit_stmts :: "slist list \<Rightarrow> nat \<Rightarrow> nat \<Rightarrow> slist list \<Rightarrow> conv_error + bpf_insn list" where
  "emit_stmts offset slen off [] = Inr []"
| "emit_stmts offset slen off (x # xs) =
     (if s_code (sl_stmt x) = NOP then emit_stmts offset slen off xs
      else case emit_stmt offset slen off (sl_stmt x) of
          Inl e \<Rightarrow> Inl e
        | Inr i \<Rightarrow> map_sum id ((#) i) (emit_stmts offset slen (Suc off) xs))"

text \<open>
  The branch of block \<open>b\<close>, whose own offset and those of its successors are known:
  the instruction and the long jumps behind it, or the branch (\<open>True\<close> for \<open>jt\<close>) that is too long
  and has no long jump yet. \<open>None\<close> is a null \<open>JF\<close> where there is a \<open>JT\<close>.
\<close>

datatype emitted = Too_long bool | Emitted "bpf_insn list"

definition long_jump :: "u32 \<Rightarrow> bpf_insn" where
  "long_jump k = BPF_STMT (BPF_JMP OR BPF_JA) k"

definition emit_branch :: "graph \<Rightarrow> block \<Rightarrow> emitted option" where
  "emit_branch g b =
     (let slen = of_nat (slength (b_stmts b)); dst = BPF_STMT (stmt_code (b_s b)) (s_k (b_s b)) in
      case b_jt b of
        None \<Rightarrow> Some (Emitted [dst])
      | Some t \<Rightarrow>
          let off = b_offset (g ! t) - (b_offset b + slen) - 1 in
          if off \<ge> 256 \<and> b_longjt b = 0 then Some (Too_long True)
          else
            let (jt, extra) = (if off \<ge> 256 then (0, [long_jump (off - 1)]) else (ucast off, [])) in
            (case b_jf b of
               None \<Rightarrow> None
             | Some f \<Rightarrow>
                 let off = b_offset (g ! f) - (b_offset b + slen) - 1 in
                 if off \<ge> 256 \<and> b_longjf b = 0 then Some (Too_long False)
                 else
                   let extrajmps = length extra;
                       (jf, extra) =
                         (if off \<ge> 256
                          then (of_nat extrajmps, extra @ [long_jump (off - of_nat (Suc extrajmps))])
                          else (ucast off, extra)) in
                   Some (Emitted (dst\<lparr>i_jt := jt, i_jf := jf\<rparr> # extra))))"

section \<open>The conversion\<close>

text \<open>
  The state of one pass: the graph (whose offsets it sets), the marks, the array \<open>fstart\<close> and
  \<open>ftail\<close>, the index its filled part begins at.
\<close>

record conv =
  cv_graph :: graph
  cv_marked :: "nat set"
  cv_code :: "bpf_insn list"
  cv_tail :: nat

datatype conv_result = Converted conv | Retry graph | Conv_Error conv_error

definition write_at :: "nat \<Rightarrow> 'a list \<Rightarrow> 'a list \<Rightarrow> 'a list" where
  "write_at n xs ys = take n ys @ xs @ drop (n + length xs) ys"

definition set_long :: "nat \<Rightarrow> bool \<Rightarrow> graph \<Rightarrow> graph" where
  "set_long i arm g =
     g[i := (if arm then (g ! i)\<lparr>b_longjt := b_longjt (g ! i) + 1\<rparr>
             else (g ! i)\<lparr>b_longjf := b_longjf (g ! i) + 1\<rparr>)]"

text \<open>
  The part of \<open>convert_code_r\<close> behind the recursive calls. Writing below the start of the array
  would be undefined (\<open>None\<close>).
\<close>

definition place_block :: "nat \<Rightarrow> conv \<Rightarrow> conv_result option" where
  "place_block i cv =
     (let b = cv_graph cv ! i; n = block_size b in
      if cv_tail cv < n then None
      else
        let tl = cv_tail cv - n;
            g = (cv_graph cv)[i := b\<lparr>b_offset := of_nat tl\<rparr>];
            slen = slength (b_stmts b) in
        (case emit_stmts (b_stmts b) slen 0 (b_stmts b) of
           Inl e \<Rightarrow> Some (Conv_Error e)
         | Inr body \<Rightarrow>
             (case emit_branch g (g ! i) of
                None \<Rightarrow> None
              | Some (Too_long arm) \<Rightarrow> Some (Retry (set_long i arm g))
              | Some (Emitted branch) \<Rightarrow>
                  Some (Converted (cv\<lparr>cv_graph := g, cv_tail := tl,
                    cv_code := write_at tl (body @ branch) (cv_code cv)\<rparr>)))))"

text \<open>The \<open>if (... == 0) return (0)\<close> after a recursive call.\<close>

definition and_then :: "conv_result option \<Rightarrow> (conv \<Rightarrow> conv_result option) \<Rightarrow> conv_result option" where
  "and_then r f =
     (case r of
        None \<Rightarrow> None
      | Some (Converted cv) \<Rightarrow> f cv
      | Some (Retry g) \<Rightarrow> Some (Retry g)
      | Some (Conv_Error e) \<Rightarrow> Some (Conv_Error e))"

fun convert_code_r :: "nat \<Rightarrow> nat option \<Rightarrow> conv \<Rightarrow> conv_result option" where
  "convert_code_r 0 p cv = None"
| "convert_code_r (Suc fuel) p cv =
     (case p of
        None \<Rightarrow> Some (Converted cv)
      | Some i \<Rightarrow>
          if i \<in> cv_marked cv then Some (Converted cv)
          else if i < length (cv_graph cv) then
            and_then (convert_code_r fuel (b_jf (cv_graph cv ! i))
                (cv\<lparr>cv_marked := insert i (cv_marked cv)\<rparr>)) (\<lambda>cv.
              and_then (convert_code_r fuel (b_jt (cv_graph cv ! i)) cv) (place_block i))
          else None)"

definition zero_insn :: bpf_insn where "zero_insn = BPF_STMT 0 0"

definition start_conv :: "graph \<Rightarrow> nat \<Rightarrow> conv" where
  "start_conv g n = \<lparr>cv_graph = g, cv_marked = {}, cv_code = replicate n zero_insn, cv_tail = n\<rparr>"

definition convert_pass :: "nat \<Rightarrow> graph \<Rightarrow> conv_result option" where
  "convert_pass root g = do {
     (n, _) \<leftarrow> count_stmts (Suc (length g)) (Some root) g {};
     convert_code_r (Suc (length g)) (Some root) (start_conv g n)
   }"

partial_function (option) icode_to_fcode :: "nat \<Rightarrow> graph \<Rightarrow> (conv_error + bpf_insn list) option" where
  "icode_to_fcode root g =
     (case convert_pass root g of
        None \<Rightarrow> None
      | Some (Converted cv) \<Rightarrow> Some (Inr (cv_code cv))
      | Some (Retry g) \<Rightarrow> icode_to_fcode root g
      | Some (Conv_Error e) \<Rightarrow> Some (Inl e))"

end
