(* ===== verification/Decision_Tree.thy ===== *)
theory Decision_Tree
  imports Icode
begin

text \<open>
  What a flow graph means: the decision tree it unfolds to. \<open>represents\<close> relates a condition
  under construction (its block, the two lists of unresolved branches, the region of its blocks)
  to a tree whose leaves are its outcomes; the lemmas say that back-patching and merging the
  lists are exactly the substitution of trees for leaves, and leave every other block alone.
\<close>

section \<open>Trees\<close>

datatype dtree =
    Exit bool
  | Final "slist list" stmt
  | Branch "slist list" stmt dtree dtree

primrec tsubst :: "(bool \<Rightarrow> dtree) \<Rightarrow> dtree \<Rightarrow> dtree" where
  "tsubst \<sigma> (Exit v) = \<sigma> v"
| "tsubst \<sigma> (Final ss s) = Final ss s"
| "tsubst \<sigma> (Branch ss s t f) = Branch ss s (tsubst \<sigma> t) (tsubst \<sigma> f)"

abbreviation and_tree :: "dtree \<Rightarrow> dtree \<Rightarrow> dtree" where
  "and_tree t u \<equiv> tsubst (\<lambda>v. if v then u else Exit False) t"

abbreviation or_tree :: "dtree \<Rightarrow> dtree \<Rightarrow> dtree" where
  "or_tree t u \<equiv> tsubst (\<lambda>v. if v then Exit True else u) t"

abbreviation not_tree :: "dtree \<Rightarrow> dtree" where
  "not_tree t \<equiv> tsubst (\<lambda>v. Exit (\<not> v)) t"

lemma tsubst_Exit [simp]: "tsubst Exit t = t"
  by (induction t) simp_all

lemma tsubst_tsubst: "tsubst \<sigma> (tsubst \<tau> t) = tsubst (\<lambda>v. tsubst \<sigma> (\<tau> v)) t"
  by (induction t) simp_all

text \<open>
  The tree at a block, for a graph some of whose branches are not resolved: \<open>E i arm\<close> is the
  outcome a branch stands for, \<open>None\<close> where it leads to its successor.
\<close>

type_synonym exits = "nat \<Rightarrow> bool \<Rightarrow> bool option"

abbreviation no_exits :: exits where "no_exits \<equiv> \<lambda>_ _. None"

primrec tree_at :: "graph \<Rightarrow> exits \<Rightarrow> nat \<Rightarrow> dtree \<Rightarrow> bool" where
  "tree_at g E i (Exit v) \<longleftrightarrow> False"
| "tree_at g E i (Final ss s) \<longleftrightarrow>
     i < length g \<and> ss = b_stmts (g ! i) \<and> s = b_s (g ! i) \<and>
     (\<forall>arm. E i arm = None \<and> b_succ (g ! i) arm = None)"
| "tree_at g E i (Branch ss s t f) \<longleftrightarrow>
     i < length g \<and> ss = b_stmts (g ! i) \<and> s = b_s (g ! i) \<and>
     (case E i True of Some v \<Rightarrow> t = Exit v
      | None \<Rightarrow> \<exists>j. b_succ (g ! i) True = Some j \<and> tree_at g E j t) \<and>
     (case E i False of Some v \<Rightarrow> f = Exit v
      | None \<Rightarrow> \<exists>j. b_succ (g ! i) False = Some j \<and> tree_at g E j f)"

definition arm_at :: "graph \<Rightarrow> exits \<Rightarrow> nat \<Rightarrow> bool \<Rightarrow> dtree \<Rightarrow> bool" where
  "arm_at g E i arm t \<longleftrightarrow>
     (case E i arm of Some v \<Rightarrow> t = Exit v
      | None \<Rightarrow> \<exists>j. b_succ (g ! i) arm = Some j \<and> tree_at g E j t)"

lemma tree_at_Branch [simp]:
  "tree_at g E i (Branch ss s t f) \<longleftrightarrow>
     i < length g \<and> ss = b_stmts (g ! i) \<and> s = b_s (g ! i) \<and> arm_at g E i True t \<and> arm_at g E i False f"
  by (simp add: arm_at_def)

declare tree_at.simps(3) [simp del]

lemma arm_at_Some: "E i arm = Some v \<Longrightarrow> arm_at g E i arm t \<longleftrightarrow> t = Exit v"
  by (simp add: arm_at_def)

lemma arm_at_None:
  "E i arm = None \<Longrightarrow> arm_at g E i arm t \<longleftrightarrow> (\<exists>j. b_succ (g ! i) arm = Some j \<and> tree_at g E j t)"
  by (simp add: arm_at_def)

lemma tree_at_unique: "tree_at g E i t \<Longrightarrow> tree_at g E i u \<Longrightarrow> t = u"
proof (induction t arbitrary: i u)
  case (Final ss s)
  then show ?case by (cases u) (auto simp: arm_at_def)
next
  case (Branch ss s t f)
  then show ?case
    by (cases u) (force simp: arm_at_def split: option.splits)+
qed simp

text \<open>
  Substitution along a change of the graph: the blocks of the region keep their statements and
  their resolved branches, and each unresolved branch now stands for \<open>\<sigma>\<close> of its outcome.
\<close>

lemma tree_at_tsubst:
  assumes "tree_at g E i t" and "i \<in> R"
    and closed: "\<And>i arm j. i \<in> R \<Longrightarrow> E i arm = None \<Longrightarrow> b_succ (g ! i) arm = Some j \<Longrightarrow> j \<in> R"
    and block: "\<And>i. i \<in> R \<Longrightarrow> i < length g' \<and> b_stmts (g' ! i) = b_stmts (g ! i) \<and>
      b_s (g' ! i) = b_s (g ! i)"
    and resolved: "\<And>i arm. i \<in> R \<Longrightarrow> E i arm = None \<Longrightarrow>
      E' i arm = None \<and> b_succ (g' ! i) arm = b_succ (g ! i) arm"
    and exits: "\<And>i arm v. i \<in> R \<Longrightarrow> E i arm = Some v \<Longrightarrow> arm_at g' E' i arm (\<sigma> v)"
  shows "tree_at g' E' i (tsubst \<sigma> t)"
  using assms(1,2)
proof (induction t arbitrary: i)
  case (Final ss s)
  then show ?case using block [of i] resolved [of i] by auto
next
  case (Branch ss s t f)
  have arm: "arm_at g' E' i arm (tsubst \<sigma> u)"
    if at: "arm_at g E i arm u" and IH: "\<And>j. tree_at g E j u \<Longrightarrow> j \<in> R \<Longrightarrow> tree_at g' E' j (tsubst \<sigma> u)"
    for arm u
  proof (cases "E i arm")
    case None
    with at obtain j where j: "b_succ (g ! i) arm = Some j" "tree_at g E j u"
      by (auto simp: arm_at_None)
    with closed [OF \<open>i \<in> R\<close> None] IH have "tree_at g' E' j (tsubst \<sigma> u)" by blast
    with j resolved [OF \<open>i \<in> R\<close> None] show ?thesis by (simp add: arm_at_None)
  next
    case (Some v)
    with at have "u = Exit v" by (simp add: arm_at_Some)
    with exits [OF \<open>i \<in> R\<close> Some] show ?thesis by simp
  qed
  from Branch.prems block [of i] show ?case
    by (auto intro: arm [OF _ Branch.IH(1)] arm [OF _ Branch.IH(2)])
qed simp

section \<open>Lists of unresolved branches\<close>

primrec chain :: "graph \<Rightarrow> nat option \<Rightarrow> nat list \<Rightarrow> bool" where
  "chain g lst [] \<longleftrightarrow> lst = None"
| "chain g lst (i # is) \<longleftrightarrow>
     lst = Some i \<and> i < length g \<and> chain g (b_succ (g ! i) (list_arm (g ! i))) is"

lemma chain_bounds: "chain g lst is \<Longrightarrow> set is \<subseteq> {..<length g}"
  by (induction "is" arbitrary: lst) auto

lemma chain_cong:
  assumes "\<And>i. i \<in> set is \<Longrightarrow> i < length g \<Longrightarrow> i < length g' \<and> list_arm (g' ! i) = list_arm (g ! i) \<and>
    b_succ (g' ! i) (list_arm (g ! i)) = b_succ (g ! i) (list_arm (g ! i))"
  shows "chain g lst is \<Longrightarrow> chain g' lst is"
  using assms by (induction "is" arbitrary: lst) auto

text \<open>Blocks with a new target in their link.\<close>

definition relink :: "nat option \<Rightarrow> block \<Rightarrow> block" where
  "relink v b = (if list_arm b then b\<lparr>b_jt := v\<rparr> else b\<lparr>b_jf := v\<rparr>)"

lemma relink_simps [simp]:
  "b_stmts (relink v b) = b_stmts b" "b_s (relink v b) = b_s b" "b_head (relink v b) = b_head b"
  "list_arm (relink v b) = list_arm b" "b_sense (relink v b) = b_sense b"
  "b_succ (relink v b) arm = (if arm = list_arm b then v else b_succ b arm)"
  by (auto simp: relink_def list_arm_def b_succ_def)

definition patch :: "nat set \<Rightarrow> nat option \<Rightarrow> graph \<Rightarrow> graph" where
  "patch S v g = map (\<lambda>i. if i \<in> S then relink v (g ! i) else g ! i) [0..<length g]"

lemma length_patch [simp]: "length (patch S v g) = length g"
  by (simp add: patch_def)

lemma nth_patch [simp]:
  "i < length g \<Longrightarrow> patch S v g ! i = (if i \<in> S then relink v (g ! i) else g ! i)"
  by (simp add: patch_def)

lemma set_succ_patch: "i < length g \<Longrightarrow> set_succ i (list_arm (g ! i)) v g = patch {i} v g"
  by (intro nth_equalityI) (auto simp: set_succ_def relink_def nth_list_update)

lemma patch_patch: "i \<notin> S \<Longrightarrow> patch S v (patch {i} v g) = patch (insert i S) v g"
  by (intro nth_equalityI) auto

lemma backpatch_chain:
  "chain g lst is \<Longrightarrow> distinct is \<Longrightarrow> backpatch lst target g = Some (patch (set is) (Some target) g)"
proof (induction "is" arbitrary: lst g)
  case Nil
  then show ?case by (simp add: backpatch.simps patch_def map_nth)
next
  case (Cons i "is")
  let ?g = "patch {i} (Some target) g"
  have i: "i < length g" "lst = Some i" "i \<notin> set is"
    and "chain g (b_succ (g ! i) (list_arm (g ! i))) is" using Cons.prems by auto
  then have "chain ?g (b_succ (g ! i) (list_arm (g ! i))) is" by (auto elim!: chain_cong [rotated] split: if_splits)
  with Cons.IH i Cons.prems(2) show ?case
    by (subst backpatch.simps) (simp add: Let_def set_succ_patch patch_patch)
qed

lemma merge_chain:
  "i < length g \<Longrightarrow> chain g (b_succ (g ! i) (list_arm (g ! i))) is \<Longrightarrow>
     merge i b1 g = Some (patch {last (i # is)} (Some b1) g)"
proof (induction "is" arbitrary: i)
  case Nil
  then show ?case by (subst merge.simps) (simp add: Let_def set_succ_patch)
next
  case (Cons j "is")
  then show ?case by (subst merge.simps) (simp add: Let_def)
qed

lemma flip_simps [simp]:
  "b_stmts (b\<lparr>b_sense := s\<rparr>) = b_stmts b" "b_s (b\<lparr>b_sense := s\<rparr>) = b_s b"
  "b_head (b\<lparr>b_sense := s\<rparr>) = b_head b" "list_arm (b\<lparr>b_sense := s\<rparr>) = (\<not> s)"
  "b_succ (b\<lparr>b_sense := s\<rparr>) arm = b_succ b arm"
  "b_succ (b\<lparr>b_head := h\<rparr>) arm = b_succ b arm" "list_arm (b\<lparr>b_head := h\<rparr>) = list_arm b"
  by (simp_all add: list_arm_def b_succ_def)

lemma length_flip [simp]: "length (flip_sense p g) = length g" "length (set_head p h g) = length g"
  by (simp_all add: flip_sense_def set_head_def)

lemma nth_flip [simp]:
  "i < length g \<Longrightarrow> flip_sense p g ! i = (if i = p then (g ! p)\<lparr>b_sense := \<not> b_sense (g ! p)\<rparr> else g ! i)"
  "i < length g \<Longrightarrow> set_head p h g ! i = (if i = p then (g ! p)\<lparr>b_head := h\<rparr> else g ! i)"
  by (auto simp: flip_sense_def set_head_def nth_list_update)

lemma b_sense_list_arm: "b_sense b = (\<not> list_arm b)"
  by (simp add: list_arm_def)

section \<open>Conditions under construction\<close>

text \<open>
  The branches of the condition of block \<open>p\<close> that are not resolved: both branches of \<open>p\<close>, and
  the linked branch of every block in the list of true branches \<open>xs\<close> and of false branches \<open>ys\<close>.
\<close>

definition open_exits :: "graph \<Rightarrow> nat \<Rightarrow> nat list \<Rightarrow> nat list \<Rightarrow> exits" where
  "open_exits g p xs ys i arm =
     (if i = p then Some (arm = list_arm (g ! p))
      else if arm = list_arm (g ! i) then
        (if i \<in> set xs then Some True else if i \<in> set ys then Some False else None)
      else None)"

definition represents_by :: "graph \<Rightarrow> nat \<Rightarrow> nat list \<Rightarrow> nat list \<Rightarrow> dtree \<Rightarrow> nat set \<Rightarrow> bool" where
  "represents_by g p xs ys t R \<longleftrightarrow>
     p < length g \<and> chain g (b_succ (g ! p) (list_arm (g ! p))) xs \<and>
     chain g (b_succ (g ! p) (\<not> list_arm (g ! p))) ys \<and>
     distinct (p # xs @ ys) \<and> set (p # xs @ ys) \<subseteq> R \<and> R \<subseteq> {..<length g} \<and>
     b_head (g ! p) \<in> R \<and> tree_at g (open_exits g p xs ys) (b_head (g ! p)) t \<and>
     (\<forall>i\<in>R. \<forall>arm. open_exits g p xs ys i arm = None \<longrightarrow> (\<exists>j\<in>R. b_succ (g ! i) arm = Some j))"

text \<open>
  Block \<open>p\<close> of the graph stands for the condition \<open>t\<close>, and is built from the blocks of \<open>R\<close>.
\<close>

definition represents :: "graph \<Rightarrow> nat \<Rightarrow> dtree \<Rightarrow> nat set \<Rightarrow> bool" where
  "represents g p t R \<longleftrightarrow> (\<exists>xs ys. represents_by g p xs ys t R)"

lemma represents_byD:
  assumes "represents_by g p xs ys t R"
  shows "p < length g" "p \<in> R" "R \<subseteq> {..<length g}" "distinct (p # xs @ ys)" "set xs \<subseteq> R" "set ys \<subseteq> R"
    and "b_head (g ! p) \<in> R" "tree_at g (open_exits g p xs ys) (b_head (g ! p)) t"
    and "chain g (b_succ (g ! p) (list_arm (g ! p))) xs"
    and "chain g (b_succ (g ! p) (\<not> list_arm (g ! p))) ys"
    and "\<And>i arm. i \<in> R \<Longrightarrow> open_exits g p xs ys i arm = None \<Longrightarrow> \<exists>j\<in>R. b_succ (g ! i) arm = Some j"
    and "\<And>i. i \<in> R \<Longrightarrow> i < length g"
  using assms by (auto simp: represents_by_def)

lemma represents_byI:
  assumes "p \<in> R" "distinct (p # xs @ ys)" "set xs \<subseteq> R" "set ys \<subseteq> R" "\<And>i. i \<in> R \<Longrightarrow> i < length g"
    and "b_head (g ! p) \<in> R" "tree_at g (open_exits g p xs ys) (b_head (g ! p)) t"
    and "chain g (b_succ (g ! p) (list_arm (g ! p))) xs"
    and "chain g (b_succ (g ! p) (\<not> list_arm (g ! p))) ys"
    and "\<And>i arm. i \<in> R \<Longrightarrow> open_exits g p xs ys i arm = None \<Longrightarrow> \<exists>j\<in>R. b_succ (g ! i) arm = Some j"
  shows "represents g p t R"
proof -
  have "represents_by g p xs ys t R" unfolding represents_by_def
    by (intro conjI allI ballI impI) (use assms in auto)
  then show ?thesis by (auto simp: represents_def)
qed

lemma closed_succ:
  assumes "represents_by g p xs ys t R" and "i \<in> R" and "open_exits g p xs ys i arm = None"
    and "b_succ (g ! i) arm = Some j"
  shows "j \<in> R"
  using represents_byD(11) [OF assms(1-3)] assms(4) by auto

text \<open>Only the blocks of the region matter.\<close>

lemma represents_cong:
  assumes "represents g p t R" and same: "\<And>i. i \<in> R \<Longrightarrow> i < length g' \<and> g' ! i = g ! i"
  shows "represents g' p t R"
proof -
  obtain xs ys where rep: "represents_by g p xs ys t R" using assms(1) by (auto simp: represents_def)
  note D = represents_byD [OF rep]
  have p: "g' ! p = g ! p" using same D(2) by simp
  have ex: "open_exits g' p xs ys i arm = open_exits g p xs ys i arm" if "i \<in> R" for i arm
    using same [OF that] by (simp add: open_exits_def p)
  have chain: "chain g' l zs" if "chain g l zs" "set zs \<subseteq> R" for l zs
    using that same by (intro chain_cong [OF _ that(1)]) auto
  have "tree_at g' (open_exits g' p xs ys) (b_head (g ! p)) (tsubst Exit t)"
    by (rule tree_at_tsubst [OF D(8,7) closed_succ [OF rep]])
      (use same ex in \<open>auto simp: arm_at_Some\<close>)
  then show ?thesis
    using D(2,4-7) same chain [OF D(9)] chain [OF D(10)] D(11) ex p
    by (intro represents_byI [where xs = xs and ys = ys]) auto
qed

lemma represents_bound: "represents g p t R \<Longrightarrow> p \<in> R \<and> R \<subseteq> {..<length g}"
  by (auto simp: represents_def represents_by_def)

lemma represents_append: "represents g p t R \<Longrightarrow> represents (g @ hs) p t R"
  by (rule represents_cong) (auto simp: nth_append dest!: represents_bound)

text \<open>A condition that is a single block, as \<open>new_block\<close> leaves it.\<close>

lemma represents_single:
  assumes "p < length g" and "b_head (g ! p) = p" and "b_jt (g ! p) = None" and "b_jf (g ! p) = None"
    and "\<not> b_sense (g ! p)"
  shows "represents g p (Branch (b_stmts (g ! p)) (b_s (g ! p)) (Exit True) (Exit False)) {p}"
proof -
  have "represents_by g p [] [] (Branch (b_stmts (g ! p)) (b_s (g ! p)) (Exit True) (Exit False)) {p}"
    using assms by (auto simp: represents_by_def open_exits_def arm_at_def list_arm_def b_succ_def)
  then show ?thesis by (auto simp: represents_def)
qed

section \<open>The combinators on trees\<close>

lemma gen_not_represents:
  assumes "represents g p t R"
  shows "represents (gen_not p g) p (not_tree t) R"
proof -
  obtain xs ys where rep: "represents_by g p xs ys t R" using assms by (auto simp: represents_def)
  let ?g = "gen_not p g"
  have p: "p \<in> R" "R \<subseteq> {..<length g}" "p \<notin> set xs" "p \<notin> set ys" "set xs \<inter> set ys = {}" "p < length g"
    using rep by (auto simp: represents_by_def)
  have nth: "?g ! i = (if i = p then (g ! p)\<lparr>b_sense := \<not> b_sense (g ! p)\<rparr> else g ! i)" if "i < length g" for i
    using that by (simp add: gen_not_def)
  have len: "length ?g = length g" by (simp add: gen_not_def)
  note D = represents_byD [OF rep]
  have ex: "open_exits ?g p ys xs i arm = map_option Not (open_exits g p xs ys i arm)" if "i \<in> R" for i arm
    using p D(12) [OF that] by (auto simp: open_exits_def nth b_sense_list_arm)
  have chain: "chain ?g l zs" if "chain g l zs" "p \<notin> set zs" for l zs
    using that by (intro chain_cong [OF _ that(1)]) (auto simp: nth len)
  have "tree_at ?g (open_exits ?g p ys xs) (b_head (g ! p)) (not_tree t)"
  proof (rule tree_at_tsubst [OF D(8,7) closed_succ [OF rep]])
    fix i assume "i \<in> R"
    then show "i < length ?g \<and> b_stmts (?g ! i) = b_stmts (g ! i) \<and> b_s (?g ! i) = b_s (g ! i)"
      using D(12) by (auto simp: nth len)
  next
    fix i arm assume "i \<in> R" and "open_exits g p xs ys i arm = None"
    then show "open_exits ?g p ys xs i arm = None \<and> b_succ (?g ! i) arm = b_succ (g ! i) arm"
      using D(12) by (auto simp: ex nth)
  qed (auto simp: arm_at_Some ex)
  moreover have "\<exists>j\<in>R. b_succ (?g ! i) arm = Some j"
    if "i \<in> R" "open_exits ?g p ys xs i arm = None" for i arm
    using D(11) [OF that(1)] that D(12) [OF that(1)] by (auto simp: ex nth)
  ultimately show ?thesis
    using D chain [OF D(9) p(3)] chain [OF D(10) p(4)]
    by (intro represents_byI [where xs = ys and ys = xs]) (auto simp: nth len b_sense_list_arm)
qed

lemma chain_extend:
  assumes "chain g lst is" and "is \<noteq> []" and "distinct is" and "length g' = length g"
    and "\<And>i. i \<in> set is \<Longrightarrow> list_arm (g' ! i) = list_arm (g ! i)"
    and "\<And>i. i \<in> set is \<Longrightarrow> b_succ (g' ! i) (list_arm (g ! i)) =
      (if i = last is then lst' else b_succ (g ! i) (list_arm (g ! i)))"
    and "chain g' lst' js"
  shows "chain g' lst (is @ js)"
  using assms
proof (induction "is" arbitrary: lst)
  case (Cons i "is")
  then show ?case by (cases "is") auto
qed simp

text \<open>The state of every block after \<open>gen_and\<close>.\<close>

lemma gen_and_blocks:
  assumes rep0: "represents_by g p0 xs0 ys0 t0 R0" and rep1: "represents_by g p1 xs1 ys1 t1 R1"
    and disj: "R0 \<inter> R1 = {}"
  obtains g' where "gen_and p0 p1 g = Some g'" and "length g' = length g"
    and "\<And>i. i < length g \<Longrightarrow> b_stmts (g' ! i) = b_stmts (g ! i) \<and> b_s (g' ! i) = b_s (g ! i)"
    and "\<And>i. i < length g \<Longrightarrow> b_head (g' ! i) = (if i = p1 then b_head (g ! p0) else b_head (g ! i))"
    and "\<And>i. i < length g \<Longrightarrow>
      list_arm (g' ! i) = (if i = p0 then \<not> list_arm (g ! p0) else list_arm (g ! i))"
    and "\<And>i arm. i < length g \<Longrightarrow> b_succ (g' ! i) arm =
      (if i \<in> set (p0 # xs0) \<and> arm = list_arm (g ! i) then Some (b_head (g ! p1))
       else if i = last (p1 # ys1) \<and> (arm = list_arm (g ! i)) = (i \<noteq> p1) then Some p0
       else b_succ (g ! i) arm)"
    and "\<And>i. i < length g \<Longrightarrow> i \<notin> R0 \<union> R1 \<Longrightarrow> g' ! i = g ! i"
proof -
  note D0 = represents_byD [OF rep0] and D1 = represents_byD [OF rep1]
  define h1 where "h1 = b_head (g ! p1)"
  define g1 where "g1 = patch (set (p0 # xs0)) (Some h1) g"
  define g3 where "g3 = flip_sense p1 (flip_sense p0 g1)"
  define g4 where "g4 = patch {last (p1 # ys1)} (Some p0) g3"
  define g5 where "g5 = flip_sense p1 g4"
  define g' where "g' = set_head p1 (b_head (g5 ! p0)) g5"
  have len: "length g1 = length g" "length g3 = length g" "length g4 = length g" "length g5 = length g"
    "length g' = length g"
    by (simp_all add: g1_def g3_def g4_def g5_def g'_def)
  have out: "p0 \<noteq> p1" "p1 \<notin> set xs0" "p0 \<notin> set ys1" "set xs0 \<inter> set ys1 = {}" "p1 \<notin> set ys1" "p0 \<notin> set xs0"
    using D0(2,4-6) D1(2,4-6) disj by auto
  have "chain g (Some p0) (p0 # xs0)" using D0(1,9) by simp
  with D0(4) have "backpatch (Some p0) h1 g = Some g1"
    unfolding g1_def by (intro backpatch_chain) auto
  moreover have g3: "g3 ! i = (if i = p1 then (g ! p1)\<lparr>b_sense := \<not> b_sense (g ! p1)\<rparr> else
      if i = p0 then (relink (Some h1) (g ! p0))\<lparr>b_sense := \<not> b_sense (g ! p0)\<rparr> else
      if i \<in> set xs0 then relink (Some h1) (g ! i) else g ! i)"
    if "i < length g" for i
    using that out by (auto simp: g3_def g1_def)
  have "chain g3 (b_succ (g ! p1) (\<not> list_arm (g ! p1))) ys1"
    by (rule chain_cong [OF _ D1(10)]) (use out g3 len in auto)
  then have "chain g3 (b_succ (g3 ! p1) (list_arm (g3 ! p1))) ys1"
    using D1(1) by (simp add: g3 b_sense_list_arm)
  then have "merge p1 p0 g3 = Some g4"
    unfolding g4_def by (intro merge_chain) (use D1(1) len in auto)
  ultimately have and_eq: "gen_and p0 p1 g = Some g'"
    by (simp add: gen_and_def h1_def [symmetric] g3_def g5_def g'_def Let_def)
  define q where "q = last (p1 # ys1)"
  have "q \<in> set (p1 # ys1)" unfolding q_def by (rule last_in_set) simp
  then have q: "q \<noteq> p0" "q \<notin> set xs0" "q \<in> R1" "q < length g"
    using out D1(2,6,12) by auto
  have nth: "g' ! i = (if i = p1 then (g5 ! p1)\<lparr>b_head := b_head (g5 ! p0)\<rparr> else g5 ! i)"
    "g5 ! i = (if i = p1 then (g4 ! p1)\<lparr>b_sense := \<not> b_sense (g4 ! p1)\<rparr> else g4 ! i)"
    "g4 ! i = (if i = q then relink (Some p0) (g3 ! q) else g3 ! i)" if "i < length g" for i
    using that by (simp_all add: g'_def g5_def g4_def q_def [symmetric] len del: last.simps)
  have block: "g' ! i = (if i = p1 then
        (if q = p1 then (relink (Some p0) ((g ! p1)\<lparr>b_sense := \<not> b_sense (g ! p1)\<rparr>))\<lparr>b_sense := b_sense (g ! p1)\<rparr>
         else g ! p1)\<lparr>b_head := b_head (g ! p0)\<rparr>
      else if i = p0 then (relink (Some h1) (g ! p0))\<lparr>b_sense := \<not> b_sense (g ! p0)\<rparr>
      else if i \<in> set xs0 then relink (Some h1) (g ! i)
      else if i = q then relink (Some p0) (g ! i) else g ! i)" if "i < length g" for i
    using that D0(1) D1(1) out q by (simp add: nth g3)
  show ?thesis
  proof (rule that [OF and_eq len(5)])
    fix i arm assume i: "i < length g"
    show "b_stmts (g' ! i) = b_stmts (g ! i) \<and> b_s (g' ! i) = b_s (g ! i)"
      "b_head (g' ! i) = (if i = p1 then b_head (g ! p0) else b_head (g ! i))"
      "list_arm (g' ! i) = (if i = p0 then \<not> list_arm (g ! p0) else list_arm (g ! i))"
      using i out by (simp_all add: block b_sense_list_arm)
    show "b_succ (g' ! i) arm =
      (if i \<in> set (p0 # xs0) \<and> arm = list_arm (g ! i) then Some (b_head (g ! p1))
       else if i = last (p1 # ys1) \<and> (arm = list_arm (g ! i)) = (i \<noteq> p1) then Some p0
       else b_succ (g ! i) arm)"
      using i out q by (auto simp: block q_def [symmetric] b_sense_list_arm h1_def simp del: last.simps)
    show "g' ! i = g ! i" if "i \<notin> R0 \<union> R1"
      using that i D0(2,5) D1(2) q by (auto simp: block)
  qed
qed

lemma gen_and_represents:
  assumes "represents g p0 t0 R0" and "represents g p1 t1 R1" and disj: "R0 \<inter> R1 = {}"
  obtains g' where "gen_and p0 p1 g = Some g'" and "represents g' p1 (and_tree t0 t1) (R0 \<union> R1)"
    and "length g' = length g" and "\<And>i. i < length g \<Longrightarrow> i \<notin> R0 \<union> R1 \<Longrightarrow> g' ! i = g ! i"
proof -
  obtain xs0 ys0 xs1 ys1 where rep0: "represents_by g p0 xs0 ys0 t0 R0"
    and rep1: "represents_by g p1 xs1 ys1 t1 R1" using assms(1,2) by (auto simp: represents_def)
  note D0 = represents_byD [OF rep0] and D1 = represents_byD [OF rep1]
  obtain g' where and_eq: "gen_and p0 p1 g = Some g'" and len: "length g' = length g"
    and same: "\<And>i. i < length g \<Longrightarrow> b_stmts (g' ! i) = b_stmts (g ! i) \<and> b_s (g' ! i) = b_s (g ! i)"
    and head: "\<And>i. i < length g \<Longrightarrow> b_head (g' ! i) = (if i = p1 then b_head (g ! p0) else b_head (g ! i))"
    and la: "\<And>i. i < length g \<Longrightarrow>
      list_arm (g' ! i) = (if i = p0 then \<not> list_arm (g ! p0) else list_arm (g ! i))"
    and succ: "\<And>i arm. i < length g \<Longrightarrow> b_succ (g' ! i) arm =
      (if i \<in> set (p0 # xs0) \<and> arm = list_arm (g ! i) then Some (b_head (g ! p1))
       else if i = last (p1 # ys1) \<and> (arm = list_arm (g ! i)) = (i \<noteq> p1) then Some p0
       else b_succ (g ! i) arm)"
    and frame: "\<And>i. i < length g \<Longrightarrow> i \<notin> R0 \<union> R1 \<Longrightarrow> g' ! i = g ! i"
    by (rule gen_and_blocks [OF rep0 rep1 disj]) blast
  let ?ys = "ys1 @ p0 # ys0"
  let ?E = "open_exits g' p1 xs1 ?ys"
  have lst: "last (p1 # ys1) = (if ys1 = [] then p1 else last ys1)" "ys1 \<noteq> [] \<Longrightarrow> last ys1 \<in> set ys1"
    by simp_all
  have apart: "i \<in> R0 \<Longrightarrow> i \<notin> R1 \<and> i < length g" "i \<in> R1 \<Longrightarrow> i \<notin> R0 \<and> i < length g" for i
    using disj D0(12) D1(12) by auto
  have out0: "i \<in> R0 \<Longrightarrow> i \<noteq> p1 \<and> i \<notin> set xs1 \<and> i \<notin> set ys1 \<and> i \<noteq> last (p1 # ys1)" for i
    using apart(1) [of i] D1(2,5,6) last_in_set [of "p1 # ys1"] by (auto simp del: last.simps)
  have out1: "i \<in> R1 \<Longrightarrow> i \<noteq> p0 \<and> i \<notin> set xs0 \<and> i \<notin> set ys0" for i
    using apart(2) [of i] D0(2,5,6) by auto
  have ex0: "?E i arm = (if open_exits g p0 xs0 ys0 i arm = Some False then Some False else None)"
    if "i \<in> R0" for i arm
    using out0 [OF that] apart(1) [OF that] D0(4) by (auto simp: open_exits_def la)
  have ex1: "?E i arm = open_exits g p1 xs1 ys1 i arm" if "i \<in> R1" for i arm
    using out1 [OF that] out1 [OF D1(2)] apart(2) [OF that] D1(1) by (auto simp: open_exits_def la)
  have succ0: "b_succ (g' ! i) arm = (if open_exits g p0 xs0 ys0 i arm = Some True
      then Some (b_head (g ! p1)) else b_succ (g ! i) arm)" if "i \<in> R0" for i arm
    using out0 [OF that] apart(1) [OF that] D0(4) by (auto simp: open_exits_def succ)
  have succ1: "b_succ (g' ! i) arm = b_succ (g ! i) arm"
    if "i \<in> R1" "open_exits g p1 xs1 ys1 i arm = None" for i arm
    using that out1 [OF that(1)] apart(2) [OF that(1)] lst(2)
    by (auto simp: open_exits_def succ lst(1) split: if_splits)
  have tree1: "tree_at g' ?E (b_head (g ! p1)) t1"
  proof -
    have "tree_at g' ?E (b_head (g ! p1)) (tsubst Exit t1)"
      by (rule tree_at_tsubst [OF D1(8,7) closed_succ [OF rep1]])
        (use apart same len in \<open>auto simp: ex1 succ1 arm_at_Some\<close>)
    then show ?thesis by simp
  qed
  have tree0: "tree_at g' ?E (b_head (g ! p0)) (and_tree t0 t1)"
  proof (rule tree_at_tsubst [OF D0(8,7) closed_succ [OF rep0]])
    fix i arm v assume "i \<in> R0" and "open_exits g p0 xs0 ys0 i arm = Some v"
    then show "arm_at g' ?E i arm (if v then t1 else Exit False)"
      using tree1 by (cases v) (simp_all add: arm_at_def ex0 succ0)
  qed (use apart same len in \<open>auto simp: ex0 succ0\<close>)
  have closed: "\<exists>j\<in>R0 \<union> R1. b_succ (g' ! i) arm = Some j" if i: "i \<in> R0 \<union> R1" and none: "?E i arm = None" for i arm
  proof (cases "i \<in> R0")
    case True
    with none have "open_exits g p0 xs0 ys0 i arm \<noteq> Some False" by (simp add: ex0 split: if_splits)
    with True show ?thesis using D0(11) [OF True, of arm] D1(7)
      by (cases "open_exits g p0 xs0 ys0 i arm") (auto simp: succ0)
  next
    case False
    with i have R1: "i \<in> R1" by simp
    with none have "open_exits g p1 xs1 ys1 i arm = None" by (simp add: ex1)
    with D1(11) [OF R1 this] R1 show ?thesis by (auto simp: succ1)
  qed
  have chain_ys0: "chain g' (b_succ (g ! p0) (\<not> list_arm (g ! p0))) ys0"
    by (rule chain_cong [OF _ D0(10)]) (use D0(4,6) apart(1) out0 len in \<open>auto simp: la succ subset_iff\<close>)
  have p0_chain: "chain g' (Some p0) (p0 # ys0)"
    using chain_ys0 D0(1) len out0 [OF D0(2)] by (simp add: la succ)
  have chain_ys: "chain g' (b_succ (g' ! p1) (\<not> list_arm (g' ! p1))) ?ys"
  proof (cases "ys1 = []")
    case True
    then show ?thesis using D1(1) out1 [OF D1(2)] p0_chain by (simp add: la succ)
  next
    case False
    have "chain g' (b_succ (g ! p1) (\<not> list_arm (g ! p1))) ?ys"
      by (rule chain_extend [OF D1(10) False _ len _ _ p0_chain])
        (use D1(4,6) apart(2) out1 False in \<open>auto simp: la succ subset_iff\<close>)
    then show ?thesis using D1(1,4) out1 [OF D1(2)] False lst(2) by (auto simp: la succ)
  qed
  have chain_xs: "chain g' (b_succ (g' ! p1) (list_arm (g' ! p1))) xs1"
  proof -
    have "chain g' (b_succ (g ! p1) (list_arm (g ! p1))) xs1"
      by (rule chain_cong [OF _ D1(9)])
        (use D1(4,5) out1 lst(2) len in \<open>auto simp: la succ lst(1) subset_iff\<close>)
    then show ?thesis using D1(1,4) out1 [OF D1(2)] lst(2) by (auto simp: la succ lst(1))
  qed
  have "represents g' p1 (and_tree t0 t1) (R0 \<union> R1)"
  proof (rule represents_byI [OF _ _ _ _ _ _ _ chain_xs chain_ys])
    show "distinct (p1 # xs1 @ ?ys)" using D0(2,4,5,6) D1(2,4,5,6) disj by auto
    show "b_head (g' ! p1) \<in> R0 \<union> R1" "tree_at g' ?E (b_head (g' ! p1)) (and_tree t0 t1)"
      using D0(7) D1(1) tree0 by (simp_all add: head)
    show "\<exists>j\<in>R0 \<union> R1. b_succ (g' ! i) arm = Some j"
      if "i \<in> R0 \<union> R1" "?E i arm = None" for i arm using closed that .
  qed (use D0(2,5,6) D1(2,5,6) apart len in auto)
  with and_eq len frame show ?thesis by (intro that)
qed

text \<open>
  \<open>gen_or\<close> by De Morgan: the code flips the same bits, in another order.
\<close>

lemma flip_sense_flip [simp]: "p < length g \<Longrightarrow> flip_sense p (flip_sense p g) = g"
  by (intro nth_equalityI) auto

lemma flip_commute: "flip_sense p (flip_sense q g) = flip_sense q (flip_sense p g)"
  by (cases "p = q"; cases "p < length g"; cases "q < length g")
    (auto simp: flip_sense_def list_update_swap list_update_beyond)

lemma patch_flip: "p \<notin> S \<Longrightarrow> p < length g \<Longrightarrow> patch S v (flip_sense p g) = flip_sense p (patch S v g)"
  by (intro nth_equalityI) auto

lemma set_head_flip: "p < length g \<Longrightarrow> flip_sense p (set_head p h (flip_sense p g)) = set_head p h g"
  by (intro nth_equalityI) auto

lemma merge_length: "merge b0 b1 g = Some g' \<Longrightarrow> length g' = length g"
  by (rule merge.raw_induct [of "\<lambda>_ _ g g'. length g' = length g"])
    (auto simp: Let_def set_succ_def split: if_splits option.splits)

lemma gen_or_de_morgan:
  assumes "represents g p0 t0 R0" and "represents g p1 t1 R1" and disj: "R0 \<inter> R1 = {}"
  shows "gen_or p0 p1 g = map_option (gen_not p1) (gen_and p0 p1 (gen_not p0 (gen_not p1 g)))"
proof -
  obtain xs ys where rep: "represents_by g p0 xs ys t0 R0" using assms(1) by (auto simp: represents_def)
  note D = represents_byD [OF rep]
  have p1: "p1 \<in> R1" "p1 < length g" using represents_bound [OF assms(2)] by auto
  then have out: "p1 \<noteq> p0" "p1 \<notin> set ys" using D(2,6) disj by auto
  define S where "S = set (p0 # ys)"
  let ?h = "b_head (g ! p1)" and ?g = "flip_sense p0 g"
  have "chain ?g (b_succ (?g ! p0) (list_arm (?g ! p0))) ys"
    using D(4) D(1) by (auto simp: b_sense_list_arm split: if_splits intro!: chain_cong [OF _ D(10)])
  then have ch: "chain ?g (Some p0) (p0 # ys)" and dist: "distinct (p0 # ys)" using D(1,4) by auto
  have bp: "backpatch (Some p0) ?h ?g = Some (patch S (Some ?h) ?g)"
    unfolding S_def by (rule backpatch_chain [OF ch dist])
  have ch': "chain (flip_sense p1 ?g) (Some p0) (p0 # ys)"
    by (rule chain_cong [OF _ ch]) (use out in auto)
  have bp': "backpatch (Some p0) ?h (flip_sense p1 ?g) = Some (patch S (Some ?h) (flip_sense p1 ?g))"
    unfolding S_def by (rule backpatch_chain [OF ch' dist])
  define X where "X = patch S (Some ?h) ?g"
  have P: "patch S (Some ?h) (flip_sense p1 ?g) = flip_sense p1 X"
    unfolding X_def using out p1 by (intro patch_flip) (auto simp: S_def)
  have F: "flip_sense p1 (flip_sense p0 (flip_sense p1 X)) = flip_sense p0 X"
    using p1 by (simp add: flip_commute [of p0 p1] X_def)
  have head: "b_head (flip_sense p1 ?g ! p1) = ?h" "b_head (?g ! p1) = ?h"
    "flip_sense p0 (flip_sense p1 g) = flip_sense p1 ?g"
    using p1 D(1) by (simp_all add: flip_commute)
  show ?thesis
  proof (cases "merge p1 p0 (flip_sense p0 X)")
    case None
    then show ?thesis by (simp add: gen_or_def gen_and_def gen_not_def Let_def head bp bp' P F X_def [symmetric])
  next
    case (Some g4)
    have "length g4 = length g" using merge_length [OF Some] by (simp add: X_def)
    with Some p1(2) D(1) out show ?thesis
      by (simp add: gen_or_def gen_and_def gen_not_def Let_def head bp bp' P F X_def [symmetric] set_head_flip)
  qed
qed
lemma gen_or_represents:
  assumes "represents g p0 t0 R0" and "represents g p1 t1 R1" and disj: "R0 \<inter> R1 = {}"
  obtains g' where "gen_or p0 p1 g = Some g'" and "represents g' p1 (or_tree t0 t1) (R0 \<union> R1)"
    and "length g' = length g" and "\<And>i. i < length g \<Longrightarrow> i \<notin> R0 \<union> R1 \<Longrightarrow> g' ! i = g ! i"
proof -
  have p: "p0 \<in> R0" "p1 \<in> R1" using assms(1,2) by (auto dest: represents_bound)
  let ?g = "gen_not p0 (gen_not p1 g)"
  have g1: "represents (gen_not p1 g) p0 t0 R0"
    using disj p represents_bound [OF assms(1)]
    by (intro represents_cong [OF assms(1)]) (auto simp: gen_not_def subset_iff)
  have g2: "represents ?g p1 (not_tree t1) R1"
    using disj p represents_bound [OF assms(2)]
    by (intro represents_cong [OF gen_not_represents [OF assms(2)]]) (auto simp: gen_not_def subset_iff)
  obtain g' where g': "gen_and p0 p1 ?g = Some g'"
    "represents g' p1 (and_tree (not_tree t0) (not_tree t1)) (R0 \<union> R1)" "length g' = length ?g"
    "\<And>i. i < length ?g \<Longrightarrow> i \<notin> R0 \<union> R1 \<Longrightarrow> g' ! i = ?g ! i"
    by (rule gen_and_represents [OF gen_not_represents [OF g1] g2 disj]) blast
  have "not_tree (and_tree (not_tree t0) (not_tree t1)) = or_tree t0 t1"
    unfolding tsubst_tsubst by (rule arg_cong [where f = "\<lambda>\<sigma>. tsubst \<sigma> t0"]) (auto simp: tsubst_tsubst)
  with gen_not_represents [OF g'(2)] have rep: "represents (gen_not p1 g') p1 (or_tree t0 t1) (R0 \<union> R1)" by simp
  have "gen_or p0 p1 g = Some (gen_not p1 g')" using gen_or_de_morgan [OF assms] g'(1) by simp
  then show ?thesis
  proof (rule that [OF _ rep])
    show "gen_not p1 g' ! i = g ! i" if "i < length g" "i \<notin> R0 \<union> R1" for i
      using that g'(3,4) p by (auto simp: gen_not_def)
  qed (simp add: g'(3) gen_not_def)
qed

section \<open>The end of the parse\<close>

definition ret_stmt :: "u32 \<Rightarrow> stmt" where
  "ret_stmt v = plain_stmt (ucast (BPF_RET OR BPF_K)) v"

definition ret_block :: "u32 \<Rightarrow> nat \<Rightarrow> block" where
  "ret_block v i = (fresh_block 0 i)\<lparr>b_s := ret_stmt v\<rparr>"

definition verdict_tree :: "u32 \<Rightarrow> dtree \<Rightarrow> dtree" where
  "verdict_tree snaplen = tsubst (\<lambda>v. Final [] (ret_stmt (if v then snaplen else 0)))"

lemma gen_retblk_eq: "gen_retblk v g = (length g, g @ [ret_block v (length g)])"
  by (simp add: gen_retblk_def new_block_def set_k_def fresh_block_def ret_block_def ret_stmt_def
      plain_stmt_def)

lemma ret_block_simps [simp]:
  "b_stmts (ret_block v i) = []" "b_s (ret_block v i) = ret_stmt v" "b_succ (ret_block v i) arm = None"
  by (simp_all add: ret_block_def fresh_block_def b_succ_def)

lemma finish_branches_tree:
  assumes "represents g p t R"
  obtains g' where "finish_branches snaplen p g = Some (b_head (g ! p), g')"
    and "tree_at g' no_exits (b_head (g ! p)) (verdict_tree snaplen t)" and "length g' = length g + 2"
    and "\<And>i. i < length g \<Longrightarrow> b_stmts (g' ! i) = b_stmts (g ! i) \<and>
      b_longjt (g' ! i) = b_longjt (g ! i) \<and> b_longjf (g' ! i) = b_longjf (g ! i)"
    and "g' ! length g = ret_block snaplen (length g)" and "g' ! Suc (length g) = ret_block 0 (Suc (length g))"
    and "b_head (g ! p) \<in> R" and "\<And>i arm k. i \<in> R \<Longrightarrow> b_succ (g' ! i) arm = Some k \<Longrightarrow> k \<in> insert (length g) (insert (Suc (length g)) R)"
proof -
  obtain xs ys where rep: "represents_by g p xs ys t R" using assms by (auto simp: represents_def)
  note D = represents_byD [OF rep]
  let ?n = "length g"
  define g1 where "g1 = g @ [ret_block snaplen ?n]"
  define g2 where "g2 = flip_sense p (patch (set (p # xs)) (Some ?n) g1)"
  define g3 where "g3 = g2 @ [ret_block 0 (Suc ?n)]"
  define g' where "g' = patch (set (p # ys)) (Some (Suc ?n)) g3"
  have len: "length g1 = Suc ?n" "length g2 = Suc ?n" "length g3 = Suc (Suc ?n)" "length g' = ?n + 2"
    by (simp_all add: g1_def g2_def g3_def g'_def)
  have out: "p \<notin> set xs" "p \<notin> set ys" "set xs \<inter> set ys = {}" "set xs \<subseteq> {..<?n}" "set ys \<subseteq> {..<?n}"
    using D(3-6) by auto
  have "chain g1 (b_succ (g ! p) (list_arm (g ! p))) xs"
    by (rule chain_cong [OF _ D(9)]) (simp add: g1_def nth_append)
  then have "chain g1 (Some p) (p # xs)" using D(1) by (simp add: g1_def nth_append)
  then have bp1: "backpatch (Some p) ?n g1 = Some (patch (set (p # xs)) (Some ?n) g1)"
    using D(4) by (intro backpatch_chain) auto
  have g3: "g3 ! i = (if i = p then (relink (Some ?n) (g ! p))\<lparr>b_sense := \<not> b_sense (g ! p)\<rparr>
      else if i \<in> set xs then relink (Some ?n) (g ! i) else g ! i)" if "i < ?n" for i
    using that D(1) by (auto simp: g3_def g2_def g1_def nth_append)
  have "chain g3 (b_succ (g ! p) (\<not> list_arm (g ! p))) ys"
    by (rule chain_cong [OF _ D(10)]) (use out D(1) in \<open>auto simp: g3 len\<close>)
  then have "chain g3 (Some p) (p # ys)" using D(1) by (simp add: g3 len b_sense_list_arm)
  then have bp2: "backpatch (Some p) (Suc ?n) g3 = Some g'"
    unfolding g'_def using D(4) by (intro backpatch_chain) auto
  have ret: "g' ! ?n = ret_block snaplen ?n" "g' ! Suc ?n = ret_block 0 (Suc ?n)"
    using out D(1) by (auto simp: g'_def g3_def g2_def g1_def nth_append)
  have block: "g' ! i = (if i = p then relink (Some (Suc ?n)) ((relink (Some ?n) (g ! p))\<lparr>b_sense := \<not> b_sense (g ! p)\<rparr>)
      else if i \<in> set xs then relink (Some ?n) (g ! i)
      else if i \<in> set ys then relink (Some (Suc ?n)) (g ! i) else g ! i)" if "i < ?n" for i
    using that out by (auto simp: g'_def g3 len)
  have succ: "b_succ (g' ! i) arm = (case open_exits g p xs ys i arm of
      None \<Rightarrow> b_succ (g ! i) arm | Some v \<Rightarrow> Some (if v then ?n else Suc ?n))" if "i \<in> R" for i arm
    using D(12) [OF that] out by (auto simp: block open_exits_def b_sense_list_arm)
  have tree: "tree_at g' no_exits (b_head (g ! p)) (verdict_tree snaplen t)"
    unfolding verdict_tree_def
  proof (rule tree_at_tsubst [OF D(8,7) closed_succ [OF rep]])
    fix i arm v assume "i \<in> R" and "open_exits g p xs ys i arm = Some v"
    then show "arm_at g' no_exits i arm (Final [] (ret_stmt (if v then snaplen else 0)))"
      using ret len by (cases v) (simp_all add: arm_at_def succ)
  next
    fix i assume i: "i \<in> R"
    show "i < length g' \<and> b_stmts (g' ! i) = b_stmts (g ! i) \<and> b_s (g' ! i) = b_s (g ! i)"
      using D(12) [OF i] len by (simp add: block)
  qed (simp_all add: succ)
  have head: "b_head (g' ! p) = b_head (g ! p)" using D(1) by (simp add: block)
  have "finish_branches snaplen p g = Some (b_head (g ! p), g')"
    using bp1 bp2 D(1) head
    by (simp add: finish_branches_def gen_retblk_eq Let_def len g1_def [symmetric] g2_def [symmetric] g3_def [symmetric] del: list.set(2))
  then show ?thesis
  proof (rule that [OF _ tree len(4)])
    show "b_stmts (g' ! i) = b_stmts (g ! i) \<and> b_longjt (g' ! i) = b_longjt (g ! i) \<and>
      b_longjf (g' ! i) = b_longjf (g ! i)" if "i < length g" for i
      using block [OF that] by (auto simp: relink_def)
    show "k \<in> insert ?n (insert (Suc ?n) R)" if i: "i \<in> R" and k: "b_succ (g' ! i) arm = Some k" for i arm k
    proof (cases "open_exits g p xs ys i arm")
      case None
      then show ?thesis using k succ [OF i] closed_succ [OF rep i None] by simp
    next
      case (Some v)
      then show ?thesis using k succ [OF i] by (auto split: if_splits)
    qed
  qed (fact ret D(7))+
qed

end
