(* ===== verification/Fcode_Layout.thy ===== *)
theory Fcode_Layout
  imports Icode_To_Fcode Decision_Tree
begin

text \<open>
  One pass of the conversion on a graph that unfolds to a tree: the number of instructions
  counted is the space the blocks need, every block is placed once, and behind it its
  successors; or a branch without a long jump asks for one. From this the loop of
  \<open>icode_to_fcode\<close> ends, after at most one retry per branch.
\<close>

section \<open>The blocks behind a block\<close>

definition edges :: "graph \<Rightarrow> (nat \<times> nat) set" where
  "edges g = {(i, k). \<exists>arm. b_succ (g ! i) arm = Some k}"

definition reach :: "graph \<Rightarrow> nat \<Rightarrow> nat set" where
  "reach g i = (edges g)\<^sup>* `` {i}"

primrec depth :: "dtree \<Rightarrow> nat" where
  "depth (Exit v) = 0"
| "depth (Final ss s) = 1"
| "depth (Branch ss s t f) = Suc (max (depth t) (depth f))"

abbreviation closed_tree :: "graph \<Rightarrow> nat \<Rightarrow> dtree \<Rightarrow> bool" where
  "closed_tree g i t \<equiv> tree_at g no_exits i t"

lemma reach_self [simp]: "i \<in> reach g i"
  by (simp add: reach_def)

lemma reach_unfold:
  "reach g i = insert i ((\<Union>k\<in>set_option (b_jt (g ! i)). reach g k) \<union> (\<Union>k\<in>set_option (b_jf (g ! i)). reach g k))"
    (is "_ = ?r")
proof -
  have edge: "(i, k) \<in> edges g \<longleftrightarrow> b_jt (g ! i) = Some k \<or> b_jf (g ! i) = Some k" for k
    by (auto simp: edges_def b_succ_def intro: exI [of _ True] exI [of _ False] split: if_splits)
  have "j \<in> ?r" if "(i, j) \<in> (edges g)\<^sup>*" for j
    using that by (cases rule: converse_rtranclE) (auto simp: edge reach_def)
  moreover have "(i, j) \<in> (edges g)\<^sup>*" if "j \<in> ?r" for j
    using that by (auto simp: reach_def intro: converse_rtrancl_into_rtrancl edge [THEN iffD2])
  ultimately have "j \<in> reach g i \<longleftrightarrow> j \<in> ?r" for j
    unfolding reach_def [of g i] Image_singleton_iff by (rule iffI)
  then show ?thesis by (rule set_eqI)
qed

lemma reach_trans: "j \<in> reach g i \<Longrightarrow> reach g j \<subseteq> reach g i"
  by (auto simp: reach_def)

lemma closed_tree_Final [simp]:
  "closed_tree g i (Final ss s) \<longleftrightarrow> i < length g \<and> ss = b_stmts (g ! i) \<and> s = b_s (g ! i) \<and>
     b_jt (g ! i) = None \<and> b_jf (g ! i) = None"
  by (auto simp: b_succ_def)

lemma closed_tree_Branch [simp]:
  "closed_tree g i (Branch ss s t f) \<longleftrightarrow> i < length g \<and> ss = b_stmts (g ! i) \<and> s = b_s (g ! i) \<and>
     (\<exists>j k. b_jt (g ! i) = Some j \<and> b_jf (g ! i) = Some k \<and> closed_tree g j t \<and> closed_tree g k f)"
  by (auto simp: arm_at_def b_succ_def)

declare tree_at.simps(2) [simp del] tree_at_Branch [simp del]

lemma reach_Final: "b_jt (g ! i) = None \<Longrightarrow> b_jf (g ! i) = None \<Longrightarrow> reach g i = {i}"
  by (subst reach_unfold) simp

lemma reach_Branch:
  assumes "b_jt (g ! i) = Some j" and "b_jf (g ! i) = Some k"
  shows "reach g i = insert i (reach g j \<union> reach g k)"
  using assms by (subst reach_unfold) simp

lemma closed_tree_reach:
  "closed_tree g i t \<Longrightarrow> j \<in> reach g i \<Longrightarrow> \<exists>u. closed_tree g j u \<and> depth u \<le> depth t"
proof (induction t arbitrary: i)
  case (Final ss s)
  then show ?case by (auto simp: reach_Final intro!: exI [of _ "Final ss s"])
next
  case (Branch ss s t f)
  then obtain a b where ab: "b_jt (g ! i) = Some a" "b_jf (g ! i) = Some b" "closed_tree g a t"
    "closed_tree g b f" by auto
  from Branch.prems(2) consider "j = i" | "j \<in> reach g a" | "j \<in> reach g b"
    by (auto simp: reach_Branch [OF ab(1,2)])
  then show ?case
  proof cases
    case 1
    with Branch.prems(1) show ?thesis by blast
  next
    case 2
    with Branch.IH(1) [OF ab(3)] obtain u where "closed_tree g j u" "depth u \<le> depth t" by blast
    then show ?thesis by (intro exI [of _ u]) simp
  next
    case 3
    with Branch.IH(2) [OF ab(4)] obtain u where "closed_tree g j u" "depth u \<le> depth f" by blast
    then show ?thesis by (intro exI [of _ u]) simp
  qed
qed simp

lemma closed_tree_acyclic:
  assumes "closed_tree g i (Branch ss s t f)"
    and "b_jt (g ! i) = Some j" and "b_jf (g ! i) = Some k"
  shows "i \<notin> reach g j" and "i \<notin> reach g k"
proof -
  have sub: "closed_tree g j t" "closed_tree g k f" using assms by auto
  have False if "closed_tree g i u" "depth u \<le> depth t \<or> depth u \<le> depth f" for u
    using that tree_at_unique [OF assms(1) that(1)] by auto
  then show "i \<notin> reach g j" "i \<notin> reach g k"
    using closed_tree_reach [OF sub(1)] closed_tree_reach [OF sub(2)] by blast+
qed

lemma reach_bounds: "closed_tree g i t \<Longrightarrow> reach g i \<subseteq> {..<length g}"
proof
  fix j assume "closed_tree g i t" "j \<in> reach g i"
  then obtain u where "closed_tree g j u" using closed_tree_reach by blast
  then show "j \<in> {..<length g}" by (cases u) auto
qed

lemma reach_finite: "closed_tree g i t \<Longrightarrow> finite (reach g i)"
  by (rule finite_subset [OF reach_bounds finite_lessThan])

lemma depth_le_card: "closed_tree g i t \<Longrightarrow> depth t \<le> card (reach g i)"
proof (induction t arbitrary: i)
  case (Final ss s)
  then show ?case by (simp add: reach_Final)
next
  case (Branch ss s t f)
  then obtain j k where jk: "b_jt (g ! i) = Some j" "b_jf (g ! i) = Some k" "closed_tree g j t"
    "closed_tree g k f" by auto
  note out = closed_tree_acyclic [OF Branch.prems jk(1,2)]
  have fin: "finite (reach g j \<union> reach g k)" using reach_finite jk by blast
  have "depth t \<le> card (reach g j \<union> reach g k)" "depth f \<le> card (reach g j \<union> reach g k)"
    using Branch.IH(1) [OF jk(3)] Branch.IH(2) [OF jk(4)] card_mono [OF fin] by (meson le_trans Un_upper1 Un_upper2)+
  then show ?case using out fin by (simp add: reach_Branch [OF jk(1,2)])
qed simp

lemma depth_le:
  assumes "closed_tree g i t"
  shows "depth t \<le> length g"
proof -
  have "card (reach g i) \<le> length g"
    using card_mono [OF finite_lessThan reach_bounds [OF assms]] by simp
  with depth_le_card [OF assms] show ?thesis by (rule le_trans)
qed

section \<open>Counting\<close>

definition space :: "graph \<Rightarrow> nat set \<Rightarrow> nat" where
  "space g S = (\<Sum>i\<in>S. block_size (g ! i))"

lemma space_empty [simp]: "space g {} = 0"
  by (simp add: space_def)

lemma space_insert: "finite S \<Longrightarrow> i \<notin> S \<Longrightarrow> space g (insert i S) = block_size (g ! i) + space g S"
  by (simp add: space_def)

lemma space_split:
  "finite A \<Longrightarrow> finite B \<Longrightarrow> space g (A \<union> B - M) = space g (A - M) + space g (B - (M \<union> A))"
  unfolding space_def by (subst sum.union_disjoint [symmetric]) (auto intro!: sum.cong)

text \<open>
  A traversal that has marked \<open>M\<close> and comes to a block of which nothing is marked but whole
  subgraphs.
\<close>

definition full_marks :: "graph \<Rightarrow> nat \<Rightarrow> nat set \<Rightarrow> bool" where
  "full_marks g i M \<longleftrightarrow> (\<forall>j\<in>reach g i. j \<in> M \<longrightarrow> reach g j \<subseteq> M)"

lemma full_marks_Branch:
  assumes "closed_tree g i (Branch ss s t f)"
    and "b_jt (g ! i) = Some j" and "b_jf (g ! i) = Some k" and "full_marks g i M"
  shows "full_marks g j (insert i M)" "full_marks g k (insert i M \<union> reach g j)"
    "full_marks g k (insert i M)" "full_marks g j (insert i M \<union> reach g k)"
  using closed_tree_acyclic [OF assms(1-3)] assms(4) reach_trans
  by (auto simp: full_marks_def reach_Branch [OF assms(2,3)]; blast)+

lemma full_marks_marked:
  assumes "full_marks g i M" and "i \<in> M"
  shows "space h (reach g i - M) = 0" and "M \<union> reach g i = M"
proof -
  have "reach g i \<subseteq> M" using assms by (simp add: full_marks_def)
  then show "space h (reach g i - M) = 0" and "M \<union> reach g i = M"
    by (auto simp: Diff_eq_empty_iff [THEN iffD2])
qed

lemma reach_space:
  assumes "closed_tree g i (Branch ss s t f)"
    and "b_jt (g ! i) = Some j" and "b_jf (g ! i) = Some k" and "i \<notin> M"
  shows "space g (reach g i - M) = block_size (g ! i) + space g (reach g j - insert i M) +
      space g (reach g k - (insert i M \<union> reach g j))"
    and "space g (reach g i - M) = block_size (g ! i) + space g (reach g k - insert i M) +
      space g (reach g j - (insert i M \<union> reach g k))"
proof -
  have fin: "finite (reach g j)" "finite (reach g k)"
    using assms(1-3) by (auto intro: reach_finite)
  have eq: "reach g i - M = insert i (reach g j \<union> reach g k - insert i M)"
    using assms(4) by (auto simp: reach_Branch [OF assms(2,3)])
  show "space g (reach g i - M) = block_size (g ! i) + space g (reach g j - insert i M) +
      space g (reach g k - (insert i M \<union> reach g j))"
    unfolding eq using fin by (simp add: space_insert space_split)
  show "space g (reach g i - M) = block_size (g ! i) + space g (reach g k - insert i M) +
      space g (reach g j - (insert i M \<union> reach g k))"
    unfolding eq using fin by (simp add: space_insert space_split Un_commute [of "reach g j"])
qed

lemma count_stmts_space:
  "closed_tree g i t \<Longrightarrow> depth t < fuel \<Longrightarrow> full_marks g i M \<Longrightarrow>
     count_stmts fuel (Some i) g M = Some (space g (reach g i - M), M \<union> reach g i)"
proof (induction t arbitrary: i fuel M)
  case (Final ss s)
  then obtain n where n: "fuel = Suc (Suc n)" by (auto dest!: less_imp_Suc_add)
  show ?case
  proof (cases "i \<in> M")
    case True
    with full_marks_marked [OF Final.prems(3)] show ?thesis by (simp add: n)
  next
    case False
    with Final show ?thesis by (simp add: n reach_Final space_insert insert_Diff_if)
  qed
next
  case (Branch ss s t f)
  then obtain j k where jk: "b_jt (g ! i) = Some j" "b_jf (g ! i) = Some k" "closed_tree g j t"
    "closed_tree g k f" by auto
  obtain n where n: "fuel = Suc n" "depth t < n" "depth f < n"
    using Branch.prems(2) by (cases fuel) auto
  note full = full_marks_Branch [OF Branch.prems(1) jk(1,2) Branch.prems(3)]
  show ?case
  proof (cases "i \<in> M")
    case True
    with full_marks_marked [OF Branch.prems(3)] show ?thesis by (simp add: n)
  next
    case False
    then show ?thesis
      using Branch.prems(1) jk Branch.IH(1) [OF jk(3) n(2) full(1)] Branch.IH(2) [OF jk(4) n(3) full(2)]
        reach_space(1) [OF Branch.prems(1) jk(1,2) False]
      by (simp add: n(1) reach_Branch [OF jk(1,2)] Un_assoc)
  qed
qed simp

section \<open>Placed blocks\<close>

definition body_ok :: "block \<Rightarrow> bool" where
  "body_ok b \<longleftrightarrow> (\<exists>xs. emit_stmts (b_stmts b) (slength (b_stmts b)) 0 (b_stmts b) = Inr xs)"

text \<open>
  The code of block \<open>i\<close> is in the array where its offset says, and its successors are behind it.
\<close>

definition placed :: "graph \<Rightarrow> bpf_insn list \<Rightarrow> nat \<Rightarrow> bool" where
  "placed g code i \<longleftrightarrow>
     (\<exists>xs ys. emit_stmts (b_stmts (g ! i)) (slength (b_stmts (g ! i))) 0 (b_stmts (g ! i)) = Inr xs \<and>
       emit_branch g (g ! i) = Some (Emitted ys) \<and>
       unat (b_offset (g ! i)) + block_size (g ! i) \<le> length code \<and>
       take (block_size (g ! i)) (drop (unat (b_offset (g ! i))) code) =
         (xs @ ys) @ replicate (block_size (g ! i) - length (xs @ ys)) zero_insn \<and>
       (\<forall>k. b_jt (g ! i) = Some k \<or> b_jf (g ! i) = Some k \<longrightarrow>
         unat (b_offset (g ! i)) + block_size (g ! i) \<le> unat (b_offset (g ! k))))"

definition same_shape :: "graph \<Rightarrow> graph \<Rightarrow> bool" where
  "same_shape g h \<longleftrightarrow> length h = length g \<and>
     (\<forall>i<length g. (h ! i)\<lparr>b_offset := 0\<rparr> = (g ! i)\<lparr>b_offset := 0\<rparr>)"

lemma same_shapeD:
  assumes "same_shape g h" and "i < length g"
  shows "b_stmts (h ! i) = b_stmts (g ! i)" "b_s (h ! i) = b_s (g ! i)"
    "b_longjt (h ! i) = b_longjt (g ! i)" "b_longjf (h ! i) = b_longjf (g ! i)"
    "b_jt (h ! i) = b_jt (g ! i)" "b_jf (h ! i) = b_jf (g ! i)"
    "block_size (h ! i) = block_size (g ! i)"
proof -
  have eq: "(h ! i)\<lparr>b_offset := 0\<rparr> = (g ! i)\<lparr>b_offset := 0\<rparr>" using assms by (simp add: same_shape_def)
  show "b_stmts (h ! i) = b_stmts (g ! i)" "b_s (h ! i) = b_s (g ! i)"
    "b_longjt (h ! i) = b_longjt (g ! i)" "b_longjf (h ! i) = b_longjf (g ! i)"
    "b_jt (h ! i) = b_jt (g ! i)" "b_jf (h ! i) = b_jf (g ! i)"
    using arg_cong [OF eq, of b_stmts] arg_cong [OF eq, of b_s] arg_cong [OF eq, of b_longjt]
      arg_cong [OF eq, of b_longjf] arg_cong [OF eq, of b_jt] arg_cong [OF eq, of b_jf] by simp_all
  then show "block_size (h ! i) = block_size (g ! i)" by (simp add: block_size_def)
qed

lemma same_shape_length: "same_shape g h \<Longrightarrow> length h = length g"
  by (simp add: same_shape_def)

lemma same_shape_offset:
  "same_shape g h \<Longrightarrow> same_shape g (h[i := (h ! i)\<lparr>b_offset := v\<rparr>])"
  by (cases "i < length h") (auto simp: same_shape_def nth_list_update)

lemma same_shape_refl: "same_shape g g"
  by (simp add: same_shape_def)

lemma emit_branch_cong:
  assumes "b_stmts b' = b_stmts b" "b_s b' = b_s b" "b_longjt b' = b_longjt b" "b_longjf b' = b_longjf b"
    "b_jt b' = b_jt b" "b_jf b' = b_jf b" "b_offset b' = b_offset b"
    and "\<And>k. b_jt b = Some k \<or> b_jf b = Some k \<Longrightarrow> b_offset (h ! k) = b_offset (g ! k)"
  shows "emit_branch h b' = emit_branch g b"
proof -
  have "b_jt b = Some k \<Longrightarrow> b_offset (h ! k) = b_offset (g ! k)"
    "b_jf b = Some k \<Longrightarrow> b_offset (h ! k) = b_offset (g ! k)" for k
    using assms(8) by auto
  then show ?thesis using assms(1-7) by (simp add: emit_branch_def Let_def split: option.split)
qed

lemma map_sum_Inr: "map_sum id f s = Inr y \<longleftrightarrow> (\<exists>x. s = Inr x \<and> y = f x)"
  by (cases s) auto

lemma emit_stmts_length: "emit_stmts ss n off xs = Inr ys \<Longrightarrow> length ys = slength xs"
  by (induction xs arbitrary: off ys) (auto simp: slength_def map_sum_Inr split: if_splits sum.splits)

lemma emit_branch_length:
  "emit_branch g b = Some (Emitted ys) \<Longrightarrow> 0 < length ys \<and> length ys \<le> 1 + unat (b_longjt b) + unat (b_longjf b)"
proof -
  have pos: "b_longjt b \<noteq> 0 \<Longrightarrow> 0 < unat (b_longjt b)" "b_longjf b \<noteq> 0 \<Longrightarrow> 0 < unat (b_longjf b)"
    by (simp_all add: unat_gt_0)
  assume "emit_branch g b = Some (Emitted ys)"
  with pos show ?thesis
    by (auto simp: emit_branch_def Let_def split: option.splits if_splits prod.splits)
qed

lemma placed_frame:
  assumes "placed g code i" and "same_shape G g" "same_shape G h" and "i < length G"
    and "b_offset (h ! i) = b_offset (g ! i)"
    and "\<And>k. b_jt (G ! i) = Some k \<or> b_jf (G ! i) = Some k \<Longrightarrow> b_offset (h ! k) = b_offset (g ! k)"
    and "length code' = length code" and "drop base code' = drop base code"
    and "base \<le> unat (b_offset (g ! i))"
  shows "placed h code' i"
proof -
  let ?o = "unat (b_offset (g ! i))"
  note sh = same_shapeD [OF assms(2,4)] same_shapeD [OF assms(3,4)]
  have "drop ?o code' = drop (?o - base) (drop base code')" using assms(9) by simp
  also have "\<dots> = drop ?o code" using assms(9) by (simp add: assms(8))
  finally have dr: "drop ?o code' = drop ?o code" .
  have br: "emit_branch h (h ! i) = emit_branch g (g ! i)"
    using assms(6) by (intro emit_branch_cong) (simp_all add: sh assms(5))
  from assms(1) show ?thesis
    unfolding placed_def sh assms(5,7) br dr
    by (elim exE conjE, intro exI conjI) (use assms(6) in \<open>auto simp: sh\<close>)
qed

lemma length_write_at: "n + length xs \<le> length ys \<Longrightarrow> length (write_at n xs ys) = length ys"
  by (simp add: write_at_def)

lemma drop_write_at: "n + length xs \<le> m \<Longrightarrow> m \<le> length ys \<Longrightarrow> drop m (write_at n xs ys) = drop m ys"
  by (simp add: write_at_def)

lemma nth_write_at: "m < n \<Longrightarrow> n \<le> length ys \<Longrightarrow> write_at n xs ys ! m = ys ! m"
  by (simp add: write_at_def nth_append)

lemma window_write_at:
  assumes "length xs \<le> m" and "n + m \<le> length ys" and "\<And>k. k < n + m \<Longrightarrow> ys ! k = z"
  shows "take m (drop n (write_at n xs ys)) = xs @ replicate (m - length xs) z"
proof -
  have "take (m - length xs) (drop (n + length xs) ys) = replicate (m - length xs) z"
    using assms by (intro nth_equalityI) auto
  then show ?thesis using assms(1,2) by (simp add: write_at_def)
qed

text \<open>Placing a block whose successors are placed behind it.\<close>

lemma place_block_cases:
  assumes sh: "same_shape G (cv_graph cv)" and i: "i < length G" and body: "body_ok (G ! i)"
    and room: "block_size (G ! i) \<le> cv_tail cv" and n: "cv_tail cv \<le> length (cv_code cv)"
    "length (cv_code cv) < 2 ^ 32" and zeros: "\<And>m. m < cv_tail cv \<Longrightarrow> cv_code cv ! m = zero_insn"
    and succs: "\<And>k. b_jt (G ! i) = Some k \<or> b_jf (G ! i) = Some k \<Longrightarrow>
      k \<noteq> i \<and> cv_tail cv \<le> unat (b_offset (cv_graph cv ! k))"
    and both: "b_jt (G ! i) \<noteq> None \<Longrightarrow> b_jf (G ! i) \<noteq> None"
  obtains (placed) cv' where "place_block i cv = Some (Converted cv')"
      "same_shape G (cv_graph cv')" "cv_marked cv' = cv_marked cv"
      "cv_tail cv' = cv_tail cv - block_size (G ! i)" "length (cv_code cv') = length (cv_code cv)"
      "drop (cv_tail cv) (cv_code cv') = drop (cv_tail cv) (cv_code cv)"
      "\<And>m. m < cv_tail cv' \<Longrightarrow> cv_code cv' ! m = cv_code cv ! m"
      "\<And>k. k \<noteq> i \<Longrightarrow> b_offset (cv_graph cv' ! k) = b_offset (cv_graph cv ! k)"
      "placed (cv_graph cv') (cv_code cv') i" "unat (b_offset (cv_graph cv' ! i)) = cv_tail cv'"
  | (retry) arm h where "place_block i cv = Some (Retry (set_long i arm h))" "same_shape G h"
      "(if arm then b_longjt (G ! i) else b_longjf (G ! i)) = 0" "b_succ (G ! i) arm \<noteq> None"
proof -
  let ?g = "cv_graph cv" and ?size = "block_size (G ! i)"
  define base where "base = cv_tail cv - ?size"
  define h where "h = ?g[i := (?g ! i)\<lparr>b_offset := of_nat base\<rparr>]"
  have shh: "same_shape G h" unfolding h_def by (rule same_shape_offset [OF sh])
  have len: "length ?g = length G" using sh by (rule same_shape_length)
  note D = same_shapeD [OF sh i] and Dh = same_shapeD [OF shh i]
  have small: "base < 2 ^ 32" using n by (simp add: base_def)
  have off: "unat (b_offset (h ! i)) = base" "k \<noteq> i \<Longrightarrow> b_offset (h ! k) = b_offset (?g ! k)" for k
    using i unat32_of_nat [OF small] by (simp_all add: h_def len)
  obtain xs where xs: "emit_stmts (b_stmts (G ! i)) (slength (b_stmts (G ! i))) 0 (b_stmts (G ! i)) = Inr xs"
    using body by (auto simp: body_ok_def)
  have pb: "place_block i cv = (case emit_branch h (h ! i) of
      None \<Rightarrow> None
    | Some (Too_long arm) \<Rightarrow> Some (Retry (set_long i arm h))
    | Some (Emitted ys) \<Rightarrow> Some (Converted (cv\<lparr>cv_graph := h, cv_tail := base,
        cv_code := write_at base (xs @ ys) (cv_code cv)\<rparr>)))"
    using room xs by (simp add: place_block_def Let_def D base_def [symmetric] h_def [symmetric]
        cong: option.case_cong emitted.case_cong)
  have "emit_branch h (h ! i) \<noteq> None"
    using both Dh by (auto simp: emit_branch_def Let_def split: option.splits if_splits prod.splits)
  then consider (emitted) ys where "emit_branch h (h ! i) = Some (Emitted ys)"
    | (too_long) arm where "emit_branch h (h ! i) = Some (Too_long arm)"
    by (metis emitted.exhaust option.exhaust)
  then show ?thesis
  proof cases
    case (emitted ys)
    let ?code = "write_at base (xs @ ys) (cv_code cv)"
    have size: "length (xs @ ys) \<le> ?size"
      using emit_stmts_length [OF xs] emit_branch_length [OF emitted] by (simp add: block_size_def Dh)
    then have le: "base + length (xs @ ys) \<le> length (cv_code cv)" "base + ?size = cv_tail cv"
      using room n by (auto simp: base_def)
    have window: "take ?size (drop base ?code) = (xs @ ys) @ replicate (?size - length (xs @ ys)) zero_insn"
      using size le(2) n zeros by (intro window_write_at) auto
    have "placed h ?code i"
      unfolding placed_def
      using xs emitted le n(1) succs off
      by - (rule exI [of _ xs], rule exI [of _ ys],
        auto simp: Dh length_write_at window [unfolded length_append])
    then show ?thesis
      using emitted pb shh le size n(1) off
      by (intro placed [of "cv\<lparr>cv_graph := h, cv_tail := base, cv_code := ?code\<rparr>"])
        (simp_all add: length_write_at drop_write_at nth_write_at base_def [symmetric])
  next
    case (too_long arm)
    then have "(if arm then b_longjt (h ! i) else b_longjf (h ! i)) = 0 \<and> b_succ (h ! i) arm \<noteq> None"
      by (auto simp: emit_branch_def Let_def b_succ_def split: option.splits if_splits prod.splits)
    with too_long pb shh show ?thesis by (intro retry) (auto simp: Dh b_succ_def)
  qed
qed

section \<open>The traversal\<close>

text \<open>
  What holds when the traversal comes to block \<open>i\<close>: the marked blocks behind it are placed in
  the filled part of the array, and the rest of the array is as it was allocated.
\<close>

definition conv_ok :: "graph \<Rightarrow> nat \<Rightarrow> conv \<Rightarrow> bool" where
  "conv_ok G i cv \<longleftrightarrow>
     same_shape G (cv_graph cv) \<and> cv_tail cv \<le> length (cv_code cv) \<and>
     length (cv_code cv) < 2 ^ 32 \<and> full_marks G i (cv_marked cv) \<and>
     (\<forall>m<cv_tail cv. cv_code cv ! m = zero_insn) \<and>
     (\<forall>j\<in>cv_marked cv \<inter> reach G i. placed (cv_graph cv) (cv_code cv) j \<and>
        cv_tail cv \<le> unat (b_offset (cv_graph cv ! j)))"

text \<open>What a part of the traversal leaves as it was.\<close>

definition conv_ext :: "graph \<Rightarrow> conv \<Rightarrow> conv \<Rightarrow> bool" where
  "conv_ext G cv cv' \<longleftrightarrow>
     same_shape G (cv_graph cv) \<and> same_shape G (cv_graph cv') \<and> cv_tail cv' \<le> cv_tail cv \<and>
     length (cv_code cv') = length (cv_code cv) \<and>
     drop (cv_tail cv) (cv_code cv') = drop (cv_tail cv) (cv_code cv) \<and>
     (\<forall>m<cv_tail cv'. cv_code cv' ! m = cv_code cv ! m) \<and>
     (\<forall>j\<in>cv_marked cv. b_offset (cv_graph cv' ! j) = b_offset (cv_graph cv ! j))"

lemma conv_ext_trans:
  assumes "conv_ext G cv0 cv1" and "conv_ext G cv1 cv2" and "cv_marked cv0 \<subseteq> cv_marked cv1"
  shows "conv_ext G cv0 cv2"
proof -
  have le: "cv_tail cv1 \<le> cv_tail cv0" using assms(1) by (simp add: conv_ext_def)
  have "drop (cv_tail cv0) (cv_code cv2) = drop (cv_tail cv0 - cv_tail cv1) (drop (cv_tail cv1) (cv_code cv2))"
    using le by simp
  also have "\<dots> = drop (cv_tail cv0) (cv_code cv1)" using assms(2) le by (simp add: conv_ext_def)
  finally show ?thesis using assms by (auto simp: conv_ext_def)
qed

lemma placed_ext:
  assumes "conv_ext G cv cv'" and "placed (cv_graph cv) (cv_code cv) j"
    and "cv_tail cv \<le> unat (b_offset (cv_graph cv ! j))" and "j < length G" and "reach G j \<subseteq> cv_marked cv"
  shows "placed (cv_graph cv') (cv_code cv') j \<and> cv_tail cv' \<le> unat (b_offset (cv_graph cv' ! j))"
proof -
  have marked: "j \<in> cv_marked cv" "b_jt (G ! j) = Some k \<Longrightarrow> k \<in> cv_marked cv"
    "b_jf (G ! j) = Some k \<Longrightarrow> k \<in> cv_marked cv" for k
    using assms(5) reach_unfold [of G j] reach_self [of k G] reach_self [of j G] by auto
  then have "placed (cv_graph cv') (cv_code cv') j"
    using assms(1)
    by (intro placed_frame [OF assms(2) _ _ assms(4) _ _ _ _ assms(3)]) (auto simp: conv_ext_def)
  with assms(1,3) marked show ?thesis by (auto simp: conv_ext_def)
qed

text \<open>The part of the array that is filled belongs to the blocks of \<open>S\<close>.\<close>

definition in_block :: "graph \<Rightarrow> nat \<Rightarrow> nat \<Rightarrow> bool" where
  "in_block g i m \<longleftrightarrow> unat (b_offset (g ! i)) \<le> m \<and> m < unat (b_offset (g ! i)) + block_size (g ! i)"

definition covers :: "nat set \<Rightarrow> nat \<Rightarrow> conv \<Rightarrow> bool" where
  "covers S n cv \<longleftrightarrow> (\<forall>m. cv_tail cv \<le> m \<and> m < n \<longrightarrow> (\<exists>j\<in>S. in_block (cv_graph cv) j m))"

lemma covers_none [simp]: "n \<le> cv_tail cv \<Longrightarrow> covers S n cv"
  by (auto simp: covers_def)

lemma covers_ext:
  assumes "conv_ext G cv cv'" and "covers S n cv" and "S \<subseteq> cv_marked cv" and "S \<subseteq> {..<length G}"
    and "covers T (cv_tail cv) cv'"
  shows "covers (S \<union> T) n cv'"
  unfolding covers_def
proof (intro allI impI)
  fix m assume m: "cv_tail cv' \<le> m \<and> m < n"
  show "\<exists>j\<in>S \<union> T. in_block (cv_graph cv') j m"
  proof (cases "m < cv_tail cv")
    case True
    with m assms(5) show ?thesis unfolding covers_def by blast
  next
    case False
    then have "cv_tail cv \<le> m \<and> m < n" using m by simp
    with assms(2) obtain j where j: "j \<in> S" "in_block (cv_graph cv) j m" unfolding covers_def by blast
    then have "j \<in> cv_marked cv" "j < length G" using assms(3,4) by auto
    with j(2) assms(1) have "in_block (cv_graph cv') j m"
      by (simp add: in_block_def conv_ext_def same_shapeD(7) [of G "cv_graph cv"] same_shapeD(7) [of G "cv_graph cv'"])
    with j(1) show ?thesis by blast
  qed
qed

definition retry_of :: "graph \<Rightarrow> nat \<Rightarrow> graph \<Rightarrow> bool" where
  "retry_of G i g' \<longleftrightarrow>
     (\<exists>j arm h. j \<in> reach G i \<and> same_shape G h \<and> g' = set_long j arm h \<and>
        (if arm then b_longjt (G ! j) else b_longjf (G ! j)) = 0 \<and> b_succ (G ! j) arm \<noteq> None)"

definition converts :: "graph \<Rightarrow> nat \<Rightarrow> conv \<Rightarrow> conv_result option \<Rightarrow> bool" where
  "converts G i cv r \<longleftrightarrow>
     (\<exists>cv'. r = Some (Converted cv') \<and> conv_ext G cv cv' \<and>
        cv_marked cv' = cv_marked cv \<union> reach G i \<and>
        cv_tail cv' + space G (reach G i - cv_marked cv) = cv_tail cv \<and>
        (i \<notin> cv_marked cv \<longrightarrow> unat (b_offset (cv_graph cv' ! i)) = cv_tail cv') \<and>
        covers (reach G i) (cv_tail cv) cv' \<and>
        (\<forall>j\<in>reach G i. placed (cv_graph cv') (cv_code cv') j \<and>
          cv_tail cv' \<le> unat (b_offset (cv_graph cv' ! j)))) \<or>
     (\<exists>g'. r = Some (Retry g') \<and> retry_of G i g')"

lemma place_step:
  assumes ext: "conv_ext G cv cv3" and n: "cv_tail cv3 \<le> length (cv_code cv3)" "length (cv_code cv3) < 2 ^ 32"
    and i: "i \<notin> cv_marked cv" "i < length G" and C: "reach G i = insert i C" "i \<notin> C"
    and marked: "cv_marked cv3 = cv_marked cv \<union> reach G i"
    and closed: "\<And>j. j \<in> C \<Longrightarrow> reach G j \<subseteq> C \<and> j < length G"
    and behind: "\<And>j. j \<in> C \<Longrightarrow> placed (cv_graph cv3) (cv_code cv3) j \<and>
      cv_tail cv3 \<le> unat (b_offset (cv_graph cv3 ! j))"
    and room: "cv_tail cv3 + space G (reach G i - cv_marked cv) = cv_tail cv + block_size (G ! i)"
      "space G (reach G i - cv_marked cv) \<le> cv_tail cv"
    and body: "body_ok (G ! i)"
    and succs: "\<And>k. b_jt (G ! i) = Some k \<or> b_jf (G ! i) = Some k \<Longrightarrow> k \<in> C"
    and both: "b_jt (G ! i) \<noteq> None \<Longrightarrow> b_jf (G ! i) \<noteq> None"
    and zeros: "\<And>m. m < cv_tail cv \<Longrightarrow> cv_code cv ! m = zero_insn"
    and cover: "covers C (cv_tail cv) cv3"
  shows "converts G i cv (place_block i cv3)"
proof -
  have sh: "same_shape G (cv_graph cv3)" using ext by (simp add: conv_ext_def)
  have fits: "block_size (G ! i) \<le> cv_tail cv3" using room by linarith
  have zeros3: "cv_code cv3 ! m = zero_insn" if "m < cv_tail cv3" for m
    using that ext zeros by (simp add: conv_ext_def)
  show ?thesis
  proof (rule place_block_cases [OF sh i(2) body fits n zeros3])
    fix k assume "b_jt (G ! i) = Some k \<or> b_jf (G ! i) = Some k"
    then show "k \<noteq> i \<and> cv_tail cv3 \<le> unat (b_offset (cv_graph cv3 ! k))"
      using succs behind C(2) by blast
  next
    assume "b_jt (G ! i) \<noteq> None"
    then show "b_jf (G ! i) \<noteq> None" by (rule both)
  next
    fix cv' assume ok: "place_block i cv3 = Some (Converted cv')"
      "same_shape G (cv_graph cv')" "cv_marked cv' = cv_marked cv3"
      "cv_tail cv' = cv_tail cv3 - block_size (G ! i)" "length (cv_code cv') = length (cv_code cv3)"
      "drop (cv_tail cv3) (cv_code cv') = drop (cv_tail cv3) (cv_code cv3)"
      "\<And>m. m < cv_tail cv' \<Longrightarrow> cv_code cv' ! m = cv_code cv3 ! m"
      "\<And>k. k \<noteq> i \<Longrightarrow> b_offset (cv_graph cv' ! k) = b_offset (cv_graph cv3 ! k)"
      "unat (b_offset (cv_graph cv' ! i)) = cv_tail cv'"
      "placed (cv_graph cv') (cv_code cv') i"
    let ?cv3 = "cv3\<lparr>cv_marked := cv_marked cv3 - {i}\<rparr>"
    have ext3: "conv_ext G ?cv3 cv'" using ok sh by (auto simp: conv_ext_def)
    have "conv_ext G cv ?cv3" using ext by (simp add: conv_ext_def)
    moreover have "cv_marked cv \<subseteq> cv_marked ?cv3" using marked i(1) by auto
    ultimately have "conv_ext G cv cv'" by (rule conv_ext_trans [OF _ ext3])
    moreover have "covers (reach G i) (cv_tail cv) cv'"
    proof -
      have "covers {i} (cv_tail ?cv3) cv'"
        using fits ok(4,9) by (auto simp: covers_def in_block_def same_shapeD(7) [OF ok(2) i(2)])
      moreover have "covers C (cv_tail cv) ?cv3" using cover by (simp add: covers_def)
      moreover have "C \<subseteq> cv_marked ?cv3" "C \<subseteq> {..<length G}" using marked C closed by auto
      ultimately have "covers (C \<union> {i}) (cv_tail cv) cv'" by (intro covers_ext [OF ext3])
      then show ?thesis using C(1) by simp
    qed
    moreover have "placed (cv_graph cv') (cv_code cv') j \<and> cv_tail cv' \<le> unat (b_offset (cv_graph cv' ! j))"
      if "j \<in> reach G i" for j
    proof (cases "j = i")
      case True
      then show ?thesis using ok by simp
    next
      case False
      then have j: "j \<in> C" using that C(1) by simp
      then have "reach G j \<subseteq> C" using closed by simp
      then have "reach G j \<subseteq> cv_marked ?cv3" using C marked by auto
      then show ?thesis
        using closed [OF j] behind [OF j] by (intro placed_ext [OF ext3]) simp_all
    qed
    moreover have "cv_tail cv' + space G (reach G i - cv_marked cv) = cv_tail cv"
      using room fits ok(4) by linarith
    ultimately show ?thesis
      using ok(1,3,9) marked unfolding converts_def by (intro disjI1 exI [of _ cv'] conjI) simp_all
  next
    fix arm h assume "place_block i cv3 = Some (Retry (set_long i arm h))" "same_shape G h"
      "(if arm then b_longjt (G ! i) else b_longjf (G ! i)) = 0" "b_succ (G ! i) arm \<noteq> None"
    then show ?thesis unfolding converts_def retry_of_def using reach_self by blast
  qed
qed

lemma converts_marked:
  assumes "conv_ok G i cv" and "i \<in> cv_marked cv"
  shows "converts G i cv (Some (Converted cv))"
proof -
  have "full_marks G i (cv_marked cv)" using assms(1) by (simp add: conv_ok_def)
  note full = full_marks_marked [OF this assms(2)]
  then have "reach G i \<subseteq> cv_marked cv" by blast
  with assms(1) full show ?thesis
    unfolding converts_def by (intro disjI1 exI [of _ cv]) (auto simp: conv_ok_def conv_ext_def)
qed

lemma convert_code_r_converts:
  assumes "closed_tree G i t" and "depth t < fuel" and "conv_ok G i cv"
    and "\<And>j. j \<in> reach G i \<Longrightarrow> body_ok (G ! j)"
    and "space G (reach G i - cv_marked cv) \<le> cv_tail cv"
  shows "converts G i cv (convert_code_r fuel (Some i) cv)"
  using assms
proof (induction t arbitrary: i fuel cv)
  case (Final ss s)
  then obtain n where n: "fuel = Suc (Suc n)" by (auto dest!: less_imp_Suc_add)
  have sh: "same_shape G (cv_graph cv)" using Final.prems(3) by (simp add: conv_ok_def)
  have i: "i < length G" "b_jt (G ! i) = None" "b_jf (G ! i) = None" using Final.prems(1) by auto
  show ?case
  proof (cases "i \<in> cv_marked cv")
    case True
    then show ?thesis using converts_marked [OF Final.prems(3)] by (simp add: n)
  next
    case False
    let ?cv3 = "cv\<lparr>cv_marked := insert i (cv_marked cv)\<rparr>"
    have reach: "reach G i = insert i {}" using i by (simp add: reach_Final)
    have "converts G i cv (place_block i ?cv3)"
      by (rule place_step [OF _ _ _ False i(1) reach])
        (use Final.prems(3-5) False i reach_self [of i G] in
          \<open>auto simp: conv_ext_def conv_ok_def space_insert insert_Diff_if reach\<close>)
    then show ?thesis
      using False i same_shapeD [OF sh i(1)] same_shape_length [OF sh] by (simp add: n and_then_def)
  qed
next
  case (Branch ss s t f)
  then obtain j k where jk: "b_jt (G ! i) = Some j" "b_jf (G ! i) = Some k" "closed_tree G j t"
    "closed_tree G k f" and i: "i < length G" by auto
  obtain n where n: "fuel = Suc n" "depth t < n" "depth f < n" using Branch.prems(2) by (cases fuel) auto
  have sh: "same_shape G (cv_graph cv)" using Branch.prems(3) by (simp add: conv_ok_def)
  have full0: "full_marks G i (cv_marked cv)" using Branch.prems(3) by (simp add: conv_ok_def)
  note acyc = closed_tree_acyclic [OF Branch.prems(1) jk(1,2)]
  note reach = reach_Branch [OF jk(1,2)]
  note full = full_marks_Branch [OF Branch.prems(1) jk(1,2) full0]
  show ?case
  proof (cases "i \<in> cv_marked cv")
    case True
    then show ?thesis using converts_marked [OF Branch.prems(3)] by (simp add: n)
  next
    case False
    let ?cv1 = "cv\<lparr>cv_marked := insert i (cv_marked cv)\<rparr>"
    note space = reach_space(2) [OF Branch.prems(1) jk(1,2) False]
    have run: "convert_code_r fuel (Some i) cv =
        and_then (convert_code_r n (Some k) ?cv1) (\<lambda>cv.
          and_then (convert_code_r n (b_jt (cv_graph cv ! i)) cv) (place_block i))"
      using False i same_shapeD [OF sh i] same_shape_length [OF sh] jk by (simp add: n(1))
    have ext1: "conv_ext G cv ?cv1" using sh by (simp add: conv_ext_def)
    have "conv_ok G k ?cv1"
      using Branch.prems(3) full(3) acyc(2) by (auto simp: conv_ok_def reach)
    then have "converts G k ?cv1 (convert_code_r n (Some k) ?cv1)"
      by (rule Branch.IH(2) [OF jk(4) n(3)]) (use Branch.prems(4,5) space in \<open>auto simp: reach\<close>)
    then consider (retry) g' where "convert_code_r n (Some k) ?cv1 = Some (Retry g')" "retry_of G k g'"
      | (ok) cv2 where "convert_code_r n (Some k) ?cv1 = Some (Converted cv2)" "conv_ext G ?cv1 cv2"
        "cv_marked cv2 = insert i (cv_marked cv) \<union> reach G k"
        "cv_tail cv2 + space G (reach G k - insert i (cv_marked cv)) = cv_tail cv"
        "\<forall>j\<in>reach G k. placed (cv_graph cv2) (cv_code cv2) j \<and>
          cv_tail cv2 \<le> unat (b_offset (cv_graph cv2 ! j))"
        "covers (reach G k) (cv_tail cv) cv2"
      unfolding converts_def by force
    then show ?thesis
    proof cases
      case retry
      then have "retry_of G i g'" unfolding retry_of_def reach by blast
      with retry show ?thesis unfolding run converts_def by (simp add: and_then_def)
    next
      case ok
      have sh2: "same_shape G (cv_graph cv2)" and len2: "length (cv_code cv2) = length (cv_code cv)"
        "cv_tail cv2 \<le> cv_tail cv" using ok(2) by (simp_all add: conv_ext_def)
      have placed2: "placed (cv_graph cv2) (cv_code cv2) m \<and> cv_tail cv2 \<le> unat (b_offset (cv_graph cv2 ! m))"
        if m: "m \<in> cv_marked cv2" "m \<in> reach G j" for m
      proof (cases "m \<in> reach G k")
        case True
        with ok(5) show ?thesis by blast
      next
        case False
        with m ok(3) acyc(1) have M: "m \<in> cv_marked cv" by auto
        have R: "m \<in> reach G i" using m reach by simp
        with M full0 have "reach G m \<subseteq> cv_marked ?cv1" by (auto simp: full_marks_def)
        moreover have "placed (cv_graph cv) (cv_code cv) m \<and> cv_tail cv \<le> unat (b_offset (cv_graph cv ! m))"
          using M R Branch.prems(3) by (auto simp: conv_ok_def)
        moreover have "m < length G" using R reach_bounds [OF Branch.prems(1)] by auto
        ultimately show ?thesis by (intro placed_ext [OF ok(2)]) simp_all
      qed
      have "conv_ok G j cv2"
        using sh2 len2 Branch.prems(3) full(4) ok(2,3) placed2 by (auto simp: conv_ok_def conv_ext_def)
      moreover have "space G (reach G j - cv_marked cv2) \<le> cv_tail cv2"
        using ok(3,4) space Branch.prems(5) by simp
      ultimately have "converts G j cv2 (convert_code_r n (Some j) cv2)"
        using Branch.IH(1) [OF jk(3) n(2)] Branch.prems(4) by (simp add: reach)
      then consider (retry) g' where "convert_code_r n (Some j) cv2 = Some (Retry g')" "retry_of G j g'"
        | (ok3) cv3 where "convert_code_r n (Some j) cv2 = Some (Converted cv3)" "conv_ext G cv2 cv3"
          "cv_marked cv3 = cv_marked cv2 \<union> reach G j"
          "cv_tail cv3 + space G (reach G j - cv_marked cv2) = cv_tail cv2"
          "\<forall>j\<in>reach G j. placed (cv_graph cv3) (cv_code cv3) j \<and>
            cv_tail cv3 \<le> unat (b_offset (cv_graph cv3 ! j))"
          "covers (reach G j) (cv_tail cv2) cv3"
        unfolding converts_def by blast
      then show ?thesis
      proof cases
        case retry
        then have "retry_of G i g'" unfolding retry_of_def reach by blast
        with retry ok(1) same_shapeD(5) [OF sh2 i] jk(1) show ?thesis
          unfolding run converts_def by (simp add: and_then_def)
      next
        case ok3
        have ext2: "conv_ext G cv cv2" by (rule conv_ext_trans [OF ext1 ok(2)]) auto
        have ext3: "conv_ext G cv cv3" by (rule conv_ext_trans [OF ext2 ok3(2)]) (use ok(3) in auto)
        have placed3: "placed (cv_graph cv3) (cv_code cv3) m \<and> cv_tail cv3 \<le> unat (b_offset (cv_graph cv3 ! m))"
          if m: "m \<in> reach G j \<union> reach G k" for m
        proof (cases "m \<in> reach G j")
          case True
          with ok3(5) show ?thesis by blast
        next
          case False
          with m have m: "m \<in> reach G k" by simp
          then have "reach G m \<subseteq> cv_marked cv2" using reach_trans [of m G k] ok(3) by blast
          moreover have "m < length G" using m reach_bounds [OF jk(4)] by auto
          ultimately show ?thesis using ok(5) m by (intro placed_ext [OF ok3(2)]) simp_all
        qed
        have "converts G i cv (place_block i cv3)"
        proof (rule place_step [OF ext3 _ _ False i reach])
          show "i \<notin> reach G j \<union> reach G k" using acyc by simp
          show "covers (reach G j \<union> reach G k) (cv_tail cv) cv3"
          proof -
            have "reach G k \<subseteq> cv_marked cv2" using ok(3) by blast
            from covers_ext [OF ok3(2) ok(6) this reach_bounds [OF jk(4)] ok3(6)]
            show ?thesis by (simp add: Un_commute)
          qed
          show "cv_code cv ! m = zero_insn" if "m < cv_tail cv" for m
            using that Branch.prems(3) by (simp add: conv_ok_def)
          show "cv_marked cv3 = cv_marked cv \<union> reach G i" using ok(3) ok3(3) reach by auto
          show "cv_tail cv3 \<le> length (cv_code cv3)" "length (cv_code cv3) < 2 ^ 32"
            using ext3 Branch.prems(3) by (auto simp: conv_ext_def conv_ok_def)
          show "cv_tail cv3 + space G (reach G i - cv_marked cv) = cv_tail cv + block_size (G ! i)"
            using ok(3,4) ok3(4) space by simp
          show "reach G m \<subseteq> reach G j \<union> reach G k \<and> m < length G" if "m \<in> reach G j \<union> reach G k" for m
            using that reach_trans [of m G] reach_bounds [OF jk(3)] reach_bounds [OF jk(4)] by blast
        qed (use placed3 Branch.prems(4,5) jk in auto)
        then show ?thesis
          using ok(1) ok3(1) same_shapeD(5) [OF sh2 i] jk(1) unfolding run by (simp add: and_then_def)
      qed
    qed
  qed
qed simp

end
