(* ===== verification/Tree_Run.thy ===== *)
theory Tree_Run
  imports Fcode_Layout Bpf_Filter
begin

unbundle bit_operations_syntax

text \<open>
  What a decision tree does to the registers of the filter machine, and that the program laid out
  for a graph does the same: \<open>icode_to_fcode\<close> preserves the meaning of the flow graph.
\<close>

section \<open>Evaluating a tree\<close>

text \<open>
  Statements and branches are executed with the instructions of the machine; its program counter
  plays no role. A leaf \<open>Exit v\<close> gives the outcome \<open>v\<close> of the condition with the registers
  reached, anything else ends the run.
\<close>

definition stmt_insn :: "stmt \<Rightarrow> bpf_insn" where
  "stmt_insn s = BPF_STMT (stmt_code s) (s_k s)"

definition exec_stmt :: "bpf_env \<Rightarrow> stmt \<Rightarrow> bpf_vm \<Rightarrow> bpf_vm + bpf_outcome" where
  "exec_stmt e s vm =
     (case decode (stmt_code s) of
        None \<Rightarrow> Inr Aborted
      | Some op \<Rightarrow> exec_op e (stmt_insn s) vm op)"

fun exec_stmts :: "bpf_env \<Rightarrow> slist list \<Rightarrow> bpf_vm \<Rightarrow> bpf_vm + bpf_outcome" where
  "exec_stmts e [] vm = Inl vm"
| "exec_stmts e (x # xs) vm =
     (if s_code (sl_stmt x) = NOP then exec_stmts e xs vm
      else case exec_stmt e (sl_stmt x) vm of
          Inr r \<Rightarrow> Inr r
        | Inl vm \<Rightarrow> exec_stmts e xs vm)"

definition branch_cond :: "stmt \<Rightarrow> bpf_vm \<Rightarrow> bool option" where
  "branch_cond s vm =
     (case decode (stmt_code s) of
        Some (Jmp c sr) \<Rightarrow> Some (jmp_cond c (reg_A vm) (operand sr (stmt_insn s) vm))
      | _ \<Rightarrow> None)"

primrec eval_tree :: "bpf_env \<Rightarrow> dtree \<Rightarrow> bpf_vm \<Rightarrow> (bool \<times> bpf_vm) + bpf_outcome" where
  "eval_tree e (Exit v) vm = Inl (v, vm)"
| "eval_tree e (Final ss s) vm =
     (case exec_stmts e ss vm of
        Inr r \<Rightarrow> Inr r
      | Inl vm \<Rightarrow> (case exec_stmt e s vm of Inr r \<Rightarrow> Inr r | Inl vm \<Rightarrow> Inr (Faulted Bad_Pc)))"
| "eval_tree e (Branch ss s t f) vm =
     (case exec_stmts e ss vm of
        Inr r \<Rightarrow> Inr r
      | Inl vm \<Rightarrow>
          (case branch_cond s vm of
             None \<Rightarrow> Inr Aborted
           | Some c \<Rightarrow> if c then eval_tree e t vm else eval_tree e f vm))"

lemma eval_tsubst:
  "eval_tree e (tsubst \<sigma> t) vm =
     (case eval_tree e t vm of Inl (v, vm) \<Rightarrow> eval_tree e (\<sigma> v) vm | Inr r \<Rightarrow> Inr r)"
  by (induction t arbitrary: vm) (auto split: sum.split option.split)

text \<open>Trees the compiler makes: no jumps among the statements, returns and jumps at the ends.\<close>

fun straight_op :: "opcode \<Rightarrow> bool" where
  "straight_op Ret_K = False"
| "straight_op Ret_A = False"
| "straight_op Ja = False"
| "straight_op (Jmp c sr) = False"
| "straight_op op = True"

text \<open>The validator's conditions on the operand of a statement that does not jump.\<close>

fun operand_ok :: "opcode \<Rightarrow> u32 \<Rightarrow> bool" where
  "operand_ok Ld_Mem k = (k < of_nat BPF_MEMWORDS)"
| "operand_ok Ldx_Mem k = (k < of_nat BPF_MEMWORDS)"
| "operand_ok St k = (k < of_nat BPF_MEMWORDS)"
| "operand_ok Stx k = (k < of_nat BPF_MEMWORDS)"
| "operand_ok (Alu Div SrcK) k = (k \<noteq> 0)"
| "operand_ok (Alu Mod SrcK) k = (k \<noteq> 0)"
| "operand_ok op k = True"

definition straight :: "slist list \<Rightarrow> bool" where
  "straight ss \<longleftrightarrow> list_all (\<lambda>x. s_code (sl_stmt x) = NOP \<or>
     (case decode (stmt_code (sl_stmt x)) of
        None \<Rightarrow> False
      | Some op \<Rightarrow> straight_op op \<and> operand_ok op (s_k (sl_stmt x)))) ss"

fun is_jmp :: "opcode option \<Rightarrow> bool" where
  "is_jmp (Some (Jmp c sr)) = True"
| "is_jmp op = False"

lemma is_jmp_iff: "is_jmp op \<longleftrightarrow> (\<exists>c sr. op = Some (Jmp c sr))"
  by (cases op rule: is_jmp.cases) auto

primrec tree_ok :: "dtree \<Rightarrow> bool" where
  "tree_ok (Exit v) = True"
| "tree_ok (Final ss s) = (straight ss \<and> decode (stmt_code s) \<in> {Some Ret_K, Some Ret_A})"
| "tree_ok (Branch ss s t f) = (straight ss \<and> is_jmp (decode (stmt_code s)) \<and> tree_ok t \<and> tree_ok f)"

lemma straight_simps [simp]:
  "straight []"
  "straight (x # xs) \<longleftrightarrow> (s_code (sl_stmt x) = NOP \<or>
     (case decode (stmt_code (sl_stmt x)) of
        None \<Rightarrow> False
      | Some op \<Rightarrow> straight_op op \<and> operand_ok op (s_k (sl_stmt x)))) \<and> straight xs"
  "straight (xs @ ys) \<longleftrightarrow> straight xs \<and> straight ys"
  by (simp_all add: straight_def)

lemma tree_ok_tsubst: "tree_ok t \<Longrightarrow> (\<And>v. tree_ok (\<sigma> v)) \<Longrightarrow> tree_ok (tsubst \<sigma> t)"
  by (induction t) auto

section \<open>Straight code\<close>

lemma straight_class:
  assumes "straight_op op"
  shows "label op AND 0x07 \<noteq> BPF_JMP"
proof (cases op)
  case (Ld_Abs sz)
  then show ?thesis by (cases sz) simp_all
next
  case (Ld_Ind sz)
  then show ?thesis by (cases sz) simp_all
next
  case (Alu a sr)
  then show ?thesis by (cases a; cases sr) simp_all
qed (use assms in simp_all)

lemma straight_stmt_class:
  assumes "decode (stmt_code s) = Some op" and "straight_op op"
  shows "s_code s AND 0x07 \<noteq> ucast BPF_JMP"
proof
  assume "s_code s AND 0x07 = ucast BPF_JMP"
  then have "ucast (s_code s AND 0x07) = (BPF_JMP :: u16)" by simp
  then have "stmt_code s AND 0x07 = BPF_JMP" by (simp add: stmt_code_def unsigned_and_eq)
  with assms(1) straight_class [OF assms(2)] show False by (simp add: decode_Some_iff)
qed

lemma emit_straight:
  "straight xs \<Longrightarrow> emit_stmts ss n off xs =
     Inr (map (\<lambda>x. stmt_insn (sl_stmt x)) (filter (\<lambda>x. s_code (sl_stmt x) \<noteq> NOP) xs))"
  by (induction xs arbitrary: off)
    (auto simp: emit_stmt_def stmt_insn_def Let_def dest: straight_stmt_class split: option.splits)

lemma straight_body_ok: "straight (b_stmts b) \<Longrightarrow> body_ok b"
  by (simp add: body_ok_def emit_straight)

lemma exec_op_pc:
  "straight_op op \<Longrightarrow> exec_op e i (vm\<lparr>pc := p\<rparr>) op = map_sum (\<lambda>v. v\<lparr>pc := p + 1\<rparr>) id (exec_op e i vm op)"
proof (cases op)
  case (Alu a sr)
  have "operand sr i (vm\<lparr>pc := p\<rparr>) = operand sr i vm" by (cases sr) simp_all
  with Alu show ?thesis by (auto simp: set_reg_defs split: sum.split)
qed (auto simp: set_reg_defs split: sum.split)

lemma run_straight:
  assumes "straight xs" and "code = map (\<lambda>x. stmt_insn (sl_stmt x)) (filter (\<lambda>x. s_code (sl_stmt x) \<noteq> NOP) xs)"
    and "take (length code) (drop base f) = code"
  shows "run_machine (bpf_step f e) (vm\<lparr>pc := int base\<rparr>) =
    (case exec_stmts e xs vm of
       Inr r \<Rightarrow> Some r
     | Inl vm' \<Rightarrow> run_machine (bpf_step f e) (vm'\<lparr>pc := int (base + length code)\<rparr>))"
  using assms
proof (induction xs arbitrary: base code vm)
  case Nil
  then show ?case by simp
next
  case (Cons x xs)
  show ?case
  proof (cases "s_code (sl_stmt x) = NOP")
    case True
    then have "code = map (\<lambda>x. stmt_insn (sl_stmt x)) (filter (\<lambda>x. s_code (sl_stmt x) \<noteq> NOP) xs)"
      using Cons.prems(2) by simp
    from Cons.IH [OF _ this Cons.prems(3)] True Cons.prems(1) show ?thesis by simp
  next
    case False
    let ?i = "stmt_insn (sl_stmt x)"
    let ?code = "map (\<lambda>x. stmt_insn (sl_stmt x)) (filter (\<lambda>x. s_code (sl_stmt x) \<noteq> NOP) xs)"
    from False Cons.prems(1) obtain op where op: "decode (stmt_code (sl_stmt x)) = Some op" "straight_op op"
      by (auto split: option.splits)
    have code: "code = ?i # ?code" using False Cons.prems(2) by simp
    with Cons.prems(3) obtain r where r: "drop base f = ?i # r" "take (length ?code) r = ?code"
      by (cases "drop base f") auto
    then have at: "base < length f" "f ! base = ?i"
      by (metis drop_eq_Nil leI list.discI) (rule nth_via_drop [OF r(1)])
    have "drop (Suc base) f = r" using r(1) by (simp add: drop_Suc flip: tl_drop)
    with r(2) have rest: "take (length ?code) (drop (Suc base) f) = ?code" by simp
    have step: "bpf_step f e (vm\<lparr>pc := int base\<rparr>) =
        map_sum (\<lambda>v. v\<lparr>pc := int (Suc base)\<rparr>) id (exec_stmt e (sl_stmt x) vm)"
      using at op exec_op_pc [OF op(2), of e ?i "int base" vm]
      by (simp add: bpf_step_def exec_stmt_def stmt_insn_def BPF_STMT_def add.commute)
    show ?thesis
    proof (cases "exec_stmt e (sl_stmt x) vm")
      case (Inr r)
      with step False show ?thesis by (simp add: run_machine_Inr)
    next
      case (Inl vm')
      with step have "run_machine (bpf_step f e) (vm\<lparr>pc := int base\<rparr>) =
          run_machine (bpf_step f e) (vm'\<lparr>pc := int (Suc base)\<rparr>)"
        by (intro run_machine_Inl) simp
      also have "\<dots> = (case exec_stmts e xs vm' of
           Inr r \<Rightarrow> Some r
         | Inl vm' \<Rightarrow> run_machine (bpf_step f e) (vm'\<lparr>pc := int (Suc base + length ?code)\<rparr>))"
        using Cons.prems(1) by (intro Cons.IH [OF _ refl rest]) simp
      finally show ?thesis using False Inl code by (simp split: sum.split)
    qed
  qed
qed

section \<open>Branches\<close>

lemma run_long_jump:
  assumes "base < length f" and "f ! base = long_jump k" and "unat k < 2 ^ 31"
  shows "run_machine (bpf_step f e) (vm\<lparr>pc := int base\<rparr>) =
    run_machine (bpf_step f e) (vm\<lparr>pc := int (Suc base + unat k)\<rparr>)"
proof -
  have "int (unat k) < 2 ^ 31" using assms(3) by (simp only: int_less_2_31)
  then have "sint k = int (unat k)" by (simp add: sint32_cases)
  moreover have "decode (BPF_JMP OR BPF_JA) = Some Ja" using decode_label [of Ja] by simp
  ultimately show ?thesis
    using assms(1,2)
    by (intro run_machine_Inl)
      (simp add: bpf_step_def long_jump_def BPF_STMT_def continue_at_def add.commute)
qed

text \<open>
  The branch of a placed block goes to the offset of the successor its condition selects,
  directly or over a long jump.
\<close>

definition branch_distance :: "graph \<Rightarrow> block \<Rightarrow> nat \<Rightarrow> u32" where
  "branch_distance g b k = b_offset (g ! k) - (b_offset b + of_nat (slength (b_stmts b))) - 1"

lemma branch_distance_nat:
  assumes "unat (b_offset b) + block_size b \<le> unat (b_offset (g ! k))"
    and "unat (b_offset (g ! k)) < 2 ^ 31"
  shows "unat (b_offset b) + slength (b_stmts b) + 1 + unat (branch_distance g b k) = unat (b_offset (g ! k))"
    and "unat (branch_distance g b k) < 2 ^ 31"
proof -
  let ?o = "unat (b_offset b)" and ?n = "slength (b_stmts b)" and ?t = "unat (b_offset (g ! k))"
  have le: "?o + ?n + 1 \<le> ?t" using assms(1) by (simp add: block_size_def)
  have "branch_distance g b k = of_nat ?t - (of_nat ?o + of_nat ?n) - 1" by (simp add: branch_distance_def)
  also have "\<dots> = of_nat (?t - (?o + ?n + 1))"
    by (simp only: of_nat_diff [OF le] of_nat_add of_nat_1) (simp add: algebra_simps)
  finally have eq: "branch_distance g b k = of_nat (?t - (?o + ?n + 1))" .
  then have "unat (branch_distance g b k) = ?t - (?o + ?n + 1)"
    unfolding eq using assms(2) by (intro unat32_of_nat le_less_trans [OF diff_le_self]) simp
  with le assms(2) show "?o + ?n + 1 + unat (branch_distance g b k) = ?t"
    "unat (branch_distance g b k) < 2 ^ 31" by linarith+
qed

lemma emit_branch_jumps:
  assumes "emit_branch g b = Some (Emitted ys)" and "b_jt b = Some t" and "b_jf b = Some f"
  obtains jt jf where "ys ! 0 = BPF_JUMP (stmt_code (b_s b)) (s_k (b_s b)) jt jf" and "0 < length ys"
    and "(branch_distance g b t < 256 \<and> jt = ucast (branch_distance g b t)) \<or>
      (jt = 0 \<and> 1 < length ys \<and> 256 \<le> branch_distance g b t \<and> ys ! 1 = long_jump (branch_distance g b t - 1))"
    and "(branch_distance g b f < 256 \<and> jf = ucast (branch_distance g b f)) \<or>
      (\<exists>n. jf = of_nat n \<and> n \<le> 1 \<and> Suc n < length ys \<and> 256 \<le> branch_distance g b f \<and>
        ys ! Suc n = long_jump (branch_distance g b f - of_nat (Suc n)))"
proof -
  let ?dt = "branch_distance g b t" and ?df = "branch_distance g b f"
  define extra where "extra = (if ?dt \<ge> 256 then [long_jump (?dt - 1)] else [])"
  define n where "n = length extra"
  have ys: "ys = BPF_JUMP (stmt_code (b_s b)) (s_k (b_s b)) (if ?dt \<ge> 256 then 0 else ucast ?dt)
      (if ?df \<ge> 256 then of_nat n else ucast ?df) #
    extra @ (if ?df \<ge> 256 then [long_jump (?df - of_nat (Suc n))] else [])"
    using assms
    by (auto simp: emit_branch_def branch_distance_def [symmetric] Let_def BPF_STMT_def BPF_JUMP_def
        extra_def n_def split: if_splits)
  show ?thesis
  proof (rule that)
    show "ys ! 0 = BPF_JUMP (stmt_code (b_s b)) (s_k (b_s b)) (if ?dt \<ge> 256 then 0 else ucast ?dt)
      (if ?df \<ge> 256 then of_nat n else ucast ?df)" "0 < length ys" by (simp_all add: ys)
    show "(?dt < 256 \<and> (if ?dt \<ge> 256 then 0 else ucast ?dt) = (ucast ?dt :: u8)) \<or>
      ((if ?dt \<ge> 256 then 0 else ucast ?dt) = (0 :: u8) \<and> 1 < length ys \<and> 256 \<le> ?dt \<and>
       ys ! 1 = long_jump (?dt - 1))"
      by (cases "?dt \<ge> 256") (simp_all add: ys extra_def)
    show "(?df < 256 \<and> (if ?df \<ge> 256 then of_nat n else ucast ?df) = (ucast ?df :: u8)) \<or>
      (\<exists>m. (if ?df \<ge> 256 then of_nat n else ucast ?df) = (of_nat m :: u8) \<and> m \<le> 1 \<and> Suc m < length ys \<and>
        256 \<le> ?df \<and> ys ! Suc m = long_jump (?df - of_nat (Suc m)))"
    proof (cases "?df \<ge> 256")
      case True
      then have "Suc n < length ys \<and> ys ! Suc n = long_jump (?df - of_nat (Suc n))"
        by (simp add: ys n_def nth_append)
      moreover have "n \<le> 1" by (simp add: n_def extra_def)
      ultimately show ?thesis using True by (intro disjI2 exI [of _ n]) simp
    qed simp
  qed
qed

lemma nth_take_drop: "take (length xs) (drop n f) = xs \<Longrightarrow> m < length xs \<Longrightarrow> n + m < length f \<and> f ! (n + m) = xs ! m"
proof -
  assume eq: "take (length xs) (drop n f) = xs" and m: "m < length xs"
  have "length (take (length xs) (drop n f)) = length xs" by (simp only: eq)
  with m have le: "n + m < length f" by (simp add: min_def split: if_splits)
  have "take (length xs) (drop n f) ! m = f ! (n + m)" using m le by simp
  with le eq show ?thesis by simp
qed

lemma run_branch:
  assumes br: "emit_branch g b = Some (Emitted ys)" and jt: "b_jt b = Some t" and jf: "b_jf b = Some f"
    and at: "take (length ys) (drop base code) = ys" and base: "base = unat (b_offset b) + slength (b_stmts b)"
    and behind: "\<And>k. k = t \<or> k = f \<Longrightarrow> unat (b_offset b) + block_size b \<le> unat (b_offset (g ! k)) \<and>
      unat (b_offset (g ! k)) < 2 ^ 31"
    and cond: "branch_cond (b_s b) vm = Some c"
  shows "run_machine (bpf_step code e) (vm\<lparr>pc := int base\<rparr>) =
    run_machine (bpf_step code e) (vm\<lparr>pc := int (unat (b_offset (g ! (if c then t else f))))\<rparr>)"
proof -
  obtain j1 j0 where ys: "ys ! 0 = BPF_JUMP (stmt_code (b_s b)) (s_k (b_s b)) j1 j0" "0 < length ys"
    and j1: "(branch_distance g b t < 256 \<and> j1 = ucast (branch_distance g b t)) \<or>
      (j1 = 0 \<and> 1 < length ys \<and> 256 \<le> branch_distance g b t \<and> ys ! 1 = long_jump (branch_distance g b t - 1))"
    and j0: "(branch_distance g b f < 256 \<and> j0 = ucast (branch_distance g b f)) \<or>
      (\<exists>n. j0 = of_nat n \<and> n \<le> 1 \<and> Suc n < length ys \<and> 256 \<le> branch_distance g b f \<and>
        ys ! Suc n = long_jump (branch_distance g b f - of_nat (Suc n)))"
    by (rule emit_branch_jumps [OF br jt jf])
  let ?k = "if c then t else f" and ?j = "if c then j1 else j0"
  let ?d = "branch_distance g b ?k"
  have d: "Suc base + unat ?d = unat (b_offset (g ! ?k))" "unat ?d < 2 ^ 31"
    using branch_distance_nat [of b g ?k] behind [of ?k] base by auto
  obtain cm sr where op: "decode (stmt_code (b_s b)) = Some (Jmp cm sr)"
    and c: "c = jmp_cond cm (reg_A vm) (operand sr (stmt_insn (b_s b)) vm)"
    using cond by (auto simp: branch_cond_def split: option.splits opcode.splits)
  have first: "base < length code" "code ! base = BPF_JUMP (stmt_code (b_s b)) (s_k (b_s b)) j1 j0"
    using nth_take_drop [OF at ys(2)] ys(1) by simp_all
  have "operand sr (BPF_JUMP (stmt_code (b_s b)) (s_k (b_s b)) j1 j0) (vm\<lparr>pc := int base\<rparr>) =
      operand sr (stmt_insn (b_s b)) vm"
    by (cases sr) (simp_all add: BPF_JUMP_def stmt_insn_def BPF_STMT_def)
  then have step: "run_machine (bpf_step code e) (vm\<lparr>pc := int base\<rparr>) =
      run_machine (bpf_step code e) (vm\<lparr>pc := int (Suc base + unat ?j)\<rparr>)"
    using first op c
    by (intro run_machine_Inl) (simp add: bpf_step_def BPF_JUMP_def continue_at_def add.commute)
  have "(?d < 256 \<and> ?j = ucast ?d) \<or>
      (\<exists>n. ?j = of_nat n \<and> n \<le> 1 \<and> Suc n < length ys \<and> 256 \<le> ?d \<and>
        ys ! Suc n = long_jump (?d - of_nat (Suc n)))"
    using j1 j0 by (cases c) (auto intro: exI [of _ 0])
  then show ?thesis
  proof (elim disjE exE conjE)
    assume "?d < 256" and j: "?j = ucast ?d"
    then have "unat ?d < 256" by (simp add: word_less_nat_alt)
    then have "unat ?j = unat ?d" unfolding j by (simp add: unsigned_ucast_eq take_bit_nat_eq_self)
    with step d(1) show ?thesis by (simp only:)
  next
    fix n assume n: "?j = of_nat n" "n \<le> 1" "Suc n < length ys" "256 \<le> ?d"
      and lj: "ys ! Suc n = long_jump (?d - of_nat (Suc n))"
    have j: "unat ?j = n" unfolding n(1) using n(2) by (auto simp: unat_of_nat)
    have "of_nat (Suc n) \<le> ?d" and "unat (of_nat (Suc n) :: u32) = Suc n"
      using n(2,4) by (auto simp: le_Suc_eq word_le_nat_alt unat_of_nat)
    then have k: "Suc n + unat (?d - of_nat (Suc n)) = unat ?d"
      by (simp add: unat_sub word_le_nat_alt)
    have "run_machine (bpf_step code e) (vm\<lparr>pc := int (Suc base + unat ?j)\<rparr>) =
        run_machine (bpf_step code e) (vm\<lparr>pc := int (Suc (base + Suc n) + unat (?d - of_nat (Suc n)))\<rparr>)"
      using run_long_jump [of "base + Suc n" code "?d - of_nat (Suc n)" e vm] nth_take_drop [OF at n(3)] lj j k d(2)
      by simp
    also have "Suc (base + Suc n) + unat (?d - of_nat (Suc n)) = unat (b_offset (g ! ?k))"
      using k d(1) by simp
    finally show ?thesis using step by (simp only:)
  qed
qed

section \<open>The program runs the tree\<close>

lemma run_ret:
  assumes "base < length code" and "code ! base = stmt_insn s" and "decode (stmt_code s) \<in> {Some Ret_K, Some Ret_A}"
  shows "\<exists>r. exec_stmt e s vm = Inr r \<and> run_machine (bpf_step code e) (vm\<lparr>pc := int base\<rparr>) = Some r"
  using assms by (auto simp: exec_stmt_def bpf_step_def stmt_insn_def BPF_STMT_def intro!: run_machine_Inr)

lemma placed_body:
  assumes "placed g code i" and st: "straight (b_stmts (g ! i))"
  obtains ys where "emit_branch g (g ! i) = Some (Emitted ys)"
    and "take (length ys) (drop (unat (b_offset (g ! i)) + slength (b_stmts (g ! i))) code) = ys"
    and "\<And>m. b_jt (g ! i) = Some m \<or> b_jf (g ! i) = Some m \<Longrightarrow>
      unat (b_offset (g ! i)) + block_size (g ! i) \<le> unat (b_offset (g ! m))"
    and "\<And>e vm. run_machine (bpf_step code e) (vm\<lparr>pc := int (unat (b_offset (g ! i)))\<rparr>) =
     (case exec_stmts e (b_stmts (g ! i)) vm of
        Inr r \<Rightarrow> Some r
      | Inl vm' \<Rightarrow> run_machine (bpf_step code e)
          (vm'\<lparr>pc := int (unat (b_offset (g ! i)) + slength (b_stmts (g ! i)))\<rparr>))"
proof -
  let ?o = "unat (b_offset (g ! i))"
  obtain xs ys where xs: "emit_stmts (b_stmts (g ! i)) (slength (b_stmts (g ! i))) 0 (b_stmts (g ! i)) = Inr xs"
    and ys: "emit_branch g (g ! i) = Some (Emitted ys)"
    and window: "take (block_size (g ! i)) (drop ?o code) =
      (xs @ ys) @ replicate (block_size (g ! i) - length (xs @ ys)) zero_insn"
    and behind: "\<And>m. b_jt (g ! i) = Some m \<or> b_jf (g ! i) = Some m \<Longrightarrow>
      ?o + block_size (g ! i) \<le> unat (b_offset (g ! m))"
    using assms(1) by (auto simp: placed_def)
  have "length (xs @ ys) \<le> block_size (g ! i)"
    using emit_stmts_length [OF xs] emit_branch_length [OF ys] by (simp add: block_size_def)
  then have at: "take (length (xs @ ys)) (drop ?o code) = xs @ ys"
    using arg_cong [OF window, of "take (length (xs @ ys))"] by (simp add: min_absorb1)
  have xs_eq: "xs = map (\<lambda>x. stmt_insn (sl_stmt x)) (filter (\<lambda>x. s_code (sl_stmt x) \<noteq> NOP) (b_stmts (g ! i)))"
    using xs by (simp add: emit_straight [OF st])
  have body: "take (length xs) (drop ?o code) = xs"
    using arg_cong [OF at, of "take (length xs)"] by simp
  have "take (length ys) (drop (?o + length xs) code) = ys"
    using arg_cong [OF at, of "drop (length xs)"] by (simp add: drop_take add.commute)
  then show ?thesis
    using that [OF ys _ behind run_straight [OF st xs_eq body, unfolded emit_stmts_length [OF xs]]]
      emit_stmts_length [OF xs] by simp
qed

lemma placed_offset: "placed g code i \<Longrightarrow> unat (b_offset (g ! i)) \<le> length code"
  by (elim placed_def [THEN iffD1, elim_format] exE conjE) linarith

lemma run_placed:
  assumes "closed_tree g i t" and "tree_ok t" and "length code < 2 ^ 31"
    and "\<And>j. j \<in> reach g i \<Longrightarrow> placed g code j"
  shows "\<exists>r. eval_tree e t vm = Inr r \<and>
    run_machine (bpf_step code e) (vm\<lparr>pc := int (unat (b_offset (g ! i)))\<rparr>) = Some r"
  using assms(1,2,4)
proof (induction t arbitrary: i vm)
  case (Final ss s)
  let ?base = "unat (b_offset (g ! i)) + slength (b_stmts (g ! i))"
  have i: "b_jt (g ! i) = None" "ss = b_stmts (g ! i)" "s = b_s (g ! i)" using Final.prems(1) by auto
  have "placed g code i" "straight (b_stmts (g ! i))" using Final.prems(2,3) i(2) by simp_all
  then obtain ys where ys: "emit_branch g (g ! i) = Some (Emitted ys)"
    and at: "take (length ys) (drop ?base code) = ys"
    and run: "run_machine (bpf_step code e) (vm\<lparr>pc := int (unat (b_offset (g ! i)))\<rparr>) =
       (case exec_stmts e (b_stmts (g ! i)) vm of Inr r \<Rightarrow> Some r
        | Inl vm' \<Rightarrow> run_machine (bpf_step code e) (vm'\<lparr>pc := int ?base\<rparr>))"
    by (rule placed_body) blast
  have "ys = [stmt_insn s]" using ys i by (simp add: emit_branch_def stmt_insn_def Let_def)
  then have last: "?base < length code" "code ! ?base = stmt_insn s" using nth_take_drop [OF at, of 0] by simp_all
  show ?case
  proof (cases "exec_stmts e ss vm")
    case (Inr r)
    with run i(2) show ?thesis by simp
  next
    case (Inl vm')
    obtain r where "exec_stmt e s vm' = Inr r" "run_machine (bpf_step code e) (vm'\<lparr>pc := int ?base\<rparr>) = Some r"
      using run_ret [OF last, of e vm'] Final.prems(2) by auto
    with run i(2) Inl show ?thesis by simp
  qed
next
  case (Branch ss s t f)
  let ?o = "unat (b_offset (g ! i))"
  let ?base = "?o + slength (b_stmts (g ! i))"
  obtain j k where jk: "b_jt (g ! i) = Some j" "b_jf (g ! i) = Some k" "closed_tree g j t"
    "closed_tree g k f" and i: "ss = b_stmts (g ! i)" "s = b_s (g ! i)" using Branch.prems(1) by auto
  have reach: "reach g i = insert i (reach g j \<union> reach g k)" by (rule reach_Branch [OF jk(1,2)])
  have "placed g code i" "straight (b_stmts (g ! i))" using Branch.prems(2,3) i(1) by simp_all
  then obtain ys where ys: "emit_branch g (g ! i) = Some (Emitted ys)"
    and at: "take (length ys) (drop ?base code) = ys"
    and behind: "\<And>m. b_jt (g ! i) = Some m \<or> b_jf (g ! i) = Some m \<Longrightarrow>
      ?o + block_size (g ! i) \<le> unat (b_offset (g ! m))"
    and run: "run_machine (bpf_step code e) (vm\<lparr>pc := int ?o\<rparr>) =
       (case exec_stmts e (b_stmts (g ! i)) vm of Inr r \<Rightarrow> Some r
        | Inl vm' \<Rightarrow> run_machine (bpf_step code e) (vm'\<lparr>pc := int ?base\<rparr>))"
    by (rule placed_body) blast
  have in_code: "unat (b_offset (g ! m)) < 2 ^ 31" if "m = j \<or> m = k" for m
  proof -
    have "m \<in> reach g i" unfolding reach using that reach_self by blast
    from placed_offset [OF Branch.prems(3) [OF this]] assms(3) show ?thesis by (rule le_less_trans)
  qed
  show ?case
  proof (cases "exec_stmts e ss vm")
    case (Inr r)
    with run i(1) show ?thesis by simp
  next
    case (Inl vm')
    obtain c where c: "branch_cond s vm' = Some c"
      using Branch.prems(2) by (auto simp: branch_cond_def is_jmp_iff)
    have "run_machine (bpf_step code e) (vm\<lparr>pc := int ?o\<rparr>) =
        run_machine (bpf_step code e) (vm'\<lparr>pc := int (unat (b_offset (g ! (if c then j else k))))\<rparr>)"
    proof -
      have both: "?o + block_size (g ! i) \<le> unat (b_offset (g ! m)) \<and> unat (b_offset (g ! m)) < 2 ^ 31"
        if "m = j \<or> m = k" for m
        using behind [of m] in_code [OF that] jk(1,2) that by auto
      have "run_machine (bpf_step code e) (vm\<lparr>pc := int ?o\<rparr>) =
          run_machine (bpf_step code e) (vm'\<lparr>pc := int ?base\<rparr>)"
        using run Inl i(1) by simp
      also note run_branch [OF ys jk(1,2) at refl both c [unfolded i(2)]]
      finally show ?thesis .
    qed
    moreover have "\<exists>r. eval_tree e (if c then t else f) vm' = Inr r \<and>
        run_machine (bpf_step code e) (vm'\<lparr>pc := int (unat (b_offset (g ! (if c then j else k))))\<rparr>) = Some r"
      using Branch.IH(1) [OF jk(3)] Branch.IH(2) [OF jk(4)] Branch.prems(2,3) reach by (cases c) auto
    ultimately show ?thesis using Inl c by (cases c) auto
  qed
qed simp

section \<open>The loop of retries\<close>

text \<open>
  A graph whose blocks have the statements and successors of another and at most one long jump
  per branch; what a retry keeps.
\<close>

definition same_blocks :: "graph \<Rightarrow> graph \<Rightarrow> bool" where
  "same_blocks g h \<longleftrightarrow> length h = length g \<and>
     (\<forall>i<length g. b_stmts (h ! i) = b_stmts (g ! i) \<and> b_s (h ! i) = b_s (g ! i) \<and>
       b_jt (h ! i) = b_jt (g ! i) \<and> b_jf (h ! i) = b_jf (g ! i))"

definition b_long :: "block \<Rightarrow> bool \<Rightarrow> u32" where
  "b_long b arm = (if arm then b_longjt b else b_longjf b)"

text \<open>Long jumps are only made once, and only for branches that are there; none before the layout.\<close>

definition long_ok :: "graph \<Rightarrow> bool" where
  "long_ok g \<longleftrightarrow> (\<forall>i<length g. \<forall>arm. b_long (g ! i) arm \<le> 1 \<and>
     (b_succ (g ! i) arm = None \<longrightarrow> b_long (g ! i) arm = 0))"

definition short_ok :: "graph \<Rightarrow> bool" where
  "short_ok g \<longleftrightarrow> (\<forall>i<length g. \<forall>arm. b_long (g ! i) arm = 0)"

definition short_arms :: "graph \<Rightarrow> (nat \<times> bool) set" where
  "short_arms g = {(i, arm). i < length g \<and> b_long (g ! i) arm = 0}"

definition max_space :: "graph \<Rightarrow> nat set \<Rightarrow> nat" where
  "max_space g S = (\<Sum>i\<in>S. slength (b_stmts (g ! i)) + 3)"

lemma same_blocks_tree: "same_blocks g h \<Longrightarrow> closed_tree g i t \<Longrightarrow> closed_tree h i t"
  by (induction t arbitrary: i) (auto simp: same_blocks_def)

lemma same_blocks_reach: "same_blocks g h \<Longrightarrow> closed_tree g i t \<Longrightarrow> reach h i = reach g i"
proof (induction t arbitrary: i)
  case (Final ss s)
  then show ?case by (auto simp: reach_Final same_blocks_def)
next
  case (Branch ss s t f)
  then obtain j k where jk: "b_jt (g ! i) = Some j" "b_jf (g ! i) = Some k" "closed_tree g j t"
    "closed_tree g k f" "i < length g" by auto
  with Branch.prems(1) have "b_jt (h ! i) = Some j" "b_jf (h ! i) = Some k" by (auto simp: same_blocks_def)
  with Branch.IH jk Branch.prems(1) show ?case by (simp add: reach_Branch)
qed simp

lemma finite_short_arms: "finite (short_arms g)"
  by (rule finite_subset [of _ "{..<length g} \<times> UNIV"]) (auto simp: short_arms_def)

lemma space_le_max: "long_ok g \<Longrightarrow> S \<subseteq> {..<length g} \<Longrightarrow> space g S \<le> max_space g S"
proof -
  assume ok: "long_ok g" and S: "S \<subseteq> {..<length g}"
  have "unat (b_longjt (g ! i)) \<le> 1 \<and> unat (b_longjf (g ! i)) \<le> 1" if "i \<in> S" for i
  proof -
    have "\<forall>arm. b_long (g ! i) arm \<le> 1" using ok S that by (auto simp: long_ok_def)
    from this [rule_format, of True] this [rule_format, of False] show ?thesis
      by (simp add: b_long_def word_le_nat_alt)
  qed
  then show ?thesis unfolding space_def max_space_def
    by (intro sum_mono) (fastforce simp: block_size_def)
qed

lemma retry_measure:
  assumes "retry_of g i g'" and "long_ok g" and "closed_tree g i t"
  shows "same_blocks g g'" and "long_ok g'" and "card (short_arms g') < card (short_arms g)"
proof -
  obtain j arm h where r: "j \<in> reach g i" "same_shape g h" "g' = set_long j arm h" "b_long (g ! j) arm = 0"
    "b_succ (g ! j) arm \<noteq> None"
    using assms(1) by (auto simp: retry_of_def b_long_def)
  have j: "j < length g" using r(1) reach_bounds [OF assms(3)] by auto
  note sh = same_shape_length [OF r(2)] and D = same_shapeD [OF r(2)]
  have nth: "g' ! k = (if k = j then (if arm then (h ! j)\<lparr>b_longjt := b_longjt (h ! j) + 1\<rparr>
      else (h ! j)\<lparr>b_longjf := b_longjf (h ! j) + 1\<rparr>) else h ! k)" if "k < length g" for k
    using that sh by (simp add: r(3) set_long_def)
  have len: "length g' = length g" using sh by (simp add: r(3) set_long_def)
  have long: "b_long (g' ! k) a = (if k = j \<and> a = arm then 1 else b_long (g ! k) a)" if "k < length g" for k a
    using that r(4) D [OF that] D [OF j] by (cases arm; cases a) (auto simp: nth b_long_def)
  show "same_blocks g g'" using D len by (auto simp: same_blocks_def nth)
  have "b_succ (g' ! k) a = b_succ (g ! k) a" if "k < length g" for k a
    using that D [OF that] D [OF j] by (auto simp: nth b_succ_def)
  then show "long_ok g'" using assms(2) long len r(5) by (auto simp: long_ok_def)
  have "short_arms g' = short_arms g - {(j, arm)}" using long len by (auto simp: short_arms_def split: if_splits)
  moreover have "(j, arm) \<in> short_arms g" using j r(4) by (simp add: short_arms_def)
  ultimately show "card (short_arms g') < card (short_arms g)"
    using finite_short_arms by (metis card_Diff1_less)
qed

lemma tree_ok_bodies: "closed_tree g i t \<Longrightarrow> tree_ok t \<Longrightarrow> j \<in> reach g i \<Longrightarrow> body_ok (g ! j)"
proof (induction t arbitrary: i)
  case (Final ss s)
  then show ?case by (auto simp: reach_Final straight_body_ok)
next
  case (Branch ss s t f)
  then obtain a b where ab: "b_jt (g ! i) = Some a" "b_jf (g ! i) = Some b" "closed_tree g a t"
    "closed_tree g b f" by auto
  from Branch.prems(3) have "j = i \<or> j \<in> reach g a \<or> j \<in> reach g b" by (simp add: reach_Branch [OF ab(1,2)])
  with Branch ab show ?case by (auto simp: straight_body_ok)
qed simp

text \<open>One pass: the code, or a retry.\<close>

lemma convert_pass_cases:
  assumes "closed_tree g i t" and "tree_ok t" and "long_ok g" and "max_space g (reach g i) < 2 ^ 31"
  shows "(\<exists>cv. convert_pass i g = Some (Converted cv) \<and> same_shape g (cv_graph cv) \<and>
      length (cv_code cv) = space g (reach g i) \<and> b_offset (cv_graph cv ! i) = 0 \<and>
      (\<forall>j\<in>reach g i. placed (cv_graph cv) (cv_code cv) j) \<and>
      (\<forall>m<length (cv_code cv). \<exists>j\<in>reach g i. in_block (cv_graph cv) j m)) \<or>
    (\<exists>g'. convert_pass i g = Some (Retry g') \<and> retry_of g i g')"
proof -
  let ?n = "space g (reach g i)"
  have d: "depth t < Suc (length g)" using depth_le [OF assms(1)] by simp
  have full: "full_marks g i {}" by (simp add: full_marks_def)
  have small: "?n < 2 ^ 31" using space_le_max [OF assms(3) reach_bounds [OF assms(1)]] assms(4) by linarith
  have ok: "conv_ok g i (start_conv g ?n)"
    using small by (simp add: conv_ok_def start_conv_def same_shape_refl full)
  have "convert_pass i g = convert_code_r (Suc (length g)) (Some i) (start_conv g ?n)"
    using count_stmts_space [OF assms(1) d full] by (simp add: convert_pass_def)
  moreover have "converts g i (start_conv g ?n) (convert_code_r (Suc (length g)) (Some i) (start_conv g ?n))"
    by (rule convert_code_r_converts [OF assms(1) d ok])
      (auto simp: start_conv_def intro: tree_ok_bodies [OF assms(1,2)])
  ultimately have conv: "converts g i (start_conv g ?n) (convert_pass i g)" by simp
  then show ?thesis
    unfolding converts_def
  proof (elim disjE exE conjE)
    fix cv assume "convert_pass i g = Some (Converted cv)" and ext: "conv_ext g (start_conv g ?n) cv"
      and "cv_tail cv + space g (reach g i - cv_marked (start_conv g ?n)) = cv_tail (start_conv g ?n)"
      and "i \<notin> cv_marked (start_conv g ?n) \<longrightarrow> unat (b_offset (cv_graph cv ! i)) = cv_tail cv"
      and "covers (reach g i) (cv_tail (start_conv g ?n)) cv"
      and "\<forall>j\<in>reach g i. placed (cv_graph cv) (cv_code cv) j \<and> cv_tail cv \<le> unat (b_offset (cv_graph cv ! j))"
    then show ?thesis
      by (intro disjI1 exI [of _ cv]) (auto simp: conv_ext_def start_conv_def unat_eq_0 covers_def)
  qed blast
qed

end
