(* ===== verification/Bpf_Validate.thy ===== *)
theory Bpf_Validate
  imports Bpf_Filter
begin

unbundle bit_operations_syntax

text \<open>
  \<open>bpf_validate\<close> of jni/libpcap/bpf/net/bpf_filter.c (user-land build) and what it guarantees
  about a run of \<open>bpf_filter_with_aux_data\<close>: the machine of a validated program is a
  \<open>guarded_machine\<close> whose results are never a fault of memory, program counter or constant
  division; without backward jumps it is a \<open>terminating_machine\<close>.
\<close>

section \<open>The validator\<close>

text \<open>One round of the checking loop, for the instruction \<open>p\<close> at index \<open>i\<close>.\<close>

definition validate_load :: "bpf_insn \<Rightarrow> bool" where
  "validate_load p =
     (let m = BPF_MODE (i_code p) in
      if m = BPF_IMM then True
      else if m = BPF_ABS \<or> m = BPF_IND \<or> m = BPF_MSH then True
      else if m = BPF_MEM then i_k p < of_nat BPF_MEMWORDS
      else m = BPF_LEN)"

definition validate_alu :: "bpf_insn \<Rightarrow> bool" where
  "validate_alu p =
     (let c = BPF_OP (i_code p) in
      if c \<in> {BPF_ADD, BPF_SUB, BPF_MUL, BPF_OR, BPF_AND, BPF_XOR, BPF_LSH, BPF_RSH, BPF_NEG}
      then True
      else if c = BPF_DIV \<or> c = BPF_MOD then \<not> (BPF_SRC (i_code p) = BPF_K \<and> i_k p = 0)
      else False)"

definition validate_jump :: "u32 \<Rightarrow> u32 \<Rightarrow> bpf_insn \<Rightarrow> bool" where
  "validate_jump len i p =
     (let from = i + 1; c = BPF_OP (i_code p) in
      if c = BPF_JA then from + i_k p < len
      else if c \<in> {BPF_JEQ, BPF_JGT, BPF_JGE, BPF_JSET}
      then from + ucast (i_jt p) < len \<and> from + ucast (i_jf p) < len
      else False)"

definition validate_insn :: "u32 \<Rightarrow> u32 \<Rightarrow> bpf_insn \<Rightarrow> bool" where
  "validate_insn len i p =
     (let c = BPF_CLASS (i_code p) in
      if c = BPF_LD \<or> c = BPF_LDX then validate_load p
      else if c = BPF_ST \<or> c = BPF_STX then i_k p < of_nat BPF_MEMWORDS
      else if c = BPF_ALU then validate_alu p
      else if c = BPF_JMP then validate_jump len i p
      else c = BPF_RET \<or> c = BPF_MISC)"

text \<open>\<open>len\<close> is an \<open>int\<close>: the length of the array, as far as 32 bits hold it.\<close>

definition bpf_validate :: "bpf_insn list \<Rightarrow> bool" where
  "bpf_validate f =
     (let len = of_nat (length f) :: u32 in
      if sint len < 1 then False
      else if list_all (\<lambda>i. validate_insn len (of_nat i) (f ! i)) [0..<unat len]
      then BPF_CLASS (i_code (f ! (unat len - 1))) = BPF_RET
      else False)"

section \<open>What a validated program keeps\<close>

definition vlen :: "bpf_insn list \<Rightarrow> nat" where
  "vlen f = unat (of_nat (length f) :: u32)"

lemma vlen_le: "vlen f \<le> length f"
  by (simp add: vlen_def unat_of_nat)

lemma bpf_validateD:
  assumes "bpf_validate f"
  shows "0 < vlen f" and "vlen f < 2 ^ 31"
    and "i < vlen f \<Longrightarrow> validate_insn (of_nat (length f)) (of_nat i) (f ! i)"
    and "BPF_CLASS (i_code (f ! (vlen f - 1))) = BPF_RET"
proof -
  let ?len = "of_nat (length f) :: u32"
  have pos: "1 \<le> sint ?len" using assms by (auto simp: bpf_validate_def Let_def split: if_splits)
  then have "sint ?len = int (vlen f)" unfolding vlen_def by (intro sint32_nonneg) simp
  moreover have "sint ?len < 2 ^ 31" by (rule sint32_range)
  ultimately have "0 < int (vlen f)" "int (vlen f) < 2 ^ 31" using pos by linarith+
  then show "0 < vlen f" "vlen f < 2 ^ 31" by (linarith, simp only: int_less_2_31)
  show "i < vlen f \<Longrightarrow> validate_insn ?len (of_nat i) (f ! i)"
    "BPF_CLASS (i_code (f ! (vlen f - 1))) = BPF_RET"
    using assms by (auto simp: bpf_validate_def vlen_def Let_def list_all_iff split: if_splits)
qed


text \<open>What the validator checked, by the opcode the interpreter decodes.\<close>

lemmas validate_defs = validate_insn_def validate_load_def validate_alu_def validate_jump_def
  BPF_CLASS_def BPF_MODE_def BPF_OP_def BPF_SRC_def

lemma validate_mem:
  assumes "validate_insn len i p"
    and "decode (i_code p) = Some op" and "op \<in> {Ld_Mem, Ldx_Mem, St, Stx}"
  shows "unat (i_k p) < BPF_MEMWORDS"
proof -
  have "i_k p < 16"
    using assms by (auto simp: decode_Some_iff validate_defs dest!: sym [of _ "i_code p"])
  then show ?thesis by (simp add: word_less_nat_alt)
qed

lemma validate_div:
  assumes "validate_insn len i p"
    and "decode (i_code p) = Some op" and "op \<in> {Alu Div SrcK, Alu Mod SrcK}"
  shows "i_k p \<noteq> 0"
  using assms by (auto simp: decode_Some_iff validate_defs dest!: sym [of _ "i_code p"])

lemma validate_ja:
  assumes "validate_insn len i p" and "decode (i_code p) = Some Ja"
  shows "i + 1 + i_k p < len"
  using assms by (auto simp: decode_Some_iff validate_defs dest!: sym [of _ "i_code p"])

lemma validate_jmp:
  assumes "validate_insn len i p" and "decode (i_code p) = Some (Jmp c sr)"
  shows "i + 1 + ucast (i_jt p) < len" "i + 1 + ucast (i_jf p) < len"
  using assms
  by (cases c; cases sr;
      auto simp: decode_Some_iff validate_defs Let_def dest!: sym [of _ "i_code p"])+

lemma ret_class:
  assumes "decode (i_code p) = Some op" and "BPF_CLASS (i_code p) = BPF_RET"
  shows "op = Ret_K \<or> op = Ret_A"
proof -
  have "BPF_CLASS (label op) = BPF_RET" using assms by (simp add: decode_Some_iff)
  then show ?thesis
  proof (cases op)
    case (Ld_Abs sz)
    then show ?thesis using \<open>BPF_CLASS (label op) = BPF_RET\<close> by (cases sz) (simp_all add: BPF_CLASS_def)
  next
    case (Ld_Ind sz)
    then show ?thesis using \<open>BPF_CLASS (label op) = BPF_RET\<close> by (cases sz) (simp_all add: BPF_CLASS_def)
  next
    case (Jmp c sr)
    then show ?thesis using \<open>BPF_CLASS (label op) = BPF_RET\<close> by (cases c; cases sr) (simp_all add: BPF_CLASS_def)
  next
    case (Alu a sr)
    then show ?thesis using \<open>BPF_CLASS (label op) = BPF_RET\<close> by (cases a; cases sr) (simp_all add: BPF_CLASS_def)
  qed (simp_all add: BPF_CLASS_def)
qed

text \<open>
  Jump targets. The validator computes them modulo \<open>2 ^ 32\<close>, the interpreter adds the
  sign-extended offset to a pointer; within a program of less than \<open>2 ^ 31\<close> instructions the
  two agree.
\<close>

lemma jump_target:
  fixes len k :: u32
  assumes "of_nat i + 1 + k < len" and "i < unat len" and "unat len < 2 ^ 31"
  shows "0 \<le> int i + sint k + 1" "int i + sint k + 1 < int (unat len)"
proof -
  let ?z = "int i + sint k + 1"
  define L where "L = int (unat len)"
  have L: "L < 2147483648" using assms(3) unfolding L_def int_less_2_31 [symmetric] by simp
  have i: "int i < L" using assms(2) unfolding L_def by linarith
  have "(int i + 1) mod 4294967296 = int i + 1" using i L by (intro mod_pos_pos_trivial) linarith+
  then have "uint (of_nat i + 1 :: u32) = int i + 1"
    by (simp add: uint_word_ariths unsigned_of_nat take_bit_eq_mod zmod_int mod_simps)
  then have "(uint (of_nat i + 1 :: u32) + sint k) mod 2 ^ 32 = ?z mod 4294967296"
    by (simp only: add.commute add.left_commute) simp
  then have "uint (of_nat i + 1 + k) = ?z mod 4294967296" by (simp only: uint32_add_sint)
  with assms(1) have z: "?z mod 4294967296 < L" by (simp add: word_less_def L_def)
  have range: "1 - 2147483648 \<le> ?z" "?z < 4294967296" using sint32_range [of k, simplified] i L by linarith+
  show nonneg: "0 \<le> ?z"
  proof (rule ccontr)
    assume neg: "\<not> 0 \<le> ?z"
    have "?z mod 4294967296 = (?z + 4294967296) mod 4294967296" by (simp only: mod_add_self2)
    also have "\<dots> = ?z + 4294967296" using neg range by (intro mod_pos_pos_trivial) linarith+
    finally show False using z range L by linarith
  qed
  with range have "?z mod 4294967296 = ?z" by (intro mod_pos_pos_trivial) linarith+
  with z show "?z < int (unat len)" unfolding L_def by linarith
qed

lemma ucast_jump:
  fixes j :: u8
  shows "sint (ucast j :: u32) = uint j"
proof -
  have "uint (ucast j :: u32) = uint j" by (simp add: uint_up_ucast is_up)
  moreover have "uint j < 256" using unsigned_less [where 'a=int, of j] by simp
  ultimately show ?thesis by (simp add: sint32_cases)
qed


section \<open>Safety of a validated program\<close>

text \<open>
  The invariant of the interpreter loop on a validated program: the program counter is inside
  the program and the scratch memory has its size. A result is good unless it is a fault other
  than a shift by too much, which the validator does not look at.
\<close>

definition vm_ok :: "bpf_insn list \<Rightarrow> bpf_env \<Rightarrow> bpf_vm \<Rightarrow> bool" where
  "vm_ok f e s \<longleftrightarrow> bpf_validate f \<and> buffer_ok e \<and> length (scratch s) = BPF_MEMWORDS \<and>
     0 \<le> pc s \<and> pc s < int (vlen f)"

definition memory_safe :: "bpf_outcome \<Rightarrow> bool" where
  "memory_safe r \<longleftrightarrow> (\<forall>x. r = Faulted x \<longrightarrow> x = Bad_Shift)"

lemma memory_safe_simps [simp]:
  "memory_safe (Returned v)" "memory_safe Aborted" "memory_safe (Faulted x) \<longleftrightarrow> x = Bad_Shift"
  by (auto simp: memory_safe_def)

lemma alu_op_safe:
  "alu_op a sr x y = Inr r \<Longrightarrow> (a \<in> {Div, Mod} \<and> sr = SrcK \<longrightarrow> y \<noteq> 0) \<Longrightarrow> memory_safe r"
  by (cases a; cases sr) (auto split: if_splits)

lemma load_safe:
  assumes "buffer_ok e"
  shows "ld_abs e sz k = Inr r \<Longrightarrow> memory_safe r"
    and "ld_ind e sz X k = Inr r \<Longrightarrow> memory_safe r"
    and "ldx_msh e k = Inr r \<Longrightarrow> memory_safe r"
  using ld_abs_no_fault [OF assms] ld_ind_no_fault [OF assms]
    ldx_msh_no_fault(1) [OF assms] ldx_msh_no_fault(2)
  by (cases r; auto)+

lemma mem_ok:
  assumes "length mem = BPF_MEMWORDS" and "unat k < BPF_MEMWORDS"
  shows "mem_read mem k = Inl (mem ! unat k)" "mem_write mem k v = Inl (mem[unat k := v])"
  using assms by (simp_all add: mem_read_def mem_write_def)

text \<open>Where a step goes: the next instruction, or a jump target.\<close>

definition op_offset :: "bpf_insn \<Rightarrow> opcode \<Rightarrow> int \<Rightarrow> bool" where
  "op_offset i op d \<longleftrightarrow>
     (case op of
        Ja \<Rightarrow> d = sint (i_k i)
      | Jmp _ _ \<Rightarrow> d = uint (i_jt i) \<or> d = uint (i_jf i)
      | Ret_K \<Rightarrow> False
      | Ret_A \<Rightarrow> False
      | _ \<Rightarrow> d = 0)"

lemma exec_op_Inl:
  assumes "exec_op e i s op = Inl s'"
  shows "\<exists>d. op_offset i op d \<and> pc s' = pc s + d + 1 \<and>
    (length (scratch s') = length (scratch s))"
  using assms
  by (cases op)
    (auto simp: set_reg_defs op_offset_def mem_write_def split: sum.splits if_splits)

lemma validated_target:
  assumes v: "bpf_validate f" and n: "n < vlen f" and dec: "decode (i_code (f ! n)) = Some op"
    and off: "op_offset (f ! n) op d"
  shows "0 \<le> int n + d + 1" "int n + d + 1 < int (vlen f)"
proof -
  note vi = bpf_validateD(3) [OF v n] and small = bpf_validateD(2) [OF v]
  have target: "0 \<le> int n + sint k + 1 \<and> int n + sint k + 1 < int (vlen f)"
    if "of_nat n + 1 + k < (of_nat (length f) :: u32)" for k :: u32
    using jump_target [OF that n [unfolded vlen_def] small [unfolded vlen_def]] by (simp only: vlen_def)
  have "0 \<le> int n + d + 1 \<and> int n + d + 1 < int (vlen f)"
  proof (cases "op = Ja \<or> (\<exists>c sr. op = Jmp c sr)")
    case True
    then show ?thesis
    proof (elim disjE exE)
      assume "op = Ja"
      with dec off show ?thesis using target [OF validate_ja [OF vi]] by (simp add: op_offset_def)
    next
      fix c sr assume "op = Jmp c sr"
      with dec off show ?thesis
        using target [OF validate_jmp(1) [OF vi]] target [OF validate_jmp(2) [OF vi]]
        by (auto simp: op_offset_def ucast_jump)
    qed
  next
    case False
    then have d: "d = 0" and "op \<noteq> Ret_K \<and> op \<noteq> Ret_A"
      using off by (auto simp: op_offset_def split: opcode.splits)
    then have "BPF_CLASS (i_code (f ! n)) \<noteq> BPF_RET" using ret_class [OF dec] by blast
    then have "n \<noteq> vlen f - 1" using bpf_validateD(4) [OF v] by metis
    then show ?thesis using d n by linarith
  qed
  then show "0 \<le> int n + d + 1" "int n + d + 1 < int (vlen f)" by blast+
qed

lemma exec_op_safe:
  assumes "exec_op e i s op = Inr r" and "buffer_ok e" and "length (scratch s) = BPF_MEMWORDS"
    and "op \<in> {Ld_Mem, Ldx_Mem, St, Stx} \<Longrightarrow> unat (i_k i) < BPF_MEMWORDS"
    and "op \<in> {Alu Div SrcK, Alu Mod SrcK} \<Longrightarrow> i_k i \<noteq> 0"
  shows "memory_safe r"
proof (cases op)
  case (Alu a sr)
  with assms(1,5) show ?thesis
    by (auto simp: set_reg_defs split: sum.splits intro!: alu_op_safe) 
qed (use assms in \<open>auto simp: set_reg_defs mem_ok split: sum.splits dest: load_safe [OF assms(2)]\<close>)

lemma step_keeps_vm_ok:
  assumes ok: "vm_ok f e s" and st: "bpf_step f e s = Inl s'"
  shows "vm_ok f e s'"
proof -
  define n where "n = nat (pc s)"
  have n: "n < vlen f" "pc s = int n" using ok by (auto simp: vm_ok_def n_def)
  then have "n < length f" using vlen_le [of f] by linarith
  then obtain op where dec: "decode (i_code (f ! n)) = Some op"
    and ex: "exec_op e (f ! n) s op = Inl s'"
    using st n(2) by (auto simp: bpf_step_def n_def [symmetric] Let_def split: option.splits)
  from exec_op_Inl [OF ex] obtain d where "op_offset (f ! n) op d" "pc s' = int n + d + 1"
    "length (scratch s') = length (scratch s)" by (auto simp: n(2))
  with validated_target [OF _ n(1) dec] ok show ?thesis by (simp add: vm_ok_def)
qed

lemma step_memory_safe:
  assumes ok: "vm_ok f e s" and st: "bpf_step f e s = Inr r"
  shows "memory_safe r"
proof -
  define n where "n = nat (pc s)"
  have n: "n < vlen f" "pc s = int n" using ok by (auto simp: vm_ok_def n_def)
  then have len: "n < length f" using vlen_le [of f] by linarith
  have v: "bpf_validate f" using ok by (simp add: vm_ok_def)
  note vi = bpf_validateD(3) [OF v n(1)]
  show ?thesis
  proof (cases "decode (i_code (f ! n))")
    case None
    with st n len show ?thesis by (auto simp: bpf_step_def n_def [symmetric])
  next
    case (Some op)
    with st n len have "exec_op e (f ! n) s op = Inr r"
      by (auto simp: bpf_step_def n_def [symmetric])
    then show ?thesis
      using ok validate_mem [OF vi Some] validate_div [OF vi Some]
      by (intro exec_op_safe [of e "f ! n" s op r]) (auto simp: vm_ok_def)
  qed
qed

interpretation bpf_vm: guarded_machine "bpf_step f e" "vm_ok f e" memory_safe for f e
  by unfold_locales (fact step_keeps_vm_ok, fact step_memory_safe)

lemma vm_ok_init:
  "bpf_validate f \<Longrightarrow> buffer_ok e \<Longrightarrow> length mem = BPF_MEMWORDS \<Longrightarrow> vm_ok f e (bpf_init mem)"
  using bpf_validateD(1) [of f] by (simp add: vm_ok_def bpf_init_def)


section \<open>Termination without backward jumps\<close>

text \<open>
  Only \<open>BPF_JMP|BPF_JA\<close> can go backwards: its offset is sign-extended. A program without such
  a jump visits ever larger indices.
\<close>

definition no_back_jumps :: "bpf_insn list \<Rightarrow> bool" where
  "no_back_jumps f \<longleftrightarrow> list_all (\<lambda>i. decode (i_code i) = Some Ja \<longrightarrow> 0 \<le> sint (i_k i)) f"

text \<open>
  The programs the interpreter runs to a verdict: every opcode is one of its case labels and no
  shift is by a variable or by a constant of 32 or more.
\<close>

definition runnable_op :: "bpf_insn \<Rightarrow> opcode \<Rightarrow> bool" where
  "runnable_op i op \<longleftrightarrow>
     (case op of
        Alu a sr \<Rightarrow> a \<in> {Lsh, Rsh} \<longrightarrow> sr = SrcK \<and> unat (i_k i) < 32
      | _ \<Rightarrow> True)"

definition runnable :: "bpf_insn list \<Rightarrow> bool" where
  "runnable f \<longleftrightarrow>
     list_all (\<lambda>i. case decode (i_code i) of None \<Rightarrow> False | Some op \<Rightarrow> runnable_op i op) f"

definition is_verdict :: "bpf_outcome \<Rightarrow> bool" where
  "is_verdict r \<longleftrightarrow> (\<exists>v. r = Returned v)"

lemma bpf_step_cases:
  assumes "vm_ok f e s"
  obtains n where "n < length f" "n < vlen f" "pc s = int n"
    "bpf_step f e s = (case decode (i_code (f ! n)) of
       None \<Rightarrow> Inr Aborted | Some op \<Rightarrow> exec_op e (f ! n) s op)"
proof
  show "nat (pc s) < vlen f" "pc s = int (nat (pc s))" using assms by (auto simp: vm_ok_def)
  then show "nat (pc s) < length f" using vlen_le [of f] by linarith
  then show "bpf_step f e s = (case decode (i_code (f ! nat (pc s))) of
      None \<Rightarrow> Inr Aborted | Some op \<Rightarrow> exec_op e (f ! nat (pc s)) s op)"
    using assms by (auto simp: bpf_step_def vm_ok_def Let_def)
qed

lemma op_offset_nonneg:
  "op_offset i op d \<Longrightarrow> (op = Ja \<Longrightarrow> 0 \<le> sint (i_k i)) \<Longrightarrow> 0 \<le> d"
  by (cases op) (auto simp: op_offset_def)

lemma forward_step:
  assumes ok: "vm_ok f e s" and fwd: "no_back_jumps f" and st: "bpf_step f e s = Inl s'"
  shows "pc s < pc s'"
proof -
  obtain n where n: "n < length f" "pc s = int n"
    and step: "bpf_step f e s = (case decode (i_code (f ! n)) of
       None \<Rightarrow> Inr Aborted | Some op \<Rightarrow> exec_op e (f ! n) s op)"
    using bpf_step_cases [OF ok] by metis
  from st step obtain op where dec: "decode (i_code (f ! n)) = Some op"
    and ex: "exec_op e (f ! n) s op = Inl s'" by (auto split: option.splits)
  obtain d where "op_offset (f ! n) op d" "pc s' = pc s + d + 1"
    using exec_op_Inl [OF ex] by blast
  moreover have "op = Ja \<Longrightarrow> 0 \<le> sint (i_k (f ! n))"
    using fwd dec n(1) by (simp add: no_back_jumps_def list_all_length)
  ultimately show ?thesis using op_offset_nonneg [of "f ! n" op d] by simp
qed

definition insns_left :: "bpf_insn list \<Rightarrow> bpf_vm \<Rightarrow> nat" where
  "insns_left f s = nat (int (vlen f) - pc s)"

lemma forward_meas:
  assumes "vm_ok f e s" and "no_back_jumps f" and "bpf_step f e s = Inl s'"
  shows "insns_left f s' < insns_left f s"
  using forward_step [OF assms] assms(1) by (simp add: vm_ok_def insns_left_def)

interpretation bpf_forward: terminating_machine
  "bpf_step f e" "\<lambda>s. vm_ok f e s \<and> no_back_jumps f" memory_safe
  "insns_left f" for f e
  by unfold_locales (auto intro: bpf_vm.inv_step bpf_vm.good_result forward_meas)

lemma alu_op_runnable:
  "runnable_op i (Alu a sr) \<Longrightarrow> alu_op a sr x (operand sr i s) = Inr (Faulted Bad_Shift) \<Longrightarrow> False"
  by (cases a; cases sr) (auto simp: runnable_op_def split: if_splits)

lemma alu_op_not_aborted: "alu_op a sr x y \<noteq> Inr Aborted"
  by (cases a; cases sr) auto

lemma exec_op_verdict:
  assumes ex: "exec_op e i s op = Inr r" and run: "runnable_op i op" and "memory_safe r"
    and "buffer_ok e"
  shows "is_verdict r"
proof (cases r)
  case (Returned v)
  then show ?thesis by (simp add: is_verdict_def)
next
  case Aborted
  with ex show ?thesis
    using ld_abs_no_fault(2) [OF assms(4)] ld_ind_no_fault(2) [OF assms(4)] ldx_msh_no_fault(2)
      alu_op_not_aborted
    by (cases op) (auto simp: set_reg_defs mem_read_def mem_write_def split: sum.splits if_splits)
next
  case (Faulted x)
  with ex run assms(3) show ?thesis
    using ld_abs_no_fault(1) [OF assms(4)] ld_ind_no_fault(1) [OF assms(4)]
      ldx_msh_no_fault(1) [OF assms(4)]
    by (cases op) (auto simp: set_reg_defs mem_read_def mem_write_def
      dest: alu_op_runnable split: sum.splits if_splits)
qed

lemma runnable_verdict:
  assumes ok: "vm_ok f e s" and run: "runnable f" and st: "bpf_step f e s = Inr r"
  shows "is_verdict r"
proof -
  obtain n where n: "n < length f"
    and step: "bpf_step f e s = (case decode (i_code (f ! n)) of
       None \<Rightarrow> Inr Aborted | Some op \<Rightarrow> exec_op e (f ! n) s op)"
    using bpf_step_cases [OF ok] by metis
  obtain op where op: "decode (i_code (f ! n)) = Some op" "runnable_op (f ! n) op"
    using run n by (auto simp: runnable_def list_all_length split: option.splits dest!: spec [of _ n])
  have "buffer_ok e" using ok by (simp add: vm_ok_def)
  with op step st step_memory_safe [OF ok st] show ?thesis by (auto intro: exec_op_verdict)
qed

interpretation bpf_runnable: terminating_machine
  "bpf_step f e" "\<lambda>s. (vm_ok f e s \<and> no_back_jumps f) \<and> runnable f" is_verdict
  "insns_left f" for f e
  by unfold_locales
    (auto intro: bpf_forward.inv_step bpf_vm.inv_step runnable_verdict forward_meas)


section \<open>Properties\<close>

text \<open>
  C6. Whatever a program accepted by \<open>bpf_validate\<close> does, finite or
  infinite run: in every state the interpreter reaches, the program counter is inside the
  program, and the next step does not access the scratch memory or the packet outside its array
  and does not divide by a constant zero, provided the buffer holds the \<open>buflen\<close> bytes it is
  said to hold.
\<close>

theorem bpf_validated_run_safe:
  assumes "bpf_validate f" and "unat (buflen e) \<le> length (packet e)"
    and "length mem = BPF_MEMWORDS"
    and "reaches (bpf_step f e) (bpf_init mem) s"
  shows "0 \<le> pc s \<and> pc s < int (length f) \<and>
    bpf_step f e s \<notin> {Inr (Faulted Bad_Pc), Inr (Faulted Bad_Scratch), Inr (Faulted Bad_Packet),
      Inr (Faulted Div_By_Zero)}"
proof -
  have init: "vm_ok f e (bpf_init mem)" using assms by (intro vm_ok_init) (auto simp: buffer_ok_def)
  from bpf_vm.reaches_inv [OF assms(4) init] have "0 \<le> pc s" "pc s < int (vlen f)"
    by (auto simp: vm_ok_def)
  moreover have "memory_safe r" if "bpf_step f e s = Inr r" for r
    using bpf_vm.reaches_good [OF assms(4) init that] .
  ultimately show ?thesis using vlen_le [of f] by fastforce
qed

definition ip_filter :: "bpf_insn list" where
  "ip_filter =
     [BPF_STMT (BPF_LD OR BPF_H OR BPF_ABS) 12,
      BPF_JUMP (BPF_JMP OR BPF_JEQ OR BPF_K) 0x800 0 1,
      BPF_STMT (BPF_RET OR BPF_K) 262144,
      BPF_STMT (BPF_RET OR BPF_K) 0]"

definition ip_packet :: "u8 list" where
  "ip_packet = replicate 12 0xff @ [8, 0, 0x45, 0]"

lemma ip_filter_ok: "bpf_validate ip_filter" "no_back_jumps ip_filter" "runnable ip_filter"
  by code_simp+

theorem bpf_validated_run_safe_witness:
  "\<not> bpf_step ip_filter \<lparr>packet = ip_packet, wirelen = 64, buflen = 16, aux_data = None,
      ancillary = None\<rparr> (bpf_init (replicate 16 0)) = Inr (Faulted Bad_Packet)"
  using bpf_validated_run_safe [OF ip_filter_ok(1), of "\<lparr>packet = ip_packet, wirelen = 64,
      buflen = 16, aux_data = None, ancillary = None\<rparr>" "replicate 16 0", OF _ _ reaches_refl]
  by (simp add: ip_packet_def)

lemma validated_verdict:
  assumes "bpf_validate f" and "no_back_jumps f" and "runnable f"
    and "unat blen \<le> length p" and "length mem = BPF_MEMWORDS"
  shows "\<exists>v. bpf_filter_with_aux_data mem anc (Some f) p wlen blen aux = Some (Returned v)"
proof -
  let ?e = "\<lparr>packet = p, wirelen = wlen, buflen = blen, aux_data = aux, ancillary = anc\<rparr>"
  have "vm_ok f ?e (bpf_init mem)" using assms by (intro vm_ok_init) (auto simp: buffer_ok_def)
  with assms(2,3) bpf_runnable.run_terminates [of f ?e "bpf_init mem"] show ?thesis
    by (auto simp: bpf_filter_with_aux_data_def is_verdict_def)
qed

text \<open>
  C7. A validated program with no backward jump whose opcodes are all known
  to the interpreter and whose shift counts are constants below 32 always ends, and ends with a
  verdict: the interpreter neither aborts nor meets undefined behaviour.
\<close>

theorem bpf_validated_verdict:
  assumes "bpf_validate f" and "no_back_jumps f" and "runnable f"
    and "unat blen \<le> length p" and "length mem = BPF_MEMWORDS"
  shows "\<exists>v. bpf_filter_with_aux_data mem anc (Some f) p wlen blen aux = Some (Returned v)"
  using assms by (rule validated_verdict)

theorem bpf_validated_verdict_witness:
  "\<exists>v. bpf_filter (replicate 16 0) None (Some ip_filter) ip_packet 64 16 = Some (Returned v)"
  unfolding bpf_filter_def
  by (rule bpf_validated_verdict [OF ip_filter_ok]) (simp_all add: ip_packet_def)

text \<open>
  Termination does not need the opcodes to be known: a validated
  program with no backward jump always ends, and never with a memory fault.
\<close>

theorem bpf_validated_terminates:
  assumes "bpf_validate f" and "no_back_jumps f"
    and "unat blen \<le> length p" and "length mem = BPF_MEMWORDS"
  shows "\<exists>r. bpf_filter_with_aux_data mem anc (Some f) p wlen blen aux = Some r \<and> memory_safe r"
proof -
  let ?e = "\<lparr>packet = p, wirelen = wlen, buflen = blen, aux_data = aux, ancillary = anc\<rparr>"
  have "vm_ok f ?e (bpf_init mem)" using assms by (intro vm_ok_init) (auto simp: buffer_ok_def)
  with assms(2) bpf_forward.run_terminates [of f ?e "bpf_init mem"] show ?thesis
    by (auto simp: bpf_filter_with_aux_data_def)
qed

definition unknown_opcode_filter :: "bpf_insn list" where
  "unknown_opcode_filter =
     [BPF_STMT (BPF_MISC OR 0x20) 0, BPF_STMT (BPF_RET OR BPF_K) 1]"

lemma unknown_opcode_filter_ok:
  "bpf_validate unknown_opcode_filter" "no_back_jumps unknown_opcode_filter"
  by code_simp+

theorem bpf_validated_terminates_witness:
  "\<exists>r. bpf_filter (replicate 16 0) None (Some unknown_opcode_filter) [] 0 0 = Some r \<and> memory_safe r"
  unfolding bpf_filter_def
  by (rule bpf_validated_terminates [OF unknown_opcode_filter_ok]) simp_all

definition shift_filter :: "bpf_insn list" where
  "shift_filter = [BPF_STMT (BPF_ALU OR BPF_LSH OR BPF_K) 32, BPF_STMT (BPF_RET OR BPF_K) 1]"

definition looping_filter :: "bpf_insn list" where
  "looping_filter = [BPF_STMT (BPF_JMP OR BPF_JA) (-1), BPF_STMT (BPF_RET OR BPF_K) 1]"

lemma decode_examples:
  "decode (BPF_MISC OR 0x20) = None"
  "decode 5 = Some Ja" "decode 0x64 = Some (Alu Lsh SrcK)" "decode 6 = Some Ret_K"
  by code_simp+

lemma looping_filter_stuck:
  "run_machine (bpf_step looping_filter e) (bpf_init mem) = None"
  by (rule self_loop_stuck)
    (simp add: bpf_step_def looping_filter_def bpf_init_def BPF_STMT_def decode_examples
      continue_at_def)

text \<open>
  C16. What \<open>bpf_validate\<close> does not exclude, although its comment says a bogus
  program could otherwise crash the system: it accepts a program on which the interpreter calls
  \<open>abort()\<close>, one that shifts by 32, and one that never returns, whatever the packet.
\<close>

theorem bpf_validate_gaps:
  "bpf_validate unknown_opcode_filter \<and> bpf_validate shift_filter \<and> bpf_validate looping_filter \<and>
   bpf_filter mem anc (Some unknown_opcode_filter) p wlen blen = Some Aborted \<and>
   bpf_filter mem anc (Some shift_filter) p wlen blen = Some (Faulted Bad_Shift) \<and>
   bpf_filter mem anc (Some looping_filter) p wlen blen = None"
proof (intro conjI)
  show "bpf_validate unknown_opcode_filter" "bpf_validate shift_filter"
    "bpf_validate looping_filter" by code_simp+
  show "bpf_filter mem anc (Some unknown_opcode_filter) p wlen blen = Some Aborted"
    using decode_examples(1)
    by (simp add: bpf_filter_def bpf_filter_with_aux_data_def
        run_machine.simps bpf_step_def bpf_init_def unknown_opcode_filter_def BPF_STMT_def)
  show "bpf_filter mem anc (Some shift_filter) p wlen blen = Some (Faulted Bad_Shift)"
    by (simp add: bpf_filter_def bpf_filter_with_aux_data_def run_machine.simps bpf_step_def
        bpf_init_def shift_filter_def BPF_STMT_def decode_examples set_A_def)
  show "bpf_filter mem anc (Some looping_filter) p wlen blen = None"
    by (simp add: bpf_filter_def bpf_filter_with_aux_data_def looping_filter_stuck)
qed

end
