(* ===== verification/Fcode_Valid.thy ===== *)
theory Fcode_Valid
  imports Tree_Run Bpf_Validate
begin

text \<open>
  The programs of \<open>icode_to_fcode\<close> pass \<open>bpf_validate\<close>: their opcodes are known, memory and division
  operands are in range, every jump stays inside the program, and the last instruction returns.
\<close>

section \<open>Single instructions\<close>

lemma straight_validates:
  assumes "decode (i_code p) = Some op" and "straight_op op" and "operand_ok op (i_k p)"
  shows "validate_insn len i p"
proof -
  have code: "i_code p = label op" using assms(1) by (simp add: decode_Some_iff)
  show ?thesis
  proof (cases op)
    case (Ld_Abs sz)
    then show ?thesis by (cases sz) (simp_all add: validate_defs code)
  next
    case (Ld_Ind sz)
    then show ?thesis by (cases sz) (simp_all add: validate_defs code)
  next
    case (Alu a sr)
    then show ?thesis using assms(3) by (cases a; cases sr) (simp_all add: validate_defs code Let_def)
  qed (use assms in \<open>simp_all add: validate_defs code Let_def\<close>)
qed

lemma jump_validates:
  assumes "decode (i_code p) = Some (Jmp c sr)"
    and "i + 1 + ucast (i_jt p) < len" and "i + 1 + ucast (i_jf p) < len"
  shows "validate_insn len i p"
proof -
  have "i_code p = label (Jmp c sr)" using assms(1) by (simp add: decode_Some_iff)
  then show ?thesis using assms(2,3) by (cases c; cases sr) (simp_all add: validate_defs Let_def)
qed

lemma long_jump_validates: "i + 1 + k < len \<Longrightarrow> validate_insn len i (long_jump k)"
  by (simp add: validate_defs Let_def long_jump_def BPF_STMT_def)

lemma zero_validates: "validate_insn len i zero_insn"
  by (simp add: validate_defs Let_def zero_insn_def BPF_STMT_def)

lemma ret_validates:
  assumes "decode (i_code p) \<in> {Some Ret_K, Some Ret_A}"
  shows "validate_insn len i p" and "BPF_CLASS (i_code p) = BPF_RET"
proof -
  have "i_code p = label Ret_K \<or> i_code p = label Ret_A" using assms by (auto simp: decode_Some_iff)
  then show "validate_insn len i p" "BPF_CLASS (i_code p) = BPF_RET" by (auto simp: validate_defs)
qed

section \<open>Blocks\<close>

definition exit_block :: "block \<Rightarrow> bool" where
  "exit_block b \<longleftrightarrow> b_jt b = None \<and> b_jf b = None \<and> decode (stmt_code (b_s b)) \<in> {Some Ret_K, Some Ret_A}"

lemma tree_node:
  assumes "closed_tree g i t" and "tree_ok t" and "j \<in> reach g i"
  shows "straight (b_stmts (g ! j)) \<and> (exit_block (g ! j) \<or>
    (\<exists>k l. b_jt (g ! j) = Some k \<and> b_jf (g ! j) = Some l \<and> k \<in> reach g i \<and> l \<in> reach g i \<and>
       is_jmp (decode (stmt_code (b_s (g ! j))))))"
  using assms
proof (induction t arbitrary: i)
  case (Final ss s)
  then show ?case by (auto simp: reach_Final exit_block_def)
next
  case (Branch ss s t f)
  then obtain k l where kl: "b_jt (g ! i) = Some k" "b_jf (g ! i) = Some l" "closed_tree g k t" "closed_tree g l f"
    by auto
  note reach = reach_Branch [OF kl(1,2)]
  have "j = i \<or> j \<in> reach g k \<or> j \<in> reach g l" using Branch.prems(3) reach by simp
  then show ?case
  proof (elim disjE)
    assume "j = i"
    then show ?case using Branch.prems(1,2) kl(1,2) by (auto simp: reach)
  next
    assume "j \<in> reach g k"
    from Branch.IH(1) [OF kl(3) _ this] Branch.prems(2) show ?case by (auto simp: reach)
  next
    assume "j \<in> reach g l"
    from Branch.IH(2) [OF kl(4) _ this] Branch.prems(2) show ?case by (auto simp: reach)
  qed
qed simp

text \<open>The instructions of a branch: the jump with its targets, then long jumps to one of the successors.\<close>

lemma emit_branch_extra:
  assumes "emit_branch g b = Some (Emitted ys)" and "b_jt b = Some t" and "b_jf b = Some f"
    and "0 < m" and "m < length ys"
  shows "ys ! m = long_jump (branch_distance g b t - of_nat m) \<or> ys ! m = long_jump (branch_distance g b f - of_nat m)"
proof -
  have "length ys \<le> 3"
    using assms(1-3) by (auto simp: emit_branch_def Let_def split: if_splits)
  then consider "m = 1" | "m = 2" using assms(4,5) by linarith
  then show ?thesis
    by cases (use assms(1-3,5) in \<open>auto simp: emit_branch_def branch_distance_def [symmetric] Let_def split: if_splits\<close>)
qed

lemma branch_validates:
  assumes br: "emit_branch g b = Some (Emitted ys)" and jt: "b_jt b = Some t" and jf: "b_jf b = Some f"
    and jmp: "is_jmp (decode (stmt_code (b_s b)))" and m: "m < length ys"
    and targets: "b_offset (g ! t) < len" "b_offset (g ! f) < len"
    and inside: "\<And>k. k < length ys \<Longrightarrow> b_offset b + of_nat (slength (b_stmts b)) + of_nat k < len"
  shows "validate_insn len (b_offset b + of_nat (slength (b_stmts b)) + of_nat m) (ys ! m)"
proof -
  let ?at = "b_offset b + of_nat (slength (b_stmts b))"
  have at: "?at + of_nat m + 1 + (branch_distance g b k - of_nat m) = b_offset (g ! k)" for k
    by (simp add: branch_distance_def)
  show ?thesis
  proof (cases "m = 0")
    case False
    then have "ys ! m = long_jump (branch_distance g b t - of_nat m) \<or> ys ! m = long_jump (branch_distance g b f - of_nat m)"
      using emit_branch_extra [OF br jt jf _ m] by simp
    then show ?thesis using at [of t] at [of f] targets by (auto intro!: long_jump_validates)
  next
    case True
    obtain c sr where "decode (stmt_code (b_s b)) = Some (Jmp c sr)" using jmp by (auto simp: is_jmp_iff)
    moreover obtain j1 j0 where ys: "ys ! 0 = BPF_JUMP (stmt_code (b_s b)) (s_k (b_s b)) j1 j0"
      and j1: "(branch_distance g b t < 256 \<and> j1 = ucast (branch_distance g b t)) \<or>
        (j1 = 0 \<and> 1 < length ys \<and> 256 \<le> branch_distance g b t \<and> ys ! 1 = long_jump (branch_distance g b t - 1))"
      and j0: "(branch_distance g b f < 256 \<and> j0 = ucast (branch_distance g b f)) \<or>
        (\<exists>n. j0 = of_nat n \<and> n \<le> 1 \<and> Suc n < length ys \<and> 256 \<le> branch_distance g b f \<and>
          ys ! Suc n = long_jump (branch_distance g b f - of_nat (Suc n)))"
      by (rule emit_branch_jumps [OF br jt jf]) blast
    have byte: "ucast (ucast d :: u8) = d" if "d < 256" for d :: u32
    proof -
      have "unat d < 256" using that by (simp add: word_less_nat_alt)
      then show ?thesis by (intro word_unat_eq_iff [THEN iffD2]) (simp add: unsigned_ucast_eq unsigned_take_bit_eq take_bit_nat_eq_self)
    qed
    have "?at + 1 + ucast j1 < len"
      using j1 at [of t] targets(1) byte inside [of 1] by (auto simp: True)
    moreover have "?at + 1 + ucast j0 < len"
      using j0
    proof (elim disjE exE conjE)
      fix n assume n: "j0 = of_nat n" "n \<le> 1" "Suc n < length ys"
      then have "n = 0 \<or> n = 1" by linarith
      then show ?thesis using n inside [of "Suc n"] by (auto simp: add.assoc)
    qed (use at [of f] targets(2) byte in \<open>auto simp: True\<close>)
    ultimately show ?thesis
      by (simp add: True ys) (rule jump_validates [of _ c sr], simp_all add: BPF_JUMP_def)
  qed
qed

text \<open>Every cell of a placed block.\<close>

lemma cell_validates:
  assumes tree: "closed_tree g i t" "tree_ok t" and j: "j \<in> reach g i"
    and placed: "\<And>k. k \<in> reach g i \<Longrightarrow> placed g code k" and small: "length code < 2 ^ 31"
    and m: "in_block g j m"
  shows "validate_insn (of_nat (length code)) (of_nat m) (code ! m)"
proof -
  let ?b = "g ! j" and ?len = "of_nat (length code) :: u32"
  define n where "n = slength (b_stmts ?b)"
  define o' where "o' = unat (b_offset ?b)"
  note node = tree_node [OF tree j]
  from placed [OF j] obtain xs ys where
      xs: "emit_stmts (b_stmts ?b) n 0 (b_stmts ?b) = Inr xs" and ys: "emit_branch g ?b = Some (Emitted ys)"
    and room: "o' + block_size ?b \<le> length code"
    and window: "take (block_size ?b) (drop o' code) = (xs @ ys) @ replicate (block_size ?b - length (xs @ ys)) zero_insn"
    by (auto simp: placed_def n_def o'_def)
  have len: "length xs = n" "length (xs @ ys) \<le> block_size ?b"
    using emit_stmts_length [OF xs] emit_branch_length [OF ys] by (simp_all add: block_size_def n_def)
  have below: "(of_nat k :: u32) < ?len" if "k < length code" for k
    using that small by (simp add: word_less_nat_alt unat32_of_nat)
  have start: "b_offset (g ! k) < ?len" if "k \<in> reach g i" for k
  proof -
    have "unat (b_offset (g ! k)) < length code"
      using placed [OF that] by (auto simp: placed_def block_size_def)
    from below [OF this] show ?thesis by simp
  qed
  define r where "r = m - o'"
  have r: "m = o' + r" "r < block_size ?b" using m by (auto simp: in_block_def r_def o'_def)
  have cell: "code ! m = ((xs @ ys) @ replicate (block_size ?b - length (xs @ ys)) zero_insn) ! r"
    unfolding window [symmetric] using r room by simp
  consider (stmt) "r < n" | (jump) "n \<le> r" "r < n + length ys" | (pad) "n + length ys \<le> r" by linarith
  then show ?thesis
  proof cases
    case stmt
    have "xs = map (\<lambda>x. stmt_insn (sl_stmt x)) (filter (\<lambda>x. s_code (sl_stmt x) \<noteq> NOP) (b_stmts ?b))"
      using xs node by (simp add: emit_straight)
    moreover have "xs ! r \<in> set xs" using stmt len(1) by simp
    ultimately obtain x where x: "x \<in> set (b_stmts ?b)" "s_code (sl_stmt x) \<noteq> NOP" "xs ! r = stmt_insn (sl_stmt x)"
      by auto
    with node obtain op where "decode (stmt_code (sl_stmt x)) = Some op" "straight_op op" "operand_ok op (s_k (sl_stmt x))"
      by (fastforce simp: straight_def list_all_iff split: option.splits)
    then have "validate_insn ?len (of_nat m) (stmt_insn (sl_stmt x))"
      by (intro straight_validates) (simp_all add: stmt_insn_def BPF_STMT_def)
    then show ?thesis using stmt len(1) x(3) by (simp add: cell nth_append)
  next
    case pad
    then have "\<not> r < n" "\<not> r - n < length ys" by linarith+
    then show ?thesis using len(1) r(2) by (simp add: cell nth_append zero_validates)
  next
    case jump
    have c: "code ! m = ys ! (r - n)" using jump len(1) by (simp add: cell nth_append)
    have pos: "(of_nat m :: u32) = b_offset ?b + of_nat n + of_nat (r - n)"
      using jump by (simp add: r(1) o'_def of_nat_diff)
    from node show ?thesis
    proof (elim conjE disjE exE)
      assume "exit_block ?b"
      then have "ys = [stmt_insn (b_s ?b)]" "decode (stmt_code (b_s ?b)) \<in> {Some Ret_K, Some Ret_A}"
        using ys by (auto simp: exit_block_def emit_branch_def stmt_insn_def Let_def)
      then show ?thesis using jump by (simp add: c ret_validates stmt_insn_def BPF_STMT_def)
    next
      fix k l assume kl: "b_jt ?b = Some k" "b_jf ?b = Some l" "k \<in> reach g i" "l \<in> reach g i"
        "is_jmp (decode (stmt_code (b_s ?b)))"
      have inside: "b_offset ?b + of_nat (slength (b_stmts ?b)) + of_nat q < ?len" if "q < length ys" for q
      proof -
        have "o' + n + q < length code" using that len room by simp
        from below [OF this] show ?thesis by (simp add: o'_def n_def)
      qed
      have "r - n < length ys" using jump by linarith
      from branch_validates [OF ys kl(1,2,5) this start [OF kl(3)] start [OF kl(4)] inside]
      show ?thesis by (simp only: c pos n_def)
    qed
  qed
qed

lemma placed_validates:
  assumes tree: "closed_tree g i t" "tree_ok t" and long: "long_ok g"
    and placed: "\<And>k. k \<in> reach g i \<Longrightarrow> placed g code k" and small: "length code < 2 ^ 31"
    and filled: "\<And>m. m < length code \<Longrightarrow> \<exists>j\<in>reach g i. in_block g j m"
  shows "bpf_validate code"
proof -
  let ?len = "of_nat (length code) :: u32"
  have pos: "0 < length code" using placed [OF reach_self] by (auto simp: placed_def block_size_def)
  have len: "unat ?len = length code" using small by (simp add: unat32_of_nat)
  have "uint ?len = int (length code)" by (simp only: uint_nat len)
  then have "sint ?len = int (length code)" using small by (simp only: sint32_cases) simp
  moreover have "validate_insn ?len (of_nat m) (code ! m)" if "m < length code" for m
    using filled [OF that] cell_validates [OF tree _ placed small] by blast
  moreover have "BPF_CLASS (i_code (code ! (length code - 1))) = BPF_RET"
  proof -
    from filled [of "length code - 1"] pos obtain j where j: "j \<in> reach g i" "in_block g j (length code - 1)" by auto
    have jg: "j < length g" using j(1) reach_bounds [OF tree(1)] by auto
    from placed [OF j(1)] obtain xs ys where
        xs: "emit_stmts (b_stmts (g ! j)) (slength (b_stmts (g ! j))) 0 (b_stmts (g ! j)) = Inr xs"
      and ys: "emit_branch g (g ! j) = Some (Emitted ys)"
      and room: "unat (b_offset (g ! j)) + block_size (g ! j) \<le> length code"
      and window: "take (block_size (g ! j)) (drop (unat (b_offset (g ! j))) code) =
        (xs @ ys) @ replicate (block_size (g ! j) - length (xs @ ys)) zero_insn"
      and behind: "\<And>k. b_jt (g ! j) = Some k \<Longrightarrow>
        unat (b_offset (g ! j)) + block_size (g ! j) \<le> unat (b_offset (g ! k))"
      by (auto simp: placed_def)
    define o' where "o' = unat (b_offset (g ! j))"
    have full: "length code = o' + block_size (g ! j)"
      using j(2) room by (auto simp: in_block_def o'_def)
    have exit: "exit_block (g ! j)"
      using tree_node [OF tree j(1)] placed behind full by (fastforce simp: placed_def block_size_def o'_def)
    then have "\<forall>arm. b_long (g ! j) arm = 0"
      using long jg by (auto simp: long_ok_def exit_block_def b_succ_def)
    from this [rule_format, of True] this [rule_format, of False]
    have size: "block_size (g ! j) = length xs + 1"
      using emit_stmts_length [OF xs] by (simp add: b_long_def block_size_def)
    have "ys = [stmt_insn (b_s (g ! j))]"
      using ys exit by (auto simp: exit_block_def emit_branch_def stmt_insn_def Let_def)
    then have "take (length xs + 1) (drop o' code) = xs @ [stmt_insn (b_s (g ! j))]"
      using window by (simp add: size o'_def)
    from arg_cong [OF this, of "\<lambda>zs. zs ! length xs"]
    have "code ! (length code - 1) = stmt_insn (b_s (g ! j))" by (simp add: full size)
    then show ?thesis using exit by (intro ret_validates(2)) (simp add: exit_block_def stmt_insn_def BPF_STMT_def)
  qed
  ultimately show ?thesis using pos by (simp add: bpf_validate_def Let_def len list_all_iff)
qed

end
