(* ===== verification/Fcode_Correct.thy ===== *)
theory Fcode_Correct
  imports Fcode_Valid
begin

text \<open>
  The back end of the filter compiler end to end: a condition is closed by \<open>finish_parse\<close>, laid
  out by \<open>icode_to_fcode\<close>, and the program is run by \<open>bpf_filter_with_aux_data\<close>.
\<close>

lemma icode_to_fcode_run:
  assumes "closed_tree g i t" and "tree_ok t" and "long_ok g" and "max_space g (reach g i) < 2 ^ 31"
  shows "\<exists>code. icode_to_fcode i g = Some (Inr code) \<and> length code \<le> max_space g (reach g i) \<and> bpf_validate code \<and>
    (\<forall>e vm. \<exists>r. eval_tree e t vm = Inr r \<and> run_machine (bpf_step code e) (vm\<lparr>pc := 0\<rparr>) = Some r)"
  using assms
proof (induction "card (short_arms g)" arbitrary: g rule: less_induct)
  case (less g)
  note bounds = reach_bounds [OF less.prems(1)]
  from convert_pass_cases [OF less.prems] show ?case
  proof (elim disjE exE conjE)
    fix cv assume pass: "convert_pass i g = Some (Converted cv)" and sh: "same_shape g (cv_graph cv)"
      and len: "length (cv_code cv) = space g (reach g i)" and off: "b_offset (cv_graph cv ! i) = 0"
      and placed: "\<forall>j\<in>reach g i. placed (cv_graph cv) (cv_code cv) j"
      and filled: "\<forall>m<length (cv_code cv). \<exists>j\<in>reach g i. in_block (cv_graph cv) j m"
    have le: "length (cv_code cv) \<le> max_space g (reach g i)"
      using space_le_max [OF less.prems(3) bounds] len by simp
    have sb: "same_blocks g (cv_graph cv)"
      using same_shapeD [OF sh] same_shape_length [OF sh] by (simp add: same_blocks_def)
    have long: "long_ok (cv_graph cv)"
      using less.prems(3) same_shapeD [OF sh] same_shape_length [OF sh]
      by (simp add: long_ok_def b_long_def b_succ_def all_bool_eq)
    have "\<exists>r. eval_tree e t vm = Inr r \<and> run_machine (bpf_step (cv_code cv) e) (vm\<lparr>pc := 0\<rparr>) = Some r" for e vm
      using run_placed [OF same_blocks_tree [OF sb less.prems(1)] less.prems(2), of "cv_code cv" e vm]
        placed le less.prems(4) off by (simp add: same_blocks_reach [OF sb less.prems(1)])
    moreover have "bpf_validate (cv_code cv)"
      by (rule placed_validates [OF same_blocks_tree [OF sb less.prems(1)] less.prems(2)])
        (use placed filled le less.prems(4) off long in \<open>simp_all add: same_blocks_reach [OF sb less.prems(1)]\<close>)
    ultimately show ?case using pass le by (subst icode_to_fcode.simps) simp
  next
    fix g' assume pass: "convert_pass i g = Some (Retry g')" and "retry_of g i g'"
    note re = retry_measure [OF this(2) less.prems(3,1)]
    have reach: "reach g' i = reach g i" by (rule same_blocks_reach [OF re(1) less.prems(1)])
    have space: "max_space g' (reach g i) = max_space g (reach g i)"
      unfolding max_space_def using re(1) bounds by (intro sum.cong) (auto simp: same_blocks_def)
    from less.hyps [OF re(3) same_blocks_tree [OF re(1) less.prems(1)] less.prems(2) re(2)] less.prems(4)
    show ?case unfolding reach space using pass by (subst icode_to_fcode.simps) simp
  qed
qed

lemma reach_subset:
  assumes "i \<in> S" and "\<And>j arm k. j \<in> S \<Longrightarrow> b_succ (g ! j) arm = Some k \<Longrightarrow> k \<in> S"
  shows "reach g i \<subseteq> S"
proof
  fix j assume "j \<in> reach g i"
  then have "(i, j) \<in> (edges g)\<^sup>*" by (simp add: reach_def)
  then show "j \<in> S" using assms by induction (auto simp: edges_def)
qed

definition verdict :: "u32 \<Rightarrow> (bool \<times> bpf_vm) + bpf_outcome \<Rightarrow> bpf_outcome" where
  "verdict snaplen r = (case r of Inl (v, _) \<Rightarrow> Returned (if v then snaplen else 0) | Inr r \<Rightarrow> r)"

lemma decode_ret_stmt [simp]: "decode (stmt_code (ret_stmt v)) = Some Ret_K"
  using decode_label [of Ret_K] by (simp add: ret_stmt_def plain_stmt_def stmt_code_def)

lemma exec_ret_stmt [simp]: "exec_stmt e (ret_stmt v) vm = Inr (Returned v)"
proof -
  have "i_k (stmt_insn (ret_stmt v)) = v"
    by (simp add: stmt_insn_def BPF_STMT_def ret_stmt_def plain_stmt_def)
  then show ?thesis by (simp add: exec_stmt_def)
qed

lemma verdict_tree_ok: "tree_ok t \<Longrightarrow> tree_ok (verdict_tree snaplen t)"
  unfolding verdict_tree_def by (rule tree_ok_tsubst) auto

lemma eval_verdict_tree: "eval_tree e (verdict_tree snaplen t) vm = Inr (verdict snaplen (eval_tree e t vm))"
  by (simp add: verdict_tree_def eval_tsubst verdict_def split: sum.split)

lemma finish_and_convert:
  assumes rep: "represents g p t R" and ok: "tree_ok t" and "short_ok g" and small: "max_space g R + 6 < 2 ^ 31"
  obtains root g' code where "finish_branches snaplen p g = Some (root, g')"
    and "icode_to_fcode root g' = Some (Inr code)" and "length code < 2 ^ 31"
    and "bpf_validate code"
    and "\<And>e vm. run_machine (bpf_step code e) (vm\<lparr>pc := 0\<rparr>) = Some (verdict snaplen (eval_tree e t vm))"
proof -
  let ?root = "b_head (g ! p)" and ?n = "length g"
  let ?S = "insert ?n (insert (Suc ?n) R)"
  obtain g' where fin: "finish_branches snaplen p g = Some (?root, g')"
    and tree: "closed_tree g' ?root (verdict_tree snaplen t)" and len: "length g' = ?n + 2"
    and same: "\<And>i. i < ?n \<Longrightarrow> b_stmts (g' ! i) = b_stmts (g ! i) \<and>
      b_longjt (g' ! i) = b_longjt (g ! i) \<and> b_longjf (g' ! i) = b_longjf (g ! i)"
    and ret: "g' ! ?n = ret_block snaplen ?n" "g' ! Suc ?n = ret_block 0 (Suc ?n)"
    and root: "?root \<in> R"
    and succ: "\<And>i arm k. i \<in> R \<Longrightarrow> b_succ (g' ! i) arm = Some k \<Longrightarrow> k \<in> ?S"
    by (rule finish_branches_tree [OF rep, of snaplen]) blast
  have R: "R \<subseteq> {..<?n}" "finite R"
    using represents_bound [OF rep] finite_subset [OF _ finite_lessThan] by blast+
  have reach: "reach g' ?root \<subseteq> ?S"
    by (rule reach_subset) (use root succ ret in \<open>auto split: if_splits\<close>)
  have "max_space g' (reach g' ?root) \<le> max_space g' ?S"
    unfolding max_space_def using R reach by (intro sum_mono2) auto
  also have "\<dots> = max_space g R + 6"
  proof -
    have "max_space g' R = max_space g R" unfolding max_space_def using R same by (intro sum.cong) auto
    moreover have "?n \<notin> R" "Suc ?n \<notin> R" using R(1) by auto
    ultimately show ?thesis using R(2) ret by (simp add: max_space_def slength_def)
  qed
  finally have le: "max_space g' (reach g' ?root) < 2 ^ 31" using small by linarith
  have "b_long (g' ! i) arm = 0" if "i < length g'" for i arm
  proof (cases "i < ?n")
    case True
    with assms(3) same [OF True] show ?thesis by (auto simp: short_ok_def b_long_def split: if_splits)
  next
    case False
    then have "i = ?n \<or> i = Suc ?n" using that len by linarith
    then show ?thesis using ret by (auto simp: b_long_def ret_block_def fresh_block_def)
  qed
  then have long: "long_ok g'" by (simp add: long_ok_def)
  from icode_to_fcode_run [OF tree verdict_tree_ok [OF ok] long le]
  obtain code where "icode_to_fcode ?root g' = Some (Inr code)" "length code < 2 ^ 31" "bpf_validate code"
    "\<And>e vm. run_machine (bpf_step code e) (vm\<lparr>pc := 0\<rparr>) = Some (verdict snaplen (eval_tree e t vm))"
    using le by (force simp: eval_verdict_tree)
  with fin show ?thesis by (rule that)
qed

end
