(* ===== verification/Gencode_Logic.thy ===== *)
theory Gencode_Logic
  imports Gencode_State Fcode_Correct
begin

unbundle bit_operations_syntax

text \<open>
  How the code generator is specified. What a condition means is a \<open>test\<close>, a function of the
  packet; a denotation gives a test or the error of \<open>bpf_error\<close>, over the part of the
  generator's state that can be told from outside (\<open>gstate\<close>). \<open>builds k m d\<close> says that the
  generator function \<open>m\<close> implements the denotation \<open>d\<close>: it fails exactly when \<open>d\<close> does and with
  the same error, and otherwise adds blocks that represent a tree deciding the test, at most \<open>k\<close>
  instructions, and leaves every earlier block alone.
\<close>

section \<open>Tests\<close>

text \<open>
  What is read from a packet, or how the filter ends when it cannot be read: a field beyond the
  captured bytes rejects the packet (\<open>Inr (Returned 0)\<close>).
\<close>

type_synonym 'a look = "bpf_env \<Rightarrow> 'a + bpf_outcome"
type_synonym test = "bool look"

definition look_then :: "'a look \<Rightarrow> ('a \<Rightarrow> 'b look) \<Rightarrow> 'b look" where
  "look_then p q e = (case p e of Inr r \<Rightarrow> Inr r | Inl a \<Rightarrow> q a e)"

definition and_test :: "test \<Rightarrow> test \<Rightarrow> test" where
  "and_test p q = look_then p (\<lambda>v. if v then q else (\<lambda>e. Inl False))"

definition or_test :: "test \<Rightarrow> test \<Rightarrow> test" where
  "or_test p q = look_then p (\<lambda>v. if v then (\<lambda>e. Inl True) else q)"

definition not_test :: "test \<Rightarrow> test" where
  "not_test p = look_then p (\<lambda>v e. Inl (\<not> v))"

lemma test_simps:
  "and_test p q e = (case p e of Inr r \<Rightarrow> Inr r | Inl v \<Rightarrow> if v then q e else Inl False)"
  "or_test p q e = (case p e of Inr r \<Rightarrow> Inr r | Inl v \<Rightarrow> if v then Inl True else q e)"
  "not_test p e = map_sum Not id (p e)"
  by (simp_all add: and_test_def or_test_def not_test_def look_then_def split: sum.split)

definition vm_wf :: "bpf_vm \<Rightarrow> bool" where
  "vm_wf vm \<longleftrightarrow> length (scratch vm) = BPF_MEMWORDS"

definition decides :: "dtree \<Rightarrow> test \<Rightarrow> bool" where
  "decides t p \<longleftrightarrow> tree_ok t \<and> (\<forall>e vm. buffer_ok e \<and> vm_wf vm \<longrightarrow>
     (case p e of
        Inr r \<Rightarrow> eval_tree e t vm = Inr r
      | Inl v \<Rightarrow> \<exists>vm'. eval_tree e t vm = Inl (v, vm') \<and> vm_wf vm'))"

lemma decidesD:
  assumes "decides t p" and "buffer_ok e" and "vm_wf vm"
  obtains r where "p e = Inr r" "eval_tree e t vm = Inr r"
    | v vm' where "p e = Inl v" "eval_tree e t vm = Inl (v, vm')" "vm_wf vm'"
proof -
  have "case p e of Inr r \<Rightarrow> eval_tree e t vm = Inr r
      | Inl v \<Rightarrow> \<exists>vm'. eval_tree e t vm = Inl (v, vm') \<and> vm_wf vm'"
    using assms by (simp add: decides_def)
  with that show ?thesis by (cases "p e") auto
qed

lemma decides_tsubst:
  assumes t: "decides t p" and \<sigma>: "\<And>v. decides (\<sigma> v) (q v)"
  shows "decides (tsubst \<sigma> t) (look_then p q)"
proof -
  have "tree_ok (tsubst \<sigma> t)" using t \<sigma> by (intro tree_ok_tsubst) (auto simp: decides_def)
  moreover have "case look_then p q e of
      Inr r \<Rightarrow> eval_tree e (tsubst \<sigma> t) vm = Inr r
    | Inl v \<Rightarrow> \<exists>vm'. eval_tree e (tsubst \<sigma> t) vm = Inl (v, vm') \<and> vm_wf vm'"
    if "buffer_ok e" "vm_wf vm" for e vm
  proof (rule decidesD [OF t that])
    fix r assume "p e = Inr r" "eval_tree e t vm = Inr r"
    then show ?thesis by (simp add: eval_tsubst look_then_def)
  next
    fix v vm' assume 1: "p e = Inl v" "eval_tree e t vm = Inl (v, vm')" "vm_wf vm'"
    show ?thesis
      by (rule decidesD [OF \<sigma> that(1) 1(3), of v]) (use 1 in \<open>simp_all add: eval_tsubst look_then_def\<close>)
  qed
  ultimately show ?thesis by (simp add: decides_def)
qed

lemma decides_Exit: "decides (Exit v) (\<lambda>e. Inl v)"
  by (simp add: decides_def)

lemma decides_connectives:
  assumes "decides t p" and "decides u q"
  shows "decides (and_tree t u) (and_test p q)" "decides (or_tree t u) (or_test p q)"
    "decides (not_tree t) (not_test p)"
  unfolding and_test_def or_test_def not_test_def
  using assms decides_Exit by (auto intro!: decides_tsubst)

section \<open>What list surgery keeps\<close>

definition keeps :: "graph \<Rightarrow> graph \<Rightarrow> bool" where
  "keeps g g' \<longleftrightarrow> length g' = length g \<and> (\<forall>i<length g. b_stmts (g' ! i) = b_stmts (g ! i) \<and>
     b_longjt (g' ! i) = b_longjt (g ! i) \<and> b_longjf (g' ! i) = b_longjf (g ! i))"

lemma keeps_refl [simp]: "keeps g g"
  by (simp add: keeps_def)

lemma keeps_trans: "keeps f g \<Longrightarrow> keeps g h \<Longrightarrow> keeps f h"
  by (simp add: keeps_def)

lemma keeps_flip: "keeps g (flip_sense i g)" "keeps g (set_head i h g)" "keeps g (set_succ i arm v g)"
  by (cases "i < length g";
      auto simp: keeps_def flip_sense_def set_head_def set_succ_def nth_list_update list_update_beyond)+

lemma keeps_backpatch: "backpatch lst t g = Some g' \<Longrightarrow> keeps g g'"
  by (rule backpatch.raw_induct [of "\<lambda>_ _ g g'. keeps g g'"])
    (force simp: Let_def split: option.splits if_splits intro: keeps_trans [OF keeps_flip(3)])

lemma keeps_merge: "merge i j g = Some g' \<Longrightarrow> keeps g g'"
  by (rule merge.raw_induct [of "\<lambda>_ _ g g'. keeps g g'"])
    (auto simp: Let_def keeps_flip split: option.splits if_splits)

lemma keeps_gen_and: "gen_and i j g = Some g' \<Longrightarrow> keeps g g'"
  by (clarsimp simp: gen_and_def Let_def bind_eq_Some_conv)
    (meson keeps_backpatch keeps_merge keeps_flip keeps_trans)

lemma keeps_gen_or: "gen_or i j g = Some g' \<Longrightarrow> keeps g g'"
  by (clarsimp simp: gen_or_def Let_def bind_eq_Some_conv)
    (meson keeps_backpatch keeps_merge keeps_flip keeps_trans)

lemma keeps_gen_not: "keeps g (gen_not i g)"
  by (simp add: gen_not_def keeps_flip)

lemma keeps_short_ok: "keeps g g' \<Longrightarrow> short_ok g \<Longrightarrow> short_ok g'"
  by (simp add: keeps_def short_ok_def b_long_def all_bool_eq)

lemma keeps_max_space: "keeps g g' \<Longrightarrow> R \<subseteq> {..<length g} \<Longrightarrow> max_space g' R = max_space g R"
  unfolding max_space_def by (intro sum.cong) (auto simp: keeps_def)

lemma max_space_union:
  "R \<inter> S = {} \<Longrightarrow> finite R \<Longrightarrow> finite S \<Longrightarrow> max_space g (R \<union> S) = max_space g R + max_space g S"
  unfolding max_space_def by (simp add: sum.union_disjoint)

section \<open>Simulation\<close>

record gstate =
  g_layout :: layout
  g_netmask :: u32
  g_snaplen :: u32
  g_free :: nat

type_synonym 'a den = "(gstate, 'a) gen_in"

definition free_count :: "bool list \<Rightarrow> nat" where
  "free_count used = length (filter Not used)"

definition abs_gen :: "cstate \<Rightarrow> gstate" where
  "abs_gen s = \<lparr>g_layout = cs_layout s, g_netmask = cs_netmask s, g_snaplen = cs_snaplen s,
     g_free = free_count (cs_regused s)\<rparr>"

text \<open>
  A layout all of whose headers have a fixed place: no length has to be computed at run time.
  (Inside Geneve every header is at a place computed from the options' length, and behind a
  radio header or inside 802.11 the first block computes the places.)
\<close>

definition flat :: "layout \<Rightarrow> bool" where
  "flat l \<longleftrightarrow> \<not> is_variable (off_linkhdr l) \<and> \<not> is_variable (off_prevlinkhdr l) \<and>
     \<not> is_variable (off_linkpl l) \<and> \<not> is_variable (off_linktype l) \<and> \<not> is_geneve l \<and>
     outermostlinktype l \<notin> {DLT_IEEE802_11, DLT_PRISM_HEADER, DLT_IEEE802_11_RADIO_AVS, DLT_IEEE802_11_RADIO, DLT_PPI} \<and>
     linktype l \<noteq> DLT_PPI \<and> prevlinktype l \<noteq> DLT_PPI"

definition gen_ok :: "cstate \<Rightarrow> bool" where
  "gen_ok s \<longleftrightarrow> flat (cs_layout s) \<and> short_ok (cs_graph s) \<and>
     length (cs_regused s) = BPF_MEMWORDS \<and> cs_curreg s < BPF_MEMWORDS"

definition grows :: "cstate \<Rightarrow> cstate \<Rightarrow> bool" where
  "grows s s' \<longleftrightarrow> cs_snaplen s' = cs_snaplen s \<and> length (cs_graph s) \<le> length (cs_graph s') \<and>
     (\<forall>i<length (cs_graph s). cs_graph s' ! i = cs_graph s ! i)"

lemma grows_refl [simp]: "grows s s"
  by (simp add: grows_def)

lemma grows_trans: "grows s s' \<Longrightarrow> grows s' s'' \<Longrightarrow> grows s s''"
  by (simp add: grows_def)

definition sim :: "(cstate \<Rightarrow> cstate \<Rightarrow> 'a \<Rightarrow> 'b \<Rightarrow> bool) \<Rightarrow> 'a gen \<Rightarrow> 'b den \<Rightarrow> bool" where
  "sim V m d \<longleftrightarrow> (\<forall>s. gen_ok s \<longrightarrow>
     (case d (abs_gen s) of
        Inl err \<Rightarrow> m s = Inl err
      | Inr (q, a) \<Rightarrow> \<exists>r s'. m s = Inr (r, s') \<and> abs_gen s' = a \<and> gen_ok s' \<and> grows s s' \<and> V s s' r q))"

lemma simI:
  assumes "\<And>s err. gen_ok s \<Longrightarrow> d (abs_gen s) = Inl err \<Longrightarrow> m s = Inl err"
    and "\<And>s q a. gen_ok s \<Longrightarrow> d (abs_gen s) = Inr (q, a) \<Longrightarrow>
      \<exists>r s'. m s = Inr (r, s') \<and> abs_gen s' = a \<and> gen_ok s' \<and> grows s s' \<and> V s s' r q"
  shows "sim V m d"
  using assms by (auto simp: sim_def split: sum.split)

lemma simE:
  assumes "sim V m d" and "gen_ok s"
  obtains err where "d (abs_gen s) = Inl err" "m s = Inl err"
    | r q s' where "d (abs_gen s) = Inr (q, abs_gen s')" "m s = Inr (r, s')" "gen_ok s'" "grows s s'" "V s s' r q"
proof -
  have "case d (abs_gen s) of
        Inl err \<Rightarrow> m s = Inl err
      | Inr (q, a) \<Rightarrow> \<exists>r s'. m s = Inr (r, s') \<and> abs_gen s' = a \<and> gen_ok s' \<and> grows s s' \<and> V s s' r q"
    using assms by (simp add: sim_def)
  with that show ?thesis by (auto split: sum.splits)
qed

lemma sim_mono: "sim V m d \<Longrightarrow> (\<And>s s' r q. V s s' r q \<Longrightarrow> W s s' r q) \<Longrightarrow> sim W m d"
  by (fastforce simp: sim_def split: sum.splits)

text \<open>Sequencing; the value of the second step may depend on the states around the first.\<close>

lemma sim_bind:
  assumes m: "sim V m d" and f: "\<And>r q. sim (U r q) (f r) (h q)"
    and V: "\<And>s s' s'' r q x y. V s s' r q \<Longrightarrow> U r q s' s'' x y \<Longrightarrow> grows s s' \<Longrightarrow> grows s' s'' \<Longrightarrow>
      gen_ok s' \<Longrightarrow> W s s'' x y"
  shows "sim W (gbind m f) (gbind d h)"
proof (rule simI)
  fix s err assume s: "gen_ok s" and err: "gbind d h (abs_gen s) = Inl err"
  show "gbind m f s = Inl err"
  proof (rule simE [OF m s])
    fix r q s' assume 1: "d (abs_gen s) = Inr (q, abs_gen s')" "m s = Inr (r, s')" "gen_ok s'"
    show ?thesis by (rule simE [OF f [of r q] 1(3)]) (use 1 err in \<open>auto simp: gbind_def\<close>)
  qed (use err in \<open>simp add: gbind_def\<close>)
next
  fix s q a assume s: "gen_ok s" and ok: "gbind d h (abs_gen s) = Inr (q, a)"
  show "\<exists>r s'. gbind m f s = Inr (r, s') \<and> abs_gen s' = a \<and> gen_ok s' \<and> grows s s' \<and> W s s' r q"
  proof (rule simE [OF m s])
    fix r p s' assume 1: "d (abs_gen s) = Inr (p, abs_gen s')" "m s = Inr (r, s')" "gen_ok s'" "grows s s'" "V s s' r p"
    show ?thesis
    proof (rule simE [OF f [of r p] 1(3)])
      fix x y s'' assume 2: "h p (abs_gen s') = Inr (y, abs_gen s'')" "f r s' = Inr (x, s'')" "gen_ok s''"
        "grows s' s''" "U r p s' s'' x y"
      with 1 ok have "gbind m f s = Inr (x, s'')" "y = q" "abs_gen s'' = a" by (auto simp: gbind_def)
      with 2 grows_trans [OF 1(4) 2(4)] V [OF 1(5) 2(5) 1(4) 2(4) 1(3)] show ?thesis by blast
    qed (use 1 ok in \<open>simp add: gbind_def\<close>)
  qed (use ok in \<open>simp add: gbind_def\<close>)
qed

lemma sim_get:
  assumes "\<And>s. f s = f' (abs_gen s)" and "\<And>x. sim V (m x) (d x)"
  shows "sim V (gbind (gget f) m) (gbind (gget f') d)"
proof -
  have 1: "gbind (gget f) m s = m (f s) s" "gbind (gget f') d (abs_gen s) = d (f s) (abs_gen s)" for s
    using assms(1) [of s] by (simp_all add: gbind_def gget_def)
  have "case d (f s) (abs_gen s) of Inl err \<Rightarrow> m (f s) s = Inl err
      | Inr (q, a) \<Rightarrow> \<exists>r s'. m (f s) s = Inr (r, s') \<and> abs_gen s' = a \<and> gen_ok s' \<and> grows s s' \<and> V s s' r q"
    if "gen_ok s" for s
    using assms(2) [of "f s"] that by (simp add: sim_def)
  then show ?thesis unfolding sim_def 1 by blast
qed

lemma sim_fail: "sim V (gfail err) (gfail err)"
  by (simp add: sim_def gfail_def)

lemma sim_ret: "(\<And>s. gen_ok s \<Longrightarrow> V s s r q) \<Longrightarrow> sim V (gret r) (gret q)"
  by (simp add: sim_def gret_def)

lemma sim_if: "(c \<Longrightarrow> sim V m d) \<Longrightarrow> (\<not> c \<Longrightarrow> sim V m' d') \<Longrightarrow> sim V (if c then m else m') (if c then d else d')"
  by simp

section \<open>Conditions\<close>

definition built :: "nat \<Rightarrow> cstate \<Rightarrow> cstate \<Rightarrow> nat \<Rightarrow> test \<Rightarrow> bool" where
  "built k s s' b p \<longleftrightarrow> cs_regused s' = cs_regused s \<and>
     (\<exists>t R. represents (cs_graph s') b t R \<and> R \<subseteq> {length (cs_graph s)..<length (cs_graph s')} \<and>
       decides t p \<and> max_space (cs_graph s') R \<le> k)"

definition builds :: "nat \<Rightarrow> nat gen \<Rightarrow> test den \<Rightarrow> bool" where
  "builds k = sim (built k)"

lemma builtE:
  assumes "built k s s' b p"
  obtains t R where "represents (cs_graph s') b t R" "R \<subseteq> {length (cs_graph s)..<length (cs_graph s')}"
    "decides t p" "max_space (cs_graph s') R \<le> k" "cs_regused s' = cs_regused s"
  using assms by (auto simp: built_def)

lemma builtI:
  "represents (cs_graph s') b t R \<Longrightarrow> R \<subseteq> {length (cs_graph s)..<length (cs_graph s')} \<Longrightarrow>
     decides t p \<Longrightarrow> max_space (cs_graph s') R \<le> k \<Longrightarrow> cs_regused s' = cs_regused s \<Longrightarrow> built k s s' b p"
  by (auto simp: built_def)

lemma built_mono: "built k s s' b p \<Longrightarrow> k \<le> k' \<Longrightarrow> built k' s s' b p"
  by (fastforce simp: built_def)

lemma builds_mono: "builds k m d \<Longrightarrow> k \<le> k' \<Longrightarrow> builds k' m d"
  unfolding builds_def by (erule sim_mono) (auto intro: built_mono)

lemma built_later:
  assumes "grows s s1" and "cs_regused s1 = cs_regused s" and "built k s1 s2 b p"
  shows "built k s s2 b p"
proof -
  from assms(3) obtain t R where 1: "represents (cs_graph s2) b t R"
    "R \<subseteq> {length (cs_graph s1)..<length (cs_graph s2)}" "decides t p" "max_space (cs_graph s2) R \<le> k"
    "cs_regused s2 = cs_regused s1" by (rule builtE)
  moreover have "R \<subseteq> {length (cs_graph s)..<length (cs_graph s2)}" using 1(2) assms(1) by (auto simp: grows_def)
  ultimately show ?thesis using assms(2) by (intro builtI) auto
qed

text \<open>An operation on the graph that makes one condition of two.\<close>

definition joins :: "(nat \<Rightarrow> nat \<Rightarrow> graph \<Rightarrow> graph option) \<Rightarrow> (nat \<Rightarrow> nat \<Rightarrow> nat) \<Rightarrow>
    (test \<Rightarrow> test \<Rightarrow> test) \<Rightarrow> bool" where
  "joins opn res F \<longleftrightarrow> (\<forall>g b0 t0 R0 b1 t1 R1 p q.
     represents g b0 t0 R0 \<and> represents g b1 t1 R1 \<and> R0 \<inter> R1 = {} \<and> decides t0 p \<and> decides t1 q \<longrightarrow>
     (\<exists>g' t. opn b0 b1 g = Some g' \<and> keeps g g' \<and> (\<forall>i<length g. i \<notin> R0 \<union> R1 \<longrightarrow> g' ! i = g ! i) \<and>
       represents g' (res b0 b1) t (R0 \<union> R1) \<and> decides t (F p q)))"

lemma joins_and: "joins gen_and (\<lambda>b0 b1. b1) and_test"
  unfolding joins_def
proof (intro allI impI, elim conjE)
  fix g b0 t0 R0 b1 t1 R1 p q
  assume 1: "represents g b0 t0 R0" "represents g b1 t1 R1" "R0 \<inter> R1 = {}" "decides t0 p" "decides t1 q"
  obtain g' where "gen_and b0 b1 g = Some g'" "represents g' b1 (and_tree t0 t1) (R0 \<union> R1)"
    "\<forall>i<length g. i \<notin> R0 \<union> R1 \<longrightarrow> g' ! i = g ! i"
    by (rule gen_and_represents [OF 1(1-3)]) blast
  then show "\<exists>g' t. gen_and b0 b1 g = Some g' \<and> keeps g g' \<and>
      (\<forall>i<length g. i \<notin> R0 \<union> R1 \<longrightarrow> g' ! i = g ! i) \<and>
      represents g' b1 t (R0 \<union> R1) \<and> decides t (and_test p q)"
    using decides_connectives(1) [OF 1(4,5)] keeps_gen_and by blast
qed

lemma joins_or: "joins gen_or (\<lambda>b0 b1. b1) or_test"
  unfolding joins_def
proof (intro allI impI, elim conjE)
  fix g b0 t0 R0 b1 t1 R1 p q
  assume 1: "represents g b0 t0 R0" "represents g b1 t1 R1" "R0 \<inter> R1 = {}" "decides t0 p" "decides t1 q"
  obtain g' where "gen_or b0 b1 g = Some g'" "represents g' b1 (or_tree t0 t1) (R0 \<union> R1)"
    "\<forall>i<length g. i \<notin> R0 \<union> R1 \<longrightarrow> g' ! i = g ! i"
    by (rule gen_or_represents [OF 1(1-3)]) blast
  then show "\<exists>g' t. gen_or b0 b1 g = Some g' \<and> keeps g g' \<and>
      (\<forall>i<length g. i \<notin> R0 \<union> R1 \<longrightarrow> g' ! i = g ! i) \<and>
      represents g' b1 t (R0 \<union> R1) \<and> decides t (or_test p q)"
    using decides_connectives(2) [OF 1(4,5)] keeps_gen_or by blast
qed

lemma joins_flip: "joins opn res F \<Longrightarrow> joins (\<lambda>x y. opn y x) (\<lambda>x y. res y x) (\<lambda>p q. F q p)"
  unfolding joins_def by (intro allI impI) (metis Int_commute Un_commute)

lemma join_built:
  assumes j: "joins opn res F" and s2: "gen_ok s2"
    and b0: "built k0 s s1 b0 p" "grows s s1" and b1: "built k1 s1 s2 b1 q" "grows s1 s2"
  obtains s3 where "on_graph (opn b0 b1) s2 = Inr ((), s3)" "abs_gen s3 = abs_gen s2" "gen_ok s3"
    "grows s s3" "built (k0 + k1) s s3 (res b0 b1) (F p q)"
proof -
  let ?g1 = "cs_graph s1" and ?g2 = "cs_graph s2"
  from b0(1) obtain t0 R0 where 0: "represents ?g1 b0 t0 R0" "R0 \<subseteq> {length (cs_graph s)..<length ?g1}"
    "decides t0 p" "max_space ?g1 R0 \<le> k0" "cs_regused s1 = cs_regused s" by (rule builtE)
  from b1(1) obtain t1 R1 where 1: "represents ?g2 b1 t1 R1" "R1 \<subseteq> {length ?g1..<length ?g2}"
    "decides t1 q" "max_space ?g2 R1 \<le> k1" "cs_regused s2 = cs_regused s1" by (rule builtE)
  have same: "\<And>i. i \<in> R0 \<Longrightarrow> i < length ?g2 \<and> ?g2 ! i = ?g1 ! i" using 0(2) b1(2) by (auto simp: grows_def)
  have rep0: "represents ?g2 b0 t0 R0" by (rule represents_cong [OF 0(1) same])
  have disj: "R0 \<inter> R1 = {}" using 0(2) 1(2) by (fastforce simp: subset_iff)
  from j rep0 1(1) disj 0(3) 1(3) obtain g' t where g': "opn b0 b1 ?g2 = Some g'" "keeps ?g2 g'"
    "\<forall>i<length ?g2. i \<notin> R0 \<union> R1 \<longrightarrow> g' ! i = ?g2 ! i"
    "represents g' (res b0 b1) t (R0 \<union> R1)" "decides t (F p q)" unfolding joins_def by blast
  have fin: "finite R0" "finite R1" using 0(2) 1(2) by (auto intro: finite_subset)
  have sub: "R0 \<union> R1 \<subseteq> {..<length ?g2}" using same 1(2) by auto
  have "max_space ?g2 R0 = max_space ?g1 R0" unfolding max_space_def by (intro sum.cong) (auto simp: same)
  then have "max_space g' (R0 \<union> R1) \<le> k0 + k1"
    unfolding keeps_max_space [OF g'(2) sub] using 0(4) 1(4) max_space_union [OF disj fin, of ?g2] by linarith
  moreover have "R0 \<union> R1 \<subseteq> {length (cs_graph s)..<length g'}"
    using 0(2) 1(2) b0(2) b1(2) g'(2) by (auto simp: grows_def keeps_def)
  ultimately have "built (k0 + k1) s (s2\<lparr>cs_graph := g'\<rparr>) (res b0 b1) (F p q)"
    using g'(4,5) 0(5) 1(5) by (intro builtI) auto
  moreover have "grows s (s2\<lparr>cs_graph := g'\<rparr>)"
    unfolding grows_def
  proof (intro conjI allI impI)
    show "cs_snaplen (s2\<lparr>cs_graph := g'\<rparr>) = cs_snaplen s" using b0(2) b1(2) by (simp add: grows_def)
    show "length (cs_graph s) \<le> length (cs_graph (s2\<lparr>cs_graph := g'\<rparr>))"
      using b0(2) b1(2) g'(2) by (simp add: grows_def keeps_def)
    fix i assume i: "i < length (cs_graph s)"
    then have "i \<notin> R0 \<union> R1" using 0(2) 1(2) b0(2) by (auto simp: grows_def)
    then show "cs_graph (s2\<lparr>cs_graph := g'\<rparr>) ! i = cs_graph s ! i"
      using i g'(3) b0(2) b1(2) by (simp add: grows_def)
  qed
  moreover have "gen_ok (s2\<lparr>cs_graph := g'\<rparr>)"
    using s2 keeps_short_ok [OF g'(2)] by (simp add: gen_ok_def)
  ultimately show ?thesis using g'(1) by (intro that [of "s2\<lparr>cs_graph := g'\<rparr>"]) (simp_all add: on_graph_def abs_gen_def)
qed

lemma builds_join:
  assumes j: "joins opn res F" and m0: "builds k0 m0 d0" and m1: "builds k1 m1 d1"
  shows "builds (k0 + k1)
    (gbind m0 (\<lambda>b0. gbind m1 (\<lambda>b1. gbind (on_graph (opn b0 b1)) (\<lambda>_. gret (res b0 b1)))))
    (gbind d0 (\<lambda>p. gbind d1 (\<lambda>q. gret (F p q))))"
  (is "builds _ ?m ?d")
  unfolding builds_def sim_def
proof (intro allI impI)
  fix s assume s: "gen_ok s"
  show "case ?d (abs_gen s) of Inl err \<Rightarrow> ?m s = Inl err
    | Inr (q, a) \<Rightarrow> \<exists>r s'. ?m s = Inr (r, s') \<and> abs_gen s' = a \<and> gen_ok s' \<and> grows s s' \<and> built (k0 + k1) s s' r q"
  proof (rule simE [OF m0 [unfolded builds_def] s])
    fix b0 p s1 assume 0: "d0 (abs_gen s) = Inr (p, abs_gen s1)" "m0 s = Inr (b0, s1)" "gen_ok s1"
      "grows s s1" "built k0 s s1 b0 p"
    show ?thesis
    proof (rule simE [OF m1 [unfolded builds_def] 0(3)])
      fix b1 q s2 assume 1: "d1 (abs_gen s1) = Inr (q, abs_gen s2)" "m1 s1 = Inr (b1, s2)" "gen_ok s2"
        "grows s1 s2" "built k1 s1 s2 b1 q"
      show ?thesis
        by (rule join_built [OF j 1(3) 0(5,4) 1(5,4)]) (use 0(1,2) 1(1,2) in \<open>simp add: gbind_def gret_def\<close>)
    qed (use 0 in \<open>simp add: gbind_def\<close>)
  qed (simp add: gbind_def)
qed

text \<open>The rules for the generator's ways of joining conditions.\<close>

named_theorems builds

definition den2 :: "(test \<Rightarrow> test \<Rightarrow> test) \<Rightarrow> test den \<Rightarrow> test den \<Rightarrow> test den" where
  "den2 F d0 d1 = gbind d0 (\<lambda>p. gbind d1 (\<lambda>q. gret (F p q)))"

definition den_not :: "test den \<Rightarrow> test den" where
  "den_not d = gbind d (\<lambda>p. gret (not_test p))"

abbreviation den_and :: "test den \<Rightarrow> test den \<Rightarrow> test den" where "den_and \<equiv> den2 and_test"
abbreviation den_or :: "test den \<Rightarrow> test den \<Rightarrow> test den" where "den_or \<equiv> den2 or_test"

text \<open>The second condition is the one evaluated first.\<close>

abbreviation den_and_before :: "test den \<Rightarrow> test den \<Rightarrow> test den" where
  "den_and_before \<equiv> den2 (\<lambda>p q. and_test q p)"

abbreviation den_or_before :: "test den \<Rightarrow> test den \<Rightarrow> test den" where
  "den_or_before \<equiv> den2 (\<lambda>p q. or_test q p)"

lemma builds_pairs [builds]:
  assumes "builds k0 m0 d0" and "builds k1 m1 d1"
  shows "builds (k0 + k1) (both_and m0 m1) (den_and d0 d1)" "builds (k0 + k1) (both_or m0 m1) (den_or d0 d1)"
    "builds (k0 + k1) (and_before m0 m1) (den_and_before d0 d1)"
    "builds (k0 + k1) (or_before m0 m1) (den_or_before d0 d1)"
  unfolding both_and_def both_or_def and_before_def or_before_def gen_and_m_def gen_or_m_def den2_def
  by (rule builds_join [OF _ assms] joins_and joins_or joins_flip)+

lemma builds_negated [builds]:
  assumes "builds k m d"
  shows "builds k (negated m) (den_not d)"
  unfolding negated_def den_not_def builds_def
proof (rule simI)
  fix s err assume "gen_ok s" "gbind d (\<lambda>p. gret (not_test p)) (abs_gen s) = Inl err"
  then show "gbind m (\<lambda>b. gbind (gen_not_m b) (\<lambda>_. gret b)) s = Inl err"
    by (auto intro: simE [OF assms [unfolded builds_def], of s] simp: gbind_def gret_def)
next
  fix s q a assume s: "gen_ok s" and d: "gbind d (\<lambda>p. gret (not_test p)) (abs_gen s) = Inr (q, a)"
  show "\<exists>r s'. gbind m (\<lambda>b. gbind (gen_not_m b) (\<lambda>_. gret b)) s = Inr (r, s') \<and> abs_gen s' = a \<and>
      gen_ok s' \<and> grows s s' \<and> built k s s' r q"
  proof (rule simE [OF assms [unfolded builds_def] s])
    fix b p s1 assume 0: "d (abs_gen s) = Inr (p, abs_gen s1)" "m s = Inr (b, s1)" "gen_ok s1"
      "grows s s1" "built k s s1 b p"
    from 0(5) obtain t R where 1: "represents (cs_graph s1) b t R"
      "R \<subseteq> {length (cs_graph s)..<length (cs_graph s1)}" "decides t p" "max_space (cs_graph s1) R \<le> k"
      "cs_regused s1 = cs_regused s" by (rule builtE)
    let ?s = "s1\<lparr>cs_graph := gen_not b (cs_graph s1)\<rparr>"
    have sub: "R \<subseteq> {..<length (cs_graph s1)}" using 1(2) by auto
    have "built k s ?s b (not_test p)"
      using gen_not_represents [OF 1(1)] 1(2,4,5) decides_connectives(3) [OF 1(3,3)]
        keeps_max_space [OF keeps_gen_not sub, of b]
      by (intro builtI) (auto simp: gen_not_def)
    moreover have "b \<ge> length (cs_graph s)" using represents_bound [OF 1(1)] 1(2) by auto
    then have "grows s ?s" using 0(4) by (auto simp: grows_def gen_not_def flip_sense_def)
    moreover have "gen_ok ?s" using 0(3) keeps_short_ok [OF keeps_gen_not] by (simp add: gen_ok_def)
    ultimately show ?thesis using d 0(1,2)
      by (auto simp: gbind_def gret_def gen_not_m_def on_graph_def abs_gen_def intro!: exI [of _ ?s])
  qed (use d in \<open>simp add: gbind_def\<close>)
qed

text \<open>A check that may be missing.\<close>

definition built_opt :: "nat \<Rightarrow> cstate \<Rightarrow> cstate \<Rightarrow> nat option \<Rightarrow> test option \<Rightarrow> bool" where
  "built_opt k s s' b p \<longleftrightarrow> rel_option (built k s s') b p \<and> (b = None \<longrightarrow> cs_regused s' = cs_regused s)"

definition builds_opt :: "nat \<Rightarrow> nat option gen \<Rightarrow> test option den \<Rightarrow> bool" where
  "builds_opt k = sim (built_opt k)"

definition den_opt_and :: "test option den \<Rightarrow> test den \<Rightarrow> test den" where
  "den_opt_and d0 d1 =
     gbind d0 (\<lambda>p. gbind d1 (\<lambda>q. gret (case p of None \<Rightarrow> q | Some p \<Rightarrow> and_test p q)))"

lemma builds_opt_and [builds]:
  assumes m0: "builds_opt k0 m0 d0" and m1: "builds k1 m1 d1"
  shows "builds (k0 + k1) (opt_and m0 m1) (den_opt_and d0 d1)"
  unfolding builds_def sim_def
proof (intro allI impI)
  fix s assume s: "gen_ok s"
  let ?P = "\<lambda>q a r s'. opt_and m0 m1 s = Inr (r, s') \<and> abs_gen s' = a \<and> gen_ok s' \<and> grows s s' \<and>
    built (k0 + k1) s s' r q"
  show "case den_opt_and d0 d1 (abs_gen s) of Inl err \<Rightarrow> opt_and m0 m1 s = Inl err
    | Inr (q, a) \<Rightarrow> \<exists>r s'. ?P q a r s'"
  proof (rule simE [OF m0 [unfolded builds_opt_def] s])
    fix b0 p s1 assume 0: "d0 (abs_gen s) = Inr (p, abs_gen s1)" "m0 s = Inr (b0, s1)" "gen_ok s1"
      "grows s s1" "built_opt k0 s s1 b0 p"
    show ?thesis
    proof (rule simE [OF m1 [unfolded builds_def] 0(3)])
      fix b1 q s2 assume 1: "d1 (abs_gen s1) = Inr (q, abs_gen s2)" "m1 s1 = Inr (b1, s2)" "gen_ok s2"
        "grows s1 s2" "built k1 s1 s2 b1 q"
      show ?thesis
      proof (cases b0)
        case None
        with 0(5) have p: "p = None" "cs_regused s1 = cs_regused s" by (auto simp: built_opt_def)
        have "built (k0 + k1) s s2 b1 q" by (rule built_mono [OF built_later [OF 0(4) p(2) 1(5)]]) simp
        then have "?P q (abs_gen s2) b1 s2"
          using 0(2,4) 1(2-4) None by (auto simp: opt_and_def gbind_def gret_def intro: grows_trans)
        then show ?thesis using 0(1) 1(1) p(1) by (auto simp: den_opt_and_def gbind_def gret_def)
      next
        case (Some c0)
        with 0(5) obtain p0 where p: "p = Some p0" "built k0 s s1 c0 p0" by (cases p) (auto simp: built_opt_def)
        obtain s3 where "on_graph (gen_and c0 b1) s2 = Inr ((), s3)" "abs_gen s3 = abs_gen s2" "gen_ok s3"
          "grows s s3" "built (k0 + k1) s s3 b1 (and_test p0 q)"
          by (rule join_built [OF joins_and 1(3) p(2) 0(4) 1(5,4)])
        then have "?P (and_test p0 q) (abs_gen s2) b1 s3"
          using 0(2) 1(2) Some by (simp add: opt_and_def gbind_def gret_def gen_and_m_def)
        then show ?thesis using 0(1) 1(1) p(1) by (auto simp: den_opt_and_def gbind_def gret_def)
      qed
    qed (use 0 in \<open>simp add: gbind_def opt_and_def den_opt_and_def\<close>)
  qed (simp add: gbind_def opt_and_def den_opt_and_def)
qed

lemma builds_opt_None [builds]: "builds_opt 0 (gret None) (gret None)"
  unfolding builds_opt_def by (rule sim_ret) (simp add: built_opt_def)

lemma builds_opt_Some [builds]: "builds k m d \<Longrightarrow> builds_opt k (gbind m (\<lambda>b. gret (Some b))) (gbind d (\<lambda>p. gret (Some p)))"
  unfolding builds_opt_def builds_def
  by (erule sim_bind [where U = "\<lambda>r q s s' x y. s' = s \<and> x = Some r \<and> y = Some q"])
    (auto intro: sim_ret simp: built_opt_def)

text \<open>
  The generator's choices depend on the state only through the layout and the like. The bound of
  a choice is the greater one of its branches.
\<close>

lemma builds_get:
  "(\<And>s. f s = f' (abs_gen s)) \<Longrightarrow> (\<And>x. builds k (m x) (d x)) \<Longrightarrow>
     builds k (gbind (gget f) m) (gbind (gget f') d)"
  unfolding builds_def by (rule sim_get)

lemma sim_layout:
  assumes "\<And>l. flat l \<Longrightarrow> sim V (m l) (d l)"
  shows "sim V (gbind (gget cs_layout) m) (gbind (gget g_layout) d)"
proof -
  have 1: "gbind (gget cs_layout) m s = m (cs_layout s) s"
    "gbind (gget g_layout) d (abs_gen s) = d (cs_layout s) (abs_gen s)" for s
    by (simp_all add: gbind_def gget_def abs_gen_def)
  have "case d (cs_layout s) (abs_gen s) of Inl err \<Rightarrow> m (cs_layout s) s = Inl err
      | Inr (q, a) \<Rightarrow> \<exists>r s'. m (cs_layout s) s = Inr (r, s') \<and> abs_gen s' = a \<and> gen_ok s' \<and>
          grows s s' \<and> V s s' r q"
    if "gen_ok s" for s
    using assms [of "cs_layout s"] that unfolding sim_def by (simp add: gen_ok_def)
  then show ?thesis unfolding sim_def 1 by blast
qed

lemma builds_layout [builds]:
  "(\<And>l. flat l \<Longrightarrow> builds k (m l) (d l)) \<Longrightarrow> builds k (gbind (gget cs_layout) m) (gbind (gget g_layout) d)"
  unfolding builds_def by (rule sim_layout)

lemma builds_opt_layout [builds]:
  "(\<And>l. flat l \<Longrightarrow> builds_opt k (m l) (d l)) \<Longrightarrow>
     builds_opt k (gbind (gget cs_layout) m) (gbind (gget g_layout) d)"
  unfolding builds_opt_def by (rule sim_layout)

lemma builds_opt_mono: "builds_opt k m d \<Longrightarrow> k \<le> k' \<Longrightarrow> builds_opt k' m d"
  unfolding builds_opt_def
  by (erule sim_mono) (auto simp: built_opt_def intro: built_mono elim!: option.rel_mono_strong)

lemma builds_fail [builds]: "builds 0 (gfail err) (gfail err)"
  unfolding builds_def by (rule sim_fail)

lemma builds_if [builds]:
  "(c \<Longrightarrow> builds k m d) \<Longrightarrow> (\<not> c \<Longrightarrow> builds k' m' d') \<Longrightarrow>
     builds (max k k') (if c then m else m') (if c then d else d')"
  by (auto intro: builds_mono)

lemma builds_opt_if [builds]:
  "(c \<Longrightarrow> builds_opt k m d) \<Longrightarrow> (\<not> c \<Longrightarrow> builds_opt k' m' d') \<Longrightarrow>
     builds_opt (max k k') (if c then m else m') (if c then d else d')"
  by (auto intro: builds_opt_mono)

lemma builds_case_option [builds]:
  "builds k m d \<Longrightarrow> (\<And>x. builds k' (m' x) (d' x)) \<Longrightarrow>
     builds (max k k') (case x of None \<Rightarrow> m | Some x \<Rightarrow> m' x) (case x of None \<Rightarrow> d | Some x \<Rightarrow> d' x)"
  by (cases x) (auto intro: builds_mono [of k] builds_mono [of k'])

lemma builds_case_prod [builds]:
  "(\<And>a b. builds k (m a b) (d a b)) \<Longrightarrow> builds k (case x of (a, b) \<Rightarrow> m a b) (case x of (a, b) \<Rightarrow> d a b)"
  by (cases x) simp

text \<open>Changes of the layout, which has to stay flat.\<close>

definition den_set_layout :: "(layout \<Rightarrow> layout) \<Rightarrow> unit den" where
  "den_set_layout f = gmodify (\<lambda>a. a\<lparr>g_layout := f (g_layout a)\<rparr>)"

definition den_then_layout :: "'a den \<Rightarrow> (layout \<Rightarrow> layout) \<Rightarrow> 'a den" where
  "den_then_layout d f = gbind d (\<lambda>p. gbind (den_set_layout f) (\<lambda>_. gret p))"

lemma sim_then_layout:
  assumes f: "\<And>l. flat l \<Longrightarrow> flat (f l)" and m: "sim V m d"
    and V: "\<And>s s' r q. V s s' r q \<Longrightarrow> V s (s'\<lparr>cs_layout := f (cs_layout s')\<rparr>) r q"
  shows "sim V (then_layout m f) (den_then_layout d f)"
proof (rule simI)
  fix s err assume "gen_ok s" "den_then_layout d f (abs_gen s) = Inl err"
  then show "then_layout m f s = Inl err"
    by (auto intro: simE [OF m, of s] simp: gbind_def gret_def then_layout_def den_then_layout_def
      set_layout_def den_set_layout_def gmodify_def)
next
  fix s q a assume s: "gen_ok s" and ok: "den_then_layout d f (abs_gen s) = Inr (q, a)"
  show "\<exists>r s'. then_layout m f s = Inr (r, s') \<and> abs_gen s' = a \<and> gen_ok s' \<and> grows s s' \<and> V s s' r q"
  proof (rule simE [OF m s])
    fix r p s' assume 1: "d (abs_gen s) = Inr (p, abs_gen s')" "m s = Inr (r, s')" "gen_ok s'" "grows s s'" "V s s' r p"
    let ?s = "s'\<lparr>cs_layout := f (cs_layout s')\<rparr>"
    have "gen_ok ?s" "grows s ?s" using 1(3,4) f by (auto simp: gen_ok_def grows_def)
    then show ?thesis using 1 ok V [OF 1(5)]
      by (intro exI [of _ r] exI [of _ ?s])
        (auto simp: gbind_def gret_def then_layout_def den_then_layout_def set_layout_def den_set_layout_def
          gmodify_def abs_gen_def)
  qed (use ok in \<open>simp add: gbind_def den_then_layout_def\<close>)
qed

lemma builds_then_layout [builds]:
  "(\<And>l. flat l \<Longrightarrow> flat (f l)) \<Longrightarrow> builds k m d \<Longrightarrow> builds k (then_layout m f) (den_then_layout d f)"
  unfolding builds_def by (rule sim_then_layout) (auto simp: built_def)

section \<open>Statements\<close>

definition look_map :: "('a \<Rightarrow> 'b) \<Rightarrow> 'a look \<Rightarrow> 'b look" where
  "look_map f p e = map_sum f id (p e)"

text \<open>Statements that leave a value in the accumulator.\<close>

definition computes :: "slist list \<Rightarrow> u32 look \<Rightarrow> bool" where
  "computes ss v \<longleftrightarrow> straight ss \<and> (\<forall>e vm. buffer_ok e \<and> vm_wf vm \<longrightarrow>
     (case v e of
        Inr r \<Rightarrow> exec_stmts e ss vm = Inr r
      | Inl a \<Rightarrow> \<exists>vm'. exec_stmts e ss vm = Inl vm' \<and> vm_wf vm' \<and> reg_A vm' = a))"

definition loaded :: "nat \<Rightarrow> cstate \<Rightarrow> cstate \<Rightarrow> slist list \<Rightarrow> u32 look \<Rightarrow> bool" where
  "loaded k s s' ss v \<longleftrightarrow> cs_graph s' = cs_graph s \<and> cs_regused s' = cs_regused s \<and>
     computes ss v \<and> length ss \<le> k"

definition loads :: "nat \<Rightarrow> slist list gen \<Rightarrow> u32 look den \<Rightarrow> bool" where
  "loads k = sim (loaded k)"

lemma stmt_code_plain [simp]: "stmt_code (plain_stmt (ucast (c :: u16)) k) = c"
  by (simp add: stmt_code_def plain_stmt_def) (rule bit_word_eqI, simp add: bit_unsigned_iff)

lemma plain_not_NOP [simp]: "s_code (plain_stmt (ucast (c :: u16)) k) \<noteq> NOP"
proof
  assume "s_code (plain_stmt (ucast c) k) = NOP"
  then have "uint (ucast c :: u32) = uint (- 1 :: u32)" by (simp add: plain_stmt_def NOP_def)
  moreover have "uint (ucast c :: u32) < 2 ^ 16" using uint_lt2p [of c] by (simp add: unsigned_ucast_eq take_bit_int_eq_self)
  ultimately show False by (simp add: unsigned_minus_1_eq_mask mask_eq_exp_minus_1)
qed

lemma stmt_insn_plain [simp]: "stmt_insn (plain_stmt (ucast (c :: u16)) k) = BPF_STMT c k"
  by (simp add: stmt_insn_def) (simp add: plain_stmt_def)

lemma s_k_plain [simp]: "s_k (plain_stmt c k) = k"
  by (simp add: plain_stmt_def)

lemma exec_plain:
  "decode c = Some op \<Longrightarrow> exec_stmt e (plain_stmt (ucast (c :: u16)) k) vm = exec_op e (BPF_STMT c k) vm op"
  by (simp add: exec_stmt_def)

lemma i_k_BPF_STMT [simp]: "i_k (BPF_STMT c k) = k"
  by (simp add: BPF_STMT_def)

definition one_stmt :: "nat \<Rightarrow> u16 \<Rightarrow> u32 \<Rightarrow> slist" where
  "one_stmt a c k = \<lparr>sl_addr = a, sl_stmt = plain_stmt (ucast c) k\<rparr>"

lemma new_stmt_eq: "new_stmt c k s = Inr ([one_stmt (cs_next_addr s) c k], s\<lparr>cs_next_addr := cs_next_addr s + 1\<rparr>)"
  by (simp add: new_stmt_def one_stmt_def)

lemma one_stmt_simps [simp]:
  "stmt_code (sl_stmt (one_stmt a c k)) = c" "s_code (sl_stmt (one_stmt a c k)) \<noteq> NOP"
  "exec_stmt e (sl_stmt (one_stmt a c k)) vm =
     (case decode c of None \<Rightarrow> Inr Aborted | Some op \<Rightarrow> exec_op e (BPF_STMT c k) vm op)"
  "s_k (sl_stmt (one_stmt a c k)) = k"
  by (simp_all add: one_stmt_def exec_stmt_def split: option.split)

lemma exec_append:
  "exec_stmts e (xs @ ys) vm = (case exec_stmts e xs vm of Inr r \<Rightarrow> Inr r | Inl vm \<Rightarrow> exec_stmts e ys vm)"
  by (induction xs arbitrary: vm) (auto split: sum.split)

end
