(* ===== verification/Gencode_Fields.thy ===== *)
theory Gencode_Fields
  imports Gencode_Logic
begin

unbundle bit_operations_syntax

text \<open>
  Tests of packet fields: what the loads of \<open>gen_load_a\<close> read, relative to each of the headers,
  and the rules for the comparisons \<open>gen_ncmp\<close>, \<open>gen_bcmp\<close> and \<open>gen_uncond\<close>. In a flat layout
  every header but the transport header has a constant offset.
\<close>

section \<open>A block of statements and a branch\<close>

definition branch_stmt :: "cmp \<Rightarrow> src \<Rightarrow> u32 \<Rightarrow> stmt" where
  "branch_stmt c sr v = plain_stmt (ucast (label (Jmp c sr))) v"

lemma branch_cond_stmt: "branch_cond (branch_stmt c sr v) vm =
    Some (jmp_cond c (reg_A vm) (case sr of SrcK \<Rightarrow> v | SrcX \<Rightarrow> reg_X vm))"
  by (cases sr) (simp_all add: branch_cond_def branch_stmt_def del: label.simps)

text \<open>A block whose statements and branch decide a test.\<close>

definition block_decides :: "slist list \<Rightarrow> stmt \<Rightarrow> test \<Rightarrow> bool" where
  "block_decides ss br p \<longleftrightarrow> decides (Branch ss br (Exit True) (Exit False)) p"

lemma block_with_eq:
  "block_with code ss k s = Inr (length (cs_graph s), s\<lparr>cs_graph := cs_graph s @
     [(fresh_block 0 (length (cs_graph s)))\<lparr>b_stmts := ss, b_s := plain_stmt code k\<rparr>]\<rparr>)"
  by (simp add: block_with_def new_block_def Let_def set_k_def set_stmts_def fresh_block_def plain_stmt_def)

lemma block_with_builds:
  assumes s: "gen_ok s" and d: "block_decides ss (plain_stmt code v) p" and len: "length ss \<le> k"
  obtains b s' where "block_with code ss v s = Inr (b, s')" "abs_gen s' = abs_gen s" "gen_ok s'"
    "grows s s'" "built (k + 3) s s' b p"
proof -
  let ?n = "length (cs_graph s)"
  let ?b = "(fresh_block 0 ?n)\<lparr>b_stmts := ss, b_s := plain_stmt code v\<rparr>"
  let ?s = "s\<lparr>cs_graph := cs_graph s @ [?b]\<rparr>"
  have "represents (cs_graph ?s) ?n (Branch (b_stmts (cs_graph ?s ! ?n)) (b_s (cs_graph ?s ! ?n)) (Exit True) (Exit False)) {?n}"
    by (rule represents_single) (simp_all add: fresh_block_def)
  then have rep: "represents (cs_graph ?s) ?n (Branch ss (plain_stmt code v) (Exit True) (Exit False)) {?n}" by simp
  have "slength ss \<le> k" using len le_trans [OF length_filter_le] by (simp add: slength_def)
  then have "built (k + 3) s ?s ?n p"
    using d by (intro builtI [OF rep]) (auto simp: block_decides_def max_space_def)
  moreover have "grows s ?s" by (simp add: grows_def nth_append)
  moreover have "gen_ok ?s"
    using s by (auto simp: gen_ok_def short_ok_def b_long_def nth_append fresh_block_def less_Suc_eq)
  ultimately show ?thesis by (intro that [of ?n ?s]) (simp_all add: block_with_eq abs_gen_def)
qed

lemma computes_branch:
  assumes "computes ss v"
  shows "block_decides ss (branch_stmt c SrcK k) (look_map (\<lambda>a. jmp_cond c a k) v)"
proof -
  have "tree_ok (Branch ss (branch_stmt c SrcK k) (Exit True) (Exit False))"
    using assms by (simp add: computes_def branch_stmt_def del: label.simps)
  moreover have "case look_map (\<lambda>a. jmp_cond c a k) v e of
      Inr r \<Rightarrow> eval_tree e (Branch ss (branch_stmt c SrcK k) (Exit True) (Exit False)) vm = Inr r
    | Inl x \<Rightarrow> \<exists>vm'. eval_tree e (Branch ss (branch_stmt c SrcK k) (Exit True) (Exit False)) vm = Inl (x, vm') \<and> vm_wf vm'"
    if "buffer_ok e" "vm_wf vm" for e vm
  proof (cases "v e")
    case (Inl a)
    with assms that obtain vm' where "exec_stmts e ss vm = Inl vm'" "vm_wf vm'" "reg_A vm' = a"
      by (fastforce simp: computes_def)
    with Inl show ?thesis by (auto simp: look_map_def branch_cond_stmt)
  next
    case (Inr r)
    with assms that have "exec_stmts e ss vm = Inr r" by (auto simp: computes_def dest!: spec [of _ e])
    with Inr show ?thesis by (simp add: look_map_def)
  qed
  ultimately show ?thesis by (simp add: block_decides_def decides_def)
qed

lemma JMP_code_label: "JMP_code (cmp_code c) = ucast (label (Jmp c SrcK))"
  by (simp add: JMP_code_def or.commute or.left_commute)

lemma builds_block:
  assumes "loads n m d"
  shows "builds (n + 3) (gbind m (\<lambda>ss. block_with (JMP_code (cmp_code c)) ss k))
    (gbind d (\<lambda>f. gret (look_map (\<lambda>a. jmp_cond c a k) f)))"
  unfolding builds_def sim_def
proof (intro allI impI)
  fix s assume s: "gen_ok s"
  show "case gbind d (\<lambda>f. gret (look_map (\<lambda>a. jmp_cond c a k) f)) (abs_gen s) of
      Inl err \<Rightarrow> gbind m (\<lambda>ss. block_with (JMP_code (cmp_code c)) ss k) s = Inl err
    | Inr (q, a) \<Rightarrow> \<exists>r s'. gbind m (\<lambda>ss. block_with (JMP_code (cmp_code c)) ss k) s = Inr (r, s') \<and>
        abs_gen s' = a \<and> gen_ok s' \<and> grows s s' \<and> built (n + 3) s s' r q"
  proof (rule simE [OF assms [unfolded loads_def] s])
    fix ss f s1 assume 1: "d (abs_gen s) = Inr (f, abs_gen s1)" "m s = Inr (ss, s1)" "gen_ok s1"
      "grows s s1" "loaded n s s1 ss f"
    from 1(5) have 2: "cs_graph s1 = cs_graph s" "cs_regused s1 = cs_regused s" "computes ss f" "length ss \<le> n"
      by (auto simp: loaded_def)
    have "block_decides ss (plain_stmt (JMP_code (cmp_code c)) k) (look_map (\<lambda>a. jmp_cond c a k) f)"
      using computes_branch [OF 2(3)] by (simp add: branch_stmt_def JMP_code_label del: label.simps)
    from block_with_builds [OF 1(3) this 2(4)] obtain b s2 where
      3: "block_with (JMP_code (cmp_code c)) ss k s1 = Inr (b, s2)" "abs_gen s2 = abs_gen s1" "gen_ok s2"
        "grows s1 s2" "built (n + 3) s1 s2 b (look_map (\<lambda>a. jmp_cond c a k) f)" by blast
    have "built (n + 3) s s2 b (look_map (\<lambda>a. jmp_cond c a k) f)" by (rule built_later [OF 1(4) 2(2) 3(5)])
    with 1 3 grows_trans [OF 1(4) 3(4)] show ?thesis by (auto simp: gbind_def gret_def)
  qed (simp add: gbind_def)
qed

section \<open>Fields\<close>

text \<open>
  The field at an offset from one of the headers. The length of the IPv4 header is read from
  the packet.
\<close>

definition net_start :: "layout \<Rightarrow> u32" where
  "net_start l = constant_part (off_linkpl l) + off_nl l"

fun field_at :: "layout \<Rightarrow> e_offrel \<Rightarrow> u32 \<Rightarrow> u32" where
  "field_at l OR_PACKET offset = offset"
| "field_at l OR_LINKHDR offset = constant_part (off_linkhdr l) + offset"
| "field_at l OR_PREVLINKHDR offset = constant_part (off_prevlinkhdr l) + offset"
| "field_at l OR_LLC offset = constant_part (off_linkpl l) + offset"
| "field_at l OR_PREVMPLSHDR offset = net_start l - 4 + offset"
| "field_at l OR_LINKTYPE offset = constant_part (off_linktype l) + offset"
| "field_at l OR_LINKPL offset = net_start l + offset"
| "field_at l OR_LINKPL_NOSNAP offset = constant_part (off_linkpl l) + off_nl_nosnap l + offset"
| "field_at l OR_TRAN_IPV4 offset = net_start l + offset"
| "field_at l OR_TRAN_IPV6 offset = net_start l + 40 + offset"

definition load_field :: "layout \<Rightarrow> e_offrel \<Rightarrow> u32 \<Rightarrow> ld_size \<Rightarrow> u32 look" where
  "load_field l offrel offset z e =
     (if offrel = OR_TRAN_IPV4
      then case ldx_msh e (net_start l) of
          Inr r \<Rightarrow> Inr r
        | Inl x \<Rightarrow> ld_ind e z x (field_at l offrel offset)
      else ld_abs e z (field_at l offrel offset))"

lemma abs_gen_simps [simp]:
  "g_layout (abs_gen s) = cs_layout s" "g_netmask (abs_gen s) = cs_netmask s"
  "g_snaplen (abs_gen s) = cs_snaplen s" "g_free (abs_gen s) = free_count (cs_regused s)"
  by (simp_all add: abs_gen_def)

lemma abs_gen_next_addr [simp]: "abs_gen (s\<lparr>cs_next_addr := a\<rparr>) = abs_gen s"
  by (simp add: abs_gen_def)

lemma gen_ok_next_addr [simp]: "gen_ok (s\<lparr>cs_next_addr := a\<rparr>) = gen_ok s"
  by (simp add: gen_ok_def)

lemma varpart_flat: "\<not> is_variable (sel (cs_layout s)) \<Longrightarrow> gen_abs_offset_varpart sel upd s = Inr (None, s)"
  by (simp add: gen_abs_offset_varpart_def gbind_def gget_def gret_def)

lemma absoffsetrel_flat:
  "\<not> is_variable (sel (cs_layout s)) \<Longrightarrow> gen_load_absoffsetrel sel upd offset sz s =
     new_stmt (BPF_LD OR BPF_ABS OR sz) (constant_part (sel (cs_layout s)) + offset) s"
  by (simp add: gen_load_absoffsetrel_def varpart_flat gbind_def gget_def)

lemma loadx_iphdrlen_flat:
  "flat (cs_layout s) \<Longrightarrow> gen_loadx_iphdrlen s = new_stmt (BPF_LDX OR BPF_MSH OR BPF_B) (net_start (cs_layout s)) s"
  by (simp add: gen_loadx_iphdrlen_def varpart_flat flat_def gbind_def gget_def net_start_def)

lemma label_ld: "BPF_LD OR BPF_ABS OR size_code z = label (Ld_Abs z)" "BPF_LD OR BPF_IND OR size_code z = label (Ld_Ind z)"
  "BPF_LDX OR BPF_MSH OR BPF_B = label Ldx_Msh"
  by (simp_all add: or.commute)

lemma computes_ld_abs: "computes [one_stmt a (label (Ld_Abs z)) k] (\<lambda>e. ld_abs e z k)"
  by (auto simp: computes_def set_reg_defs vm_wf_def simp del: label.simps split: sum.split)

lemma computes_ld_ind:
  "computes [one_stmt a (label Ldx_Msh) k, one_stmt b (label (Ld_Ind z)) j]
     (\<lambda>e. case ldx_msh e k of Inr r \<Rightarrow> Inr r | Inl x \<Rightarrow> ld_ind e z x j)"
  by (auto simp: computes_def set_reg_defs vm_wf_def simp del: label.simps split: sum.split)

definition den_load :: "e_offrel \<Rightarrow> u32 \<Rightarrow> ld_size \<Rightarrow> u32 look den" where
  "den_load offrel offset z = gget (\<lambda>a. load_field (g_layout a) offrel offset z)"

lemma gen_load_a_flat:
  assumes "flat (cs_layout s)"
  shows "gen_load_a offrel offset (size_code z) s =
    (if offrel = OR_TRAN_IPV4
     then Inr ([one_stmt (cs_next_addr s) (label Ldx_Msh) (net_start (cs_layout s)),
         one_stmt (cs_next_addr s + 1) (label (Ld_Ind z)) (field_at (cs_layout s) offrel offset)],
       s\<lparr>cs_next_addr := cs_next_addr s + 2\<rparr>)
     else new_stmt (label (Ld_Abs z)) (field_at (cs_layout s) offrel offset) s)"
proof -
  have code: "BPF_LD OR BPF_ABS OR size_code z = label (Ld_Abs z)" "BPF_LD OR BPF_IND OR size_code z = label (Ld_Ind z)"
    by (cases z; simp)+
  show ?thesis
    using assms unfolding gen_load_a_def
    by (cases offrel) (simp_all add: gbind_def gget_def gret_def absoffsetrel_flat loadx_iphdrlen_flat
      flat_def code new_stmt_eq net_start_def algebra_simps del: label.simps(3,6) or.left_neutral)
qed

lemma loads_gen_load_a: "loads 2 (gen_load_a offrel offset (size_code z)) (den_load offrel offset z)"
  unfolding loads_def
proof (rule simI)
  fix s :: cstate and q a
  assume s: "gen_ok s" and "den_load offrel offset z (abs_gen s) = Inr (q, a)"
  then have q: "q = load_field (cs_layout s) offrel offset z" and a: "a = abs_gen s"
    by (simp_all add: den_load_def gget_def)
  have flat: "flat (cs_layout s)" using s by (simp add: gen_ok_def)
  show "\<exists>ss s'. gen_load_a offrel offset (size_code z) s = Inr (ss, s') \<and> abs_gen s' = a \<and> gen_ok s' \<and>
      grows s s' \<and> loaded 2 s s' ss q"
  proof (cases "offrel = OR_TRAN_IPV4")
    case True
    then have "q = (\<lambda>e. case ldx_msh e (net_start (cs_layout s)) of Inr r \<Rightarrow> Inr r
        | Inl x \<Rightarrow> ld_ind e z x (field_at (cs_layout s) OR_TRAN_IPV4 offset))"
      by (simp add: q load_field_def fun_eq_iff)
    with computes_ld_ind show ?thesis using s a True
      by (simp add: gen_load_a_flat [OF flat] loaded_def grows_def del: label.simps field_at.simps)
  next
    case False
    then have "q = (\<lambda>e. ld_abs e z (field_at (cs_layout s) offrel offset))"
      by (simp add: q load_field_def fun_eq_iff)
    then show ?thesis using s a computes_ld_abs False
      by (simp add: gen_load_a_flat [OF flat] new_stmt_eq loaded_def grows_def del: label.simps)
  qed
qed (simp add: den_load_def gget_def)

section \<open>Comparisons\<close>

lemma gbind_assoc: "gbind (gbind m f) g = gbind m (\<lambda>x. gbind (f x) g)"
  by (simp add: gbind_def fun_eq_iff split: sum.split)

lemma gbind_gret [simp]: "gbind (gret x) f = f x" "gbind m gret = m"
  by (simp_all add: gbind_def gret_def fun_eq_iff split: sum.split)

lemma look_map_all: "look_map (\<lambda>a. a AND 0xffffffff) f = (f :: u32 look)"
proof -
  have all: "(0xffffffff :: u32) = - 1" by simp
  show ?thesis unfolding all look_map_def and.right_neutral
    by (rule ext) (simp add: sum.map_id id_def [symmetric])
qed

lemma look_map_look_map: "look_map g (look_map f p) = look_map (\<lambda>a. g (f a)) p"
  by (rule ext) (simp add: look_map_def sum.map_comp o_def id_def)

definition field_test :: "layout \<Rightarrow> e_offrel \<Rightarrow> u32 \<Rightarrow> ld_size \<Rightarrow> u32 \<Rightarrow> cmp \<Rightarrow> u32 \<Rightarrow> test" where
  "field_test l offrel offset z msk c v =
     look_map (\<lambda>a. jmp_cond c (a AND msk) v) (load_field l offrel offset z)"

lemma field_test_all: "field_test l offrel offset z 0xffffffff c v =
    look_map (\<lambda>a. jmp_cond c a v) (load_field l offrel offset z)"
  unfolding field_test_def by (subst (2) look_map_all [symmetric]) (simp only: look_map_look_map)

definition den_field :: "e_offrel \<Rightarrow> u32 \<Rightarrow> ld_size \<Rightarrow> u32 \<Rightarrow> cmp \<Rightarrow> u32 \<Rightarrow> test den" where
  "den_field offrel offset z msk c v = gget (\<lambda>a. field_test (g_layout a) offrel offset z msk c v)"

lemma computes_and:
  assumes "computes ss f"
  shows "computes (ss @ [one_stmt a (BPF_ALU OR BPF_AND OR BPF_K) msk]) (look_map (\<lambda>x. x AND msk) f)"
proof -
  have code: "BPF_ALU OR BPF_AND OR BPF_K = label (Alu And SrcK)" by simp
  let ?ss = "ss @ [one_stmt a (label (Alu And SrcK)) msk]"
  have "case look_map (\<lambda>x. x AND msk) f e of
      Inr r \<Rightarrow> exec_stmts e ?ss vm = Inr r
    | Inl b \<Rightarrow> \<exists>vm'. exec_stmts e ?ss vm = Inl vm' \<and> vm_wf vm' \<and> reg_A vm' = b"
    if "buffer_ok e" "vm_wf vm" for e vm
  proof (cases "f e")
    case (Inl b)
    with assms that obtain vm' where "exec_stmts e ss vm = Inl vm'" "vm_wf vm'" "reg_A vm' = b"
      by (fastforce simp: computes_def)
    with Inl show ?thesis
      by (simp add: look_map_def exec_append set_reg_defs vm_wf_def del: label.simps)
  next
    case (Inr r)
    with assms that have "exec_stmts e ss vm = Inr r" by (auto simp: computes_def dest!: spec [of _ e])
    with Inr show ?thesis by (simp add: look_map_def exec_append)
  qed
  then show ?thesis unfolding code using assms by (simp add: computes_def del: label.simps)
qed

lemma loads_masked:
  "loads 3 (gbind (gen_load_a offrel offset (size_code z)) (\<lambda>ss.
      if msk \<noteq> 0xffffffff then gbind (new_stmt (BPF_ALU OR BPF_AND OR BPF_K) msk) (\<lambda>s2. gret (ss @ s2))
      else gret ss))
    (gbind (den_load offrel offset z) (\<lambda>f. gret (look_map (\<lambda>a. a AND msk) f)))"
  unfolding loads_def
proof (rule sim_bind [OF loads_gen_load_a [unfolded loads_def]])
  fix ss :: "slist list" and f :: "u32 look"
  let ?U = "\<lambda>s s' ss' f'. cs_graph s' = cs_graph s \<and> cs_regused s' = cs_regused s \<and>
    (computes ss f \<longrightarrow> computes ss' f') \<and> length ss' \<le> length ss + 1"
  show "sim ?U (if msk \<noteq> 0xffffffff then gbind (new_stmt (BPF_ALU OR BPF_AND OR BPF_K) msk) (\<lambda>s2. gret (ss @ s2))
      else gret ss) (gret (look_map (\<lambda>a. a AND msk) f))"
  proof (cases "msk = 0xffffffff")
    case True
    then have "look_map (\<lambda>a. a AND msk) f = f" by (simp add: look_map_all)
    then show ?thesis using True by (auto intro!: sim_ret)
  next
    case False
    then show ?thesis
      using computes_and by (auto simp: sim_def gbind_def gret_def new_stmt_eq grows_def)
  qed
qed (auto simp: loaded_def)

definition den_ncmp :: "e_offrel \<Rightarrow> u32 \<Rightarrow> ld_size \<Rightarrow> u32 \<Rightarrow> cmp \<Rightarrow> bool \<Rightarrow> u32 \<Rightarrow> test den" where
  "den_ncmp offrel offset z msk c rvs v =
     (if rvs \<and> c \<in> {Jgt, Jge} then den_not (den_field offrel offset z msk c v)
      else den_field offrel offset z msk c v)"

abbreviation (input) "den_cmp offrel offset z v \<equiv> den_field offrel offset z 0xffffffff Jeq v"
abbreviation (input) "den_cmp_gt offrel offset z v \<equiv> den_field offrel offset z 0xffffffff Jgt v"
abbreviation (input) "den_cmp_ge offrel offset z v \<equiv> den_field offrel offset z 0xffffffff Jge v"
abbreviation (input) "den_cmp_le offrel offset z v \<equiv> den_not (den_field offrel offset z 0xffffffff Jgt v)"
abbreviation (input) "den_cmp_lt offrel offset z v \<equiv> den_not (den_field offrel offset z 0xffffffff Jge v)"
abbreviation (input) "den_mcmp offrel offset z v msk \<equiv> den_field offrel offset z msk Jeq v"
abbreviation (input) "den_jset offrel offset z v \<equiv> den_field offrel offset z 0xffffffff Jset v"
abbreviation (input) "den_bool v \<equiv> gret (\<lambda>e. Inl v) :: test den"
abbreviation (input) "den_true \<equiv> den_bool True"
abbreviation (input) "den_false \<equiv> den_bool False"

lemma gen_ncmp_builds:
  "builds 6 (gen_ncmp offrel offset (size_code z) msk (cmp_code c) rvs v)
     (if rvs \<and> c \<in> {Jgt, Jge} then den_not (den_field offrel offset z msk c v)
      else den_field offrel offset z msk c v)"
proof -
  let ?m = "gbind (gbind (gen_load_a offrel offset (size_code z)) (\<lambda>ss.
      if msk \<noteq> 0xffffffff then gbind (new_stmt (BPF_ALU OR BPF_AND OR BPF_K) msk) (\<lambda>s2. gret (ss @ s2))
      else gret ss)) (\<lambda>ss. block_with (JMP_code (cmp_code c)) ss v)"
  have eq: "gen_ncmp offrel offset (size_code z) msk (cmp_code c) rvs v =
      (if rvs \<and> c \<in> {Jgt, Jge} then negated ?m else ?m)"
    by (cases c) (simp_all add: gen_ncmp_def negated_def gbind_assoc)
  have den: "gbind (gbind (den_load offrel offset z) (\<lambda>f. gret (look_map (\<lambda>a. a AND msk) f)))
      (\<lambda>f. gret (look_map (\<lambda>a. jmp_cond c a v) f)) = den_field offrel offset z msk c v"
    by (simp add: den_load_def den_field_def field_test_def gbind_def gget_def gret_def look_map_look_map fun_eq_iff)
  have "builds 6 ?m (den_field offrel offset z msk c v)"
    using builds_block [OF loads_masked, of offrel offset z msk c v] unfolding den by simp
  then show ?thesis unfolding eq by (auto intro: builds_negated)
qed

lemma builds_gen_ncmp [builds]:
  "sz = size_code z \<Longrightarrow> jt = cmp_code c \<Longrightarrow>
     builds 6 (gen_ncmp offrel offset sz msk jt rvs v) (den_ncmp offrel offset z msk c rvs v)"
  unfolding den_ncmp_def using gen_ncmp_builds by simp

lemma builds_gen_cmp [builds]:
  assumes "sz = size_code z"
  shows "builds 6 (gen_cmp offrel offset sz v) (den_field offrel offset z 0xffffffff Jeq v)"
    "builds 6 (gen_cmp_gt offrel offset sz v) (den_field offrel offset z 0xffffffff Jgt v)"
    "builds 6 (gen_cmp_ge offrel offset sz v) (den_field offrel offset z 0xffffffff Jge v)"
    "builds 6 (gen_cmp_lt offrel offset sz v) (den_not (den_field offrel offset z 0xffffffff Jge v))"
    "builds 6 (gen_cmp_le offrel offset sz v) (den_not (den_field offrel offset z 0xffffffff Jgt v))"
    "builds 6 (gen_mcmp offrel offset sz v msk) (den_field offrel offset z msk Jeq v)"
  using gen_ncmp_builds [of offrel offset z "0xffffffff" Jeq False v]
    gen_ncmp_builds [of offrel offset z "0xffffffff" Jgt False v]
    gen_ncmp_builds [of offrel offset z "0xffffffff" Jge False v]
    gen_ncmp_builds [of offrel offset z "0xffffffff" Jge True v]
    gen_ncmp_builds [of offrel offset z "0xffffffff" Jgt True v]
    gen_ncmp_builds [of offrel offset z msk Jeq False v]
  by (simp_all add: assms gen_cmp_def gen_cmp_gt_def gen_cmp_ge_def gen_cmp_lt_def gen_cmp_le_def gen_mcmp_def)

section \<open>Runs of bytes\<close>

definition opt_test :: "test option \<Rightarrow> test \<Rightarrow> test" where
  "opt_test p q = (case p of None \<Rightarrow> q | Some p \<Rightarrow> and_test p q)"

function bcmp_test :: "test option \<Rightarrow> layout \<Rightarrow> e_offrel \<Rightarrow> u32 \<Rightarrow> nat \<Rightarrow> u8 list \<Rightarrow> test option" where
  "bcmp_test p l offrel offset sz v =
     (if 4 \<le> sz then
        bcmp_test (Some (opt_test p (field_test l offrel (offset + of_nat sz - 4) SzW 0xffffffff Jeq
          (be_value (take 4 (drop (sz - 4) v)))))) l offrel offset (sz - 4) v
      else if 2 \<le> sz then
        bcmp_test (Some (opt_test p (field_test l offrel (offset + of_nat sz - 2) SzH 0xffffffff Jeq
          (be_value (take 2 (drop (sz - 2) v)))))) l offrel offset (sz - 2) v
      else if 0 < sz then Some (opt_test p (field_test l offrel offset SzB 0xffffffff Jeq (be_value (take 1 v))))
      else p)"
  by auto
termination by (relation "measure (\<lambda>(p, l, offrel, offset, sz, v). sz)") auto

declare bcmp_test.simps [simp del] gen_bcmp_from.simps [simp del]

lemma and_opt_built:
  assumes "gen_ok s1" and "grows s s1" and "built_opt k s s1 b p" and "builds 6 m (gget (\<lambda>a. f (g_layout a)))"
  obtains c s2 where "gbind m (and_opt b) s1 = Inr (c, s2)" "abs_gen s2 = abs_gen s1" "gen_ok s2"
    "grows s s2" "built_opt (k + 6) s s2 (Some c) (Some (opt_test p (f (cs_layout s1))))"
proof (rule simE [OF assms(4) [unfolded builds_def] assms(1)])
  fix b1 q s2 assume "gget (\<lambda>a. f (g_layout a)) (abs_gen s1) = Inr (q, abs_gen s2)"
    and 1: "m s1 = Inr (b1, s2)" "gen_ok s2" "grows s1 s2" "built 6 s1 s2 b1 q"
  then have q: "q = f (cs_layout s1)" "abs_gen s2 = abs_gen s1" by (auto simp: gget_def)
  show ?thesis
  proof (cases b)
    case None
    with assms(3) have p: "p = None" "cs_regused s1 = cs_regused s" by (auto simp: built_opt_def)
    have "built (k + 6) s s2 b1 q" by (rule built_mono [OF built_later [OF assms(2) p(2) 1(4)]]) simp
    then show ?thesis using None p(1) q 1 grows_trans [OF assms(2) 1(3)]
      by (intro that [of b1 s2]) (auto simp: gbind_def and_opt_def gret_def built_opt_def opt_test_def)
  next
    case (Some c)
    with assms(3) obtain p0 where p: "p = Some p0" "built k s s1 c p0" by (cases p) (auto simp: built_opt_def)
    obtain s3 where "on_graph (gen_and c b1) s2 = Inr ((), s3)" "abs_gen s3 = abs_gen s2" "gen_ok s3"
      "grows s s3" "built (k + 6) s s3 b1 (and_test p0 q)"
      by (rule join_built [OF joins_and 1(2) p(2) assms(2) 1(4,3)])
    then show ?thesis using Some p(1) q 1(1)
      by (intro that [of b1 s3])
        (auto simp: gbind_def and_opt_def gret_def gen_and_m_def built_opt_def opt_test_def)
  qed
qed (simp add: gget_def)

lemma gen_bcmp_from_built:
  "gen_ok s1 \<Longrightarrow> grows s s1 \<Longrightarrow> built_opt k s s1 b p \<Longrightarrow>
   \<exists>b' s2. gen_bcmp_from b offrel offset sz v s1 = Inr (b', s2) \<and> abs_gen s2 = abs_gen s1 \<and> gen_ok s2 \<and>
     grows s s2 \<and> built_opt (k + 6 * sz) s s2 b' (bcmp_test p (cs_layout s1) offrel offset sz v)"
proof (induction sz arbitrary: b p k s1 rule: less_induct)
  case (less sz)
  have step: "\<exists>b' s3. gbind m (\<lambda>tmp. gbind (and_opt b tmp) (\<lambda>b. gen_bcmp_from (Some b) offrel offset n v)) s1 = Inr (b', s3) \<and>
      abs_gen s3 = abs_gen s1 \<and> gen_ok s3 \<and> grows s s3 \<and>
      built_opt (k + 6 * sz) s s3 b' (bcmp_test (Some (opt_test p (f (cs_layout s1)))) (cs_layout s1) offrel offset n v)"
    if m: "builds 6 m (gget (\<lambda>a. f (g_layout a)))" and n: "n < sz" for m f n
  proof (rule and_opt_built [OF less.prems m])
    fix c s2 assume 1: "gbind m (and_opt b) s1 = Inr (c, s2)" "abs_gen s2 = abs_gen s1" "gen_ok s2"
      "grows s s2" "built_opt (k + 6) s s2 (Some c) (Some (opt_test p (f (cs_layout s1))))"
    have "cs_layout s2 = cs_layout s1" using 1(2) by (simp add: abs_gen_def)
    with less.IH [OF n 1(3-5)] obtain b' s3 where 2: "gen_bcmp_from (Some c) offrel offset n v s2 = Inr (b', s3)"
      "abs_gen s3 = abs_gen s1" "gen_ok s3" "grows s s3"
      "built_opt (k + 6 + 6 * n) s s3 b' (bcmp_test (Some (opt_test p (f (cs_layout s1)))) (cs_layout s1) offrel offset n v)"
      using 1(2) by auto
    have "built_opt (k + 6 * sz) s s3 b' (bcmp_test (Some (opt_test p (f (cs_layout s1)))) (cs_layout s1) offrel offset n v)"
      using 2(5) n unfolding built_opt_def
      by (auto elim!: option.rel_mono_strong intro: built_mono)
    with 2 1(1) show ?thesis
      by (simp add: gbind_assoc [symmetric]) (simp add: gbind_def)
  qed
  have field: "builds 6 (gen_cmp offrel o' (size_code z) w)
      (gget (\<lambda>a. field_test (g_layout a) offrel o' z 0xffffffff Jeq w))" for o' z w
    using builds_gen_cmp(1) [of "size_code z" z] by (simp add: den_field_def)
  consider "4 \<le> sz" | "\<not> 4 \<le> sz" "2 \<le> sz" | "sz = 1" | "sz = 0" by linarith
  then show ?case
  proof cases
    case 1
    then show ?thesis
      using step [OF field [of _ SzW, simplified]] by (subst gen_bcmp_from.simps, subst bcmp_test.simps) simp
  next
    case 2
    then show ?thesis
      using step [OF field [of _ SzH, simplified]] by (subst gen_bcmp_from.simps, subst bcmp_test.simps) simp
  next
    case 3
    let ?w = "be_value (take 1 v)"
    obtain c s2 where 1: "gbind (gen_cmp offrel offset BPF_B ?w) (and_opt b) s1 = Inr (c, s2)"
      "abs_gen s2 = abs_gen s1" "gen_ok s2" "grows s s2"
      "built_opt (k + 6) s s2 (Some c) (Some (opt_test p (field_test (cs_layout s1) offrel offset SzB 0xffffffff Jeq ?w)))"
      by (rule and_opt_built [OF less.prems field [of _ SzB, simplified]])
    have "gbind (gen_cmp offrel offset BPF_B ?w) (\<lambda>tmp. gbind (and_opt b tmp) (\<lambda>b. gret (Some b))) s1 = Inr (Some c, s2)"
      using 1(1) by (simp add: gbind_assoc [symmetric]) (simp add: gbind_def gret_def)
    with 1 3 show ?thesis by (subst gen_bcmp_from.simps, subst bcmp_test.simps) simp
  next
    case 4
    then show ?thesis using less.prems
      by (subst gen_bcmp_from.simps, subst bcmp_test.simps) (simp add: gret_def)
  qed
qed

definition bytes_test :: "layout \<Rightarrow> e_offrel \<Rightarrow> u32 \<Rightarrow> nat \<Rightarrow> u8 list \<Rightarrow> test" where
  "bytes_test l offrel offset sz v = the (bcmp_test None l offrel offset sz v)"

definition den_bcmp :: "e_offrel \<Rightarrow> u32 \<Rightarrow> nat \<Rightarrow> u8 list \<Rightarrow> test den" where
  "den_bcmp offrel offset sz v = gget (\<lambda>a. bytes_test (g_layout a) offrel offset sz v)"

lemma bcmp_test_Some: "p \<noteq> None \<or> 0 < sz \<Longrightarrow> bcmp_test p l offrel offset sz v \<noteq> None"
  by (induction p l offrel offset sz v rule: bcmp_test.induct) (subst bcmp_test.simps, auto)

lemma builds_gen_bcmp [builds]:
  assumes "0 < sz"
  shows "builds (6 * sz) (gen_bcmp offrel offset sz v) (den_bcmp offrel offset sz v)"
  unfolding builds_def
proof (rule simI)
  fix s q a assume s: "gen_ok s" and "den_bcmp offrel offset sz v (abs_gen s) = Inr (q, a)"
  then have q: "q = bytes_test (cs_layout s) offrel offset sz v" "a = abs_gen s"
    by (simp_all add: den_bcmp_def gget_def)
  have "built_opt 0 s s None None" by (simp add: built_opt_def)
  from gen_bcmp_from_built [OF s grows_refl this, of offrel offset sz v] obtain b' s2 where
    1: "gen_bcmp_from None offrel offset sz v s = Inr (b', s2)" "abs_gen s2 = abs_gen s" "gen_ok s2" "grows s s2"
      "built_opt (6 * sz) s s2 b' (bcmp_test None (cs_layout s) offrel offset sz v)" by auto
  obtain t where "bcmp_test None (cs_layout s) offrel offset sz v = Some t"
    using bcmp_test_Some assms by blast
  with 1(5) obtain b where "b' = Some b" "built (6 * sz) s s2 b q"
    by (cases b') (auto simp: built_opt_def q bytes_test_def)
  with 1 q(2) show "\<exists>r s'. gen_bcmp offrel offset sz v s = Inr (r, s') \<and> abs_gen s' = a \<and> gen_ok s' \<and>
      grows s s' \<and> built (6 * sz) s s' r q"
    by (simp add: gen_bcmp_def gbind_def gret_def)
qed (simp add: den_bcmp_def gget_def)

section \<open>Bits, constants and the length\<close>

lemma builds_load_jset [builds]:
  assumes "sz = size_code z"
  shows "builds 5 (load_jset offrel offset sz k) (den_field offrel offset z 0xffffffff Jset k)"
proof -
  have "gbind (den_load offrel offset z) (\<lambda>f. gret (look_map (\<lambda>a. jmp_cond Jset a k) f)) =
      den_field offrel offset z 0xffffffff Jset k"
    by (simp add: den_load_def den_field_def field_test_all gbind_def gget_def gret_def fun_eq_iff)
  with builds_block [OF loads_gen_load_a, of offrel offset z Jset k] show ?thesis
    by (simp add: load_jset_def assms)
qed

lemma loads_new_stmt:
  "(\<And>a. computes [one_stmt a c k] f) \<Longrightarrow> loads 1 (new_stmt c k) (gret f)"
  unfolding loads_def sim_def by (simp add: new_stmt_eq gret_def loaded_def grows_def)

lemma look_map_Inl [simp]: "look_map g (\<lambda>e. Inl (f e)) = (\<lambda>e. Inl (g (f e)))"
  by (simp add: look_map_def fun_eq_iff)

lemma builds_uncond [builds]:
  "builds 4 (gen_uncond v) (gret (\<lambda>e. Inl v))" "builds 4 gen_true (gret (\<lambda>e. Inl True))"
  "builds 4 gen_false (gret (\<lambda>e. Inl False))"
proof -
  have *: "builds 4 (gen_uncond v) (gret (\<lambda>e. Inl v))" for v
  proof -
    let ?k = "if v then 0 else 1 :: u32"
    have "computes [one_stmt a (label Ld_Imm) ?k] (\<lambda>e. Inl ?k)" for a
      by (simp add: computes_def set_reg_defs vm_wf_def del: label.simps)
    from builds_block [OF loads_new_stmt [OF this], of Jeq 0] show ?thesis
      by (cases v) (simp_all add: gen_uncond_def)
  qed
  show "builds 4 (gen_uncond v) (gret (\<lambda>e. Inl v))" by (rule *)
  show "builds 4 gen_true (gret (\<lambda>e. Inl True))" "builds 4 gen_false (gret (\<lambda>e. Inl False))"
    using * [of True] * [of False] by (simp_all add: gen_true_def gen_false_def)
qed

definition len_test :: "cmp \<Rightarrow> u32 \<Rightarrow> test" where
  "len_test c n e = Inl (jmp_cond c (wirelen e) n)"

lemma builds_gen_len [builds]:
  "builds 4 (gen_greater n) (gret (len_test Jge n))" "builds 4 (gen_less n) (den_not (gret (len_test Jgt n)))"
proof -
  have "computes [one_stmt a (label Ld_Len) 0] (\<lambda>e. Inl (wirelen e))" for a
    by (simp add: computes_def set_reg_defs vm_wf_def del: label.simps)
  note * = builds_block [OF loads_new_stmt [OF this]]
  have "builds 4 (gen_len (cmp_code c) n) (gret (len_test c n))" for c
    using * [of c n] by (simp add: gen_len_def len_test_def [abs_def])
  from this [of Jge] this [of Jgt] show "builds 4 (gen_greater n) (gret (len_test Jge n))"
    "builds 4 (gen_less n) (den_not (gret (len_test Jgt n)))"
    by (auto simp: gen_greater_def gen_less_def intro: builds_negated)
qed

end
