(* ===== verification/Datalink_Names.thy ===== *)
theory Datalink_Names
  imports Linktype Bpf_Image "HOL-Library.List_Lexorder"
begin

text \<open>
  The names of link-layer and time stamp types in jni/libpcap/pcap.c: the case folding table of
  \<open>pcap_strcasecmp\<close>, the tables \<open>dlt_choices\<close> and \<open>tstamp_type_choices\<close> and the searches in
  them, and \<open>pcap_list_datalinks\<close> and \<open>pcap_set_datalink\<close> on a capture handle.

  A C string is the list of its bytes without the terminating null byte; texts of the program
  are written as HOL strings and read as bytes by \<open>c_str\<close>.
\<close>

section \<open>Comparison without case\<close>

definition charmap0 :: "u8 list" where
  "charmap0 =
     [0, 1, 2, 3, 4, 5, 6, 7, 8, 9, 10, 11, 12, 13, 14, 15,
      16, 17, 18, 19, 20, 21, 22, 23, 24, 25, 26, 27, 28, 29, 30, 31,
      32, 33, 34, 35, 36, 37, 38, 39, 40, 41, 42, 43, 44, 45, 46, 47,
      48, 49, 50, 51, 52, 53, 54, 55, 56, 57, 58, 59, 60, 61, 62, 63]"

definition charmap1 :: "u8 list" where
  "charmap1 =
     [64, 97, 98, 99, 100, 101, 102, 103, 104, 105, 106, 107, 108, 109, 110, 111,
      112, 113, 114, 115, 116, 117, 118, 119, 120, 121, 122, 91, 92, 93, 94, 95,
      96, 97, 98, 99, 100, 101, 102, 103, 104, 105, 106, 107, 108, 109, 110, 111,
      112, 113, 114, 115, 116, 117, 118, 119, 120, 121, 122, 123, 124, 125, 126, 127]"

definition charmap2 :: "u8 list" where
  "charmap2 =
     [128, 129, 130, 131, 132, 133, 134, 135, 136, 137, 138, 139, 140, 141, 142, 143,
      144, 145, 146, 147, 148, 149, 150, 151, 152, 153, 154, 155, 156, 157, 158, 159,
      160, 161, 162, 163, 164, 165, 166, 167, 168, 169, 170, 171, 172, 173, 174, 175,
      176, 177, 178, 179, 180, 181, 182, 183, 184, 185, 186, 187, 188, 189, 190, 191]"

definition charmap3 :: "u8 list" where
  "charmap3 =
     [192, 225, 226, 227, 228, 229, 230, 231, 232, 233, 234, 235, 236, 237, 238, 239,
      240, 241, 242, 243, 244, 245, 246, 247, 248, 249, 250, 219, 220, 221, 222, 223,
      224, 225, 226, 227, 228, 229, 230, 231, 232, 233, 234, 235, 236, 237, 238, 239,
      240, 241, 242, 243, 244, 245, 246, 247, 248, 249, 250, 251, 252, 253, 254, 255]"

definition charmap :: "u8 list" where
  "charmap = charmap0 @ charmap1 @ charmap2 @ charmap3"

definition cm :: "u8 \<Rightarrow> u8" where
  "cm c = charmap ! unat c"

text \<open>
  The loop of \<open>pcap_strcasecmp\<close>: the end of a string is the null byte, and the loop stops at the
  first difference, whose sign is the result.
\<close>

fun pcap_strcasecmp :: "u8 list \<Rightarrow> u8 list \<Rightarrow> int" where
  "pcap_strcasecmp [] [] = 0"
| "pcap_strcasecmp [] (c # cs) = uint (cm 0) - uint (cm c)"
| "pcap_strcasecmp (b # bs) [] = uint (cm b) - uint (cm 0)"
| "pcap_strcasecmp (b # bs) (c # cs) =
     (if cm b = cm c then pcap_strcasecmp bs cs else uint (cm b) - uint (cm c))"

definition c_str :: "string \<Rightarrow> u8 list" where
  "c_str s = map of_char s"

section \<open>Tables\<close>

record choice =
  ch_name :: string
  ch_description :: string
  ch_value :: int

definition dlt_choice :: "string \<Rightarrow> string \<Rightarrow> int \<Rightarrow> choice" where
  "dlt_choice n d v = \<lparr>ch_name = n, ch_description = d, ch_value = v\<rparr>"

definition dlt_choices0 :: "platform \<Rightarrow> choice list" where
  "dlt_choices0 pf =
     [dlt_choice ''DLT_NULL'' ''BSD loopback'' 0,
      dlt_choice ''DLT_EN10MB'' ''Ethernet'' 1,
      dlt_choice ''DLT_IEEE802'' ''Token ring'' 6,
      dlt_choice ''DLT_ARCNET'' ''BSD ARCNET'' 7,
      dlt_choice ''DLT_SLIP'' ''SLIP'' 8,
      dlt_choice ''DLT_PPP'' ''PPP'' 9,
      dlt_choice ''DLT_FDDI'' ''FDDI'' 10,
      dlt_choice ''DLT_ATM_RFC1483'' ''RFC 1483 LLC-encapsulated ATM'' 11,
      dlt_choice ''DLT_RAW'' ''Raw IP'' (DLT_RAW pf),
      dlt_choice ''DLT_SLIP_BSDOS'' ''BSD/OS SLIP'' (DLT_SLIP_BSDOS pf),
      dlt_choice ''DLT_PPP_BSDOS'' ''BSD/OS PPP'' (DLT_PPP_BSDOS pf),
      dlt_choice ''DLT_ATM_CLIP'' ''Linux Classical IP-over-ATM'' 19,
      dlt_choice ''DLT_PPP_SERIAL'' ''PPP over serial'' 50,
      dlt_choice ''DLT_PPP_ETHER'' ''PPPoE'' 51,
      dlt_choice ''DLT_SYMANTEC_FIREWALL'' ''Symantec Firewall'' 99,
      dlt_choice ''DLT_C_HDLC'' ''Cisco HDLC'' 104,
      dlt_choice ''DLT_IEEE802_11'' ''802.11'' 105,
      dlt_choice ''DLT_FRELAY'' ''Frame Relay'' 107,
      dlt_choice ''DLT_LOOP'' ''OpenBSD loopback'' (DLT_LOOP pf),
      dlt_choice ''DLT_ENC'' ''OpenBSD encapsulated IP'' (DLT_ENC pf),
      dlt_choice ''DLT_LINUX_SLL'' ''Linux cooked'' 113,
      dlt_choice ''DLT_LTALK'' ''Localtalk'' 114,
      dlt_choice ''DLT_PFLOG'' ''OpenBSD pflog file'' 117,
      dlt_choice ''DLT_PFSYNC'' ''Packet filter state syncing'' (DLT_PFSYNC pf),
      dlt_choice ''DLT_PRISM_HEADER'' ''802.11 plus Prism header'' 119,
      dlt_choice ''DLT_IP_OVER_FC'' ''RFC 2625 IP-over-Fibre Channel'' 122,
      dlt_choice ''DLT_SUNATM'' ''Sun raw ATM'' 123,
      dlt_choice ''DLT_IEEE802_11_RADIO'' ''802.11 plus radiotap header'' 127,
      dlt_choice ''DLT_ARCNET_LINUX'' ''Linux ARCNET'' 129,
      dlt_choice ''DLT_JUNIPER_MLPPP'' ''Juniper Multi-Link PPP'' 130,
      dlt_choice ''DLT_JUNIPER_MLFR'' ''Juniper Multi-Link Frame Relay'' 131]"

definition dlt_choices1 :: "platform \<Rightarrow> choice list" where
  "dlt_choices1 pf =
     [dlt_choice ''DLT_JUNIPER_ES'' ''Juniper Encryption Services PIC'' 132,
      dlt_choice ''DLT_JUNIPER_GGSN'' ''Juniper GGSN PIC'' 133,
      dlt_choice ''DLT_JUNIPER_MFR'' ''Juniper FRF.16 Frame Relay'' 134,
      dlt_choice ''DLT_JUNIPER_ATM2'' ''Juniper ATM2 PIC'' 135,
      dlt_choice ''DLT_JUNIPER_SERVICES'' ''Juniper Advanced Services PIC'' 136,
      dlt_choice ''DLT_JUNIPER_ATM1'' ''Juniper ATM1 PIC'' 137,
      dlt_choice ''DLT_APPLE_IP_OVER_IEEE1394'' ''Apple IP-over-IEEE 1394'' 138,
      dlt_choice ''DLT_MTP2_WITH_PHDR'' ''SS7 MTP2 with Pseudo-header'' 139,
      dlt_choice ''DLT_MTP2'' ''SS7 MTP2'' 140,
      dlt_choice ''DLT_MTP3'' ''SS7 MTP3'' 141,
      dlt_choice ''DLT_SCCP'' ''SS7 SCCP'' 142,
      dlt_choice ''DLT_DOCSIS'' ''DOCSIS'' 143,
      dlt_choice ''DLT_LINUX_IRDA'' ''Linux IrDA'' 144,
      dlt_choice ''DLT_IEEE802_11_RADIO_AVS'' ''802.11 plus AVS radio information header'' 163,
      dlt_choice ''DLT_JUNIPER_MONITOR'' ''Juniper Passive Monitor PIC'' 164,
      dlt_choice ''DLT_BACNET_MS_TP'' ''BACnet MS/TP'' 165,
      dlt_choice ''DLT_PPP_PPPD'' ''PPP for pppd, with direction flag'' 166,
      dlt_choice ''DLT_JUNIPER_PPPOE'' ''Juniper PPPoE'' 167,
      dlt_choice ''DLT_JUNIPER_PPPOE_ATM'' ''Juniper PPPoE/ATM'' 168,
      dlt_choice ''DLT_GPRS_LLC'' ''GPRS LLC'' 169,
      dlt_choice ''DLT_GPF_T'' ''GPF-T'' 170,
      dlt_choice ''DLT_GPF_F'' ''GPF-F'' 171,
      dlt_choice ''DLT_JUNIPER_PIC_PEER'' ''Juniper PIC Peer'' 174,
      dlt_choice ''DLT_ERF_ETH'' ''Ethernet with Endace ERF header'' 175,
      dlt_choice ''DLT_ERF_POS'' ''Packet-over-SONET with Endace ERF header'' 176,
      dlt_choice ''DLT_LINUX_LAPD'' ''Linux vISDN LAPD'' 177,
      dlt_choice ''DLT_JUNIPER_ETHER'' ''Juniper Ethernet'' 178,
      dlt_choice ''DLT_JUNIPER_PPP'' ''Juniper PPP'' 179,
      dlt_choice ''DLT_JUNIPER_FRELAY'' ''Juniper Frame Relay'' 180,
      dlt_choice ''DLT_JUNIPER_CHDLC'' ''Juniper C-HDLC'' 181,
      dlt_choice ''DLT_MFR'' ''FRF.16 Frame Relay'' 182]"

definition dlt_choices2 :: "platform \<Rightarrow> choice list" where
  "dlt_choices2 pf =
     [dlt_choice ''DLT_JUNIPER_VP'' ''Juniper Voice PIC'' 183,
      dlt_choice ''DLT_A429'' ''Arinc 429'' 184,
      dlt_choice ''DLT_A653_ICM'' ''Arinc 653 Interpartition Communication'' 185,
      dlt_choice ''DLT_USB'' ''USB'' 186,
      dlt_choice ''DLT_BLUETOOTH_HCI_H4'' ''Bluetooth HCI UART transport layer'' 187,
      dlt_choice ''DLT_IEEE802_16_MAC_CPS'' ''IEEE 802.16 MAC Common Part Sublayer'' 188,
      dlt_choice ''DLT_USB_LINUX'' ''USB with Linux header'' 189,
      dlt_choice ''DLT_CAN20B'' ''Controller Area Network (CAN) v. 2.0B'' 190,
      dlt_choice ''DLT_IEEE802_15_4_LINUX'' ''IEEE 802.15.4 with Linux padding'' 191,
      dlt_choice ''DLT_PPI'' ''Per-Packet Information'' 192,
      dlt_choice ''DLT_IEEE802_16_MAC_CPS_RADIO'' ''IEEE 802.16 MAC Common Part Sublayer plus radiotap header'' 193,
      dlt_choice ''DLT_JUNIPER_ISM'' ''Juniper Integrated Service Module'' 194,
      dlt_choice ''DLT_IEEE802_15_4'' ''IEEE 802.15.4 with FCS'' 195,
      dlt_choice ''DLT_SITA'' ''SITA pseudo-header'' 196,
      dlt_choice ''DLT_ERF'' ''Endace ERF header'' 197,
      dlt_choice ''DLT_RAIF1'' ''Ethernet with u10 Networks pseudo-header'' 198,
      dlt_choice ''DLT_IPMB'' ''IPMB'' 199,
      dlt_choice ''DLT_JUNIPER_ST'' ''Juniper Secure Tunnel'' 200,
      dlt_choice ''DLT_BLUETOOTH_HCI_H4_WITH_PHDR'' ''Bluetooth HCI UART transport layer plus pseudo-header'' 201,
      dlt_choice ''DLT_AX25_KISS'' ''AX.25 with KISS header'' 202,
      dlt_choice ''DLT_IEEE802_15_4_NONASK_PHY'' ''IEEE 802.15.4 with non-ASK PHY data'' 215,
      dlt_choice ''DLT_MPLS'' ''MPLS with label as link-layer header'' 219,
      dlt_choice ''DLT_LINUX_EVDEV'' ''Linux evdev events'' 216,
      dlt_choice ''DLT_USB_LINUX_MMAPPED'' ''USB with padded Linux header'' 220,
      dlt_choice ''DLT_DECT'' ''DECT'' 221,
      dlt_choice ''DLT_AOS'' ''AOS Space Data Link protocol'' 222,
      dlt_choice ''DLT_WIHART'' ''Wireless HART'' 223,
      dlt_choice ''DLT_FC_2'' ''Fibre Channel FC-2'' 224,
      dlt_choice ''DLT_FC_2_WITH_FRAME_DELIMS'' ''Fibre Channel FC-2 with frame delimiters'' 225,
      dlt_choice ''DLT_IPNET'' ''Solaris ipnet'' 226,
      dlt_choice ''DLT_CAN_SOCKETCAN'' ''CAN-bus with SocketCAN headers'' 227]"

definition dlt_choices3 :: "platform \<Rightarrow> choice list" where
  "dlt_choices3 pf =
     [dlt_choice ''DLT_IPV4'' ''Raw IPv4'' 228,
      dlt_choice ''DLT_IPV6'' ''Raw IPv6'' 229,
      dlt_choice ''DLT_IEEE802_15_4_NOFCS'' ''IEEE 802.15.4 without FCS'' 230,
      dlt_choice ''DLT_DBUS'' ''D-Bus'' 231,
      dlt_choice ''DLT_JUNIPER_VS'' ''Juniper Virtual Server'' 232,
      dlt_choice ''DLT_JUNIPER_SRX_E2E'' ''Juniper SRX E2E'' 233,
      dlt_choice ''DLT_JUNIPER_FIBRECHANNEL'' ''Juniper Fibre Channel'' 234,
      dlt_choice ''DLT_DVB_CI'' ''DVB-CI'' 235,
      dlt_choice ''DLT_MUX27010'' ''MUX27010'' 236,
      dlt_choice ''DLT_STANAG_5066_D_PDU'' ''STANAG 5066 D_PDUs'' 237,
      dlt_choice ''DLT_JUNIPER_ATM_CEMIC'' ''Juniper ATM CEMIC'' 238,
      dlt_choice ''DLT_NFLOG'' ''Linux netfilter log messages'' 239,
      dlt_choice ''DLT_NETANALYZER'' ''Ethernet with Hilscher netANALYZER pseudo-header'' 240,
      dlt_choice ''DLT_NETANALYZER_TRANSPARENT'' ''Ethernet with Hilscher netANALYZER pseudo-header and with preamble and SFD'' 241,
      dlt_choice ''DLT_IPOIB'' ''RFC 4391 IP-over-Infiniband'' 242,
      dlt_choice ''DLT_MPEG_2_TS'' ''MPEG-2 transport stream'' 243,
      dlt_choice ''DLT_NG40'' ''ng40 protocol tester Iub/Iur'' 244,
      dlt_choice ''DLT_NFC_LLCP'' ''NFC LLCP PDUs with pseudo-header'' 245,
      dlt_choice ''DLT_INFINIBAND'' ''InfiniBand'' 247,
      dlt_choice ''DLT_SCTP'' ''SCTP'' 248,
      dlt_choice ''DLT_USBPCAP'' ''USB with USBPcap header'' 249,
      dlt_choice ''DLT_RTAC_SERIAL'' ''Schweitzer Engineering Laboratories RTAC packets'' 250,
      dlt_choice ''DLT_BLUETOOTH_LE_LL'' ''Bluetooth Low Energy air interface'' 251,
      dlt_choice ''DLT_NETLINK'' ''Linux netlink'' 253,
      dlt_choice ''DLT_BLUETOOTH_LINUX_MONITOR'' ''Bluetooth Linux Monitor'' 254,
      dlt_choice ''DLT_BLUETOOTH_BREDR_BB'' ''Bluetooth Basic Rate/Enhanced Data Rate baseband packets'' 255,
      dlt_choice ''DLT_BLUETOOTH_LE_LL_WITH_PHDR'' ''Bluetooth Low Energy air interface with pseudo-header'' 256,
      dlt_choice ''DLT_PROFIBUS_DL'' ''PROFIBUS data link layer'' 257,
      dlt_choice ''DLT_PKTAP'' ''Apple DLT_PKTAP'' (DLT_PKTAP pf),
      dlt_choice ''DLT_EPON'' ''Ethernet with 802.3 Clause 65 EPON preamble'' 259]"

definition dlt_choices :: "platform \<Rightarrow> choice list" where
  "dlt_choices pf = dlt_choices0 pf @ dlt_choices1 pf @ dlt_choices2 pf @ dlt_choices3 pf"

text \<open>The loops over a table, up to its sentinel; the names of the \<open>DLT_\<close> table lose their prefix.\<close>

fun find_name :: "(choice \<Rightarrow> string) \<Rightarrow> choice list \<Rightarrow> u8 list \<Rightarrow> int option" where
  "find_name nm [] s = None"
| "find_name nm (c # cs) s =
     (if pcap_strcasecmp (c_str (nm c)) s = 0 then Some (ch_value c) else find_name nm cs s)"

fun find_value :: "choice list \<Rightarrow> int \<Rightarrow> choice option" where
  "find_value [] v = None"
| "find_value (c # cs) v = (if ch_value c = v then Some c else find_value cs v)"

definition dlt_name :: "choice \<Rightarrow> string" where
  "dlt_name c = drop 4 (ch_name c)"

definition pcap_datalink_name_to_val :: "platform \<Rightarrow> u8 list \<Rightarrow> int" where
  "pcap_datalink_name_to_val pf name =
     (case find_name dlt_name (dlt_choices pf) name of None \<Rightarrow> -1 | Some v \<Rightarrow> v)"

definition pcap_datalink_val_to_name :: "platform \<Rightarrow> int \<Rightarrow> string option" where
  "pcap_datalink_val_to_name pf dlt = map_option dlt_name (find_value (dlt_choices pf) dlt)"

definition pcap_datalink_val_to_description :: "platform \<Rightarrow> int \<Rightarrow> string option" where
  "pcap_datalink_val_to_description pf dlt = map_option ch_description (find_value (dlt_choices pf) dlt)"

definition tstamp_type_choices :: "choice list" where
  "tstamp_type_choices =
     [dlt_choice ''host'' ''Host'' 0,
      dlt_choice ''host_lowprec'' ''Host, low precision'' 1,
      dlt_choice ''host_hiprec'' ''Host, high precision'' 2,
      dlt_choice ''adapter'' ''Adapter'' 3,
      dlt_choice ''adapter_unsynced'' ''Adapter, not synced with system time'' 4]"

definition pcap_tstamp_type_name_to_val :: "u8 list \<Rightarrow> int" where
  "pcap_tstamp_type_name_to_val name =
     (case find_name ch_name tstamp_type_choices name of None \<Rightarrow> -1 | Some v \<Rightarrow> v)"

definition pcap_tstamp_type_val_to_name :: "int \<Rightarrow> string option" where
  "pcap_tstamp_type_val_to_name t = map_option ch_name (find_value tstamp_type_choices t)"

definition pcap_tstamp_type_val_to_description :: "int \<Rightarrow> string option" where
  "pcap_tstamp_type_val_to_description t = map_option ch_description (find_value tstamp_type_choices t)"

section \<open>Choosing a link-layer type\<close>

text \<open>
  The handle as far as these two functions use it; \<open>set_datalink_op\<close> is the back end's, \<open>None\<close>
  for a null pointer, and changes the handle; it fails when its result is -1. The errors carry
  the text they are printed with.
\<close>

record 'b dlt_handle =
  dh_activated :: bool
  dh_linktype :: int
  dh_dlt_list :: "int list"
  dh_backend :: 'b
  dh_errbuf :: string

type_synonym 'b datalink_op = "'b \<Rightarrow> int \<Rightarrow> int \<times> 'b"

definition pcap_list_datalinks :: "'b dlt_handle \<Rightarrow> (int + int list)" where
  "pcap_list_datalinks p =
     (if \<not> dh_activated p then Inl (- 3)
      else if dh_dlt_list p = [] then Inr [dh_linktype p]
      else Inr (dh_dlt_list p))"

definition not_supported :: "platform \<Rightarrow> int \<Rightarrow> 'b dlt_handle \<Rightarrow> int \<times> 'b dlt_handle" where
  "not_supported pf dlt p =
     (- 1, p\<lparr>dh_errbuf :=
        (case pcap_datalink_val_to_name pf dlt of
           Some n \<Rightarrow> n @ '' is not one of the DLTs supported by this device''
         | None \<Rightarrow> ''DLT '' @ show_int dlt @ '' is not one of the DLTs supported by this device'')\<rparr>)"

definition pcap_set_datalink ::
    "platform \<Rightarrow> 'b datalink_op option \<Rightarrow> int \<Rightarrow> 'b dlt_handle \<Rightarrow> int \<times> 'b dlt_handle" where
  "pcap_set_datalink pf opn dlt p =
     (case opn of
        None \<Rightarrow> if dh_linktype p = dlt then (0, p) else not_supported pf dlt p
      | Some f \<Rightarrow>
          if dh_dlt_list p = [] then
            if dh_linktype p = dlt then (0, p) else not_supported pf dlt p
          else if dlt \<notin> set (dh_dlt_list p) then not_supported pf dlt p
          else if length (dh_dlt_list p) = 2 \<and> dh_dlt_list p ! 0 = DLT_EN10MB \<and> dlt = 143 then
            (0, p\<lparr>dh_linktype := dlt\<rparr>)
          else
            (let (r, b) = f (dh_backend p) dlt; p = p\<lparr>dh_backend := b\<rparr> in
             if r = - 1 then (- 1, p) else (0, p\<lparr>dh_linktype := dlt\<rparr>)))"

section \<open>The comparison\<close>

definition fold_case :: "nat \<Rightarrow> u8" where
  "fold_case n = (if 65 \<le> n \<and> n \<le> 90 \<or> 193 \<le> n \<and> n \<le> 218 then word_of_nat (n + 32) else word_of_nat n)"

lemma charmap_fold: "charmap = map fold_case [0..<256]"
proof -
  have "charmap0 = map fold_case [0..<64]" "charmap1 = map fold_case [64..<128]"
    "charmap2 = map fold_case [128..<192]" "charmap3 = map fold_case [192..<256]"
    by (simp_all add: charmap0_def charmap1_def charmap2_def charmap3_def upt_conv_Cons fold_case_def)
  then have "charmap = map fold_case ([0..<64] @ [64..<128] @ [128..<192] @ [192..<256])"
    by (simp only: charmap_def map_append)
  also have "[0..<64] @ [64..<128] @ [128..<192] @ [192..<256] = [0..<256::nat]"
    using upt_add_eq_append [of 0 64 192] upt_add_eq_append [of 64 128 128] upt_add_eq_append [of 128 192 64] by simp
  finally show ?thesis .
qed

lemma cm_fold: "cm c = (if 65 \<le> unat c \<and> unat c \<le> 90 \<or> 193 \<le> unat c \<and> unat c \<le> 218 then c + 32 else c)"
proof -
  have "unat c < 256" using unsigned_less [of c] by simp
  then show ?thesis by (simp add: cm_def charmap_fold fold_case_def)
qed

lemma cm_eq_0: "cm c = cm 0 \<longleftrightarrow> c = 0"
proof
  assume eq: "cm c = cm 0"
  show "c = 0"
  proof (rule ccontr)
    assume "c \<noteq> 0"
    with eq have c: "65 \<le> unat c" "unat c \<le> 218" "c + 32 = 0"
      by (auto simp: cm_fold [of c] cm_fold [of 0] split: if_splits)
    have "unat (c + 32) = unat c + 32" using c(2) by (subst unat_add_lem [THEN iffD1]) simp_all
    with c(3) show False by simp
  qed
qed simp

lemma cm_pos: "0 \<noteq> c \<Longrightarrow> cm 0 < cm c"
proof -
  assume "0 \<noteq> c"
  then have "cm c \<noteq> cm 0" by (simp add: cm_eq_0)
  moreover have "cm 0 = 0" by (simp add: cm_fold)
  ultimately show "cm 0 < cm c" by (cases "cm c = 0") (auto simp: word_gt_0)
qed

lemma strcasecmp_lexicographic:
  "0 \<notin> set a \<Longrightarrow> 0 \<notin> set b \<Longrightarrow>
     (pcap_strcasecmp a b = 0 \<longleftrightarrow> map cm a = map cm b) \<and>
     (pcap_strcasecmp a b < 0 \<longleftrightarrow> map cm a < map cm b)"
proof (induction a b rule: pcap_strcasecmp.induct)
  case (2 c cs)
  then have "cm 0 < cm c" by (auto intro: cm_pos)
  then show ?case by (auto simp: word_less_def)
next
  case (3 b bs)
  then have "cm 0 < cm b" by (auto intro: cm_pos)
  then show ?case by (auto simp: word_less_def)
next
  case (4 b bs c cs)
  then show ?case by (auto simp: word_less_def word_uint_eq_iff)
qed simp

lemma strcasecmp_eq:
  "0 \<notin> set a \<Longrightarrow> 0 \<notin> set b \<Longrightarrow> pcap_strcasecmp a b = 0 \<longleftrightarrow> map cm a = map cm b"
  by (simp add: strcasecmp_lexicographic)

lemma strcasecmp_swap: "pcap_strcasecmp b a = - pcap_strcasecmp a b"
  by (induction a b rule: pcap_strcasecmp.induct) auto

section \<open>The tables\<close>

definition table_ok :: "(choice \<Rightarrow> string) \<Rightarrow> choice list \<Rightarrow> bool" where
  "table_ok nm cs \<longleftrightarrow> distinct (map (\<lambda>c. map cm (c_str (nm c))) cs) \<and> (\<forall>c\<in>set cs. 0 \<notin> set (c_str (nm c)))"

lemma find_name_some:
  assumes "table_ok nm cs" and "c \<in> set cs" and "map cm s = map cm (c_str (nm c))" and "0 \<notin> set s"
  shows "find_name nm cs s = Some (ch_value c)"
  using assms
proof (induction cs)
  case (Cons d cs)
  have zero: "0 \<notin> set (c_str (nm d))" using Cons.prems by (auto simp: table_ok_def)
  show ?case
  proof (cases "pcap_strcasecmp (c_str (nm d)) s = 0")
    case True
    then have "map cm (c_str (nm d)) = map cm (c_str (nm c))"
      using strcasecmp_eq [OF zero Cons.prems(4)] Cons.prems(3) by simp
    then have "d = c" using Cons.prems(1,2) by (auto simp: table_ok_def)
    with True show ?thesis by simp
  next
    case False
    then have "d \<noteq> c"
      using strcasecmp_eq [OF zero Cons.prems(4)] Cons.prems(3) by auto
    with False Cons show ?thesis by (auto simp: table_ok_def)
  qed
qed simp

lemma find_value_some: "find_value cs v = Some c \<Longrightarrow> c \<in> set cs \<and> ch_value c = v"
  by (induction cs) (auto split: if_splits)



text \<open>The names have no small letters, so that folding keeps them apart.\<close>

definition caps :: "string \<Rightarrow> bool" where
  "caps n \<longleftrightarrow> (\<forall>c\<in>set n. 0 < (of_char c :: nat) \<and> (of_char c :: nat) < 96)"

lemma unat_of_char: "unat (of_char c :: u8) = of_char c"
proof -
  have "(of_char c :: nat) < 2 ^ 8" using nat_of_char_less_256 [of c] by simp
  then have "unat (word_of_nat (of_char c) :: u8) = of_char c" by (simp add: unsigned_of_nat take_bit_nat_eq_self)
  then show ?thesis unfolding of_nat_of_char .
qed

lemma unat_fold_case: "n < 96 \<Longrightarrow> unat (fold_case n) = (if 65 \<le> n \<and> n \<le> 90 then n + 32 else n)"
  by (auto simp: fold_case_def unsigned_of_nat simp del: of_nat_add intro: take_bit_nat_eq_self)

lemma cm_of_char_inj:
  assumes "of_char c < (96 :: nat)" and "of_char d < (96 :: nat)" and "cm (of_char c) = cm (of_char d)"
  shows "c = d"
proof -
  have "cm (of_char x) = fold_case (of_char x)" if "of_char x < (96 :: nat)" for x
    using that by (simp add: cm_def charmap_fold unat_of_char)
  then have "unat (fold_case (of_char c)) = unat (fold_case (of_char d))" using assms by simp
  then have "(of_char c :: nat) = of_char d" using assms(1,2) by (auto simp: unat_fold_case split: if_splits)
  then show ?thesis by simp
qed

lemma caps_inj:
  assumes "caps a" and "caps b" and "map cm (c_str a) = map cm (c_str b)"
  shows "a = b"
  using assms
proof (induction a arbitrary: b)
  case (Cons c cs)
  then obtain d ds where b: "b = d # ds" by (cases b) (auto simp: c_str_def)
  have "c = d" using Cons.prems by (intro cm_of_char_inj) (auto simp: b caps_def c_str_def)
  moreover have "cs = ds" using Cons.prems by (intro Cons.IH) (auto simp: b caps_def c_str_def)
  ultimately show ?case by (simp add: b)
qed (simp add: c_str_def)

lemma table_ok_caps:
  assumes "distinct (map nm cs)" and "\<forall>c\<in>set cs. caps (nm c)"
  shows "table_ok nm cs"
proof -
  have "inj_on (\<lambda>c. map cm (c_str (nm c))) (set cs)"
    using assms by (intro inj_onI) (metis caps_inj distinct_map inj_onD)
  moreover have "0 \<notin> set (c_str (nm c))" if "c \<in> set cs" for c
  proof
    assume "0 \<in> set (c_str (nm c))"
    then obtain x where x: "x \<in> set (nm c)" "(of_char x :: u8) = 0" by (auto simp: c_str_def)
    have "(of_char x :: nat) = 0" using unat_of_char [of x] x(2) by simp
    moreover have "0 < (of_char x :: nat)" using assms(2) that x(1) by (simp add: caps_def)
    ultimately show False by linarith
  qed
  ultimately show ?thesis using assms(1) by (auto simp: table_ok_def distinct_map)
qed

lemmas dlt_choice_defs = dlt_choices0_def dlt_choices1_def dlt_choices2_def dlt_choices3_def dlt_choice_def

lemma dlt_name_caps: "\<forall>c\<in>set (dlt_choices pf). caps (dlt_name c)"
proof -
  have "\<forall>c\<in>set (dlt_choices0 pf). caps (dlt_name c)" "\<forall>c\<in>set (dlt_choices1 pf). caps (dlt_name c)"
    "\<forall>c\<in>set (dlt_choices2 pf). caps (dlt_name c)" "\<forall>c\<in>set (dlt_choices3 pf). caps (dlt_name c)"
    by (simp_all add: dlt_choice_defs dlt_name_def caps_def)
  then show ?thesis by (auto simp: dlt_choices_def)
qed

lemma dlt_names_distinct: "distinct (map dlt_name (dlt_choices pf))"
  by (simp add: dlt_choices_def dlt_choice_defs dlt_name_def)

lemma dlt_table_ok: "table_ok dlt_name (dlt_choices pf)"
  using dlt_names_distinct dlt_name_caps by (rule table_ok_caps)


section \<open>Properties\<close>

lemma list_datalinks_inr:
  "pcap_list_datalinks p = Inr l \<longleftrightarrow>
     dh_activated p \<and> l = (if dh_dlt_list p = [] then [dh_linktype p] else dh_dlt_list p)"
  by (auto simp: pcap_list_datalinks_def)

text \<open>The type in use is one of those that \<open>pcap_list_datalinks\<close> gives.\<close>

definition type_offered :: "'b dlt_handle \<Rightarrow> bool" where
  "type_offered p \<longleftrightarrow> dh_dlt_list p = [] \<or> dh_linktype p \<in> set (dh_dlt_list p)"

lemma set_datalink_cases:
  assumes "pcap_set_datalink pf opn dlt p = (r, p')" and "type_offered p"
  shows "dh_dlt_list p' = dh_dlt_list p \<and> dh_activated p' = dh_activated p \<and>
    (r = 0 \<and> dh_linktype p' = dlt \<and> (dh_dlt_list p = [] \<longrightarrow> dlt = dh_linktype p) \<and>
        (dh_dlt_list p \<noteq> [] \<longrightarrow> dlt \<in> set (dh_dlt_list p)) \<or>
      r = - 1 \<and> dh_linktype p' = dh_linktype p)"
  using assms
  by (auto simp: pcap_set_datalink_def not_supported_def type_offered_def Let_def
      split: option.splits if_splits prod.splits)

text \<open>
  C31. The name of a link-layer type, in whatever case it is written, is read back as that type
  by \<open>pcap_datalink_name_to_val\<close>.
\<close>

theorem datalink_name_round_trip:
  assumes "pcap_datalink_val_to_name pf dlt = Some n"
    and "map cm s = map cm (c_str n)" and "0 \<notin> set s"
  shows "pcap_datalink_name_to_val pf s = dlt"
proof -
  from assms(1) obtain c where "find_value (dlt_choices pf) dlt = Some c" "n = dlt_name c"
    by (auto simp: pcap_datalink_val_to_name_def)
  with find_value_some [of "dlt_choices pf" dlt c] find_name_some [OF dlt_table_ok _ _ assms(3), of c pf] assms(2)
  show ?thesis by (auto simp: pcap_datalink_name_to_val_def)
qed

theorem datalink_name_round_trip_witness:
  "pcap_datalink_name_to_val Other_OS (c_str ''Linux_sll'') = 113"
  by (rule datalink_name_round_trip [of _ _ "''LINUX_SLL''"])
    (simp_all add: pcap_datalink_val_to_name_def dlt_choices_def dlt_choice_defs dlt_name_def c_str_def cm_fold
      DLT_RAW_def DLT_SLIP_BSDOS_def DLT_PPP_BSDOS_def DLT_LOOP_def DLT_ENC_def)

text \<open>
  \<open>pcap_strcasecmp\<close> orders strings as the lexicographic order of their folded bytes does:
  it is negative, zero or positive as the first string is before, the same as, or after the second.
\<close>

theorem strcasecmp_order:
  assumes "0 \<notin> set a" and "0 \<notin> set b"
  shows "sgn (pcap_strcasecmp a b) =
    (if map cm a < map cm b then -1 else if map cm a = map cm b then 0 else 1)"
  using strcasecmp_lexicographic [OF assms] by (auto simp: sgn_if)

theorem strcasecmp_order_witness: "sgn (pcap_strcasecmp [69, 78] [101, 110, 49]) = - 1"
  using strcasecmp_order [of "[69, 78]" "[101, 110, 49]"] by (simp add: cm_fold)

text \<open>
  \<open>pcap_set_datalink\<close> keeps the link-layer type of a handle among the types that
  \<open>pcap_list_datalinks\<close> offers: it succeeds only for a type on that list and then has set it, and
  fails with -1 and the old type otherwise. The list itself never changes.
\<close>

theorem set_datalink_offered:
  assumes "type_offered p" and "pcap_list_datalinks p = Inr l"
    and "pcap_set_datalink pf opn dlt p = (r, p')"
  shows "type_offered p' \<and>
    (if r = 0 then dlt \<in> set l \<and> dh_linktype p' = dlt \<and> pcap_list_datalinks p' = Inr l
     else r = - 1 \<and> dh_linktype p' = dh_linktype p)"
  using set_datalink_cases [OF assms(3,1)] assms(1,2)
  by (auto simp: list_datalinks_inr type_offered_def)

theorem set_datalink_offered_witness:
  "\<exists>p :: nat dlt_handle. pcap_set_datalink Other_OS (Some (\<lambda>b d. (0, b + 1))) 105 p = (0, p\<lparr>dh_backend := 8, dh_linktype := 105\<rparr>) \<and>
     dh_linktype p = 127 \<and> type_offered (p\<lparr>dh_backend := 8, dh_linktype := 105\<rparr>)"
proof -
  let ?p = "\<lparr>dh_activated = True, dh_linktype = 127, dh_dlt_list = [127, 105], dh_backend = 7 :: nat, dh_errbuf = []\<rparr>"
  have 1: "pcap_set_datalink Other_OS (Some (\<lambda>b d. (0, b + 1))) 105 ?p = (0, ?p\<lparr>dh_backend := 8, dh_linktype := 105\<rparr>)"
    by (simp add: pcap_set_datalink_def)
  have "type_offered (?p\<lparr>dh_backend := 8, dh_linktype := 105\<rparr>)"
    using set_datalink_offered [OF _ _ 1, of "[127, 105]"] by (simp add: type_offered_def list_datalinks_inr)
  with 1 show ?thesis by (intro exI [of _ ?p]) simp
qed

end
