(* ===== verification/Gencode_Linktype.thy ===== *)
theory Gencode_Linktype
  imports Gencode_Fields Datalink_Names
begin

unbundle bit_operations_syntax

text \<open>
  The tests for the protocol of a packet in its link-layer header (jni/libpcap/gencode.c,
  \<open>gen_linktype\<close> and the functions it calls for each kind of link layer), with the tests they
  stand for. Protocols are numbered as in the code: an Ethernet type above \<open>ETHERMTU\<close>, an 802.2
  service access point otherwise.
\<close>

section \<open>Constants\<close>

abbreviation (input) "ETHERMTU \<equiv> 1500 :: int"
abbreviation (input) "ETHERTYPE_NS \<equiv> 0x0600 :: int"
abbreviation (input) "ETHERTYPE_IP \<equiv> 0x0800 :: int"
abbreviation (input) "ETHERTYPE_ARP \<equiv> 0x0806 :: int"
abbreviation (input) "ETHERTYPE_REVARP \<equiv> 0x8035 :: int"
abbreviation (input) "ETHERTYPE_MOPDL \<equiv> 0x6001 :: int"
abbreviation (input) "ETHERTYPE_MOPRC \<equiv> 0x6002 :: int"
abbreviation (input) "ETHERTYPE_DN \<equiv> 0x6003 :: int"
abbreviation (input) "ETHERTYPE_LAT \<equiv> 0x6004 :: int"
abbreviation (input) "ETHERTYPE_SCA \<equiv> 0x6007 :: int"
abbreviation (input) "ETHERTYPE_ATALK \<equiv> 0x809b :: int"
abbreviation (input) "ETHERTYPE_AARP \<equiv> 0x80f3 :: int"
abbreviation (input) "ETHERTYPE_8021Q \<equiv> 0x8100 :: int"
abbreviation (input) "ETHERTYPE_IPX \<equiv> 0x8137 :: int"
abbreviation (input) "ETHERTYPE_IPV6 \<equiv> 0x86dd :: int"
abbreviation (input) "ETHERTYPE_MPLS \<equiv> 0x8847 :: int"
abbreviation (input) "ETHERTYPE_PPPOED \<equiv> 0x8863 :: int"
abbreviation (input) "ETHERTYPE_PPPOES \<equiv> 0x8864 :: int"
abbreviation (input) "ETHERTYPE_8021QINQ \<equiv> 0x9100 :: int"
abbreviation (input) "LLCSAP_IP \<equiv> 0x06 :: int"
abbreviation (input) "LLCSAP_8021D \<equiv> 0x42 :: int"
abbreviation (input) "LLCSAP_SNAP \<equiv> 0xaa :: u8"
abbreviation (input) "LLCSAP_IPX \<equiv> 0xe0 :: int"
abbreviation (input) "LLCSAP_NETBEUI \<equiv> 0xf0 :: int"
abbreviation (input) "LLCSAP_ISONS \<equiv> 0xfe :: int"
abbreviation (input) "PPP_IP \<equiv> 0x0021 :: int"
abbreviation (input) "PPP_OSI \<equiv> 0x0023 :: int"
abbreviation (input) "PPP_NS \<equiv> 0x0025 :: int"
abbreviation (input) "PPP_DECNET \<equiv> 0x0027 :: int"
abbreviation (input) "PPP_APPLE \<equiv> 0x0029 :: int"
abbreviation (input) "PPP_IPX \<equiv> 0x002b :: int"
abbreviation (input) "PPP_VJC \<equiv> 0x002d :: u32"
abbreviation (input) "PPP_VJNC \<equiv> 0x002f :: u32"
abbreviation (input) "PPP_BRPDU \<equiv> 0x0031 :: int"
abbreviation (input) "PPP_IPV6 \<equiv> 0x0057 :: int"
abbreviation (input) "ISO8473_CLNP \<equiv> 0x81 :: int"
abbreviation (input) "ISO9542_ESIS \<equiv> 0x82 :: int"
abbreviation (input) "ISO10589_ISIS \<equiv> 0x83 :: int"

text \<open>The qualifiers of gencode.h.\<close>

abbreviation (input) "Q_HOST \<equiv> 1 :: int"
abbreviation (input) "Q_NET \<equiv> 2 :: int"
abbreviation (input) "Q_PORT \<equiv> 3 :: int"
abbreviation (input) "Q_GATEWAY \<equiv> 4 :: int"
abbreviation (input) "Q_PROTO \<equiv> 5 :: int"
abbreviation (input) "Q_PROTOCHAIN \<equiv> 6 :: int"
abbreviation (input) "Q_PORTRANGE \<equiv> 7 :: int"
abbreviation (input) "Q_LINK \<equiv> 1 :: int"
abbreviation (input) "Q_IP \<equiv> 2 :: int"
abbreviation (input) "Q_ARP \<equiv> 3 :: int"
abbreviation (input) "Q_RARP \<equiv> 4 :: int"
abbreviation (input) "Q_SCTP \<equiv> 5 :: int"
abbreviation (input) "Q_TCP \<equiv> 6 :: int"
abbreviation (input) "Q_UDP \<equiv> 7 :: int"
abbreviation (input) "Q_ICMP \<equiv> 8 :: int"
abbreviation (input) "Q_IGMP \<equiv> 9 :: int"
abbreviation (input) "Q_IGRP \<equiv> 10 :: int"
abbreviation (input) "Q_ATALK \<equiv> 11 :: int"
abbreviation (input) "Q_DECNET \<equiv> 12 :: int"
abbreviation (input) "Q_LAT \<equiv> 13 :: int"
abbreviation (input) "Q_SCA \<equiv> 14 :: int"
abbreviation (input) "Q_MOPRC \<equiv> 15 :: int"
abbreviation (input) "Q_MOPDL \<equiv> 16 :: int"
abbreviation (input) "Q_IPV6 \<equiv> 17 :: int"
abbreviation (input) "Q_ICMPV6 \<equiv> 18 :: int"
abbreviation (input) "Q_AH \<equiv> 19 :: int"
abbreviation (input) "Q_ESP \<equiv> 20 :: int"
abbreviation (input) "Q_PIM \<equiv> 21 :: int"
abbreviation (input) "Q_VRRP \<equiv> 22 :: int"
abbreviation (input) "Q_AARP \<equiv> 23 :: int"
abbreviation (input) "Q_ISO \<equiv> 24 :: int"
abbreviation (input) "Q_ESIS \<equiv> 25 :: int"
abbreviation (input) "Q_ISIS \<equiv> 26 :: int"
abbreviation (input) "Q_CLNP \<equiv> 27 :: int"
abbreviation (input) "Q_STP \<equiv> 28 :: int"
abbreviation (input) "Q_IPX \<equiv> 29 :: int"
abbreviation (input) "Q_NETBEUI \<equiv> 30 :: int"
abbreviation (input) "Q_ISIS_L1 \<equiv> 31 :: int"
abbreviation (input) "Q_ISIS_L2 \<equiv> 32 :: int"
abbreviation (input) "Q_ISIS_IIH \<equiv> 33 :: int"
abbreviation (input) "Q_ISIS_LAN_IIH \<equiv> 34 :: int"
abbreviation (input) "Q_ISIS_PTP_IIH \<equiv> 35 :: int"
abbreviation (input) "Q_ISIS_SNP \<equiv> 36 :: int"
abbreviation (input) "Q_ISIS_CSNP \<equiv> 37 :: int"
abbreviation (input) "Q_ISIS_PSNP \<equiv> 38 :: int"
abbreviation (input) "Q_ISIS_LSP \<equiv> 39 :: int"
abbreviation (input) "Q_RADIO \<equiv> 40 :: int"
abbreviation (input) "Q_CARP \<equiv> 41 :: int"
abbreviation (input) "Q_SRC \<equiv> 1 :: int"
abbreviation (input) "Q_DST \<equiv> 2 :: int"
abbreviation (input) "Q_OR \<equiv> 3 :: int"
abbreviation (input) "Q_AND \<equiv> 4 :: int"
abbreviation (input) "Q_ADDR1 \<equiv> 5 :: int"
abbreviation (input) "Q_ADDR2 \<equiv> 6 :: int"
abbreviation (input) "Q_ADDR3 \<equiv> 7 :: int"
abbreviation (input) "Q_ADDR4 \<equiv> 8 :: int"
abbreviation (input) "Q_RA \<equiv> 9 :: int"
abbreviation (input) "Q_TA \<equiv> 10 :: int"
abbreviation (input) "Q_DEFAULT \<equiv> 0 :: int"
abbreviation (input) "Q_UNDEF \<equiv> 255 :: int"

text \<open>Link-layer types without a type field that the generator knows.\<close>

abbreviation (input) "DLT_LINUX_IRDA \<equiv> 144 :: int"
abbreviation (input) "DLT_DOCSIS \<equiv> 143 :: int"
abbreviation (input) "DLT_LINUX_LAPD \<equiv> 177 :: int"
abbreviation (input) "DLT_USB \<equiv> 186 :: int"
abbreviation (input) "DLT_BLUETOOTH_HCI_H4 \<equiv> 187 :: int"
abbreviation (input) "DLT_BLUETOOTH_HCI_H4_WITH_PHDR \<equiv> 201 :: int"
abbreviation (input) "DLT_CAN20B \<equiv> 190 :: int"
abbreviation (input) "DLT_CAN_SOCKETCAN \<equiv> 227 :: int"
abbreviation (input) "DLT_IEEE802_15_4 \<equiv> 195 :: int"
abbreviation (input) "DLT_IEEE802_15_4_LINUX \<equiv> 191 :: int"
abbreviation (input) "DLT_IEEE802_15_4_NONASK_PHY \<equiv> 215 :: int"
abbreviation (input) "DLT_IEEE802_15_4_NOFCS \<equiv> 230 :: int"
abbreviation (input) "DLT_IEEE802_16_MAC_CPS_RADIO \<equiv> 193 :: int"
abbreviation (input) "DLT_SITA \<equiv> 196 :: int"
abbreviation (input) "DLT_RAIF1 \<equiv> 198 :: int"
abbreviation (input) "DLT_IPMB \<equiv> 199 :: int"

text \<open>A word in single quotes and the rest of an error message.\<close>

definition quoted :: "string \<Rightarrow> string \<Rightarrow> string" where
  "quoted word rest = CHR 0x27 # word @ CHR 0x27 # rest"

text \<open>A \<open>switch\<close> that only reports errors.\<close>

definition fail_from :: "(int \<times> string) list \<Rightarrow> int \<Rightarrow> ('s, 'a) gen_in" where
  "fail_from errors proto =
     (case map_of errors proto of Some e \<Rightarrow> gfail (Bpf_error e []) | None \<Rightarrow> gfail Aborts)"

text \<open>
  What the generator asks its handle and its host: the platform's \<open>DLT_\<close> values, the byte order,
  the address families of the system's headers, whether the handle reads a file
  (\<open>rfile != NULL\<close>) and one of the other byte order (\<open>rfile != NULL && swapped\<close>), and the
  handle's \<open>fddipad\<close>. From the headers of Linux: \<open>h_vlan_tag\<close> has \<open>SKF_AD_OFF + SKF_AD_VLAN_TAG\<close>
  and \<open>SKF_AD_OFF + SKF_AD_VLAN_TAG_PRESENT\<close>, \<open>h_pkttype\<close> has \<open>SKF_AD_OFF + SKF_AD_PKTTYPE\<close> and
  \<open>PACKET_OUTGOING\<close>, each \<open>None\<close> where the headers lack them; \<open>h_special_vlan\<close> is the handle's
  flag \<open>BPF_SPECIAL_VLAN_HANDLING\<close>.
\<close>

record host =
  h_platform :: platform
  h_order :: byte_order
  h_af_inet :: int
  h_af_inet6 :: int
  h_rfile :: bool
  h_swapped :: bool
  h_fddipad :: u32
  h_vlan_tag :: "(u32 \<times> u32) option"
  h_special_vlan :: bool
  h_pkttype :: "(u32 \<times> u32) option"

definition htonl :: "host \<Rightarrow> u32 \<Rightarrow> u32" where
  "htonl hp x = (if h_order hp = Little then SWAPLONG x else x)"

section \<open>802.2\<close>

definition gen_snap :: "u32 \<Rightarrow> u32 \<Rightarrow> nat gen" where
  "gen_snap orgcode ptype =
     gen_bcmp OR_LLC 0 8
       [LLCSAP_SNAP, LLCSAP_SNAP, 0x03, ucast (drop_bit 16 orgcode), ucast (drop_bit 8 orgcode),
        ucast orgcode, ucast (drop_bit 8 ptype), ucast ptype]"

definition sap_pair :: "int \<Rightarrow> u32" where
  "sap_pair proto = word_of_int (push_bit 8 proto OR proto)"

definition gen_llc_linktype :: "int \<Rightarrow> nat gen" where
  "gen_llc_linktype proto =
     (if proto \<in> {LLCSAP_IP, LLCSAP_ISONS, LLCSAP_NETBEUI} then gen_cmp OR_LLC 0 BPF_H (sap_pair proto)
      else if proto = LLCSAP_IPX then gen_cmp OR_LLC 0 BPF_B (word_of_int LLCSAP_IPX)
      else if proto = ETHERTYPE_ATALK then gen_snap 0x080007 (word_of_int ETHERTYPE_ATALK)
      else if proto \<le> ETHERMTU then gen_cmp OR_LLC 0 BPF_B (word_of_int proto)
      else gen_cmp OR_LLC 6 BPF_H (word_of_int proto))"

section \<open>Ethernet\<close>

definition gen_ether_linktype :: "int \<Rightarrow> nat gen" where
  "gen_ether_linktype proto =
     (if proto \<in> {LLCSAP_ISONS, LLCSAP_IP, LLCSAP_NETBEUI} then
        both_and (negated (gen_cmp_gt OR_LINKTYPE 0 BPF_H (word_of_int ETHERMTU)))
          (gen_cmp OR_LLC 0 BPF_H (sap_pair proto))
      else if proto = LLCSAP_IPX then
        or_before
          (and_before
            (or_before
              (both_or (gen_cmp OR_LLC 0 BPF_B (word_of_int LLCSAP_IPX)) (gen_cmp OR_LLC 0 BPF_H 0xFFFF))
              (gen_snap 0x000000 (word_of_int ETHERTYPE_IPX)))
            (negated (gen_cmp_gt OR_LINKTYPE 0 BPF_H (word_of_int ETHERMTU))))
          (gen_cmp OR_LINKTYPE 0 BPF_H (word_of_int ETHERTYPE_IPX))
      else if proto \<in> {ETHERTYPE_ATALK, ETHERTYPE_AARP} then
        or_before
          (both_and (negated (gen_cmp_gt OR_LINKTYPE 0 BPF_H (word_of_int ETHERMTU)))
            (if proto = ETHERTYPE_ATALK then gen_snap 0x080007 (word_of_int ETHERTYPE_ATALK)
             else gen_snap 0x000000 (word_of_int ETHERTYPE_AARP)))
          (gen_cmp OR_LINKTYPE 0 BPF_H (word_of_int proto))
      else if proto \<le> ETHERMTU then
        both_and (negated (gen_cmp_gt OR_LINKTYPE 0 BPF_H (word_of_int ETHERMTU)))
          (gen_cmp OR_LINKTYPE 2 BPF_B (word_of_int proto))
      else gen_cmp OR_LINKTYPE 0 BPF_H (word_of_int proto))"

section \<open>Other link layers\<close>

abbreviation (input) "LINUX_SLL_P_802_3 \<equiv> 1 :: u32"
abbreviation (input) "LINUX_SLL_P_802_2 \<equiv> 4 :: u32"

definition gen_linux_sll_linktype :: "int \<Rightarrow> nat gen" where
  "gen_linux_sll_linktype proto =
     (if proto \<in> {LLCSAP_ISONS, LLCSAP_IP, LLCSAP_NETBEUI} then
        both_and (gen_cmp OR_LINKTYPE 0 BPF_H LINUX_SLL_P_802_2) (gen_cmp OR_LLC 0 BPF_H (sap_pair proto))
      else if proto = LLCSAP_IPX then
        or_before
          (or_before
            (and_before
              (both_or (gen_cmp OR_LLC 0 BPF_B (word_of_int LLCSAP_IPX))
                (gen_snap 0x000000 (word_of_int ETHERTYPE_IPX)))
              (gen_cmp OR_LINKTYPE 0 BPF_H LINUX_SLL_P_802_2))
            (gen_cmp OR_LINKTYPE 0 BPF_H LINUX_SLL_P_802_3))
          (gen_cmp OR_LINKTYPE 0 BPF_H (word_of_int ETHERTYPE_IPX))
      else if proto \<in> {ETHERTYPE_ATALK, ETHERTYPE_AARP} then
        or_before
          (both_and (gen_cmp OR_LINKTYPE 0 BPF_H LINUX_SLL_P_802_2)
            (if proto = ETHERTYPE_ATALK then gen_snap 0x080007 (word_of_int ETHERTYPE_ATALK)
             else gen_snap 0x000000 (word_of_int ETHERTYPE_AARP)))
          (gen_cmp OR_LINKTYPE 0 BPF_H (word_of_int proto))
      else if proto \<le> ETHERMTU then
        both_and (gen_cmp OR_LINKTYPE 0 BPF_H LINUX_SLL_P_802_2)
          (gbind (gget cs_layout) (\<lambda>l.
            gen_cmp OR_LINKHDR (constant_part (off_linkpl l)) BPF_B (word_of_int proto)))
      else gen_cmp OR_LINKTYPE 0 BPF_H (word_of_int proto))"

abbreviation (input) "IPH_AF_INET \<equiv> 2 :: u32"
abbreviation (input) "IPH_AF_INET6 \<equiv> 26 :: u32"

definition gen_ipnet_linktype :: "int \<Rightarrow> nat gen" where
  "gen_ipnet_linktype proto =
     (if proto = ETHERTYPE_IP then gen_cmp OR_LINKTYPE 0 BPF_B IPH_AF_INET
      else if proto = ETHERTYPE_IPV6 then gen_cmp OR_LINKTYPE 0 BPF_B IPH_AF_INET6
      else gen_false)"

text \<open>\<open>gen_mpls_linktype\<close>, on the protocol qualifiers of gencode.h.\<close>

definition gen_mpls_linktype :: "int \<Rightarrow> nat gen" where
  "gen_mpls_linktype proto =
     (if proto = Q_IP then
        both_and (gen_mcmp OR_LINKPL (- 2) BPF_B 0x01 0x01) (gen_mcmp OR_LINKPL 0 BPF_B 0x40 0xf0)
      else if proto = Q_IPV6 then
        both_and (gen_mcmp OR_LINKPL (- 2) BPF_B 0x01 0x01) (gen_mcmp OR_LINKPL 0 BPF_B 0x60 0xf0)
      else gfail Aborts)"

definition gen_check_802_11_data_frame :: "nat gen" where
  "gen_check_802_11_data_frame =
     and_before (load_jset OR_LINKHDR 0 BPF_B 0x08) (negated (load_jset OR_LINKHDR 0 BPF_B 0x04))"

text \<open>
  \<open>gen_geneve_ll_check\<close> compares the registers that hold the starts of the inner link-layer header
  and of its payload.
\<close>

definition gen_geneve_ll_check :: "nat gen" where
  "gen_geneve_ll_check =
     gbind (gget cs_layout) (\<lambda>l.
     gbind (new_stmt (BPF_LD OR BPF_MEM) (word_of_int (ao_reg (off_linkhdr l)))) (\<lambda>s1.
     gbind (new_stmt (BPF_LDX OR BPF_MEM) (word_of_int (ao_reg (off_linkpl l)))) (\<lambda>s2.
       negated (block_with (ucast (BPF_JMP OR BPF_JEQ OR BPF_X)) (s1 @ s2) 0))))"

definition gen_prevlinkhdr_check :: "nat option gen" where
  "gen_prevlinkhdr_check =
     gbind (gget cs_layout) (\<lambda>l.
       if is_geneve l then gbind gen_geneve_ll_check (\<lambda>b. gret (Some b))
       else if prevlinktype l = DLT_SUNATM then
         gbind (negated (gen_cmp OR_PREVLINKHDR 4 BPF_H 0xFF00)) (\<lambda>b. gret (Some b))
       else gret None)"

text \<open>\<open>gen_atmfield_code\<close>; \<open>offset_or_abort\<close> is the test for an offset of -1.\<close>

abbreviation (input) "A_VPI \<equiv> 51 :: int"
abbreviation (input) "A_VCI \<equiv> 52 :: int"
abbreviation (input) "A_PROTOTYPE \<equiv> 53 :: int"
abbreviation (input) "A_MSGTYPE \<equiv> 54 :: int"
abbreviation (input) "A_CALLREFTYPE \<equiv> 55 :: int"
abbreviation (input) "PT_LLC \<equiv> 0x02 :: u32"
abbreviation (input) "MSG_TYPE_POS \<equiv> 5 :: u32"

definition gen_atmfield_code :: "int \<Rightarrow> u32 \<Rightarrow> u16 \<Rightarrow> bool \<Rightarrow> nat gen" where
  "gen_atmfield_code atmfield jvalue jtype rvs =
     gbind (gget cs_layout) (\<lambda>l.
       if atmfield = A_VPI then
         if \<not> is_atm l then gfail (Bpf_error (quoted ''vpi'' '' supported only on raw ATM'') [])
         else if off_vpi l = - 1 then gfail Aborts
         else gen_ncmp OR_LINKHDR (off_vpi l) BPF_B 0xffffffff jtype rvs jvalue
       else if atmfield = A_VCI then
         if \<not> is_atm l then gfail (Bpf_error (quoted ''vci'' '' supported only on raw ATM'') [])
         else if off_vci l = - 1 then gfail Aborts
         else gen_ncmp OR_LINKHDR (off_vci l) BPF_H 0xffffffff jtype rvs jvalue
       else if atmfield = A_PROTOTYPE then
         if off_proto l = - 1 then gfail Aborts
         else gen_ncmp OR_LINKHDR (off_proto l) BPF_B 0x0f jtype rvs jvalue
       else if atmfield = A_MSGTYPE then
         if off_payload l = - 1 then gfail Aborts
         else gen_ncmp OR_LINKHDR (off_payload l + MSG_TYPE_POS) BPF_B 0xffffffff jtype rvs jvalue
       else if atmfield = A_CALLREFTYPE then
         if \<not> is_atm l then gfail (Bpf_error (quoted ''callref'' '' supported only on raw ATM'') [])
         else if off_proto l = - 1 then gfail Aborts
         else gen_ncmp OR_LINKHDR (off_proto l) BPF_B 0xffffffff jtype rvs jvalue
       else gfail Aborts)"

section \<open>The switch on the link layer\<close>

definition ethertype_to_ppptype :: "int \<Rightarrow> int" where
  "ethertype_to_ppptype proto =
     (case map_of
        [(ETHERTYPE_IP, PPP_IP), (ETHERTYPE_IPV6, PPP_IPV6), (ETHERTYPE_DN, PPP_DECNET),
         (ETHERTYPE_ATALK, PPP_APPLE), (ETHERTYPE_NS, PPP_NS), (LLCSAP_ISONS, PPP_OSI),
         (LLCSAP_8021D, PPP_BRPDU), (LLCSAP_IPX, PPP_IPX)] proto of
        Some p \<Rightarrow> p | None \<Rightarrow> proto)"

abbreviation (input) "ARCTYPE_IP_OLD \<equiv> 240 :: u32"
abbreviation (input) "ARCTYPE_ARP_OLD \<equiv> 241 :: u32"
abbreviation (input) "ARCTYPE_IP \<equiv> 212 :: u32"
abbreviation (input) "ARCTYPE_ARP \<equiv> 213 :: u32"
abbreviation (input) "ARCTYPE_REVARP \<equiv> 214 :: u32"
abbreviation (input) "ARCTYPE_ATALK \<equiv> 221 :: u32"
abbreviation (input) "ARCTYPE_INET6 \<equiv> 0xc4 :: u32"

text \<open>
  \<open>gen_linktype\<close>. The cases of the \<open>switch\<close> that are longer than a line are functions of their
  own, and those that only report an error are a table.
\<close>

definition raw_linktype :: "int \<Rightarrow> nat gen" where
  "raw_linktype proto =
     (if proto = ETHERTYPE_IP then gen_mcmp OR_LINKHDR 0 BPF_B 0x40 0xF0
      else if proto = ETHERTYPE_IPV6 then gen_mcmp OR_LINKHDR 0 BPF_B 0x60 0xF0
      else gen_false)"

definition ppp_bsdos_linktype :: "int \<Rightarrow> nat gen" where
  "ppp_bsdos_linktype proto =
     (if proto = ETHERTYPE_IP then
        both_or
          (both_or (gen_cmp OR_LINKTYPE 0 BPF_H (word_of_int PPP_IP)) (gen_cmp OR_LINKTYPE 0 BPF_H PPP_VJC))
          (gen_cmp OR_LINKTYPE 0 BPF_H PPP_VJNC)
      else gen_cmp OR_LINKTYPE 0 BPF_H (word_of_int (ethertype_to_ppptype proto)))"

definition null_family :: "host \<Rightarrow> int \<Rightarrow> int \<Rightarrow> u32 option" where
  "null_family hp lt proto =
     (let af = (if proto = ETHERTYPE_IP then Some (word_of_int (h_af_inet hp))
          else if proto = ETHERTYPE_IPV6 then Some (word_of_int (h_af_inet6 hp)) else None);
        in_host_order = (\<lambda>v. htonl hp (if h_rfile hp \<and> h_swapped hp then SWAPLONG v else v))
      in if lt = DLT_NULL \<or> lt = DLT_ENC (h_platform hp) then map_option in_host_order af else af)"

definition null_linktype :: "host \<Rightarrow> int \<Rightarrow> int \<Rightarrow> nat gen" where
  "null_linktype hp lt proto =
     (case null_family hp lt proto of
        None \<Rightarrow> gen_false
      | Some af \<Rightarrow> gen_cmp OR_LINKHDR 0 BPF_W af)"

definition arcnet_linktype :: "int \<Rightarrow> nat gen" where
  "arcnet_linktype proto =
     (if proto = ETHERTYPE_IPV6 then gen_cmp OR_LINKTYPE 0 BPF_B ARCTYPE_INET6
      else if proto = ETHERTYPE_IP then
        both_or (gen_cmp OR_LINKTYPE 0 BPF_B ARCTYPE_IP) (gen_cmp OR_LINKTYPE 0 BPF_B ARCTYPE_IP_OLD)
      else if proto = ETHERTYPE_ARP then
        both_or (gen_cmp OR_LINKTYPE 0 BPF_B ARCTYPE_ARP) (gen_cmp OR_LINKTYPE 0 BPF_B ARCTYPE_ARP_OLD)
      else if proto = ETHERTYPE_REVARP then gen_cmp OR_LINKTYPE 0 BPF_B ARCTYPE_REVARP
      else if proto = ETHERTYPE_ATALK then gen_cmp OR_LINKTYPE 0 BPF_B ARCTYPE_ATALK
      else gen_false)"

definition frelay_linktype :: "int \<Rightarrow> nat gen" where
  "frelay_linktype proto =
     (if proto = ETHERTYPE_IP then gen_cmp OR_LINKHDR 2 BPF_H 0x03cc
      else if proto = ETHERTYPE_IPV6 then gen_cmp OR_LINKHDR 2 BPF_H 0x038e
      else if proto = LLCSAP_ISONS then
        both_or (gen_cmp OR_LINKHDR 2 BPF_H (0x0300 OR word_of_int ISO8473_CLNP))
          (both_or (gen_cmp OR_LINKHDR 2 BPF_H (0x0300 OR word_of_int ISO9542_ESIS))
            (gen_cmp OR_LINKHDR 2 BPF_H (0x0300 OR word_of_int ISO10589_ISIS)))
      else gen_false)"

definition not_implemented :: "platform \<Rightarrow> (int \<times> string) list" where
  "not_implemented pf =
     [(DLT_MFR, ''Multi-link Frame Relay''), (DLT_LINUX_IRDA, ''IrDA''), (DLT_DOCSIS, ''DOCSIS''),
      (DLT_MTP2, ''MTP2''), (DLT_MTP2_WITH_PHDR, ''MTP2''), (DLT_ERF, ''ERF''),
      (DLT_PFSYNC pf, ''PFSYNC''), (DLT_LINUX_LAPD, ''LAPD''), (DLT_USB, ''USB''),
      (DLT_USB_LINUX, ''USB''), (DLT_USB_LINUX_MMAPPED, ''USB''), (DLT_BLUETOOTH_HCI_H4, ''Bluetooth''),
      (DLT_BLUETOOTH_HCI_H4_WITH_PHDR, ''Bluetooth''), (DLT_CAN20B, ''CAN''), (DLT_CAN_SOCKETCAN, ''CAN''),
      (DLT_IEEE802_15_4, ''IEEE 802.15.4''), (DLT_IEEE802_15_4_LINUX, ''IEEE 802.15.4''),
      (DLT_IEEE802_15_4_NONASK_PHY, ''IEEE 802.15.4''), (DLT_IEEE802_15_4_NOFCS, ''IEEE 802.15.4''),
      (DLT_IEEE802_16_MAC_CPS_RADIO, ''IEEE 802.16''), (DLT_SITA, ''SITA''), (DLT_RAIF1, ''RAIF1''),
      (DLT_IPMB, ''IPMB''), (DLT_AX25_KISS, ''AX.25''), (DLT_NFLOG, ''NFLOG'')]"

definition gen_linktype :: "host \<Rightarrow> int \<Rightarrow> nat gen" where
  "gen_linktype hp proto =
     gbind (gget cs_layout) (\<lambda>l.
       let pf = h_platform hp; lt = linktype l in
       if 0 < label_stack_depth l then
         if proto \<in> {ETHERTYPE_IP, PPP_IP} then gen_mpls_linktype Q_IP
         else if proto \<in> {ETHERTYPE_IPV6, PPP_IPV6} then gen_mpls_linktype Q_IPV6
         else gfail (Bpf_error ''unsupported protocol over mpls'' [])
       else if lt \<in> {DLT_EN10MB, DLT_NETANALYZER, DLT_NETANALYZER_TRANSPARENT} then
         opt_and (if \<not> is_geneve l then gen_prevlinkhdr_check else gret None) (gen_ether_linktype proto)
       else if lt = DLT_C_HDLC then
         gen_cmp OR_LINKTYPE 0 BPF_H (if proto = LLCSAP_ISONS then sap_pair proto else word_of_int proto)
       else if lt \<in> {DLT_IEEE802_11, DLT_PRISM_HEADER, DLT_IEEE802_11_RADIO_AVS, DLT_IEEE802_11_RADIO, DLT_PPI} then
         both_and gen_check_802_11_data_frame (gen_llc_linktype proto)
       else if lt \<in> {DLT_FDDI, DLT_IEEE802, DLT_ATM_RFC1483, DLT_ATM_CLIP, DLT_IP_OVER_FC} then
         gen_llc_linktype proto
       else if lt = DLT_SUNATM then
         both_and (gen_atmfield_code A_PROTOTYPE PT_LLC BPF_JEQ False) (gen_llc_linktype proto)
       else if lt = DLT_LINUX_SLL then gen_linux_sll_linktype proto
       else if lt \<in> {DLT_SLIP, DLT_SLIP_BSDOS pf, DLT_RAW pf} then raw_linktype proto
       else if lt = DLT_IPV4 then if proto = ETHERTYPE_IP then gen_true else gen_false
       else if lt = DLT_IPV6 then if proto = ETHERTYPE_IPV6 then gen_true else gen_false
       else if lt \<in> {DLT_PPP, DLT_PPP_PPPD, DLT_PPP_SERIAL, DLT_PPP_ETHER} then
         gen_cmp OR_LINKTYPE 0 BPF_H (word_of_int (ethertype_to_ppptype proto))
       else if lt = DLT_PPP_BSDOS pf then ppp_bsdos_linktype proto
       else if lt \<in> {DLT_NULL, DLT_LOOP pf, DLT_ENC pf} then null_linktype hp lt proto
       else if lt \<in> {DLT_ARCNET, DLT_ARCNET_LINUX} then arcnet_linktype proto
       else if lt = DLT_LTALK then if proto = ETHERTYPE_ATALK then gen_true else gen_false
       else if lt = DLT_FRELAY then frelay_linktype proto
       else if lt \<in> {DLT_JUNIPER_MFR, DLT_JUNIPER_MLFR, DLT_JUNIPER_MLPPP, DLT_JUNIPER_ATM1,
           DLT_JUNIPER_ATM2, DLT_JUNIPER_PPPOE, DLT_JUNIPER_PPPOE_ATM, DLT_JUNIPER_GGSN, DLT_JUNIPER_ES,
           DLT_JUNIPER_MONITOR, DLT_JUNIPER_SERVICES, DLT_JUNIPER_ETHER, DLT_JUNIPER_PPP,
           DLT_JUNIPER_FRELAY, DLT_JUNIPER_CHDLC, DLT_JUNIPER_VP, DLT_JUNIPER_ST, DLT_JUNIPER_ISM,
           DLT_JUNIPER_VS, DLT_JUNIPER_SRX_E2E, DLT_JUNIPER_FIBRECHANNEL, DLT_JUNIPER_ATM_CEMIC} then
         gen_mcmp OR_LINKHDR 0 BPF_W 0x4d474300 0xffffff00
       else if lt = DLT_BACNET_MS_TP then gen_mcmp OR_LINKHDR 0 BPF_W 0x55FF0000 0xffff0000
       else if lt = DLT_IPNET then gen_ipnet_linktype proto
       else case map_of (not_implemented pf) lt of
         Some n \<Rightarrow> gfail (Bpf_error (n @ '' link-layer type filtering not implemented'') [])
       | None \<Rightarrow>
           if constant_part (off_linktype l) \<noteq> - 1 then gen_cmp OR_LINKTYPE 0 BPF_H (word_of_int proto)
           else case pcap_datalink_val_to_description pf lt of
             Some d \<Rightarrow> gfail (Bpf_error (d @ '' link-layer type filtering not implemented'') [])
           | None \<Rightarrow> gfail (Bpf_error ''DLT %u link-layer type filtering not implemented'' [lt]))"

end
