(* ===== verification/Gencode_Ports.thy ===== *)
theory Gencode_Ports
  imports Gencode_Linktype
begin

unbundle bit_operations_syntax

text \<open>
  The tests for ports and port ranges, and for the protocols inside IP, IPv6, OSI and IS-IS
  (jni/libpcap/gencode.c).
\<close>

abbreviation (input) "IPPROTO_ICMP \<equiv> 1 :: int"
abbreviation (input) "IPPROTO_IGMP \<equiv> 2 :: int"
abbreviation (input) "IPPROTO_TCP \<equiv> 6 :: int"
abbreviation (input) "IPPROTO_IGRP \<equiv> 9 :: int"
abbreviation (input) "IPPROTO_UDP \<equiv> 17 :: int"
abbreviation (input) "IPPROTO_FRAGMENT \<equiv> 44 :: u32"
abbreviation (input) "IPPROTO_ESP \<equiv> 50 :: int"
abbreviation (input) "IPPROTO_AH \<equiv> 51 :: int"
abbreviation (input) "IPPROTO_ICMPV6 \<equiv> 58 :: int"
abbreviation (input) "IPPROTO_PIM \<equiv> 103 :: int"
abbreviation (input) "IPPROTO_VRRP \<equiv> 112 :: int"
abbreviation (input) "IPPROTO_CARP \<equiv> 112 :: int"
abbreviation (input) "IPPROTO_SCTP \<equiv> 132 :: int"
abbreviation (input) "PROTO_UNDEF \<equiv> -1 :: int"

section \<open>Ports\<close>

definition gen_ipfrag :: "nat gen" where
  "gen_ipfrag = negated (load_jset OR_LINKPL 6 BPF_H 0x1fff)"

definition gen_portatom :: "u32 \<Rightarrow> int \<Rightarrow> nat gen" where
  "gen_portatom off v = gen_cmp OR_TRAN_IPV4 off BPF_H (word_of_int v)"

definition gen_portatom6 :: "u32 \<Rightarrow> int \<Rightarrow> nat gen" where
  "gen_portatom6 off v = gen_cmp OR_TRAN_IPV6 off BPF_H (word_of_int v)"

text \<open>The four directions of a port, tested by \<open>atom\<close> at its offset in the transport header.\<close>

definition port_direction :: "(u32 \<Rightarrow> nat gen) \<Rightarrow> int \<Rightarrow> nat gen" where
  "port_direction atom dir =
     (if dir = Q_SRC then atom 0
      else if dir = Q_DST then atom 2
      else if dir \<in> {Q_OR, Q_DEFAULT} then both_or (atom 0) (atom 2)
      else if dir = Q_AND then both_and (atom 0) (atom 2)
      else gfail Aborts)"

definition gen_portop :: "int \<Rightarrow> int \<Rightarrow> int \<Rightarrow> nat gen" where
  "gen_portop port proto dir =
     both_and (both_and (gen_cmp OR_LINKPL 9 BPF_B (word_of_int proto)) gen_ipfrag)
       (port_direction (\<lambda>off. gen_portatom off port) dir)"

definition gen_portop6 :: "int \<Rightarrow> int \<Rightarrow> int \<Rightarrow> nat gen" where
  "gen_portop6 port proto dir =
     both_and (gen_cmp OR_LINKPL 6 BPF_B (word_of_int proto))
       (port_direction (\<lambda>off. gen_portatom6 off port) dir)"

definition gen_portrangeatom :: "u32 \<Rightarrow> int \<Rightarrow> int \<Rightarrow> nat gen" where
  "gen_portrangeatom off v1 v2 =
     (let lo = (if v2 < v1 then v2 else v1); hi = (if v2 < v1 then v1 else v2) in
      both_and (gen_cmp_ge OR_TRAN_IPV4 off BPF_H (word_of_int lo))
        (gen_cmp_le OR_TRAN_IPV4 off BPF_H (word_of_int hi)))"

definition gen_portrangeatom6 :: "u32 \<Rightarrow> int \<Rightarrow> int \<Rightarrow> nat gen" where
  "gen_portrangeatom6 off v1 v2 =
     (let lo = (if v2 < v1 then v2 else v1); hi = (if v2 < v1 then v1 else v2) in
      both_and (gen_cmp_ge OR_TRAN_IPV6 off BPF_H (word_of_int lo))
        (gen_cmp_le OR_TRAN_IPV6 off BPF_H (word_of_int hi)))"

definition gen_portrangeop :: "int \<Rightarrow> int \<Rightarrow> int \<Rightarrow> int \<Rightarrow> nat gen" where
  "gen_portrangeop port1 port2 proto dir =
     both_and (both_and (gen_cmp OR_LINKPL 9 BPF_B (word_of_int proto)) gen_ipfrag)
       (port_direction (\<lambda>off. gen_portrangeatom off port1 port2) dir)"

definition gen_portrangeop6 :: "int \<Rightarrow> int \<Rightarrow> int \<Rightarrow> int \<Rightarrow> nat gen" where
  "gen_portrangeop6 port1 port2 proto dir =
     both_and (gen_cmp OR_LINKPL 6 BPF_B (word_of_int proto))
       (port_direction (\<lambda>off. gen_portrangeatom6 off port1 port2) dir)"

text \<open>The \<open>switch\<close> on the transport protocol that the four functions share.\<close>

definition by_transport :: "int \<Rightarrow> (int \<Rightarrow> nat gen) \<Rightarrow> nat gen" where
  "by_transport ip_proto op' =
     (if ip_proto \<in> {IPPROTO_UDP, IPPROTO_TCP, IPPROTO_SCTP} then op' ip_proto
      else if ip_proto = PROTO_UNDEF then
        or_before (both_or (op' IPPROTO_TCP) (op' IPPROTO_UDP)) (op' IPPROTO_SCTP)
      else gfail Aborts)"

definition gen_port :: "host \<Rightarrow> int \<Rightarrow> int \<Rightarrow> int \<Rightarrow> nat gen" where
  "gen_port hp port ip_proto dir =
     both_and (gen_linktype hp ETHERTYPE_IP) (by_transport ip_proto (\<lambda>p. gen_portop port p dir))"

definition gen_port6 :: "host \<Rightarrow> int \<Rightarrow> int \<Rightarrow> int \<Rightarrow> nat gen" where
  "gen_port6 hp port ip_proto dir =
     both_and (gen_linktype hp ETHERTYPE_IPV6) (by_transport ip_proto (\<lambda>p. gen_portop6 port p dir))"

definition gen_portrange :: "host \<Rightarrow> int \<Rightarrow> int \<Rightarrow> int \<Rightarrow> int \<Rightarrow> nat gen" where
  "gen_portrange hp port1 port2 ip_proto dir =
     both_and (gen_linktype hp ETHERTYPE_IP) (by_transport ip_proto (\<lambda>p. gen_portrangeop port1 port2 p dir))"

definition gen_portrange6 :: "host \<Rightarrow> int \<Rightarrow> int \<Rightarrow> int \<Rightarrow> int \<Rightarrow> nat gen" where
  "gen_portrange6 hp port1 port2 ip_proto dir =
     both_and (gen_linktype hp ETHERTYPE_IPV6) (by_transport ip_proto (\<lambda>p. gen_portrangeop6 port1 port2 p dir))"

section \<open>Protocols\<close>

definition proto_errors :: "(int \<times> string) list" where
  "proto_errors =
     [(Q_ARP, ''arp does not encapsulate another protocol''),
      (Q_RARP, ''rarp does not encapsulate another protocol''),
      (Q_ATALK, ''atalk encapsulation is not specifiable''),
      (Q_DECNET, ''decnet encapsulation is not specifiable''),
      (Q_SCA, ''sca does not encapsulate another protocol''),
      (Q_LAT, ''lat does not encapsulate another protocol''),
      (Q_MOPRC, ''moprc does not encapsulate another protocol''),
      (Q_MOPDL, ''mopdl does not encapsulate another protocol'')] @
     map (\<lambda>(q, n). (q, quoted (n @ '' proto'') '' is bogus''))
       [(Q_UDP, ''udp''), (Q_TCP, ''tcp''), (Q_SCTP, ''sctp''), (Q_ICMP, ''icmp''), (Q_IGMP, ''igmp''),
        (Q_IGRP, ''igrp''), (Q_PIM, ''pim''), (Q_VRRP, ''vrrp''), (Q_CARP, ''carp''),
        (Q_ICMPV6, ''icmp6''), (Q_AH, ''ah''), (Q_ESP, ''ah''), (Q_STP, ''stp''), (Q_IPX, ''ipx''),
        (Q_NETBEUI, ''netbeui''), (Q_RADIO, ''radio'')]"

text \<open>\<open>gen_proto\<close> without \<open>CHASE_CHAIN\<close>; the protocols that it calls itself for come first.\<close>

definition proto_ip :: "host \<Rightarrow> int \<Rightarrow> nat gen" where
  "proto_ip hp v = both_and (gen_linktype hp ETHERTYPE_IP) (gen_cmp OR_LINKPL 9 BPF_B (word_of_int v))"

definition proto_ipv6 :: "host \<Rightarrow> int \<Rightarrow> nat gen" where
  "proto_ipv6 hp v =
     both_and (gen_linktype hp ETHERTYPE_IPV6)
       (or_before
         (both_and (gen_cmp OR_LINKPL 6 BPF_B IPPROTO_FRAGMENT) (gen_cmp OR_LINKPL 40 BPF_B (word_of_int v)))
         (gen_cmp OR_LINKPL 6 BPF_B (word_of_int v)))"

definition proto_iso :: "host \<Rightarrow> int \<Rightarrow> nat gen" where
  "proto_iso hp v =
     gbind (gget cs_layout) (\<lambda>l.
       if linktype l = DLT_FRELAY then gen_cmp OR_LINKHDR 2 BPF_H (0x0300 OR word_of_int v)
       else if linktype l = DLT_C_HDLC then
         both_and (gen_linktype hp 0xfefe) (gen_cmp OR_LINKPL_NOSNAP 1 BPF_B (word_of_int v))
       else both_and (gen_linktype hp LLCSAP_ISONS) (gen_cmp OR_LINKPL_NOSNAP 0 BPF_B (word_of_int v)))"

definition gen_proto :: "host \<Rightarrow> int \<Rightarrow> int \<Rightarrow> int \<Rightarrow> nat gen" where
  "gen_proto hp v proto dir =
     (if dir \<noteq> Q_DEFAULT then gfail (Bpf_error (''direction applied to '' @ quoted ''proto'' []) [])
      else if proto = Q_DEFAULT then both_or (proto_ip hp v) (proto_ipv6 hp v)
      else if proto = Q_IP then proto_ip hp v
      else if proto = Q_ISO then proto_iso hp v
      else if proto = Q_ISIS then
        both_and (proto_iso hp ISO10589_ISIS) (gen_cmp OR_LINKPL_NOSNAP 4 BPF_B (word_of_int v))
      else if proto = Q_LINK then gen_linktype hp v
      else if proto = Q_IPV6 then proto_ipv6 hp v
      else fail_from proto_errors proto)"

section \<open>Protocol names\<close>

text \<open>
  \<open>gen_proto_abbrev\<close>: protocols inside both IP and IPv6 (the test for IPv6 is generated last and
  made first), inside one of them, of the link layer, and groups of IS-IS packets.
\<close>

definition both_families :: "(int \<times> int) list" where
  "both_families =
     [(Q_SCTP, IPPROTO_SCTP), (Q_TCP, IPPROTO_TCP), (Q_UDP, IPPROTO_UDP), (Q_PIM, IPPROTO_PIM),
      (Q_AH, IPPROTO_AH), (Q_ESP, IPPROTO_ESP)]"

definition one_family :: "(int \<times> int \<times> int) list" where
  "one_family =
     [(Q_ICMP, IPPROTO_ICMP, Q_IP), (Q_IGMP, IPPROTO_IGMP, Q_IP), (Q_IGRP, IPPROTO_IGRP, Q_IP),
      (Q_VRRP, IPPROTO_VRRP, Q_IP), (Q_CARP, IPPROTO_CARP, Q_IP), (Q_ICMPV6, IPPROTO_ICMPV6, Q_IPV6),
      (Q_ESIS, ISO9542_ESIS, Q_ISO), (Q_ISIS, ISO10589_ISIS, Q_ISO), (Q_CLNP, ISO8473_CLNP, Q_ISO)]"

definition link_protocols :: "(int \<times> int) list" where
  "link_protocols =
     [(Q_IP, ETHERTYPE_IP), (Q_ARP, ETHERTYPE_ARP), (Q_RARP, ETHERTYPE_REVARP), (Q_ATALK, ETHERTYPE_ATALK),
      (Q_AARP, ETHERTYPE_AARP), (Q_DECNET, ETHERTYPE_DN), (Q_SCA, ETHERTYPE_SCA), (Q_LAT, ETHERTYPE_LAT),
      (Q_MOPDL, ETHERTYPE_MOPDL), (Q_MOPRC, ETHERTYPE_MOPRC), (Q_IPV6, ETHERTYPE_IPV6),
      (Q_ISO, LLCSAP_ISONS), (Q_STP, LLCSAP_8021D), (Q_IPX, LLCSAP_IPX), (Q_NETBEUI, LLCSAP_NETBEUI)]"

abbreviation (input) "ISIS_L1_LAN_IIH \<equiv> 15 :: int"
abbreviation (input) "ISIS_L2_LAN_IIH \<equiv> 16 :: int"
abbreviation (input) "ISIS_PTP_IIH \<equiv> 17 :: int"
abbreviation (input) "ISIS_L1_LSP \<equiv> 18 :: int"
abbreviation (input) "ISIS_L2_LSP \<equiv> 20 :: int"
abbreviation (input) "ISIS_L1_CSNP \<equiv> 24 :: int"
abbreviation (input) "ISIS_L2_CSNP \<equiv> 25 :: int"
abbreviation (input) "ISIS_L1_PSNP \<equiv> 26 :: int"
abbreviation (input) "ISIS_L2_PSNP \<equiv> 27 :: int"

definition isis_groups :: "(int \<times> int list) list" where
  "isis_groups =
     [(Q_ISIS_L1, [ISIS_L1_LAN_IIH, ISIS_PTP_IIH, ISIS_L1_LSP, ISIS_L1_CSNP, ISIS_L1_PSNP]),
      (Q_ISIS_L2, [ISIS_L2_LAN_IIH, ISIS_PTP_IIH, ISIS_L2_LSP, ISIS_L2_CSNP, ISIS_L2_PSNP]),
      (Q_ISIS_IIH, [ISIS_L1_LAN_IIH, ISIS_L2_LAN_IIH, ISIS_PTP_IIH]),
      (Q_ISIS_LSP, [ISIS_L1_LSP, ISIS_L2_LSP]),
      (Q_ISIS_SNP, [ISIS_L1_CSNP, ISIS_L2_CSNP, ISIS_L1_PSNP, ISIS_L2_PSNP]),
      (Q_ISIS_CSNP, [ISIS_L1_CSNP, ISIS_L2_CSNP]),
      (Q_ISIS_PSNP, [ISIS_L1_PSNP, ISIS_L2_PSNP])]"

text \<open>
  One of several: \<open>b0 = m0; b1 = m1; gen_or(b0, b1);\<close> and then \<open>b0 = m; gen_or(b0, b1);\<close> for each
  further one.
\<close>

fun or_more :: "nat gen \<Rightarrow> nat gen list \<Rightarrow> nat gen" where
  "or_more b1 [] = b1"
| "or_more b1 (m # ms) = or_more (or_before b1 m) ms"

fun one_of :: "nat gen list \<Rightarrow> nat gen" where
  "one_of (m0 # m1 # ms) = or_more (both_or m0 m1) ms"
| "one_of [m] = m"
| "one_of [] = gfail Aborts"

definition gen_proto_abbrev :: "host \<Rightarrow> int \<Rightarrow> nat gen" where
  "gen_proto_abbrev hp proto =
     (case map_of both_families proto of Some v \<Rightarrow> or_before (gen_proto hp v Q_IP Q_DEFAULT) (gen_proto hp v Q_IPV6 Q_DEFAULT)
      | None \<Rightarrow> case map_of one_family proto of Some (v, q) \<Rightarrow> gen_proto hp v q Q_DEFAULT
      | None \<Rightarrow> case map_of link_protocols proto of Some v \<Rightarrow> gen_linktype hp v
      | None \<Rightarrow> case map_of isis_groups proto of Some vs \<Rightarrow> one_of (map (\<lambda>v. gen_proto hp v Q_ISIS Q_DEFAULT) vs)
      | None \<Rightarrow> fail_from [(Q_LINK, ''link layer applied in wrong context''),
          (Q_RADIO, quoted ''radio'' '' is not a valid protocol type'')] proto)"

end
