(* ===== verification/Nametoaddr.thy ===== *)
theory Nametoaddr
  imports Gencode_Ports Bpf_Image
begin

unbundle bit_operations_syntax

text \<open>
  Names and addresses written in filters (jni/libpcap/nametoaddr.c, etherent.c, and \<open>stoi\<close> of
  scanner.l): numbers, dotted quads, DECnet and Ethernet addresses, ports and port ranges, the
  tables of Ethernet and 802.2 protocols, and the file of Ethernet hosts. The configuration is
  that of config.h: no \<open>ether_hostton\<close> in the C library, no DECnet library.

  A name is a string. The databases of the C library (hosts, networks, services, protocols) and
  the contents of the file \<open>/etc/ethers\<close> are a record of functions.
\<close>

section \<open>Characters\<close>

text \<open>Characters as \<open>getc\<close> returns them; -1 is \<open>EOF\<close>. The predicates are those of the C locale.\<close>

definition char_code :: "char \<Rightarrow> int" where
  "char_code c = of_char c"

definition isdigit :: "int \<Rightarrow> bool" where
  "isdigit c \<longleftrightarrow> 48 \<le> c \<and> c \<le> 57"

definition islower :: "int \<Rightarrow> bool" where
  "islower c \<longleftrightarrow> 97 \<le> c \<and> c \<le> 122"

definition isxdigit :: "int \<Rightarrow> bool" where
  "isxdigit c \<longleftrightarrow> isdigit c \<or> 65 \<le> c \<and> c \<le> 70 \<or> 97 \<le> c \<and> c \<le> 102"

definition isspace :: "int \<Rightarrow> bool" where
  "isspace c \<longleftrightarrow> 9 \<le> c \<and> c \<le> 13 \<or> c = 32"

definition xdtoi :: "int \<Rightarrow> int" where
  "xdtoi c = (if isdigit c then c - 48 else if islower c then c - 97 + 10 else c - 65 + 10)"

text \<open>The value of a \<open>char\<close>, which is signed.\<close>

definition schar :: "char \<Rightarrow> int" where
  "schar c = (if char_code c < 128 then char_code c else char_code c - 256)"

section \<open>Numbers\<close>

text \<open>\<open>stoi\<close> of the scanner.\<close>

fun stoi_digits :: "int \<Rightarrow> u32 \<Rightarrow> string \<Rightarrow> u32" where
  "stoi_digits base n [] = n"
| "stoi_digits base n (c # s) = stoi_digits base (n * word_of_int base + word_of_int (xdtoi (char_code c))) s"

definition stoi :: "string \<Rightarrow> u32" where
  "stoi s =
     (case s of
        CHR ''0'' # CHR ''x'' # t \<Rightarrow> stoi_digits 16 0 t
      | CHR ''0'' # CHR ''X'' # t \<Rightarrow> stoi_digits 16 0 t
      | CHR ''0'' # t \<Rightarrow> stoi_digits 8 0 t
      | _ \<Rightarrow> stoi_digits 10 0 s)"

text \<open>
  \<open>__pcap_atoin\<close>: the number of bits and the address. The inner loop reads up to a period,
  whatever the characters are.
\<close>

fun atoin_number :: "u32 \<Rightarrow> string \<Rightarrow> u32 \<times> string" where
  "atoin_number n [] = (n, [])"
| "atoin_number n (c # s) =
     (if c = CHR ''.'' then (n, c # s) else atoin_number (n * 10 + word_of_int (schar c) - 48) s)"

lemma atoin_number_shorter: "length (snd (atoin_number n s)) \<le> length s"
  by (induction n s rule: atoin_number.induct) auto

function atoin_from :: "u32 \<Rightarrow> int \<Rightarrow> string \<Rightarrow> int \<times> u32" where
  "atoin_from addr len s =
     (let addr = push_bit 8 addr OR (fst (atoin_number 0 s) AND 0xff); len = len + 8 in
      case snd (atoin_number 0 s) of [] \<Rightarrow> (len, addr) | _ # t \<Rightarrow> atoin_from addr len t)"
  by auto
termination
proof (relation "measure (\<lambda>(addr, len, s). length s)", simp)
  fix addr :: u32 and len :: int and s t xa x c
  assume "snd (atoin_number 0 s) = c # t"
  with atoin_number_shorter [of 0 s] have "length t < length s" by simp
  then show "((xa, x, t), addr, len, s) \<in> measure (\<lambda>(addr, len, s). length s)" by simp
qed

declare atoin_from.simps [simp del]

definition pcap_atoin :: "string \<Rightarrow> int \<times> u32" where
  "pcap_atoin s = atoin_from 0 0 s"

text \<open>
  The conversion \<open>%d\<close> of \<open>sscanf\<close>: white space, a sign, digits. A number outside the range of
  \<open>int\<close>, which C leaves undefined, is taken as it is.
\<close>

fun scan_digits :: "int \<Rightarrow> string \<Rightarrow> int \<times> string" where
  "scan_digits n [] = (n, [])"
| "scan_digits n (c # s) =
     (if isdigit (char_code c) then scan_digits (n * 10 + (char_code c - 48)) s else (n, c # s))"

fun skip_white :: "string \<Rightarrow> string" where
  "skip_white [] = []"
| "skip_white (c # s) = (if isspace (char_code c) then skip_white s else c # s)"

definition scan_int :: "string \<Rightarrow> (int \<times> string) option" where
  "scan_int s =
     (let s = skip_white s;
        (sign, t) = (case s of CHR ''-'' # t \<Rightarrow> (- 1, t) | CHR ''+'' # t \<Rightarrow> (1, t) | _ \<Rightarrow> (1, s)) in
      case t of
        [] \<Rightarrow> None
      | c # _ \<Rightarrow>
          if isdigit (char_code c) then (let (n, u) = scan_digits 0 t in Some (sign * n, u)) else None)"

text \<open>\<open>sscanf(s, "%d" c "%d", ...) == 2\<close>.\<close>

definition scan_two :: "char \<Rightarrow> string \<Rightarrow> (int \<times> int) option" where
  "scan_two c s =
     (case scan_int s of
        Some (a, d # t) \<Rightarrow>
          if d = c then (case scan_int t of Some (b, _) \<Rightarrow> Some (a, b) | None \<Rightarrow> None) else None
      | _ \<Rightarrow> None)"

text \<open>\<open>__pcap_atodn\<close>.\<close>

abbreviation (input) "AREAMASK \<equiv> 0xfc00 :: u32"
abbreviation (input) "NODEMASK \<equiv> 0x3ff :: u32"

definition pcap_atodn :: "string \<Rightarrow> gen_error + u32" where
  "pcap_atodn s =
     (case scan_two CHR ''.'' s of
        None \<Rightarrow> Inl (Bpf_error (''malformed decnet address '' @ quoted s []) [])
      | Some (area, node) \<Rightarrow>
          Inr ((push_bit 10 (word_of_int area) AND AREAMASK) OR (word_of_int node AND NODEMASK)))"

section \<open>Ethernet addresses\<close>

text \<open>
  \<open>pcap_ether_aton\<close> into its buffer of six bytes: \<open>None\<close> when it writes outside the buffer or
  reads behind the end of the string.
\<close>

definition separators :: "char set" where
  "separators = {CHR '':'', CHR ''.'', CHR ''-''}"

definition ether_digits :: "char \<Rightarrow> string \<Rightarrow> u8 \<times> string" where
  "ether_digits c t =
     (let d = word_of_int (xdtoi (char_code c)) :: u32 in
      case t of
        c' # u \<Rightarrow>
          if isxdigit (char_code c') then (ucast (push_bit 4 d OR word_of_int (xdtoi (char_code c'))), u)
          else (ucast d, t)
      | [] \<Rightarrow> (ucast d, []))"

lemma ether_digits_shorter: "length (snd (ether_digits c t)) \<le> length t"
  by (auto simp: ether_digits_def Let_def split: list.split)

function ether_bytes :: "u8 list \<Rightarrow> string \<Rightarrow> u8 list option" where
  "ether_bytes out [] = Some out"
| "ether_bytes out (c # s) =
     (case (if c \<in> separators then s else c # s) of
        [] \<Rightarrow> None
      | c # t \<Rightarrow>
          let (d, t) = ether_digits c t in
          if length out = 6 then None else ether_bytes (out @ [d]) t)"
  by pat_completeness auto
termination
proof (relation "measure (\<lambda>(out, s). length s)", simp)
  fix out :: "u8 list" and c s c' t x d u
  assume 1: "(if c \<in> separators then s else c # s) = c' # t" "x = ether_digits c' t" "(d, u) = x"
  have "length u \<le> length t" using ether_digits_shorter [of c' t] 1 by (metis snd_conv)
  moreover have "length t \<le> length s" using 1(1) by (auto split: if_splits)
  ultimately show "((out @ [d], u), out, c # s) \<in> measure (\<lambda>(out, s). length s)" by simp
qed

definition pcap_ether_aton :: "string \<Rightarrow> u8 list option" where
  "pcap_ether_aton s = ether_bytes [] s"

section \<open>The file of Ethernet hosts\<close>

text \<open>The characters left in the file.\<close>

definition NEWLINE :: int where
  "NEWLINE = 10"

definition EOF :: int where
  "EOF = - 1"

fun getc :: "u8 list \<Rightarrow> int \<times> u8 list" where
  "getc [] = (EOF, [])"
| "getc (c # f) = (uint c, f)"

fun skip_space :: "u8 list \<Rightarrow> int \<times> u8 list" where
  "skip_space [] = (EOF, [])"
| "skip_space (c # f) = (if isspace (uint c) \<and> uint c \<noteq> NEWLINE then skip_space f else (uint c, f))"

fun skip_line :: "u8 list \<Rightarrow> int \<times> u8 list" where
  "skip_line [] = (EOF, [])"
| "skip_line (c # f) = (if uint c \<noteq> NEWLINE then skip_line f else (uint c, f))"

text \<open>The loop over \<open>e.addr\<close>; \<open>c\<close> is the character read last and \<open>n\<close> the bytes left.\<close>

fun ether_octets :: "nat \<Rightarrow> int \<Rightarrow> u8 list \<Rightarrow> u8 list \<Rightarrow> int \<times> u8 list \<times> u8 list" where
  "ether_octets 0 c f addr = (c, f, addr)"
| "ether_octets (Suc n) c f addr =
     (let d = xdtoi c;
        (c, f) = getc f;
        (d, c, f) = (if isxdigit c then (push_bit 4 d OR xdtoi c, getc f) else (d, c, f));
        addr = addr[5 - n := word_of_int d] in
      if c \<noteq> char_code CHR '':'' then (c, f, addr)
      else (let (c, f) = getc f in ether_octets n c f addr))"

text \<open>The name, of at most \<open>d\<close> characters, the character behind it and the rest.\<close>

fun pick_name :: "nat \<Rightarrow> int \<Rightarrow> u8 list \<Rightarrow> u8 list \<times> int \<times> u8 list" where
  "pick_name d c [] = ([word_of_int c], EOF, [])"
| "pick_name d c (c' # f) =
     (if \<not> isspace (uint c') \<and> 1 < d
      then (let (nm, r) = pick_name (d - 1) (uint c') f in (word_of_int c # nm, r))
      else ([word_of_int c], uint c', f))"

lemma skips_shorter:
  "length (snd (getc f)) \<le> length f" "length (snd (skip_space f)) \<le> length f" "length (snd (skip_line f)) \<le> length f"
  "fst (getc f) \<noteq> EOF \<Longrightarrow> length (snd (getc f)) < length f"
  "fst (skip_space f) \<noteq> EOF \<Longrightarrow> length (snd (skip_space f)) < length f"
  "fst (skip_line f) \<noteq> EOF \<Longrightarrow> length (snd (skip_line f)) < length f"
  by (cases f; simp) (induction f; auto)+

lemma space_shorter: "(c, f') = skip_space f \<Longrightarrow> length f' \<le> length f \<and> (c \<noteq> EOF \<longrightarrow> length f' < length f)"
  by (metis skips_shorter(2,5) fst_conv snd_conv)

lemma line_shorter: "(c, f') = skip_line f \<Longrightarrow> length f' \<le> length f \<and> (c \<noteq> EOF \<longrightarrow> length f' < length f)"
  by (metis skips_shorter(3,6) fst_conv snd_conv)

lemma newline_not_EOF [simp]: "NEWLINE \<noteq> EOF"
  by (simp add: NEWLINE_def EOF_def)

lemma octets_shorter: "ether_octets n c f a = (c', f', a') \<Longrightarrow> length f' \<le> length f"
proof (induction n arbitrary: c f a)
  case (Suc n)
  show ?case
    using Suc.prems Suc.IH skips_shorter(1) [of f] skips_shorter(1) [of "snd (getc f)"]
      skips_shorter(1) [of "snd (getc (snd (getc f)))"]
    by (auto simp: Let_def split: prod.splits if_splits) (meson le_trans)+
qed simp

lemma octets_shorter': "(c', r) = ether_octets n c f a \<Longrightarrow> length (fst r) \<le> length f"
  using octets_shorter [of n c f a c' "fst r" "snd r"] by simp

lemma name_shorter: "length (snd (snd (pick_name d c f))) \<le> length f"
  by (induction d c f rule: pick_name.induct) (auto split: prod.split)

text \<open>
  \<open>pcap_next_etherent\<close>: the next entry, if there is one. \<open>addr\<close> is the address field of the
  entry, which is cleared at the call only.
\<close>

function next_etherent :: "u8 list \<Rightarrow> u8 list \<Rightarrow> (u8 list \<times> u8 list) option \<times> u8 list" where
  "next_etherent addr f =
     (let (c, f1) = skip_space f in
      if c = NEWLINE then next_etherent addr f1
      else if \<not> isxdigit c then
        (let (c, f2) = skip_line f1 in if c = EOF then (None, f2) else next_etherent addr f2)
      else
        (let (c, f2, addr) = ether_octets 6 c f1 addr in
         if c = EOF then (None, f2)
         else if \<not> isspace c then
           (let (c, f3) = skip_line f2 in if c = EOF then (None, f3) else next_etherent addr f3)
         else
           (let (c, f3) = skip_space f2 in
            if c = NEWLINE then next_etherent addr f3
            else if c = char_code CHR ''#'' then
              (let (c, f4) = skip_line f3 in if c = EOF then (None, f4) else next_etherent addr f4)
            else
              (let (nm, c, f4) = pick_name 121 c f3;
                 f5 = (if c \<noteq> NEWLINE then snd (skip_line f4) else f4) in
               (Some (addr, nm), f5)))))"
  by auto
termination
proof (relation "measure (\<lambda>(addr, f). length f)", simp_all only: in_measure case_prod_conv wf_measure)
qed (fastforce dest!: space_shorter line_shorter octets_shorter')+

declare next_etherent.simps [simp del]

text \<open>
  \<open>pcap_ether_hostton\<close>: each call reads the file from its beginning; \<open>None\<close> for \<open>ethers\<close> is a
  file that could not be opened. \<open>strcmp\<close> reads the name of an entry up to its first null byte.
\<close>

lemma next_etherent_shorter: "next_etherent addr f = (Some e, f') \<Longrightarrow> length f' < length f"
proof (induction f arbitrary: addr rule: length_induct)
  case (1 f)
  have ih: "length f' < length f" if "length g < length f" "next_etherent a g = (Some e, f')" for g a
    using 1(1) that by (meson less_trans)
  obtain c f1 where sp: "skip_space f = (c, f1)" by (cases "skip_space f")
  note le = space_shorter [OF sp [symmetric]]
  obtain e1 f2 where sl: "skip_line f1 = (e1, f2)" by (cases "skip_line f1")
  note le1 = line_shorter [OF sl [symmetric]]
  note eq = 1(2) [unfolded next_etherent.simps [of addr f] sp prod.case Let_def sl]
  show ?case
  proof (cases "c = NEWLINE \<or> \<not> isxdigit c")
    case True
    with eq le le1 ih [of f1 addr] ih [of f2 addr] show ?thesis
      by (auto split: if_splits intro: order_less_le_trans order_less_trans)
  next
    case False
    obtain c' g a where oc: "ether_octets 6 c f1 addr = (c', g, a)" by (cases "ether_octets 6 c f1 addr")
    obtain d g3 where sl2: "skip_line g = (d, g3)" by (cases "skip_line g")
    obtain d' g4 where sp2: "skip_space g = (d', g4)" by (cases "skip_space g")
    obtain d'' g5 where sl3: "skip_line g4 = (d'', g5)" by (cases "skip_line g4")
    obtain nm d3 g6 where pn: "pick_name 121 d' g4 = (nm, d3, g6)" by (cases "pick_name 121 d' g4")
    have "c \<noteq> EOF" using False by (auto simp: EOF_def isxdigit_def isdigit_def)
    then have g: "length g < length f" using le octets_shorter [OF oc] by simp
    have g34: "length g3 < length f" "length g4 < length f" "length g5 < length f"
      using g line_shorter [OF sl2 [symmetric]] space_shorter [OF sp2 [symmetric]] line_shorter [OF sl3 [symmetric]] by auto
    have "length g6 \<le> length g4" using name_shorter [of 121 d' g4] pn by simp
    then have "length g6 < length f" "length (snd (skip_line g6)) < length f"
      using g34 skips_shorter(3) [of g6] by auto
    with False eq ih [OF g34(1)] ih [OF g34(2)] ih [OF g34(3)] show ?thesis
      by (auto simp: oc sl2 sp2 sl3 pn split: if_splits)
  qed
qed

function find_etherent :: "u8 list \<Rightarrow> u8 list \<Rightarrow> u8 list option" where
  "find_etherent nm f =
     (case next_etherent (replicate 6 0) f of
        (None, _) \<Rightarrow> None
      | (Some (addr, nm'), f') \<Rightarrow> if takeWhile (\<lambda>c. c \<noteq> 0) nm' = nm then Some addr else find_etherent nm f')"
  by auto
termination
  by (relation "measure (\<lambda>(nm, f). length f)") (auto dest!: sym [of _ "next_etherent _ _"] intro: next_etherent_shorter)

definition pcap_ether_hostton :: "u8 list option \<Rightarrow> string \<Rightarrow> u8 list option" where
  "pcap_ether_hostton ethers nm =
     (case ethers of None \<Rightarrow> None | Some f \<Rightarrow> find_etherent (c_str nm) f)"

section \<open>Databases and tables\<close>

text \<open>
  An address that \<open>getaddrinfo\<close> returns; what the C library knows: hosts, networks (\<open>n_net\<close>),
  services by protocol (the port in host order), protocols, and the contents of \<open>/etc/ethers\<close>.
\<close>

datatype host_addr = Inet u32 | Inet6 "u32 list" | Other_family

record databases =
  db_addrinfo :: "string \<Rightarrow> host_addr list option"
  db_networks :: "string \<Rightarrow> u32 option"
  db_services :: "string \<Rightarrow> string \<Rightarrow> int option"
  db_protocols :: "string \<Rightarrow> int option"
  db_ethers :: "u8 list option"

definition pcap_nametonetaddr :: "databases \<Rightarrow> string \<Rightarrow> u32" where
  "pcap_nametonetaddr db nm = (case db_networks db nm of Some a \<Rightarrow> a | None \<Rightarrow> 0)"

text \<open>\<open>pcap_nametoport\<close>: the port and its protocol.\<close>

definition pcap_nametoport :: "databases \<Rightarrow> string \<Rightarrow> (int \<times> int) option" where
  "pcap_nametoport db nm =
     (case db_services db nm ''tcp'' of
        Some t \<Rightarrow> Some (t, if db_services db nm ''udp'' = Some t then PROTO_UNDEF else IPPROTO_TCP)
      | None \<Rightarrow>
          (case db_services db nm ''udp'' of Some u \<Rightarrow> Some (u, IPPROTO_UDP) | None \<Rightarrow> None))"

text \<open>\<open>pcap_nametoportrange\<close>: two numbers, or two names around the first \<open>-\<close>.\<close>

definition pcap_nametoportrange :: "databases \<Rightarrow> string \<Rightarrow> (int \<times> int \<times> int) option" where
  "pcap_nametoportrange db nm =
     (case scan_two CHR ''-'' nm of
        Some (p1, p2) \<Rightarrow> Some (p1, p2, PROTO_UNDEF)
      | None \<Rightarrow>
          if CHR ''-'' \<notin> set nm then None
          else
            (case pcap_nametoport db (takeWhile (\<lambda>c. c \<noteq> CHR ''-'') nm) of
               None \<Rightarrow> None
             | Some (p1, proto1) \<Rightarrow>
                 (case pcap_nametoport db (tl (dropWhile (\<lambda>c. c \<noteq> CHR ''-'') nm)) of
                    None \<Rightarrow> None
                  | Some (p2, proto2) \<Rightarrow> Some (p1, p2, if proto2 \<noteq> proto1 then PROTO_UNDEF else proto2))))"

definition pcap_nametoproto :: "databases \<Rightarrow> string \<Rightarrow> int" where
  "pcap_nametoproto db nm = (case db_protocols db nm of Some p \<Rightarrow> p | None \<Rightarrow> PROTO_UNDEF)"

definition eproto_db :: "(string \<times> int) list" where
  "eproto_db =
     [(''pup'', 0x0200), (''xns'', ETHERTYPE_NS), (''ip'', ETHERTYPE_IP), (''ip6'', ETHERTYPE_IPV6),
      (''arp'', ETHERTYPE_ARP), (''rarp'', ETHERTYPE_REVARP), (''sprite'', 0x0500),
      (''mopdl'', ETHERTYPE_MOPDL), (''moprc'', ETHERTYPE_MOPRC), (''decnet'', ETHERTYPE_DN),
      (''lat'', ETHERTYPE_LAT), (''sca'', ETHERTYPE_SCA), (''lanbridge'', 0x8038), (''vexp'', 0x805b),
      (''vprod'', 0x805c), (''atalk'', ETHERTYPE_ATALK), (''atalkarp'', ETHERTYPE_AARP),
      (''loopback'', 0x9000), (''decdts'', 0x803e), (''decdns'', 0x803c)]"

definition llc_db :: "(string \<times> int) list" where
  "llc_db = [(''iso'', LLCSAP_ISONS), (''stp'', LLCSAP_8021D), (''ipx'', LLCSAP_IPX), (''netbeui'', LLCSAP_NETBEUI)]"

definition pcap_nametoeproto :: "string \<Rightarrow> int" where
  "pcap_nametoeproto nm = (case map_of eproto_db nm of Some p \<Rightarrow> p | None \<Rightarrow> PROTO_UNDEF)"

definition pcap_nametollc :: "string \<Rightarrow> int" where
  "pcap_nametollc nm = (case map_of llc_db nm of Some p \<Rightarrow> p | None \<Rightarrow> PROTO_UNDEF)"

end
