(* ===== verification/Address_Texts.thy ===== *)
theory Address_Texts
  imports Nametoaddr
begin

unbundle bit_operations_syntax

text \<open>
  What the parsers of nametoaddr.c and etherent.c make of well-formed texts: dotted quads, Ethernet
  addresses in each of the notations that the scanner accepts, and files of Ethernet hosts.
\<close>

section \<open>Dotted numbers\<close>

fun dotted :: "u8 list \<Rightarrow> string" where
  "dotted [] = []"
| "dotted [b] = show_base 10 (unat b)"
| "dotted (b # bs) = show_base 10 (unat b) @ CHR ''.'' # dotted bs"

lemma schar_digit: "d < 10 \<Longrightarrow> schar (digit_char d) = 48 + int d \<and> digit_char d \<noteq> CHR ''.''"
proof -
  have "\<forall>d\<in>set [0..<10]. schar (digit_char d) = 48 + int d \<and> digit_char d \<noteq> CHR ''.''"
    by code_simp
  then show "d < 10 \<Longrightarrow> schar (digit_char d) = 48 + int d \<and> digit_char d \<noteq> CHR ''.''" by simp
qed

lemma atoin_number_digits:
  "atoin_number n (show_base 10 m @ r) = atoin_number (n * 10 ^ length (show_base 10 m) + of_nat m) r"
proof (induction m arbitrary: n r rule: less_induct)
  case (less m)
  show ?case
  proof (cases "m < 10")
    case True
    then show ?thesis using schar_digit [OF True] by (simp add: show_base.simps)
  next
    case False
    have d: "m mod 10 < 10" by simp
    have "of_nat m = of_nat (m div 10) * 10 + (of_nat (m mod 10) :: u32)"
      by (metis mult.commute mult_div_mod_eq of_nat_add of_nat_mult of_nat_numeral)
    then show ?thesis
      using False less.IH [of "m div 10" n "digit_char (m mod 10) # r"] schar_digit [OF d]
      by (subst (1 2) show_base.simps) (simp add: algebra_simps)
  qed
qed

lemma atoin_dot: "atoin_number n (CHR ''.'' # r) = (n, CHR ''.'' # r)"
  by simp

lemma low_byte: "(ucast (b :: u8) AND 0xff :: u32) = ucast b"
proof -
  have m: "(0xff :: u32) = mask 8" by (simp add: mask_eq_exp_minus_1)
  show ?thesis unfolding m by (rule bit_word_eqI) (auto simp add: bit_simps simp del: mask_numeral dest: bit_imp_le_length)
qed

lemma atoin_from_dotted:
  "bs \<noteq> [] \<Longrightarrow> atoin_from a len (dotted bs) = (len + 8 * int (length bs), foldl (\<lambda>acc b. push_bit 8 acc OR ucast b) a bs)"
proof (induction bs arbitrary: a len rule: dotted.induct)
  case (2 b)
  then show ?case
    using atoin_number_digits [of 0 "unat b" "[]"] by (simp add: atoin_from.simps low_byte)
next
  case (3 b c bs)
  then show ?case
    using atoin_number_digits [of 0 "unat b" "CHR ''.'' # dotted (c # bs)"]
    by (subst atoin_from.simps) (simp add: low_byte)
qed simp

text \<open>
  \<open>__pcap_atoin\<close> reads one to four (or more) decimal bytes between periods as the number they
  are the bytes of, most significant first, and counts their bits.
\<close>

lemma atoin_dotted: "bs \<noteq> [] \<Longrightarrow> pcap_atoin (dotted bs) = (8 * int (length bs), be_value bs)"
  by (simp add: pcap_atoin_def atoin_from_dotted be_value_def)

section \<open>Ethernet addresses\<close>

text \<open>A character that is a hexadecimal digit with a value.\<close>

definition hex_digit :: "nat \<Rightarrow> char \<Rightarrow> bool" where
  "hex_digit d c \<longleftrightarrow> d < 16 \<and> isxdigit (char_code c) \<and> xdtoi (char_code c) = int d"

text \<open>
  The texts of a list of bytes: two digits, or one digit before a separator or the end, with
  separators between the bytes or none.
\<close>

inductive spelled :: "u8 list \<Rightarrow> string \<Rightarrow> bool" where
  spelled_end: "spelled [] []"
| spelled_two: "spelled bs s \<Longrightarrow> hex_digit (unat b div 16) c \<Longrightarrow> hex_digit (unat b mod 16) d \<Longrightarrow> spelled (b # bs) (c # d # s)"
| spelled_one: "spelled bs s \<Longrightarrow> s = [] \<or> hd s \<in> separators \<Longrightarrow> hex_digit (unat b) c \<Longrightarrow> spelled (b # bs) (c # s)"
| spelled_sep: "spelled (b # bs) s \<Longrightarrow> hd s \<notin> separators \<Longrightarrow> x \<in> separators \<Longrightarrow> spelled (b # bs) (x # s)"

lemma byte_word: "unat (ucast (b :: u8) :: u32) = unat b" "(ucast (ucast b :: u32) :: u8) = b"
  by (simp add: unsigned_ucast_eq take_bit_nat_eq_self_iff order_less_trans [OF unsigned_less])
    (rule bit_word_eqI, auto simp: bit_simps)

lemma hex_digit_byte:
  assumes "hex_digit (unat (b :: u8) div 16) c" and "hex_digit (unat b mod 16) d"
  shows "(ucast (push_bit 4 (word_of_int (xdtoi (char_code c)) :: u32) OR word_of_int (xdtoi (char_code d))) :: u8) = b"
proof -
  have "word_of_int (xdtoi (char_code c)) = (drop_bit 4 (ucast b) :: u32)"
    "word_of_int (xdtoi (char_code d)) = (take_bit 4 (ucast b) :: u32)"
    using assms
    by (auto simp: hex_digit_def drop_bit_eq_div take_bit_eq_mod unsigned_of_nat byte_word unat_div_distrib
      unat_mod_distrib intro!: unsigned_word_eqI [where ?'a = nat])
  moreover have "(ucast (push_bit 4 (drop_bit 4 (ucast b)) OR take_bit 4 (ucast b) :: u32) :: u8) = b"
    by (rule bit_word_eqI) (auto simp: bit_simps)
  ultimately show ?thesis by simp
qed

lemma spelled_front: "spelled bs s \<Longrightarrow> s \<noteq> [] \<longleftrightarrow> bs \<noteq> []"
  by (induction rule: spelled.induct) auto

lemma hex_not_separator: "hex_digit d c \<Longrightarrow> c \<notin> separators"
  by (auto simp: hex_digit_def separators_def isxdigit_def isdigit_def char_code_def)

lemma separator_not_hex: "c \<in> separators \<Longrightarrow> \<not> isxdigit (char_code c)"
  by (auto simp: separators_def isxdigit_def isdigit_def char_code_def)

lemma ether_bytes_spelled: "spelled bs s \<Longrightarrow> length out + length bs \<le> 6 \<Longrightarrow> ether_bytes out s = Some (out @ bs)"
proof (induction arbitrary: out rule: spelled.induct)
  case (spelled_two bs s b c d)
  then show ?case
    using hex_digit_byte [OF spelled_two(2,3)] hex_not_separator [OF spelled_two(2)]
    by (simp add: ether_digits_def hex_digit_def)
next
  case (spelled_one bs s b c)
  have "ether_digits c s = (b, s)"
  proof -
    have "(ucast (word_of_int (xdtoi (char_code c)) :: u32) :: u8) = b"
      using spelled_one(3) by (simp add: hex_digit_def byte_word)
    then show ?thesis using spelled_one(2) separator_not_hex
      by (cases s) (auto simp: ether_digits_def Let_def)
  qed
  then show ?case using spelled_one hex_not_separator [OF spelled_one(3)] by simp
next
  case (spelled_sep b bs s x)
  from spelled_front [OF spelled_sep(1)] obtain c t where s: "s = c # t" by (cases s) auto
  then show ?case using spelled_sep by (simp del: ether_bytes.simps add: ether_bytes.simps(2))
qed simp

section \<open>The file of Ethernet hosts\<close>

text \<open>A line of the file: an address in pairs of digits with colons, a space, and the name.\<close>

definition hex_char :: "nat \<Rightarrow> u8" where
  "hex_char d = of_char (digit_char d)"

definition hex_pair :: "u8 \<Rightarrow> u8 list" where
  "hex_pair b = [hex_char (unat b div 16), hex_char (unat b mod 16)]"

fun colons :: "u8 list \<Rightarrow> u8 list" where
  "colons [] = []"
| "colons [b] = hex_pair b"
| "colons (b # bs) = hex_pair b @ 58 # colons bs"

definition host_line :: "u8 list \<times> u8 list \<Rightarrow> u8 list" where
  "host_line e = colons (fst e) @ 32 # snd e @ [10]"

definition host_name :: "u8 list \<Rightarrow> bool" where
  "host_name nm \<longleftrightarrow> nm \<noteq> [] \<and> length nm \<le> 121 \<and> hd nm \<noteq> 35 \<and> (\<forall>c\<in>set nm. \<not> isspace (uint c) \<and> c \<noteq> 0)"

lemma hex_char:
  assumes "d < 16"
  shows "isxdigit (uint (hex_char d))" "xdtoi (uint (hex_char d)) = int d" "\<not> isspace (uint (hex_char d))"
    "uint (hex_char d) \<noteq> 58" "uint (hex_char d) \<noteq> NEWLINE"
proof -
  have "\<forall>d\<in>set [0..<16]. isxdigit (uint (hex_char d)) \<and> xdtoi (uint (hex_char d)) = int d \<and>
      \<not> isspace (uint (hex_char d)) \<and> uint (hex_char d) \<noteq> 58 \<and> uint (hex_char d) \<noteq> NEWLINE"
    by code_simp
  then show "isxdigit (uint (hex_char d))" "xdtoi (uint (hex_char d)) = int d" "\<not> isspace (uint (hex_char d))"
    "uint (hex_char d) \<noteq> 58" "uint (hex_char d) \<noteq> NEWLINE" using assms by auto
qed

lemma byte_digits: "unat (b :: u8) div 16 < 16" "unat (b :: u8) mod 16 < 16"
  using unsigned_less [of b, where ?'a = nat] by (simp_all add: less_mult_imp_div_less)

lemma pair_value: "(word_of_int (push_bit 4 (int (unat b div 16)) OR int (unat b mod 16)) :: u8) = b"
proof -
  have "int (unat b div 16) = drop_bit 4 (uint b)" "int (unat b mod 16) = take_bit 4 (uint b)"
    by (simp_all add: drop_bit_eq_div take_bit_eq_mod zdiv_int zmod_int)
  moreover have "push_bit 4 (drop_bit 4 (uint b)) OR take_bit 4 (uint b) = uint b"
    by (rule bit_eqI) (auto simp: bit_simps)
  ultimately have "push_bit 4 (int (unat b div 16)) OR int (unat b mod 16) = uint b" by simp
  then show ?thesis by simp
qed

lemma octets_colons:
  assumes "length bs = Suc n" and "length addr = 6" and "n < 6" and "take (5 - n) addr = ps"
  shows "\<exists>c r. colons bs @ 32 # f = c # r \<and> isxdigit (uint c) \<and> \<not> isspace (uint c) \<and> uint c \<noteq> NEWLINE \<and>
    ether_octets (Suc n) (uint c) r addr = (32, f, ps @ bs)"
  using assms
proof (induction bs arbitrary: n addr ps rule: colons.induct)
  case (2 b)
  note d = byte_digits [of b]
  have "addr[5 := b] = take 5 addr @ [b]" using 2(2) by (simp add: upd_conv_take_nth_drop)
  then show ?case
    using 2 hex_char [OF d(1)] hex_char [OF d(2)] by (simp add: hex_pair_def pair_value char_code_def)
next
  case (3 b c bs)
  note d = byte_digits [of b]
  from 3(2) obtain m where n: "n = Suc m" "length (c # bs) = Suc m" by auto
  let ?a = "addr[5 - n := b]"
  have take: "take (5 - m) ?a = ps @ [b]"
  proof -
    have "5 - m = Suc (5 - n)" using 3(4) n by simp
    then show ?thesis using 3(3-5) by (simp add: take_Suc_conv_app_nth)
  qed
  obtain x r where xr: "colons (c # bs) @ 32 # f = x # r" "ether_octets (Suc m) (uint x) r ?a = (32, f, (ps @ [b]) @ c # bs)"
    using 3(1) [OF n(2), of ?a "ps @ [b]"] 3(3,4) n take by auto
  show ?case
    using hex_char [OF d(1)] hex_char [OF d(2)] xr n
    by (simp add: hex_pair_def pair_value char_code_def del: ether_octets.simps)
       (simp add: pair_value char_code_def)
qed simp

lemma pick_name_line:
  "\<forall>c\<in>set nm. \<not> isspace (uint c) \<Longrightarrow> Suc (length nm) \<le> d \<Longrightarrow>
     pick_name d (uint c) (nm @ 10 # f) = (c # nm, NEWLINE, f)"
proof (induction nm arbitrary: c d)
  case Nil
  have "isspace 10" by (simp add: isspace_def)
  then show ?case by (simp add: NEWLINE_def)
next
  case (Cons x nm)
  then show ?case by simp
qed

lemma next_etherent_line:
  assumes "length (fst e) = 6" and "host_name (snd e)" and "length addr = 6"
  shows "next_etherent addr (host_line e @ f) = (Some e, f)"
proof -
  obtain a nm where e: "e = (a, nm)" by (cases e)
  from assms(2) obtain n ns where nm: "nm = n # ns" "n \<noteq> 35" "length ns \<le> 120" "\<not> isspace (uint n)"
    "\<forall>c\<in>set ns. \<not> isspace (uint c)" by (cases nm) (auto simp: host_name_def e)
  obtain c r where c: "colons a @ 32 # nm @ 10 # f = c # r" "isxdigit (uint c)" "\<not> isspace (uint c)" "uint c \<noteq> NEWLINE"
    "ether_octets 6 (uint c) r addr = (32, nm @ 10 # f, a)"
    using octets_colons [of a 5 addr "[]" "nm @ 10 # f"] assms(1,3) by (auto simp: e eval_nat_numeral)
  have "uint n \<noteq> 35" using nm(2) by (metis of_int_numeral word_of_int_uint)
  moreover have "isspace 32" by (simp add: isspace_def)
  moreover have "n \<noteq> 10" using nm(4) by (auto simp: isspace_def)
  then have "uint n \<noteq> NEWLINE" by (metis NEWLINE_def of_int_numeral word_of_int_uint)
  ultimately show ?thesis
    using c nm pick_name_line [OF nm(5), of 121 n f]
    by (subst next_etherent.simps)
      (simp add: host_line_def e EOF_def NEWLINE_def char_code_def)
qed

lemma find_etherent_lines:
  "\<forall>e\<in>set es. length (fst e) = 6 \<and> host_name (snd e) \<Longrightarrow>
     find_etherent nm (concat (map host_line es)) = map_of (map (\<lambda>(a, n). (n, a)) es) nm"
proof (induction es)
  case Nil
  have "next_etherent (replicate 6 0) [] = (None, [])"
    by (subst next_etherent.simps) (simp add: EOF_def NEWLINE_def isxdigit_def isdigit_def)
  then show ?case by simp
next
  case (Cons e es)
  from Cons.prems have tw: "takeWhile (\<lambda>c. c \<noteq> 0) (snd e) = snd e"
    by (auto simp: host_name_def)
  obtain a n where e: "e = (a, n)" by (cases e)
  show ?case using Cons tw [unfolded e snd_conv] by (simp add: next_etherent_line e tw [unfolded e snd_conv])
qed

section \<open>Properties\<close>

text \<open>
  C29. \<open>pcap_ether_aton\<close> fills its six bytes exactly, and reads nothing behind the end of the text,
  for every text that spells six bytes: two hexadecimal digits of either case or a single digit
  for each byte, with colons, periods or hyphens between the bytes where they are needed.
\<close>

theorem ether_aton_reads:
  assumes "spelled bs s" and "length bs = 6"
  shows "pcap_ether_aton s = Some bs"
  using ether_bytes_spelled [OF assms(1), of "[]"] assms(2) by (simp add: pcap_ether_aton_def)

theorem ether_aton_reads_witness: "pcap_ether_aton ''0a:B:c-0d0E.0f'' = Some [10, 11, 12, 13, 14, 15]"
proof (rule ether_aton_reads)
  have hex: "hex_digit d c" if "d < 16" "c = digit_char d \<or> d = 11 \<and> c = CHR ''B'' \<or> d = 14 \<and> c = CHR ''E''" for d c
  proof -
    have "\<forall>d\<in>set [0..<16]. isxdigit (char_code (digit_char d)) \<and> xdtoi (char_code (digit_char d)) = int d" by code_simp
    moreover have "hex_digit 11 CHR ''B''" "hex_digit 14 CHR ''E''" by code_simp+
    ultimately show ?thesis using that by (auto simp: hex_digit_def)
  qed
  show "spelled [10, 11, 12, 13, 14, 15] ''0a:B:c-0d0E.0f''"
  proof -
    have "spelled [15] ''0f''" by (rule spelled_two [OF spelled_end]) (rule hex; simp add: digit_char_def)+
    then have "spelled [15] ''.0f''" by (rule spelled_sep) (simp_all add: separators_def)
    then have "spelled [14, 15] ''0E.0f''" by (rule spelled_two) (rule hex; simp add: digit_char_def)+
    then have "spelled [13, 14, 15] ''0d0E.0f''" by (rule spelled_two) (rule hex; simp add: digit_char_def)+
    then have "spelled [13, 14, 15] ''-0d0E.0f''" by (rule spelled_sep) (simp_all add: separators_def)
    then have "spelled [12, 13, 14, 15] ''c-0d0E.0f''"
      by (rule spelled_one) (simp add: separators_def, use hex [of 12 "CHR ''c''"] hex [of 11 "CHR ''B''"] in \<open>simp add: digit_char_def\<close>)
    then have "spelled [12, 13, 14, 15] '':c-0d0E.0f''" by (rule spelled_sep) (simp_all add: separators_def)
    then have "spelled [11, 12, 13, 14, 15] ''B:c-0d0E.0f''"
      by (rule spelled_one) (simp add: separators_def, use hex [of 12 "CHR ''c''"] hex [of 11 "CHR ''B''"] in \<open>simp add: digit_char_def\<close>)
    then have "spelled [11, 12, 13, 14, 15] '':B:c-0d0E.0f''" by (rule spelled_sep) (simp_all add: separators_def)
    then show ?thesis by (rule spelled_two) (rule hex; simp add: digit_char_def)+
  qed
qed simp

text \<open>
  C30. \<open>pcap_ether_hostton\<close> finds the first line with a name in a file of addresses and names.
\<close>

theorem ether_hostton_finds:
  assumes "\<forall>e\<in>set es. length (fst e) = 6 \<and> host_name (snd e)"
  shows "pcap_ether_hostton (Some (concat (map host_line es))) nm = map_of (map (\<lambda>(a, n). (n, a)) es) (c_str nm)"
  using find_etherent_lines [OF assms] by (simp add: pcap_ether_hostton_def)

theorem ether_hostton_finds_witness:
  "pcap_ether_hostton (Some (host_line ([0, 1, 2, 3, 4, 5], c_str ''gw'') @ host_line ([8, 0, 0x20, 0xa, 0xb, 0xc], c_str ''printer'')))
     ''printer'' = Some [8, 0, 0x20, 0xa, 0xb, 0xc]"
  using ether_hostton_finds [of "[([0, 1, 2, 3, 4, 5], c_str ''gw''), ([8, 0, 0x20, 0xa, 0xb, 0xc], c_str ''printer'')]" "''printer''"]
  by (simp add: host_name_def c_str_def isspace_def)

text \<open>
  Where the parsers go wrong: in an address such as \<open>0xa.1\<close>, which the scanner accepts, a
  hexadecimal number is read as if its letters were decimal digits; a line of \<open>/etc/ethers\<close>
  without a name takes the first word of the next line as its name; and what is left of a line that is
  skipped fills the address of the next, shorter one.
\<close>

theorem address_misreadings:
  "stoi ''0xa'' = 10 \<and> pcap_atoin ''0xa.1'' = (16, 0x0101) \<and>
   fst (next_etherent (replicate 6 0) (colons [0, 1, 2, 3, 4, 5] @ 10 # host_line ([6, 7, 8, 9, 10, 11], c_str ''h''))) =
     Some ([0, 1, 2, 3, 4, 5], c_str ''06:07:08:09:0a:0b'') \<and>
   fst (next_etherent (replicate 6 0) (colons [0x11, 0x22, 0x33, 0x44, 0x55, 0x66] @ c_str ''?'' @ 10 # c_str ''7 h'' @ [10])) =
     Some ([7, 0x22, 0x33, 0x44, 0x55, 0x66], c_str ''h'')"
  by code_simp

end
