(* ===== verification/Gencode_Hosts.thy ===== *)
theory Gencode_Hosts
  imports Gencode_Linktype
begin

unbundle bit_operations_syntax

text \<open>
  The tests for the hosts and networks of a packet (jni/libpcap/gencode.c): link-layer addresses
  for each kind of link layer, IPv4 and IPv6 addresses with a mask, and DECnet addresses, each
  as source, destination, both or either. An address of the link layer is a list of bytes.
\<close>

section \<open>Directions\<close>

text \<open>
  The cases that the functions for hosts have in common: \<open>Q_AND\<close>, \<open>Q_OR\<close> and \<open>Q_DEFAULT\<close> call
  the function again for the source and then for the destination.
\<close>

definition by_direction :: "int \<Rightarrow> nat gen \<Rightarrow> nat gen \<Rightarrow> nat gen \<Rightarrow> nat gen" where
  "by_direction dir src dst other =
     (if dir = Q_SRC then src
      else if dir = Q_DST then dst
      else if dir = Q_AND then both_and src dst
      else if dir \<in> {Q_OR, Q_DEFAULT} then both_or src dst
      else other)"

text \<open>The qualifiers of 802.11 addresses are errors on other link layers.\<close>

definition only_on_802_11 :: "string \<Rightarrow> int \<Rightarrow> ('s, 'a) gen_in" where
  "only_on_802_11 rest dir =
     (case map_of
        [(Q_ADDR1, ''addr1''), (Q_ADDR2, ''addr2''), (Q_ADDR3, ''addr3''), (Q_ADDR4, ''addr4''),
         (Q_RA, ''ra''), (Q_TA, ''ta'')] dir of
        Some n \<Rightarrow> gfail (Bpf_error (quoted n ('' is only supported on 802.11'' @ rest)) [])
      | None \<Rightarrow> gfail Aborts)"

section \<open>Link-layer addresses\<close>

definition gen_ehostop :: "u8 list \<Rightarrow> int \<Rightarrow> nat gen" where
  "gen_ehostop eaddr dir =
     by_direction dir (gen_bcmp OR_LINKHDR 6 6 eaddr) (gen_bcmp OR_LINKHDR 0 6 eaddr)
       (only_on_802_11 '' with 802.11 headers'' dir)"

text \<open>\<open>gen_fhostop\<close>: the padding of FDDI headers is the handle's \<open>fddipad\<close>.\<close>

definition gen_fhostop :: "u32 \<Rightarrow> u8 list \<Rightarrow> int \<Rightarrow> nat gen" where
  "gen_fhostop fddipad eaddr dir =
     by_direction dir (gen_bcmp OR_LINKHDR (6 + 1 + fddipad) 6 eaddr) (gen_bcmp OR_LINKHDR (0 + 1 + fddipad) 6 eaddr)
       (only_on_802_11 [] dir)"

definition gen_thostop :: "u8 list \<Rightarrow> int \<Rightarrow> nat gen" where
  "gen_thostop eaddr dir =
     by_direction dir (gen_bcmp OR_LINKHDR 8 6 eaddr) (gen_bcmp OR_LINKHDR 2 6 eaddr)
       (only_on_802_11 [] dir)"

definition gen_ipfchostop :: "u8 list \<Rightarrow> int \<Rightarrow> nat gen" where
  "gen_ipfchostop eaddr dir =
     by_direction dir (gen_bcmp OR_LINKHDR 10 6 eaddr) (gen_bcmp OR_LINKHDR 2 6 eaddr)
       (only_on_802_11 [] dir)"

definition gen_ahostop :: "u8 list \<Rightarrow> int \<Rightarrow> nat gen" where
  "gen_ahostop eaddr dir =
     by_direction dir (gen_bcmp OR_LINKHDR 0 1 eaddr) (gen_bcmp OR_LINKHDR 1 1 eaddr)
       (only_on_802_11 [] dir)"

text \<open>
  \<open>gen_wlanhostop\<close>. A test \<open>at\<close> of the address at an offset goes to where the frame's kind and
  its To DS and From DS bits put the address; \<open>wlan_bit\<close> is a test of bits of the frame control
  field. The same tests, of the group bit, make \<open>gen_multicast\<close>.
\<close>

definition wlan_bit :: "u32 \<Rightarrow> u32 \<Rightarrow> nat gen" where
  "wlan_bit byte bits = load_jset OR_LINKHDR byte BPF_B bits"

definition wlan_not_bit :: "u32 \<Rightarrow> u32 \<Rightarrow> nat gen" where
  "wlan_not_bit byte bits = negated (load_jset OR_LINKHDR byte BPF_B bits)"

text \<open>
  What source and destination have in common once the checks of data frames are there: data
  frames, or management frames with the address at its fixed place; never control frames.
\<close>

definition wlan_frames :: "nat gen \<Rightarrow> nat gen \<Rightarrow> nat gen" where
  "wlan_frames data_frames in_management =
     and_before
       (or_before
         (and_before data_frames (wlan_bit 0 0x08))
         (both_and (wlan_not_bit 0 0x08) in_management))
       (wlan_not_bit 0 0x04)"

definition wlan_source :: "(u32 \<Rightarrow> nat gen) \<Rightarrow> nat gen" where
  "wlan_source addr_at =
     wlan_frames
       (or_before
         (and_before
           (or_before (both_and (wlan_bit 1 0x01) (addr_at 24)) (both_and (wlan_not_bit 1 0x01) (addr_at 16)))
           (wlan_bit 1 0x02))
         (both_and (wlan_not_bit 1 0x02) (addr_at 10)))
       (addr_at 10)"

definition wlan_destination :: "(u32 \<Rightarrow> nat gen) \<Rightarrow> nat gen" where
  "wlan_destination addr_at =
     wlan_frames
       (or_before (both_and (wlan_bit 1 0x01) (addr_at 16)) (both_and (wlan_not_bit 1 0x01) (addr_at 4)))
       (addr_at 4)"

abbreviation (input) "IEEE80211_FC0_TYPE_MASK \<equiv> 0x0c :: u32"
abbreviation (input) "IEEE80211_FC0_TYPE_CTL \<equiv> 0x04 :: u32"
abbreviation (input) "IEEE80211_FC0_SUBTYPE_MASK \<equiv> 0xf0 :: u32"
abbreviation (input) "IEEE80211_FC0_SUBTYPE_CTS \<equiv> 0xc0 :: u32"
abbreviation (input) "IEEE80211_FC0_SUBTYPE_ACK \<equiv> 0xd0 :: u32"
abbreviation (input) "IEEE80211_FC1_DIR_MASK \<equiv> 0x03 :: u32"
abbreviation (input) "IEEE80211_FC1_DIR_DSTODS \<equiv> 0x03 :: u32"

definition wlan_not_cts_ack :: "nat gen" where
  "wlan_not_cts_ack =
     both_or (negated (gen_mcmp OR_LINKHDR 0 BPF_B IEEE80211_FC0_TYPE_CTL IEEE80211_FC0_TYPE_MASK))
       (both_and (negated (gen_mcmp OR_LINKHDR 0 BPF_B IEEE80211_FC0_SUBTYPE_CTS IEEE80211_FC0_SUBTYPE_MASK))
         (negated (gen_mcmp OR_LINKHDR 0 BPF_B IEEE80211_FC0_SUBTYPE_ACK IEEE80211_FC0_SUBTYPE_MASK)))"

definition gen_wlanhostop :: "u8 list \<Rightarrow> int \<Rightarrow> nat gen" where
  "gen_wlanhostop eaddr dir =
     (let addr_at = (\<lambda>offset. gen_bcmp OR_LINKHDR offset 6 eaddr) in
      by_direction dir (wlan_source addr_at) (wlan_destination addr_at)
        (if dir = Q_RA then both_and (wlan_bit 0 0x08) (addr_at 4)
         else if dir = Q_TA then both_and (and_before wlan_not_cts_ack (wlan_bit 0 0x08)) (addr_at 10)
         else if dir = Q_ADDR1 then addr_at 4
         else if dir = Q_ADDR2 then both_and wlan_not_cts_ack (addr_at 10)
         else if dir = Q_ADDR3 then
           both_and (negated (gen_mcmp OR_LINKHDR 0 BPF_B IEEE80211_FC0_TYPE_CTL IEEE80211_FC0_TYPE_MASK)) (addr_at 16)
         else if dir = Q_ADDR4 then
           both_and (gen_mcmp OR_LINKHDR 1 BPF_B IEEE80211_FC1_DIR_DSTODS IEEE80211_FC1_DIR_MASK) (addr_at 24)
         else gfail Aborts))"

section \<open>Network-layer addresses\<close>

definition gen_hostop :: "host \<Rightarrow> u32 \<Rightarrow> u32 \<Rightarrow> int \<Rightarrow> int \<Rightarrow> u32 \<Rightarrow> u32 \<Rightarrow> nat gen" where
  "gen_hostop hp addr msk dir proto src_off dst_off =
     (let addr_at = (\<lambda>offset. both_and (gen_linktype hp proto) (gen_mcmp OR_LINKPL offset BPF_W addr msk)) in
      by_direction dir (addr_at src_off) (addr_at dst_off) (gfail Aborts))"

text \<open>
  \<open>gen_hostop6\<close>; the address and the mask are their four words in host order, as \<open>ntohl\<close> makes
  them of \<open>struct in6_addr\<close>.
\<close>

definition gen_hostop6 :: "host \<Rightarrow> u32 list \<Rightarrow> u32 list \<Rightarrow> int \<Rightarrow> int \<Rightarrow> u32 \<Rightarrow> u32 \<Rightarrow> nat gen" where
  "gen_hostop6 hp addr msk dir proto src_off dst_off =
     (let word_at = (\<lambda>offset i. gen_mcmp OR_LINKPL (offset + of_nat (4 * i)) BPF_W (addr ! i) (msk ! i));
        addr_at = (\<lambda>offset.
          and_before
            (and_before (and_before (and_before (word_at offset 3) (word_at offset 2)) (word_at offset 1)) (word_at offset 0))
            (gen_linktype hp proto)) in
      by_direction dir (addr_at src_off) (addr_at dst_off) (gfail Aborts))"

text \<open>\<open>gen_dnhostop\<close>: data packets with short or long headers, with or without a byte of padding.\<close>

definition ntohs :: "host \<Rightarrow> u16 \<Rightarrow> u16" where
  "ntohs hp x = (if h_order hp = Little then SWAPSHORT x else x)"

definition gen_dnhostop :: "host \<Rightarrow> u32 \<Rightarrow> int \<Rightarrow> nat gen" where
  "gen_dnhostop hp addr dir =
     (let node = ucast (ntohs hp (ucast addr)) :: u32;
        padded = (\<lambda>flags offset. both_and (gen_mcmp OR_LINKPL 2 BPF_H (ucast (ntohs hp flags)) (ucast (ntohs hp 0x07FF)))
          (gen_cmp OR_LINKPL (2 + 1 + offset) BPF_H node));
        unpadded = (\<lambda>flags offset. both_and (gen_mcmp OR_LINKPL 2 BPF_B flags 0x7)
          (gen_cmp OR_LINKPL (2 + offset) BPF_H node));
        addr_at = (\<lambda>offset_lh offset_sh.
          both_and (gen_linktype hp ETHERTYPE_DN)
            (or_before (or_before (or_before (padded 0x0681 offset_lh) (unpadded 0x06 offset_lh))
              (padded 0x0281 offset_sh)) (unpadded 0x02 offset_sh))) in
      by_direction dir (addr_at 15 3) (addr_at 7 1)
        (if dir = Q_ISO then gfail (Bpf_error ''ISO host filtering not implemented'' []) else gfail Aborts))"

section \<open>Hosts and networks\<close>

text \<open>\<open>gen_host\<close> and \<open>gen_host6\<close>; the errors of the \<open>switch\<close> on the protocol are tables.\<close>

definition typestr :: "int \<Rightarrow> string" where
  "typestr ty = (if ty = Q_NET then ''net'' else ''host'')"

definition modifier_error :: "string \<Rightarrow> int \<Rightarrow> string" where
  "modifier_error n ty = quoted n ('' modifier applied to '' @ typestr ty)"

definition host_errors :: "int \<Rightarrow> (int \<times> string) list" where
  "host_errors ty =
     [(Q_TCP, modifier_error ''tcp'' ty), (Q_SCTP, modifier_error ''sctp'' ty),
      (Q_UDP, modifier_error ''udp'' ty), (Q_ICMP, modifier_error ''icmp'' ty),
      (Q_IGMP, modifier_error ''igmp'' ty), (Q_IGRP, modifier_error ''igrp'' ty),
      (Q_PIM, modifier_error ''pim'' ty), (Q_VRRP, modifier_error ''vrrp'' ty),
      (Q_CARP, modifier_error ''carp'' ty), (Q_ATALK, ''ATALK host filtering not implemented''),
      (Q_AARP, ''AARP host filtering not implemented''), (Q_SCA, ''SCA host filtering not implemented''),
      (Q_LAT, ''LAT host filtering not implemented''), (Q_MOPDL, ''MOPDL host filtering not implemented''),
      (Q_MOPRC, ''MOPRC host filtering not implemented''),
      (Q_ICMPV6, modifier_error ''icmp6'' ty), (Q_AH, modifier_error ''ah'' ty),
      (Q_ESP, modifier_error ''esp'' ty), (Q_ISO, ''ISO host filtering not implemented''),
      (Q_ESIS, modifier_error ''esis'' ty), (Q_ISIS, modifier_error ''isis'' ty),
      (Q_CLNP, modifier_error ''clnp'' ty), (Q_STP, modifier_error ''stp'' ty),
      (Q_IPX, ''IPX host filtering not implemented''), (Q_NETBEUI, modifier_error ''netbeui'' ty),
      (Q_RADIO, modifier_error ''radio'' ty)]"

definition gen_host :: "host \<Rightarrow> u32 \<Rightarrow> u32 \<Rightarrow> int \<Rightarrow> int \<Rightarrow> int \<Rightarrow> nat gen" where
  "gen_host hp addr msk proto dir ty =
     (let ip = gen_hostop hp addr msk dir ETHERTYPE_IP 12 16;
        arp = gen_hostop hp addr msk dir ETHERTYPE_ARP 14 24;
        rarp = gen_hostop hp addr msk dir ETHERTYPE_REVARP 14 24 in
      if proto = Q_DEFAULT then
        gbind (gget cs_layout) (\<lambda>l. if label_stack_depth l = 0 then both_or (both_or ip arp) rarp else ip)
      else if proto = Q_IP then ip
      else if proto = Q_RARP then rarp
      else if proto = Q_ARP then arp
      else if proto = Q_DECNET then gen_dnhostop hp addr dir
      else fail_from ((Q_IPV6, quoted ''ip6'' '' modifier applied to ip host'') # host_errors ty) proto)"

definition host6_errors :: "int \<Rightarrow> (int \<times> string) list" where
  "host6_errors ty =
     (Q_LINK, ''link-layer modifier applied to ip6 '' @ typestr ty) #
     map (\<lambda>(q, n). (q, quoted n ('' modifier applied to ip6 '' @ typestr ty)))
       [(Q_IP, ''ip''), (Q_RARP, ''rarp''), (Q_ARP, ''arp''), (Q_DECNET, ''decnet'')] @
     host_errors ty"

definition gen_host6 :: "host \<Rightarrow> u32 list \<Rightarrow> u32 list \<Rightarrow> int \<Rightarrow> int \<Rightarrow> int \<Rightarrow> nat gen" where
  "gen_host6 hp addr msk proto dir ty =
     (if proto \<in> {Q_DEFAULT, Q_IPV6} then gen_hostop6 hp addr msk dir ETHERTYPE_IPV6 8 24
      else fail_from (host6_errors ty) proto)"

end
