(* ===== verification/Gencode_Names.thy ===== *)
theory Gencode_Names
  imports Gencode_Hosts Gencode_Ports Nametoaddr
begin

unbundle bit_operations_syntax

text \<open>
  The tests that the grammar asks for by name, number or address (jni/libpcap/gencode.c):
  \<open>gen_scode\<close>, \<open>gen_mcode\<close>, \<open>gen_ncode\<close>, \<open>gen_mcode6\<close>, \<open>gen_ecode\<close>, \<open>gen_acode\<close>, with
  \<open>lookup_proto\<close>, and \<open>gen_protochain\<close>. The qualifiers say what the name is the name of.
\<close>

text \<open>\<open>struct qual\<close>.\<close>

record qual =
  q_addr :: int
  q_proto :: int
  q_dir :: int

abbreviation (input) "IPPROTO_HOPOPTS \<equiv> 0 :: u32"
abbreviation (input) "IPPROTO_ROUTING \<equiv> 43 :: u32"
abbreviation (input) "IPPROTO_NONE \<equiv> 59 :: u32"
abbreviation (input) "IPPROTO_DSTOPTS \<equiv> 60 :: u32"

definition dquoted :: "string \<Rightarrow> string" where
  "dquoted s = CHR 0x22 # s @ [CHR 0x22]"

definition syntax_error :: "('s, 'a) gen_in" where
  "syntax_error = gfail (Bpf_error ''syntax error in filter expression'' [])"

section \<open>Chains of protocols\<close>

text \<open>
  \<open>gen_protochain\<close>: a loop over the headers of a packet, as one list of statements with jumps
  inside it. A statement is given by its index in the array \<open>s\<close> and the indices of the targets of
  its jump; \<open>n\<close> is the address of the array. \<open>chain_end\<close> is the part from \<open>ahcheck\<close>, at index \<open>h\<close>,
  to the end; \<open>again\<close> is 3. (\<open>s[0]\<close> is allocated and never used.)
\<close>

definition chain_stmt :: "nat \<Rightarrow> nat \<Rightarrow> u16 \<Rightarrow> u32 \<Rightarrow> nat option \<Rightarrow> nat option \<Rightarrow> slist" where
  "chain_stmt n i c k jt jf =
     \<lparr>sl_addr = n + i,
      sl_stmt = \<lparr>s_code = ucast c, s_jt = map_option ((+) n) jt, s_jf = map_option ((+) n) jf, s_k = k\<rparr>\<rparr>"

definition chain_start :: "nat \<Rightarrow> nat \<Rightarrow> u32 \<Rightarrow> slist list" where
  "chain_start n stop v =
     [chain_stmt n 3 (BPF_JMP OR BPF_JEQ OR BPF_K) v (Some stop) (Some 4),
      chain_stmt n 4 (BPF_JMP OR BPF_JEQ OR BPF_K) IPPROTO_NONE (Some stop) (Some 5)]"

definition chain_end :: "nat \<Rightarrow> nat \<Rightarrow> u32 \<Rightarrow> nat \<Rightarrow> slist list" where
  "chain_end n h start reg2 =
     [chain_stmt n h (BPF_JMP OR BPF_JEQ OR BPF_K) (word_of_int IPPROTO_AH) (Some (h + 1)) (Some (h + 13)),
      chain_stmt n (h + 1) (BPF_MISC OR BPF_TXA) 0 None None,
      chain_stmt n (h + 2) (BPF_LD OR BPF_IND OR BPF_B) start None None,
      chain_stmt n (h + 3) BPF_ST (of_nat reg2) (Some (h + 4)) None,
      chain_stmt n (h + 4) (BPF_MISC OR BPF_TXA) 0 None None,
      chain_stmt n (h + 5) (BPF_ALU OR BPF_ADD OR BPF_K) 1 None None,
      chain_stmt n (h + 6) (BPF_MISC OR BPF_TAX) 0 None None,
      chain_stmt n (h + 7) (BPF_LD OR BPF_IND OR BPF_B) start None None,
      chain_stmt n (h + 8) (BPF_ALU OR BPF_ADD OR BPF_K) 2 None None,
      chain_stmt n (h + 9) (BPF_ALU OR BPF_MUL OR BPF_K) 4 None None,
      chain_stmt n (h + 10) (BPF_MISC OR BPF_TAX) 0 None None,
      chain_stmt n (h + 11) (BPF_LD OR BPF_MEM) (of_nat reg2) None None,
      chain_stmt n (h + 12) (BPF_JMP OR BPF_JA) (3 - of_nat (h + 12) - 1) None None,
      chain_stmt n (h + 13) (BPF_ALU OR BPF_ADD OR BPF_K) 0 None None]"

definition ip_chain :: "nat \<Rightarrow> u32 \<Rightarrow> u32 \<Rightarrow> nat \<Rightarrow> slist list" where
  "ip_chain n start v reg2 =
     [chain_stmt n 1 (BPF_LD OR BPF_ABS OR BPF_B) (start + 9) None None,
      chain_stmt n 2 (BPF_LDX OR BPF_MSH OR BPF_B) start None None] @
     chain_start n 19 v @
     [chain_stmt n 5 (BPF_ALU OR BPF_ADD OR BPF_K) 0 None None] @
     chain_end n 6 start reg2"

definition ipv6_chain :: "nat \<Rightarrow> u32 \<Rightarrow> u32 \<Rightarrow> nat \<Rightarrow> slist list" where
  "ipv6_chain n start v reg2 =
     [chain_stmt n 1 (BPF_LD OR BPF_ABS OR BPF_B) (start + 6) None None,
      chain_stmt n 2 (BPF_LDX OR BPF_IMM) 40 None None] @
     chain_start n 31 v @
     [chain_stmt n 5 (BPF_JMP OR BPF_JEQ OR BPF_K) IPPROTO_HOPOPTS (Some 9) (Some 6),
      chain_stmt n 6 (BPF_JMP OR BPF_JEQ OR BPF_K) IPPROTO_DSTOPTS (Some 9) (Some 7),
      chain_stmt n 7 (BPF_JMP OR BPF_JEQ OR BPF_K) IPPROTO_ROUTING (Some 9) (Some 8),
      chain_stmt n 8 (BPF_JMP OR BPF_JEQ OR BPF_K) IPPROTO_FRAGMENT (Some 9) (Some 18),
      chain_stmt n 9 (BPF_LD OR BPF_IND OR BPF_B) start None None,
      chain_stmt n 10 BPF_ST (of_nat reg2) None None,
      chain_stmt n 11 (BPF_LD OR BPF_IND OR BPF_B) (start + 1) None None,
      chain_stmt n 12 (BPF_ALU OR BPF_ADD OR BPF_K) 1 None None,
      chain_stmt n 13 (BPF_ALU OR BPF_MUL OR BPF_K) 8 None None,
      chain_stmt n 14 (BPF_ALU OR BPF_ADD OR BPF_X) 0 None None,
      chain_stmt n 15 (BPF_MISC OR BPF_TAX) 0 None None,
      chain_stmt n 16 (BPF_LD OR BPF_MEM) (of_nat reg2) None (Some 17),
      chain_stmt n 17 (BPF_JMP OR BPF_JA) (3 - 17 - 1) None None] @
     chain_end n 18 start reg2"

text \<open>One of the two, with the register allocated; \<open>no_optimize\<close> only concerns the optimizer.\<close>

definition protochain_of :: "host \<Rightarrow> u32 \<Rightarrow> int \<Rightarrow> nat \<Rightarrow> nat gen" where
  "protochain_of hp v proto reg2 =
     gbind (gget cs_layout) (\<lambda>l.
     if is_variable (off_linkpl l) then
       gfail (Bpf_error (quoted ''protochain'' '' not supported with variable length headers'') [])
     else
       gbind (gen_linktype hp (if proto = Q_IP then ETHERTYPE_IP else ETHERTYPE_IPV6)) (\<lambda>b0.
       gbind (gget (\<lambda>s. (cs_layout s, cs_next_addr s))) (\<lambda>(l, n).
       let start = constant_part (off_linkpl l) + off_nl l;
         ss = (if proto = Q_IP then ip_chain n start v reg2 else ipv6_chain n start v reg2) in
       gbind (gmodify (\<lambda>s. s\<lparr>cs_next_addr := n + 1 + length ss\<rparr>)) (\<lambda>_.
       gbind (block_with (JMP_code BPF_JEQ) ss v) (\<lambda>b.
       gbind (free_reg reg2) (\<lambda>_.
       gbind (gen_and_m b0 b) (\<lambda>_. gret b)))))))"

definition gen_protochain :: "host \<Rightarrow> int \<Rightarrow> int \<Rightarrow> int \<Rightarrow> nat gen" where
  "gen_protochain hp v proto dir =
     gbind alloc_reg (\<lambda>reg2.
       let v = word_of_int v in
       if proto \<in> {Q_IP, Q_IPV6} then protochain_of hp v proto reg2
       else if proto = Q_DEFAULT then
         both_or (gbind alloc_reg (protochain_of hp v Q_IP)) (gbind alloc_reg (protochain_of hp v Q_IPV6))
       else gfail (Bpf_error (''bad protocol applied for '' @ quoted ''protochain'' []) []))"

section \<open>Link-layer addresses\<close>

text \<open>
  The \<open>switch\<close> on the link-layer type of \<open>gen_ecode\<close> and \<open>gen_scode\<close>; \<open>eaddr\<close> gives the address,
  or fails with the kind of the link layer.
\<close>

definition ether_test :: "u8 list \<Rightarrow> int \<Rightarrow> nat gen" where
  "ether_test eaddr dir = opt_and gen_prevlinkhdr_check (gen_ehostop eaddr dir)"

definition link_host :: "u32 \<Rightarrow> (string \<Rightarrow> gen_error + u8 list) \<Rightarrow> int \<Rightarrow> string \<Rightarrow> nat gen" where
  "link_host fddipad eaddr dir err =
     gbind (gget cs_layout) (\<lambda>l.
       let known = (\<lambda>kind op'. case eaddr kind of Inl e \<Rightarrow> gfail e | Inr a \<Rightarrow> op' a) in
       if linktype l \<in> {DLT_EN10MB, DLT_NETANALYZER, DLT_NETANALYZER_TRANSPARENT} then
         known ''ether'' (\<lambda>a. ether_test a dir)
       else if linktype l = DLT_FDDI then known ''FDDI'' (\<lambda>a. gen_fhostop fddipad a dir)
       else if linktype l = DLT_IEEE802 then known ''token ring'' (\<lambda>a. gen_thostop a dir)
       else if linktype l \<in> {DLT_IEEE802_11, DLT_PRISM_HEADER, DLT_IEEE802_11_RADIO_AVS, DLT_IEEE802_11_RADIO, DLT_PPI}
       then known ''802.11'' (\<lambda>a. gen_wlanhostop a dir)
       else if linktype l = DLT_IP_OVER_FC then known ''Fibre Channel'' (\<lambda>a. gen_ipfchostop a dir)
       else gfail (Bpf_error err []))"

definition gen_ecode :: "u32 \<Rightarrow> u8 list \<Rightarrow> qual \<Rightarrow> nat gen" where
  "gen_ecode fddipad eaddr q =
     (if q_addr q \<in> {Q_HOST, Q_DEFAULT} \<and> q_proto q = Q_LINK then
        link_host fddipad (\<lambda>_. Inr eaddr) (q_dir q)
          ''ethernet addresses supported only on ethernet/FDDI/token ring/802.11/ATM LANE/Fibre Channel''
      else gfail (Bpf_error ''ethernet address used in non-ether expression'' []))"

definition gen_acode :: "u8 list \<Rightarrow> qual \<Rightarrow> nat gen" where
  "gen_acode eaddr q =
     gbind (gget cs_layout) (\<lambda>l.
       if linktype l \<in> {DLT_ARCNET, DLT_ARCNET_LINUX} then
         (if q_addr q \<in> {Q_HOST, Q_DEFAULT} \<and> q_proto q = Q_LINK then gen_ahostop eaddr (q_dir q)
          else gfail (Bpf_error ''ARCnet address used in non-arc expression'' []))
       else gfail (Bpf_error ''aid supported only on ARCnet'' []))"

section \<open>Networks\<close>

text \<open>The loop that left-justifies the number of a network and makes its mask.\<close>

lemma byte_shifted_up:
  assumes "a \<noteq> 0" and "a AND 0xff000000 = (0 :: u32)"
  shows "unat a < unat (push_bit 8 a)"
proof -
  have "a = a AND 0x00ffffff"
  proof (rule bit_word_eqI)
    fix n assume n: "n < LENGTH(32)"
    have "\<not> bit (a AND 0xff000000) n" using assms(2) by simp
    then show "bit a n = bit (a AND 0x00ffffff) n" using n
      by (simp only: bit_and_iff) (auto simp: bit_numeral_rec less_Suc_eq numeral_eq_Suc bit_simps)
  qed
  then have "a \<le> 0x00ffffff" by (metis word_and_le1)
  then have "unat a < 2 ^ 24" by (simp add: word_le_nat_alt)
  then have "unat (push_bit 8 a) = unat a * 256"
    by (simp add: push_bit_eq_mult unat_mult_lem [THEN iffD1])
  moreover have "0 < unat a" using assms(1) by (simp add: unat_gt_0)
  ultimately show ?thesis by simp
qed

function justify_net :: "u32 \<Rightarrow> u32 \<Rightarrow> u32 \<times> u32" where
  "justify_net addr msk =
     (if addr \<noteq> 0 \<and> addr AND 0xff000000 = 0 then justify_net (push_bit 8 addr) (push_bit 8 msk)
      else (addr, msk))"
  by auto
termination
proof (relation "measure (\<lambda>(addr, msk). 2 ^ 32 - unat addr)", simp)
  fix addr msk :: u32 assume "addr \<noteq> 0 \<and> addr AND 0xff000000 = 0"
  then have "unat addr < unat (push_bit 8 addr)" by (simp add: byte_shifted_up)
  then show "((push_bit 8 addr, push_bit 8 msk), addr, msk) \<in> measure (\<lambda>(addr, msk). 2 ^ 32 - unat addr)"
    using unsigned_less [of "push_bit 8 addr", where ?'a = nat] by simp
qed

declare justify_net.simps [simp del]

text \<open>The number that \<open>__pcap_atoin\<close> reads of a text, promoted to 32 bits, and how many bits it had.\<close>

definition promoted :: "string \<Rightarrow> u32" where
  "promoted s = (let (len, n) = pcap_atoin s in push_bit (nat (32 - len)) n)"

definition network_test :: "host \<Rightarrow> u32 \<Rightarrow> u32 \<Rightarrow> qual \<Rightarrow> nat gen" where
  "network_test hp n msk q =
     (if q_addr q = Q_NET then gen_host hp n msk (q_proto q) (q_dir q) (q_addr q)
      else gfail (Bpf_error ''Mask syntax for networks only'' []))"

definition gen_mcode :: "host \<Rightarrow> string \<Rightarrow> string option \<Rightarrow> u32 \<Rightarrow> qual \<Rightarrow> nat gen" where
  "gen_mcode hp s1 s2 masklen q =
     (let n = promoted s1 in
      case s2 of
        Some s2 \<Rightarrow>
          let msk = promoted s2 in
          if n AND NOT msk \<noteq> 0
          then gfail (Bpf_error (''non-network bits set in '' @ dquoted (s1 @ '' mask '' @ s2)) [])
          else network_test hp n msk q
      | None \<Rightarrow>
          if 32 < masklen then gfail (Bpf_error ''mask length must be <= 32'' [])
          else
            let msk = (if masklen = 0 then 0 else push_bit (unat (32 - masklen)) 0xffffffff) in
            if n AND NOT msk \<noteq> 0
            then gfail (Bpf_error (''non-network bits set in '' @ dquoted (s1 @ ''/%d'')) [uint masklen])
            else network_test hp n msk q)"

text \<open>
  \<open>gen_mcode6\<close>. The address is taken for an IPv6 address whatever its family is; for another
  family the code reads beyond it.
\<close>

definition prefix_mask :: "nat \<Rightarrow> u32 list" where
  "prefix_mask len =
     (let byte = (\<lambda>i. if i < len div 8 then 0xff
        else if i = len div 8 \<and> len mod 8 \<noteq> 0 then push_bit (8 - len mod 8) 0xff else 0 :: u8) in
      map (\<lambda>w. be_value [byte (4 * w), byte (4 * w + 1), byte (4 * w + 2), byte (4 * w + 3)]) [0..<4])"

definition gen_mcode6 :: "databases \<Rightarrow> host \<Rightarrow> string \<Rightarrow> string option \<Rightarrow> u32 \<Rightarrow> qual \<Rightarrow> nat gen" where
  "gen_mcode6 db hp s1 s2 masklen q =
     (case s2 of
        Some s2 \<Rightarrow> gfail (Bpf_error (''no mask '' @ s2 @ '' supported'') [])
      | None \<Rightarrow>
          (case db_addrinfo db s1 of
             Some [Inet6 addr] \<Rightarrow>
               if 128 < masklen then gfail (Bpf_error ''mask length must be <= %u'' [128])
               else
                 let msk = prefix_mask (unat masklen) in
                 if \<exists>i\<in>{0..<4}. addr ! i AND NOT (msk ! i) \<noteq> 0
                 then gfail (Bpf_error (''non-network bits set in '' @ dquoted (s1 @ ''/%d'')) [uint masklen])
                 else if q_addr q \<in> {Q_DEFAULT, Q_HOST} \<and> masklen \<noteq> 128
                 then gfail (Bpf_error ''Mask syntax for networks only'' [])
                 else if q_addr q \<in> {Q_DEFAULT, Q_HOST, Q_NET}
                 then gen_host6 hp addr msk (q_proto q) (q_dir q) (q_addr q)
                 else gfail (Bpf_error ''invalid qualifier against IPv6 address'' [])
           | Some [_] \<Rightarrow> gfail No_result
           | Some (_ # _) \<Rightarrow> gfail (Bpf_error (s1 @ '' resolved to multiple address'') [])
           | _ \<Rightarrow> gfail (Bpf_error (''invalid ip6 address '' @ s1) [])))"

section \<open>Numbers\<close>

text \<open>A port in both families; the test of the IPv6 port is generated last and made first.\<close>

definition port_test :: "host \<Rightarrow> int \<Rightarrow> int \<Rightarrow> int \<Rightarrow> nat gen" where
  "port_test hp port proto dir = or_before (gen_port hp port proto dir) (gen_port6 hp port proto dir)"

definition portrange_test :: "host \<Rightarrow> int \<Rightarrow> int \<Rightarrow> int \<Rightarrow> int \<Rightarrow> nat gen" where
  "portrange_test hp port1 port2 proto dir =
     or_before (gen_portrange hp port1 port2 proto dir) (gen_portrange6 hp port1 port2 proto dir)"

definition number_port :: "string \<Rightarrow> u32 \<Rightarrow> int \<Rightarrow> (int \<Rightarrow> nat gen) \<Rightarrow> nat gen" where
  "number_port what v proto test =
     (case map_of [(Q_UDP, IPPROTO_UDP), (Q_TCP, IPPROTO_TCP), (Q_SCTP, IPPROTO_SCTP), (Q_DEFAULT, PROTO_UNDEF)] proto of
        None \<Rightarrow> gfail (Bpf_error (''illegal qualifier of '' @ quoted what []) [])
      | Some p \<Rightarrow>
          if 65535 < v then gfail (Bpf_error ''illegal port number %u > 65535'' [uint v]) else test p)"

definition gen_ncode :: "host \<Rightarrow> string option \<Rightarrow> u32 \<Rightarrow> qual \<Rightarrow> nat gen" where
  "gen_ncode hp s v q =
     (let proto = q_proto q; dir = q_dir q;
        value = (case s of
          None \<Rightarrow> Inr (32, v)
        | Some s \<Rightarrow> if proto = Q_DECNET then map_sum id (Pair 32) (pcap_atodn s) else Inr (pcap_atoin s)) in
      case value of
        Inl e \<Rightarrow> gfail e
      | Inr (bits, v) \<Rightarrow>
          if q_addr q \<in> {Q_DEFAULT, Q_HOST, Q_NET} then
            (if proto = Q_DECNET then gen_host hp v 0 proto dir (q_addr q)
             else if proto = Q_LINK then gfail (Bpf_error ''illegal link layer address'' [])
             else
               let (n, msk) = (if s = None \<and> q_addr q = Q_NET then justify_net v 0xffffffff
                 else (push_bit (nat (32 - bits)) v, push_bit (nat (32 - bits)) 0xffffffff)) in
               gen_host hp n msk proto dir (q_addr q))
          else if q_addr q = Q_PORT then number_port ''port'' v proto (\<lambda>p. port_test hp (uint v) p dir)
          else if q_addr q = Q_PORTRANGE
          then number_port ''portrange'' v proto (\<lambda>p. portrange_test hp (uint v) (uint v) p dir)
          else if q_addr q = Q_GATEWAY then gfail (Bpf_error (quoted ''gateway'' '' requires a name'') [])
          else if q_addr q = Q_PROTO then gen_proto hp (sint v) proto dir
          else if q_addr q = Q_PROTOCHAIN then gen_protochain hp (sint v) proto dir
          else if q_addr q = Q_UNDEF then syntax_error
          else gfail Aborts)"

section \<open>Names\<close>

definition lookup_proto :: "databases \<Rightarrow> string \<Rightarrow> int \<Rightarrow> gen_error + int" where
  "lookup_proto db nm proto =
     (let unknown = (\<lambda>kind. Inl (Bpf_error (''unknown '' @ kind @ '' proto '' @ quoted nm []) [])) in
      if proto \<in> {Q_DEFAULT, Q_IP, Q_IPV6} then
        (let v = pcap_nametoproto db nm in if v = PROTO_UNDEF then unknown ''ip'' else Inr v)
      else if proto = Q_LINK then
        (let v = pcap_nametoeproto nm in
         if v \<noteq> PROTO_UNDEF then Inr v
         else (let v = pcap_nametollc nm in if v = PROTO_UNDEF then unknown ''ether'' else Inr v))
      else if proto = Q_ISO then
        (if nm = ''esis'' then Inr ISO9542_ESIS
         else if nm = ''isis'' then Inr ISO10589_ISIS
         else if nm = ''clnp'' then Inr ISO8473_CLNP
         else unknown ''osi'')
      else Inr PROTO_UNDEF)"

text \<open>
  The hosts of a name: a test for each address of a family that the protocol admits, joined by
  \<open>gen_or(b, tmp); b = tmp;\<close>.
\<close>

definition address_test :: "host \<Rightarrow> int \<Rightarrow> int \<Rightarrow> int \<Rightarrow> int \<Rightarrow> host_addr \<Rightarrow> nat gen" where
  "address_test hp tproto tproto6 dir ty a =
     (case a of
        Inet w \<Rightarrow> gen_host hp w 0xffffffff tproto dir ty
      | Inet6 ws \<Rightarrow> gen_host6 hp ws (replicate 4 0xffffffff) tproto6 dir ty
      | Other_family \<Rightarrow> gfail Aborts)"

definition admitted :: "int \<Rightarrow> int \<Rightarrow> host_addr \<Rightarrow> bool" where
  "admitted tproto tproto6 a =
     (case a of Inet _ \<Rightarrow> tproto \<noteq> Q_IPV6 | Inet6 _ \<Rightarrow> tproto6 \<noteq> Q_IP | Other_family \<Rightarrow> False)"

fun or_each :: "nat gen \<Rightarrow> nat gen list \<Rightarrow> nat gen" where
  "or_each b [] = b"
| "or_each b (tmp # ms) = or_each (both_or b tmp) ms"

definition named_host :: "databases \<Rightarrow> host \<Rightarrow> string \<Rightarrow> qual \<Rightarrow> nat gen" where
  "named_host db hp nm q =
     (case db_addrinfo db nm of
        Some (a # as) \<Rightarrow>
          gbind (gget cs_layout) (\<lambda>l.
            let dflt = (\<lambda>p. if constant_part (off_linktype l) = - 1 \<and> q_proto q = Q_DEFAULT then p else q_proto q);
              tproto = dflt Q_IP; tproto6 = dflt Q_IPV6 in
            case filter (admitted tproto tproto6) (a # as) of
              [] \<Rightarrow> gfail (Bpf_error (''unknown host '' @ quoted nm
                (if q_proto q = Q_DEFAULT then [] else '' for specified address family'')) [])
            | b # bs \<Rightarrow> or_each (address_test hp tproto tproto6 (q_dir q) (q_addr q) b)
                (map (address_test hp tproto tproto6 (q_dir q) (q_addr q)) bs))
      | _ \<Rightarrow> gfail (Bpf_error (''unknown host '' @ quoted nm []) []))"

text \<open>The protocol of a named port, given the one the database has for it.\<close>

definition port_proto :: "string \<Rightarrow> string \<Rightarrow> int \<Rightarrow> int \<Rightarrow> gen_error + int" where
  "port_proto what nm proto real_proto =
     (let is = (\<lambda>p. Inl (Bpf_error (what @ quoted nm ('' is '' @ p)) [])) in
      if proto = Q_UDP then
        (if real_proto = IPPROTO_TCP then is ''tcp'' else if real_proto = IPPROTO_SCTP then is ''sctp'' else Inr IPPROTO_UDP)
      else if proto = Q_TCP then
        (if real_proto = IPPROTO_UDP then is ''udp'' else if real_proto = IPPROTO_SCTP then is ''sctp'' else Inr IPPROTO_TCP)
      else if proto = Q_SCTP then
        (if real_proto = IPPROTO_UDP then is ''udp'' else if real_proto = IPPROTO_TCP then is ''tcp'' else Inr IPPROTO_SCTP)
      else Inr real_proto)"

definition port_error :: "int \<Rightarrow> gen_error option" where
  "port_error p =
     (if p < 0 then Some (Bpf_error ''illegal port number %d < 0'' [p])
      else if 65535 < p then Some (Bpf_error ''illegal port number %d > 65535'' [p]) else None)"

definition named_port :: "databases \<Rightarrow> host \<Rightarrow> string \<Rightarrow> qual \<Rightarrow> nat gen" where
  "named_port db hp nm q =
     (if q_proto q \<notin> {Q_DEFAULT, Q_UDP, Q_TCP, Q_SCTP}
      then gfail (Bpf_error (''illegal qualifier of '' @ quoted ''port'' []) [])
      else
        case pcap_nametoport db nm of
          None \<Rightarrow> gfail (Bpf_error (''unknown port '' @ quoted nm []) [])
        | Some (port, real_proto) \<Rightarrow>
            (case port_proto ''port '' nm (q_proto q) real_proto of
               Inl e \<Rightarrow> gfail e
             | Inr real_proto \<Rightarrow>
                 (case port_error port of Some e \<Rightarrow> gfail e | None \<Rightarrow> port_test hp port real_proto (q_dir q))))"

definition named_portrange :: "databases \<Rightarrow> host \<Rightarrow> string \<Rightarrow> qual \<Rightarrow> nat gen" where
  "named_portrange db hp nm q =
     (if q_proto q \<notin> {Q_DEFAULT, Q_UDP, Q_TCP, Q_SCTP}
      then gfail (Bpf_error (''illegal qualifier of '' @ quoted ''portrange'' []) [])
      else
        case pcap_nametoportrange db nm of
          None \<Rightarrow> gfail (Bpf_error (''unknown port in range '' @ quoted nm []) [])
        | Some (port1, port2, real_proto) \<Rightarrow>
            (case port_proto ''port in range '' nm (q_proto q) real_proto of
               Inl e \<Rightarrow> gfail e
             | Inr real_proto \<Rightarrow>
                 (case port_error port1 of Some e \<Rightarrow> gfail e
                  | None \<Rightarrow>
                      (case port_error port2 of Some e \<Rightarrow> gfail e
                       | None \<Rightarrow> portrange_test hp port1 port2 real_proto (q_dir q)))))"

definition gen_scode :: "databases \<Rightarrow> host \<Rightarrow> u32 \<Rightarrow> string \<Rightarrow> qual \<Rightarrow> nat gen" where
  "gen_scode db hp fddipad nm q =
     (let proto = q_proto q; dir = q_dir q;
        protocol = (\<lambda>test. case lookup_proto db nm proto of
            Inl e \<Rightarrow> gfail e
          | Inr v \<Rightarrow> if 0 \<le> v then test v else gfail (Bpf_error (''unknown protocol: '' @ nm) [])) in
      if q_addr q = Q_NET then
        (let addr = pcap_nametonetaddr db nm in
         if addr = 0 then gfail (Bpf_error (''unknown network '' @ quoted nm []) [])
         else let (n, msk) = justify_net addr 0xffffffff in gen_host hp n msk proto dir (q_addr q))
      else if q_addr q \<in> {Q_DEFAULT, Q_HOST} then
        (if proto = Q_LINK then
           link_host fddipad (\<lambda>kind. case pcap_ether_hostton (db_ethers db) nm of
               None \<Rightarrow> Inl (Bpf_error (''unknown '' @ kind @ '' host '' @ quoted nm []) [])
             | Some a \<Rightarrow> Inr a) dir
             ''only ethernet/FDDI/token ring/802.11/ATM LANE/Fibre Channel supports link-level host name''
         else if proto = Q_DECNET then
           gfail (Bpf_error (''decnet name support not included, '' @ quoted nm ('' cannot be translated'' @ [CHR 0x0A])) [])
         else named_host db hp nm q)
      else if q_addr q = Q_PORT then named_port db hp nm q
      else if q_addr q = Q_PORTRANGE then named_portrange db hp nm q
      else if q_addr q = Q_GATEWAY then
        gfail (Bpf_error (quoted ''gateway'' '' not supported in this configuration'') [])
      else if q_addr q = Q_PROTO then protocol (\<lambda>v. gen_proto hp v proto dir)
      else if q_addr q = Q_PROTOCHAIN then protocol (\<lambda>v. gen_protochain hp v proto dir)
      else if q_addr q = Q_UNDEF then syntax_error
      else gfail Aborts)"

end
