(* ===== verification/Gencode_Layers.thy ===== *)
theory Gencode_Layers
  imports Gencode_Hosts
begin

unbundle bit_operations_syntax

text \<open>
  The tests for encapsulation and for particular link layers (jni/libpcap/gencode.c): 802.2, ATM,
  SS7 and 802.11 fields, VLAN tags, MPLS labels and PPPoE, which move the offsets of the tests that
  follow them, and broadcast and multicast addresses.
\<close>

section \<open>ATM and SS7\<close>

text \<open>The macro \<open>PUSH_LINKHDR\<close>.\<close>

definition push_linkhdr :: "int \<Rightarrow> bool \<Rightarrow> u32 \<Rightarrow> int \<Rightarrow> layout \<Rightarrow> layout" where
  "push_linkhdr new_linktype new_is_variable new_constant_part new_reg l =
     l\<lparr>prevlinktype := new_linktype, off_prevlinkhdr := off_linkhdr l, linktype := new_linktype,
       off_linkhdr := \<lparr>is_variable = new_is_variable, constant_part = new_constant_part, ao_reg = new_reg\<rparr>,
       is_geneve := False\<rparr>"

abbreviation (input) "PT_LANE \<equiv> 0x01 :: u32"
abbreviation (input) "A_METAC \<equiv> 22 :: int"
abbreviation (input) "A_BCC \<equiv> 23 :: int"
abbreviation (input) "A_OAMF4SC \<equiv> 24 :: int"
abbreviation (input) "A_OAMF4EC \<equiv> 25 :: int"
abbreviation (input) "A_SC \<equiv> 26 :: int"
abbreviation (input) "A_ILMIC \<equiv> 27 :: int"
abbreviation (input) "A_OAM \<equiv> 28 :: int"
abbreviation (input) "A_OAMF4 \<equiv> 29 :: int"
abbreviation (input) "A_LANE \<equiv> 30 :: int"
abbreviation (input) "A_LLC \<equiv> 31 :: int"
abbreviation (input) "A_SETUP \<equiv> 41 :: int"
abbreviation (input) "A_CALLPROCEED \<equiv> 42 :: int"
abbreviation (input) "A_CONNECT \<equiv> 43 :: int"
abbreviation (input) "A_CONNECTACK \<equiv> 44 :: int"
abbreviation (input) "A_RELEASE \<equiv> 45 :: int"
abbreviation (input) "A_RELEASE_DONE \<equiv> 46 :: int"
abbreviation (input) "A_CONNECTMSG \<equiv> 70 :: int"
abbreviation (input) "A_METACONNECT \<equiv> 71 :: int"

definition raw_atm_only :: "string \<Rightarrow> nat gen \<Rightarrow> nat gen" where
  "raw_atm_only name m =
     gbind (gget cs_layout) (\<lambda>l.
       if \<not> is_atm l then gfail (Bpf_error (quoted name '' supported only on raw ATM'') []) else m)"

definition atm_circuit :: "u32 \<Rightarrow> nat gen" where
  "atm_circuit vci =
     both_and (gen_atmfield_code A_VPI 0 BPF_JEQ False) (gen_atmfield_code A_VCI vci BPF_JEQ False)"

definition lane_layout :: "layout \<Rightarrow> layout" where
  "lane_layout l =
     (let l = push_linkhdr DLT_EN10MB False (off_payload l + 2) (- 1) l in
      l\<lparr>off_linktype := (off_linktype l)\<lparr>constant_part := constant_part (off_linkhdr l) + 12\<rparr>,
        off_linkpl := (off_linkpl l)\<lparr>constant_part := constant_part (off_linkhdr l) + 14\<rparr>,
        off_nl := 0, off_nl_nosnap := 3\<rparr>)"

definition gen_atmtype_abbrev :: "int \<Rightarrow> nat gen" where
  "gen_atmtype_abbrev ty =
     (case map_of
        [(A_METAC, ''metac'', 1), (A_BCC, ''bcc'', 2), (A_OAMF4SC, ''oam4sc'', 3), (A_OAMF4EC, ''oam4ec'', 4),
         (A_SC, ''sc'', 5), (A_ILMIC, ''ilmic'', 16)] ty of
        Some (name, vci) \<Rightarrow> raw_atm_only name (atm_circuit vci)
      | None \<Rightarrow>
          if ty = A_LANE then
            raw_atm_only ''lane'' (then_layout (gen_atmfield_code A_PROTOTYPE PT_LANE BPF_JEQ False) lane_layout)
          else if ty = A_LLC then
            raw_atm_only ''llc'' (then_layout (gen_atmfield_code A_PROTOTYPE PT_LLC BPF_JEQ False)
              (\<lambda>l. l\<lparr>linktype := prevlinktype l\<rparr>))
          else gfail Aborts)"

text \<open>\<open>gen_msg_abbrev\<close>, with the messages of atmuni31.h.\<close>

definition gen_msg_abbrev :: "int \<Rightarrow> nat gen" where
  "gen_msg_abbrev ty =
     (case map_of [(A_SETUP, 0x05), (A_CALLPROCEED, 0x02), (A_CONNECT, 0x07), (A_CONNECTACK, 0x0f),
        (A_RELEASE, 0x4d), (A_RELEASE_DONE, 0x5a)] ty of
        Some v \<Rightarrow> gen_atmfield_code A_MSGTYPE v BPF_JEQ False
      | None \<Rightarrow> gfail Aborts)"

definition atm_oamf4 :: "nat gen" where
  "atm_oamf4 =
     raw_atm_only ''oamf4''
       (and_before
         (both_or (gen_atmfield_code A_VCI 3 BPF_JEQ False) (gen_atmfield_code A_VCI 4 BPF_JEQ False))
         (gen_atmfield_code A_VPI 0 BPF_JEQ False))"

definition gen_atmmulti_abbrev :: "int \<Rightarrow> nat gen" where
  "gen_atmmulti_abbrev ty =
     (if ty = A_OAM then raw_atm_only ''oam'' atm_oamf4
      else if ty = A_OAMF4 then atm_oamf4
      else if ty = A_CONNECTMSG then
        raw_atm_only ''connectmsg''
          (and_before
            (or_before (or_before (or_before (or_before
              (both_or (gen_msg_abbrev A_SETUP) (gen_msg_abbrev A_CALLPROCEED))
              (gen_msg_abbrev A_CONNECT)) (gen_msg_abbrev A_CONNECTACK)) (gen_msg_abbrev A_RELEASE))
              (gen_msg_abbrev A_RELEASE_DONE))
            (gen_atmtype_abbrev A_SC))
      else if ty = A_METACONNECT then
        raw_atm_only ''metaconnect''
          (and_before
            (or_before (or_before (or_before
              (both_or (gen_msg_abbrev A_SETUP) (gen_msg_abbrev A_CALLPROCEED))
              (gen_msg_abbrev A_CONNECT)) (gen_msg_abbrev A_RELEASE)) (gen_msg_abbrev A_RELEASE_DONE))
            (gen_atmtype_abbrev A_METAC))
      else gfail Aborts)"

text \<open>\<open>gen_mtp2type_abbrev\<close>: the length indicator, of one byte or, on high-speed links, of nine bits.\<close>

definition mtp2_only :: "string \<Rightarrow> string \<Rightarrow> nat gen \<Rightarrow> nat gen" where
  "mtp2_only name kind m =
     gbind (gget cs_layout) (\<lambda>l.
       if linktype l \<notin> {DLT_MTP2, DLT_ERF, DLT_MTP2_WITH_PHDR}
       then gfail (Bpf_error (quoted name ('' supported only on '' @ kind)) []) else m)"

definition mtp2_li :: "u32 \<Rightarrow> u16 \<Rightarrow> bool \<Rightarrow> nat gen" where
  "mtp2_li v jtype rvs = gbind (gget cs_layout) (\<lambda>l. gen_ncmp OR_PACKET (off_li l) BPF_B 0x3f jtype rvs v)"

definition mtp2_li_hsl :: "u32 \<Rightarrow> u16 \<Rightarrow> bool \<Rightarrow> nat gen" where
  "mtp2_li_hsl v jtype rvs = gbind (gget cs_layout) (\<lambda>l. gen_ncmp OR_PACKET (off_li_hsl l) BPF_H 0xff80 jtype rvs v)"

definition gen_mtp2type_abbrev :: "int \<Rightarrow> nat gen" where
  "gen_mtp2type_abbrev ty =
     (if ty = 22 then mtp2_only ''fisu'' ''MTP2'' (mtp2_li 0 BPF_JEQ False)
      else if ty = 23 then mtp2_only ''lssu'' ''MTP2'' (and_before (mtp2_li 2 BPF_JGT True) (mtp2_li 0 BPF_JGT False))
      else if ty = 24 then mtp2_only ''msu'' ''MTP2'' (mtp2_li 2 BPF_JGT False)
      else if ty = 25 then mtp2_only ''hfisu'' ''MTP2_HSL'' (mtp2_li_hsl 0 BPF_JEQ False)
      else if ty = 26 then
        mtp2_only ''hlssu'' ''MTP2_HSL'' (and_before (mtp2_li_hsl 0x0100 BPF_JGT True) (mtp2_li_hsl 0 BPF_JGT False))
      else if ty = 27 then mtp2_only ''hmsu'' ''MTP2_HSL'' (mtp2_li_hsl 0x0100 BPF_JGT False)
      else gfail Aborts)"

text \<open>
  \<open>gen_mtp3field_code\<close>: a field's value is moved to where it is in the message. The fields of
  high-speed links (5 to 8) are three bytes further on.
\<close>

definition opc_bits :: "u32 \<Rightarrow> u32" where
  "opc_bits v = drop_bit 10 (v AND 0x3c00) + push_bit 6 (v AND 0x3fc) + push_bit 22 (v AND 0x3)"

definition dpc_bits :: "u32 \<Rightarrow> u32" where
  "dpc_bits v = push_bit 24 (v AND 0xff) + push_bit 8 (v AND 0x3f00)"

definition ss7_field :: "string \<Rightarrow> u32 \<Rightarrow> u32 \<Rightarrow> u32 \<Rightarrow> nat gen \<Rightarrow> nat gen" where
  "ss7_field name off v limit m =
     (if off = - 1 then gfail (Bpf_error (quoted name '' supported only on SS7'') [])
      else if limit < v then gfail (Bpf_error (name @ '' value %u too big; max value = %u'') [uint v, uint limit])
      else m)"

definition gen_mtp3field_code :: "int \<Rightarrow> u32 \<Rightarrow> u16 \<Rightarrow> bool \<Rightarrow> nat gen" where
  "gen_mtp3field_code fld v jtype rvs =
     gbind (gget cs_layout) (\<lambda>l.
       let more_off = (if fld \<in> {5, 6, 7, 8} then 3 else 0) in
       if fld \<in> {1, 5} then
         ss7_field ''sio'' (off_sio l) v 255
           (gen_ncmp OR_PACKET (off_sio l + more_off) BPF_B 0xffffffff jtype rvs v)
       else if fld \<in> {2, 6} then
         ss7_field ''opc'' (off_opc l) v 16383
           (gen_ncmp OR_PACKET (off_opc l + more_off) BPF_W 0x00c0ff0f jtype rvs (opc_bits v))
       else if fld \<in> {3, 7} then
         ss7_field ''dpc'' (off_dpc l) v 16383
           (gen_ncmp OR_PACKET (off_dpc l + more_off) BPF_W 0xff3f0000 jtype rvs (dpc_bits v))
       else if fld \<in> {4, 8} then
         ss7_field ''sls'' (off_sls l) v 15
           (gen_ncmp OR_PACKET (off_sls l + more_off) BPF_B 0xf0 jtype rvs (push_bit 4 v))
       else gfail Aborts)"

section \<open>802.2 and 802.11\<close>

definition gen_llc :: "nat gen" where
  "gen_llc =
     gbind (gget cs_layout) (\<lambda>l.
       if linktype l = DLT_EN10MB then
         both_and (negated (gen_cmp_gt OR_LINKTYPE 0 BPF_H (word_of_int ETHERMTU)))
           (negated (gen_cmp OR_LLC 0 BPF_H 0xFFFF))
       else if linktype l = DLT_SUNATM then gen_atmtype_abbrev A_LLC
       else if linktype l \<in> {DLT_IEEE802, DLT_FDDI, DLT_ATM_RFC1483} then gen_true
       else if linktype l \<in> {DLT_IEEE802_11, DLT_PRISM_HEADER, DLT_IEEE802_11_RADIO, DLT_IEEE802_11_RADIO_AVS, DLT_PPI}
       then gen_check_802_11_data_frame
       else gfail (Bpf_error (quoted ''llc'' '' not supported for linktype %d'') [linktype l]))"

definition gen_llc_i :: "nat gen" where
  "gen_llc_i = both_and gen_llc (negated (load_jset OR_LLC 2 BPF_B 0x01))"

definition gen_llc_s :: "nat gen" where
  "gen_llc_s = both_and gen_llc (gen_mcmp OR_LLC 2 BPF_B 1 0x03)"

definition gen_llc_u :: "nat gen" where
  "gen_llc_u = both_and gen_llc (gen_mcmp OR_LLC 2 BPF_B 3 0x03)"

definition gen_llc_s_subtype :: "u32 \<Rightarrow> nat gen" where
  "gen_llc_s_subtype subtype = both_and gen_llc (gen_mcmp OR_LLC 2 BPF_B subtype 0x0f)"

definition gen_llc_u_subtype :: "u32 \<Rightarrow> nat gen" where
  "gen_llc_u_subtype subtype = both_and gen_llc (gen_mcmp OR_LLC 2 BPF_B subtype 0xef)"

definition gen_p80211_type :: "u32 \<Rightarrow> u32 \<Rightarrow> nat gen" where
  "gen_p80211_type ty msk =
     gbind (gget cs_layout) (\<lambda>l.
       if linktype l \<in> {DLT_IEEE802_11, DLT_PRISM_HEADER, DLT_IEEE802_11_RADIO_AVS, DLT_IEEE802_11_RADIO}
       then gen_mcmp OR_LINKHDR 0 BPF_B ty msk
       else gfail (Bpf_error ''802.11 link-layer types supported only on 802.11'' []))"

definition gen_p80211_fcdir :: "u32 \<Rightarrow> nat gen" where
  "gen_p80211_fcdir fcdir =
     gbind (gget cs_layout) (\<lambda>l.
       if linktype l \<in> {DLT_IEEE802_11, DLT_PRISM_HEADER, DLT_IEEE802_11_RADIO_AVS, DLT_IEEE802_11_RADIO}
       then gen_mcmp OR_LINKHDR 1 BPF_B fcdir IEEE80211_FC1_DIR_MASK
       else gfail (Bpf_error ''frame direction supported only with 802.11 headers'' []))"

section \<open>VLAN, MPLS and PPPoE\<close>

text \<open>
  \<open>gen_vlan\<close>. The tag that Linux keeps beside the packet is loaded from the offsets of
  \<open>h_vlan_tag\<close>.
\<close>

definition gen_vlan_bpf_extensions :: "u32 \<Rightarrow> u32 \<Rightarrow> int \<Rightarrow> nat gen" where
  "gen_vlan_bpf_extensions tag present vlan_num =
     (if 0 \<le> vlan_num then
        both_and (gen_cmp OR_PACKET present BPF_B 1) (gen_cmp OR_PACKET tag BPF_B (word_of_int vlan_num))
      else gen_cmp OR_PACKET present BPF_B 1)"

definition skip_vlan_tag :: "layout \<Rightarrow> layout" where
  "skip_vlan_tag l =
     l\<lparr>off_linkpl := (off_linkpl l)\<lparr>constant_part := constant_part (off_linkpl l) + 4\<rparr>,
       off_linktype := (off_linktype l)\<lparr>constant_part := constant_part (off_linktype l) + 4\<rparr>\<rparr>"

definition gen_vlan_no_bpf_extensions :: "host \<Rightarrow> int \<Rightarrow> nat gen" where
  "gen_vlan_no_bpf_extensions hp vlan_num =
     (let tagged = both_or (gen_linktype hp ETHERTYPE_8021Q) (gen_linktype hp ETHERTYPE_8021QINQ) in
      then_layout
        (if 0 \<le> vlan_num then both_and tagged (gen_mcmp OR_LINKPL 0 BPF_H (word_of_int vlan_num) 0x0fff)
         else tagged)
        skip_vlan_tag)"

definition outermost_vlan :: "layout \<Rightarrow> bool" where
  "outermost_vlan l \<longleftrightarrow> vlan_stack_depth l = 0 \<and> \<not> is_variable (off_linkhdr l) \<and>
     constant_part (off_linkhdr l) = constant_part (off_outermostlinkhdr l)"

definition gen_vlan :: "host \<Rightarrow> int \<Rightarrow> nat gen" where
  "gen_vlan hp vlan_num =
     gbind (gget cs_layout) (\<lambda>l.
       if 0 < label_stack_depth l then gfail (Bpf_error ''no VLAN match after MPLS'' [])
       else then_layout
         (if linktype l \<in> {DLT_EN10MB, DLT_NETANALYZER, DLT_NETANALYZER_TRANSPARENT} then
            (case h_vlan_tag hp of
               None \<Rightarrow> gen_vlan_no_bpf_extensions hp vlan_num
             | Some offs \<Rightarrow>
                 if outermost_vlan l \<and> h_special_vlan hp
                 then gen_vlan_bpf_extensions (fst offs) (snd offs) vlan_num
                 else gen_vlan_no_bpf_extensions hp vlan_num)
          else if linktype l \<in> {DLT_IEEE802_11, DLT_PRISM_HEADER, DLT_IEEE802_11_RADIO_AVS, DLT_IEEE802_11_RADIO}
          then gen_vlan_no_bpf_extensions hp vlan_num
          else gfail (Bpf_error ''no VLAN support for data link type %d'' [linktype l]))
         (\<lambda>l. l\<lparr>vlan_stack_depth := vlan_stack_depth l + 1\<rparr>))"

abbreviation (input) "PPP_MPLS_UCAST \<equiv> 0x0281 :: int"

definition into_mpls :: "layout \<Rightarrow> layout" where
  "into_mpls l = l\<lparr>off_nl_nosnap := off_nl_nosnap l + 4, off_nl := off_nl l + 4,
     label_stack_depth := label_stack_depth l + 1\<rparr>"

definition gen_mpls :: "host \<Rightarrow> int \<Rightarrow> nat gen" where
  "gen_mpls hp label_num =
     (let inside = gbind (gget cs_layout) (\<lambda>l.
        if 0 < label_stack_depth l then gen_mcmp OR_PREVMPLSHDR 2 BPF_B 0 0x01
        else if linktype l \<in> {DLT_C_HDLC, DLT_EN10MB, DLT_NETANALYZER, DLT_NETANALYZER_TRANSPARENT}
        then gen_linktype hp ETHERTYPE_MPLS
        else if linktype l = DLT_PPP then gen_linktype hp PPP_MPLS_UCAST
        else gfail (Bpf_error ''no MPLS support for data link type %d'' [linktype l])) in
      then_layout
        (if 0 \<le> label_num
         then both_and inside (gen_mcmp OR_LINKPL 0 BPF_W (push_bit 12 (word_of_int label_num)) 0xfffff000)
         else inside)
        into_mpls)"

definition gen_pppoed :: "host \<Rightarrow> nat gen" where
  "gen_pppoed hp = gen_linktype hp ETHERTYPE_PPPOED"

definition into_pppoe :: "layout \<Rightarrow> layout" where
  "into_pppoe l =
     (let l = push_linkhdr DLT_PPP (is_variable (off_linkpl l)) (constant_part (off_linkpl l) + off_nl l + 6)
          (ao_reg (off_linkpl l)) l in
      l\<lparr>off_linktype := off_linkhdr l,
        off_linkpl := (off_linkpl l)\<lparr>constant_part := constant_part (off_linkhdr l) + 2\<rparr>,
        off_nl := 0, off_nl_nosnap := 0\<rparr>)"

definition gen_pppoes :: "host \<Rightarrow> int \<Rightarrow> nat gen" where
  "gen_pppoes hp sess_num =
     then_layout
       (if 0 \<le> sess_num
        then both_and (gen_linktype hp ETHERTYPE_PPPOES) (gen_mcmp OR_LINKPL 0 BPF_W (word_of_int sess_num) 0x0000ffff)
        else gen_linktype hp ETHERTYPE_PPPOES)
       into_pppoe"

section \<open>Broadcast and multicast\<close>

definition broadcast_link :: "host \<Rightarrow> nat gen" where
  "broadcast_link hp =
     gbind (gget cs_layout) (\<lambda>l.
       let ebroadcast = replicate 6 0xff in
       if linktype l \<in> {DLT_ARCNET, DLT_ARCNET_LINUX} then gen_ahostop [0] Q_DST
       else if linktype l \<in> {DLT_EN10MB, DLT_NETANALYZER, DLT_NETANALYZER_TRANSPARENT} then
         opt_and gen_prevlinkhdr_check (gen_ehostop ebroadcast Q_DST)
       else if linktype l = DLT_FDDI then gen_fhostop (h_fddipad hp) ebroadcast Q_DST
       else if linktype l = DLT_IEEE802 then gen_thostop ebroadcast Q_DST
       else if linktype l \<in> {DLT_IEEE802_11, DLT_PRISM_HEADER, DLT_IEEE802_11_RADIO_AVS, DLT_IEEE802_11_RADIO, DLT_PPI}
       then gen_wlanhostop ebroadcast Q_DST
       else if linktype l = DLT_IP_OVER_FC then gen_ipfchostop ebroadcast Q_DST
       else gfail (Bpf_error ''not a broadcast link'' []))"

definition gen_broadcast :: "host \<Rightarrow> int \<Rightarrow> nat gen" where
  "gen_broadcast hp proto =
     (if proto \<in> {Q_DEFAULT, Q_LINK} then broadcast_link hp
      else if proto = Q_IP then
        gbind (gget cs_netmask) (\<lambda>netmask.
          if netmask = 0xffffffff
          then gfail (Bpf_error (''netmask not known, so '' @ quoted ''ip broadcast'' '' not supported'') [])
          else both_and (gen_linktype hp ETHERTYPE_IP)
            (both_or (gen_mcmp OR_LINKPL 16 BPF_W 0 (NOT netmask))
              (gen_mcmp OR_LINKPL 16 BPF_W (NOT 0 AND NOT netmask) (NOT netmask))))
      else gfail (Bpf_error ''only link-layer/IP broadcast filters supported'' []))"

definition gen_mac_multicast :: "u32 \<Rightarrow> nat gen" where
  "gen_mac_multicast offset = load_jset OR_LINKHDR offset BPF_B 1"

definition gen_multicast :: "host \<Rightarrow> int \<Rightarrow> nat gen" where
  "gen_multicast hp proto =
     gbind (gget cs_layout) (\<lambda>l.
       let unsupported = gfail (Bpf_error (''link-layer multicast filters supported only on '' @
         ''ethernet/FDDI/token ring/ARCNET/802.11/ATM LANE/Fibre Channel'') []) in
       if proto \<in> {Q_DEFAULT, Q_LINK} then
         if linktype l \<in> {DLT_ARCNET, DLT_ARCNET_LINUX} then gen_ahostop [0] Q_DST
         else if linktype l \<in> {DLT_EN10MB, DLT_NETANALYZER, DLT_NETANALYZER_TRANSPARENT} then
           opt_and gen_prevlinkhdr_check (gen_mac_multicast 0)
         else if linktype l = DLT_FDDI then gen_mac_multicast 1
         else if linktype l = DLT_IEEE802 then gen_mac_multicast 2
         else if linktype l \<in> {DLT_IEEE802_11, DLT_PRISM_HEADER, DLT_IEEE802_11_RADIO_AVS, DLT_IEEE802_11_RADIO, DLT_PPI}
         then wlan_destination gen_mac_multicast
         else if linktype l = DLT_IP_OVER_FC then gen_mac_multicast 2
         else unsupported
       else if proto = Q_IP then
         both_and (gen_linktype hp ETHERTYPE_IP) (gen_cmp_ge OR_LINKPL 16 BPF_B 224)
       else if proto = Q_IPV6 then
         both_and (gen_linktype hp ETHERTYPE_IPV6) (gen_cmp OR_LINKPL 24 BPF_B 255)
       else unsupported)"

end
