(* ===== verification/Gencode_Prefix.thy ===== *)
theory Gencode_Prefix
  imports Gencode_Names Gencode_Layers
begin

unbundle bit_operations_syntax

text \<open>
  Headers of variable length (jni/libpcap/gencode.c): Geneve, whose options precede the inner
  frame, and the radio headers before 802.11 frames, whose lengths the first block of a program
  computes into the registers that its tests use (\<open>insert_compute_vloffsets\<close>). The lists of
  statements have jumps inside them.
\<close>

section \<open>Lists of statements\<close>

text \<open>
  A statement by its code, operand and targets; \<open>numbered f\<close> allocates the statements that \<open>f\<close>
  gives for the address of the first.
\<close>

definition stmt_to :: "u16 \<Rightarrow> u32 \<Rightarrow> nat option \<Rightarrow> nat option \<Rightarrow> stmt" where
  "stmt_to c k jt jf = \<lparr>s_code = ucast c, s_jt = jt, s_jf = jf, s_k = k\<rparr>"

definition numbered :: "(nat \<Rightarrow> stmt list) \<Rightarrow> slist list gen" where
  "numbered f =
     gbind (gget cs_next_addr) (\<lambda>n.
     gbind (gmodify (\<lambda>s. s\<lparr>cs_next_addr := n + length (f n)\<rparr>)) (\<lambda>_.
       gret (map2 (\<lambda>i st. \<lparr>sl_addr = n + i, sl_stmt = st\<rparr>) [0..<length (f n)] (f n))))"

definition plain :: "u16 \<Rightarrow> u32 \<Rightarrow> stmt" where
  "plain c k = stmt_to c k None None"

definition jump_on :: "u16 \<Rightarrow> u32 \<Rightarrow> nat option \<Rightarrow> nat option \<Rightarrow> stmt" where
  "jump_on c k jt jf = stmt_to (c OR BPF_JMP OR BPF_K) k jt jf"

section \<open>Geneve\<close>

abbreviation (input) "GENEVE_PORT \<equiv> 6081 :: int"
abbreviation (input) "ETHERTYPE_TEB \<equiv> 0x6558 :: u32"

definition gen_geneve_check :: "(int \<Rightarrow> int \<Rightarrow> int \<Rightarrow> nat gen) \<Rightarrow> e_offrel \<Rightarrow> int \<Rightarrow> nat gen" where
  "gen_geneve_check portfn offrel vni =
     (let b0 = both_and (portfn GENEVE_PORT IPPROTO_UDP Q_DST) (gen_mcmp offrel 8 BPF_B 0 0xc0) in
      if 0 \<le> vni then both_and b0 (gen_mcmp offrel 12 BPF_W (push_bit 8 (word_of_int vni)) 0xffffff00)
      else b0)"

text \<open>A block that is always true, for the sake of its statements.\<close>

definition always_after :: "slist list gen \<Rightarrow> nat gen" where
  "always_after m = gbind m (\<lambda>ss. block_with (ucast (BPF_JMP OR BPF_JEQ OR BPF_X)) ss 0)"

definition gen_geneve4 :: "host \<Rightarrow> int \<Rightarrow> nat gen" where
  "gen_geneve4 hp vni =
     both_and (gen_geneve_check (gen_port hp) OR_TRAN_IPV4 vni)
       (always_after (gbind gen_loadx_iphdrlen (\<lambda>s.
          gbind (new_stmt (BPF_MISC OR BPF_TXA) 0) (\<lambda>s1. gret (s @ s1)))))"

definition gen_geneve6 :: "host \<Rightarrow> int \<Rightarrow> nat gen" where
  "gen_geneve6 hp vni =
     both_and (gen_geneve_check (gen_port6 hp) OR_TRAN_IPV6 vni)
       (always_after (gbind (gen_abs_offset_varpart off_linkpl off_linkpl_update) (\<lambda>var.
          gbind (case var of
              Some s \<Rightarrow>
                gbind (new_stmt (BPF_LD OR BPF_IMM) 40) (\<lambda>s1.
                gbind (new_stmt (BPF_ALU OR BPF_ADD OR BPF_X) 0) (\<lambda>s2. gret (s @ s1 @ s2)))
            | None \<Rightarrow> new_stmt (BPF_LD OR BPF_IMM) 40)
          (\<lambda>s. gbind (new_stmt (BPF_MISC OR BPF_TAX) 0) (\<lambda>s1. gret (s @ s1))))))"

definition geneve_stmts :: "u32 \<Rightarrow> nat \<Rightarrow> nat \<Rightarrow> nat \<Rightarrow> nat \<Rightarrow> stmt list" where
  "geneve_stmts start rt rh rp n =
     [plain (BPF_ALU OR BPF_ADD OR BPF_K) start,
      plain (BPF_MISC OR BPF_TAX) 0,
      plain (BPF_ALU OR BPF_ADD OR BPF_K) 2,
      plain BPF_ST (of_nat rt),
      plain (BPF_LD OR BPF_IND OR BPF_B) 0,
      plain (BPF_ALU OR BPF_AND OR BPF_K) 0x3f,
      plain (BPF_ALU OR BPF_MUL OR BPF_K) 4,
      plain (BPF_ALU OR BPF_ADD OR BPF_K) 8,
      plain (BPF_ALU OR BPF_ADD OR BPF_X) 0,
      plain BPF_ST (of_nat rh),
      plain (BPF_LD OR BPF_IND OR BPF_H) 2,
      plain (BPF_LDX OR BPF_MEM) (of_nat rh),
      jump_on BPF_JEQ ETHERTYPE_TEB (Some (n + 13)) (Some (n + 18)),
      plain (BPF_MISC OR BPF_TXA) 0,
      plain (BPF_ALU OR BPF_ADD OR BPF_K) 12,
      plain BPF_ST (of_nat rt),
      plain (BPF_ALU OR BPF_ADD OR BPF_K) 2,
      plain (BPF_MISC OR BPF_TAX) 0,
      plain BPF_STX (of_nat rp)]"

definition gen_geneve_offsets :: "slist list gen" where
  "gen_geneve_offsets =
     gbind (gget (\<lambda>s. constant_part (off_linkpl (cs_layout s)) + off_nl (cs_layout s) + 8)) (\<lambda>start.
     gbind alloc_reg (\<lambda>rt.
     gbind alloc_reg (\<lambda>rh.
     gbind alloc_reg (\<lambda>rp.
     gbind (numbered (geneve_stmts start rt rh rp)) (\<lambda>ss.
     gbind (set_layout (\<lambda>l.
         (push_linkhdr DLT_EN10MB True 0 (int rh)
            (l\<lparr>off_linktype := \<lparr>is_variable = True, constant_part = 0, ao_reg = int rt\<rparr>\<rparr>))
         \<lparr>off_linkpl := \<lparr>is_variable = True, constant_part = 0, ao_reg = int rp\<rparr>, off_nl := 0\<rparr>)) (\<lambda>_.
       gret ss))))))"

text \<open>The statements go before those of the block that \<open>gen_true\<close> makes.\<close>

definition before_stmts :: "slist list \<Rightarrow> nat \<Rightarrow> unit gen" where
  "before_stmts ss b = on_graph (\<lambda>g. Some (set_stmts b (ss @ b_stmts (g ! b)) g))"

definition gen_geneve :: "host \<Rightarrow> int \<Rightarrow> nat gen" where
  "gen_geneve hp vni =
     then_layout
       (both_and (both_or (gen_geneve4 hp vni) (gen_geneve6 hp vni))
         (gbind gen_geneve_offsets (\<lambda>ss. gbind gen_true (\<lambda>b1. gbind (before_stmts ss b1) (\<lambda>_. gret b1)))))
       (\<lambda>l. l\<lparr>is_geneve := True\<rparr>)"

section \<open>Radio headers\<close>

text \<open>
  The lengths of Prism, AVS and radiotap headers (PPI has the same code as radiotap) into the
  register \<open>reg\<close> and the index register.
\<close>

definition prism_stmts :: "u32 \<Rightarrow> nat \<Rightarrow> stmt list" where
  "prism_stmts reg n =
     [plain (BPF_LD OR BPF_W OR BPF_ABS) 0,
      plain (BPF_ALU OR BPF_AND OR BPF_K) 0xFFFFF000,
      jump_on BPF_JEQ 0x80211000 (Some (n + 3)) (Some (n + 5)),
      plain (BPF_LD OR BPF_W OR BPF_ABS) 4,
      jump_on BPF_JA 1 None (Some (n + 6)),
      plain (BPF_LD OR BPF_W OR BPF_IMM) 144,
      plain BPF_ST reg,
      plain (BPF_MISC OR BPF_TAX) 0]"

definition avs_stmts :: "u32 \<Rightarrow> nat \<Rightarrow> stmt list" where
  "avs_stmts reg n =
     [plain (BPF_LD OR BPF_W OR BPF_ABS) 4, plain BPF_ST reg, plain (BPF_MISC OR BPF_TAX) 0]"

definition radiotap_stmts :: "u32 \<Rightarrow> nat \<Rightarrow> stmt list" where
  "radiotap_stmts reg n =
     [plain (BPF_LD OR BPF_B OR BPF_ABS) 3,
      plain (BPF_ALU OR BPF_LSH OR BPF_K) 8,
      plain (BPF_MISC OR BPF_TAX) 0,
      plain (BPF_LD OR BPF_B OR BPF_ABS) 2,
      plain (BPF_ALU OR BPF_OR OR BPF_X) 0,
      plain BPF_ST reg,
      plain (BPF_MISC OR BPF_TAX) 0]"

text \<open>Nothing when no register has been assigned to the offset of the link-layer header.\<close>

definition if_assigned :: "(u32 \<Rightarrow> nat \<Rightarrow> stmt list) \<Rightarrow> slist list gen" where
  "if_assigned stmts =
     gbind (gget (\<lambda>s. ao_reg (off_linkhdr (cs_layout s)))) (\<lambda>reg.
       if reg \<noteq> - 1 then numbered (stmts (word_of_int reg)) else gret [])"

definition gen_load_prism_llprefixlen :: "slist list gen" where
  "gen_load_prism_llprefixlen = if_assigned prism_stmts"

definition gen_load_avs_llprefixlen :: "slist list gen" where
  "gen_load_avs_llprefixlen = if_assigned avs_stmts"

definition gen_load_radiotap_llprefixlen :: "slist list gen" where
  "gen_load_radiotap_llprefixlen = if_assigned radiotap_stmts"

definition gen_load_ppi_llprefixlen :: "slist list gen" where
  "gen_load_ppi_llprefixlen = if_assigned radiotap_stmts"

text \<open>
  \<open>gen_load_802_11_header_len\<close>: the length of the 802.11 header, behind the code \<open>ss\<close> for the
  prefix; \<open>snext\<close> is the address of the first statement of the rest of the program. \<open>qos_stmts\<close> is
  the part for all link layers, \<open>pad_stmts\<close> the one for radiotap headers.
\<close>

definition qos_stmts :: "u32 \<Rightarrow> nat option \<Rightarrow> nat option \<Rightarrow> nat \<Rightarrow> stmt list" where
  "qos_stmts reg snext behind n =
     [plain (BPF_MISC OR BPF_TXA) 0,
      plain (BPF_ALU OR BPF_ADD OR BPF_K) 24,
      plain BPF_ST reg,
      plain (BPF_LD OR BPF_IND OR BPF_B) 0,
      jump_on BPF_JSET 0x08 (Some (n + 5)) snext,
      jump_on BPF_JSET 0x04 snext (Some (n + 6)),
      jump_on BPF_JSET 0x80 (Some (n + 7)) behind,
      plain (BPF_LD OR BPF_MEM) reg,
      plain (BPF_ALU OR BPF_ADD OR BPF_IMM) 2,
      plain BPF_ST reg]"

definition pad_stmts :: "u32 \<Rightarrow> nat option \<Rightarrow> nat \<Rightarrow> stmt list" where
  "pad_stmts reg snext n =
     [plain (BPF_LD OR BPF_ABS OR BPF_W) 4,
      jump_on BPF_JSET (SWAPLONG 0x00000002) (Some (n + 2)) snext,
      jump_on BPF_JSET (SWAPLONG 0x00000001) (Some (n + 3)) (Some (n + 5)),
      plain (BPF_LD OR BPF_ABS OR BPF_B) 16,
      jump_on BPF_JSET 0x20 (Some (n + 7)) snext,
      plain (BPF_LD OR BPF_ABS OR BPF_B) 8,
      jump_on BPF_JSET 0x20 (Some (n + 7)) snext,
      plain (BPF_LD OR BPF_MEM) reg,
      plain (BPF_ALU OR BPF_ADD OR BPF_IMM) 3,
      plain (BPF_ALU OR BPF_AND OR BPF_IMM) (NOT 3),
      plain BPF_ST reg]"

definition gen_load_802_11_header_len :: "slist list \<Rightarrow> nat option \<Rightarrow> slist list gen" where
  "gen_load_802_11_header_len ss snext =
     gbind (gget cs_layout) (\<lambda>l.
       let reg = word_of_int (ao_reg (off_linkpl l)) in
       if ao_reg (off_linkpl l) = - 1 then gret ss
       else
         gbind (if ss = [] then new_stmt (BPF_LDX OR BPF_IMM) (constant_part (off_outermostlinkhdr l)) else gret ss) (\<lambda>s.
         gbind
           (if linktype l = DLT_IEEE802_11_RADIO
            then numbered (\<lambda>n. qos_stmts reg snext (Some (n + 10)) n @ pad_stmts reg snext (n + 10))
            else numbered (\<lambda>n. qos_stmts reg snext snext n)) (\<lambda>s2.
           gret (s @ s2))))"

definition insert_compute_vloffsets :: "nat \<Rightarrow> unit gen" where
  "insert_compute_vloffsets b =
     gbind (gget cs_layout) (\<lambda>l.
     gbind
       (if ao_reg (off_linkpl l) \<noteq> - 1 \<and> is_variable (off_linkhdr l) \<and> ao_reg (off_linkhdr l) = - 1
        then gbind alloc_reg (\<lambda>r. set_layout (\<lambda>l. l\<lparr>off_linkhdr := (off_linkhdr l)\<lparr>ao_reg := int r\<rparr>\<rparr>))
        else gret ()) (\<lambda>_.
     gbind
       (if outermostlinktype l = DLT_PRISM_HEADER then gen_load_prism_llprefixlen
        else if outermostlinktype l = DLT_IEEE802_11_RADIO_AVS then gen_load_avs_llprefixlen
        else if outermostlinktype l = DLT_IEEE802_11_RADIO then gen_load_radiotap_llprefixlen
        else if outermostlinktype l = DLT_PPI then gen_load_ppi_llprefixlen
        else gret []) (\<lambda>s.
     gbind (gget (\<lambda>s. b_stmts (cs_graph s ! b))) (\<lambda>stmts.
     gbind
       (if outermostlinktype l \<in> {DLT_IEEE802_11, DLT_PRISM_HEADER, DLT_IEEE802_11_RADIO_AVS, DLT_IEEE802_11_RADIO, DLT_PPI}
        then gen_load_802_11_header_len s (case stmts of [] \<Rightarrow> None | x # _ \<Rightarrow> Some (sl_addr x))
        else gret s) (\<lambda>s.
       if s = [] then gret () else before_stmts s b)))))"

definition gen_ppi_dlt_check :: "nat option gen" where
  "gen_ppi_dlt_check =
     gbind (gget cs_layout) (\<lambda>l.
       if linktype l = DLT_PPI then
         gbind (new_stmt (BPF_LD OR BPF_W OR BPF_ABS) 4) (\<lambda>s.
         gbind (block_with (JMP_code BPF_JEQ) s (SWAPLONG (word_of_int DLT_IEEE802_11))) (\<lambda>b. gret (Some b)))
       else gret None)"

section \<open>What the configuration lacks\<close>

text \<open>The tests of the OpenBSD packet filter (\<open>gen_pf_ifname\<close> and its kin) without its headers.\<close>

definition no_pf :: "string \<Rightarrow> nat gen" where
  "no_pf where' = gfail (Bpf_error (''libpcap was compiled '' @ where' @ ''without pf support'') [])"

definition gen_pf_ifname :: "string \<Rightarrow> nat gen" where
  "gen_pf_ifname ifname = no_pf []"

definition gen_pf_ruleset :: "string \<Rightarrow> nat gen" where
  "gen_pf_ruleset ruleset = no_pf ''on a machine ''"

definition gen_pf_rnr :: "u32 \<Rightarrow> nat gen" where
  "gen_pf_rnr rnr = no_pf ''on a machine ''"

definition gen_pf_srnr :: "u32 \<Rightarrow> nat gen" where
  "gen_pf_srnr srnr = no_pf ''on a machine ''"

definition gen_pf_reason :: "u32 \<Rightarrow> nat gen" where
  "gen_pf_reason reason = no_pf ''on a machine ''"

definition gen_pf_action :: "u32 \<Rightarrow> nat gen" where
  "gen_pf_action action = no_pf ''on a machine ''"

end
