(* ===== verification/Gencode_Arith.thy ===== *)
theory Gencode_Arith
  imports Gencode_Ports
begin

unbundle bit_operations_syntax

text \<open>
  Arithmetic in filters (jni/libpcap/gencode.c): \<open>struct arth\<close> is the code that computes a value
  into a scratch register, with the check that the packet has the protocol whose header the value
  is read from.
\<close>

record arth =
  a_b :: "nat option"
  a_s :: "slist list"
  a_reg :: nat

definition xfer_to_x :: "arth \<Rightarrow> slist list gen" where
  "xfer_to_x a = new_stmt (BPF_LDX OR BPF_MEM) (of_nat (a_reg a))"

definition xfer_to_a :: "arth \<Rightarrow> slist list gen" where
  "xfer_to_a a = new_stmt (BPF_LD OR BPF_MEM) (of_nat (a_reg a))"

text \<open>\<open>new_stmt(BPF_ST)\<close> with its register.\<close>

definition store_in :: "nat \<Rightarrow> slist list gen" where
  "store_in reg = new_stmt BPF_ST (of_nat reg)"

section \<open>Loads\<close>

text \<open>
  The load at the index in \<open>inst\<close> from a header's start: \<open>var\<close> is the code of
  \<open>gen_abs_offset_varpart\<close>, which puts the variable part of the start into the index register.
\<close>

definition load_indexed :: "arth \<Rightarrow> u16 \<Rightarrow> slist list option \<Rightarrow> u32 \<Rightarrow> slist list gen" where
  "load_indexed inst sz var start =
     gbind
       (case var of
          Some s \<Rightarrow>
            gbind (xfer_to_a inst) (\<lambda>s1.
            gbind (new_stmt (BPF_ALU OR BPF_ADD OR BPF_X) 0) (\<lambda>s2.
            gbind (new_stmt (BPF_MISC OR BPF_TAX) 0) (\<lambda>s3. gret (s @ s1 @ s2 @ s3))))
        | None \<Rightarrow> xfer_to_x inst)
       (\<lambda>s. gbind (new_stmt (BPF_LD OR BPF_IND OR sz) start) (\<lambda>tmp. gret (s @ tmp)))"

definition network_protocols :: "int set" where
  "network_protocols = {Q_IP, Q_ARP, Q_RARP, Q_ATALK, Q_DECNET, Q_SCA, Q_LAT, Q_MOPRC, Q_MOPDL, Q_IPV6}"

definition transport_protocols :: "int set" where
  "transport_protocols = {Q_SCTP, Q_TCP, Q_UDP, Q_ICMP, Q_IGMP, Q_IGRP, Q_PIM, Q_VRRP, Q_CARP}"

definition load_link :: "arth \<Rightarrow> u16 \<Rightarrow> slist list gen" where
  "load_link inst sz =
     gbind (gen_abs_offset_varpart off_linkhdr off_linkhdr_update) (\<lambda>var.
     gbind (gget cs_layout) (\<lambda>l. load_indexed inst sz var (constant_part (off_linkhdr l))))"

definition load_network :: "arth \<Rightarrow> u16 \<Rightarrow> slist list gen" where
  "load_network inst sz =
     gbind (gen_abs_offset_varpart off_linkpl off_linkpl_update) (\<lambda>var.
     gbind (gget cs_layout) (\<lambda>l. load_indexed inst sz var (constant_part (off_linkpl l) + off_nl l)))"

definition load_transport :: "arth \<Rightarrow> u16 \<Rightarrow> slist list gen" where
  "load_transport inst sz =
     gbind gen_loadx_iphdrlen (\<lambda>s.
     gbind (gget cs_layout) (\<lambda>l. load_indexed inst sz (Some s) (constant_part (off_linkpl l) + off_nl l)))"

text \<open>
  The protocol check of a value read from a network header, and from a transport header, where the
  check for IP is made before the others. (The order of the two calls inside \<open>gen_and\<close>'s arguments
  is the compiler's choice; here it is from left to right.)
\<close>

definition check_network :: "host \<Rightarrow> int \<Rightarrow> nat option \<Rightarrow> nat gen" where
  "check_network hp proto b0 = gbind (gen_proto_abbrev hp proto) (and_opt b0)"

definition check_transport :: "host \<Rightarrow> int \<Rightarrow> nat option \<Rightarrow> nat gen" where
  "check_transport hp proto b0 =
     and_before (gbind (both_and (gen_proto_abbrev hp proto) gen_ipfrag) (and_opt b0)) (gen_proto_abbrev hp Q_IP)"

definition load_by_protocol :: "host \<Rightarrow> int \<Rightarrow> arth \<Rightarrow> u16 \<Rightarrow> (slist list \<times> nat option) gen" where
  "load_by_protocol hp proto inst sz =
     (if proto = Q_RADIO then
        gbind (gget cs_layout) (\<lambda>l.
          if linktype l \<notin> {DLT_IEEE802_11_RADIO_AVS, DLT_IEEE802_11_RADIO, DLT_PRISM_HEADER}
          then gfail (Bpf_error ''radio information not present in capture'' [])
          else gbind (load_indexed inst sz None 0) (\<lambda>s. gret (s, a_b inst)))
      else if proto = Q_LINK then gbind (load_link inst sz) (\<lambda>s. gret (s, a_b inst))
      else if proto \<in> network_protocols then
        gbind (load_network inst sz) (\<lambda>s. gbind (check_network hp proto (a_b inst)) (\<lambda>b. gret (s, Some b)))
      else if proto \<in> transport_protocols then
        gbind (load_transport inst sz) (\<lambda>s. gbind (check_transport hp proto (a_b inst)) (\<lambda>b. gret (s, Some b)))
      else if proto = Q_ICMPV6 then
        gfail (Bpf_error ''IPv6 upper-layer protocol is not supported by proto[x]'' [])
      else gfail (Bpf_error ''unsupported index operation'' []))"

definition size_of_item :: "int \<Rightarrow> u16 option" where
  "size_of_item sz = map_of [(1, BPF_B), (2, BPF_H), (4, BPF_W)] sz"

definition gen_load :: "host \<Rightarrow> int \<Rightarrow> arth \<Rightarrow> int \<Rightarrow> arth gen" where
  "gen_load hp proto inst sz =
     gbind alloc_reg (\<lambda>regno.
     gbind (free_reg (a_reg inst)) (\<lambda>_.
       case size_of_item sz of
         None \<Rightarrow> gfail (Bpf_error ''data size must be 1, 2, or 4'' [])
       | Some sz \<Rightarrow>
           gbind (load_by_protocol hp proto inst sz) (\<lambda>(s, b).
           gbind (store_in regno) (\<lambda>st. gret \<lparr>a_b = b, a_s = a_s inst @ s @ st, a_reg = regno\<rparr>))))"

section \<open>Operations\<close>

definition gen_loadlen :: "arth gen" where
  "gen_loadlen =
     gbind alloc_reg (\<lambda>regno.
     gbind (new_stmt (BPF_LD OR BPF_LEN) 0) (\<lambda>s.
     gbind (store_in regno) (\<lambda>st. gret \<lparr>a_b = None, a_s = s @ st, a_reg = regno\<rparr>)))"

definition gen_loadi :: "u32 \<Rightarrow> arth gen" where
  "gen_loadi val =
     gbind alloc_reg (\<lambda>regno.
     gbind (new_stmt (BPF_LD OR BPF_IMM) val) (\<lambda>s.
     gbind (store_in regno) (\<lambda>st. gret \<lparr>a_b = None, a_s = s @ st, a_reg = regno\<rparr>)))"

definition gen_neg :: "arth \<Rightarrow> arth gen" where
  "gen_neg a =
     gbind (xfer_to_a a) (\<lambda>s1.
     gbind (new_stmt (BPF_ALU OR BPF_NEG) 0) (\<lambda>s2.
     gbind (store_in (a_reg a)) (\<lambda>st. gret (a\<lparr>a_s := a_s a @ s1 @ s2 @ st\<rparr>))))"

definition gen_arth :: "u16 \<Rightarrow> arth \<Rightarrow> arth \<Rightarrow> arth gen" where
  "gen_arth code a0 a1 =
     gbind (xfer_to_x a1) (\<lambda>s0.
     gbind (xfer_to_a a0) (\<lambda>s1.
     gbind (new_stmt (BPF_ALU OR BPF_X OR code) 0) (\<lambda>s2.
     gbind (free_reg (a_reg a0)) (\<lambda>_.
     gbind (free_reg (a_reg a1)) (\<lambda>_.
     gbind alloc_reg (\<lambda>regno.
     gbind (store_in regno) (\<lambda>st.
       gret (a0\<lparr>a_s := a_s a0 @ a_s a1 @ s0 @ s1 @ s2 @ st, a_reg := regno\<rparr>))))))))"

text \<open>
  \<open>gen_relation\<close>; \<open>and_opts\<close> is the conjunction of the protocol checks that there are, before
  the comparison.
\<close>

definition and_opts :: "nat option \<Rightarrow> nat option \<Rightarrow> nat option gen" where
  "and_opts b0 b1 =
     (case b1 of None \<Rightarrow> gret b0 | Some b1 \<Rightarrow> gbind (and_opt b0 b1) (\<lambda>b. gret (Some b)))"

definition gen_relation :: "u16 \<Rightarrow> arth \<Rightarrow> arth \<Rightarrow> bool \<Rightarrow> nat gen" where
  "gen_relation code a0 a1 rvs =
     gbind (xfer_to_x a1) (\<lambda>s0.
     gbind (xfer_to_a a0) (\<lambda>s1.
     gbind (if code = BPF_JEQ then new_stmt (BPF_ALU OR BPF_SUB OR BPF_X) 0 else gret []) (\<lambda>s2.
     gbind (block_with (if code = BPF_JEQ then JMP_code code else ucast (BPF_JMP OR code OR BPF_X))
       (a_s a0 @ a_s a1 @ s0 @ s1 @ s2) 0) (\<lambda>b.
     gbind (if rvs then gen_not_m b else gret ()) (\<lambda>_.
     gbind (free_reg (a_reg a0)) (\<lambda>_.
     gbind (free_reg (a_reg a1)) (\<lambda>_.
     gbind (and_opts (a_b a0) (a_b a1)) (\<lambda>tmp. and_opt tmp b))))))))"

text \<open>
  \<open>gen_inbound\<close>: \<open>dir\<close> is true for outbound. The test of SLIP's direction byte is a relation on
  the first byte of the link-layer header.
\<close>

definition slip_direction :: "host \<Rightarrow> bool \<Rightarrow> nat gen" where
  "slip_direction hp dir =
     gbind (gbind (gen_loadi 0) (\<lambda>i. gen_load hp Q_LINK i 1)) (\<lambda>a0.
     gbind (gen_loadi 0) (\<lambda>a1. gen_relation BPF_JEQ a0 a1 dir))"

definition gen_inbound :: "host \<Rightarrow> bool \<Rightarrow> nat gen" where
  "gen_inbound hp dir =
     gbind (gget cs_layout) (\<lambda>l.
       if linktype l = DLT_SLIP then slip_direction hp dir
       else if linktype l = DLT_IPNET then gen_cmp OR_LINKHDR 2 BPF_H (if dir then 1 else 2)
       else if linktype l = DLT_LINUX_SLL then
         (if \<not> dir then negated (gen_cmp OR_LINKHDR 0 BPF_H 4) else gen_cmp OR_LINKHDR 0 BPF_H 4)
       else if linktype l = DLT_PPP_PPPD then gen_cmp OR_LINKHDR 0 BPF_B (if dir then 1 else 0)
       else if linktype l \<in> {DLT_JUNIPER_MFR, DLT_JUNIPER_MLFR, DLT_JUNIPER_MLPPP, DLT_JUNIPER_ATM1,
           DLT_JUNIPER_ATM2, DLT_JUNIPER_PPPOE, DLT_JUNIPER_PPPOE_ATM, DLT_JUNIPER_GGSN, DLT_JUNIPER_ES,
           DLT_JUNIPER_MONITOR, DLT_JUNIPER_SERVICES, DLT_JUNIPER_ETHER, DLT_JUNIPER_PPP,
           DLT_JUNIPER_FRELAY, DLT_JUNIPER_CHDLC, DLT_JUNIPER_VP, DLT_JUNIPER_ST, DLT_JUNIPER_ISM,
           DLT_JUNIPER_VS, DLT_JUNIPER_SRX_E2E, DLT_JUNIPER_FIBRECHANNEL, DLT_JUNIPER_ATM_CEMIC} then
         gen_mcmp OR_LINKHDR 3 BPF_B (if dir then 0 else 1) 0x01
       else
         (case h_pkttype hp of
            None \<Rightarrow> gfail (Bpf_error ''inbound/outbound not supported on linktype %d'' [linktype l])
          | Some (offset, outgoing) \<Rightarrow>
              if h_rfile hp
              then gfail (Bpf_error ''inbound/outbound not supported on linktype %d when reading savefiles'' [linktype l])
              else if \<not> dir then negated (gen_cmp OR_LINKHDR offset BPF_H outgoing)
              else gen_cmp OR_LINKHDR offset BPF_H outgoing))"

end
