(* ===== verification/Filter_Syntax.thy ===== *)
theory Filter_Syntax
  imports Gencode_Prefix Gencode_Arith Datalink_Names
begin

unbundle bit_operations_syntax

text \<open>
  The grammar of filters (jni/libpcap/grammar.y) as an attribute grammar over its parse trees:
  the action of each rule is a branch of a function on the tree. Actions run in the order of the
  reductions, from left to right. The parser and the scanner that build the trees are generated
  by bison and flex; a tree here is one of a text that they accept.
\<close>

section \<open>Names of values\<close>

text \<open>\<open>str2tok\<close>: -1 when the name is not in the table.\<close>

definition str2tok :: "string \<Rightarrow> (int \<times> string) list \<Rightarrow> int" where
  "str2tok str toks =
     (case find (\<lambda>(v, s). pcap_strcasecmp (c_str s) (c_str str) = 0) toks of Some (v, _) \<Rightarrow> v | None \<Rightarrow> - 1)"

definition ieee80211_types :: "(int \<times> string) list" where
  "ieee80211_types = [(0x08, ''data''), (0x00, ''mgt''), (0x00, ''management''), (0x04, ''ctl''), (0x04, ''control'')]"

definition ieee80211_mgt_subtypes :: "(int \<times> string) list" where
  "ieee80211_mgt_subtypes =
     [(0x00, ''assocreq''), (0x00, ''assoc-req''), (0x10, ''assocresp''), (0x10, ''assoc-resp''),
      (0x20, ''reassocreq''), (0x20, ''reassoc-req''), (0x30, ''reassocresp''), (0x30, ''reassoc-resp''),
      (0x40, ''probereq''), (0x40, ''probe-req''), (0x50, ''proberesp''), (0x50, ''probe-resp''),
      (0x80, ''beacon''), (0x90, ''atim''), (0xa0, ''disassoc''), (0xa0, ''disassociation''),
      (0xb0, ''auth''), (0xb0, ''authentication''), (0xc0, ''deauth''), (0xc0, ''deauthentication'')]"

definition ieee80211_ctl_subtypes :: "(int \<times> string) list" where
  "ieee80211_ctl_subtypes =
     [(0xa0, ''ps-poll''), (0xb0, ''rts''), (0xc0, ''cts''), (0xd0, ''ack''), (0xe0, ''cf-end''), (0xf0, ''cf-end-ack'')]"

definition ieee80211_data_subtypes :: "(int \<times> string) list" where
  "ieee80211_data_subtypes =
     [(0x00, ''data''), (0x10, ''data-cf-ack''), (0x20, ''data-cf-poll''), (0x30, ''data-cf-ack-poll''),
      (0x40, ''null''), (0x50, ''cf-ack''), (0x60, ''cf-poll''), (0x70, ''cf-ack-poll''),
      (0x80, ''qos-data''), (0x90, ''qos-data-cf-ack''), (0xa0, ''qos-data-cf-poll''), (0xb0, ''qos-data-cf-ack-poll''),
      (0xc0, ''qos''), (0xe0, ''qos-cf-poll''), (0xf0, ''qos-cf-ack-poll'')]"

definition llc_s_subtypes :: "(int \<times> string) list" where
  "llc_s_subtypes = [(0x01, ''rr''), (0x05, ''rnr''), (0x09, ''rej'')]"

definition llc_u_subtypes :: "(int \<times> string) list" where
  "llc_u_subtypes =
     [(0x03, ''ui''), (0x63, ''ua''), (0x43, ''disc''), (0x0f, ''dm''), (0x6f, ''sabme''), (0xe3, ''test''),
      (0xaf, ''xid''), (0x87, ''frmr'')]"

definition ieee80211_type_subtypes :: "(int \<times> (int \<times> string) list) list" where
  "ieee80211_type_subtypes =
     [(0x00, ieee80211_mgt_subtypes), (0x04, ieee80211_ctl_subtypes), (0x08, ieee80211_data_subtypes)]"

text \<open>A number or a name, as the rules \<open>type\<close>, \<open>subtype\<close>, \<open>dir\<close> and \<open>reason\<close> take it.\<close>

datatype num_or_id = Number_value u32 | Name_value string

definition named :: "int \<Rightarrow> string \<Rightarrow> (u32 \<Rightarrow> 'a gen) \<Rightarrow> 'a gen" where
  "named v err f = (if v = - 1 then gfail (Bpf_error err []) else f (word_of_int v))"

definition wlan_type :: "num_or_id \<Rightarrow> (u32 \<Rightarrow> 'a gen) \<Rightarrow> 'a gen" where
  "wlan_type ty f =
     (case ty of Number_value v \<Rightarrow> f v | Name_value s \<Rightarrow> named (str2tok s ieee80211_types) ''unknown 802.11 type name'' f)"

definition wlan_subtype :: "u32 \<Rightarrow> num_or_id \<Rightarrow> (u32 \<Rightarrow> 'a gen) \<Rightarrow> 'a gen" where
  "wlan_subtype ty sub f =
     (case sub of
        Number_value v \<Rightarrow> f v
      | Name_value s \<Rightarrow>
          (case find (\<lambda>(t, _). ty = word_of_int t) ieee80211_type_subtypes of
             None \<Rightarrow> gfail (Bpf_error ''unknown 802.11 type'' [])
           | Some (_, toks) \<Rightarrow> named (str2tok s toks) ''unknown 802.11 subtype name'' f))"

text \<open>\<open>type_subtype\<close>: the first table with the name; the value has the bits of its type.\<close>

definition wlan_type_subtype :: "string \<Rightarrow> (u32 \<Rightarrow> 'a gen) \<Rightarrow> 'a gen" where
  "wlan_type_subtype s f =
     (case find (\<lambda>(_, toks). str2tok s toks \<noteq> - 1) ieee80211_type_subtypes of
        None \<Rightarrow> gfail (Bpf_error ''unknown 802.11 type name'' [])
      | Some (t, toks) \<Rightarrow> f (word_of_int (str2tok s toks) OR word_of_int t))"

definition wlan_dir :: "num_or_id \<Rightarrow> (u32 \<Rightarrow> 'a gen) \<Rightarrow> 'a gen" where
  "wlan_dir d f =
     (case d of
        Number_value v \<Rightarrow> f v
      | Name_value s \<Rightarrow> named (str2tok s [(0, ''nods''), (1, ''tods''), (2, ''fromds''), (3, ''dstods'')])
          ''unknown 802.11 direction'' f)"

section \<open>Parse trees\<close>

text \<open>
  The rules \<open>id\<close>, \<open>nid\<close>, \<open>pid\<close> and \<open>qid\<close>; a \<open>paren\<close> around a \<open>pid\<close> has the value of the \<open>pid\<close>.
\<close>

datatype ident =
    Name string
  | Host_len string u32
  | Host_mask string string
  | Host_id string
  | Host6_len string u32
  | Host6_id string
  | Ether_id "u8 list"
  | Arcnet_id "u8 list"
  | Number u32
  | Not_id ident
  | And_ids ident ident
  | Or_ids ident ident

datatype arith =
    Constant u32
  | Item int arith int
  | Operation alu arith arith
  | Negative arith
  | Packet_length

text \<open>The values of ATM and SS7 fields: a number, a comparison, a list of numbers in parentheses.\<close>

datatype field_value = Value u32 | Compared cmp bool u32 | Any_of u32 "u32 list"

text \<open>\<open>rterm\<close>, \<open>term\<close> and \<open>expr\<close>, with the rules of \<open>other\<close>, \<open>p80211\<close>, \<open>pllc\<close> and \<open>pfvar\<close>.\<close>

datatype fexpr =
    Head qual ident
  | Paren fexpr
  | Proto_name int
  | Relation cmp bool arith arith
  | Broadcast int
  | Multicast int
  | Less u32
  | Greater u32
  | Byte_test char u32 u32
  | Inbound bool
  | Vlan "u32 option"
  | Mpls "u32 option"
  | Pppoed
  | Pppoes "u32 option"
  | Geneve "u32 option"
  | Pf_ifname string
  | Pf_ruleset string
  | Pf_rnr u32
  | Pf_srnr u32
  | Pf_reason num_or_id
  | Pf_action string
  | Wlan_type num_or_id "num_or_id option"
  | Wlan_subtype string
  | Wlan_dir num_or_id
  | Llc "string option"
  | Llc_rnr
  | Atm_type int
  | Atm_multi int
  | Atm_field int field_value
  | Mtp2_type int
  | Mtp3_field int field_value
  | Not_term fexpr
  | And_term fexpr fexpr
  | Or_term fexpr fexpr
  | And_id fexpr ident
  | Or_id fexpr ident

section \<open>Qualifiers\<close>

text \<open>
  The attribute \<open>q\<close>. An identifier inherits the qualifiers of the symbol to its left
  (\<open>$<blk>0.q\<close>): those of its head, or of the expression before \<open>and\<close> or \<open>or\<close>; so do \<open>not\<close> and
  the opening parenthesis. \<open>qual_of q e\<close> are the qualifiers that \<open>e\<close> leaves for what follows it,
  when \<open>q\<close> are those to its left.
\<close>

definition qerr :: qual where
  "qerr = \<lparr>q_addr = Q_UNDEF, q_proto = Q_UNDEF, q_dir = Q_UNDEF\<rparr>"

fun qual_of :: "qual \<Rightarrow> fexpr \<Rightarrow> qual" where
  "qual_of q (Head q' i) = q'"
| "qual_of q (Paren e) = q"
| "qual_of q (Not_term e) = qual_of q e"
| "qual_of q (And_term e e') = qual_of (qual_of q e) e'"
| "qual_of q (Or_term e e') = qual_of (qual_of q e) e'"
| "qual_of q (And_id e i) = qual_of q e"
| "qual_of q (Or_id e i) = qual_of q e"
| "qual_of q _ = qerr"

section \<open>Actions\<close>

definition host_id :: "host \<Rightarrow> string \<Rightarrow> qual \<Rightarrow> nat gen" where
  "host_id hp s q =
     (case map_of [(Q_PORT, ''port''), (Q_PORTRANGE, ''portrange''), (Q_PROTO, ''proto''), (Q_PROTOCHAIN, ''protochain'')]
        (q_addr q) of
        Some n \<Rightarrow> gfail (Bpf_error (quoted n '' modifier applied to ip host'') [])
      | None \<Rightarrow> gen_ncode hp (Some s) 0 q)"

fun gen_ident :: "databases \<Rightarrow> host \<Rightarrow> qual \<Rightarrow> ident \<Rightarrow> nat gen" where
  "gen_ident db hp q (Name s) = gen_scode db hp (h_fddipad hp) s q"
| "gen_ident db hp q (Host_len s n) = gen_mcode hp s None n q"
| "gen_ident db hp q (Host_mask s m) = gen_mcode hp s (Some m) 0 q"
| "gen_ident db hp q (Host_id s) = host_id hp s q"
| "gen_ident db hp q (Host6_len s n) = gen_mcode6 db hp s None n q"
| "gen_ident db hp q (Host6_id s) = gen_mcode6 db hp s None 128 q"
| "gen_ident db hp q (Ether_id a) = gen_ecode (h_fddipad hp) a q"
| "gen_ident db hp q (Arcnet_id a) = gen_acode a q"
| "gen_ident db hp q (Number v) = gen_ncode hp None v q"
| "gen_ident db hp q (Not_id i) = negated (gen_ident db hp q i)"
| "gen_ident db hp q (And_ids i j) = both_and (gen_ident db hp q i) (gen_ident db hp q j)"
| "gen_ident db hp q (Or_ids i j) = both_or (gen_ident db hp q i) (gen_ident db hp q j)"

fun gen_arith :: "host \<Rightarrow> arith \<Rightarrow> arth gen" where
  "gen_arith hp (Constant v) = gen_loadi v"
| "gen_arith hp (Item proto a sz) = gbind (gen_arith hp a) (\<lambda>a. gen_load hp proto a sz)"
| "gen_arith hp (Operation op' a b) =
     gbind (gen_arith hp a) (\<lambda>a0. gbind (gen_arith hp b) (\<lambda>a1. gen_arth (alu_code op') a0 a1))"
| "gen_arith hp (Negative a) = gbind (gen_arith hp a) gen_neg"
| "gen_arith hp Packet_length = gen_loadlen"

text \<open>\<open>fld\<close> is the test of a field for a value, a comparison and its sense.\<close>

definition gen_field :: "(u32 \<Rightarrow> u16 \<Rightarrow> bool \<Rightarrow> nat gen) \<Rightarrow> field_value \<Rightarrow> nat gen" where
  "gen_field fld v =
     (case v of
        Value n \<Rightarrow> fld n BPF_JEQ False
      | Compared c rvs n \<Rightarrow> fld n (cmp_code c) rvs
      | Any_of n ns \<Rightarrow> or_each (fld n BPF_JEQ False) (map (\<lambda>n. fld n BPF_JEQ False) ns))"

definition llc_named :: "string \<Rightarrow> nat gen" where
  "llc_named s =
     (if pcap_strcasecmp (c_str s) (c_str ''i'') = 0 then gen_llc_i
      else if pcap_strcasecmp (c_str s) (c_str ''s'') = 0 then gen_llc_s
      else if pcap_strcasecmp (c_str s) (c_str ''u'') = 0 then gen_llc_u
      else if str2tok s llc_s_subtypes \<noteq> - 1 then gen_llc_s_subtype (word_of_int (str2tok s llc_s_subtypes))
      else if str2tok s llc_u_subtypes = - 1 then gfail (Bpf_error (''unknown LLC type name '' @ dquoted s) [])
      else gen_llc_u_subtype (word_of_int (str2tok s llc_u_subtypes)))"

text \<open>The number of a VLAN, a label or a session; without one, -1.\<close>

definition number_or_any :: "u32 option \<Rightarrow> int" where
  "number_or_any n = (case n of Some v \<Rightarrow> sint v | None \<Rightarrow> - 1)"

definition no_pf_value :: "num_or_id \<Rightarrow> (u32 \<Rightarrow> nat gen) \<Rightarrow> nat gen" where
  "no_pf_value v f = (case v of Number_value n \<Rightarrow> f n | Name_value _ \<Rightarrow> no_pf ''on a machine '')"

fun gen_expr :: "databases \<Rightarrow> host \<Rightarrow> qual \<Rightarrow> fexpr \<Rightarrow> nat gen" where
  "gen_expr db hp q (Head q' i) = gen_ident db hp q' i"
| "gen_expr db hp q (Paren e) = gen_expr db hp q e"
| "gen_expr db hp q (Proto_name p) = gen_proto_abbrev hp p"
| "gen_expr db hp q (Relation c rvs a b) =
     gbind (gen_arith hp a) (\<lambda>a0. gbind (gen_arith hp b) (\<lambda>a1. gen_relation (cmp_code c) a0 a1 rvs))"
| "gen_expr db hp q (Broadcast p) = gen_broadcast hp p"
| "gen_expr db hp q (Multicast p) = gen_multicast hp p"
| "gen_expr db hp q (Less n) = gen_less n"
| "gen_expr db hp q (Greater n) = gen_greater n"
| "gen_expr db hp q (Byte_test op' idx v) = gen_byteop op' idx v"
| "gen_expr db hp q (Inbound dir) = gen_inbound hp dir"
| "gen_expr db hp q (Vlan n) = gen_vlan hp (number_or_any n)"
| "gen_expr db hp q (Mpls n) = gen_mpls hp (number_or_any n)"
| "gen_expr db hp q Pppoed = gen_pppoed hp"
| "gen_expr db hp q (Pppoes n) = gen_pppoes hp (number_or_any n)"
| "gen_expr db hp q (Geneve n) = gen_geneve hp (number_or_any n)"
| "gen_expr db hp q (Pf_ifname s) = gen_pf_ifname s"
| "gen_expr db hp q (Pf_ruleset s) = gen_pf_ruleset s"
| "gen_expr db hp q (Pf_rnr n) = gen_pf_rnr n"
| "gen_expr db hp q (Pf_srnr n) = gen_pf_srnr n"
| "gen_expr db hp q (Pf_reason r) = no_pf_value r gen_pf_reason"
| "gen_expr db hp q (Pf_action s) = no_pf ''on a machine ''"
| "gen_expr db hp q (Wlan_type ty sub) =
     wlan_type ty (\<lambda>t.
       case sub of
         None \<Rightarrow> gen_p80211_type t IEEE80211_FC0_TYPE_MASK
       | Some s \<Rightarrow> wlan_subtype t s (\<lambda>s. gen_p80211_type (t OR s) (IEEE80211_FC0_TYPE_MASK OR IEEE80211_FC0_SUBTYPE_MASK)))"
| "gen_expr db hp q (Wlan_subtype s) =
     wlan_type_subtype s (\<lambda>v. gen_p80211_type v (IEEE80211_FC0_TYPE_MASK OR IEEE80211_FC0_SUBTYPE_MASK))"
| "gen_expr db hp q (Wlan_dir d) = wlan_dir d gen_p80211_fcdir"
| "gen_expr db hp q (Llc s) = (case s of None \<Rightarrow> gen_llc | Some s \<Rightarrow> llc_named s)"
| "gen_expr db hp q Llc_rnr = gen_llc_s_subtype 0x05"
| "gen_expr db hp q (Atm_type ty) = gen_atmtype_abbrev ty"
| "gen_expr db hp q (Atm_multi ty) = gen_atmmulti_abbrev ty"
| "gen_expr db hp q (Atm_field fld v) = gen_field (gen_atmfield_code fld) v"
| "gen_expr db hp q (Mtp2_type ty) = gen_mtp2type_abbrev ty"
| "gen_expr db hp q (Mtp3_field fld v) = gen_field (gen_mtp3field_code fld) v"
| "gen_expr db hp q (Not_term e) = negated (gen_expr db hp q e)"
| "gen_expr db hp q (And_term e e') = both_and (gen_expr db hp q e) (gen_expr db hp (qual_of q e) e')"
| "gen_expr db hp q (Or_term e e') = both_or (gen_expr db hp q e) (gen_expr db hp (qual_of q e) e')"
| "gen_expr db hp q (And_id e i) = both_and (gen_expr db hp q e) (gen_ident db hp (qual_of q e) i)"
| "gen_expr db hp q (Or_id e i) = both_or (gen_expr db hp q e) (gen_ident db hp (qual_of q e) i)"

section \<open>Compilation\<close>

text \<open>
  \<open>finish_parse\<close> and \<open>pcap_compile\<close> with \<open>optimize\<close> 0 of a filter on a handle, whose fields the
  function reads: whether it is active, its snapshot length and its link-layer type. \<open>None\<close> for
  the filter is the empty text; \<open>None\<close> as the result is no defined result.
\<close>

definition finish_parse :: "nat \<Rightarrow> nat gen" where
  "finish_parse p =
     gbind (gget (\<lambda>s. b_head (cs_graph s ! p))) (\<lambda>h.
     gbind (insert_compute_vloffsets h) (\<lambda>_.
     gbind gen_ppi_dlt_check (\<lambda>check.
     gbind (case check of Some c \<Rightarrow> gen_and_m c p | None \<Rightarrow> gret ()) (\<lambda>_.
     gbind (gget cs_snaplen) (\<lambda>snaplen s.
       case finish_branches snaplen p (cs_graph s) of
         None \<Rightarrow> Inl No_result
       | Some (root, g) \<Rightarrow> Inr (root, s\<lparr>cs_graph := g\<rparr>))))))"

definition gen_program :: "databases \<Rightarrow> host \<Rightarrow> fexpr option \<Rightarrow> nat gen" where
  "gen_program db hp e =
     (case e of
        Some e \<Rightarrow> gbind (gen_expr db hp qerr e) finish_parse
      | None \<Rightarrow> gbind (gget cs_snaplen) (\<lambda>snaplen s.
          let (root, g) = gen_retblk snaplen (cs_graph s) in Inr (root, s\<lparr>cs_graph := g\<rparr>)))"

record filter_handle =
  fp_activated :: bool
  fp_snapshot :: u32
  fp_linktype :: int

datatype compile_error =
    Not_yet_activated
  | Snaplen_of_0
  | Gen_error gen_error
  | Convert_error conv_error

definition start_state :: "layout \<Rightarrow> u32 \<Rightarrow> u32 \<Rightarrow> cstate" where
  "start_state l snaplen msk =
     init_regs \<lparr>cs_layout = l, cs_snaplen = snaplen, cs_netmask = msk, cs_regused = [], cs_curreg = 0,
       cs_next_addr = 0, cs_graph = []\<rparr>"

definition pcap_compile ::
    "databases \<Rightarrow> host \<Rightarrow> filter_handle \<Rightarrow> fexpr option \<Rightarrow> u32 \<Rightarrow> (compile_error + bpf_insn list) option" where
  "pcap_compile db hp p e msk =
     (if \<not> fp_activated p then Some (Inl Not_yet_activated)
      else if fp_snapshot p = 0 then Some (Inl Snaplen_of_0)
      else
        case init_linktype (h_platform hp) (h_fddipad hp) (fp_linktype p) of
          Inl err \<Rightarrow> Some (Inl (Gen_error err))
        | Inr l \<Rightarrow>
            (case gen_program db hp e (start_state l (fp_snapshot p) msk) of
               Inl No_result \<Rightarrow> None
             | Inl err \<Rightarrow> Some (Inl (Gen_error err))
             | Inr (root, s) \<Rightarrow>
                 map_option (map_sum Convert_error id) (icode_to_fcode root (cs_graph s))))"

end
