(* ===== verification/Linktype_Tests.thy ===== *)
theory Linktype_Tests
  imports Gencode_Linktype
begin

unbundle bit_operations_syntax

text \<open>
  What the tests of Gencode_Linktype decide, function by function, and that the generated blocks
  decide it: the denotation of a generator function is a condition on the packet, or the error
  that ends the compilation.
\<close>

definition den_snap :: "u32 \<Rightarrow> u32 \<Rightarrow> test den" where
  "den_snap orgcode ptype =
     den_bcmp OR_LLC 0 8
       [LLCSAP_SNAP, LLCSAP_SNAP, 0x03, ucast (drop_bit 16 orgcode), ucast (drop_bit 8 orgcode),
        ucast orgcode, ucast (drop_bit 8 ptype), ucast ptype]"

lemma builds_snap [builds]: "builds 48 (gen_snap orgcode ptype) (den_snap orgcode ptype)"
  unfolding gen_snap_def den_snap_def 
  by (rule builds_mono) (rule builds | simp)+

definition den_llc_linktype :: "int \<Rightarrow> test den" where
  "den_llc_linktype proto =
     (if proto \<in> {LLCSAP_IP, LLCSAP_ISONS, LLCSAP_NETBEUI} then den_cmp OR_LLC 0 SzH (sap_pair proto)
      else if proto = LLCSAP_IPX then den_cmp OR_LLC 0 SzB (word_of_int LLCSAP_IPX)
      else if proto = ETHERTYPE_ATALK then den_snap 0x080007 (word_of_int ETHERTYPE_ATALK)
      else if proto \<le> ETHERMTU then den_cmp OR_LLC 0 SzB (word_of_int proto)
      else den_cmp OR_LLC 6 SzH (word_of_int proto))"

lemma builds_llc_linktype [builds]: "builds 48 (gen_llc_linktype proto) (den_llc_linktype proto)"
  unfolding gen_llc_linktype_def den_llc_linktype_def 
  by (rule builds_mono) (rule builds | simp)+

definition den_ether_linktype :: "int \<Rightarrow> test den" where
  "den_ether_linktype proto =
     (if proto \<in> {LLCSAP_ISONS, LLCSAP_IP, LLCSAP_NETBEUI} then
        den_and (den_not (den_cmp_gt OR_LINKTYPE 0 SzH (word_of_int ETHERMTU)))
          (den_cmp OR_LLC 0 SzH (sap_pair proto))
      else if proto = LLCSAP_IPX then
        den_or_before
          (den_and_before
            (den_or_before
              (den_or (den_cmp OR_LLC 0 SzB (word_of_int LLCSAP_IPX)) (den_cmp OR_LLC 0 SzH 0xFFFF))
              (den_snap 0x000000 (word_of_int ETHERTYPE_IPX)))
            (den_not (den_cmp_gt OR_LINKTYPE 0 SzH (word_of_int ETHERMTU))))
          (den_cmp OR_LINKTYPE 0 SzH (word_of_int ETHERTYPE_IPX))
      else if proto \<in> {ETHERTYPE_ATALK, ETHERTYPE_AARP} then
        den_or_before
          (den_and (den_not (den_cmp_gt OR_LINKTYPE 0 SzH (word_of_int ETHERMTU)))
            (if proto = ETHERTYPE_ATALK then den_snap 0x080007 (word_of_int ETHERTYPE_ATALK)
             else den_snap 0x000000 (word_of_int ETHERTYPE_AARP)))
          (den_cmp OR_LINKTYPE 0 SzH (word_of_int proto))
      else if proto \<le> ETHERMTU then
        den_and (den_not (den_cmp_gt OR_LINKTYPE 0 SzH (word_of_int ETHERMTU)))
          (den_cmp OR_LINKTYPE 2 SzB (word_of_int proto))
      else den_cmp OR_LINKTYPE 0 SzH (word_of_int proto))"

lemma builds_ether_linktype [builds]: "builds 72 (gen_ether_linktype proto) (den_ether_linktype proto)"
  unfolding gen_ether_linktype_def den_ether_linktype_def 
  by (rule builds_mono) (rule builds | simp)+

definition den_linux_sll_linktype :: "int \<Rightarrow> test den" where
  "den_linux_sll_linktype proto =
     (if proto \<in> {LLCSAP_ISONS, LLCSAP_IP, LLCSAP_NETBEUI} then
        den_and (den_cmp OR_LINKTYPE 0 SzH LINUX_SLL_P_802_2) (den_cmp OR_LLC 0 SzH (sap_pair proto))
      else if proto = LLCSAP_IPX then
        den_or_before
          (den_or_before
            (den_and_before
              (den_or (den_cmp OR_LLC 0 SzB (word_of_int LLCSAP_IPX))
                (den_snap 0x000000 (word_of_int ETHERTYPE_IPX)))
              (den_cmp OR_LINKTYPE 0 SzH LINUX_SLL_P_802_2))
            (den_cmp OR_LINKTYPE 0 SzH LINUX_SLL_P_802_3))
          (den_cmp OR_LINKTYPE 0 SzH (word_of_int ETHERTYPE_IPX))
      else if proto \<in> {ETHERTYPE_ATALK, ETHERTYPE_AARP} then
        den_or_before
          (den_and (den_cmp OR_LINKTYPE 0 SzH LINUX_SLL_P_802_2)
            (if proto = ETHERTYPE_ATALK then den_snap 0x080007 (word_of_int ETHERTYPE_ATALK)
             else den_snap 0x000000 (word_of_int ETHERTYPE_AARP)))
          (den_cmp OR_LINKTYPE 0 SzH (word_of_int proto))
      else if proto \<le> ETHERMTU then
        den_and (den_cmp OR_LINKTYPE 0 SzH LINUX_SLL_P_802_2)
          (gbind (gget g_layout) (\<lambda>l.
            den_cmp OR_LINKHDR (constant_part (off_linkpl l)) SzB (word_of_int proto)))
      else den_cmp OR_LINKTYPE 0 SzH (word_of_int proto))"

lemma builds_linux_sll_linktype [builds]: "builds 72 (gen_linux_sll_linktype proto) (den_linux_sll_linktype proto)"
  unfolding gen_linux_sll_linktype_def den_linux_sll_linktype_def 
  by (rule builds_mono) (rule builds | simp)+

definition den_ipnet_linktype :: "int \<Rightarrow> test den" where
  "den_ipnet_linktype proto =
     (if proto = ETHERTYPE_IP then den_cmp OR_LINKTYPE 0 SzB IPH_AF_INET
      else if proto = ETHERTYPE_IPV6 then den_cmp OR_LINKTYPE 0 SzB IPH_AF_INET6
      else den_false)"

lemma builds_ipnet_linktype [builds]: "builds 6 (gen_ipnet_linktype proto) (den_ipnet_linktype proto)"
  unfolding gen_ipnet_linktype_def den_ipnet_linktype_def 
  by (rule builds_mono) (rule builds | simp)+

definition den_mpls_linktype :: "int \<Rightarrow> test den" where
  "den_mpls_linktype proto =
     (if proto = Q_IP then
        den_and (den_mcmp OR_LINKPL (- 2) SzB 0x01 0x01) (den_mcmp OR_LINKPL 0 SzB 0x40 0xf0)
      else if proto = Q_IPV6 then
        den_and (den_mcmp OR_LINKPL (- 2) SzB 0x01 0x01) (den_mcmp OR_LINKPL 0 SzB 0x60 0xf0)
      else gfail Aborts)"

lemma builds_mpls_linktype [builds]: "builds 12 (gen_mpls_linktype proto) (den_mpls_linktype proto)"
  unfolding gen_mpls_linktype_def den_mpls_linktype_def 
  by (rule builds_mono) (rule builds | simp)+

definition den_check_802_11_data_frame :: "test den" where
  "den_check_802_11_data_frame =
     den_and_before (den_jset OR_LINKHDR 0 SzB 0x08) (den_not (den_jset OR_LINKHDR 0 SzB 0x04))"

lemma builds_check_802_11_data_frame [builds]: "builds 10 gen_check_802_11_data_frame den_check_802_11_data_frame"
  unfolding gen_check_802_11_data_frame_def den_check_802_11_data_frame_def 
  by (rule builds_mono) (rule builds | simp)+

definition den_prevlinkhdr_check :: "test option den" where
  "den_prevlinkhdr_check =
     gbind (gget g_layout) (\<lambda>l.
       if prevlinktype l = DLT_SUNATM then
         gbind (den_not (den_cmp OR_PREVLINKHDR 4 SzH 0xFF00)) (\<lambda>b. gret (Some b))
       else gret None)"

lemma builds_prevlinkhdr_check [builds]: "builds_opt 6 gen_prevlinkhdr_check den_prevlinkhdr_check"
  unfolding gen_prevlinkhdr_check_def den_prevlinkhdr_check_def
  by (rule builds_opt_mono, rule builds_opt_layout, subst if_not_P) (simp add: flat_def, (rule builds | simp)+)

definition den_atmfield_code :: "int \<Rightarrow> u32 \<Rightarrow> cmp \<Rightarrow> bool \<Rightarrow> test den" where
  "den_atmfield_code atmfield jvalue c rvs =
     gbind (gget g_layout) (\<lambda>l.
       if atmfield = A_VPI then
         if \<not> is_atm l then gfail (Bpf_error (quoted ''vpi'' '' supported only on raw ATM'') [])
         else if off_vpi l = - 1 then gfail Aborts
         else den_ncmp OR_LINKHDR (off_vpi l) SzB 0xffffffff c rvs jvalue
       else if atmfield = A_VCI then
         if \<not> is_atm l then gfail (Bpf_error (quoted ''vci'' '' supported only on raw ATM'') [])
         else if off_vci l = - 1 then gfail Aborts
         else den_ncmp OR_LINKHDR (off_vci l) SzH 0xffffffff c rvs jvalue
       else if atmfield = A_PROTOTYPE then
         if off_proto l = - 1 then gfail Aborts
         else den_ncmp OR_LINKHDR (off_proto l) SzB 0x0f c rvs jvalue
       else if atmfield = A_MSGTYPE then
         if off_payload l = - 1 then gfail Aborts
         else den_ncmp OR_LINKHDR (off_payload l + MSG_TYPE_POS) SzB 0xffffffff c rvs jvalue
       else if atmfield = A_CALLREFTYPE then
         if \<not> is_atm l then gfail (Bpf_error (quoted ''callref'' '' supported only on raw ATM'') [])
         else if off_proto l = - 1 then gfail Aborts
         else den_ncmp OR_LINKHDR (off_proto l) SzB 0xffffffff c rvs jvalue
       else gfail Aborts)"

lemma builds_atmfield_code [builds]: "jt = cmp_code c \<Longrightarrow> builds 6 (gen_atmfield_code f v jt rvs) (den_atmfield_code f v c rvs)"
  unfolding gen_atmfield_code_def den_atmfield_code_def 
  by (rule builds_mono) (rule builds | simp)+

definition den_raw_linktype :: "int \<Rightarrow> test den" where
  "den_raw_linktype proto =
     (if proto = ETHERTYPE_IP then den_mcmp OR_LINKHDR 0 SzB 0x40 0xF0
      else if proto = ETHERTYPE_IPV6 then den_mcmp OR_LINKHDR 0 SzB 0x60 0xF0
      else den_false)"

lemma builds_raw_linktype [builds]: "builds 6 (raw_linktype proto) (den_raw_linktype proto)"
  unfolding raw_linktype_def den_raw_linktype_def 
  by (rule builds_mono) (rule builds | simp)+

definition den_ppp_bsdos_linktype :: "int \<Rightarrow> test den" where
  "den_ppp_bsdos_linktype proto =
     (if proto = ETHERTYPE_IP then
        den_or
          (den_or (den_cmp OR_LINKTYPE 0 SzH (word_of_int PPP_IP)) (den_cmp OR_LINKTYPE 0 SzH PPP_VJC))
          (den_cmp OR_LINKTYPE 0 SzH PPP_VJNC)
      else den_cmp OR_LINKTYPE 0 SzH (word_of_int (ethertype_to_ppptype proto)))"

lemma builds_ppp_bsdos_linktype [builds]: "builds 18 (ppp_bsdos_linktype proto) (den_ppp_bsdos_linktype proto)"
  unfolding ppp_bsdos_linktype_def den_ppp_bsdos_linktype_def 
  by (rule builds_mono) (rule builds | simp)+

definition den_null_linktype :: "host \<Rightarrow> int \<Rightarrow> int \<Rightarrow> test den" where
  "den_null_linktype hp lt proto =
     (case null_family hp lt proto of
        None \<Rightarrow> den_false
      | Some af \<Rightarrow> den_cmp OR_LINKHDR 0 SzW af)"

lemma builds_null_linktype [builds]: "builds 6 (null_linktype hp lt proto) (den_null_linktype hp lt proto)"
  unfolding null_linktype_def den_null_linktype_def 
  by (rule builds_mono) (rule builds | simp)+

definition den_arcnet_linktype :: "int \<Rightarrow> test den" where
  "den_arcnet_linktype proto =
     (if proto = ETHERTYPE_IPV6 then den_cmp OR_LINKTYPE 0 SzB ARCTYPE_INET6
      else if proto = ETHERTYPE_IP then
        den_or (den_cmp OR_LINKTYPE 0 SzB ARCTYPE_IP) (den_cmp OR_LINKTYPE 0 SzB ARCTYPE_IP_OLD)
      else if proto = ETHERTYPE_ARP then
        den_or (den_cmp OR_LINKTYPE 0 SzB ARCTYPE_ARP) (den_cmp OR_LINKTYPE 0 SzB ARCTYPE_ARP_OLD)
      else if proto = ETHERTYPE_REVARP then den_cmp OR_LINKTYPE 0 SzB ARCTYPE_REVARP
      else if proto = ETHERTYPE_ATALK then den_cmp OR_LINKTYPE 0 SzB ARCTYPE_ATALK
      else den_false)"

lemma builds_arcnet_linktype [builds]: "builds 12 (arcnet_linktype proto) (den_arcnet_linktype proto)"
  unfolding arcnet_linktype_def den_arcnet_linktype_def 
  by (rule builds_mono) (rule builds | simp)+

definition den_frelay_linktype :: "int \<Rightarrow> test den" where
  "den_frelay_linktype proto =
     (if proto = ETHERTYPE_IP then den_cmp OR_LINKHDR 2 SzH 0x03cc
      else if proto = ETHERTYPE_IPV6 then den_cmp OR_LINKHDR 2 SzH 0x038e
      else if proto = LLCSAP_ISONS then
        den_or (den_cmp OR_LINKHDR 2 SzH (0x0300 OR word_of_int ISO8473_CLNP))
          (den_or (den_cmp OR_LINKHDR 2 SzH (0x0300 OR word_of_int ISO9542_ESIS))
            (den_cmp OR_LINKHDR 2 SzH (0x0300 OR word_of_int ISO10589_ISIS)))
      else den_false)"

lemma builds_frelay_linktype [builds]: "builds 18 (frelay_linktype proto) (den_frelay_linktype proto)"
  unfolding frelay_linktype_def den_frelay_linktype_def 
  by (rule builds_mono) (rule builds | simp)+

definition den_linktype :: "host \<Rightarrow> int \<Rightarrow> test den" where
  "den_linktype hp proto =
     gbind (gget g_layout) (\<lambda>l.
       let pf = h_platform hp; lt = linktype l in
       if 0 < label_stack_depth l then
         if proto \<in> {ETHERTYPE_IP, PPP_IP} then den_mpls_linktype Q_IP
         else if proto \<in> {ETHERTYPE_IPV6, PPP_IPV6} then den_mpls_linktype Q_IPV6
         else gfail (Bpf_error ''unsupported protocol over mpls'' [])
       else if lt \<in> {DLT_EN10MB, DLT_NETANALYZER, DLT_NETANALYZER_TRANSPARENT} then
         den_opt_and (if \<not> is_geneve l then den_prevlinkhdr_check else gret None) (den_ether_linktype proto)
       else if lt = DLT_C_HDLC then
         den_cmp OR_LINKTYPE 0 SzH (if proto = LLCSAP_ISONS then sap_pair proto else word_of_int proto)
       else if lt \<in> {DLT_IEEE802_11, DLT_PRISM_HEADER, DLT_IEEE802_11_RADIO_AVS, DLT_IEEE802_11_RADIO, DLT_PPI} then
         den_and den_check_802_11_data_frame (den_llc_linktype proto)
       else if lt \<in> {DLT_FDDI, DLT_IEEE802, DLT_ATM_RFC1483, DLT_ATM_CLIP, DLT_IP_OVER_FC} then
         den_llc_linktype proto
       else if lt = DLT_SUNATM then
         den_and (den_atmfield_code A_PROTOTYPE PT_LLC Jeq False) (den_llc_linktype proto)
       else if lt = DLT_LINUX_SLL then den_linux_sll_linktype proto
       else if lt \<in> {DLT_SLIP, DLT_SLIP_BSDOS pf, DLT_RAW pf} then den_raw_linktype proto
       else if lt = DLT_IPV4 then if proto = ETHERTYPE_IP then den_true else den_false
       else if lt = DLT_IPV6 then if proto = ETHERTYPE_IPV6 then den_true else den_false
       else if lt \<in> {DLT_PPP, DLT_PPP_PPPD, DLT_PPP_SERIAL, DLT_PPP_ETHER} then
         den_cmp OR_LINKTYPE 0 SzH (word_of_int (ethertype_to_ppptype proto))
       else if lt = DLT_PPP_BSDOS pf then den_ppp_bsdos_linktype proto
       else if lt \<in> {DLT_NULL, DLT_LOOP pf, DLT_ENC pf} then den_null_linktype hp lt proto
       else if lt \<in> {DLT_ARCNET, DLT_ARCNET_LINUX} then den_arcnet_linktype proto
       else if lt = DLT_LTALK then if proto = ETHERTYPE_ATALK then den_true else den_false
       else if lt = DLT_FRELAY then den_frelay_linktype proto
       else if lt \<in> {DLT_JUNIPER_MFR, DLT_JUNIPER_MLFR, DLT_JUNIPER_MLPPP, DLT_JUNIPER_ATM1,
           DLT_JUNIPER_ATM2, DLT_JUNIPER_PPPOE, DLT_JUNIPER_PPPOE_ATM, DLT_JUNIPER_GGSN, DLT_JUNIPER_ES,
           DLT_JUNIPER_MONITOR, DLT_JUNIPER_SERVICES, DLT_JUNIPER_ETHER, DLT_JUNIPER_PPP,
           DLT_JUNIPER_FRELAY, DLT_JUNIPER_CHDLC, DLT_JUNIPER_VP, DLT_JUNIPER_ST, DLT_JUNIPER_ISM,
           DLT_JUNIPER_VS, DLT_JUNIPER_SRX_E2E, DLT_JUNIPER_FIBRECHANNEL, DLT_JUNIPER_ATM_CEMIC} then
         den_mcmp OR_LINKHDR 0 SzW 0x4d474300 0xffffff00
       else if lt = DLT_BACNET_MS_TP then den_mcmp OR_LINKHDR 0 SzW 0x55FF0000 0xffff0000
       else if lt = DLT_IPNET then den_ipnet_linktype proto
       else case map_of (not_implemented pf) lt of
         Some n \<Rightarrow> gfail (Bpf_error (n @ '' link-layer type filtering not implemented'') [])
       | None \<Rightarrow>
           if constant_part (off_linktype l) \<noteq> - 1 then den_cmp OR_LINKTYPE 0 SzH (word_of_int proto)
           else case pcap_datalink_val_to_description pf lt of
             Some d \<Rightarrow> gfail (Bpf_error (d @ '' link-layer type filtering not implemented'') [])
           | None \<Rightarrow> gfail (Bpf_error ''DLT %u link-layer type filtering not implemented'' [lt]))"

lemma builds_linktype [builds]: "builds 78 (gen_linktype hp proto) (den_linktype hp proto)"
  unfolding gen_linktype_def den_linktype_def Let_def 
  by (rule builds_mono) (rule builds | simp)+


end
