(* ===== verification/Host_Tests.thy ===== *)
theory Host_Tests
  imports Gencode_Hosts Linktype_Tests
begin

unbundle bit_operations_syntax

text \<open>
  What the tests of Gencode_Hosts decide, and that the generated blocks decide it.
\<close>

definition den_by_direction :: "int \<Rightarrow> test den \<Rightarrow> test den \<Rightarrow> test den \<Rightarrow> test den" where
  "den_by_direction dir src dst other =
     (if dir = Q_SRC then src
      else if dir = Q_DST then dst
      else if dir = Q_AND then den_and src dst
      else if dir \<in> {Q_OR, Q_DEFAULT} then den_or src dst
      else other)"

lemma builds_by_direction [builds]:
  assumes "builds k src dsrc" and "builds k' dst ddst" and "builds k'' other dother"
  shows "builds (max (k + k') k'') (by_direction dir src dst other) (den_by_direction dir dsrc ddst dother)"
  unfolding by_direction_def den_by_direction_def by (rule builds_mono) (rule builds assms | simp)+

lemma builds_errors [builds]:
  "builds 0 (only_on_802_11 rest dir) (only_on_802_11 rest dir)" "builds 0 (fail_from errors proto) (fail_from errors proto)"
  unfolding only_on_802_11_def fail_from_def by (auto split: option.split intro: builds_fail)

definition den_ehostop :: "u8 list \<Rightarrow> int \<Rightarrow> test den" where
  "den_ehostop eaddr dir =
     den_by_direction dir (den_bcmp OR_LINKHDR 6 6 eaddr) (den_bcmp OR_LINKHDR 0 6 eaddr)
       (only_on_802_11 '' with 802.11 headers'' dir)"

lemma builds_ehostop [builds]: "builds 72 (gen_ehostop eaddr dir) (den_ehostop eaddr dir)"
  unfolding gen_ehostop_def den_ehostop_def
  by (rule builds_mono) (rule builds | simp)+

definition den_fhostop :: "u32 \<Rightarrow> u8 list \<Rightarrow> int \<Rightarrow> test den" where
  "den_fhostop fddipad eaddr dir =
     den_by_direction dir (den_bcmp OR_LINKHDR (6 + 1 + fddipad) 6 eaddr) (den_bcmp OR_LINKHDR (0 + 1 + fddipad) 6 eaddr)
       (only_on_802_11 [] dir)"

lemma builds_fhostop [builds]: "builds 72 (gen_fhostop pad eaddr dir) (den_fhostop pad eaddr dir)"
  unfolding gen_fhostop_def den_fhostop_def
  by (rule builds_mono) (rule builds | simp)+

definition den_thostop :: "u8 list \<Rightarrow> int \<Rightarrow> test den" where
  "den_thostop eaddr dir =
     den_by_direction dir (den_bcmp OR_LINKHDR 8 6 eaddr) (den_bcmp OR_LINKHDR 2 6 eaddr)
       (only_on_802_11 [] dir)"

lemma builds_thostop [builds]: "builds 72 (gen_thostop eaddr dir) (den_thostop eaddr dir)"
  unfolding gen_thostop_def den_thostop_def
  by (rule builds_mono) (rule builds | simp)+

definition den_ipfchostop :: "u8 list \<Rightarrow> int \<Rightarrow> test den" where
  "den_ipfchostop eaddr dir =
     den_by_direction dir (den_bcmp OR_LINKHDR 10 6 eaddr) (den_bcmp OR_LINKHDR 2 6 eaddr)
       (only_on_802_11 [] dir)"

lemma builds_ipfchostop [builds]: "builds 72 (gen_ipfchostop eaddr dir) (den_ipfchostop eaddr dir)"
  unfolding gen_ipfchostop_def den_ipfchostop_def
  by (rule builds_mono) (rule builds | simp)+

definition den_ahostop :: "u8 list \<Rightarrow> int \<Rightarrow> test den" where
  "den_ahostop eaddr dir =
     den_by_direction dir (den_bcmp OR_LINKHDR 0 1 eaddr) (den_bcmp OR_LINKHDR 1 1 eaddr)
       (only_on_802_11 [] dir)"

lemma builds_ahostop [builds]: "builds 12 (gen_ahostop eaddr dir) (den_ahostop eaddr dir)"
  unfolding gen_ahostop_def den_ahostop_def
  by (rule builds_mono) (rule builds | simp)+

definition den_wlan_bit :: "u32 \<Rightarrow> u32 \<Rightarrow> test den" where
  "den_wlan_bit byte bits = den_jset OR_LINKHDR byte SzB bits"

lemma builds_wlan_bit [builds]: "builds 5 (wlan_bit byte bits) (den_wlan_bit byte bits)"
  unfolding wlan_bit_def den_wlan_bit_def
  by (rule builds_mono) (rule builds | simp)+

definition den_wlan_not_bit :: "u32 \<Rightarrow> u32 \<Rightarrow> test den" where
  "den_wlan_not_bit byte bits = den_not (den_jset OR_LINKHDR byte SzB bits)"

lemma builds_wlan_not_bit [builds]: "builds 5 (wlan_not_bit byte bits) (den_wlan_not_bit byte bits)"
  unfolding wlan_not_bit_def den_wlan_not_bit_def
  by (rule builds_mono) (rule builds | simp)+

definition den_wlan_frames :: "test den \<Rightarrow> test den \<Rightarrow> test den" where
  "den_wlan_frames data_frames in_management =
     den_and_before
       (den_or_before
         (den_and_before data_frames (den_wlan_bit 0 0x08))
         (den_and (den_wlan_not_bit 0 0x08) in_management))
       (den_wlan_not_bit 0 0x04)"

definition den_wlan_source :: "(u32 \<Rightarrow> test den) \<Rightarrow> test den" where
  "den_wlan_source addr_at =
     den_wlan_frames
       (den_or_before
         (den_and_before
           (den_or_before (den_and (den_wlan_bit 1 0x01) (addr_at 24)) (den_and (den_wlan_not_bit 1 0x01) (addr_at 16)))
           (den_wlan_bit 1 0x02))
         (den_and (den_wlan_not_bit 1 0x02) (addr_at 10)))
       (addr_at 10)"

definition den_wlan_destination :: "(u32 \<Rightarrow> test den) \<Rightarrow> test den" where
  "den_wlan_destination addr_at =
     den_wlan_frames
       (den_or_before (den_and (den_wlan_bit 1 0x01) (addr_at 16)) (den_and (den_wlan_not_bit 1 0x01) (addr_at 4)))
       (addr_at 4)"

lemma builds_wlan_parts [builds]:
  assumes "\<And>offset. builds k (m offset) (d offset)"
  shows "builds (4 * k + 35) (wlan_source m) (den_wlan_source d)"
    "builds (3 * k + 25) (wlan_destination m) (den_wlan_destination d)"
  unfolding wlan_source_def den_wlan_source_def wlan_destination_def den_wlan_destination_def
    wlan_frames_def den_wlan_frames_def
  by (rule builds_mono, (rule builds assms)+, simp)+

definition den_wlan_not_cts_ack :: "test den" where
  "den_wlan_not_cts_ack =
     den_or (den_not (den_mcmp OR_LINKHDR 0 SzB IEEE80211_FC0_TYPE_CTL IEEE80211_FC0_TYPE_MASK))
       (den_and (den_not (den_mcmp OR_LINKHDR 0 SzB IEEE80211_FC0_SUBTYPE_CTS IEEE80211_FC0_SUBTYPE_MASK))
         (den_not (den_mcmp OR_LINKHDR 0 SzB IEEE80211_FC0_SUBTYPE_ACK IEEE80211_FC0_SUBTYPE_MASK)))"

lemma builds_wlan_not_cts_ack [builds]: "builds 18 wlan_not_cts_ack den_wlan_not_cts_ack"
  unfolding wlan_not_cts_ack_def den_wlan_not_cts_ack_def
  by (rule builds_mono) (rule builds | simp)+

definition den_wlanhostop :: "u8 list \<Rightarrow> int \<Rightarrow> test den" where
  "den_wlanhostop eaddr dir =
     (let addr_at = (\<lambda>offset. den_bcmp OR_LINKHDR offset 6 eaddr) in
      den_by_direction dir (den_wlan_source addr_at) (den_wlan_destination addr_at)
        (if dir = Q_RA then den_and (den_wlan_bit 0 0x08) (addr_at 4)
         else if dir = Q_TA then den_and (den_and_before den_wlan_not_cts_ack (den_wlan_bit 0 0x08)) (addr_at 10)
         else if dir = Q_ADDR1 then addr_at 4
         else if dir = Q_ADDR2 then den_and den_wlan_not_cts_ack (addr_at 10)
         else if dir = Q_ADDR3 then
           den_and (den_not (den_mcmp OR_LINKHDR 0 SzB IEEE80211_FC0_TYPE_CTL IEEE80211_FC0_TYPE_MASK)) (addr_at 16)
         else if dir = Q_ADDR4 then
           den_and (den_mcmp OR_LINKHDR 1 SzB IEEE80211_FC1_DIR_DSTODS IEEE80211_FC1_DIR_MASK) (addr_at 24)
         else gfail Aborts))"

lemma builds_wlanhostop [builds]: "builds 312 (gen_wlanhostop eaddr dir) (den_wlanhostop eaddr dir)"
  unfolding gen_wlanhostop_def den_wlanhostop_def Let_def
  by (rule builds_mono) (rule builds | simp)+

definition den_hostop :: "host \<Rightarrow> u32 \<Rightarrow> u32 \<Rightarrow> int \<Rightarrow> int \<Rightarrow> u32 \<Rightarrow> u32 \<Rightarrow> test den" where
  "den_hostop hp addr msk dir proto src_off dst_off =
     (let addr_at = (\<lambda>offset. den_and (den_linktype hp proto) (den_mcmp OR_LINKPL offset SzW addr msk)) in
      den_by_direction dir (addr_at src_off) (addr_at dst_off) (gfail Aborts))"

lemma builds_hostop [builds]: "builds 168 (gen_hostop hp addr msk dir proto src dst) (den_hostop hp addr msk dir proto src dst)"
  unfolding gen_hostop_def den_hostop_def Let_def
  by (rule builds_mono) (rule builds | simp)+

definition den_hostop6 :: "host \<Rightarrow> u32 list \<Rightarrow> u32 list \<Rightarrow> int \<Rightarrow> int \<Rightarrow> u32 \<Rightarrow> u32 \<Rightarrow> test den" where
  "den_hostop6 hp addr msk dir proto src_off dst_off =
     (let word_at = (\<lambda>offset i. den_mcmp OR_LINKPL (offset + of_nat (4 * i)) SzW (addr ! i) (msk ! i));
        addr_at = (\<lambda>offset.
          den_and_before
            (den_and_before (den_and_before (den_and_before (word_at offset 3) (word_at offset 2)) (word_at offset 1)) (word_at offset 0))
            (den_linktype hp proto)) in
      den_by_direction dir (addr_at src_off) (addr_at dst_off) (gfail Aborts))"

lemma builds_hostop6 [builds]: "builds 204 (gen_hostop6 hp addr msk dir proto src dst) (den_hostop6 hp addr msk dir proto src dst)"
  unfolding gen_hostop6_def den_hostop6_def Let_def
  by (rule builds_mono) (rule builds | simp)+

definition den_dnhostop :: "host \<Rightarrow> u32 \<Rightarrow> int \<Rightarrow> test den" where
  "den_dnhostop hp addr dir =
     (let node = ucast (ntohs hp (ucast addr)) :: u32;
        padded = (\<lambda>flags offset. den_and (den_mcmp OR_LINKPL 2 SzH (ucast (ntohs hp flags)) (ucast (ntohs hp 0x07FF)))
          (den_cmp OR_LINKPL (2 + 1 + offset) SzH node));
        unpadded = (\<lambda>flags offset. den_and (den_mcmp OR_LINKPL 2 SzB flags 0x7)
          (den_cmp OR_LINKPL (2 + offset) SzH node));
        addr_at = (\<lambda>offset_lh offset_sh.
          den_and (den_linktype hp ETHERTYPE_DN)
            (den_or_before (den_or_before (den_or_before (padded 0x0681 offset_lh) (unpadded 0x06 offset_lh))
              (padded 0x0281 offset_sh)) (unpadded 0x02 offset_sh))) in
      den_by_direction dir (addr_at 15 3) (addr_at 7 1)
        (if dir = Q_ISO then gfail (Bpf_error ''ISO host filtering not implemented'' []) else gfail Aborts))"

lemma builds_dnhostop [builds]: "builds 252 (gen_dnhostop hp addr dir) (den_dnhostop hp addr dir)"
  unfolding gen_dnhostop_def den_dnhostop_def Let_def
  by (rule builds_mono) (rule builds | simp)+

definition den_host :: "host \<Rightarrow> u32 \<Rightarrow> u32 \<Rightarrow> int \<Rightarrow> int \<Rightarrow> int \<Rightarrow> test den" where
  "den_host hp addr msk proto dir ty =
     (let ip = den_hostop hp addr msk dir ETHERTYPE_IP 12 16;
        arp = den_hostop hp addr msk dir ETHERTYPE_ARP 14 24;
        rarp = den_hostop hp addr msk dir ETHERTYPE_REVARP 14 24 in
      if proto = Q_DEFAULT then
        gbind (gget g_layout) (\<lambda>l. if label_stack_depth l = 0 then den_or (den_or ip arp) rarp else ip)
      else if proto = Q_IP then ip
      else if proto = Q_RARP then rarp
      else if proto = Q_ARP then arp
      else if proto = Q_DECNET then den_dnhostop hp addr dir
      else fail_from ((Q_IPV6, quoted ''ip6'' '' modifier applied to ip host'') # host_errors ty) proto)"

lemma builds_host [builds]: "builds 504 (gen_host hp addr msk proto dir ty) (den_host hp addr msk proto dir ty)"
  unfolding gen_host_def den_host_def Let_def
  by (rule builds_mono) (rule builds | simp)+

definition den_host6 :: "host \<Rightarrow> u32 list \<Rightarrow> u32 list \<Rightarrow> int \<Rightarrow> int \<Rightarrow> int \<Rightarrow> test den" where
  "den_host6 hp addr msk proto dir ty =
     (if proto \<in> {Q_DEFAULT, Q_IPV6} then den_hostop6 hp addr msk dir ETHERTYPE_IPV6 8 24
      else fail_from (host6_errors ty) proto)"

lemma builds_host6 [builds]: "builds 204 (gen_host6 hp addr msk proto dir ty) (den_host6 hp addr msk proto dir ty)"
  unfolding gen_host6_def den_host6_def
  by (rule builds_mono) (rule builds | simp)+

end
