(* ===== verification/Port_Tests.thy ===== *)
theory Port_Tests
  imports Gencode_Ports Host_Tests
begin

unbundle bit_operations_syntax

text \<open>
  What the tests of Gencode_Ports decide, and that the generated blocks decide it.
\<close>

definition den_ipfrag :: "test den" where
  "den_ipfrag = den_not (den_jset OR_LINKPL 6 SzH 0x1fff)"

lemma builds_ipfrag [builds]: "builds 5 gen_ipfrag den_ipfrag"
  unfolding gen_ipfrag_def den_ipfrag_def
  by (rule builds_mono) (rule builds | simp)+

definition den_portatom :: "u32 \<Rightarrow> int \<Rightarrow> test den" where
  "den_portatom off v = den_cmp OR_TRAN_IPV4 off SzH (word_of_int v)"

lemma builds_portatom [builds]: "builds 6 (gen_portatom off v) (den_portatom off v)"
  unfolding gen_portatom_def den_portatom_def
  by (rule builds_mono) (rule builds | simp)+

definition den_portatom6 :: "u32 \<Rightarrow> int \<Rightarrow> test den" where
  "den_portatom6 off v = den_cmp OR_TRAN_IPV6 off SzH (word_of_int v)"

lemma builds_portatom6 [builds]: "builds 6 (gen_portatom6 off v) (den_portatom6 off v)"
  unfolding gen_portatom6_def den_portatom6_def
  by (rule builds_mono) (rule builds | simp)+

definition den_port_direction :: "(u32 \<Rightarrow> test den) \<Rightarrow> int \<Rightarrow> test den" where
  "den_port_direction atom dir =
     (if dir = Q_SRC then atom 0
      else if dir = Q_DST then atom 2
      else if dir \<in> {Q_OR, Q_DEFAULT} then den_or (atom 0) (atom 2)
      else if dir = Q_AND then den_and (atom 0) (atom 2)
      else gfail Aborts)"

lemma builds_port_direction [builds]:
  assumes "\<And>off. builds k (m off) (d off)"
  shows "builds (2 * k) (port_direction m dir) (den_port_direction d dir)"
  unfolding port_direction_def den_port_direction_def by (rule builds_mono) (rule builds assms | simp)+

definition den_portop :: "int \<Rightarrow> int \<Rightarrow> int \<Rightarrow> test den" where
  "den_portop port proto dir =
     den_and (den_and (den_cmp OR_LINKPL 9 SzB (word_of_int proto)) den_ipfrag)
       (den_port_direction (\<lambda>off. den_portatom off port) dir)"

lemma builds_portop [builds]: "builds 23 (gen_portop port proto dir) (den_portop port proto dir)"
  unfolding gen_portop_def den_portop_def
  by (rule builds_mono) (rule builds | simp)+

definition den_portop6 :: "int \<Rightarrow> int \<Rightarrow> int \<Rightarrow> test den" where
  "den_portop6 port proto dir =
     den_and (den_cmp OR_LINKPL 6 SzB (word_of_int proto))
       (den_port_direction (\<lambda>off. den_portatom6 off port) dir)"

lemma builds_portop6 [builds]: "builds 18 (gen_portop6 port proto dir) (den_portop6 port proto dir)"
  unfolding gen_portop6_def den_portop6_def
  by (rule builds_mono) (rule builds | simp)+

definition den_portrangeatom :: "u32 \<Rightarrow> int \<Rightarrow> int \<Rightarrow> test den" where
  "den_portrangeatom off v1 v2 =
     (let lo = (if v2 < v1 then v2 else v1); hi = (if v2 < v1 then v1 else v2) in
      den_and (den_cmp_ge OR_TRAN_IPV4 off SzH (word_of_int lo))
        (den_cmp_le OR_TRAN_IPV4 off SzH (word_of_int hi)))"

lemma builds_portrangeatom [builds]: "builds 12 (gen_portrangeatom off v1 v2) (den_portrangeatom off v1 v2)"
  unfolding gen_portrangeatom_def den_portrangeatom_def Let_def
  by (rule builds_mono) (rule builds | simp)+

definition den_portrangeatom6 :: "u32 \<Rightarrow> int \<Rightarrow> int \<Rightarrow> test den" where
  "den_portrangeatom6 off v1 v2 =
     (let lo = (if v2 < v1 then v2 else v1); hi = (if v2 < v1 then v1 else v2) in
      den_and (den_cmp_ge OR_TRAN_IPV6 off SzH (word_of_int lo))
        (den_cmp_le OR_TRAN_IPV6 off SzH (word_of_int hi)))"

lemma builds_portrangeatom6 [builds]: "builds 12 (gen_portrangeatom6 off v1 v2) (den_portrangeatom6 off v1 v2)"
  unfolding gen_portrangeatom6_def den_portrangeatom6_def Let_def
  by (rule builds_mono) (rule builds | simp)+

definition den_portrangeop :: "int \<Rightarrow> int \<Rightarrow> int \<Rightarrow> int \<Rightarrow> test den" where
  "den_portrangeop port1 port2 proto dir =
     den_and (den_and (den_cmp OR_LINKPL 9 SzB (word_of_int proto)) den_ipfrag)
       (den_port_direction (\<lambda>off. den_portrangeatom off port1 port2) dir)"

lemma builds_portrangeop [builds]: "builds 35 (gen_portrangeop port1 port2 proto dir) (den_portrangeop port1 port2 proto dir)"
  unfolding gen_portrangeop_def den_portrangeop_def
  by (rule builds_mono) (rule builds | simp)+

definition den_portrangeop6 :: "int \<Rightarrow> int \<Rightarrow> int \<Rightarrow> int \<Rightarrow> test den" where
  "den_portrangeop6 port1 port2 proto dir =
     den_and (den_cmp OR_LINKPL 6 SzB (word_of_int proto))
       (den_port_direction (\<lambda>off. den_portrangeatom6 off port1 port2) dir)"

lemma builds_portrangeop6 [builds]: "builds 30 (gen_portrangeop6 port1 port2 proto dir) (den_portrangeop6 port1 port2 proto dir)"
  unfolding gen_portrangeop6_def den_portrangeop6_def
  by (rule builds_mono) (rule builds | simp)+

definition den_by_transport :: "int \<Rightarrow> (int \<Rightarrow> test den) \<Rightarrow> test den" where
  "den_by_transport ip_proto op' =
     (if ip_proto \<in> {IPPROTO_UDP, IPPROTO_TCP, IPPROTO_SCTP} then op' ip_proto
      else if ip_proto = PROTO_UNDEF then
        den_or_before (den_or (op' IPPROTO_TCP) (op' IPPROTO_UDP)) (op' IPPROTO_SCTP)
      else gfail Aborts)"

lemma builds_by_transport [builds]:
  assumes "\<And>p. builds k (m p) (d p)"
  shows "builds (3 * k) (by_transport ip_proto m) (den_by_transport ip_proto d)"
  unfolding by_transport_def den_by_transport_def by (rule builds_mono) (rule builds assms | simp)+

definition den_port :: "host \<Rightarrow> int \<Rightarrow> int \<Rightarrow> int \<Rightarrow> test den" where
  "den_port hp port ip_proto dir =
     den_and (den_linktype hp ETHERTYPE_IP) (den_by_transport ip_proto (\<lambda>p. den_portop port p dir))"

lemma builds_port [builds]: "builds 147 (gen_port hp port ip_proto dir) (den_port hp port ip_proto dir)"
  unfolding gen_port_def den_port_def
  by (rule builds_mono) (rule builds | simp)+

definition den_port6 :: "host \<Rightarrow> int \<Rightarrow> int \<Rightarrow> int \<Rightarrow> test den" where
  "den_port6 hp port ip_proto dir =
     den_and (den_linktype hp ETHERTYPE_IPV6) (den_by_transport ip_proto (\<lambda>p. den_portop6 port p dir))"

lemma builds_port6 [builds]: "builds 132 (gen_port6 hp port ip_proto dir) (den_port6 hp port ip_proto dir)"
  unfolding gen_port6_def den_port6_def
  by (rule builds_mono) (rule builds | simp)+

definition den_portrange :: "host \<Rightarrow> int \<Rightarrow> int \<Rightarrow> int \<Rightarrow> int \<Rightarrow> test den" where
  "den_portrange hp port1 port2 ip_proto dir =
     den_and (den_linktype hp ETHERTYPE_IP) (den_by_transport ip_proto (\<lambda>p. den_portrangeop port1 port2 p dir))"

lemma builds_portrange [builds]: "builds 183 (gen_portrange hp port1 port2 ip_proto dir) (den_portrange hp port1 port2 ip_proto dir)"
  unfolding gen_portrange_def den_portrange_def
  by (rule builds_mono) (rule builds | simp)+

definition den_portrange6 :: "host \<Rightarrow> int \<Rightarrow> int \<Rightarrow> int \<Rightarrow> int \<Rightarrow> test den" where
  "den_portrange6 hp port1 port2 ip_proto dir =
     den_and (den_linktype hp ETHERTYPE_IPV6) (den_by_transport ip_proto (\<lambda>p. den_portrangeop6 port1 port2 p dir))"

lemma builds_portrange6 [builds]: "builds 168 (gen_portrange6 hp port1 port2 ip_proto dir) (den_portrange6 hp port1 port2 ip_proto dir)"
  unfolding gen_portrange6_def den_portrange6_def
  by (rule builds_mono) (rule builds | simp)+

definition den_proto_ip :: "host \<Rightarrow> int \<Rightarrow> test den" where
  "den_proto_ip hp v = den_and (den_linktype hp ETHERTYPE_IP) (den_cmp OR_LINKPL 9 SzB (word_of_int v))"

lemma builds_proto_ip [builds]: "builds 84 (proto_ip hp v) (den_proto_ip hp v)"
  unfolding proto_ip_def den_proto_ip_def
  by (rule builds_mono) (rule builds | simp)+

definition den_proto_ipv6 :: "host \<Rightarrow> int \<Rightarrow> test den" where
  "den_proto_ipv6 hp v =
     den_and (den_linktype hp ETHERTYPE_IPV6)
       (den_or_before
         (den_and (den_cmp OR_LINKPL 6 SzB IPPROTO_FRAGMENT) (den_cmp OR_LINKPL 40 SzB (word_of_int v)))
         (den_cmp OR_LINKPL 6 SzB (word_of_int v)))"

lemma builds_proto_ipv6 [builds]: "builds 96 (proto_ipv6 hp v) (den_proto_ipv6 hp v)"
  unfolding proto_ipv6_def den_proto_ipv6_def
  by (rule builds_mono) (rule builds | simp)+

definition den_proto_iso :: "host \<Rightarrow> int \<Rightarrow> test den" where
  "den_proto_iso hp v =
     gbind (gget g_layout) (\<lambda>l.
       if linktype l = DLT_FRELAY then den_cmp OR_LINKHDR 2 SzH (0x0300 OR word_of_int v)
       else if linktype l = DLT_C_HDLC then
         den_and (den_linktype hp 0xfefe) (den_cmp OR_LINKPL_NOSNAP 1 SzB (word_of_int v))
       else den_and (den_linktype hp LLCSAP_ISONS) (den_cmp OR_LINKPL_NOSNAP 0 SzB (word_of_int v)))"

lemma builds_proto_iso [builds]: "builds 84 (proto_iso hp v) (den_proto_iso hp v)"
  unfolding proto_iso_def den_proto_iso_def
  by (rule builds_mono) (rule builds | simp)+

definition den_proto :: "host \<Rightarrow> int \<Rightarrow> int \<Rightarrow> int \<Rightarrow> test den" where
  "den_proto hp v proto dir =
     (if dir \<noteq> Q_DEFAULT then gfail (Bpf_error (''direction applied to '' @ quoted ''proto'' []) [])
      else if proto = Q_DEFAULT then den_or (den_proto_ip hp v) (den_proto_ipv6 hp v)
      else if proto = Q_IP then den_proto_ip hp v
      else if proto = Q_ISO then den_proto_iso hp v
      else if proto = Q_ISIS then
        den_and (den_proto_iso hp ISO10589_ISIS) (den_cmp OR_LINKPL_NOSNAP 4 SzB (word_of_int v))
      else if proto = Q_LINK then den_linktype hp v
      else if proto = Q_IPV6 then den_proto_ipv6 hp v
      else fail_from proto_errors proto)"

lemma builds_proto [builds]: "builds 180 (gen_proto hp v proto dir) (den_proto hp v proto dir)"
  unfolding gen_proto_def den_proto_def
  by (rule builds_mono) (rule builds | simp)+

fun den_or_more :: "test den \<Rightarrow> test den list \<Rightarrow> test den" where
  "den_or_more b1 [] = b1"
| "den_or_more b1 (m # ms) = den_or_more (den_or_before b1 m) ms"

fun den_one_of :: "test den list \<Rightarrow> test den" where
  "den_one_of (m0 # m1 # ms) = den_or_more (den_or m0 m1) ms"
| "den_one_of [m] = m"
| "den_one_of [] = gfail Aborts"

definition den_proto_abbrev :: "host \<Rightarrow> int \<Rightarrow> test den" where
  "den_proto_abbrev hp proto =
     (case map_of both_families proto of Some v \<Rightarrow> den_or_before (den_proto hp v Q_IP Q_DEFAULT) (den_proto hp v Q_IPV6 Q_DEFAULT)
      | None \<Rightarrow> case map_of one_family proto of Some (v, q) \<Rightarrow> den_proto hp v q Q_DEFAULT
      | None \<Rightarrow> case map_of link_protocols proto of Some v \<Rightarrow> den_linktype hp v
      | None \<Rightarrow> case map_of isis_groups proto of Some vs \<Rightarrow> den_one_of (map (\<lambda>v. den_proto hp v Q_ISIS Q_DEFAULT) vs)
      | None \<Rightarrow> fail_from [(Q_LINK, ''link layer applied in wrong context''),
          (Q_RADIO, quoted ''radio'' '' is not a valid protocol type'')] proto)"

lemma builds_or_more:
  "builds k1 b1 p1 \<Longrightarrow> (\<And>v. builds k (m v) (d v)) \<Longrightarrow>
     builds (k1 + length vs * k) (or_more b1 (map m vs)) (den_or_more p1 (map d vs))"
proof (induction vs arbitrary: b1 p1 k1)
  case (Cons v vs)
  have "builds (k1 + k) (or_before b1 (m v)) (den_or_before p1 (d v))" by (rule builds Cons.prems)+
  from Cons.IH [OF this Cons.prems(2)] show ?case by (simp add: algebra_simps)
qed simp

lemma builds_one_of:
  assumes "\<And>v. builds k (m v) (d v)"
  shows "builds (length vs * k) (one_of (map m vs)) (den_one_of (map d vs))"
proof (cases "map m vs" rule: one_of.cases)
  case (1 m0 m1 ms)
  then obtain v0 v1 ws where vs: "vs = v0 # v1 # ws" by auto
  have "builds (k + k) (both_or (m v0) (m v1)) (den_or (d v0) (d v1))" by (rule builds assms)+
  from builds_or_more [of _ _ _ k m d ws, OF this assms] show ?thesis by (simp add: vs algebra_simps)
next
  case (2 m0)
  then obtain v where "vs = [v]" by auto
  then show ?thesis using assms by simp
qed (simp add: builds_fail)

lemma builds_case_map_of:
  assumes "builds k m d" and "\<And>x. x \<in> snd ` set xs \<Longrightarrow> builds k' (m' x) (d' x)"
  shows "builds (max k k') (case map_of xs p of None \<Rightarrow> m | Some x \<Rightarrow> m' x)
    (case map_of xs p of None \<Rightarrow> d | Some x \<Rightarrow> d' x)"
  using assms map_of_SomeD [of xs p]
  by (cases "map_of xs p") (force intro: builds_mono [of k] builds_mono [of k'])+

lemma builds_isis_group:
  "vs \<in> snd ` set isis_groups \<Longrightarrow>
     builds 900 (one_of (map (\<lambda>v. gen_proto hp v q dir) vs)) (den_one_of (map (\<lambda>v. den_proto hp v q dir) vs))"
  by (rule builds_mono [OF builds_one_of [OF builds_proto]]) (auto simp: isis_groups_def)

lemma builds_proto_abbrev [builds]: "builds 900 (gen_proto_abbrev hp proto) (den_proto_abbrev hp proto)"
  unfolding gen_proto_abbrev_def den_proto_abbrev_def
  by (rule builds_mono) (rule builds_case_map_of builds_isis_group builds | simp add: case_prod_beta)+

end
