(* ===== verification/Name_Tests.thy ===== *)
theory Name_Tests
  imports Gencode_Names Port_Tests
begin

unbundle bit_operations_syntax

text \<open>
  What the tests of Gencode_Names decide, and that the generated blocks decide it; chains of
  protocols, which are loops, are not decided by a tree of branches and have no meaning here.
\<close>

lemma builds_case_sum [builds]:
  "(\<And>x. builds k (m x) (d x)) \<Longrightarrow>
     builds k (case r of Inl e \<Rightarrow> gfail e | Inr x \<Rightarrow> m x) (case r of Inl e \<Rightarrow> gfail e | Inr x \<Rightarrow> d x)"
  by (cases r) (auto intro: builds_mono [OF builds_fail])

lemma builds_error_or [builds]:
  "builds k m d \<Longrightarrow> builds k (case r of None \<Rightarrow> m | Some e \<Rightarrow> gfail e) (case r of None \<Rightarrow> d | Some e \<Rightarrow> gfail e)"
  by (cases r) (auto intro: builds_mono [OF builds_fail])

lemma builds_case_list [builds]:
  "builds k m d \<Longrightarrow> (\<And>x xs. builds k' (m' x xs) (d' x xs)) \<Longrightarrow>
     builds (max k k') (case l of [] \<Rightarrow> m | x # xs \<Rightarrow> m' x xs) (case l of [] \<Rightarrow> d | x # xs \<Rightarrow> d' x xs)"
  by (cases l) (auto intro: builds_mono [of k] builds_mono [of k'])

lemma builds_case_host_addr [builds]:
  "(\<And>w. builds k (m w) (d w)) \<Longrightarrow> (\<And>ws. builds k' (m' ws) (d' ws)) \<Longrightarrow> builds k'' m'' d'' \<Longrightarrow>
     builds (max (max k k') k'') (case a of Inet w \<Rightarrow> m w | Inet6 ws \<Rightarrow> m' ws | Other_family \<Rightarrow> m'')
       (case a of Inet w \<Rightarrow> d w | Inet6 ws \<Rightarrow> d' ws | Other_family \<Rightarrow> d'')"
  by (cases a) (auto intro: builds_mono [of k] builds_mono [of k'] builds_mono [of k''])

lemma builds_syntax_error [builds]: "builds 0 syntax_error syntax_error"
  unfolding syntax_error_def by (rule builds_fail)

definition den_ether_test :: "u8 list \<Rightarrow> int \<Rightarrow> test den" where
  "den_ether_test eaddr dir = den_opt_and den_prevlinkhdr_check (den_ehostop eaddr dir)"

lemma builds_ether_test [builds]: "builds 100 (ether_test eaddr dir) (den_ether_test eaddr dir)"
  unfolding ether_test_def den_ether_test_def
  by (rule builds_mono) (rule builds | simp)+

definition den_link_host :: "u32 \<Rightarrow> (string \<Rightarrow> gen_error + u8 list) \<Rightarrow> int \<Rightarrow> string \<Rightarrow> test den" where
  "den_link_host fddipad eaddr dir err =
     gbind (gget g_layout) (\<lambda>l.
       let known = (\<lambda>kind op'. case eaddr kind of Inl e \<Rightarrow> gfail e | Inr a \<Rightarrow> op' a) in
       if linktype l \<in> {DLT_EN10MB, DLT_NETANALYZER, DLT_NETANALYZER_TRANSPARENT} then
         known ''ether'' (\<lambda>a. den_ether_test a dir)
       else if linktype l = DLT_FDDI then known ''FDDI'' (\<lambda>a. den_fhostop fddipad a dir)
       else if linktype l = DLT_IEEE802 then known ''token ring'' (\<lambda>a. den_thostop a dir)
       else if linktype l \<in> {DLT_IEEE802_11, DLT_PRISM_HEADER, DLT_IEEE802_11_RADIO_AVS, DLT_IEEE802_11_RADIO, DLT_PPI}
       then known ''802.11'' (\<lambda>a. den_wlanhostop a dir)
       else if linktype l = DLT_IP_OVER_FC then known ''Fibre Channel'' (\<lambda>a. den_ipfchostop a dir)
       else gfail (Bpf_error err []))"

lemma builds_link_host [builds]: "builds 312 (link_host fddipad eaddr dir err) (den_link_host fddipad eaddr dir err)"
  unfolding link_host_def den_link_host_def Let_def
  by (rule builds_mono) (rule builds | simp)+

definition den_ecode :: "u32 \<Rightarrow> u8 list \<Rightarrow> qual \<Rightarrow> test den" where
  "den_ecode fddipad eaddr q =
     (if q_addr q \<in> {Q_HOST, Q_DEFAULT} \<and> q_proto q = Q_LINK then
        den_link_host fddipad (\<lambda>_. Inr eaddr) (q_dir q)
          ''ethernet addresses supported only on ethernet/FDDI/token ring/802.11/ATM LANE/Fibre Channel''
      else gfail (Bpf_error ''ethernet address used in non-ether expression'' []))"

lemma builds_ecode [builds]: "builds 312 (gen_ecode fddipad eaddr q) (den_ecode fddipad eaddr q)"
  unfolding gen_ecode_def den_ecode_def
  by (rule builds_mono) (rule builds | simp)+

definition den_acode :: "u8 list \<Rightarrow> qual \<Rightarrow> test den" where
  "den_acode eaddr q =
     gbind (gget g_layout) (\<lambda>l.
       if linktype l \<in> {DLT_ARCNET, DLT_ARCNET_LINUX} then
         (if q_addr q \<in> {Q_HOST, Q_DEFAULT} \<and> q_proto q = Q_LINK then den_ahostop eaddr (q_dir q)
          else gfail (Bpf_error ''ARCnet address used in non-arc expression'' []))
       else gfail (Bpf_error ''aid supported only on ARCnet'' []))"

lemma builds_acode [builds]: "builds 12 (gen_acode eaddr q) (den_acode eaddr q)"
  unfolding gen_acode_def den_acode_def
  by (rule builds_mono) (rule builds | simp)+

definition den_network_test :: "host \<Rightarrow> u32 \<Rightarrow> u32 \<Rightarrow> qual \<Rightarrow> test den" where
  "den_network_test hp n msk q =
     (if q_addr q = Q_NET then den_host hp n msk (q_proto q) (q_dir q) (q_addr q)
      else gfail (Bpf_error ''Mask syntax for networks only'' []))"

lemma builds_network_test [builds]: "builds 504 (network_test hp n msk q) (den_network_test hp n msk q)"
  unfolding network_test_def den_network_test_def
  by (rule builds_mono) (rule builds | simp)+

definition den_mcode :: "host \<Rightarrow> string \<Rightarrow> string option \<Rightarrow> u32 \<Rightarrow> qual \<Rightarrow> test den" where
  "den_mcode hp s1 s2 masklen q =
     (let n = promoted s1 in
      case s2 of
        Some s2 \<Rightarrow>
          let msk = promoted s2 in
          if n AND NOT msk \<noteq> 0
          then gfail (Bpf_error (''non-network bits set in '' @ dquoted (s1 @ '' mask '' @ s2)) [])
          else den_network_test hp n msk q
      | None \<Rightarrow>
          if 32 < masklen then gfail (Bpf_error ''mask length must be <= 32'' [])
          else
            let msk = (if masklen = 0 then 0 else push_bit (unat (32 - masklen)) 0xffffffff) in
            if n AND NOT msk \<noteq> 0
            then gfail (Bpf_error (''non-network bits set in '' @ dquoted (s1 @ ''/%d'')) [uint masklen])
            else den_network_test hp n msk q)"

lemma builds_mcode [builds]: "builds 504 (gen_mcode hp s1 s2 masklen q) (den_mcode hp s1 s2 masklen q)"
  unfolding gen_mcode_def den_mcode_def Let_def
  by (rule builds_mono) (rule builds | simp)+

definition den_mcode6 :: "databases \<Rightarrow> host \<Rightarrow> string \<Rightarrow> string option \<Rightarrow> u32 \<Rightarrow> qual \<Rightarrow> test den" where
  "den_mcode6 db hp s1 s2 masklen q =
     (case s2 of
        Some s2 \<Rightarrow> gfail (Bpf_error (''no mask '' @ s2 @ '' supported'') [])
      | None \<Rightarrow>
          (case db_addrinfo db s1 of
             Some [Inet6 addr] \<Rightarrow>
               if 128 < masklen then gfail (Bpf_error ''mask length must be <= %u'' [128])
               else
                 let msk = prefix_mask (unat masklen) in
                 if \<exists>i\<in>{0..<4}. addr ! i AND NOT (msk ! i) \<noteq> 0
                 then gfail (Bpf_error (''non-network bits set in '' @ dquoted (s1 @ ''/%d'')) [uint masklen])
                 else if q_addr q \<in> {Q_DEFAULT, Q_HOST} \<and> masklen \<noteq> 128
                 then gfail (Bpf_error ''Mask syntax for networks only'' [])
                 else if q_addr q \<in> {Q_DEFAULT, Q_HOST, Q_NET}
                 then den_host6 hp addr msk (q_proto q) (q_dir q) (q_addr q)
                 else gfail (Bpf_error ''invalid qualifier against IPv6 address'' [])
           | Some [_] \<Rightarrow> gfail No_result
           | Some (_ # _) \<Rightarrow> gfail (Bpf_error (s1 @ '' resolved to multiple address'') [])
           | _ \<Rightarrow> gfail (Bpf_error (''invalid ip6 address '' @ s1) [])))"

lemma builds_mcode6 [builds]: "builds 204 (gen_mcode6 db hp s1 s2 masklen q) (den_mcode6 db hp s1 s2 masklen q)"
  unfolding gen_mcode6_def den_mcode6_def Let_def
  by (rule builds_mono) (rule builds | simp)+

definition den_port_test :: "host \<Rightarrow> int \<Rightarrow> int \<Rightarrow> int \<Rightarrow> test den" where
  "den_port_test hp port proto dir = den_or_before (den_port hp port proto dir) (den_port6 hp port proto dir)"

lemma builds_port_test [builds]: "builds 279 (port_test hp port proto dir) (den_port_test hp port proto dir)"
  unfolding port_test_def den_port_test_def
  by (rule builds_mono) (rule builds | simp)+

definition den_portrange_test :: "host \<Rightarrow> int \<Rightarrow> int \<Rightarrow> int \<Rightarrow> int \<Rightarrow> test den" where
  "den_portrange_test hp port1 port2 proto dir =
     den_or_before (den_portrange hp port1 port2 proto dir) (den_portrange6 hp port1 port2 proto dir)"

lemma builds_portrange_test [builds]: "builds 351 (portrange_test hp port1 port2 proto dir) (den_portrange_test hp port1 port2 proto dir)"
  unfolding portrange_test_def den_portrange_test_def
  by (rule builds_mono) (rule builds | simp)+

definition den_number_port :: "string \<Rightarrow> u32 \<Rightarrow> int \<Rightarrow> (int \<Rightarrow> test den) \<Rightarrow> test den" where
  "den_number_port what v proto test =
     (case map_of [(Q_UDP, IPPROTO_UDP), (Q_TCP, IPPROTO_TCP), (Q_SCTP, IPPROTO_SCTP), (Q_DEFAULT, PROTO_UNDEF)] proto of
        None \<Rightarrow> gfail (Bpf_error (''illegal qualifier of '' @ quoted what []) [])
      | Some p \<Rightarrow>
          if 65535 < v then gfail (Bpf_error ''illegal port number %u > 65535'' [uint v]) else test p)"

lemma builds_number_port [builds]:
  assumes "\<And>p. builds k (m p) (d p)"
  shows "builds k (number_port what v proto m) (den_number_port what v proto d)"
  unfolding number_port_def den_number_port_def by (rule builds_mono) (rule builds assms | simp)+

definition den_ncode :: "host \<Rightarrow> string option \<Rightarrow> u32 \<Rightarrow> qual \<Rightarrow> test den" where
  "den_ncode hp s v q =
     (let proto = q_proto q; dir = q_dir q;
        value = (case s of
          None \<Rightarrow> Inr (32, v)
        | Some s \<Rightarrow> if proto = Q_DECNET then map_sum id (Pair 32) (pcap_atodn s) else Inr (pcap_atoin s)) in
      case value of
        Inl e \<Rightarrow> gfail e
      | Inr (bits, v) \<Rightarrow>
          if q_addr q \<in> {Q_DEFAULT, Q_HOST, Q_NET} then
            (if proto = Q_DECNET then den_host hp v 0 proto dir (q_addr q)
             else if proto = Q_LINK then gfail (Bpf_error ''illegal link layer address'' [])
             else
               let (n, msk) = (if s = None \<and> q_addr q = Q_NET then justify_net v 0xffffffff
                 else (push_bit (nat (32 - bits)) v, push_bit (nat (32 - bits)) 0xffffffff)) in
               den_host hp n msk proto dir (q_addr q))
          else if q_addr q = Q_PORT then den_number_port ''port'' v proto (\<lambda>p. den_port_test hp (uint v) p dir)
          else if q_addr q = Q_PORTRANGE
          then den_number_port ''portrange'' v proto (\<lambda>p. den_portrange_test hp (uint v) (uint v) p dir)
          else if q_addr q = Q_GATEWAY then gfail (Bpf_error (quoted ''gateway'' '' requires a name'') [])
          else if q_addr q = Q_PROTO then den_proto hp (sint v) proto dir
          else if q_addr q = Q_PROTOCHAIN then gfail Aborts
          else if q_addr q = Q_UNDEF then syntax_error
          else gfail Aborts)"

lemma builds_ncode [builds]:
  assumes "q_addr q \<noteq> Q_PROTOCHAIN"
  shows "builds 504 (gen_ncode hp s v q) (den_ncode hp s v q)"
  unfolding gen_ncode_def den_ncode_def Let_def if_not_P [OF assms]
  by (rule builds_mono) (rule builds | simp)+

definition den_address_test :: "host \<Rightarrow> int \<Rightarrow> int \<Rightarrow> int \<Rightarrow> int \<Rightarrow> host_addr \<Rightarrow> test den" where
  "den_address_test hp tproto tproto6 dir ty a =
     (case a of
        Inet w \<Rightarrow> den_host hp w 0xffffffff tproto dir ty
      | Inet6 ws \<Rightarrow> den_host6 hp ws (replicate 4 0xffffffff) tproto6 dir ty
      | Other_family \<Rightarrow> gfail Aborts)"

lemma builds_address_test [builds]: "builds 504 (address_test hp tproto tproto6 dir ty a) (den_address_test hp tproto tproto6 dir ty a)"
  unfolding address_test_def den_address_test_def
  by (rule builds_mono) (rule builds | simp)+

fun den_or_each :: "test den \<Rightarrow> test den list \<Rightarrow> test den" where
  "den_or_each b [] = b"
| "den_or_each b (tmp # ms) = den_or_each (den_or b tmp) ms"

lemma builds_or_each:
  "builds k0 b p \<Longrightarrow> (\<And>v. builds k (m v) (d v)) \<Longrightarrow>
     builds (k0 + length vs * k) (or_each b (map m vs)) (den_or_each p (map d vs))"
proof (induction vs arbitrary: b p k0)
  case (Cons v vs)
  have "builds (k0 + k) (both_or b (m v)) (den_or p (d v))" by (rule builds Cons.prems)+
  from Cons.IH [OF this Cons.prems(2)] show ?case by (simp add: algebra_simps)
qed simp

definition den_named_host :: "databases \<Rightarrow> host \<Rightarrow> string \<Rightarrow> qual \<Rightarrow> test den" where
  "den_named_host db hp nm q =
     (case db_addrinfo db nm of
        Some (a # as) \<Rightarrow>
          gbind (gget g_layout) (\<lambda>l.
            let dflt = (\<lambda>p. if constant_part (off_linktype l) = - 1 \<and> q_proto q = Q_DEFAULT then p else q_proto q);
              tproto = dflt Q_IP; tproto6 = dflt Q_IPV6 in
            case filter (admitted tproto tproto6) (a # as) of
              [] \<Rightarrow> gfail (Bpf_error (''unknown host '' @ quoted nm
                (if q_proto q = Q_DEFAULT then [] else '' for specified address family'')) [])
            | b # bs \<Rightarrow> den_or_each (den_address_test hp tproto tproto6 (q_dir q) (q_addr q) b)
                (map (den_address_test hp tproto tproto6 (q_dir q) (q_addr q)) bs))
      | _ \<Rightarrow> gfail (Bpf_error (''unknown host '' @ quoted nm []) []))"

definition den_named_port :: "databases \<Rightarrow> host \<Rightarrow> string \<Rightarrow> qual \<Rightarrow> test den" where
  "den_named_port db hp nm q =
     (if q_proto q \<notin> {Q_DEFAULT, Q_UDP, Q_TCP, Q_SCTP}
      then gfail (Bpf_error (''illegal qualifier of '' @ quoted ''port'' []) [])
      else
        case pcap_nametoport db nm of
          None \<Rightarrow> gfail (Bpf_error (''unknown port '' @ quoted nm []) [])
        | Some (port, real_proto) \<Rightarrow>
            (case port_proto ''port '' nm (q_proto q) real_proto of
               Inl e \<Rightarrow> gfail e
             | Inr real_proto \<Rightarrow>
                 (case port_error port of Some e \<Rightarrow> gfail e | None \<Rightarrow> den_port_test hp port real_proto (q_dir q))))"

lemma builds_named_port [builds]: "builds 279 (named_port db hp nm q) (den_named_port db hp nm q)"
  unfolding named_port_def den_named_port_def
  by (rule builds_mono) (rule builds | simp)+

definition den_named_portrange :: "databases \<Rightarrow> host \<Rightarrow> string \<Rightarrow> qual \<Rightarrow> test den" where
  "den_named_portrange db hp nm q =
     (if q_proto q \<notin> {Q_DEFAULT, Q_UDP, Q_TCP, Q_SCTP}
      then gfail (Bpf_error (''illegal qualifier of '' @ quoted ''portrange'' []) [])
      else
        case pcap_nametoportrange db nm of
          None \<Rightarrow> gfail (Bpf_error (''unknown port in range '' @ quoted nm []) [])
        | Some (port1, port2, real_proto) \<Rightarrow>
            (case port_proto ''port in range '' nm (q_proto q) real_proto of
               Inl e \<Rightarrow> gfail e
             | Inr real_proto \<Rightarrow>
                 (case port_error port1 of Some e \<Rightarrow> gfail e
                  | None \<Rightarrow>
                      (case port_error port2 of Some e \<Rightarrow> gfail e
                       | None \<Rightarrow> den_portrange_test hp port1 port2 real_proto (q_dir q)))))"

lemma builds_named_portrange [builds]: "builds 351 (named_portrange db hp nm q) (den_named_portrange db hp nm q)"
  unfolding named_portrange_def den_named_portrange_def
  by (rule builds_mono) (rule builds | simp)+

definition den_scode :: "databases \<Rightarrow> host \<Rightarrow> u32 \<Rightarrow> string \<Rightarrow> qual \<Rightarrow> test den" where
  "den_scode db hp fddipad nm q =
     (let proto = q_proto q; dir = q_dir q;
        protocol = (\<lambda>test. case lookup_proto db nm proto of
            Inl e \<Rightarrow> gfail e
          | Inr v \<Rightarrow> if 0 \<le> v then test v else gfail (Bpf_error (''unknown protocol: '' @ nm) [])) in
      if q_addr q = Q_NET then
        (let addr = pcap_nametonetaddr db nm in
         if addr = 0 then gfail (Bpf_error (''unknown network '' @ quoted nm []) [])
         else let (n, msk) = justify_net addr 0xffffffff in den_host hp n msk proto dir (q_addr q))
      else if q_addr q \<in> {Q_DEFAULT, Q_HOST} then
        (if proto = Q_LINK then
           den_link_host fddipad (\<lambda>kind. case pcap_ether_hostton (db_ethers db) nm of
               None \<Rightarrow> Inl (Bpf_error (''unknown '' @ kind @ '' host '' @ quoted nm []) [])
             | Some a \<Rightarrow> Inr a) dir
             ''only ethernet/FDDI/token ring/802.11/ATM LANE/Fibre Channel supports link-level host name''
         else if proto = Q_DECNET then
           gfail (Bpf_error (''decnet name support not included, '' @ quoted nm ('' cannot be translated'' @ [CHR 0x0A])) [])
         else den_named_host db hp nm q)
      else if q_addr q = Q_PORT then den_named_port db hp nm q
      else if q_addr q = Q_PORTRANGE then den_named_portrange db hp nm q
      else if q_addr q = Q_GATEWAY then
        gfail (Bpf_error (quoted ''gateway'' '' not supported in this configuration'') [])
      else if q_addr q = Q_PROTO then protocol (\<lambda>v. den_proto hp v proto dir)
      else if q_addr q = Q_PROTOCHAIN then gfail Aborts
      else if q_addr q = Q_UNDEF then syntax_error
      else gfail Aborts)"

text \<open>A name stands for as many hosts as the database has addresses for it.\<close>

definition addresses_of :: "databases \<Rightarrow> string \<Rightarrow> nat" where
  "addresses_of db nm = (case db_addrinfo db nm of Some as \<Rightarrow> length as | None \<Rightarrow> 0)"

lemma builds_named_host [builds]:
  "builds (504 * addresses_of db nm) (named_host db hp nm q) (den_named_host db hp nm q)"
proof (cases "db_addrinfo db nm")
  case None
  then show ?thesis by (simp add: named_host_def den_named_host_def builds_mono [OF builds_fail])
next
  case (Some as)
  show ?thesis
  proof (cases as)
    case Nil
    then show ?thesis using Some by (simp add: named_host_def den_named_host_def builds_mono [OF builds_fail])
  next
    case (Cons a bs)
    have each: "builds (504 * length xs)
      (case xs of [] \<Rightarrow> gfail e | b # bs \<Rightarrow> or_each (address_test hp p p6 dir ty b) (map (address_test hp p p6 dir ty) bs))
      (case xs of [] \<Rightarrow> gfail e | b # bs \<Rightarrow> den_or_each (den_address_test hp p p6 dir ty b) (map (den_address_test hp p p6 dir ty) bs))"
      for xs e p p6 dir ty
      using builds_or_each [OF builds_address_test [of hp p p6 dir ty "hd xs"] builds_address_test [of hp p p6 dir ty], of "tl xs"]
      by (cases xs) (simp_all add: builds_mono [OF builds_fail] algebra_simps)
    have n: "addresses_of db nm = length (a # bs)" using Some Cons by (simp add: addresses_of_def)
    show ?thesis
      unfolding named_host_def den_named_host_def Some Cons option.case list.case Let_def n
      by (rule builds_layout, rule builds_mono [OF each], rule mult_le_mono2, rule length_filter_le)
  qed
qed

lemma builds_scode [builds]:
  assumes "q_addr q \<noteq> Q_PROTOCHAIN"
  shows "builds (504 * Suc (addresses_of db nm)) (gen_scode db hp fddipad nm q) (den_scode db hp fddipad nm q)"
  unfolding gen_scode_def den_scode_def Let_def if_not_P [OF assms]
  by (rule builds_mono) (rule builds | simp)+

end
