(* ===== verification/Layer_Tests.thy ===== *)
theory Layer_Tests
  imports Gencode_Layers Host_Tests
begin

unbundle bit_operations_syntax

text \<open>
  What the tests of Gencode_Layers decide, and that the generated blocks decide it and move the
  offsets as the denotation says.
\<close>

lemma flat_moves [simp]:
  "flat l \<Longrightarrow> flat (lane_layout l)" "flat l \<Longrightarrow> flat (skip_vlan_tag l)" "flat l \<Longrightarrow> flat (into_mpls l)"
  "flat l \<Longrightarrow> flat (into_pppoe l)" "flat (l\<lparr>vlan_stack_depth := n\<rparr>) = flat l"
  "flat l \<Longrightarrow> flat (l\<lparr>linktype := prevlinktype l\<rparr>)"
  by (simp_all add: flat_def lane_layout_def skip_vlan_tag_def into_mpls_def into_pppoe_def push_linkhdr_def Let_def)

lemma builds_netmask [builds]:
  "(\<And>x. builds k (m x) (d x)) \<Longrightarrow> builds k (gbind (gget cs_netmask) m) (gbind (gget g_netmask) d)"
  by (rule builds_get) simp_all

definition den_raw_atm_only :: "string \<Rightarrow> test den \<Rightarrow> test den" where
  "den_raw_atm_only name m =
     gbind (gget g_layout) (\<lambda>l.
       if \<not> is_atm l then gfail (Bpf_error (quoted name '' supported only on raw ATM'') []) else m)"

definition den_mtp2_only :: "string \<Rightarrow> string \<Rightarrow> test den \<Rightarrow> test den" where
  "den_mtp2_only name kind m =
     gbind (gget g_layout) (\<lambda>l.
       if linktype l \<notin> {DLT_MTP2, DLT_ERF, DLT_MTP2_WITH_PHDR}
       then gfail (Bpf_error (quoted name ('' supported only on '' @ kind)) []) else m)"

definition den_ss7_field :: "string \<Rightarrow> u32 \<Rightarrow> u32 \<Rightarrow> u32 \<Rightarrow> test den \<Rightarrow> test den" where
  "den_ss7_field name off v limit m =
     (if off = - 1 then gfail (Bpf_error (quoted name '' supported only on SS7'') [])
      else if limit < v then gfail (Bpf_error (name @ '' value %u too big; max value = %u'') [uint v, uint limit])
      else m)"

lemma builds_guards [builds]:
  assumes "builds k m d"
  shows "builds k (raw_atm_only name m) (den_raw_atm_only name d)"
    "builds k (mtp2_only name kind m) (den_mtp2_only name kind d)"
    "builds k (ss7_field name off v limit m) (den_ss7_field name off v limit d)"
proof -
  show "builds k (raw_atm_only name m) (den_raw_atm_only name d)"
    unfolding raw_atm_only_def den_raw_atm_only_def by (rule builds_mono) (rule builds assms | simp)+
  show "builds k (mtp2_only name kind m) (den_mtp2_only name kind d)"
    unfolding mtp2_only_def den_mtp2_only_def by (rule builds_mono) (rule builds assms | simp)+
  show "builds k (ss7_field name off v limit m) (den_ss7_field name off v limit d)"
    unfolding ss7_field_def den_ss7_field_def by (rule builds_mono) (rule builds assms | simp)+
qed

definition den_atm_circuit :: "u32 \<Rightarrow> test den" where
  "den_atm_circuit vci =
     den_and (den_atmfield_code A_VPI 0 Jeq False) (den_atmfield_code A_VCI vci Jeq False)"

lemma builds_atm_circuit [builds]: "builds 12 (atm_circuit vci) (den_atm_circuit vci)"
  unfolding atm_circuit_def den_atm_circuit_def
  by (rule builds_mono) (rule builds | simp)+

definition den_atmtype_abbrev :: "int \<Rightarrow> test den" where
  "den_atmtype_abbrev ty =
     (case map_of
        [(A_METAC, ''metac'', 1), (A_BCC, ''bcc'', 2), (A_OAMF4SC, ''oam4sc'', 3), (A_OAMF4EC, ''oam4ec'', 4),
         (A_SC, ''sc'', 5), (A_ILMIC, ''ilmic'', 16)] ty of
        Some (name, vci) \<Rightarrow> den_raw_atm_only name (den_atm_circuit vci)
      | None \<Rightarrow>
          if ty = A_LANE then
            den_raw_atm_only ''lane'' (den_then_layout (den_atmfield_code A_PROTOTYPE PT_LANE Jeq False) lane_layout)
          else if ty = A_LLC then
            den_raw_atm_only ''llc'' (den_then_layout (den_atmfield_code A_PROTOTYPE PT_LLC Jeq False)
              (\<lambda>l. l\<lparr>linktype := prevlinktype l\<rparr>))
          else gfail Aborts)"

lemma builds_atmtype_abbrev [builds]: "builds 12 (gen_atmtype_abbrev ty) (den_atmtype_abbrev ty)"
  unfolding gen_atmtype_abbrev_def den_atmtype_abbrev_def
  by (rule builds_mono) (rule builds | simp)+

definition den_msg_abbrev :: "int \<Rightarrow> test den" where
  "den_msg_abbrev ty =
     (case map_of [(A_SETUP, 0x05), (A_CALLPROCEED, 0x02), (A_CONNECT, 0x07), (A_CONNECTACK, 0x0f),
        (A_RELEASE, 0x4d), (A_RELEASE_DONE, 0x5a)] ty of
        Some v \<Rightarrow> den_atmfield_code A_MSGTYPE v Jeq False
      | None \<Rightarrow> gfail Aborts)"

lemma builds_msg_abbrev [builds]: "builds 6 (gen_msg_abbrev ty) (den_msg_abbrev ty)"
  unfolding gen_msg_abbrev_def den_msg_abbrev_def
  by (rule builds_mono) (rule builds | simp)+

definition den_atm_oamf4 :: "test den" where
  "den_atm_oamf4 =
     den_raw_atm_only ''oamf4''
       (den_and_before
         (den_or (den_atmfield_code A_VCI 3 Jeq False) (den_atmfield_code A_VCI 4 Jeq False))
         (den_atmfield_code A_VPI 0 Jeq False))"

lemma builds_atm_oamf4 [builds]: "builds 18 atm_oamf4 den_atm_oamf4"
  unfolding atm_oamf4_def den_atm_oamf4_def
  by (rule builds_mono) (rule builds | simp)+

definition den_atmmulti_abbrev :: "int \<Rightarrow> test den" where
  "den_atmmulti_abbrev ty =
     (if ty = A_OAM then den_raw_atm_only ''oam'' den_atm_oamf4
      else if ty = A_OAMF4 then den_atm_oamf4
      else if ty = A_CONNECTMSG then
        den_raw_atm_only ''connectmsg''
          (den_and_before
            (den_or_before (den_or_before (den_or_before (den_or_before
              (den_or (den_msg_abbrev A_SETUP) (den_msg_abbrev A_CALLPROCEED))
              (den_msg_abbrev A_CONNECT)) (den_msg_abbrev A_CONNECTACK)) (den_msg_abbrev A_RELEASE))
              (den_msg_abbrev A_RELEASE_DONE))
            (den_atmtype_abbrev A_SC))
      else if ty = A_METACONNECT then
        den_raw_atm_only ''metaconnect''
          (den_and_before
            (den_or_before (den_or_before (den_or_before
              (den_or (den_msg_abbrev A_SETUP) (den_msg_abbrev A_CALLPROCEED))
              (den_msg_abbrev A_CONNECT)) (den_msg_abbrev A_RELEASE)) (den_msg_abbrev A_RELEASE_DONE))
            (den_atmtype_abbrev A_METAC))
      else gfail Aborts)"

lemma builds_atmmulti_abbrev [builds]: "builds 48 (gen_atmmulti_abbrev ty) (den_atmmulti_abbrev ty)"
  unfolding gen_atmmulti_abbrev_def den_atmmulti_abbrev_def
  by (rule builds_mono) (rule builds | simp)+

definition den_mtp2_li :: "u32 \<Rightarrow> cmp \<Rightarrow> bool \<Rightarrow> test den" where
  "den_mtp2_li v c rvs = gbind (gget g_layout) (\<lambda>l. den_ncmp OR_PACKET (off_li l) SzB 0x3f c rvs v)"

lemma builds_mtp2_li [builds]: "jt = cmp_code c \<Longrightarrow> builds 6 (mtp2_li v jt rvs) (den_mtp2_li v c rvs)"
  unfolding mtp2_li_def den_mtp2_li_def
  by (rule builds_mono) (rule builds | simp)+

definition den_mtp2_li_hsl :: "u32 \<Rightarrow> cmp \<Rightarrow> bool \<Rightarrow> test den" where
  "den_mtp2_li_hsl v c rvs = gbind (gget g_layout) (\<lambda>l. den_ncmp OR_PACKET (off_li_hsl l) SzH 0xff80 c rvs v)"

lemma builds_mtp2_li_hsl [builds]: "jt = cmp_code c \<Longrightarrow> builds 6 (mtp2_li_hsl v jt rvs) (den_mtp2_li_hsl v c rvs)"
  unfolding mtp2_li_hsl_def den_mtp2_li_hsl_def
  by (rule builds_mono) (rule builds | simp)+

definition den_mtp2type_abbrev :: "int \<Rightarrow> test den" where
  "den_mtp2type_abbrev ty =
     (if ty = 22 then den_mtp2_only ''fisu'' ''MTP2'' (den_mtp2_li 0 Jeq False)
      else if ty = 23 then den_mtp2_only ''lssu'' ''MTP2'' (den_and_before (den_mtp2_li 2 Jgt True) (den_mtp2_li 0 Jgt False))
      else if ty = 24 then den_mtp2_only ''msu'' ''MTP2'' (den_mtp2_li 2 Jgt False)
      else if ty = 25 then den_mtp2_only ''hfisu'' ''MTP2_HSL'' (den_mtp2_li_hsl 0 Jeq False)
      else if ty = 26 then
        den_mtp2_only ''hlssu'' ''MTP2_HSL'' (den_and_before (den_mtp2_li_hsl 0x0100 Jgt True) (den_mtp2_li_hsl 0 Jgt False))
      else if ty = 27 then den_mtp2_only ''hmsu'' ''MTP2_HSL'' (den_mtp2_li_hsl 0x0100 Jgt False)
      else gfail Aborts)"

lemma builds_mtp2type_abbrev [builds]: "builds 12 (gen_mtp2type_abbrev ty) (den_mtp2type_abbrev ty)"
  unfolding gen_mtp2type_abbrev_def den_mtp2type_abbrev_def
  by (rule builds_mono) (rule builds | simp)+

definition den_mtp3field_code :: "int \<Rightarrow> u32 \<Rightarrow> cmp \<Rightarrow> bool \<Rightarrow> test den" where
  "den_mtp3field_code fld v c rvs =
     gbind (gget g_layout) (\<lambda>l.
       let more_off = (if fld \<in> {5, 6, 7, 8} then 3 else 0) in
       if fld \<in> {1, 5} then
         den_ss7_field ''sio'' (off_sio l) v 255
           (den_ncmp OR_PACKET (off_sio l + more_off) SzB 0xffffffff c rvs v)
       else if fld \<in> {2, 6} then
         den_ss7_field ''opc'' (off_opc l) v 16383
           (den_ncmp OR_PACKET (off_opc l + more_off) SzW 0x00c0ff0f c rvs (opc_bits v))
       else if fld \<in> {3, 7} then
         den_ss7_field ''dpc'' (off_dpc l) v 16383
           (den_ncmp OR_PACKET (off_dpc l + more_off) SzW 0xff3f0000 c rvs (dpc_bits v))
       else if fld \<in> {4, 8} then
         den_ss7_field ''sls'' (off_sls l) v 15
           (den_ncmp OR_PACKET (off_sls l + more_off) SzB 0xf0 c rvs (push_bit 4 v))
       else gfail Aborts)"

lemma builds_mtp3field_code [builds]: "jt = cmp_code c \<Longrightarrow> builds 6 (gen_mtp3field_code fld v jt rvs) (den_mtp3field_code fld v c rvs)"
  unfolding gen_mtp3field_code_def den_mtp3field_code_def Let_def
  by (rule builds_mono) (rule builds | simp)+

definition den_llc :: "test den" where
  "den_llc =
     gbind (gget g_layout) (\<lambda>l.
       if linktype l = DLT_EN10MB then
         den_and (den_not (den_cmp_gt OR_LINKTYPE 0 SzH (word_of_int ETHERMTU)))
           (den_not (den_cmp OR_LLC 0 SzH 0xFFFF))
       else if linktype l = DLT_SUNATM then den_atmtype_abbrev A_LLC
       else if linktype l \<in> {DLT_IEEE802, DLT_FDDI, DLT_ATM_RFC1483} then den_true
       else if linktype l \<in> {DLT_IEEE802_11, DLT_PRISM_HEADER, DLT_IEEE802_11_RADIO, DLT_IEEE802_11_RADIO_AVS, DLT_PPI}
       then den_check_802_11_data_frame
       else gfail (Bpf_error (quoted ''llc'' '' not supported for linktype %d'') [linktype l]))"

lemma builds_llc [builds]: "builds 12 gen_llc den_llc"
  unfolding gen_llc_def den_llc_def
  by (rule builds_mono) (rule builds | simp)+

definition den_llc_i :: "test den" where
  "den_llc_i = den_and den_llc (den_not (den_jset OR_LLC 2 SzB 0x01))"

lemma builds_llc_i [builds]: "builds 17 gen_llc_i den_llc_i"
  unfolding gen_llc_i_def den_llc_i_def
  by (rule builds_mono) (rule builds | simp)+

definition den_llc_s :: "test den" where
  "den_llc_s = den_and den_llc (den_mcmp OR_LLC 2 SzB 1 0x03)"

lemma builds_llc_s [builds]: "builds 18 gen_llc_s den_llc_s"
  unfolding gen_llc_s_def den_llc_s_def
  by (rule builds_mono) (rule builds | simp)+

definition den_llc_u :: "test den" where
  "den_llc_u = den_and den_llc (den_mcmp OR_LLC 2 SzB 3 0x03)"

lemma builds_llc_u [builds]: "builds 18 gen_llc_u den_llc_u"
  unfolding gen_llc_u_def den_llc_u_def
  by (rule builds_mono) (rule builds | simp)+

definition den_llc_s_subtype :: "u32 \<Rightarrow> test den" where
  "den_llc_s_subtype subtype = den_and den_llc (den_mcmp OR_LLC 2 SzB subtype 0x0f)"

lemma builds_llc_s_subtype [builds]: "builds 18 (gen_llc_s_subtype subtype) (den_llc_s_subtype subtype)"
  unfolding gen_llc_s_subtype_def den_llc_s_subtype_def
  by (rule builds_mono) (rule builds | simp)+

definition den_llc_u_subtype :: "u32 \<Rightarrow> test den" where
  "den_llc_u_subtype subtype = den_and den_llc (den_mcmp OR_LLC 2 SzB subtype 0xef)"

lemma builds_llc_u_subtype [builds]: "builds 18 (gen_llc_u_subtype subtype) (den_llc_u_subtype subtype)"
  unfolding gen_llc_u_subtype_def den_llc_u_subtype_def
  by (rule builds_mono) (rule builds | simp)+

definition den_p80211_type :: "u32 \<Rightarrow> u32 \<Rightarrow> test den" where
  "den_p80211_type ty msk =
     gbind (gget g_layout) (\<lambda>l.
       if linktype l \<in> {DLT_IEEE802_11, DLT_PRISM_HEADER, DLT_IEEE802_11_RADIO_AVS, DLT_IEEE802_11_RADIO}
       then den_mcmp OR_LINKHDR 0 SzB ty msk
       else gfail (Bpf_error ''802.11 link-layer types supported only on 802.11'' []))"

lemma builds_p80211_type [builds]: "builds 6 (gen_p80211_type ty msk) (den_p80211_type ty msk)"
  unfolding gen_p80211_type_def den_p80211_type_def
  by (rule builds_mono) (rule builds | simp)+

definition den_p80211_fcdir :: "u32 \<Rightarrow> test den" where
  "den_p80211_fcdir fcdir =
     gbind (gget g_layout) (\<lambda>l.
       if linktype l \<in> {DLT_IEEE802_11, DLT_PRISM_HEADER, DLT_IEEE802_11_RADIO_AVS, DLT_IEEE802_11_RADIO}
       then den_mcmp OR_LINKHDR 1 SzB fcdir IEEE80211_FC1_DIR_MASK
       else gfail (Bpf_error ''frame direction supported only with 802.11 headers'' []))"

lemma builds_p80211_fcdir [builds]: "builds 6 (gen_p80211_fcdir fcdir) (den_p80211_fcdir fcdir)"
  unfolding gen_p80211_fcdir_def den_p80211_fcdir_def
  by (rule builds_mono) (rule builds | simp)+

definition den_vlan_bpf_extensions :: "u32 \<Rightarrow> u32 \<Rightarrow> int \<Rightarrow> test den" where
  "den_vlan_bpf_extensions tag present vlan_num =
     (if 0 \<le> vlan_num then
        den_and (den_cmp OR_PACKET present SzB 1) (den_cmp OR_PACKET tag SzB (word_of_int vlan_num))
      else den_cmp OR_PACKET present SzB 1)"

lemma builds_vlan_bpf_extensions [builds]: "builds 12 (gen_vlan_bpf_extensions tag present vlan_num) (den_vlan_bpf_extensions tag present vlan_num)"
  unfolding gen_vlan_bpf_extensions_def den_vlan_bpf_extensions_def
  by (rule builds_mono) (rule builds | simp)+

definition den_vlan_no_bpf_extensions :: "host \<Rightarrow> int \<Rightarrow> test den" where
  "den_vlan_no_bpf_extensions hp vlan_num =
     (let tagged = den_or (den_linktype hp ETHERTYPE_8021Q) (den_linktype hp ETHERTYPE_8021QINQ) in
      den_then_layout
        (if 0 \<le> vlan_num then den_and tagged (den_mcmp OR_LINKPL 0 SzH (word_of_int vlan_num) 0x0fff)
         else tagged)
        skip_vlan_tag)"

lemma builds_vlan_no_bpf_extensions [builds]: "builds 162 (gen_vlan_no_bpf_extensions hp vlan_num) (den_vlan_no_bpf_extensions hp vlan_num)"
  unfolding gen_vlan_no_bpf_extensions_def den_vlan_no_bpf_extensions_def Let_def
  by (rule builds_mono) (rule builds | simp)+

definition den_vlan :: "host \<Rightarrow> int \<Rightarrow> test den" where
  "den_vlan hp vlan_num =
     gbind (gget g_layout) (\<lambda>l.
       if 0 < label_stack_depth l then gfail (Bpf_error ''no VLAN match after MPLS'' [])
       else den_then_layout
         (if linktype l \<in> {DLT_EN10MB, DLT_NETANALYZER, DLT_NETANALYZER_TRANSPARENT} then
            (case h_vlan_tag hp of
               None \<Rightarrow> den_vlan_no_bpf_extensions hp vlan_num
             | Some offs \<Rightarrow>
                 if outermost_vlan l \<and> h_special_vlan hp
                 then den_vlan_bpf_extensions (fst offs) (snd offs) vlan_num
                 else den_vlan_no_bpf_extensions hp vlan_num)
          else if linktype l \<in> {DLT_IEEE802_11, DLT_PRISM_HEADER, DLT_IEEE802_11_RADIO_AVS, DLT_IEEE802_11_RADIO}
          then den_vlan_no_bpf_extensions hp vlan_num
          else gfail (Bpf_error ''no VLAN support for data link type %d'' [linktype l]))
         (\<lambda>l. l\<lparr>vlan_stack_depth := vlan_stack_depth l + 1\<rparr>))"

lemma builds_vlan [builds]: "builds 162 (gen_vlan hp vlan_num) (den_vlan hp vlan_num)"
  unfolding gen_vlan_def den_vlan_def
  by (rule builds_mono) (rule builds | simp)+

definition den_mpls :: "host \<Rightarrow> int \<Rightarrow> test den" where
  "den_mpls hp label_num =
     (let inside = gbind (gget g_layout) (\<lambda>l.
        if 0 < label_stack_depth l then den_mcmp OR_PREVMPLSHDR 2 SzB 0 0x01
        else if linktype l \<in> {DLT_C_HDLC, DLT_EN10MB, DLT_NETANALYZER, DLT_NETANALYZER_TRANSPARENT}
        then den_linktype hp ETHERTYPE_MPLS
        else if linktype l = DLT_PPP then den_linktype hp PPP_MPLS_UCAST
        else gfail (Bpf_error ''no MPLS support for data link type %d'' [linktype l])) in
      den_then_layout
        (if 0 \<le> label_num
         then den_and inside (den_mcmp OR_LINKPL 0 SzW (push_bit 12 (word_of_int label_num)) 0xfffff000)
         else inside)
        into_mpls)"

lemma builds_mpls [builds]: "builds 84 (gen_mpls hp label_num) (den_mpls hp label_num)"
  unfolding gen_mpls_def den_mpls_def Let_def
  by (rule builds_mono) (rule builds | simp)+

definition den_pppoed :: "host \<Rightarrow> test den" where
  "den_pppoed hp = den_linktype hp ETHERTYPE_PPPOED"

lemma builds_pppoed [builds]: "builds 78 (gen_pppoed hp) (den_pppoed hp)"
  unfolding gen_pppoed_def den_pppoed_def
  by (rule builds_mono) (rule builds | simp)+

definition den_pppoes :: "host \<Rightarrow> int \<Rightarrow> test den" where
  "den_pppoes hp sess_num =
     den_then_layout
       (if 0 \<le> sess_num
        then den_and (den_linktype hp ETHERTYPE_PPPOES) (den_mcmp OR_LINKPL 0 SzW (word_of_int sess_num) 0x0000ffff)
        else den_linktype hp ETHERTYPE_PPPOES)
       into_pppoe"

lemma builds_pppoes [builds]: "builds 84 (gen_pppoes hp sess_num) (den_pppoes hp sess_num)"
  unfolding gen_pppoes_def den_pppoes_def
  by (rule builds_mono) (rule builds | simp)+

definition den_broadcast_link :: "host \<Rightarrow> test den" where
  "den_broadcast_link hp =
     gbind (gget g_layout) (\<lambda>l.
       let ebroadcast = replicate 6 0xff in
       if linktype l \<in> {DLT_ARCNET, DLT_ARCNET_LINUX} then den_ahostop [0] Q_DST
       else if linktype l \<in> {DLT_EN10MB, DLT_NETANALYZER, DLT_NETANALYZER_TRANSPARENT} then
         den_opt_and den_prevlinkhdr_check (den_ehostop ebroadcast Q_DST)
       else if linktype l = DLT_FDDI then den_fhostop (h_fddipad hp) ebroadcast Q_DST
       else if linktype l = DLT_IEEE802 then den_thostop ebroadcast Q_DST
       else if linktype l \<in> {DLT_IEEE802_11, DLT_PRISM_HEADER, DLT_IEEE802_11_RADIO_AVS, DLT_IEEE802_11_RADIO, DLT_PPI}
       then den_wlanhostop ebroadcast Q_DST
       else if linktype l = DLT_IP_OVER_FC then den_ipfchostop ebroadcast Q_DST
       else gfail (Bpf_error ''not a broadcast link'' []))"

lemma builds_broadcast_link [builds]: "builds 312 (broadcast_link hp) (den_broadcast_link hp)"
  unfolding broadcast_link_def den_broadcast_link_def Let_def
  by (rule builds_mono) (rule builds | simp)+

definition den_broadcast :: "host \<Rightarrow> int \<Rightarrow> test den" where
  "den_broadcast hp proto =
     (if proto \<in> {Q_DEFAULT, Q_LINK} then den_broadcast_link hp
      else if proto = Q_IP then
        gbind (gget g_netmask) (\<lambda>netmask.
          if netmask = 0xffffffff
          then gfail (Bpf_error (''netmask not known, so '' @ quoted ''ip broadcast'' '' not supported'') [])
          else den_and (den_linktype hp ETHERTYPE_IP)
            (den_or (den_mcmp OR_LINKPL 16 SzW 0 (NOT netmask))
              (den_mcmp OR_LINKPL 16 SzW (NOT 0 AND NOT netmask) (NOT netmask))))
      else gfail (Bpf_error ''only link-layer/IP broadcast filters supported'' []))"

lemma builds_broadcast [builds]: "builds 312 (gen_broadcast hp proto) (den_broadcast hp proto)"
  unfolding gen_broadcast_def den_broadcast_def
  by (rule builds_mono) (rule builds | simp)+

definition den_mac_multicast :: "u32 \<Rightarrow> test den" where
  "den_mac_multicast offset = den_jset OR_LINKHDR offset SzB 1"

lemma builds_mac_multicast [builds]: "builds 5 (gen_mac_multicast offset) (den_mac_multicast offset)"
  unfolding gen_mac_multicast_def den_mac_multicast_def
  by (rule builds_mono) (rule builds | simp)+

definition den_multicast :: "host \<Rightarrow> int \<Rightarrow> test den" where
  "den_multicast hp proto =
     gbind (gget g_layout) (\<lambda>l.
       let unsupported = gfail (Bpf_error (''link-layer multicast filters supported only on '' @
         ''ethernet/FDDI/token ring/ARCNET/802.11/ATM LANE/Fibre Channel'') []) in
       if proto \<in> {Q_DEFAULT, Q_LINK} then
         if linktype l \<in> {DLT_ARCNET, DLT_ARCNET_LINUX} then den_ahostop [0] Q_DST
         else if linktype l \<in> {DLT_EN10MB, DLT_NETANALYZER, DLT_NETANALYZER_TRANSPARENT} then
           den_opt_and den_prevlinkhdr_check (den_mac_multicast 0)
         else if linktype l = DLT_FDDI then den_mac_multicast 1
         else if linktype l = DLT_IEEE802 then den_mac_multicast 2
         else if linktype l \<in> {DLT_IEEE802_11, DLT_PRISM_HEADER, DLT_IEEE802_11_RADIO_AVS, DLT_IEEE802_11_RADIO, DLT_PPI}
         then den_wlan_destination den_mac_multicast
         else if linktype l = DLT_IP_OVER_FC then den_mac_multicast 2
         else unsupported
       else if proto = Q_IP then
         den_and (den_linktype hp ETHERTYPE_IP) (den_cmp_ge OR_LINKPL 16 SzB 224)
       else if proto = Q_IPV6 then
         den_and (den_linktype hp ETHERTYPE_IPV6) (den_cmp OR_LINKPL 24 SzB 255)
       else unsupported)"

lemma builds_multicast [builds]: "builds 84 (gen_multicast hp proto) (den_multicast hp proto)"
  unfolding gen_multicast_def den_multicast_def Let_def
  by (rule builds_mono) (rule builds | simp)+

end
