(* ===== verification/Arith_Code.thy ===== *)
theory Arith_Code
  imports Gencode_Arith Port_Tests
begin

unbundle bit_operations_syntax

text \<open>
  The statements of arithmetic: what a list of statements leaves in the machine (\<open>runs\<close>), and
  the lists of \<open>gen_load\<close>, \<open>gen_arth\<close> and \<open>gen_relation\<close>, which compute values in scratch
  registers and leave alone the registers in use.
\<close>

section \<open>Runs of statements\<close>

definition runs :: "(bpf_vm \<Rightarrow> bool) \<Rightarrow> slist list \<Rightarrow> 'a look \<Rightarrow> ('a \<Rightarrow> bpf_vm \<Rightarrow> bool) \<Rightarrow> bool" where
  "runs C ss w Q \<longleftrightarrow> straight ss \<and> (\<forall>e vm. buffer_ok e \<and> vm_wf vm \<and> C vm \<longrightarrow>
     (case w e of
        Inr r \<Rightarrow> exec_stmts e ss vm = Inr r
      | Inl a \<Rightarrow> \<exists>vm'. exec_stmts e ss vm = Inl vm' \<and> vm_wf vm' \<and> Q a vm'))"

lemma runsE:
  assumes "runs C ss w Q" and "buffer_ok e" and "vm_wf vm" and "C vm"
  obtains r where "w e = Inr r" "exec_stmts e ss vm = Inr r"
    | a vm' where "w e = Inl a" "exec_stmts e ss vm = Inl vm'" "vm_wf vm'" "Q a vm'"
proof -
  have "case w e of Inr r \<Rightarrow> exec_stmts e ss vm = Inr r
      | Inl a \<Rightarrow> \<exists>vm'. exec_stmts e ss vm = Inl vm' \<and> vm_wf vm' \<and> Q a vm'"
    using assms by (simp add: runs_def)
  with that show ?thesis by (auto split: sum.splits)
qed

lemma straight_append: "straight ss \<Longrightarrow> straight ts \<Longrightarrow> straight (ss @ ts)"
  by (simp add: straight_def)

lemma runs_append:
  assumes ss: "runs C ss w P" and ts: "\<And>a. runs (P a) ts (u a) Q"
  shows "runs C (ss @ ts) (look_then w u) Q"
proof -
  have "case look_then w u e of Inr r \<Rightarrow> exec_stmts e (ss @ ts) vm = Inr r
      | Inl b \<Rightarrow> \<exists>vm'. exec_stmts e (ss @ ts) vm = Inl vm' \<and> vm_wf vm' \<and> Q b vm'"
    if vm: "buffer_ok e" "vm_wf vm" "C vm" for e vm
  proof (rule runsE [OF ss vm])
    fix a vm' assume 1: "w e = Inl a" "exec_stmts e ss vm = Inl vm'" "vm_wf vm'" "P a vm'"
    show ?thesis by (rule runsE [OF ts vm(1) 1(3,4)]) (use 1 in \<open>auto simp: look_then_def exec_append\<close>)
  qed (simp add: look_then_def exec_append)
  then show ?thesis using ss ts by (auto simp: runs_def intro: straight_append)
qed

lemma runs_cong:
  "runs C ss w Q \<Longrightarrow> (\<And>vm. C' vm \<Longrightarrow> C vm) \<Longrightarrow> (\<And>a vm. Q a vm \<Longrightarrow> Q' a vm) \<Longrightarrow> runs C' ss w Q'"
  unfolding runs_def by (fastforce split: sum.splits)

lemma runs_start: "straight ss \<Longrightarrow> (\<And>vm1. C vm1 \<Longrightarrow> runs (\<lambda>vm. vm = vm1) ss w Q) \<Longrightarrow> runs C ss w Q"
  by (simp add: runs_def)

lemma look_then_simps [simp]: "look_then (\<lambda>e. Inl a) u = u a"
  by (simp add: look_then_def fun_eq_iff)

text \<open>One statement, by its operation.\<close>

lemma runs_op:
  assumes "straight_op op" and "operand_ok op k"
    and "\<And>e vm. buffer_ok e \<Longrightarrow> vm_wf vm \<Longrightarrow> C vm \<Longrightarrow>
      (case w e of Inr r \<Rightarrow> exec_op e (BPF_STMT (label op) k) vm op = Inr r
       | Inl a \<Rightarrow> \<exists>vm'. exec_op e (BPF_STMT (label op) k) vm op = Inl vm' \<and> vm_wf vm' \<and> Q a vm')"
  shows "runs C [one_stmt a (label op) k] w Q"
  using assms by (fastforce simp: runs_def straight_def simp del: label.simps split: sum.splits)

definition keeps_regs :: "bool list \<Rightarrow> bpf_vm \<Rightarrow> bpf_vm \<Rightarrow> bool" where
  "keeps_regs used vm vm' \<longleftrightarrow> (\<forall>i<BPF_MEMWORDS. used ! i \<longrightarrow> scratch vm' ! i = scratch vm ! i)"

lemma keeps_regs_simps [simp]:
  "keeps_regs used vm vm" "keeps_regs used vm0 (vm\<lparr>reg_A := a\<rparr>) = keeps_regs used vm0 vm"
  "keeps_regs used vm0 (vm\<lparr>reg_X := x\<rparr>) = keeps_regs used vm0 vm"
  "keeps_regs used vm0 (vm\<lparr>pc := p\<rparr>) = keeps_regs used vm0 vm"
  by (simp_all add: keeps_regs_def)

lemma keeps_regs_write: "\<not> used ! r \<Longrightarrow> keeps_regs used vm0 vm \<Longrightarrow>
    keeps_regs used vm0 (vm\<lparr>scratch := (scratch vm)[r := x]\<rparr>)"
  unfolding keeps_regs_def by (simp, metis nth_list_update_neq)

lemma reg_number: "r < BPF_MEMWORDS \<Longrightarrow> unat (of_nat r :: u32) = r"
  by (simp add: unsigned_of_nat take_bit_nat_eq_self)

lemma reg_operand [simp]: "r < BPF_MEMWORDS \<Longrightarrow> (of_nat r :: u32) < 16"
  by (simp add: word_less_nat_alt unat32_of_nat)

lemma runs_ldx_mem:
  assumes "r < BPF_MEMWORDS"
  shows "runs C [one_stmt a (label Ldx_Mem) (of_nat r)] (\<lambda>e. Inl ())
    (\<lambda>_ vm. \<exists>vm0. C vm0 \<and> vm = vm0\<lparr>reg_X := scratch vm0 ! r, pc := pc vm0 + 1\<rparr>)"
  by (rule runs_op) (use assms in \<open>auto simp: set_reg_defs mem_read_def vm_wf_def reg_number simp del: label.simps\<close>)

lemma runs_ld_mem:
  assumes "r < BPF_MEMWORDS"
  shows "runs C [one_stmt a (label Ld_Mem) (of_nat r)] (\<lambda>e. Inl ())
    (\<lambda>_ vm. \<exists>vm0. C vm0 \<and> vm = vm0\<lparr>reg_A := scratch vm0 ! r, pc := pc vm0 + 1\<rparr>)"
  by (rule runs_op) (use assms in \<open>auto simp: set_reg_defs mem_read_def vm_wf_def reg_number simp del: label.simps\<close>)

lemma runs_st:
  assumes "r < BPF_MEMWORDS" and "\<And>vm. C vm \<Longrightarrow> reg_A vm = x"
  shows "runs C [one_stmt a (label St) (of_nat r)] (\<lambda>e. Inl x)
    (\<lambda>y vm. y = x \<and> (\<exists>vm0. C vm0 \<and> vm = vm0\<lparr>scratch := (scratch vm0)[r := x], pc := pc vm0 + 1\<rparr> \<and> vm_wf vm0))"
  by (rule runs_op)
    (use assms in \<open>auto simp: set_reg_defs mem_write_def vm_wf_def reg_number simp del: label.simps\<close>)

section \<open>Values in registers\<close>

text \<open>\<open>ss\<close> leaves the value \<open>v\<close> in register \<open>r\<close> and the registers in use as they were.\<close>

definition evals :: "bool list \<Rightarrow> slist list \<Rightarrow> u32 look \<Rightarrow> nat \<Rightarrow> bool" where
  "evals used ss v r \<longleftrightarrow> r < BPF_MEMWORDS \<and>
     (\<forall>vm0. runs (\<lambda>vm. vm = vm0) ss v (\<lambda>x vm. scratch vm ! r = x \<and> keeps_regs used vm0 vm))"

lemma evals_store:
  assumes r: "r < BPF_MEMWORDS" "\<not> used ! r"
    and ss: "\<And>vm0. runs (\<lambda>vm. vm = vm0) ss v (\<lambda>x vm. reg_A vm = x \<and> keeps_regs used vm0 vm)"
  shows "evals used (ss @ [one_stmt a (label St) (of_nat r)]) v r"
  unfolding evals_def
proof (intro conjI allI)
  fix vm0
  have "runs (\<lambda>vm. vm = vm0) (ss @ [one_stmt a (label St) (of_nat r)]) (look_then v (\<lambda>x e. Inl x))
      (\<lambda>x vm. scratch vm ! r = x \<and> keeps_regs used vm0 vm)"
  proof (rule runs_append [OF ss])
    fix x
    show "runs (\<lambda>vm. reg_A vm = x \<and> keeps_regs used vm0 vm) [one_stmt a (label St) (of_nat r)] (\<lambda>e. Inl x)
        (\<lambda>x vm. scratch vm ! r = x \<and> keeps_regs used vm0 vm)"
      by (rule runs_cong [OF runs_st [where C = "\<lambda>vm. reg_A vm = x \<and> keeps_regs used vm0 vm", OF r(1)]])
        (use r in \<open>auto simp: vm_wf_def intro: keeps_regs_write\<close>)
  qed
  moreover have "look_then v (\<lambda>x e. Inl x) = v" by (simp add: look_then_def fun_eq_iff split: sum.split)
  ultimately show "runs (\<lambda>vm. vm = vm0) (ss @ [one_stmt a (label St) (of_nat r)]) v
      (\<lambda>x vm. scratch vm ! r = x \<and> keeps_regs used vm0 vm)" by simp
qed (rule r)

text \<open>Two values, the second in the index register and the first in the accumulator.\<close>

definition pair_look :: "'a look \<Rightarrow> 'b look \<Rightarrow> ('a \<times> 'b) look" where
  "pair_look v w = look_then v (\<lambda>x. look_map (Pair x) w)"

lemma runs_map: "runs C ss w (\<lambda>a. Q (f a)) \<Longrightarrow> runs C ss (look_map f w) Q"
  unfolding runs_def look_map_def by (fastforce split: sum.splits)

lemma look_then_pair [simp]: "look_then (pair_look v w) (\<lambda>p e. Inl p) = pair_look v w"
  by (simp add: pair_look_def look_then_def look_map_def fun_eq_iff split: sum.split)

lemma two_loaded:
  assumes 0: "evals used ss0 v0 r0" "\<not> used ! r0" and 1: "evals (used[r0 := True]) ss1 v1 r1"
    and len: "length used = BPF_MEMWORDS"
  shows "runs (\<lambda>vm. vm = vm0)
    (ss0 @ ss1 @ [one_stmt a (label Ldx_Mem) (of_nat r1)] @ [one_stmt b (label Ld_Mem) (of_nat r0)])
    (pair_look v0 v1) (\<lambda>(x, y) vm. reg_A vm = x \<and> reg_X vm = y \<and> keeps_regs used vm0 vm)"
proof -
  have r: "r0 < BPF_MEMWORDS" "r1 < BPF_MEMWORDS" using 0 1 by (simp_all add: evals_def)
  let ?P = "\<lambda>x y vm. scratch vm ! r0 = x \<and> scratch vm ! r1 = y \<and> keeps_regs used vm0 vm"
  have both: "runs (\<lambda>vm. vm = vm0) (ss0 @ ss1) (pair_look v0 v1) (\<lambda>(x, y). ?P x y)"
    unfolding pair_look_def
  proof (rule runs_append)
    show "runs (\<lambda>vm. vm = vm0) ss0 v0 (\<lambda>x vm. scratch vm ! r0 = x \<and> keeps_regs used vm0 vm)"
      using 0 by (simp add: evals_def)
    fix x
    have keep: "?P x y vm" if "scratch vm1 ! r0 = x \<and> keeps_regs used vm0 vm1"
      "scratch vm ! r1 = y \<and> keeps_regs (used[r0 := True]) vm1 vm" for vm1 vm y
    proof -
      have "scratch vm ! r0 = scratch vm1 ! r0" using that(2) r len by (simp add: keeps_regs_def)
      moreover have "scratch vm ! i = scratch vm1 ! i" if "i < BPF_MEMWORDS" "used ! i" for i
        using that \<open>scratch vm ! r1 = y \<and> keeps_regs (used[r0 := True]) vm1 vm\<close> len
        by (cases "i = r0") (auto simp: keeps_regs_def)
      ultimately show ?thesis using that by (simp add: keeps_regs_def)
    qed
    have one: "runs (\<lambda>vm. vm = vm1) ss1 v1 (\<lambda>y vm. scratch vm ! r1 = y \<and> keeps_regs (used[r0 := True]) vm1 vm)" for vm1
      using 1 by (simp add: evals_def)
    have "runs (\<lambda>vm. scratch vm ! r0 = x \<and> keeps_regs used vm0 vm) ss1 v1 (?P x)"
    proof (rule runs_start)
      show "straight ss1" using one [of undefined] by (simp add: runs_def)
      fix vm1 assume "scratch vm1 ! r0 = x \<and> keeps_regs used vm0 vm1"
      then show "runs (\<lambda>vm. vm = vm1) ss1 v1 (?P x)" by (intro runs_cong [OF one] keep)
    qed
    then show "runs (\<lambda>vm. scratch vm ! r0 = x \<and> keeps_regs used vm0 vm) ss1 (look_map (Pair x) v1) (\<lambda>(x, y). ?P x y)"
      by (rule runs_map [of _ _ _ "\<lambda>(x, y). ?P x y" "Pair x", simplified])
  qed
  have "runs (case p of (x, y) \<Rightarrow> ?P x y)
      ([one_stmt a (label Ldx_Mem) (of_nat r1)] @ [one_stmt b (label Ld_Mem) (of_nat r0)])
      (\<lambda>e. Inl p) (\<lambda>(x, y) vm. reg_A vm = x \<and> reg_X vm = y \<and> keeps_regs used vm0 vm)" for p
  proof -
    obtain x y where p: "p = (x, y)" by (cases p)
    let ?R = "\<lambda>vm. scratch vm ! r0 = x \<and> reg_X vm = y \<and> keeps_regs used vm0 vm"
    have "runs (?P x y) [one_stmt a (label Ldx_Mem) (of_nat r1)] (\<lambda>e. Inl ()) (\<lambda>_. ?R)"
      by (rule runs_cong [OF runs_ldx_mem [where C = "?P x y", OF r(2)]]) auto
    moreover have "runs ?R [one_stmt b (label Ld_Mem) (of_nat r0)] (\<lambda>e. Inl ())
        (\<lambda>_ vm. reg_A vm = x \<and> reg_X vm = y \<and> keeps_regs used vm0 vm)"
      by (rule runs_cong [OF runs_ld_mem [where C = ?R, OF r(1)]]) auto
    ultimately have "runs (case p of (x, y) \<Rightarrow> ?P x y)
        ([one_stmt a (label Ldx_Mem) (of_nat r1)] @ [one_stmt b (label Ld_Mem) (of_nat r0)])
        (look_then (\<lambda>e. Inl ()) (\<lambda>_ e. Inl ()))
        (\<lambda>_. case p of (x, y) \<Rightarrow> \<lambda>vm. reg_A vm = x \<and> reg_X vm = y \<and> keeps_regs used vm0 vm)"
      unfolding p prod.case by (rule runs_append)
    then have "runs (case p of (x, y) \<Rightarrow> ?P x y)
        ([one_stmt a (label Ldx_Mem) (of_nat r1)] @ [one_stmt b (label Ld_Mem) (of_nat r0)])
        (look_map (\<lambda>_. p) (\<lambda>e. Inl ())) (\<lambda>(x, y) vm. reg_A vm = x \<and> reg_X vm = y \<and> keeps_regs used vm0 vm)"
      by (intro runs_map) (simp add: look_then_def)
    then show ?thesis by simp
  qed
  from runs_append [OF both this] show ?thesis by simp
qed

text \<open>An operation on the two.\<close>

lemma runs_alu:
  "runs (\<lambda>vm. reg_A vm = x \<and> reg_X vm = y \<and> K vm) [one_stmt a (label (Alu op SrcX)) k]
     (\<lambda>e. alu_op op SrcX x y) (\<lambda>z vm. \<exists>vm0. K vm0 \<and> vm = vm0\<lparr>reg_A := z, pc := pc vm0 + 1\<rparr>)"
  by (rule runs_op) (auto simp: set_reg_defs vm_wf_def simp del: label.simps split: sum.split)

definition value2 :: "alu \<Rightarrow> u32 look \<Rightarrow> u32 look \<Rightarrow> u32 look" where
  "value2 op v0 v1 = look_then (pair_look v0 v1) (\<lambda>(x, y) e. alu_op op SrcX x y)"

lemma two_operated:
  assumes "evals used ss0 v0 r0" "\<not> used ! r0" and "evals (used[r0 := True]) ss1 v1 r1"
    and "length used = BPF_MEMWORDS"
  shows "runs (\<lambda>vm. vm = vm0)
    (ss0 @ ss1 @ [one_stmt a (label Ldx_Mem) (of_nat r1)] @ [one_stmt b (label Ld_Mem) (of_nat r0)] @
      [one_stmt c (label (Alu op SrcX)) k])
    (value2 op v0 v1) (\<lambda>z vm. reg_A vm = z \<and> keeps_regs used vm0 vm)"
proof -
  have "runs (\<lambda>vm. vm = vm0)
      ((ss0 @ ss1 @ [one_stmt a (label Ldx_Mem) (of_nat r1)] @ [one_stmt b (label Ld_Mem) (of_nat r0)]) @
        [one_stmt c (label (Alu op SrcX)) k])
      (value2 op v0 v1) (\<lambda>z vm. reg_A vm = z \<and> keeps_regs used vm0 vm)"
    unfolding value2_def
  proof (rule runs_append [OF two_loaded [OF assms]])
    fix p :: "u32 \<times> u32"
    obtain x y where p: "p = (x, y)" by (cases p)
    show "runs (case p of (x, y) \<Rightarrow> \<lambda>vm. reg_A vm = x \<and> reg_X vm = y \<and> keeps_regs used vm0 vm)
        [one_stmt c (label (Alu op SrcX)) k] (case p of (x, y) \<Rightarrow> \<lambda>e. alu_op op SrcX x y)
        (\<lambda>z vm. reg_A vm = z \<and> keeps_regs used vm0 vm)"
      unfolding p prod.case by (rule runs_cong [OF runs_alu [where K = "keeps_regs used vm0"]]) auto
  qed
  then show ?thesis by simp
qed

section \<open>Comparisons\<close>

lemma runs_computes: "(\<And>vm0. runs (\<lambda>vm. vm = vm0) ss v (\<lambda>x vm. reg_A vm = x \<and> K vm0 vm)) \<Longrightarrow> computes ss v"
  unfolding runs_def computes_def by (fastforce split: sum.splits)

lemma runs_branch:
  assumes run: "\<And>vm0. runs (\<lambda>vm. vm = vm0) ss w (\<lambda>(x, y) vm. reg_A vm = x \<and> reg_X vm = y \<and> K vm0 vm)"
  shows "block_decides ss (branch_stmt c SrcX k) (look_map (\<lambda>(x, y). jmp_cond c x y) w)"
proof -
  let ?t = "Branch ss (branch_stmt c SrcX k) (Exit True) (Exit False)"
  have "tree_ok ?t" using run by (simp add: runs_def branch_stmt_def del: label.simps)
  moreover have "case look_map (\<lambda>(x, y). jmp_cond c x y) w e of
      Inr r \<Rightarrow> eval_tree e ?t vm = Inr r
    | Inl x \<Rightarrow> \<exists>vm'. eval_tree e ?t vm = Inl (x, vm') \<and> vm_wf vm'"
    if vm: "buffer_ok e" "vm_wf vm" for e vm
    by (rule runsE [OF run vm refl]) (auto simp: look_map_def branch_cond_stmt split: prod.splits)
  ultimately show ?thesis by (simp add: block_decides_def decides_def)
qed

end
