(* ===== verification/Arith_Tests.thy ===== *)
theory Arith_Tests
  imports Arith_Code
begin

unbundle bit_operations_syntax

text \<open>
  What arithmetic computes: a denotation gives the value as a function of the packet and the
  protocol check that goes with it, and takes scratch registers as the code does.
\<close>

section \<open>Steps from one state\<close>

definition sim_at :: "(cstate \<Rightarrow> 'a \<Rightarrow> 'b \<Rightarrow> bool) \<Rightarrow> 'a gen \<Rightarrow> 'b den \<Rightarrow> cstate \<Rightarrow> bool" where
  "sim_at W m d s \<longleftrightarrow>
     (case d (abs_gen s) of
        Inl err \<Rightarrow> m s = Inl err
      | Inr (q, a) \<Rightarrow> \<exists>r s'. m s = Inr (r, s') \<and> abs_gen s' = a \<and> gen_ok s' \<and> W s' r q)"

lemma sim_iff_at: "sim V m d \<longleftrightarrow> (\<forall>s. gen_ok s \<longrightarrow> sim_at (\<lambda>s' r q. grows s s' \<and> V s s' r q) m d s)"
  by (simp add: sim_def sim_at_def)

lemma sim_atE:
  assumes "sim_at W m d s"
  obtains err where "d (abs_gen s) = Inl err" "m s = Inl err"
    | r q s' where "d (abs_gen s) = Inr (q, abs_gen s')" "m s = Inr (r, s')" "gen_ok s'" "W s' r q"
  using assms by (auto simp: sim_at_def split: sum.splits)

lemma sim_at_bind:
  assumes "sim_at V m d s"
    and "\<And>s' r q. gen_ok s' \<Longrightarrow> V s' r q \<Longrightarrow> sim_at W (f r) (h q) s'"
  shows "sim_at W (gbind m f) (gbind d h) s"
proof (rule sim_atE [OF assms(1)])
  fix r q s' assume 1: "d (abs_gen s) = Inr (q, abs_gen s')" "m s = Inr (r, s')" "gen_ok s'" "V s' r q"
  from assms(2) [OF 1(3,4)] show ?thesis
    by (rule sim_atE) (use 1 in \<open>auto simp: sim_at_def gbind_def\<close>)
qed (simp add: sim_at_def gbind_def)

lemma sim_at_mono: "sim_at V m d s \<Longrightarrow> (\<And>s' r q. V s' r q \<Longrightarrow> W s' r q) \<Longrightarrow> sim_at W m d s"
  by (fastforce simp: sim_at_def split: sum.splits)

lemma sim_at_ret: "gen_ok s \<Longrightarrow> W s r q \<Longrightarrow> sim_at W (gret r) (gret q) s"
  by (simp add: sim_at_def gret_def)

lemma sim_at_fail: "sim_at W (gfail err) (gfail err) s"
  by (simp add: sim_at_def gfail_def)

lemma sim_at_stmt:
  "sim_at W (f [one_stmt (cs_next_addr s) c k]) d (s\<lparr>cs_next_addr := cs_next_addr s + 1\<rparr>) \<Longrightarrow>
     sim_at W (gbind (new_stmt c k) f) d s"
  by (fastforce simp: sim_at_def gbind_def new_stmt_eq grows_def abs_gen_def split: sum.splits prod.splits)

lemma sim_at_layout:
  "sim_at W (m (cs_layout s)) (d (cs_layout s)) s \<Longrightarrow> sim_at W (gbind (gget cs_layout) m) (gbind (gget g_layout) d) s"
  by (fastforce simp: sim_at_def gbind_def gget_def abs_gen_def split: sum.splits prod.splits)

lemma sim_at_den_layout: "sim_at W m (d (cs_layout s)) s \<Longrightarrow> sim_at W m (gbind (gget g_layout) d) s"
  by (simp add: sim_at_def gbind_def gget_def)

lemma sim_at_gen_layout: "sim_at W (m (cs_layout s)) d s \<Longrightarrow> sim_at W (gbind (gget cs_layout) m) d s"
  by (fastforce simp: sim_at_def gbind_def gget_def abs_gen_def split: sum.splits prod.splits)

section \<open>Registers\<close>

lemma alloc_search_None:
  "alloc_search n used cur = (None, c) \<Longrightarrow> cur < BPF_MEMWORDS \<Longrightarrow> j < n \<Longrightarrow> used ! ((cur + j) mod BPF_MEMWORDS)"
proof (induction n arbitrary: cur j)
  case (Suc n)
  show ?case
  proof (cases j)
    case 0
    with Suc.prems show ?thesis by (auto split: if_splits)
  next
    case (Suc i)
    have "used ! (((cur + 1) mod BPF_MEMWORDS + i) mod BPF_MEMWORDS)"
      using Suc.prems Suc by (intro Suc.IH) (auto split: if_splits)
    then show ?thesis using Suc by (simp add: mod_simps)
  qed
qed simp

lemma alloc_search_Some:
  "alloc_search n used cur = (Some r, c) \<Longrightarrow> cur < BPF_MEMWORDS \<Longrightarrow> r < BPF_MEMWORDS \<and> \<not> used ! r \<and> c = r"
  by (induction n arbitrary: cur) (auto split: if_splits)

lemma free_count_card: "free_count used = card {i. i < length used \<and> \<not> used ! i}"
  by (simp add: free_count_def length_filter_conv_card)

lemma free_count_0: "free_count used = 0 \<longleftrightarrow> (\<forall>i<length used. used ! i)"
  by (auto simp: free_count_card)

lemma free_count_take:
  assumes "r < length used" and "\<not> used ! r"
  shows "free_count used = Suc (free_count (used[r := True]))"
proof -
  have "{i. i < length used \<and> \<not> used ! i} = insert r {i. i < length used \<and> \<not> used[r := True] ! i}"
    using assms by (auto simp: nth_list_update)
  then show ?thesis using assms by (simp add: free_count_card)
qed

lemma free_count_give: "r < length used \<Longrightarrow> used ! r \<Longrightarrow> free_count (used[r := False]) = Suc (free_count used)"
  using free_count_take [of r "used[r := False]"] by simp (metis list_update_id)

definition den_alloc :: "unit den" where
  "den_alloc =
     gbind (gget g_free) (\<lambda>n.
       if n = 0 then gfail (Bpf_error ''too many registers needed to evaluate expression'' [])
       else gmodify (\<lambda>a. a\<lparr>g_free := n - 1\<rparr>))"

definition den_free :: "unit den" where
  "den_free = gmodify (\<lambda>a. a\<lparr>g_free := g_free a + 1\<rparr>)"

lemma sim_at_alloc:
  assumes "gen_ok s"
  shows "sim_at (\<lambda>s' r _. r < BPF_MEMWORDS \<and> \<not> cs_regused s ! r \<and>
      s' = s\<lparr>cs_regused := (cs_regused s)[r := True], cs_curreg := r\<rparr>) alloc_reg den_alloc s"
proof -
  from assms have len: "length (cs_regused s) = BPF_MEMWORDS" and cur: "cs_curreg s < BPF_MEMWORDS"
    by (simp_all add: gen_ok_def)
  show ?thesis
  proof (cases "alloc_search BPF_MEMWORDS (cs_regused s) (cs_curreg s)")
    case (Pair res c)
    show ?thesis
    proof (cases res)
      case None
      have "cs_regused s ! i" if "i < BPF_MEMWORDS" for i
      proof -
        let ?j = "(i + BPF_MEMWORDS - cs_curreg s) mod BPF_MEMWORDS"
        have "(cs_curreg s + ?j) mod BPF_MEMWORDS = i" using that cur by (simp add: mod_simps)
        with alloc_search_None [of BPF_MEMWORDS "cs_regused s" "cs_curreg s" c ?j] Pair None cur
        show ?thesis by simp
      qed
      then have "free_count (cs_regused s) = 0" using len by (simp add: free_count_0)
      then show ?thesis using Pair None
        by (simp add: sim_at_def alloc_reg_def den_alloc_def gbind_def gget_def gfail_def)
    next
      case (Some r)
      with alloc_search_Some [of BPF_MEMWORDS "cs_regused s" "cs_curreg s" r c] Pair cur
      have r: "r < BPF_MEMWORDS" "\<not> cs_regused s ! r" "c = r" by auto
      then have "free_count (cs_regused s) = Suc (free_count ((cs_regused s)[r := True]))"
        using len by (simp add: free_count_take)
      then show ?thesis using Pair Some r assms
        by (simp add: sim_at_def alloc_reg_def den_alloc_def gbind_def gget_def gmodify_def abs_gen_def
          gen_ok_def grows_def)
    qed
  qed
qed

lemma sim_at_free:
  assumes "gen_ok s" and "r < BPF_MEMWORDS" and "cs_regused s ! r"
  shows "sim_at (\<lambda>s' _ _. s' = s\<lparr>cs_regused := (cs_regused s)[r := False]\<rparr>) (free_reg r) den_free s"
  using assms by (simp add: sim_at_def free_reg_def den_free_def gmodify_def abs_gen_def gen_ok_def grows_def
    free_count_give)

section \<open>Parts of the graph\<close>

text \<open>
  What \<open>built\<close> says of the graph alone: the blocks of \<open>b\<close>, among \<open>I\<close>, decide \<open>p\<close>. The protocol
  checks of a value are such parts, which later operations join.
\<close>

definition part :: "nat \<Rightarrow> graph \<Rightarrow> nat set \<Rightarrow> nat \<Rightarrow> test \<Rightarrow> bool" where
  "part k g I b p \<longleftrightarrow> (\<exists>t R. represents g b t R \<and> R \<subseteq> I \<and> decides t p \<and> max_space g R \<le> k)"

definition new_blocks :: "cstate \<Rightarrow> cstate \<Rightarrow> nat set" where
  "new_blocks s s' = {length (cs_graph s)..<length (cs_graph s')}"

lemma built_part: "built k s s' b p \<longleftrightarrow> cs_regused s' = cs_regused s \<and> part k (cs_graph s') (new_blocks s s') b p"
  by (simp add: built_def part_def new_blocks_def)

lemma part_mono: "part k g I b p \<Longrightarrow> k \<le> k' \<Longrightarrow> I \<subseteq> I' \<Longrightarrow> part k' g I' b p"
  unfolding part_def by (meson order_trans)

lemma part_keep:
  assumes "part k g I b p" and "\<And>i. i \<in> I \<Longrightarrow> i < length g \<Longrightarrow> i < length g' \<and> g' ! i = g ! i"
  shows "part k g' I b p"
proof -
  from assms(1) obtain t R where 1: "represents g b t R" "R \<subseteq> I" "decides t p" "max_space g R \<le> k"
    by (auto simp: part_def)
  have same: "i < length g' \<and> g' ! i = g ! i" if "i \<in> R" for i
    using that 1(2) assms(2) represents_bound [OF 1(1)] by auto
  have "max_space g' R = max_space g R" unfolding max_space_def by (intro sum.cong) (auto simp: same)
  then show ?thesis using 1 represents_cong [OF 1(1) same] unfolding part_def by (intro exI [of _ t] exI [of _ R]) simp
qed

lemma part_grows: "part k (cs_graph s) I b p \<Longrightarrow> grows s s' \<Longrightarrow> part k (cs_graph s') I b p"
  by (erule part_keep) (auto simp: grows_def)

text \<open>Operations that change nothing but blocks of \<open>I\<close>.\<close>

definition edits :: "nat set \<Rightarrow> cstate \<Rightarrow> cstate \<Rightarrow> bool" where
  "edits I s s' \<longleftrightarrow> abs_gen s' = abs_gen s \<and> gen_ok s' \<and> cs_regused s' = cs_regused s \<and>
     length (cs_graph s') = length (cs_graph s) \<and>
     (\<forall>i<length (cs_graph s). i \<notin> I \<longrightarrow> cs_graph s' ! i = cs_graph s ! i)"

lemma edits_refl: "gen_ok s \<Longrightarrow> edits I s s"
  by (simp add: edits_def)

lemma edits_trans: "edits I s s' \<Longrightarrow> edits J s' s'' \<Longrightarrow> edits (I \<union> J) s s''"
  by (simp add: edits_def)

lemma edits_mono: "edits I s s' \<Longrightarrow> I \<subseteq> J \<Longrightarrow> edits J s s'"
  by (auto simp: edits_def)

lemma part_edits: "part k (cs_graph s) J b p \<Longrightarrow> edits I s s' \<Longrightarrow> I \<inter> J = {} \<Longrightarrow> part k (cs_graph s') J b p"
  by (erule part_keep) (auto simp: edits_def)

lemma grows_edits: "grows s s1 \<Longrightarrow> edits I s1 s2 \<Longrightarrow> I \<inter> {..<length (cs_graph s)} = {} \<Longrightarrow> grows s s2"
  unfolding grows_def edits_def by (simp add: disjoint_iff abs_gen_def) (metis order_less_le_trans)

lemma part_join:
  assumes j: "joins opn res F" and s: "gen_ok s" and disj: "I \<inter> J = {}"
    and b0: "part k0 (cs_graph s) I b0 p" and b1: "part k1 (cs_graph s) J b1 q"
  obtains s' where "on_graph (opn b0 b1) s = Inr ((), s')" "edits (I \<union> J) s s'"
    "part (k0 + k1) (cs_graph s') (I \<union> J) (res b0 b1) (F p q)"
proof -
  let ?g = "cs_graph s"
  from b0 obtain t0 R0 where 0: "represents ?g b0 t0 R0" "R0 \<subseteq> I" "decides t0 p" "max_space ?g R0 \<le> k0"
    by (auto simp: part_def)
  from b1 obtain t1 R1 where 1: "represents ?g b1 t1 R1" "R1 \<subseteq> J" "decides t1 q" "max_space ?g R1 \<le> k1"
    by (auto simp: part_def)
  have disj': "R0 \<inter> R1 = {}" using 0(2) 1(2) disj by blast
  from j 0(1) 1(1) disj' 0(3) 1(3) obtain g' t where g': "opn b0 b1 ?g = Some g'" "keeps ?g g'"
    "\<forall>i<length ?g. i \<notin> R0 \<union> R1 \<longrightarrow> g' ! i = ?g ! i"
    "represents g' (res b0 b1) t (R0 \<union> R1)" "decides t (F p q)" unfolding joins_def by blast
  have sub: "R0 \<union> R1 \<subseteq> {..<length ?g}" using represents_bound [OF 0(1)] represents_bound [OF 1(1)] by auto
  then have fin: "finite R0" "finite R1" by (auto intro: finite_subset)
  have "max_space g' (R0 \<union> R1) \<le> k0 + k1"
    unfolding keeps_max_space [OF g'(2) sub] using 0(4) 1(4) max_space_union [OF disj' fin, of ?g] by linarith
  then have "part (k0 + k1) g' (I \<union> J) (res b0 b1) (F p q)"
    using g'(4,5) 0(2) 1(2) unfolding part_def by (intro exI [of _ t] exI [of _ "R0 \<union> R1"]) auto
  moreover have "edits (I \<union> J) s (s\<lparr>cs_graph := g'\<rparr>)"
    using s keeps_short_ok [OF g'(2)] g'(2,3) 0(2) 1(2) by (auto simp: edits_def gen_ok_def abs_gen_def keeps_def)
  ultimately show ?thesis using g'(1) by (intro that [of "s\<lparr>cs_graph := g'\<rparr>"]) (simp_all add: on_graph_def)
qed

lemma part_not:
  assumes s: "gen_ok s" and b: "part k (cs_graph s) I b p"
  obtains s' where "gen_not_m b s = Inr ((), s')" "edits I s s'" "part k (cs_graph s') I b (not_test p)"
proof -
  let ?g = "cs_graph s" and ?g' = "gen_not b (cs_graph s)"
  from b obtain t R where 0: "represents ?g b t R" "R \<subseteq> I" "decides t p" "max_space ?g R \<le> k"
    by (auto simp: part_def)
  have R: "b \<in> R" "R \<subseteq> {..<length ?g}" using represents_bound [OF 0(1)] by auto
  have "decides (not_tree t) (not_test p)" by (rule decides_connectives(3) [OF 0(3,3)])
  then have "part k ?g' I b (not_test p)"
    using 0 gen_not_represents [OF 0(1)] keeps_max_space [OF keeps_gen_not R(2)] unfolding part_def
    by (intro exI [of _ "not_tree t"] exI [of _ R]) simp
  moreover have "edits I s (s\<lparr>cs_graph := ?g'\<rparr>)"
  proof -
    have "b \<in> I" using R(1) 0(2) by auto
    then have "?g' ! i = ?g ! i" if "i \<notin> I" for i
      using that by (metis gen_not_def flip_sense_def nth_list_update_neq)
    moreover have "short_ok ?g'" using s keeps_short_ok [OF keeps_gen_not] by (simp add: gen_ok_def)
    ultimately show ?thesis using s keeps_gen_not [of ?g b] by (simp add: edits_def gen_ok_def abs_gen_def keeps_def)
  qed
  ultimately show ?thesis by (intro that [of "s\<lparr>cs_graph := ?g'\<rparr>"]) (simp_all add: gen_not_m_def on_graph_def)
qed

lemma part_and_opt:
  assumes "gen_ok s" and "I \<inter> J = {}"
    and "rel_option (part k0 (cs_graph s) I) b0 p" and "part k1 (cs_graph s) J b1 q"
  obtains s' where "and_opt b0 b1 s = Inr (b1, s')" "edits (I \<union> J) s s'"
    "part (k0 + k1) (cs_graph s') (I \<union> J) b1 (opt_test p q)"
proof (cases b0)
  case None
  with assms(3) have "p = None" by simp
  then show ?thesis using None assms(1) part_mono [OF assms(4)]
    by (intro that [of s]) (auto simp: and_opt_def gret_def opt_test_def intro: edits_refl)
next
  case (Some b)
  with assms(3) obtain p' where p: "p = Some p'" "part k0 (cs_graph s) I b p'" by (auto simp: option_rel_Some1)
  obtain s' where "on_graph (gen_and b b1) s = Inr ((), s')" "edits (I \<union> J) s s'"
    "part (k0 + k1) (cs_graph s') (I \<union> J) b1 (and_test p' q)"
    by (rule part_join [OF joins_and assms(1,2) p(2) assms(4)])
  then show ?thesis using Some p(1)
    by (intro that [of s']) (simp_all add: and_opt_def gen_and_m_def gbind_def gret_def opt_test_def)
qed

definition opts_test :: "test option \<Rightarrow> test option \<Rightarrow> test option" where
  "opts_test p q = (case q of None \<Rightarrow> p | Some q \<Rightarrow> Some (opt_test p q))"

lemma part_and_opts:
  assumes "gen_ok s" and "I \<inter> J = {}"
    and "rel_option (part k0 (cs_graph s) I) b0 p" and "rel_option (part k1 (cs_graph s) J) b1 q"
  obtains r s' where "and_opts b0 b1 s = Inr (r, s')" "edits (I \<union> J) s s'"
    "rel_option (part (k0 + k1) (cs_graph s') (I \<union> J)) r (opts_test p q)"
proof (cases b1)
  case None
  with assms(4) have "q = None" by simp
  then show ?thesis using None assms(1) option.rel_mono_strong [OF assms(3)] part_mono
    by (intro that [of b0 s]) (auto simp: and_opts_def gret_def opts_test_def intro: edits_refl)
next
  case (Some b)
  with assms(4) obtain q' where q: "q = Some q'" "part k1 (cs_graph s) J b q'" by (auto simp: option_rel_Some1)
  obtain s' where "and_opt b0 b s = Inr (b, s')" "edits (I \<union> J) s s'"
    "part (k0 + k1) (cs_graph s') (I \<union> J) b (opt_test p q')"
    by (rule part_and_opt [OF assms(1,2,3) q(2)])
  then show ?thesis using Some q(1)
    by (intro that [of "Some b" s']) (simp_all add: and_opts_def gbind_def gret_def opts_test_def)
qed

end
