(* ===== verification/Arith_Values.thy ===== *)
theory Arith_Values
  imports Arith_Tests
begin

unbundle bit_operations_syntax

text \<open>
  The values of arithmetic expressions: what \<open>gen_load\<close>, \<open>gen_loadi\<close>, \<open>gen_loadlen\<close>, \<open>gen_neg\<close> and
  \<open>gen_arth\<close> compute, with the protocol check that goes with it, and the comparisons of
  \<open>gen_relation\<close>.
\<close>

section \<open>Statements\<close>

lemma evals_then:
  assumes ss: "evals used ss v r" and r': "r' < BPF_MEMWORDS" "\<not> used ! r'"
    and ts: "\<And>x vm0. runs (\<lambda>vm. scratch vm ! r = x \<and> keeps_regs used vm0 vm) ts (u x)
      (\<lambda>y vm. reg_A vm = y \<and> keeps_regs used vm0 vm)"
  shows "evals used (ss @ ts @ [one_stmt a (label St) (of_nat r')]) (look_then v u) r'"
proof -
  have "runs (\<lambda>vm. vm = vm0) (ss @ ts) (look_then v u) (\<lambda>y vm. reg_A vm = y \<and> keeps_regs used vm0 vm)" for vm0
    using ss ts by (intro runs_append [where P = "\<lambda>x vm. scratch vm ! r = x \<and> keeps_regs used vm0 vm"])
      (simp_all add: evals_def)
  from evals_store [OF r' this] show ?thesis by simp
qed

lemma runs_set_A:
  assumes "straight_op op" and "operand_ok op k"
    and "\<And>e vm. C vm \<Longrightarrow> vm_wf vm \<Longrightarrow> exec_op e (BPF_STMT (label op) k) vm op = set_A vm (v e)"
    and "\<And>e vm x. C vm \<Longrightarrow> v e = Inl x \<Longrightarrow> Q x (vm\<lparr>reg_A := x, pc := pc vm + 1\<rparr>)"
  shows "runs C [one_stmt a (label op) k] v Q"
  by (rule runs_op [OF assms(1,2)]) (use assms(3,4) in \<open>auto simp: set_reg_defs vm_wf_def split: sum.split\<close>)

lemma runs_set_X:
  assumes "straight_op op" and "operand_ok op k"
    and "\<And>e vm. C vm \<Longrightarrow> vm_wf vm \<Longrightarrow> exec_op e (BPF_STMT (label op) k) vm op = set_X vm (v e)"
    and "\<And>e vm x. C vm \<Longrightarrow> v e = Inl x \<Longrightarrow> Q x (vm\<lparr>reg_X := x, pc := pc vm + 1\<rparr>)"
  shows "runs C [one_stmt a (label op) k] v Q"
  by (rule runs_op [OF assms(1,2)]) (use assms(3,4) in \<open>auto simp: set_reg_defs vm_wf_def split: sum.split\<close>)

text \<open>The load at the value in a register, and at that value behind the IPv4 header.\<close>

lemma runs_indexed:
  assumes "r < BPF_MEMWORDS"
  shows "runs (\<lambda>vm. scratch vm ! r = x \<and> keeps_regs used vm0 vm)
    [one_stmt a (label Ldx_Mem) (of_nat r), one_stmt b (label (Ld_Ind z)) start]
    (\<lambda>e. ld_ind e z x start) (\<lambda>y vm. reg_A vm = y \<and> keeps_regs used vm0 vm)"
proof -
  have "runs (\<lambda>vm. scratch vm ! r = x \<and> keeps_regs used vm0 vm)
      ([one_stmt a (label Ldx_Mem) (of_nat r)] @ [one_stmt b (label (Ld_Ind z)) start])
      (look_then (\<lambda>e. Inl x) (\<lambda>x e. ld_ind e z x start)) (\<lambda>y vm. reg_A vm = y \<and> keeps_regs used vm0 vm)"
  proof (rule runs_append)
    show "runs (\<lambda>vm. scratch vm ! r = x \<and> keeps_regs used vm0 vm) [one_stmt a (label Ldx_Mem) (of_nat r)] (\<lambda>e. Inl x)
        (\<lambda>y vm. reg_X vm = y \<and> keeps_regs used vm0 vm)"
      by (rule runs_set_X) (use assms in \<open>auto simp: mem_read_def reg_number vm_wf_def\<close>)
    fix y
    show "runs (\<lambda>vm. reg_X vm = y \<and> keeps_regs used vm0 vm) [one_stmt b (label (Ld_Ind z)) start]
        (\<lambda>e. ld_ind e z y start) (\<lambda>y vm. reg_A vm = y \<and> keeps_regs used vm0 vm)"
      by (rule runs_set_A) auto
  qed
  then show ?thesis by simp
qed

lemma runs_indexed_behind:
  assumes "r < BPF_MEMWORDS"
  shows "runs (\<lambda>vm. scratch vm ! r = x \<and> keeps_regs used vm0 vm)
    [one_stmt a (label Ldx_Msh) k, one_stmt b (label Ld_Mem) (of_nat r), one_stmt c (label (Alu Add SrcX)) 0,
     one_stmt d (label Tax) 0, one_stmt f (label (Ld_Ind z)) start]
    (look_then (\<lambda>e. ldx_msh e k) (\<lambda>h e. ld_ind e z (x + h) start)) (\<lambda>y vm. reg_A vm = y \<and> keeps_regs used vm0 vm)"
proof -
  have "runs (\<lambda>vm. scratch vm ! r = x \<and> keeps_regs used vm0 vm)
    ([one_stmt a (label Ldx_Msh) k] @ [one_stmt b (label Ld_Mem) (of_nat r)] @ [one_stmt c (label (Alu Add SrcX)) 0] @
     [one_stmt d (label Tax) 0] @ [one_stmt f (label (Ld_Ind z)) start])
    (look_then (\<lambda>e. ldx_msh e k) (\<lambda>h. look_then (\<lambda>e. Inl x) (\<lambda>x. look_then (\<lambda>e. Inl (x + h))
      (\<lambda>y. look_then (\<lambda>e. Inl y) (\<lambda>y e. ld_ind e z y start))))) (\<lambda>y vm. reg_A vm = y \<and> keeps_regs used vm0 vm)"
  proof (rule runs_append)
    show "runs (\<lambda>vm. scratch vm ! r = x \<and> keeps_regs used vm0 vm) [one_stmt a (label Ldx_Msh) k] (\<lambda>e. ldx_msh e k)
        (\<lambda>h vm. reg_X vm = h \<and> scratch vm ! r = x \<and> keeps_regs used vm0 vm)"
      by (rule runs_set_X) auto
    fix h
    show "runs (\<lambda>vm. reg_X vm = h \<and> scratch vm ! r = x \<and> keeps_regs used vm0 vm)
      ([one_stmt b (label Ld_Mem) (of_nat r)] @ [one_stmt c (label (Alu Add SrcX)) 0] @
       [one_stmt d (label Tax) 0] @ [one_stmt f (label (Ld_Ind z)) start])
      (look_then (\<lambda>e. Inl x) (\<lambda>x. look_then (\<lambda>e. Inl (x + h)) (\<lambda>y. look_then (\<lambda>e. Inl y) (\<lambda>y e. ld_ind e z y start))))
      (\<lambda>y vm. reg_A vm = y \<and> keeps_regs used vm0 vm)"
    proof (rule runs_append)
      show "runs (\<lambda>vm. reg_X vm = h \<and> scratch vm ! r = x \<and> keeps_regs used vm0 vm) [one_stmt b (label Ld_Mem) (of_nat r)]
          (\<lambda>e. Inl x) (\<lambda>y vm. reg_X vm = h \<and> reg_A vm = y \<and> keeps_regs used vm0 vm)"
        by (rule runs_set_A) (use assms in \<open>auto simp: mem_read_def reg_number vm_wf_def\<close>)
      fix x
      show "runs (\<lambda>vm. reg_X vm = h \<and> reg_A vm = x \<and> keeps_regs used vm0 vm)
        ([one_stmt c (label (Alu Add SrcX)) 0] @ [one_stmt d (label Tax) 0] @ [one_stmt f (label (Ld_Ind z)) start])
        (look_then (\<lambda>e. Inl (x + h)) (\<lambda>y. look_then (\<lambda>e. Inl y) (\<lambda>y e. ld_ind e z y start)))
        (\<lambda>y vm. reg_A vm = y \<and> keeps_regs used vm0 vm)"
      proof (rule runs_append)
        show "runs (\<lambda>vm. reg_X vm = h \<and> reg_A vm = x \<and> keeps_regs used vm0 vm) [one_stmt c (label (Alu Add SrcX)) 0]
            (\<lambda>e. Inl (x + h)) (\<lambda>y vm. reg_A vm = y \<and> keeps_regs used vm0 vm)"
          by (rule runs_set_A) auto
        fix y
        show "runs (\<lambda>vm. reg_A vm = y \<and> keeps_regs used vm0 vm)
            ([one_stmt d (label Tax) 0] @ [one_stmt f (label (Ld_Ind z)) start])
            (look_then (\<lambda>e. Inl y) (\<lambda>y e. ld_ind e z y start)) (\<lambda>y vm. reg_A vm = y \<and> keeps_regs used vm0 vm)"
        proof (rule runs_append)
          show "runs (\<lambda>vm. reg_A vm = y \<and> keeps_regs used vm0 vm) [one_stmt d (label Tax) 0] (\<lambda>e. Inl y)
              (\<lambda>y vm. reg_X vm = y \<and> keeps_regs used vm0 vm)"
            by (rule runs_set_X) auto
          fix y
          show "runs (\<lambda>vm. reg_X vm = y \<and> keeps_regs used vm0 vm) [one_stmt f (label (Ld_Ind z)) start]
              (\<lambda>e. ld_ind e z y start) (\<lambda>y vm. reg_A vm = y \<and> keeps_regs used vm0 vm)"
            by (rule runs_set_A) auto
        qed
      qed
    qed
  qed
  then show ?thesis by simp
qed

section \<open>Values\<close>

type_synonym arith_value = "u32 look \<times> test option"

text \<open>
  \<open>a\<close> was made between \<open>s\<close> and \<open>s'\<close>: it computes the value \<open>v\<close> into a register that was free,
  and its check is in the blocks made since.
\<close>

definition arth_built :: "nat \<Rightarrow> cstate \<Rightarrow> cstate \<Rightarrow> arth \<Rightarrow> arith_value \<Rightarrow> bool" where
  "arth_built k s s' a v \<longleftrightarrow> grows s s' \<and> \<not> cs_regused s ! a_reg a \<and>
     cs_regused s' = (cs_regused s)[a_reg a := True] \<and>
     evals (cs_regused s) (a_s a) (fst v) (a_reg a) \<and> length (a_s a) \<le> k \<and>
     rel_option (part k (cs_graph s') (new_blocks s s')) (a_b a) (snd v)"

definition ariths :: "nat \<Rightarrow> arth gen \<Rightarrow> arith_value den \<Rightarrow> bool" where
  "ariths k = sim (arth_built k)"

lemma ariths_at: "ariths k m d \<longleftrightarrow> (\<forall>s. gen_ok s \<longrightarrow> sim_at (arth_built k s) m d s)"
  unfolding ariths_def sim_iff_at
  by (intro all_cong1 imp_cong refl arg_cong [where f = "\<lambda>W. sim_at W m d s" for s])
    (auto simp: arth_built_def fun_eq_iff)

lemma ariths_bind:
  assumes "ariths k m d"
    and "\<And>s s1 a v. gen_ok s \<Longrightarrow> gen_ok s1 \<Longrightarrow> arth_built k s s1 a v \<Longrightarrow> sim_at (arth_built k' s) (f a) (h v) s1"
  shows "ariths k' (gbind m f) (gbind d h)"
  using assms unfolding ariths_at by (blast intro: sim_at_bind)

lemma arth_builtD:
  assumes "arth_built k s s' a v"
  shows "grows s s'" "a_reg a < BPF_MEMWORDS" "\<not> cs_regused s ! a_reg a" "cs_regused s' = (cs_regused s)[a_reg a := True]"
    "evals (cs_regused s) (a_s a) (fst v) (a_reg a)" "length (a_s a) \<le> k"
    "rel_option (part k (cs_graph s') (new_blocks s s')) (a_b a) (snd v)"
  using assms by (auto simp: arth_built_def evals_def)

lemma rel_part_mono: "rel_option (part k g I) b p \<Longrightarrow> k \<le> k' \<Longrightarrow> I \<subseteq> I' \<Longrightarrow> rel_option (part k' g I') b p"
  by (erule option.rel_mono_strong) (rule part_mono)

lemma rel_part_grows: "rel_option (part k (cs_graph s) I) b p \<Longrightarrow> grows s s' \<Longrightarrow> rel_option (part k (cs_graph s') I) b p"
  by (erule option.rel_mono_strong) (rule part_grows)

lemma new_blocks_mono: "grows s1 s2 \<Longrightarrow> new_blocks s s1 \<subseteq> new_blocks s s2"
  by (auto simp: new_blocks_def grows_def)

text \<open>A length and a number.\<close>

definition den_constant :: "u32 look \<Rightarrow> arith_value den" where
  "den_constant v = gbind den_alloc (\<lambda>_. gret (v, None))"

lemma runs_ld_imm: "runs (\<lambda>vm. vm = vm0) [one_stmt a (label Ld_Imm) k] (\<lambda>e. Inl k) (\<lambda>x vm. reg_A vm = x \<and> keeps_regs used vm0 vm)"
  by (rule runs_set_A) auto

lemma runs_ld_len: "runs (\<lambda>vm. vm = vm0) [one_stmt a (label Ld_Len) k] (\<lambda>e. Inl (wirelen e)) (\<lambda>x vm. reg_A vm = x \<and> keeps_regs used vm0 vm)"
  by (rule runs_set_A) auto

lemma ariths_constant:
  assumes "\<And>a vm0 used. runs (\<lambda>vm. vm = vm0) [one_stmt a c k] v (\<lambda>x vm. reg_A vm = x \<and> keeps_regs used vm0 vm)"
  shows "ariths 2 (gbind alloc_reg (\<lambda>r. gbind (new_stmt c k) (\<lambda>s.
      gbind (store_in r) (\<lambda>st. gret \<lparr>a_b = None, a_s = s @ st, a_reg = r\<rparr>)))) (den_constant v)"
  unfolding ariths_at den_constant_def store_in_def
proof (intro allI impI, rule sim_at_bind [OF sim_at_alloc], assumption, elim conjE, intro sim_at_stmt sim_at_ret)
  fix s s' r
  assume s: "gen_ok s'" "r < BPF_MEMWORDS" "\<not> cs_regused s ! r" "s' = s\<lparr>cs_regused := (cs_regused s)[r := True], cs_curreg := r\<rparr>"
  let ?s = "s'\<lparr>cs_next_addr := cs_next_addr s' + 1\<rparr>"
  show "gen_ok (?s\<lparr>cs_next_addr := cs_next_addr ?s + 1\<rparr>)" using s by simp
  have "BPF_ST = label St" by simp
  then show "arth_built 2 s (?s\<lparr>cs_next_addr := cs_next_addr ?s + 1\<rparr>)
      \<lparr>a_b = None, a_s = [one_stmt (cs_next_addr s') c k] @ [one_stmt (cs_next_addr ?s) BPF_ST (of_nat r)], a_reg = r\<rparr> (v, None)"
    using s evals_store [OF s(2,3) assms] by (simp add: arth_built_def grows_def)
qed

lemma ariths_loadi: "ariths 2 (gen_loadi v) (den_constant (\<lambda>e. Inl v))"
  unfolding gen_loadi_def using ariths_constant [OF runs_ld_imm] by simp

lemma ariths_loadlen: "ariths 2 gen_loadlen (den_constant (\<lambda>e. Inl (wirelen e)))"
  unfolding gen_loadlen_def using ariths_constant [OF runs_ld_len] by simp

section \<open>Operations\<close>

definition den_neg :: "arith_value \<Rightarrow> arith_value den" where
  "den_neg v = gret (look_map uminus (fst v), snd v)"

lemma sim_at_new_stmt:
  "(\<And>i n. sim_at W (f [one_stmt i c k]) d (s\<lparr>cs_next_addr := n\<rparr>)) \<Longrightarrow> sim_at W (gbind (new_stmt c k) f) d s"
  by (rule sim_at_stmt)

lemma addr_simps [simp]:
  "grows s (s1\<lparr>cs_next_addr := n\<rparr>) = grows s s1" "new_blocks s (s1\<lparr>cs_next_addr := n\<rparr>) = new_blocks s s1"
  "arth_built k s (s1\<lparr>cs_next_addr := n\<rparr>) a v = arth_built k s s1 a v"
  by (simp_all add: arth_built_def grows_def new_blocks_def)

lemma arith_codes:
  "BPF_ALU OR BPF_NEG = label Neg" "BPF_LD OR BPF_MEM = label Ld_Mem" "BPF_LDX OR BPF_MEM = label Ldx_Mem"
  "BPF_ST = label St" "BPF_MISC OR BPF_TAX = label Tax" "BPF_ALU OR BPF_ADD OR BPF_X = label (Alu Add SrcX)"
  "BPF_ALU OR BPF_SUB OR BPF_X = label (Alu Sub SrcX)"
  by simp_all

lemma look_then_ret: "look_then v (\<lambda>x e. Inl (f x)) = look_map f v"
  by (simp add: look_then_def look_map_def fun_eq_iff split: sum.split)

lemma neg_at:
  assumes s1: "gen_ok s1" and a: "arth_built k s s1 a v"
  shows "sim_at (arth_built (k + 3) s) (gen_neg a) (den_neg v) s1"
  unfolding gen_neg_def xfer_to_a_def store_in_def den_neg_def arith_codes
proof (intro sim_at_new_stmt sim_at_ret)
  note b = arth_builtD [OF a]
  let ?r = "a_reg a"
  have run: "runs (\<lambda>vm. scratch vm ! ?r = x \<and> keeps_regs (cs_regused s) vm0 vm)
      ([one_stmt i (label Ld_Mem) (of_nat ?r)] @ [one_stmt j (label Neg) 0])
      (look_then (\<lambda>e. Inl x) (\<lambda>x e. Inl (- x))) (\<lambda>y vm. reg_A vm = y \<and> keeps_regs (cs_regused s) vm0 vm)" for i j x vm0
    by (rule runs_append [where P = "\<lambda>y vm. reg_A vm = y \<and> keeps_regs (cs_regused s) vm0 vm"]; rule runs_set_A)
      (use b(2) in \<open>auto simp: mem_read_def reg_number vm_wf_def\<close>)
  fix i j l n1 n2 n3
  have "evals (cs_regused s) (a_s a @ ([one_stmt i (label Ld_Mem) (of_nat ?r)] @ [one_stmt j (label Neg) 0]) @
      [one_stmt l (label St) (of_nat ?r)]) (look_map uminus (fst v)) ?r"
    using evals_then [OF b(5,2,3) run] by (simp add: look_then_ret del: label.simps)
  then have "arth_built (k + 3) s s1
      (a\<lparr>a_s := a_s a @ [one_stmt i (label Ld_Mem) (of_nat ?r)] @ [one_stmt j (label Neg) 0] @
        [one_stmt l (label St) (of_nat ?r)]\<rparr>) (look_map uminus (fst v), snd v)"
    using b rel_part_mono [OF b(7)] by (simp add: arth_built_def del: label.simps)
  then show "arth_built (k + 3) s (s1\<lparr>cs_next_addr := n1, cs_next_addr := n2, cs_next_addr := n3\<rparr>)
      (a\<lparr>a_s := a_s a @ [one_stmt i (label Ld_Mem) (of_nat ?r)] @ [one_stmt j (label Neg) 0] @
        [one_stmt l (label St) (of_nat ?r)]\<rparr>) (look_map uminus (fst v), snd v)"
    by (simp del: label.simps)
qed (simp add: s1)

lemma ariths_neg: "ariths k m d \<Longrightarrow> ariths (k + 3) (gbind m gen_neg) (gbind d den_neg)"
  by (rule ariths_bind [OF _ neg_at])

text \<open>Two values: the first was made between \<open>s\<close> and \<open>s1\<close>, the second between \<open>s1\<close> and \<open>s2\<close>.\<close>

lemma used_restored:
  "r0 < length u \<Longrightarrow> \<not> u ! r0 \<Longrightarrow> \<not> u[r0 := True] ! r1 \<Longrightarrow>
     u[r0 := True, r1 := True, r0 := False, r1 := False] = (u :: bool list)"
  by (cases "r1 < length u"; rule nth_equalityI) (auto simp: nth_list_update list_update_beyond)

lemma two_regs:
  assumes "gen_ok s" and "arth_built k0 s s1 a0 v0" and "arth_built k1 s1 s2 a1 v1"
  shows "a_reg a0 < BPF_MEMWORDS" "a_reg a1 < BPF_MEMWORDS" "a_reg a0 \<noteq> a_reg a1" "cs_regused s2 ! a_reg a0"
    "(cs_regused s2)[a_reg a0 := False] ! a_reg a1"
    "(cs_regused s2)[a_reg a0 := False, a_reg a1 := False] = cs_regused s"
    "\<not> cs_regused s ! a_reg a0" "length (cs_regused s) = BPF_MEMWORDS"
proof -
  note 0 = arth_builtD [OF assms(2)] and 1 = arth_builtD [OF assms(3)]
  show len: "length (cs_regused s) = BPF_MEMWORDS" using assms(1) by (simp add: gen_ok_def)
  show "a_reg a0 < BPF_MEMWORDS" "a_reg a1 < BPF_MEMWORDS" "\<not> cs_regused s ! a_reg a0" by (fact 0 1)+
  show ne: "a_reg a0 \<noteq> a_reg a1" using 0 1 len by auto
  show "cs_regused s2 ! a_reg a0" "(cs_regused s2)[a_reg a0 := False] ! a_reg a1"
    using 0 1 len ne by (simp_all add: nth_list_update)
  show "(cs_regused s2)[a_reg a0 := False, a_reg a1 := False] = cs_regused s"
    using used_restored [of "a_reg a0" "cs_regused s" "a_reg a1"] 0 1 len by simp
qed

lemma sim_at_then:
  "m s = Inr (r, s') \<Longrightarrow> abs_gen s' = abs_gen s \<Longrightarrow> sim_at W (f r) d s' \<Longrightarrow> sim_at W (gbind m f) d s"
  unfolding sim_at_def gbind_def by (simp split: sum.splits prod.splits)

lemma two_freed_at:
  assumes "gen_ok s" "gen_ok s2" and "arth_built k0 s s1 a0 v0" and "arth_built k1 s1 s2 a1 v1"
    and "cs_regused s3 = cs_regused s2" "gen_ok s3"
    and "gen_ok (s3\<lparr>cs_regused := cs_regused s\<rparr>) \<Longrightarrow> sim_at W f h (s3\<lparr>cs_regused := cs_regused s\<rparr>)"
  shows "sim_at W (gbind (free_reg (a_reg a0)) (\<lambda>_. gbind (free_reg (a_reg a1)) (\<lambda>_. f)))
    (gbind den_free (\<lambda>_. gbind den_free (\<lambda>_. h))) s3"
proof -
  note r = two_regs [OF assms(1,3,4)]
  show ?thesis
  proof (rule sim_at_bind [OF sim_at_free [OF assms(6)]])
    fix s4 assume 4: "gen_ok s4" "s4 = s3\<lparr>cs_regused := (cs_regused s3)[a_reg a0 := False]\<rparr>"
    show "sim_at W (gbind (free_reg (a_reg a1)) (\<lambda>_. f)) (gbind den_free (\<lambda>_. h)) s4"
      by (rule sim_at_bind [OF sim_at_free [OF 4(1)]]) (use r 4 assms(5,7) in auto)
  qed (use r assms(5) in auto)
qed

definition den_arth :: "alu \<Rightarrow> arith_value \<Rightarrow> arith_value \<Rightarrow> arith_value den" where
  "den_arth op v0 v1 =
     gbind den_free (\<lambda>_. gbind den_free (\<lambda>_. gbind den_alloc (\<lambda>_.
       gret (value2 op (fst v0) (fst v1), snd v0))))"

lemma code_alu_x: "BPF_ALU OR BPF_X OR alu_code op = label (Alu op SrcX)"
  by (cases op) simp_all

lemma arth_at:
  assumes ok: "gen_ok s" "gen_ok s1" "gen_ok s2"
    and 0: "arth_built k0 s s1 a0 v0" and 1: "arth_built k1 s1 s2 a1 v1"
  shows "sim_at (arth_built (k0 + k1 + 4) s) (gen_arth (alu_code op) a0 a1) (den_arth op v0 v1) s2"
  unfolding gen_arth_def xfer_to_a_def xfer_to_x_def store_in_def den_arth_def arith_codes code_alu_x
proof (intro sim_at_new_stmt two_freed_at [OF ok(1,3) 0 1])
  note b0 = arth_builtD [OF 0] and b1 = arth_builtD [OF 1] and r = two_regs [OF ok(1) 0 1]
  fix i0 i1 i2 n0 n1 n2
  let ?s3 = "s2\<lparr>cs_next_addr := n0, cs_next_addr := n1, cs_next_addr := n2, cs_regused := cs_regused s\<rparr>"
  let ?ss = "\<lambda>st. a_s a0 @ a_s a1 @ [one_stmt i0 (label Ldx_Mem) (of_nat (a_reg a1))] @
    [one_stmt i1 (label Ld_Mem) (of_nat (a_reg a0))] @ [one_stmt i2 (label (Alu op SrcX)) 0] @ st"
  assume 3: "gen_ok ?s3"
  show "sim_at (arth_built (k0 + k1 + 4) s)
      (gbind alloc_reg (\<lambda>regno. gbind (new_stmt (label St) (of_nat regno)) (\<lambda>st. gret (a0\<lparr>a_s := ?ss st, a_reg := regno\<rparr>))))
      (gbind den_alloc (\<lambda>_. gret (value2 op (fst v0) (fst v1), snd v0))) ?s3"
  proof (rule sim_at_bind [OF sim_at_alloc [OF 3]], elim conjE, intro sim_at_new_stmt sim_at_ret)
    fix s4 reg l n
    assume 4: "gen_ok s4" "reg < BPF_MEMWORDS" "\<not> cs_regused ?s3 ! reg"
      "s4 = ?s3\<lparr>cs_regused := (cs_regused ?s3)[reg := True], cs_curreg := reg\<rparr>"
    show "gen_ok (s4\<lparr>cs_next_addr := n\<rparr>)" using 4(1) by simp
    have "evals (cs_regused s) (?ss [one_stmt l (label St) (of_nat reg)]) (value2 op (fst v0) (fst v1)) reg"
      using evals_store [OF 4(2) _ two_operated [OF b0(5,3) b1(5) [unfolded b0(4)] r(8)], of i0 i1 i2 op 0 l] 4(3)
      by (simp del: label.simps)
    moreover have "rel_option (part (k0 + k1 + 4) (cs_graph s2) (new_blocks s s2)) (a_b a0) (snd v0)"
      by (rule rel_part_mono [OF rel_part_grows [OF b0(7) b1(1)]]) (use new_blocks_mono [OF b1(1)] in auto)
    ultimately show "arth_built (k0 + k1 + 4) s (s4\<lparr>cs_next_addr := n\<rparr>)
        (a0\<lparr>a_s := ?ss [one_stmt l (label St) (of_nat reg)], a_reg := reg\<rparr>) (value2 op (fst v0) (fst v1), snd v0)"
      using 4 b0(6) b1(6) grows_trans [OF b0(1) b1(1)]
      by (simp add: arth_built_def grows_def new_blocks_def del: label.simps)
  qed
qed (use ok(3) in simp_all)

lemma ariths_arth:
  assumes "ariths k0 m0 d0" and "ariths k1 m1 d1"
  shows "ariths (k0 + k1 + 4) (gbind m0 (\<lambda>a0. gbind m1 (\<lambda>a1. gen_arth (alu_code op) a0 a1)))
    (gbind d0 (\<lambda>v0. gbind d1 (\<lambda>v1. den_arth op v0 v1)))"
proof (rule ariths_bind [OF assms(1)])
  fix s s1 a0 v0 assume 0: "gen_ok s" "gen_ok s1" "arth_built k0 s s1 a0 v0"
  show "sim_at (arth_built (k0 + k1 + 4) s) (gbind m1 (\<lambda>a1. gen_arth (alu_code op) a0 a1)) (gbind d1 (den_arth op v0)) s1"
    using assms(2) 0(2) unfolding ariths_at by (blast intro: sim_at_bind arth_at [OF 0(1,2) _ 0(3)])
qed

section \<open>Comparisons\<close>

definition den_relation :: "cmp \<Rightarrow> bool \<Rightarrow> arith_value \<Rightarrow> arith_value \<Rightarrow> test den" where
  "den_relation c rvs v0 v1 =
     gbind den_free (\<lambda>_. gbind den_free (\<lambda>_.
       let p = look_map (\<lambda>(x, y). jmp_cond c x y) (pair_look (fst v0) (fst v1)) in
       gret (opt_test (opts_test (snd v0) (snd v1)) (if rvs then not_test p else p))))"

lemma sub_zero: "look_map (\<lambda>z. jmp_cond Jeq z 0) (value2 Sub v0 v1) = look_map (\<lambda>(x, y). jmp_cond Jeq x y) (pair_look v0 v1)"
  by (auto simp: value2_def look_map_def look_then_def fun_eq_iff split: sum.splits)

lemma code_jmp_x: "ucast (BPF_JMP OR cmp_code c OR BPF_X) = ucast (label (Jmp c SrcX))"
  by (cases c) simp_all

definition relation_block :: "u16 \<Rightarrow> arth \<Rightarrow> arth \<Rightarrow> nat gen" where
  "relation_block code a0 a1 =
     gbind (xfer_to_x a1) (\<lambda>s0.
     gbind (xfer_to_a a0) (\<lambda>s1.
     gbind (if code = BPF_JEQ then new_stmt (BPF_ALU OR BPF_SUB OR BPF_X) 0 else gret []) (\<lambda>s2.
       block_with (if code = BPF_JEQ then JMP_code code else ucast (BPF_JMP OR code OR BPF_X))
         (a_s a0 @ a_s a1 @ s0 @ s1 @ s2) 0)))"

lemma gen_relation_block:
  "gen_relation code a0 a1 rvs =
     gbind (relation_block code a0 a1) (\<lambda>b.
     gbind (if rvs then gen_not_m b else gret ()) (\<lambda>_.
     gbind (free_reg (a_reg a0)) (\<lambda>_.
     gbind (free_reg (a_reg a1)) (\<lambda>_.
     gbind (and_opts (a_b a0) (a_b a1)) (\<lambda>tmp. and_opt tmp b)))))"
  by (simp add: gen_relation_def relation_block_def gbind_assoc)

lemma relation_block_at:
  assumes ok: "gen_ok s" "gen_ok s2"
    and 0: "arth_built k0 s s1 a0 v0" and 1: "arth_built k1 s1 s2 a1 v1"
  obtains b s3 where "relation_block (cmp_code c) a0 a1 s2 = Inr (b, s3)" "abs_gen s3 = abs_gen s2" "gen_ok s3"
    "grows s2 s3" "cs_regused s3 = cs_regused s2"
    "part (k0 + k1 + 6) (cs_graph s3) (new_blocks s2 s3) b (look_map (\<lambda>(x, y). jmp_cond c x y) (pair_look (fst v0) (fst v1)))"
proof -
  note b0 = arth_builtD [OF 0] and b1 = arth_builtD [OF 1] and r = two_regs [OF ok(1) 0 1]
  note ev = b0(5,3) b1(5) [unfolded b0(4)] r(8)
  define s4 where "s4 = s2\<lparr>cs_next_addr := cs_next_addr s2 + (if c = Jeq then 3 else 2)\<rparr>"
  let ?ld = "a_s a0 @ a_s a1 @ [one_stmt (cs_next_addr s2) (label Ldx_Mem) (of_nat (a_reg a1))] @
    [one_stmt (cs_next_addr s2 + 1) (label Ld_Mem) (of_nat (a_reg a0))]"
  define ss where "ss = ?ld @ (if c = Jeq then [one_stmt (cs_next_addr s2 + 2) (label (Alu Sub SrcX)) 0] else [])"
  let ?br = "if c = Jeq then branch_stmt Jeq SrcK 0 else branch_stmt c SrcX 0"
  let ?p = "look_map (\<lambda>(x, y). jmp_cond c x y) (pair_look (fst v0) (fst v1))"
  have jeq: "cmp_code c = BPF_JEQ \<longleftrightarrow> c = Jeq" by (cases c) simp_all
  have code: "plain_stmt (if c = Jeq then JMP_code (cmp_code c) else ucast (BPF_JMP OR cmp_code c OR BPF_X)) 0 = ?br"
    unfolding branch_stmt_def JMP_code_label code_jmp_x by (simp del: label.simps)
  let ?code = "if c = Jeq then JMP_code (cmp_code c) else ucast (BPF_JMP OR cmp_code c OR BPF_X)"
  have "block_decides ss ?br ?p"
  proof (cases "c = Jeq")
    case True
    have "computes ss (value2 Sub (fst v0) (fst v1))"
      using runs_computes [OF two_operated [OF ev]] True by (simp add: ss_def del: label.simps)
    from computes_branch [OF this, of Jeq 0] show ?thesis unfolding sub_zero True by (simp only: if_True simp_thms)
  next
    case False
    have "block_decides ?ld (branch_stmt c SrcX 0) ?p"
      using runs_branch [OF two_loaded [OF ev], of "cs_next_addr s2" "cs_next_addr s2 + 1"] by (simp add: conj_assoc)
    then show ?thesis using False by (simp add: ss_def del: label.simps)
  qed
  then have "block_decides ss (plain_stmt ?code 0) ?p" unfolding code .
  moreover have "gen_ok s4" using ok(2) by (simp add: s4_def)
  moreover have "length ss \<le> k0 + k1 + 3" using b0(6) b1(6) by (simp add: ss_def)
  ultimately obtain b s3 where 3: "block_with ?code ss 0 s4 = Inr (b, s3)"
    "abs_gen s3 = abs_gen s4" "gen_ok s3" "grows s4 s3" "built (k0 + k1 + 3 + 3) s4 s3 b ?p"
    using block_with_builds by blast
  show ?thesis
  proof (rule that)
    show "relation_block (cmp_code c) a0 a1 s2 = Inr (b, s3)"
      using 3(1) unfolding relation_block_def xfer_to_x_def xfer_to_a_def arith_codes jeq
      by (cases "c = Jeq") (simp_all add: gbind_def gret_def new_stmt_eq ss_def s4_def eval_nat_numeral del: label.simps)
    show "part (k0 + k1 + 6) (cs_graph s3) (new_blocks s2 s3) b ?p" "cs_regused s3 = cs_regused s2"
      using 3(5) by (simp_all add: built_part new_blocks_def s4_def add.assoc)
    show "abs_gen s3 = abs_gen s2" "gen_ok s3" "grows s2 s3" using 3(2-4) by (simp_all add: s4_def grows_def)
  qed
qed

lemma relation_at:
  assumes ok: "gen_ok s" "gen_ok s2"
    and 0: "arth_built k0 s s1 a0 v0" and 1: "arth_built k1 s1 s2 a1 v1"
  shows "sim_at (\<lambda>s' b p. grows s s' \<and> built (2 * (k0 + k1) + 6) s s' b p) (gen_relation (cmp_code c) a0 a1 rvs)
    (den_relation c rvs v0 v1) s2"
proof -
  note b0 = arth_builtD [OF 0] and b1 = arth_builtD [OF 1]
  let ?p = "look_map (\<lambda>(x, y). jmp_cond c x y) (pair_look (fst v0) (fst v1))"
  let ?q = "if rvs then not_test ?p else ?p"
  obtain b s3 where 3: "relation_block (cmp_code c) a0 a1 s2 = Inr (b, s3)" "abs_gen s3 = abs_gen s2" "gen_ok s3"
    "grows s2 s3" "cs_regused s3 = cs_regused s2" "part (k0 + k1 + 6) (cs_graph s3) (new_blocks s2 s3) b ?p"
    by (rule relation_block_at [OF ok 0 1])
  let ?B = "new_blocks s2 s3" and ?I = "new_blocks s s1" and ?J = "new_blocks s1 s2"
  have g: "grows s s2" "grows s1 s3" "grows s s3" using b0(1) b1(1) 3(4) grows_trans by blast+
  have disj: "?I \<inter> ?J = {}" "(?I \<union> ?J) \<inter> ?B = {}" "?B \<inter> {..<length (cs_graph s2)} = {}"
    using b0(1) b1(1) by (auto simp: new_blocks_def grows_def)
  obtain s4 where 4: "(if rvs then gen_not_m b else gret ()) s3 = Inr ((), s4)" "edits ?B s3 s4"
    "part (k0 + k1 + 6) (cs_graph s4) ?B b ?q"
  proof (cases rvs)
    case True
    then show ?thesis using that by (auto intro: part_not [OF 3(3,6)])
  next
    case False
    then show ?thesis using that [of s3] 3(3,6) by (simp add: gret_def edits_refl)
  qed
  have g4: "grows s1 s4" "grows s2 s4"
    using grows_edits [OF 3(4) 4(2) disj(3)] grows_trans [OF b1(1)] by blast+
  have graph [simp]: "cs_graph (s4\<lparr>cs_regused := u\<rparr>) = cs_graph s4" for u by simp
  let ?s5 = "s4\<lparr>cs_regused := cs_regused s\<rparr>"
  have rel0: "rel_option (part k0 (cs_graph ?s5) ?I) (a_b a0) (snd v0)"
    using rel_part_grows [OF b0(7) g4(1)] by simp
  have rel1: "rel_option (part k1 (cs_graph ?s5) ?J) (a_b a1) (snd v1)"
    using rel_part_grows [OF b1(7) g4(2)] by simp
  have rest: "sim_at (\<lambda>s' b p. grows s s' \<and> built (2 * (k0 + k1) + 6) s s' b p)
      (gbind (and_opts (a_b a0) (a_b a1)) (\<lambda>tmp. and_opt tmp b)) (gret (opt_test (opts_test (snd v0) (snd v1)) ?q)) ?s5"
    if ok5: "gen_ok ?s5"
  proof -
    obtain r s6 where 6: "and_opts (a_b a0) (a_b a1) ?s5 = Inr (r, s6)" "edits (?I \<union> ?J) ?s5 s6"
      "rel_option (part (k0 + k1) (cs_graph s6) (?I \<union> ?J)) r (opts_test (snd v0) (snd v1))"
      by (rule part_and_opts [OF ok5 disj(1) rel0 rel1])
    have b6: "part (k0 + k1 + 6) (cs_graph s6) ?B b ?q"
      by (rule part_edits [OF _ 6(2)]) (use 4(3) disj(2) in auto)
    have "gen_ok s6" using 6(2) by (simp add: edits_def)
    then obtain s7 where 7: "and_opt r b s6 = Inr (b, s7)" "edits (?I \<union> ?J \<union> ?B) s6 s7"
      "part (k0 + k1 + (k0 + k1 + 6)) (cs_graph s7) (?I \<union> ?J \<union> ?B) b (opt_test (opts_test (snd v0) (snd v1)) ?q)"
      by (rule part_and_opt [OF _ disj(2) 6(3) b6])
    have ed: "edits (?I \<union> ?J \<union> ?B) ?s5 s7" using edits_trans [OF 6(2) 7(2)] by (simp add: Un_absorb1)
    have old: "(?I \<union> ?J \<union> ?B) \<inter> {..<length (cs_graph s)} = {}"
      using b0(1) g(1) by (auto simp: new_blocks_def grows_def)
    have "grows s s7"
      by (rule grows_edits [OF _ ed old]) (use grows_trans [OF b0(1) g4(1)] in \<open>simp add: grows_def\<close>)
    moreover have "length (cs_graph s) \<le> length (cs_graph s1)" "length (cs_graph s1) \<le> length (cs_graph s2)"
      "length (cs_graph s2) \<le> length (cs_graph s3)" "length (cs_graph s7) = length (cs_graph s3)"
      using b0(1) b1(1) 3(4) ed 4(2) by (simp_all add: grows_def edits_def)
    then have "?I \<union> ?J \<union> ?B \<subseteq> new_blocks s s7" by (auto simp: new_blocks_def)
    then have "part (2 * (k0 + k1) + 6) (cs_graph s7) (new_blocks s s7) b (opt_test (opts_test (snd v0) (snd v1)) ?q)"
      by (intro part_mono [OF 7(3)]) simp_all
    then have "built (2 * (k0 + k1) + 6) s s7 b (opt_test (opts_test (snd v0) (snd v1)) ?q)"
      using ed unfolding built_part edits_def by simp
    ultimately show ?thesis using 6(1) 7(1) ed
      by (simp add: sim_at_def gbind_def gret_def edits_def)
  qed
  have "sim_at (\<lambda>s' b p. grows s s' \<and> built (2 * (k0 + k1) + 6) s s' b p)
      (gbind (free_reg (a_reg a0)) (\<lambda>_. gbind (free_reg (a_reg a1)) (\<lambda>_.
        gbind (and_opts (a_b a0) (a_b a1)) (\<lambda>tmp. and_opt tmp b))))
      (den_relation c rvs v0 v1) s4"
    unfolding den_relation_def Let_def
    by (rule two_freed_at [OF ok 0 1 _ _ rest]) (use 3(5) 4(2) in \<open>simp_all add: edits_def\<close>)
  note last = this
  have same: "abs_gen s4 = abs_gen s3" using 4(2) by (simp add: edits_def)
  show ?thesis
    unfolding gen_relation_block
    by (rule sim_at_then, rule 3(1), rule 3(2), rule sim_at_then, rule 4(1), rule same, rule last)
qed

lemma builds_relation:
  assumes "ariths k0 m0 d0" and "ariths k1 m1 d1"
  shows "builds (2 * (k0 + k1) + 6) (gbind m0 (\<lambda>a0. gbind m1 (\<lambda>a1. gen_relation (cmp_code c) a0 a1 rvs)))
    (gbind d0 (\<lambda>v0. gbind d1 (\<lambda>v1. den_relation c rvs v0 v1)))"
  unfolding builds_def sim_iff_at
proof (intro allI impI)
  fix s assume s: "gen_ok s"
  show "sim_at (\<lambda>s' b p. grows s s' \<and> built (2 * (k0 + k1) + 6) s s' b p)
      (gbind m0 (\<lambda>a0. gbind m1 (\<lambda>a1. gen_relation (cmp_code c) a0 a1 rvs)))
      (gbind d0 (\<lambda>v0. gbind d1 (\<lambda>v1. den_relation c rvs v0 v1))) s"
    using assms s unfolding ariths_at by (blast intro: sim_at_bind relation_at)
qed

section \<open>Loads\<close>

definition item_size :: "int \<Rightarrow> ld_size option" where
  "item_size sz = map_of [(1, SzB), (2, SzH), (4, SzW)] sz"

lemma size_of_item: "size_of_item sz = map_option size_code (item_size sz)"
  by (simp add: size_of_item_def item_size_def)

text \<open>The item of a header at an index, and the check that goes with it.\<close>

definition den_load_by_protocol :: "host \<Rightarrow> int \<Rightarrow> ld_size \<Rightarrow> test option \<Rightarrow> ((u32 \<Rightarrow> u32 look) \<times> test option) den" where
  "den_load_by_protocol hp proto z g =
     gbind (gget g_layout) (\<lambda>l.
       let at_start = (\<lambda>start x e. ld_ind e z x start);
         behind_header = (\<lambda>x. look_then (\<lambda>e. ldx_msh e (net_start l)) (\<lambda>h e. ld_ind e z (x + h) (net_start l))) in
       if proto = Q_RADIO then
         if linktype l \<notin> {DLT_IEEE802_11_RADIO_AVS, DLT_IEEE802_11_RADIO, DLT_PRISM_HEADER}
         then gfail (Bpf_error ''radio information not present in capture'' [])
         else gret (at_start 0, g)
       else if proto = Q_LINK then gret (at_start (constant_part (off_linkhdr l)), g)
       else if proto \<in> network_protocols then
         gbind (den_proto_abbrev hp proto) (\<lambda>q. gret (at_start (net_start l), Some (opt_test g q)))
       else if proto \<in> transport_protocols then
         gbind
           (den_and_before (gbind (den_and (den_proto_abbrev hp proto) den_ipfrag) (\<lambda>q. gret (opt_test g q)))
             (den_proto_abbrev hp Q_IP))
           (\<lambda>q. gret (behind_header, Some q))
       else if proto = Q_ICMPV6 then
         gfail (Bpf_error ''IPv6 upper-layer protocol is not supported by proto[x]'' [])
       else gfail (Bpf_error ''unsupported index operation'' []))"

definition den_item :: "host \<Rightarrow> int \<Rightarrow> arith_value \<Rightarrow> int \<Rightarrow> arith_value den" where
  "den_item hp proto v sz =
     gbind den_alloc (\<lambda>_. gbind den_free (\<lambda>_.
       case item_size sz of
         None \<Rightarrow> gfail (Bpf_error ''data size must be 1, 2, or 4'' [])
       | Some z \<Rightarrow> gbind (den_load_by_protocol hp proto z (snd v)) (\<lambda>(u, g). gret (look_then (fst v) u, g))))"

text \<open>The checks, which are added to one that is there since \<open>s\<close>.\<close>

definition checked :: "nat \<Rightarrow> cstate \<Rightarrow> bool list \<Rightarrow> cstate \<Rightarrow> nat \<Rightarrow> test \<Rightarrow> bool" where
  "checked k s used s' b p \<longleftrightarrow> grows s s' \<and> cs_regused s' = used \<and> part k (cs_graph s') (new_blocks s s') b p"

lemma blocks_apart: "new_blocks s s1 \<inter> new_blocks s1 s2 = {}"
  by (auto simp: new_blocks_def)

lemma blocks_joined: "grows s s1 \<Longrightarrow> grows s1 s2 \<Longrightarrow> new_blocks s s1 \<union> new_blocks s1 s2 = new_blocks s s2"
  by (auto simp: new_blocks_def grows_def)

lemma edits_new: "edits I s2 s3 \<Longrightarrow> new_blocks s s3 = new_blocks s s2"
  by (simp add: new_blocks_def edits_def)

lemma grows_edits_new: "grows s s2 \<Longrightarrow> edits (new_blocks s s2) s2 s3 \<Longrightarrow> grows s s3"
  by (rule grows_edits) (auto simp: new_blocks_def)

lemma sim_at_edits:
  "m s = Inr (r, s') \<Longrightarrow> edits I s s' \<Longrightarrow> W s' r q \<Longrightarrow> sim_at W m (gret q) s"
  by (simp add: sim_at_def gret_def edits_def)

lemma check_at:
  assumes "gen_ok s1" and "grows s s1" and "rel_option (part k (cs_graph s1) (new_blocks s s1)) b0 g"
    and "builds n m d"
  shows "sim_at (checked (k + n) s (cs_regused s1)) (gbind m (and_opt b0)) (gbind d (\<lambda>q. gret (opt_test g q))) s1"
proof (rule sim_at_bind)
  show "sim_at (\<lambda>s' b p. grows s1 s' \<and> built n s1 s' b p) m d s1"
    using assms(1,4) by (simp add: builds_def sim_iff_at)
  fix s2 b q assume 2: "gen_ok s2" "grows s1 s2 \<and> built n s1 s2 b q"
  then have g: "grows s1 s2" and b: "part n (cs_graph s2) (new_blocks s1 s2) b q" "cs_regused s2 = cs_regused s1"
    by (simp_all add: built_part)
  obtain s3 where 3: "and_opt b0 b s2 = Inr (b, s3)" "edits (new_blocks s s2) s2 s3"
    "part (k + n) (cs_graph s3) (new_blocks s s2) b (opt_test g q)"
    using part_and_opt [OF 2(1) blocks_apart rel_part_grows [OF assms(3) g] b(1)]
    unfolding blocks_joined [OF assms(2) g] by blast
  show "sim_at (checked (k + n) s (cs_regused s1)) (and_opt b0 b) (gret (opt_test g q)) s2"
    by (rule sim_at_edits, rule 3(1), rule 3(2))
      (use 3 b(2) grows_edits_new [OF grows_trans [OF assms(2) g] 3(2)] edits_new [OF 3(2)] in
        \<open>auto simp: checked_def edits_def\<close>)
qed

lemma checked_before_at:
  assumes m1: "sim_at (checked k s used) m1 d1 s1" and m0: "builds n m0 d0"
  shows "sim_at (checked (k + n) s used) (and_before m1 m0) (den_and_before d1 d0) s1"
  unfolding and_before_def den2_def
proof (rule sim_at_bind [OF m1])
  fix s2 b1 p assume 2: "gen_ok s2" "checked k s used s2 b1 p"
  show "sim_at (checked (k + n) s used) (gbind m0 (\<lambda>b0. gbind (gen_and_m b0 b1) (\<lambda>_. gret b1)))
      (gbind d0 (\<lambda>q. gret (and_test q p))) s2"
  proof (rule sim_at_bind)
    show "sim_at (\<lambda>s' b p. grows s2 s' \<and> built n s2 s' b p) m0 d0 s2"
      using 2(1) m0 by (simp add: builds_def sim_iff_at)
    fix s3 b0 q assume 3: "gen_ok s3" "grows s2 s3 \<and> built n s2 s3 b0 q"
    then have g: "grows s2 s3" and b0: "part n (cs_graph s3) (new_blocks s2 s3) b0 q" "cs_regused s3 = cs_regused s2"
      by (simp_all add: built_part)
    from 2(2) have c: "grows s s2" "cs_regused s2 = used" "part k (cs_graph s2) (new_blocks s s2) b1 p"
      by (simp_all add: checked_def)
    obtain s4 where 4: "on_graph (gen_and b0 b1) s3 = Inr ((), s4)" "edits (new_blocks s s3) s3 s4"
      "part (k + n) (cs_graph s4) (new_blocks s s3) b1 (and_test q p)"
      using part_join [OF joins_flip [OF joins_and] 3(1) blocks_apart part_grows [OF c(3) g] b0(1)]
      unfolding blocks_joined [OF c(1) g] by blast
    show "sim_at (checked (k + n) s used) (gbind (gen_and_m b0 b1) (\<lambda>_. gret b1)) (gret (and_test q p)) s3"
      by (rule sim_at_edits [where r = b1], rule_tac [2] 4(2))
        (use 4 b0(2) c grows_edits_new [OF grows_trans [OF c(1) g] 4(2)] edits_new [OF 4(2)] in
          \<open>auto simp: checked_def edits_def gen_and_m_def gbind_def gret_def\<close>)
  qed
qed

lemma sim_at_if:
  "(c \<Longrightarrow> sim_at W m d s) \<Longrightarrow> (\<not> c \<Longrightarrow> sim_at W m' d' s) \<Longrightarrow>
     sim_at W (if c then m else m') (if c then d else d') s"
  by simp

definition item :: "nat \<Rightarrow> slist list \<Rightarrow> (u32 \<Rightarrow> u32 look) \<Rightarrow> bool" where
  "item r ss u \<longleftrightarrow> length ss \<le> 5 \<and> (\<forall>used vm0 x.
     runs (\<lambda>vm. scratch vm ! r = x \<and> keeps_regs used vm0 vm) ss (u x) (\<lambda>y vm. reg_A vm = y \<and> keeps_regs used vm0 vm))"

lemma load_indexed_stmts:
  assumes "a_reg a < BPF_MEMWORDS"
  obtains ss n where "load_indexed a (size_code z) None start s = Inr (ss, s\<lparr>cs_next_addr := n\<rparr>)"
    "item (a_reg a) ss (\<lambda>x e. ld_ind e z x start)"
proof
  let ?ss = "[one_stmt (cs_next_addr s) (label Ldx_Mem) (of_nat (a_reg a)),
    one_stmt (cs_next_addr s + 1) (label (Ld_Ind z)) start]"
  show "load_indexed a (size_code z) None start s = Inr (?ss, s\<lparr>cs_next_addr := cs_next_addr s + 1 + 1\<rparr>)"
    unfolding load_indexed_def xfer_to_x_def arith_codes label_ld
    by (simp add: gbind_def gret_def new_stmt_eq del: label.simps)
  show "item (a_reg a) ?ss (\<lambda>x e. ld_ind e z x start)"
    using runs_indexed [OF assms] by (simp add: item_def del: label.simps)
qed

lemma load_indexed_behind_stmts:
  assumes "a_reg a < BPF_MEMWORDS"
  obtains ss n where "load_indexed a (size_code z) (Some [one_stmt i (label Ldx_Msh) k]) start s =
      Inr (ss, s\<lparr>cs_next_addr := n\<rparr>)"
    "item (a_reg a) ss (\<lambda>x. look_then (\<lambda>e. ldx_msh e k) (\<lambda>h e. ld_ind e z (x + h) start))"
proof
  let ?n = "cs_next_addr s"
  let ?ss = "[one_stmt i (label Ldx_Msh) k, one_stmt ?n (label Ld_Mem) (of_nat (a_reg a)),
    one_stmt (?n + 1) (label (Alu Add SrcX)) 0, one_stmt (?n + 1 + 1) (label Tax) 0,
    one_stmt (?n + 1 + 1 + 1) (label (Ld_Ind z)) start]"
  show "load_indexed a (size_code z) (Some [one_stmt i (label Ldx_Msh) k]) start s =
      Inr (?ss, s\<lparr>cs_next_addr := ?n + 1 + 1 + 1 + 1\<rparr>)"
    unfolding load_indexed_def xfer_to_a_def arith_codes label_ld
    by (simp add: gbind_def gret_def new_stmt_eq del: label.simps)
  show "item (a_reg a) ?ss (\<lambda>x. look_then (\<lambda>e. ldx_msh e k) (\<lambda>h e. ld_ind e z (x + h) start))"
    using runs_indexed_behind [OF assms] by (simp add: item_def del: label.simps)
qed

lemma load_flat:
  assumes "flat (cs_layout s)"
  shows "load_link a sz s = load_indexed a sz None (constant_part (off_linkhdr (cs_layout s))) s"
    "load_network a sz s = load_indexed a sz None (net_start (cs_layout s)) s"
    "load_transport a sz s = load_indexed a sz (Some [one_stmt (cs_next_addr s) (label Ldx_Msh) (net_start (cs_layout s))])
      (net_start (cs_layout s)) (s\<lparr>cs_next_addr := cs_next_addr s + 1\<rparr>)"
  using assms
  by (simp_all add: load_link_def load_network_def load_transport_def gbind_def gget_def varpart_flat flat_def
    loadx_iphdrlen_flat net_start_def new_stmt_eq)

text \<open>What \<open>load_by_protocol\<close> returns.\<close>

definition loaded_item :: "nat \<Rightarrow> cstate \<Rightarrow> bool list \<Rightarrow> nat \<Rightarrow> cstate \<Rightarrow> slist list \<times> nat option \<Rightarrow>
    (u32 \<Rightarrow> u32 look) \<times> test option \<Rightarrow> bool" where
  "loaded_item k s used r s' sb ug \<longleftrightarrow> grows s s' \<and> cs_regused s' = used \<and> item r (fst sb) (fst ug) \<and>
     rel_option (part k (cs_graph s') (new_blocks s s')) (snd sb) (snd ug)"

lemma loaded_unchecked:
  assumes "m s1 = Inr (ss, s1\<lparr>cs_next_addr := n\<rparr>)" and "item r ss u"
    and "gen_ok s1" and "grows s s1" and "rel_option (part k (cs_graph s1) (new_blocks s s1)) b g" and "k \<le> k'"
  shows "sim_at (loaded_item k' s (cs_regused s1) r) (gbind m (\<lambda>ss. gret (ss, b))) (gret (u, g)) s1"
  by (rule sim_at_then, rule assms(1), simp, rule sim_at_ret)
    (use assms(2-6) rel_part_mono [OF assms(5)] in \<open>auto simp: loaded_item_def grows_def new_blocks_def\<close>)

lemma loaded_checked:
  assumes "m s1 = Inr (ss, s1\<lparr>cs_next_addr := n\<rparr>)" and "item r ss u"
    and "sim_at (checked k s (cs_regused s1)) c d (s1\<lparr>cs_next_addr := n\<rparr>)" and "k \<le> k'"
  shows "sim_at (loaded_item k' s (cs_regused s1) r) (gbind m (\<lambda>ss. gbind c (\<lambda>b. gret (ss, Some b))))
    (gbind d (\<lambda>q. gret (u, Some q))) s1"
proof (rule sim_at_then, rule assms(1), simp, rule sim_at_bind [OF assms(3)])
  fix s' b q assume "gen_ok s'" "checked k s (cs_regused s1) s' b q"
  then show "sim_at (loaded_item k' s (cs_regused s1) r) (gret (ss, Some b)) (gret (u, Some q)) s'"
    using assms(2,4) by (intro sim_at_ret) (auto simp: loaded_item_def checked_def intro: part_mono)
qed

lemma load_by_protocol_at:
  assumes s1: "gen_ok s1" and g: "grows s s1" and r: "a_reg a < BPF_MEMWORDS"
    and b: "rel_option (part k (cs_graph s1) (new_blocks s s1)) (a_b a) p"
  shows "sim_at (loaded_item (k + 1805) s (cs_regused s1) (a_reg a)) (load_by_protocol hp proto a (size_code z))
    (den_load_by_protocol hp proto z p) s1"
proof -
  let ?l = "cs_layout s1" and ?r = "a_reg a"
  let ?W = "loaded_item (k + 1805) s (cs_regused s1) ?r"
  have flat: "flat ?l" using s1 by (simp add: gen_ok_def)
  have n: "gen_ok (s1\<lparr>cs_next_addr := n\<rparr>)" "grows s (s1\<lparr>cs_next_addr := n\<rparr>)"
    "rel_option (part k (cs_graph (s1\<lparr>cs_next_addr := n\<rparr>)) (new_blocks s (s1\<lparr>cs_next_addr := n\<rparr>))) (a_b a) p" for n
    using s1 g b by (simp_all add: grows_def new_blocks_def)
  have plain: "sim_at ?W (gbind m (\<lambda>ss. gret (ss, a_b a))) (gret (\<lambda>x e. ld_ind e z x start, p)) s1"
    if m: "\<And>s'. s' = s1 \<Longrightarrow> m s' = load_indexed a (size_code z) None start s'" for m start
    by (rule load_indexed_stmts [OF r, of z start s1])
      (rule loaded_unchecked [OF _ _ s1 g b]; simp add: m [OF refl])
  have network: "sim_at ?W (gbind (load_network a (size_code z)) (\<lambda>ss. gbind (check_network hp proto (a_b a)) (\<lambda>b. gret (ss, Some b))))
      (gbind (gbind (den_proto_abbrev hp proto) (\<lambda>q. gret (opt_test p q))) (\<lambda>q. gret (\<lambda>x e. ld_ind e z x (net_start ?l), Some q))) s1"
  proof (rule load_indexed_stmts [OF r, of z "net_start ?l" s1])
    fix ss n assume 1: "load_indexed a (size_code z) None (net_start ?l) s1 = Inr (ss, s1\<lparr>cs_next_addr := n\<rparr>)"
      "item ?r ss (\<lambda>x e. ld_ind e z x (net_start ?l))"
    have c: "sim_at (checked (k + 900) s (cs_regused s1)) (check_network hp proto (a_b a))
        (gbind (den_proto_abbrev hp proto) (\<lambda>q. gret (opt_test p q))) (s1\<lparr>cs_next_addr := n\<rparr>)"
      using check_at [OF n builds_proto_abbrev] by (simp add: check_network_def)
    show ?thesis by (rule loaded_checked [OF _ 1(2) c]) (simp_all add: load_flat [OF flat] 1(1))
  qed
  have transport: "sim_at ?W (gbind (load_transport a (size_code z)) (\<lambda>ss. gbind (check_transport hp proto (a_b a)) (\<lambda>b. gret (ss, Some b))))
      (gbind (den_and_before (gbind (den_and (den_proto_abbrev hp proto) den_ipfrag) (\<lambda>q. gret (opt_test p q))) (den_proto_abbrev hp Q_IP))
        (\<lambda>q. gret (\<lambda>x. look_then (\<lambda>e. ldx_msh e (net_start ?l)) (\<lambda>h e. ld_ind e z (x + h) (net_start ?l)), Some q))) s1"
  proof (rule load_indexed_behind_stmts [OF r, of z "cs_next_addr s1" "net_start ?l" "net_start ?l" "s1\<lparr>cs_next_addr := cs_next_addr s1 + 1\<rparr>"])
    let ?u = "\<lambda>x. look_then (\<lambda>e. ldx_msh e (net_start ?l)) (\<lambda>h e. ld_ind e z (x + h) (net_start ?l))"
    fix ss n assume 1: "load_indexed a (size_code z) (Some [one_stmt (cs_next_addr s1) (label Ldx_Msh) (net_start ?l)]) (net_start ?l)
        (s1\<lparr>cs_next_addr := cs_next_addr s1 + 1\<rparr>) = Inr (ss, s1\<lparr>cs_next_addr := cs_next_addr s1 + 1, cs_next_addr := n\<rparr>)"
      "item ?r ss ?u"
    have "builds 905 (both_and (gen_proto_abbrev hp proto) gen_ipfrag) (den_and (den_proto_abbrev hp proto) den_ipfrag)"
      by (rule builds_mono) (rule builds | simp)+
    from checked_before_at [OF check_at [OF n this] builds_proto_abbrev]
    have c: "sim_at (checked (k + 905 + 900) s (cs_regused s1)) (check_transport hp proto (a_b a))
        (den_and_before (gbind (den_and (den_proto_abbrev hp proto) den_ipfrag) (\<lambda>q. gret (opt_test p q))) (den_proto_abbrev hp Q_IP))
        (s1\<lparr>cs_next_addr := n\<rparr>)"
      unfolding check_transport_def by simp
    show ?thesis by (rule loaded_checked [OF _ 1(2) c]) (use 1(1) in \<open>simp_all add: load_flat [OF flat] del: label.simps\<close>)
  qed
  let ?S = "{DLT_IEEE802_11_RADIO_AVS, DLT_IEEE802_11_RADIO, DLT_PRISM_HEADER}"
  have radio: "sim_at ?W
      (gbind (gget cs_layout) (\<lambda>l. if linktype l \<notin> ?S then gfail err
        else gbind (load_indexed a (size_code z) None 0) (\<lambda>s. gret (s, a_b a))))
      (if linktype ?l \<notin> ?S then gfail err else gret (\<lambda>x e. ld_ind e z x 0, p)) s1" for err
    by (rule sim_at_gen_layout) (intro sim_at_if sim_at_fail plain, simp)
  have network': "sim_at ?W (gbind (load_network a (size_code z)) (\<lambda>ss. gbind (check_network hp proto (a_b a)) (\<lambda>b. gret (ss, Some b))))
      (gbind (den_proto_abbrev hp proto) (\<lambda>q. gret (\<lambda>x e. ld_ind e z x (net_start ?l), Some (opt_test p q)))) s1"
    using network by (simp add: gbind_assoc)
  show ?thesis
    unfolding load_by_protocol_def den_load_by_protocol_def Let_def
    by (rule sim_at_den_layout)
      (intro sim_at_if sim_at_fail radio network' transport plain, simp add: load_flat [OF flat])
qed

lemma swapped_reg:
  "r < length u \<Longrightarrow> \<not> u ! r \<Longrightarrow> \<not> u[r := True] ! r' \<Longrightarrow> u[r := True, r' := True, r := False] = (u :: bool list)[r' := True]"
  by (cases "r' < length u"; rule nth_equalityI) (auto simp: nth_list_update list_update_beyond)

lemma item_at:
  assumes ok: "gen_ok s" "gen_ok s1" and a: "arth_built k s s1 a v"
  shows "sim_at (arth_built (k + 1805) s) (gen_load hp proto a sz) (den_item hp proto v sz) s1"
  unfolding gen_load_def den_item_def
proof (rule sim_at_bind [OF sim_at_alloc [OF ok(2)]], elim conjE)
  note b = arth_builtD [OF a]
  let ?u = "cs_regused s" and ?i = "a_reg a"
  have len: "length ?u = BPF_MEMWORDS" using ok(1) by (simp add: gen_ok_def)
  fix s2 r
  assume 2: "gen_ok s2" "r < BPF_MEMWORDS" "\<not> cs_regused s1 ! r"
    "s2 = s1\<lparr>cs_regused := (cs_regused s1)[r := True], cs_curreg := r\<rparr>"
  have u2: "cs_regused s2 = ?u[?i := True, r := True]" using 2(4) b(4) by simp
  have ne: "r \<noteq> ?i" "\<not> ?u ! r" using 2(3) b(2-4) len by (auto simp: nth_list_update split: if_splits)
  show "sim_at (arth_built (k + 1805) s)
      (gbind (free_reg ?i) (\<lambda>_. case size_of_item sz of None \<Rightarrow> gfail (Bpf_error ''data size must be 1, 2, or 4'' [])
        | Some sz \<Rightarrow> gbind (load_by_protocol hp proto a sz) (\<lambda>(s, b). gbind (store_in r)
            (\<lambda>st. gret \<lparr>a_b = b, a_s = a_s a @ s @ st, a_reg = r\<rparr>))))
      (gbind den_free (\<lambda>_. case item_size sz of None \<Rightarrow> gfail (Bpf_error ''data size must be 1, 2, or 4'' [])
        | Some z \<Rightarrow> gbind (den_load_by_protocol hp proto z (snd v)) (\<lambda>(u, g). gret (look_then (fst v) u, g)))) s2"
  proof (rule sim_at_bind [OF sim_at_free [OF 2(1) b(2)]])
    show "cs_regused s2 ! ?i" using u2 ne b(2) len by (simp add: nth_list_update)
    fix s3 assume 3: "gen_ok s3" "s3 = s2\<lparr>cs_regused := (cs_regused s2)[?i := False]\<rparr>"
    have u3: "cs_regused s3 = ?u[r := True]"
      using swapped_reg [of ?i ?u r] b(2,3) len 2(3) b(4) 3(2) u2 by simp
    have g3: "grows s s3" "rel_option (part k (cs_graph s3) (new_blocks s s3)) (a_b a) (snd v)"
      using b(1,7) 2(4) 3(2) by (simp_all add: grows_def new_blocks_def)
    show "sim_at (arth_built (k + 1805) s)
        (case size_of_item sz of None \<Rightarrow> gfail (Bpf_error ''data size must be 1, 2, or 4'' [])
          | Some sz \<Rightarrow> gbind (load_by_protocol hp proto a sz) (\<lambda>(s, b). gbind (store_in r)
              (\<lambda>st. gret \<lparr>a_b = b, a_s = a_s a @ s @ st, a_reg = r\<rparr>)))
        (case item_size sz of None \<Rightarrow> gfail (Bpf_error ''data size must be 1, 2, or 4'' [])
          | Some z \<Rightarrow> gbind (den_load_by_protocol hp proto z (snd v)) (\<lambda>(u, g). gret (look_then (fst v) u, g))) s3"
    proof (cases "item_size sz")
      case None
      then show ?thesis by (simp add: size_of_item sim_at_fail)
    next
      case (Some z)
      have "sim_at (arth_built (k + 1805) s)
          (gbind (load_by_protocol hp proto a (size_code z)) (\<lambda>(s, b). gbind (store_in r)
            (\<lambda>st. gret \<lparr>a_b = b, a_s = a_s a @ s @ st, a_reg = r\<rparr>)))
          (gbind (den_load_by_protocol hp proto z (snd v)) (\<lambda>(u, g). gret (look_then (fst v) u, g))) s3"
      proof (rule sim_at_bind [OF load_by_protocol_at [OF 3(1) g3(1) b(2) g3(2)]])
        fix s4 sb ug assume 4: "gen_ok s4" "loaded_item (k + 1805) s (cs_regused s3) ?i s4 sb ug"
        obtain ss p u q where sb: "sb = (ss, p)" "ug = (u, q)" by (cases sb, cases ug)
        have run: "evals ?u (a_s a @ ss @ [one_stmt i (label St) (of_nat r)]) (look_then (fst v) u) r" for i
          using 4(2) by (intro evals_then [OF b(5) 2(2) ne(2)]) (simp add: loaded_item_def item_def sb)
        have "sim_at (arth_built (k + 1805) s)
            (gbind (new_stmt (label St) (of_nat r)) (\<lambda>st. gret \<lparr>a_b = p, a_s = a_s a @ ss @ st, a_reg = r\<rparr>))
            (gret (look_then (fst v) u, q)) s4"
          using 4 run ne(2) b(6) u3
          by (intro sim_at_new_stmt sim_at_ret) (auto simp: arth_built_def loaded_item_def item_def sb simp del: label.simps)
        then show "sim_at (arth_built (k + 1805) s)
            (case sb of (s, b) \<Rightarrow> gbind (store_in r) (\<lambda>st. gret \<lparr>a_b = b, a_s = a_s a @ s @ st, a_reg = r\<rparr>))
            (case ug of (u, g) \<Rightarrow> gret (look_then (fst v) u, g)) s4"
          unfolding sb store_in_def arith_codes prod.case .
      qed
      then show ?thesis using Some by (simp add: size_of_item)
    qed
  qed
qed

lemma ariths_item: "ariths k m d \<Longrightarrow> ariths (k + 1805) (gbind m (\<lambda>a. gen_load hp proto a sz)) (gbind d (\<lambda>v. den_item hp proto v sz))"
  by (rule ariths_bind [OF _ item_at])

lemmas ariths_rules = ariths_loadi ariths_loadlen ariths_neg ariths_arth ariths_item

section \<open>Direction\<close>

definition den_slip_direction :: "host \<Rightarrow> bool \<Rightarrow> test den" where
  "den_slip_direction hp dir =
     gbind (gbind (den_constant (\<lambda>e. Inl 0)) (\<lambda>v. den_item hp Q_LINK v 1)) (\<lambda>v0.
     gbind (den_constant (\<lambda>e. Inl 0)) (\<lambda>v1. den_relation Jeq dir v0 v1))"

lemma builds_slip_direction [builds]: "builds 3624 (slip_direction hp dir) (den_slip_direction hp dir)"
proof -
  have code: "BPF_JEQ = cmp_code Jeq" by simp
  show ?thesis
    unfolding slip_direction_def den_slip_direction_def code
    by (rule builds_mono [OF builds_relation [OF ariths_item [OF ariths_loadi] ariths_loadi]]) simp
qed

definition den_inbound :: "host \<Rightarrow> bool \<Rightarrow> test den" where
  "den_inbound hp dir =
     gbind (gget g_layout) (\<lambda>l.
       if linktype l = DLT_SLIP then den_slip_direction hp dir
       else if linktype l = DLT_IPNET then den_cmp OR_LINKHDR 2 SzH (if dir then 1 else 2)
       else if linktype l = DLT_LINUX_SLL then
         (if \<not> dir then den_not (den_cmp OR_LINKHDR 0 SzH 4) else den_cmp OR_LINKHDR 0 SzH 4)
       else if linktype l = DLT_PPP_PPPD then den_cmp OR_LINKHDR 0 SzB (if dir then 1 else 0)
       else if linktype l \<in> {DLT_JUNIPER_MFR, DLT_JUNIPER_MLFR, DLT_JUNIPER_MLPPP, DLT_JUNIPER_ATM1,
           DLT_JUNIPER_ATM2, DLT_JUNIPER_PPPOE, DLT_JUNIPER_PPPOE_ATM, DLT_JUNIPER_GGSN, DLT_JUNIPER_ES,
           DLT_JUNIPER_MONITOR, DLT_JUNIPER_SERVICES, DLT_JUNIPER_ETHER, DLT_JUNIPER_PPP,
           DLT_JUNIPER_FRELAY, DLT_JUNIPER_CHDLC, DLT_JUNIPER_VP, DLT_JUNIPER_ST, DLT_JUNIPER_ISM,
           DLT_JUNIPER_VS, DLT_JUNIPER_SRX_E2E, DLT_JUNIPER_FIBRECHANNEL, DLT_JUNIPER_ATM_CEMIC} then
         den_mcmp OR_LINKHDR 3 SzB (if dir then 0 else 1) 0x01
       else
         (case h_pkttype hp of
            None \<Rightarrow> gfail (Bpf_error ''inbound/outbound not supported on linktype %d'' [linktype l])
          | Some (offset, outgoing) \<Rightarrow>
              if h_rfile hp
              then gfail (Bpf_error ''inbound/outbound not supported on linktype %d when reading savefiles'' [linktype l])
              else if \<not> dir then den_not (den_cmp OR_LINKHDR offset SzH outgoing)
              else den_cmp OR_LINKHDR offset SzH outgoing))"

lemma builds_inbound [builds]: "builds 3624 (gen_inbound hp dir) (den_inbound hp dir)"
  unfolding gen_inbound_def den_inbound_def
  by (rule builds_mono) (rule builds | simp)+

end
