(* ===== verification/Filter_Compile.thy ===== *)
theory Filter_Compile
  imports Filter_Syntax Name_Tests Layer_Tests Arith_Values
begin

unbundle bit_operations_syntax

text \<open>
  The filter compiler end to end: what a filter means, and that the program \<open>pcap_compile\<close> makes
  of it returns the snapshot length exactly on the packets for which the filter holds.

  The meaning of a filter is a test of packets, or the error with which its compilation ends. It
  is defined along the parse tree, without blocks, back-patching, registers or instructions; the
  state it carries are the offsets of the headers, which \<open>vlan\<close>, \<open>mpls\<close> and \<open>pppoes\<close> move, the
  netmask, and the number of free registers.
\<close>

section \<open>The meaning of filters\<close>

definition den_host_id :: "host \<Rightarrow> string \<Rightarrow> qual \<Rightarrow> test den" where
  "den_host_id hp s q =
     (case map_of [(Q_PORT, ''port''), (Q_PORTRANGE, ''portrange''), (Q_PROTO, ''proto''), (Q_PROTOCHAIN, ''protochain'')]
        (q_addr q) of
        Some n \<Rightarrow> gfail (Bpf_error (quoted n '' modifier applied to ip host'') [])
      | None \<Rightarrow> den_ncode hp (Some s) 0 q)"

fun den_ident :: "databases \<Rightarrow> host \<Rightarrow> qual \<Rightarrow> ident \<Rightarrow> test den" where
  "den_ident db hp q (Name s) = den_scode db hp (h_fddipad hp) s q"
| "den_ident db hp q (Host_len s n) = den_mcode hp s None n q"
| "den_ident db hp q (Host_mask s m) = den_mcode hp s (Some m) 0 q"
| "den_ident db hp q (Host_id s) = den_host_id hp s q"
| "den_ident db hp q (Host6_len s n) = den_mcode6 db hp s None n q"
| "den_ident db hp q (Host6_id s) = den_mcode6 db hp s None 128 q"
| "den_ident db hp q (Ether_id a) = den_ecode (h_fddipad hp) a q"
| "den_ident db hp q (Arcnet_id a) = den_acode a q"
| "den_ident db hp q (Number v) = den_ncode hp None v q"
| "den_ident db hp q (Not_id i) = den_not (den_ident db hp q i)"
| "den_ident db hp q (And_ids i j) = den_and (den_ident db hp q i) (den_ident db hp q j)"
| "den_ident db hp q (Or_ids i j) = den_or (den_ident db hp q i) (den_ident db hp q j)"

fun den_arith :: "host \<Rightarrow> arith \<Rightarrow> arith_value den" where
  "den_arith hp (Constant v) = den_constant (\<lambda>e. Inl v)"
| "den_arith hp (Item proto a sz) = gbind (den_arith hp a) (\<lambda>v. den_item hp proto v sz)"
| "den_arith hp (Operation op' a b) = gbind (den_arith hp a) (\<lambda>v0. gbind (den_arith hp b) (\<lambda>v1. den_arth op' v0 v1))"
| "den_arith hp (Negative a) = gbind (den_arith hp a) den_neg"
| "den_arith hp Packet_length = den_constant (\<lambda>e. Inl (wirelen e))"

definition den_value :: "(u32 \<Rightarrow> cmp \<Rightarrow> bool \<Rightarrow> test den) \<Rightarrow> field_value \<Rightarrow> test den" where
  "den_value fld v =
     (case v of
        Value n \<Rightarrow> fld n Jeq False
      | Compared c rvs n \<Rightarrow> fld n c rvs
      | Any_of n ns \<Rightarrow> den_or_each (fld n Jeq False) (map (\<lambda>n. fld n Jeq False) ns))"

definition den_llc_named :: "string \<Rightarrow> test den" where
  "den_llc_named s =
     (if pcap_strcasecmp (c_str s) (c_str ''i'') = 0 then den_llc_i
      else if pcap_strcasecmp (c_str s) (c_str ''s'') = 0 then den_llc_s
      else if pcap_strcasecmp (c_str s) (c_str ''u'') = 0 then den_llc_u
      else if str2tok s llc_s_subtypes \<noteq> - 1 then den_llc_s_subtype (word_of_int (str2tok s llc_s_subtypes))
      else if str2tok s llc_u_subtypes = - 1 then gfail (Bpf_error (''unknown LLC type name '' @ dquoted s) [])
      else den_llc_u_subtype (word_of_int (str2tok s llc_u_subtypes)))"

definition den_byteop :: "char \<Rightarrow> u32 \<Rightarrow> u32 \<Rightarrow> test den" where
  "den_byteop op' idx val =
     (if op' = CHR ''='' then den_cmp OR_LINKHDR idx SzB val
      else if op' = CHR ''<'' then den_cmp_lt OR_LINKHDR idx SzB val
      else if op' = CHR ''>'' then den_cmp_gt OR_LINKHDR idx SzB val
      else gfail Aborts)"

text \<open>The names of 802.11 types and subtypes, for any kind of test.\<close>

definition den_named :: "int \<Rightarrow> string \<Rightarrow> (u32 \<Rightarrow> 'a den) \<Rightarrow> 'a den" where
  "den_named v err f = (if v = - 1 then gfail (Bpf_error err []) else f (word_of_int v))"

definition den_wlan_type :: "num_or_id \<Rightarrow> (u32 \<Rightarrow> 'a den) \<Rightarrow> 'a den" where
  "den_wlan_type ty f =
     (case ty of Number_value v \<Rightarrow> f v
      | Name_value s \<Rightarrow> den_named (str2tok s ieee80211_types) ''unknown 802.11 type name'' f)"

definition den_wlan_subtype :: "u32 \<Rightarrow> num_or_id \<Rightarrow> (u32 \<Rightarrow> 'a den) \<Rightarrow> 'a den" where
  "den_wlan_subtype ty sub f =
     (case sub of
        Number_value v \<Rightarrow> f v
      | Name_value s \<Rightarrow>
          (case find (\<lambda>(t, _). ty = word_of_int t) ieee80211_type_subtypes of
             None \<Rightarrow> gfail (Bpf_error ''unknown 802.11 type'' [])
           | Some (_, toks) \<Rightarrow> den_named (str2tok s toks) ''unknown 802.11 subtype name'' f))"

definition den_wlan_type_subtype :: "string \<Rightarrow> (u32 \<Rightarrow> 'a den) \<Rightarrow> 'a den" where
  "den_wlan_type_subtype s f =
     (case find (\<lambda>(_, toks). str2tok s toks \<noteq> - 1) ieee80211_type_subtypes of
        None \<Rightarrow> gfail (Bpf_error ''unknown 802.11 type name'' [])
      | Some (t, toks) \<Rightarrow> f (word_of_int (str2tok s toks) OR word_of_int t))"

definition den_wlan_dir :: "num_or_id \<Rightarrow> (u32 \<Rightarrow> 'a den) \<Rightarrow> 'a den" where
  "den_wlan_dir d f =
     (case d of
        Number_value v \<Rightarrow> f v
      | Name_value s \<Rightarrow> den_named (str2tok s [(0, ''nods''), (1, ''tods''), (2, ''fromds''), (3, ''dstods'')])
          ''unknown 802.11 direction'' f)"

definition den_no_pf :: "string \<Rightarrow> test den" where
  "den_no_pf where' = gfail (Bpf_error (''libpcap was compiled '' @ where' @ ''without pf support'') [])"

text \<open>The filters that the next definition is about are those of \<open>plain_expr\<close> below.\<close>

fun den_expr :: "databases \<Rightarrow> host \<Rightarrow> qual \<Rightarrow> fexpr \<Rightarrow> test den" where
  "den_expr db hp q (Head q' i) = den_ident db hp q' i"
| "den_expr db hp q (Paren e) = den_expr db hp q e"
| "den_expr db hp q (Proto_name p) = den_proto_abbrev hp p"
| "den_expr db hp q (Relation c rvs a b) =
     gbind (den_arith hp a) (\<lambda>v0. gbind (den_arith hp b) (\<lambda>v1. den_relation c rvs v0 v1))"
| "den_expr db hp q (Broadcast p) = den_broadcast hp p"
| "den_expr db hp q (Multicast p) = den_multicast hp p"
| "den_expr db hp q (Less n) = den_not (gret (len_test Jgt n))"
| "den_expr db hp q (Greater n) = gret (len_test Jge n)"
| "den_expr db hp q (Byte_test op' idx v) = den_byteop op' idx v"
| "den_expr db hp q (Inbound dir) = den_inbound hp dir"
| "den_expr db hp q (Vlan n) = den_vlan hp (number_or_any n)"
| "den_expr db hp q (Mpls n) = den_mpls hp (number_or_any n)"
| "den_expr db hp q Pppoed = den_pppoed hp"
| "den_expr db hp q (Pppoes n) = den_pppoes hp (number_or_any n)"
| "den_expr db hp q (Geneve n) = gfail Aborts"
| "den_expr db hp q (Pf_ifname s) = den_no_pf []"
| "den_expr db hp q (Wlan_type ty sub) =
     den_wlan_type ty (\<lambda>t.
       case sub of
         None \<Rightarrow> den_p80211_type t IEEE80211_FC0_TYPE_MASK
       | Some s \<Rightarrow> den_wlan_subtype t s (\<lambda>s. den_p80211_type (t OR s) (IEEE80211_FC0_TYPE_MASK OR IEEE80211_FC0_SUBTYPE_MASK)))"
| "den_expr db hp q (Wlan_subtype s) =
     den_wlan_type_subtype s (\<lambda>v. den_p80211_type v (IEEE80211_FC0_TYPE_MASK OR IEEE80211_FC0_SUBTYPE_MASK))"
| "den_expr db hp q (Wlan_dir d) = den_wlan_dir d den_p80211_fcdir"
| "den_expr db hp q (Llc s) = (case s of None \<Rightarrow> den_llc | Some s \<Rightarrow> den_llc_named s)"
| "den_expr db hp q Llc_rnr = den_llc_s_subtype 0x05"
| "den_expr db hp q (Atm_type ty) = den_atmtype_abbrev ty"
| "den_expr db hp q (Atm_multi ty) = den_atmmulti_abbrev ty"
| "den_expr db hp q (Atm_field fld v) = den_value (den_atmfield_code fld) v"
| "den_expr db hp q (Mtp2_type ty) = den_mtp2type_abbrev ty"
| "den_expr db hp q (Mtp3_field fld v) = den_value (den_mtp3field_code fld) v"
| "den_expr db hp q (Not_term e) = den_not (den_expr db hp q e)"
| "den_expr db hp q (And_term e e') = den_and (den_expr db hp q e) (den_expr db hp (qual_of q e) e')"
| "den_expr db hp q (Or_term e e') = den_or (den_expr db hp q e) (den_expr db hp (qual_of q e) e')"
| "den_expr db hp q (And_id e i) = den_and (den_expr db hp q e) (den_ident db hp (qual_of q e) i)"
| "den_expr db hp q (Or_id e i) = den_or (den_expr db hp q e) (den_ident db hp (qual_of q e) i)"
| "den_expr db hp q _ = den_no_pf ''on a machine ''"

section \<open>Filters without loops and without stray accumulators\<close>

text \<open>
  Excluded are \<open>protochain\<close>, whose code is a loop, \<open>geneve\<close>, which makes the offsets variable, and
  \<open>byte n & v\<close> and \<open>byte n | v\<close>, whose code does not load the byte.
\<close>

definition plain_quals :: "qual \<Rightarrow> bool" where
  "plain_quals q \<longleftrightarrow> q_addr q \<noteq> Q_PROTOCHAIN"

fun plain_expr :: "fexpr \<Rightarrow> bool" where
  "plain_expr (Head q i) = plain_quals q"
| "plain_expr (Byte_test op' idx v) = (op' \<noteq> CHR ''&'' \<and> op' \<noteq> CHR ''|'')"
| "plain_expr (Geneve n) = False"
| "plain_expr (Paren e) = plain_expr e"
| "plain_expr (Not_term e) = plain_expr e"
| "plain_expr (And_term e e') = (plain_expr e \<and> plain_expr e')"
| "plain_expr (Or_term e e') = (plain_expr e \<and> plain_expr e')"
| "plain_expr (And_id e i) = plain_expr e"
| "plain_expr (Or_id e i) = plain_expr e"
| "plain_expr _ = True"

text \<open>A bound for the number of instructions.\<close>

fun ident_size :: "databases \<Rightarrow> ident \<Rightarrow> nat" where
  "ident_size db (Name s) = 504 * Suc (addresses_of db s)"
| "ident_size db (Not_id i) = ident_size db i"
| "ident_size db (And_ids i j) = ident_size db i + ident_size db j"
| "ident_size db (Or_ids i j) = ident_size db i + ident_size db j"
| "ident_size db _ = 504"

fun arith_size :: "arith \<Rightarrow> nat" where
  "arith_size (Item proto a sz) = arith_size a + 1805"
| "arith_size (Operation op' a b) = arith_size a + arith_size b + 4"
| "arith_size (Negative a) = arith_size a + 3"
| "arith_size _ = 2"

fun value_size :: "field_value \<Rightarrow> nat" where
  "value_size (Any_of n ns) = 6 + length ns * 6"
| "value_size _ = 6"

fun expr_size :: "databases \<Rightarrow> fexpr \<Rightarrow> nat" where
  "expr_size db (Head q i) = ident_size db i"
| "expr_size db (Paren e) = expr_size db e"
| "expr_size db (Relation c rvs a b) = 2 * (arith_size a + arith_size b) + 6"
| "expr_size db (Atm_field fld v) = value_size v"
| "expr_size db (Mtp3_field fld v) = value_size v"
| "expr_size db (Not_term e) = expr_size db e"
| "expr_size db (And_term e e') = expr_size db e + expr_size db e'"
| "expr_size db (Or_term e e') = expr_size db e + expr_size db e'"
| "expr_size db (And_id e i) = expr_size db e + ident_size db i"
| "expr_size db (Or_id e i) = expr_size db e + ident_size db i"
| "expr_size db _ = 3624"

section \<open>The generated graph decides the meaning\<close>

lemma builds_host_id [builds]:
  assumes "plain_quals q"
  shows "builds 504 (host_id hp s q) (den_host_id hp s q)"
  unfolding host_id_def den_host_id_def
  by (rule builds_mono) (rule builds assms [unfolded plain_quals_def] | simp)+

lemma builds_ident:
  assumes "plain_quals q"
  shows "builds (ident_size db i) (gen_ident db hp q i) (den_ident db hp q i)"
proof (induction i)
  case (Name s)
  show ?case using builds_scode assms by (simp add: plain_quals_def)
next
  case (Number v)
  show ?case using builds_ncode assms by (simp add: plain_quals_def)
next
  case (Host_id s)
  show ?case using builds_host_id [OF assms] by simp
qed (simp_all add: builds_pairs builds_negated builds_mcode builds_mcode6 [THEN builds_mono]
  builds_ecode [THEN builds_mono] builds_acode [THEN builds_mono])

lemma ariths_arith: "ariths (arith_size a) (gen_arith hp a) (den_arith hp a)"
  by (induction a) (simp_all add: ariths_rules)

lemma builds_value:
  assumes "\<And>n c rvs. builds 6 (m n (cmp_code c) rvs) (d n c rvs)"
  shows "builds (value_size v) (gen_field m v) (den_value d v)"
proof (cases v)
  case (Value n)
  then show ?thesis using assms [of n Jeq False] by (simp add: gen_field_def den_value_def)
next
  case (Compared c rvs n)
  then show ?thesis using assms by (simp add: gen_field_def den_value_def)
next
  case (Any_of n ns)
  have "builds 6 (m n BPF_JEQ False) (d n Jeq False)" for n using assms [of n Jeq False] by simp
  from builds_or_each [of 6 _ _ 6 "\<lambda>n. m n BPF_JEQ False" "\<lambda>n. d n Jeq False", OF this this] Any_of
  show ?thesis by (simp add: gen_field_def den_value_def)
qed

lemma builds_byteop:
  assumes "op' \<noteq> CHR ''&''" and "op' \<noteq> CHR ''|''"
  shows "builds 6 (gen_byteop op' idx v) (den_byteop op' idx v)"
  unfolding gen_byteop_def den_byteop_def if_not_P [OF assms(1)] if_not_P [OF assms(2)]
  by (rule builds_mono) (rule builds | simp)+

lemma builds_named:
  "(\<And>v. builds k (m v) (d v)) \<Longrightarrow> builds k (named v err m) (den_named v err d)"
  unfolding named_def den_named_def by (auto intro: builds_mono [OF builds_fail])

lemma builds_wlan:
  assumes "\<And>v. builds k (m v) (d v)"
  shows "builds k (wlan_type ty m) (den_wlan_type ty d)"
    "builds k (wlan_subtype t sub m) (den_wlan_subtype t sub d)"
    "builds k (wlan_type_subtype s m) (den_wlan_type_subtype s d)"
    "builds k (wlan_dir ty m) (den_wlan_dir ty d)"
  unfolding wlan_type_def den_wlan_type_def wlan_subtype_def den_wlan_subtype_def
    wlan_type_subtype_def den_wlan_type_subtype_def wlan_dir_def den_wlan_dir_def
  by (auto intro: assms builds_named builds_mono [OF builds_fail] split: num_or_id.split option.split)

lemma builds_llc_named: "builds 18 (llc_named s) (den_llc_named s)"
  unfolding llc_named_def den_llc_named_def by (rule builds_mono) (rule builds | simp)+

lemma builds_no_pf: "builds k (no_pf w) (den_no_pf w)"
  unfolding no_pf_def den_no_pf_def by (rule builds_mono [OF builds_fail]) simp

lemma plain_qual_of: "plain_expr e \<Longrightarrow> plain_quals q \<Longrightarrow> plain_quals (qual_of q e)"
  by (induction q e rule: qual_of.induct) (simp_all add: qerr_def plain_quals_def)

lemmas builds_terms =
  builds_proto_abbrev builds_broadcast builds_multicast builds_gen_len builds_inbound builds_vlan builds_mpls
  builds_pppoed builds_pppoes builds_llc builds_llc_s_subtype builds_atmtype_abbrev builds_atmmulti_abbrev
  builds_mtp2type_abbrev

lemma builds_expr:
  "plain_expr e \<Longrightarrow> plain_quals q \<Longrightarrow> builds (expr_size db e) (gen_expr db hp q e) (den_expr db hp q e)"
proof (induction e arbitrary: q)
  case (Head q' i)
  then show ?case by (simp add: builds_ident)
next
  case (Relation c rvs a b)
  then show ?case using builds_relation [OF ariths_arith ariths_arith] by simp
next
  case (Byte_test op' idx v)
  then show ?case using builds_byteop [THEN builds_mono] by simp
next
  case (Wlan_type ty sub)
  have "builds 6 (case sub of None \<Rightarrow> gen_p80211_type t msk
        | Some s \<Rightarrow> wlan_subtype t s (\<lambda>s. gen_p80211_type (t OR s) msk'))
      (case sub of None \<Rightarrow> den_p80211_type t msk
        | Some s \<Rightarrow> den_wlan_subtype t s (\<lambda>s. den_p80211_type (t OR s) msk'))" for t msk msk'
    by (auto intro: builds_wlan builds_p80211_type split: option.split)
  note sub = this
  show ?case by (simp only: gen_expr.simps den_expr.simps expr_size.simps) (rule builds_mono, rule builds_wlan(1), rule sub, simp)
next
  case (Wlan_subtype s)
  show ?case by (simp only: gen_expr.simps den_expr.simps expr_size.simps) (rule builds_mono, rule builds_wlan(3), rule builds_p80211_type, simp)
next
  case (Wlan_dir d)
  show ?case by (simp only: gen_expr.simps den_expr.simps expr_size.simps) (rule builds_mono, rule builds_wlan(4), rule builds_p80211_fcdir, simp)
next
  case (Llc s)
  show ?case using builds_llc [THEN builds_mono] builds_llc_named [THEN builds_mono] by (cases s) simp_all
next
  case (Atm_field fld v)
  show ?case by (simp, rule builds_value, rule builds_atmfield_code, rule refl)
next
  case (Mtp3_field fld v)
  show ?case by (simp, rule builds_value, rule builds_mtp3field_code, rule refl)
next
  case (Pf_reason r)
  show ?case by (cases r) (simp_all add: builds_no_pf no_pf_value_def gen_pf_reason_def)
qed (simp_all add: builds_terms [THEN builds_mono] builds_pairs builds_negated builds_ident plain_qual_of
  builds_no_pf gen_pf_ifname_def gen_pf_ruleset_def gen_pf_rnr_def gen_pf_srnr_def)

section \<open>Compilation\<close>

text \<open>With fixed offsets there is nothing to compute before the first test.\<close>

lemma finish_parse_flat:
  assumes "flat (cs_layout s)"
  shows "finish_parse p s =
    (case finish_branches (cs_snaplen s) p (cs_graph s) of
       None \<Rightarrow> Inl No_result
     | Some (root, g) \<Rightarrow> Inr (root, s\<lparr>cs_graph := g\<rparr>))"
  using assms
  by (simp add: finish_parse_def insert_compute_vloffsets_def gen_ppi_dlt_check_def flat_def gbind_def gget_def gret_def)

lemma start_state_ok:
  "flat l \<Longrightarrow> gen_ok (start_state l snaplen msk)"
  "abs_gen (start_state l snaplen msk) =
     \<lparr>g_layout = l, g_netmask = msk, g_snaplen = snaplen, g_free = BPF_MEMWORDS\<rparr>"
  by (simp_all add: start_state_def init_regs_def gen_ok_def short_ok_def abs_gen_def free_count_def)

text \<open>
  The meaning of a filter for a link-layer type whose headers have fixed places: the test, or the
  error. The empty filter holds for every packet.
\<close>

definition filter_meaning :: "databases \<Rightarrow> host \<Rightarrow> layout \<Rightarrow> u32 \<Rightarrow> u32 \<Rightarrow> fexpr option \<Rightarrow> gen_error + test" where
  "filter_meaning db hp l snaplen msk e =
     (case e of
        None \<Rightarrow> Inr (\<lambda>_. Inl True)
      | Some e \<Rightarrow> map_sum id fst (den_expr db hp qerr e
          \<lparr>g_layout = l, g_netmask = msk, g_snaplen = snaplen, g_free = BPF_MEMWORDS\<rparr>))"

definition test_outcome :: "u32 \<Rightarrow> bool + bpf_outcome \<Rightarrow> bpf_outcome" where
  "test_outcome snaplen r = (case r of Inl v \<Rightarrow> Returned (if v then snaplen else 0) | Inr r \<Rightarrow> r)"

definition makes_program :: "nat \<Rightarrow> graph \<Rightarrow> u32 \<Rightarrow> test \<Rightarrow> bool" where
  "makes_program root g snaplen p \<longleftrightarrow>
     (\<exists>code. icode_to_fcode root g = Some (Inr code) \<and> length code < 2 ^ 31 \<and> bpf_validate code \<and>
       (\<forall>e vm. buffer_ok e \<and> vm_wf vm \<longrightarrow>
          run_machine (bpf_step code e) (vm\<lparr>pc := 0\<rparr>) = Some (test_outcome snaplen (p e))))"

lemma finished_program:
  assumes "represents g b t R" and t: "decides t p" and "short_ok g" and "max_space g R + 6 < 2 ^ 31"
  shows "\<exists>root g'. finish_branches snaplen b g = Some (root, g') \<and> makes_program root g' snaplen p"
proof -
  from t have "tree_ok t" by (simp add: decides_def)
  from finish_and_convert [OF assms(1) this assms(3,4), of snaplen]
  obtain root g' code where 1: "finish_branches snaplen b g = Some (root, g')"
    "icode_to_fcode root g' = Some (Inr code)" "length code < 2 ^ 31" "bpf_validate code"
    and run: "\<And>e vm. run_machine (bpf_step code e) (vm\<lparr>pc := 0\<rparr>) = Some (verdict snaplen (eval_tree e t vm))"
    by metis
  have "verdict snaplen (eval_tree e t vm) = test_outcome snaplen (p e)" if "buffer_ok e" "vm_wf vm" for e vm
    by (rule decidesD [OF t that]) (simp_all add: verdict_def test_outcome_def)
  with 1 run show ?thesis by (auto simp: makes_program_def)
qed

lemma gen_program_some:
  assumes "flat l" and "plain_expr e" and small: "expr_size db e + 6 < 2 ^ 31"
  shows "case filter_meaning db hp l snaplen msk (Some e) of
      Inl err \<Rightarrow> gen_program db hp (Some e) (start_state l snaplen msk) = Inl err
    | Inr p \<Rightarrow> \<exists>root s. gen_program db hp (Some e) (start_state l snaplen msk) = Inr (root, s) \<and>
        makes_program root (cs_graph s) snaplen p"
proof -
  let ?s = "start_state l snaplen msk"
  have q: "plain_quals qerr" by (simp add: plain_quals_def qerr_def)
  note start = start_state_ok(1) [OF assms(1), of snaplen msk]
  show ?thesis
  proof (rule simE [OF builds_expr [OF assms(2) q, of db hp, unfolded builds_def] start])
    fix err assume "den_expr db hp qerr e (abs_gen ?s) = Inl err" "gen_expr db hp qerr e ?s = Inl err"
    then show ?thesis by (simp add: filter_meaning_def start_state_ok(2) gen_program_def gbind_def)
  next
    fix b p s assume 1: "den_expr db hp qerr e (abs_gen ?s) = Inr (p, abs_gen s)" "gen_expr db hp qerr e ?s = Inr (b, s)"
      "gen_ok s" "grows ?s s" "built (expr_size db e) ?s s b p"
    from 1(5) obtain t R where 2: "represents (cs_graph s) b t R" "decides t p" "max_space (cs_graph s) R \<le> expr_size db e"
      by (rule builtE)
    from 1(4) have snap: "cs_snaplen s = snaplen" by (simp add: grows_def start_state_def init_regs_def)
    from finished_program [OF 2(1,2)] 1(3) 2(3) small
    obtain root g where 3: "finish_branches snaplen b (cs_graph s) = Some (root, g)" "makes_program root g snaplen p"
      by (fastforce simp: gen_ok_def)
    have "filter_meaning db hp l snaplen msk (Some e) = Inr p"
      using 1(1) by (simp add: filter_meaning_def start_state_ok(2))
    moreover have "gen_program db hp (Some e) ?s = Inr (root, s\<lparr>cs_graph := g\<rparr>)"
      using 1(2,3) 3(1) snap by (simp add: gen_program_def gbind_def finish_parse_flat gen_ok_def)
    ultimately show ?thesis using 3(2) by simp
  qed
qed

lemma gen_program_none:
  "\<exists>root s. gen_program db hp None (start_state l snaplen msk) = Inr (root, s) \<and>
     makes_program root (cs_graph s) snaplen (\<lambda>_. Inl True)"
proof -
  let ?g = "[ret_block snaplen 0]" and ?t = "Final [] (ret_stmt snaplen)"
  have gen: "gen_program db hp None (start_state l snaplen msk) =
      Inr (0, (start_state l snaplen msk)\<lparr>cs_graph := ?g\<rparr>)"
    by (simp add: gen_program_def gbind_def gget_def gen_retblk_eq start_state_def init_regs_def)
  have "reach ?g 0 \<subseteq> {0}" by (rule reach_subset) auto
  then have "reach ?g 0 = {0}" using reach_self [of 0 ?g] by blast
  then have space: "max_space ?g (reach ?g 0) < 2 ^ 31" by (simp add: max_space_def slength_def)
  have "long_ok ?g" by (simp add: long_ok_def b_long_def ret_block_def fresh_block_def)
  moreover have "closed_tree ?g 0 ?t" by (simp add: ret_block_def fresh_block_def ret_stmt_def)
  moreover have "tree_ok ?t" by simp
  ultimately obtain code where code: "icode_to_fcode 0 ?g = Some (Inr code)"
    "length code \<le> max_space ?g (reach ?g 0)" "bpf_validate code"
    and run: "\<And>e vm. \<exists>r. eval_tree e ?t vm = Inr r \<and> run_machine (bpf_step code e) (vm\<lparr>pc := 0\<rparr>) = Some r"
    using icode_to_fcode_run [OF _ _ _ space, of ?t] by blast
  have "run_machine (bpf_step code e) (vm\<lparr>pc := 0\<rparr>) = Some (Returned snaplen)" for e vm
    using run [of e vm] by simp
  then have "makes_program 0 ?g snaplen (\<lambda>_. Inl True)"
    unfolding makes_program_def using code space by (intro exI [of _ code]) (simp add: test_outcome_def)
  then show ?thesis using gen by auto
qed

lemma gen_program_meaning:
  assumes "flat l" and "\<And>e'. e = Some e' \<Longrightarrow> plain_expr e' \<and> expr_size db e' + 6 < 2 ^ 31"
  shows "case filter_meaning db hp l snaplen msk e of
      Inl err \<Rightarrow> gen_program db hp e (start_state l snaplen msk) = Inl err
    | Inr p \<Rightarrow> \<exists>root s. gen_program db hp e (start_state l snaplen msk) = Inr (root, s) \<and>
        makes_program root (cs_graph s) snaplen p"
proof (cases e)
  case None
  show ?thesis using gen_program_none [of db hp l snaplen msk] by (simp add: None filter_meaning_def)
next
  case (Some e')
  show ?thesis unfolding Some
    by (rule gen_program_some [OF assms(1)]) (use assms(2) [OF Some] in simp_all)
qed

text \<open>The link-layer types whose headers have fixed places: all but those of 802.11 and PPI.\<close>

lemma flat_sets [simp]:
  "flat (set_offsets a b c d l) = flat l" "flat (set_linkhdr k l) = flat l"
  "flat (set_ss7 a b c d e f l) = flat l" "linktype (set_linkhdr k l) = linktype l"
  "flat (l\<lparr>is_atm := t, off_vpi := a, off_vci := b, off_proto := c, off_payload := d\<rparr>) = flat l"
  by (simp_all add: flat_def set_offsets_def set_linkhdr_def set_ss7_def)

definition radio_types :: "int set" where
  "radio_types = {DLT_IEEE802_11, DLT_PRISM_HEADER, DLT_IEEE802_11_RADIO_AVS, DLT_IEEE802_11_RADIO, DLT_PPI}"

lemma offsets_flat:
  assumes "flat l"
  shows "classic_offsets pf pad l = Some l' \<Longrightarrow> flat l'" "raw_offsets pf pad l = Some l' \<Longrightarrow> flat l'"
    "juniper_offsets pf pad l = Some l' \<Longrightarrow> flat l'" "ss7_offsets pf pad l = Some l' \<Longrightarrow> flat l'"
    "linktype l \<notin> radio_types \<Longrightarrow> radio_atm_offsets pf pad l = Some l' \<Longrightarrow> flat l'"
  using assms
  by (auto simp: classic_offsets_def raw_offsets_def juniper_offsets_def ss7_offsets_def
      radio_atm_offsets_def radio_types_def Let_def split: if_splits)

lemma first_some_in: "first_some xs = Some x \<Longrightarrow> Some x \<in> set xs"
  by (induction xs rule: first_some.induct) auto

lemma init_linktype_flat:
  assumes "dlt \<notin> radio_types" and "init_linktype pf pad dlt = Inr l"
  shows "flat l"
proof -
  have fresh: "flat (fresh_layout dlt)" "linktype (fresh_layout dlt) \<notin> radio_types"
    using assms(1) by (simp_all add: flat_def fresh_layout_def no_offset_def radio_types_def)
  have copy: "flat l' \<Longrightarrow> flat (l'\<lparr>off_prevlinkhdr := off_linkhdr l', off_outermostlinkhdr := off_linkhdr l'\<rparr>)" for l'
    by (simp add: flat_def)
  from assms(2) obtain l0 where "linktype_offsets pf pad (fresh_layout dlt) = Inr l0"
    and l: "l = l0\<lparr>off_prevlinkhdr := off_linkhdr l0, off_outermostlinkhdr := off_linkhdr l0\<rparr>"
    by (auto simp: init_linktype_def map_sum_def split: sum.splits)
  then have "flat l0"
    using offsets_flat [OF fresh(1)] fresh
    by (auto simp: linktype_offsets_def simp del: first_some.simps split: option.splits if_splits dest!: first_some_in)
  then show ?thesis by (simp add: l copy)
qed

lemma compile_outcome:
  assumes "fp_activated h" and "fp_snapshot h \<noteq> 0" and "fp_linktype h \<notin> radio_types"
    and "init_linktype (h_platform hp) (h_fddipad hp) (fp_linktype h) = Inr l"
    and "\<And>e'. e = Some e' \<Longrightarrow> plain_expr e' \<and> expr_size db e' + 6 < 2 ^ 31"
  shows "case filter_meaning db hp l (fp_snapshot h) msk e of
      Inl err \<Rightarrow> pcap_compile db hp h e msk = (if err = No_result then None else Some (Inl (Gen_error err)))
    | Inr p \<Rightarrow> \<exists>code. pcap_compile db hp h e msk = Some (Inr code) \<and> length code < 2 ^ 31 \<and> bpf_validate code \<and>
        (\<forall>e vm. buffer_ok e \<and> vm_wf vm \<longrightarrow>
           run_machine (bpf_step code e) (vm\<lparr>pc := 0\<rparr>) = Some (test_outcome (fp_snapshot h) (p e)))"
proof -
  have flat: "flat l" by (rule init_linktype_flat [OF assms(3,4)])
  note gen = gen_program_meaning [where e = e and hp = hp and msk = msk and snaplen = "fp_snapshot h", OF flat assms(5)]
  show ?thesis
  proof (cases "filter_meaning db hp l (fp_snapshot h) msk e")
    case (Inl err)
    with gen assms(1,2,4) show ?thesis by (cases err) (simp_all add: pcap_compile_def)
  next
    case (Inr p)
    with gen obtain root s where 1: "gen_program db hp e (start_state l (fp_snapshot h) msk) = Inr (root, s)"
      "makes_program root (cs_graph s) (fp_snapshot h) p" by force
    with assms(1,2,4) Inr show ?thesis by (auto simp: makes_program_def pcap_compile_def)
  qed
qed

text \<open>The program run by \<open>bpf_filter_with_aux_data\<close>.\<close>

lemma compiled_run:
  assumes "\<And>e vm. buffer_ok e \<Longrightarrow> vm_wf vm \<Longrightarrow> run_machine (bpf_step code e) (vm\<lparr>pc := 0\<rparr>) = Some (test_outcome n (p e))"
    and "length mem = BPF_MEMWORDS" and "unat blen \<le> length pkt"
  shows "bpf_filter_with_aux_data mem anc (Some code) pkt wlen blen aux =
    Some (test_outcome n (p \<lparr>packet = pkt, wirelen = wlen, buflen = blen, aux_data = aux, ancillary = anc\<rparr>))"
proof -
  have start: "bpf_init mem = (bpf_init mem)\<lparr>pc := 0\<rparr>" by (simp add: bpf_init_def)
  show ?thesis
    unfolding bpf_filter_with_aux_data_def option.case
    by (subst start, rule assms(1)) (use assms(2,3) in \<open>simp_all add: buffer_ok_def vm_wf_def bpf_init_def\<close>)
qed

section \<open>Properties\<close>

text \<open>
  C1. On a handle whose link-layer headers have fixed places, \<open>pcap_compile\<close> without the optimizer
  reports exactly the error the meaning of the filter says, and otherwise makes a program of fewer
  than 2^31 instructions which, run by the interpreter on any packet, ends and returns the snapshot
  length where the filter holds, 0 where it does not, and what the meaning says where the packet
  is too short for it. The meaning follows the parse tree; the program has been made of blocks by
  back-patching and laid out with long jumps.
\<close>

lemma pcap_compile_correct:
  assumes "fp_activated h" and "fp_snapshot h \<noteq> 0" and "fp_linktype h \<notin> radio_types"
    and "init_linktype (h_platform hp) (h_fddipad hp) (fp_linktype h) = Inr l"
    and "\<And>e'. e = Some e' \<Longrightarrow> plain_expr e' \<and> expr_size db e' + 6 < 2 ^ 31"
  shows "case filter_meaning db hp l (fp_snapshot h) msk e of
      Inl err \<Rightarrow> pcap_compile db hp h e msk = (if err = No_result then None else Some (Inl (Gen_error err)))
    | Inr p \<Rightarrow> \<exists>code. pcap_compile db hp h e msk = Some (Inr code) \<and> length code < 2 ^ 31 \<and>
        (\<forall>mem anc pkt wlen blen aux. length mem = BPF_MEMWORDS \<and> unat blen \<le> length pkt \<longrightarrow>
           bpf_filter_with_aux_data mem anc (Some code) pkt wlen blen aux =
             Some (test_outcome (fp_snapshot h)
               (p \<lparr>packet = pkt, wirelen = wlen, buflen = blen, aux_data = aux, ancillary = anc\<rparr>)))"
proof (cases "filter_meaning db hp l (fp_snapshot h) msk e")
  case (Inr p)
  with compile_outcome [where e = e and msk = msk, OF assms]
  obtain code where code: "pcap_compile db hp h e msk = Some (Inr code)" "length code < 2 ^ 31"
    and run: "\<And>e vm. buffer_ok e \<Longrightarrow> vm_wf vm \<Longrightarrow>
      run_machine (bpf_step code e) (vm\<lparr>pc := 0\<rparr>) = Some (test_outcome (fp_snapshot h) (p e))" by auto
  show ?thesis unfolding Inr sum.case
    by (rule exI [of _ code]) (use code compiled_run [OF run] in simp)
qed (use compile_outcome [where e = e and msk = msk, OF assms] in simp)

text \<open>
  C2. Every program that \<open>pcap_compile\<close> makes for such a handle passes \<open>bpf_validate\<close>: its opcodes
  are known, its scratch memory accesses and constant divisors are in range, each of its jumps,
  the long jumps of \<open>icode_to_fcode\<close> included, stays inside the program, and it ends in a return.
  So \<open>pcap_setfilter\<close> never refuses it.
\<close>

lemma pcap_compile_validates:
  assumes "pcap_compile db hp h e msk = Some (Inr code)" and "fp_linktype h \<notin> radio_types"
    and "\<And>e'. e = Some e' \<Longrightarrow> plain_expr e' \<and> expr_size db e' + 6 < 2 ^ 31"
  shows "bpf_validate code"
proof -
  from assms(1) obtain l where l: "fp_activated h" "fp_snapshot h \<noteq> 0"
    "init_linktype (h_platform hp) (h_fddipad hp) (fp_linktype h) = Inr l"
    by (auto simp: pcap_compile_def split: if_splits sum.splits)
  from compile_outcome [where e = e and msk = msk, OF l(1,2) assms(2) l(3) assms(3)] assms(1) show ?thesis
    by (auto split: sum.splits if_splits)
qed

text \<open>
  \<open>udp dst port 53\<close> on an Ethernet handle: a DNS query is accepted, the same packet with port 54 or
  cut off before its port is not.
\<close>

definition linux_host :: host where
  "linux_host = \<lparr>h_platform = Other_OS, h_order = Little, h_af_inet = 2, h_af_inet6 = 10, h_rfile = True,
     h_swapped = False, h_fddipad = 0, h_vlan_tag = None, h_special_vlan = False, h_pkttype = None\<rparr>"

definition no_databases :: databases where
  "no_databases = \<lparr>db_addrinfo = (\<lambda>_. None), db_networks = (\<lambda>_. None), db_services = (\<lambda>_ _. None),
     db_protocols = (\<lambda>_. None), db_ethers = None\<rparr>"

definition dns_filter :: fexpr where
  "dns_filter = Head \<lparr>q_addr = Q_PORT, q_proto = Q_UDP, q_dir = Q_DST\<rparr> (Number 53)"

definition dns_packet :: "u8 \<Rightarrow> u8 list" where
  "dns_packet port = replicate 12 0 @ [8, 0, 0x45, 0, 0, 30, 0, 0, 0, 0, 64, 17, 0, 0, 10, 0, 0, 1, 10, 0, 0, 2,
     4, 0, 0, port, 0, 10, 0, 0]"

definition dns_test :: "layout \<Rightarrow> bpf_env \<Rightarrow> bpf_outcome option" where
  "dns_test l e = (case filter_meaning no_databases linux_host l 65535 0 (Some dns_filter) of
     Inl err \<Rightarrow> None | Inr p \<Rightarrow> Some (test_outcome 65535 (p e)))"

definition plain_env :: "u8 list \<Rightarrow> u32 \<Rightarrow> bpf_env" where
  "plain_env p n = \<lparr>packet = p, wirelen = 42, buflen = n, aux_data = None, ancillary = None\<rparr>"

definition ether_layout :: layout where
  "ether_layout = (case init_linktype Other_OS 0 DLT_EN10MB of Inr l \<Rightarrow> l)"

lemma dns_tests:
  "dns_test ether_layout (plain_env (dns_packet 53) 42) = Some (Returned 65535)"
  "dns_test ether_layout (plain_env (dns_packet 54) 42) = Some (Returned 0)"
  "dns_test ether_layout (plain_env (dns_packet 53) 37) = Some (Returned 0)"
  by code_simp+

lemma pcap_compile_correct_witness:
  "\<exists>code. pcap_compile no_databases linux_host \<lparr>fp_activated = True, fp_snapshot = 65535, fp_linktype = 1\<rparr>
       (Some dns_filter) 0 = Some (Inr code) \<and>
     bpf_filter_with_aux_data (replicate 16 0) None (Some code) (dns_packet 53) 42 42 None = Some (Returned 65535) \<and>
     bpf_filter_with_aux_data (replicate 16 0) None (Some code) (dns_packet 54) 42 42 None = Some (Returned 0) \<and>
     bpf_filter_with_aux_data (replicate 16 0) None (Some code) (dns_packet 53) 42 37 None = Some (Returned 0)"
proof -
  let ?h = "\<lparr>fp_activated = True, fp_snapshot = 65535, fp_linktype = 1\<rparr> :: filter_handle"
  have l: "init_linktype Other_OS 0 1 = Inr ether_layout" by code_simp
  have e: "plain_expr dns_filter" "expr_size no_databases dns_filter + 6 < 2 ^ 31"
    by (simp_all add: dns_filter_def plain_quals_def)
  have radio: "1 \<notin> radio_types" by (simp add: radio_types_def)
  have len: "unat (42::u32) \<le> length (dns_packet n)" "unat (37::u32) \<le> length (dns_packet n)" for n
    by (simp_all add: dns_packet_def)
  obtain p where p: "filter_meaning no_databases linux_host ether_layout 65535 0 (Some dns_filter) = Inr p"
    using dns_tests(1) by (cases "filter_meaning no_databases linux_host ether_layout 65535 0 (Some dns_filter)")
      (simp_all add: dns_test_def)
  note dns = dns_tests [unfolded dns_test_def p plain_env_def, simplified]
  show ?thesis
    using pcap_compile_correct [of ?h linux_host ether_layout "Some dns_filter" no_databases 0] l e radio p dns len
    by (auto simp: linux_host_def)
qed

lemma pcap_compile_validates_witness:
  "\<exists>code. pcap_compile no_databases linux_host \<lparr>fp_activated = True, fp_snapshot = 65535, fp_linktype = 1\<rparr>
     (Some dns_filter) 0 = Some (Inr code) \<and> bpf_validate code"
proof -
  let ?h = "\<lparr>fp_activated = True, fp_snapshot = 65535, fp_linktype = 1\<rparr> :: filter_handle"
  have l: "init_linktype Other_OS 0 1 = Inr ether_layout" by code_simp
  have e: "plain_expr dns_filter" "expr_size no_databases dns_filter + 6 < 2 ^ 31"
    by (simp_all add: dns_filter_def plain_quals_def)
  have radio: "1 \<notin> radio_types" by (simp add: radio_types_def)
  obtain code where "pcap_compile no_databases linux_host ?h (Some dns_filter) 0 = Some (Inr code)"
    using compile_outcome [of ?h linux_host ether_layout "Some dns_filter" no_databases 0] l e radio dns_tests(1)
    by (auto simp: linux_host_def dns_test_def split: sum.splits)
  moreover from pcap_compile_validates [OF this] radio e have "bpf_validate code" by simp
  ultimately show ?thesis by blast
qed

end
