(* ===== verification/Pseudo_Headers.thy ===== *)
theory Pseudo_Headers
  imports Linktype
begin

text \<open>
  The pseudo-headers a savefile carries in the byte order of the host that wrote it: the Linux
  USB headers and the TLVs of NFLOG, put into the byte order of the reader in place by
  \<open>swap_pseudo_headers\<close> (pcap-common.c). The buffer is the list of bytes at \<open>data\<close>; a field of
  a structure is read and written at its offset, in the host's byte order.
\<close>

section \<open>Packet headers\<close>

text \<open>\<open>struct pcap_pkthdr\<close>: \<open>struct timeval\<close> has two 64-bit members.\<close>

record pcap_pkthdr =
  tv_sec :: u64
  tv_usec :: u64
  caplen :: u32
  pkt_len :: u32 \<comment> \<open>\<open>len\<close>, the length off the wire\<close>

section \<open>Swapping a field in place\<close>

definition swap_at :: "byte_order \<Rightarrow> nat \<Rightarrow> nat \<Rightarrow> u8 list \<Rightarrow> u8 list" where
  "swap_at bo pos width buf = put_bytes pos
     (if width = 2 then encode_word bo 2 (SWAPSHORT (field bo pos 2 buf))
      else if width = 4 then encode_word bo 4 (SWAPLONG (field bo pos 4 buf))
      else encode_word bo 8 (SWAPLL (field bo pos 8 buf))) buf"

lemma swap_at_rev:
  assumes "width \<in> {2, 4, 8}" and "pos + width \<le> length buf"
  shows "swap_at bo pos width buf = put_bytes pos (rev (take width (drop pos buf))) buf"
  using assms
  by (auto simp: swap_at_def field_def short.encode_swap long.encode_swap longlong.encode_swap)

text \<open>
  The repeated pattern of \<open>swap_linux_usb_header\<close>: skip past the field, return when the captured
  data ends before that, swap the field. A field is given by how far the offset moves past it,
  its position in the structure and its width. The result says whether all fields were there.
\<close>

fun swap_fields ::
  "byte_order \<Rightarrow> u32 \<Rightarrow> (u32 \<times> nat \<times> nat) list \<Rightarrow> u32 \<times> u8 list \<Rightarrow> bool \<times> u32 \<times> u8 list" where
  "swap_fields bo cap [] (offset, buf) = (True, offset, buf)"
| "swap_fields bo cap ((skip, pos, width) # fs) (offset, buf) =
     (let offset = offset + skip in
      if cap < offset then (False, offset, buf)
      else swap_fields bo cap fs (offset, swap_at bo pos width buf))"

section \<open>Linux USB headers\<close>

text \<open>\<open>id\<close>, \<open>bus_id\<close>, \<open>ts_sec\<close>, \<open>ts_usec\<close>, \<open>status\<close>, \<open>urb_len\<close>, \<open>data_len\<close>.\<close>

definition usb_common_fields :: "(u32 \<times> nat \<times> nat) list" where
  "usb_common_fields =
     [(8, 0, 8), (6, 12, 2), (10, 16, 8), (4, 24, 4), (4, 28, 4), (4, 32, 4), (4, 36, 4)]"

text \<open>\<open>s.iso.error_count\<close>, \<open>s.iso.numdesc\<close>.\<close>

definition usb_iso_fields :: "(u32 \<times> nat \<times> nat) list" where
  "usb_iso_fields = [(4, 40, 4), (4, 44, 4)]"

text \<open>\<open>interval\<close>, \<open>start_frame\<close>, \<open>xfer_flags\<close>, \<open>ndesc\<close>.\<close>

definition usb_v1_fields :: "(u32 \<times> nat \<times> nat) list" where
  "usb_v1_fields = [(4, 48, 4), (4, 52, 4), (4, 56, 4), (4, 60, 4)]"

definition URB_ISOCHRONOUS :: u8 where
  "URB_ISOCHRONOUS = 0x0"

text \<open>The loop over the isochronous descriptors; \<open>p\<close> is the address of \<open>pisodesc\<close> in the buffer.\<close>

fun swap_isodescs :: "byte_order \<Rightarrow> u32 \<Rightarrow> nat \<Rightarrow> nat \<Rightarrow> u32 \<Rightarrow> u8 list \<Rightarrow> u8 list" where
  "swap_isodescs bo cap 0 p offset buf = buf"
| "swap_isodescs bo cap (Suc n) p offset buf =
     (case swap_fields bo cap [(4, p, 4), (4, p + 4, 4), (4, p + 8, 4)] (offset, buf) of
        (ok, offset, buf) \<Rightarrow>
          if ok then swap_isodescs bo cap n (p + 16) (offset + 4) buf else buf)"

definition swap_usb_v1 :: "byte_order \<Rightarrow> u32 \<Rightarrow> u32 \<Rightarrow> u8 list \<Rightarrow> u8 list" where
  "swap_usb_v1 bo cap offset buf =
     (case swap_fields bo cap usb_v1_fields (offset, buf) of (ok, offset, buf) \<Rightarrow>
        if ok \<and> buf ! 9 = URB_ISOCHRONOUS
        then swap_isodescs bo cap (unat (field bo 60 4 buf :: u32)) (unat offset) offset buf
        else buf)"

definition swap_linux_usb_header ::
  "byte_order \<Rightarrow> pcap_pkthdr \<Rightarrow> u8 list \<Rightarrow> bool \<Rightarrow> u8 list" where
  "swap_linux_usb_header bo hdr buf header_len_64_bytes =
     (case swap_fields bo (caplen hdr) usb_common_fields (0, buf) of (ok, offset, buf) \<Rightarrow>
        if \<not> ok then buf
        else
          (case (if buf ! 9 = URB_ISOCHRONOUS
                 then swap_fields bo (caplen hdr) usb_iso_fields (offset, buf)
                 else (True, offset + 8, buf)) of (ok, offset, buf) \<Rightarrow>
             if ok \<and> header_len_64_bytes then swap_usb_v1 bo (caplen hdr) offset buf else buf))"

section \<open>NFLOG\<close>

text \<open>
  The loop over the TLVs at \<open>p\<close>: \<open>cap\<close> and \<open>len\<close> are what is left of the captured and of the
  original length; both are compared before they are decreased. \<open>size\<close> is 16 bits wide.
\<close>

definition tlv_size :: "u16 \<Rightarrow> u16" where
  "tlv_size sz = (if sz mod 4 \<noteq> 0 then sz + (4 - sz mod 4) else sz)"

function swap_nflog_tlvs :: "byte_order \<Rightarrow> nat \<Rightarrow> nat \<Rightarrow> nat \<Rightarrow> u8 list \<Rightarrow> u8 list" where
  "swap_nflog_tlvs bo cap len p buf =
     (if cap < 4 then buf
      else
        let buf = swap_at bo p 2 (swap_at bo (p + 2) 2 buf);
            sz = unat (tlv_size (field bo p 2 buf)) in
        if sz < 4 then buf
        else if cap < sz \<or> len < sz then buf
        else swap_nflog_tlvs bo (cap - sz) (len - sz) (p + sz) buf)"
  by pat_completeness auto

termination
  by (relation "measure (\<lambda>(bo, cap, len, p, buf). cap)") auto

declare swap_nflog_tlvs.simps [simp del]

definition swap_nflog_header :: "byte_order \<Rightarrow> pcap_pkthdr \<Rightarrow> u8 list \<Rightarrow> u8 list" where
  "swap_nflog_header bo hdr buf =
     (if unat (caplen hdr) < 4 \<or> unat (pkt_len hdr) < 4 then buf
      else if buf ! 1 \<noteq> 0 then buf
      else swap_nflog_tlvs bo (unat (caplen hdr) - 4) (unat (pkt_len hdr) - 4) 4 buf)"

definition swap_pseudo_headers ::
  "byte_order \<Rightarrow> int \<Rightarrow> pcap_pkthdr \<Rightarrow> u8 list \<Rightarrow> u8 list" where
  "swap_pseudo_headers bo linktype hdr data =
     (if linktype = DLT_USB_LINUX then swap_linux_usb_header bo hdr data False
      else if linktype = DLT_USB_LINUX_MMAPPED then swap_linux_usb_header bo hdr data True
      else if linktype = DLT_NFLOG then swap_nflog_header bo hdr data
      else data)"

section \<open>Nothing beyond the captured bytes\<close>

text \<open>A rewriting of the buffer that stays within its first \<open>n\<close> bytes.\<close>

definition only_touches :: "nat \<Rightarrow> u8 list \<Rightarrow> u8 list \<Rightarrow> bool" where
  "only_touches n old new \<longleftrightarrow> length new = length old \<and> drop n new = drop n old"

lemma only_touches_refl [simp, intro]: "only_touches n buf buf"
  by (simp add: only_touches_def)

lemma only_touches_trans [trans]:
  "only_touches n a b \<Longrightarrow> only_touches n b c \<Longrightarrow> only_touches n a c"
  by (simp add: only_touches_def)

lemma only_touches_length: "only_touches n a b \<Longrightarrow> length b = length a"
  by (simp add: only_touches_def)

lemma swap_at_touches:
  assumes "width \<in> {2, 4, 8}" and "pos + width \<le> n" and "n \<le> length buf"
  shows "only_touches n buf (swap_at bo pos width buf)"
  using assms by (auto simp: swap_at_rev only_touches_def put_bytes_def)

text \<open>
  The tables are laid out like the structure: a field ends where the offset points after the
  skip, and does not begin before the previous one ended.
\<close>

fun placed :: "nat \<Rightarrow> (u32 \<times> nat \<times> nat) list \<Rightarrow> bool" where
  "placed off [] \<longleftrightarrow> True"
| "placed off ((skip, pos, width) # fs) \<longleftrightarrow>
     width \<in> {2, 4, 8} \<and> width \<le> unat skip \<and> unat skip \<le> 16 \<and> pos + width = off + unat skip \<and>
     placed (off + unat skip) fs"

definition span :: "(u32 \<times> nat \<times> nat) list \<Rightarrow> nat" where
  "span fs = sum_list (map (\<lambda>(skip, _, _). unat skip) fs)"

lemma span_simps [simp]: "span [] = 0" "span ((skip, pos, width) # fs) = unat skip + span fs"
  by (simp_all add: span_def)

lemma unat_add_small:
  assumes "unat (a :: u32) < 2 ^ 31 + 16" and "unat b \<le> 16"
  shows "unat (a + b) = unat a + unat b"
  using assms by (simp add: unat_word_ariths)

lemma swap_fields_touches:
  assumes "swap_fields bo cap fs (off, buf) = (ok, off', buf')" and "placed (unat off) fs"
    and "unat cap \<le> length buf" and "unat cap < 2 ^ 31" and "unat off < 2 ^ 31 + 16"
  shows "only_touches (unat cap) buf buf' \<and>
    (ok \<longrightarrow> unat off' = unat off + span fs \<and> (fs \<noteq> [] \<longrightarrow> unat off' \<le> unat cap))"
  using assms
proof (induction bo cap fs "(off, buf)" arbitrary: off buf rule: swap_fields.induct)
  case (1 bo cap offset buf)
  then show ?case by simp
next
  case (2 bo cap skip pos width fs offset buf)
  have sum: "unat (offset + skip) = unat offset + unat skip"
    using 2 by (intro unat_add_small) auto
  show ?case
  proof (cases "cap < offset + skip")
    case True
    then show ?thesis using 2 by (auto simp: Let_def)
  next
    case False
    then have fits: "unat offset + unat skip \<le> unat cap"
      using sum by (simp add: word_less_nat_alt)
    let ?buf = "swap_at bo pos width buf"
    have touch: "only_touches (unat cap) buf ?buf"
      using 2 fits by (intro swap_at_touches) auto
    have "only_touches (unat cap) ?buf buf' \<and>
        (ok \<longrightarrow> unat off' = unat (offset + skip) + span fs \<and> (fs \<noteq> [] \<longrightarrow> unat off' \<le> unat cap))"
      using 2 False fits sum only_touches_length [OF touch] by (intro 2) (auto simp: Let_def)
    then show ?thesis using touch sum fits by (cases fs) (auto intro: only_touches_trans)
  qed
qed

lemma swap_isodescs_touches:
  assumes "unat cap \<le> length buf" and "unat cap < 2 ^ 31" and "p = unat off"
    and "unat off \<le> unat cap + 4"
  shows "only_touches (unat cap) buf (swap_isodescs bo cap n p off buf)"
  using assms
proof (induction n arbitrary: p off buf)
  case 0
  then show ?case by simp
next
  case (Suc n)
  obtain ok off' buf' where eq:
    "swap_fields bo cap [(4, p, 4), (4, p + 4, 4), (4, p + 8, 4)] (off, buf) = (ok, off', buf')"
    by (metis prod_cases3)
  have step: "only_touches (unat cap) buf buf' \<and>
      (ok \<longrightarrow> unat off' = unat off + 12 \<and> unat off' \<le> unat cap)"
    using swap_fields_touches [OF eq] Suc.prems by auto
  show ?case
  proof (cases ok)
    case True
    then have "unat (off' + 4) = unat off + 16"
      using step Suc.prems by (subst unat_add_small) auto
    then have "only_touches (unat cap) buf' (swap_isodescs bo cap n (p + 16) (off' + 4) buf')"
      using True step Suc.prems by (intro Suc.IH) (auto dest: only_touches_length)
    then show ?thesis using step True eq by (auto intro: only_touches_trans)
  next
    case False
    then show ?thesis using step eq by simp
  qed
qed

lemmas usb_tables = usb_common_fields_def usb_iso_fields_def usb_v1_fields_def

lemma usb_placed [simp]:
  "placed 0 usb_common_fields" "placed 40 usb_iso_fields" "placed 48 usb_v1_fields"
  "span usb_common_fields = 40" "span usb_iso_fields = 8" "span usb_v1_fields = 16"
  "usb_common_fields \<noteq> []" "usb_iso_fields \<noteq> []" "usb_v1_fields \<noteq> []"
  by (simp_all add: usb_tables)

lemma swap_usb_v1_touches:
  assumes "unat cap \<le> length buf" and "unat cap < 2 ^ 31" and "unat off = 48"
  shows "only_touches (unat cap) buf (swap_usb_v1 bo cap off buf)"
proof -
  obtain ok off' buf' where eq: "swap_fields bo cap usb_v1_fields (off, buf) = (ok, off', buf')"
    by (metis prod_cases3)
  have step: "only_touches (unat cap) buf buf' \<and>
      (ok \<longrightarrow> unat off' = 64 \<and> unat off' \<le> unat cap)"
    using swap_fields_touches [OF eq] assms by auto
  then have "ok \<Longrightarrow> only_touches (unat cap) buf' (swap_isodescs bo cap n (unat off') off' buf')" for n
    using assms by (intro swap_isodescs_touches) (auto dest: only_touches_length)
  then show ?thesis
    using step eq by (auto simp: swap_usb_v1_def intro: only_touches_trans)
qed

lemma swap_linux_usb_header_touches:
  assumes "unat (caplen hdr) \<le> length buf" and "unat (caplen hdr) < 2 ^ 31"
  shows "only_touches (unat (caplen hdr)) buf (swap_linux_usb_header bo hdr buf h64)"
proof -
  let ?cap = "caplen hdr"
  obtain ok off buf1 where eq1:
    "swap_fields bo ?cap usb_common_fields (0, buf) = (ok, off, buf1)"
    by (metis prod_cases3)
  have one: "only_touches (unat ?cap) buf buf1 \<and> (ok \<longrightarrow> unat off = 40 \<and> unat off \<le> unat ?cap)"
    using swap_fields_touches [OF eq1] assms by auto
  show ?thesis
  proof (cases ok)
    case False
    then show ?thesis using one eq1 by (simp add: swap_linux_usb_header_def)
  next
    case True
    obtain ok2 off2 buf2 where eq2:
      "(if buf1 ! 9 = URB_ISOCHRONOUS then swap_fields bo ?cap usb_iso_fields (off, buf1)
        else (True, off + 8, buf1)) = (ok2, off2, buf2)"
      by (metis prod_cases3)
    have "unat (off + 8) = 48" using one True by (subst unat_add_small) auto
    then have two: "only_touches (unat ?cap) buf1 buf2 \<and> (ok2 \<longrightarrow> unat off2 = 48)"
      using eq2 one True assms
        swap_fields_touches [of bo ?cap usb_iso_fields off buf1 ok2 off2 buf2]
      by (auto split: if_splits dest: only_touches_length)
    then have "ok2 \<Longrightarrow> only_touches (unat ?cap) buf2 (swap_usb_v1 bo ?cap off2 buf2)"
      using one assms by (intro swap_usb_v1_touches) (auto dest!: only_touches_length)
    then show ?thesis
      using one two True eq1 eq2
      by (auto simp: swap_linux_usb_header_def intro: only_touches_trans split: if_splits)
  qed
qed

lemma swap_nflog_tlvs_touches:
  assumes "p + cap \<le> length buf"
  shows "only_touches (p + cap) buf (swap_nflog_tlvs bo cap len p buf)"
  using assms
proof (induction bo cap len p buf rule: swap_nflog_tlvs.induct)
  case (1 bo cap len p buf)
  show ?case
  proof (cases "cap < 4")
    case True
    then show ?thesis by (simp add: swap_nflog_tlvs.simps)
  next
    case False
    let ?buf = "swap_at bo p 2 (swap_at bo (p + 2) 2 buf)"
    let ?sz = "unat (tlv_size (field bo p 2 ?buf))"
    have a: "only_touches (p + cap) buf (swap_at bo (p + 2) 2 buf)"
      using 1 False by (intro swap_at_touches) auto
    have b: "only_touches (p + cap) (swap_at bo (p + 2) 2 buf) ?buf"
      using 1 False only_touches_length [OF a] by (intro swap_at_touches) auto
    have touch: "only_touches (p + cap) buf ?buf"
      using a b by (rule only_touches_trans)
    show ?thesis
    proof (cases "?sz < 4 \<or> cap < ?sz \<or> len < ?sz")
      case True
      then show ?thesis using touch False
        by (subst swap_nflog_tlvs.simps) (auto simp: Let_def)
    next
      case more: False
      have "only_touches (p + ?sz + (cap - ?sz)) ?buf
          (swap_nflog_tlvs bo (cap - ?sz) (len - ?sz) (p + ?sz) ?buf)"
        using 1 False more only_touches_length [OF touch] by (intro 1) (auto simp: Let_def)
      then have "only_touches (p + cap) ?buf
          (swap_nflog_tlvs bo (cap - ?sz) (len - ?sz) (p + ?sz) ?buf)"
        using more by simp
      then show ?thesis using touch False more
        by (subst swap_nflog_tlvs.simps) (auto simp: Let_def intro: only_touches_trans)
    qed
  qed
qed

lemma swap_pseudo_headers_touches:
  assumes "unat (caplen hdr) \<le> length data" and "unat (caplen hdr) < 2 ^ 31"
  shows "only_touches (unat (caplen hdr)) data (swap_pseudo_headers bo linktype hdr data)"
proof -
  have "only_touches (unat (caplen hdr)) data (swap_nflog_header bo hdr data)"
    using assms swap_nflog_tlvs_touches [of 4 "unat (caplen hdr) - 4" data bo "unat (pkt_len hdr) - 4"]
    by (auto simp: swap_nflog_header_def not_less)
  then show ?thesis
    using swap_linux_usb_header_touches [OF assms] by (simp add: swap_pseudo_headers_def)
qed

lemma swap_pseudo_headers_length:
  "unat (caplen hdr) \<le> length data \<Longrightarrow> unat (caplen hdr) < 2 ^ 31 \<Longrightarrow>
   length (swap_pseudo_headers bo linktype hdr data) = length data"
  by (rule only_touches_length [OF swap_pseudo_headers_touches])

lemma swap_pseudo_headers_other:
  "linktype \<notin> {DLT_USB_LINUX, DLT_USB_LINUX_MMAPPED, DLT_NFLOG} \<Longrightarrow>
   swap_pseudo_headers bo linktype hdr data = data"
  by (simp add: swap_pseudo_headers_def)

text \<open>
  C10. Reading a file whose packets have a pseudo-header never writes
  outside the packet: whatever the bytes say about numbers of descriptors or lengths of TLVs,
  \<open>swap_pseudo_headers\<close> keeps the length of the buffer and every byte from the captured length
  on, and it leaves a packet of any other link-layer type alone. The bound on the captured
  length is the one the readers enforce; without one the 32-bit offset of the USB descriptors
  could wrap.
\<close>

theorem swap_pseudo_headers_bounds:
  assumes "unat (caplen hdr) \<le> length data" and "unat (caplen hdr) < 2 ^ 31"
  shows "length (swap_pseudo_headers bo linktype hdr data) = length data \<and>
    drop (unat (caplen hdr)) (swap_pseudo_headers bo linktype hdr data) =
      drop (unat (caplen hdr)) data \<and>
    (linktype \<notin> {DLT_USB_LINUX, DLT_USB_LINUX_MMAPPED, DLT_NFLOG} \<longrightarrow>
      swap_pseudo_headers bo linktype hdr data = data)"
  using swap_pseudo_headers_touches [OF assms, of bo linktype]
  by (simp add: only_touches_def swap_pseudo_headers_other)

theorem swap_pseudo_headers_bounds_witness:
  "length (swap_pseudo_headers Little DLT_NFLOG
     \<lparr>tv_sec = 0, tv_usec = 0, caplen = 9, pkt_len = 9\<rparr> [2, 0, 0, 0, 0, 5, 0, 1, 7, 9]) = 10"
  by (rule conjunct1 [OF swap_pseudo_headers_bounds, THEN trans]) simp_all

section \<open>The reader sees what the writer wrote\<close>

text \<open>A table of fields reverses the bytes of each field and leaves the bytes between them.\<close>

fun flip_plan :: "(u32 \<times> nat \<times> nat) list \<Rightarrow> u8 list \<Rightarrow> u8 list" where
  "flip_plan [] bs = bs"
| "flip_plan ((skip, pos, width) # fs) bs =
     take (unat skip - width) bs @ rev (take width (drop (unat skip - width) bs)) @
     flip_plan fs (drop (unat skip) bs)"

lemma swap_fields_flip:
  assumes "placed (unat off) fs" and "unat off + span fs \<le> unat cap"
    and "unat cap \<le> length buf" and "unat cap < 2 ^ 31"
  shows "swap_fields bo cap fs (off, buf) =
    (True, off + of_nat (span fs), take (unat off) buf @ flip_plan fs (drop (unat off) buf))"
  using assms
proof (induction bo cap fs "(off, buf)" arbitrary: off buf rule: swap_fields.induct)
  case (1 bo cap offset buf)
  then show ?case by simp
next
  case (2 bo cap skip pos width fs offset buf)
  let ?buf = "swap_at bo pos width buf"
  let ?k = "unat skip"
  have sum: "unat (offset + skip) = unat offset + ?k"
    using 2 by (intro unat_add_small) auto
  have in_buf: "pos + width \<le> length buf" and end_pos: "pos + width = unat offset + ?k"
    and wide: "width \<in> {2, 4, 8}" and narrow: "width \<le> ?k"
    using 2 by auto
  have swapped: "?buf = put_bytes pos (rev (take width (drop pos buf))) buf"
    using wide in_buf by (rule swap_at_rev)
  have pos: "pos = unat offset + (?k - width)" using end_pos narrow by simp
  have before: "take pos buf = take (unat offset) buf @ take (?k - width) (drop (unat offset) buf)"
    and at: "drop pos buf = drop (?k - width) (drop (unat offset) buf)"
    unfolding pos by (simp_all only: take_add drop_drop add.commute)
  have new: "pos + length (rev (take width (drop pos buf))) \<le> length buf"
      "unat offset + ?k = pos + length (rev (take width (drop pos buf)))"
    using in_buf unfolding end_pos [symmetric] by simp_all
  have "take (unat offset + ?k) ?buf = take pos buf @ rev (take width (drop pos buf))"
    unfolding swapped by (rule put_bytes_split(1) [OF new])
  then have upto: "take (unat offset + ?k) ?buf = take (unat offset) buf @
      take (?k - width) (drop (unat offset) buf) @
      rev (take width (drop (?k - width) (drop (unat offset) buf)))"
    by (simp only: before at append_assoc)
  have rest: "drop (unat offset + ?k) ?buf = drop (unat offset + ?k) buf"
    unfolding swapped by (rule put_bytes_split(2) [OF new])
  have long: "length ?buf = length buf" using in_buf by (simp add: swapped)
  have "swap_fields bo cap fs (offset + skip, ?buf) =
      (True, offset + skip + of_nat (span fs),
       take (unat (offset + skip)) ?buf @ flip_plan fs (drop (unat (offset + skip)) ?buf))"
    using 2 sum long by (intro 2) (auto simp: word_less_nat_alt)
  moreover have "\<not> cap < offset + skip"
    using 2 sum by (simp add: word_less_nat_alt)
  moreover have "drop (unat offset + ?k) buf = drop ?k (drop (unat offset) buf)"
    by (simp add: add.commute)
  moreover have "offset + skip + of_nat (span fs) = offset + of_nat (?k + span fs)"
    by (simp add: add.assoc)
  ultimately show ?case
    by (simp only: swap_fields.simps flip_plan.simps span_simps Let_def upto rest sum if_False
        append_assoc)
qed

text \<open>The structures of pcap/usb.h as values.\<close>

record usb_isodesc =
  iso_status :: u32
  iso_offset :: u32
  iso_len :: u32
  iso_pad :: "u8 list"

record pcap_usb_header_mmapped =
  urb_id :: u64
  event_type :: u8
  transfer_type :: u8
  endpoint_number :: u8
  device_address :: u8
  bus_id :: u16
  setup_flag :: u8
  data_flag :: u8
  ts_sec :: u64
  ts_usec :: u32
  urb_status :: u32
  urb_len :: u32
  data_len :: u32
  usb_setup :: "u8 list" \<comment> \<open>the 8 bytes of the union, when it is the setup header\<close>
  error_count :: u32
  numdesc :: u32
  interval :: u32
  start_frame :: u32
  xfer_flags :: u32
  ndesc :: u32

definition usb_fixed :: "byte_order \<Rightarrow> pcap_usb_header_mmapped \<Rightarrow> u8 list" where
  "usb_fixed bo h = encode_word bo 8 (urb_id h) @
     [event_type h, transfer_type h, endpoint_number h, device_address h] @
     encode_word bo 2 (bus_id h) @ [setup_flag h, data_flag h] @
     encode_word bo 8 (ts_sec h) @ encode_word bo 4 (ts_usec h) @ encode_word bo 4 (urb_status h) @
     encode_word bo 4 (urb_len h) @ encode_word bo 4 (data_len h)"

definition usb_union :: "byte_order \<Rightarrow> pcap_usb_header_mmapped \<Rightarrow> u8 list" where
  "usb_union bo h =
     (if transfer_type h = URB_ISOCHRONOUS
      then encode_word bo 4 (error_count h) @ encode_word bo 4 (numdesc h) else usb_setup h)"

definition usb_v1 :: "byte_order \<Rightarrow> pcap_usb_header_mmapped \<Rightarrow> u8 list" where
  "usb_v1 bo h = encode_word bo 4 (interval h) @ encode_word bo 4 (start_frame h) @
     encode_word bo 4 (xfer_flags h) @ encode_word bo 4 (ndesc h)"

definition usb_desc :: "byte_order \<Rightarrow> usb_isodesc \<Rightarrow> u8 list" where
  "usb_desc bo d = encode_word bo 4 (iso_status d) @ encode_word bo 4 (iso_offset d) @
     encode_word bo 4 (iso_len d) @ iso_pad d"

definition usb_image ::
  "byte_order \<Rightarrow> bool \<Rightarrow> pcap_usb_header_mmapped \<Rightarrow> usb_isodesc list \<Rightarrow> u8 list" where
  "usb_image bo mmapped h ds = usb_fixed bo h @ usb_union bo h @
     (if mmapped then usb_v1 bo h @ concat (map (usb_desc bo) ds) else [])"

text \<open>The header has its setup bytes, and as many descriptors as \<open>ndesc\<close> says.\<close>

definition usb_wf :: "pcap_usb_header_mmapped \<Rightarrow> usb_isodesc list \<Rightarrow> bool" where
  "usb_wf h ds \<longleftrightarrow> length (usb_setup h) = 8 \<and> (\<forall>d\<in>set ds. length (iso_pad d) = 4) \<and>
     (if transfer_type h = URB_ISOCHRONOUS then unat (ndesc h) = length ds else ds = [])"

lemma usb_lengths [simp]:
  "length (usb_fixed bo h) = 40" "length (usb_v1 bo h) = 16"
  "length (usb_setup h) = 8 \<Longrightarrow> length (usb_union bo h) = 8"
  "length (iso_pad d) = 4 \<Longrightarrow> length (usb_desc bo d) = 16"
  by (simp_all add: usb_fixed_def usb_v1_def usb_union_def usb_desc_def)

lemma flip_usb_tables:
  "flip_plan usb_common_fields (usb_fixed (flip bo) h @ rest) = usb_fixed bo h @ rest"
  "transfer_type h = URB_ISOCHRONOUS \<Longrightarrow>
    flip_plan usb_iso_fields (usb_union (flip bo) h @ rest) = usb_union bo h @ rest"
  "flip_plan usb_v1_fields (usb_v1 (flip bo) h @ rest) = usb_v1 bo h @ rest"
  "flip_plan [(4, p, 4), (4, p + 4, 4), (4, p + 8, 4)] (usb_desc (flip bo) d @ rest) =
    usb_desc bo d @ rest"
  by (simp_all add: usb_fixed_def usb_union_def usb_v1_def usb_desc_def usb_tables rev_encode_word)

lemma usb_fixed_nth_9: "(usb_fixed bo h @ rest) ! 9 = transfer_type h"
  by (simp add: usb_fixed_def nth_append)

lemma swap_isodescs_image:
  assumes "\<forall>d\<in>set ds. length (iso_pad d) = 4" and "length pre = unat off"
    and "unat off + 16 * length ds \<le> unat cap" and "unat cap < 2 ^ 31"
    and "unat cap \<le> length (pre @ concat (map (usb_desc (flip bo)) ds) @ post)"
  shows "swap_isodescs bo cap (length ds) (unat off) off
      (pre @ concat (map (usb_desc (flip bo)) ds) @ post) =
    pre @ concat (map (usb_desc bo) ds) @ post"
  using assms
proof (induction ds arbitrary: pre off)
  case Nil
  then show ?case by simp
next
  case (Cons d ds)
  let ?tail = "concat (map (usb_desc (flip bo)) ds) @ post"
  let ?fs = "[(4, unat off, 4), (4, unat off + 4, 4), (4, unat off + 8, 4)]"
  let ?buf = "pre @ usb_desc (flip bo) d @ ?tail"
  have pad: "length (iso_pad d) = 4" using Cons.prems by simp
  have "swap_fields bo cap ?fs (off, ?buf) =
      (True, off + of_nat (span ?fs), take (unat off) ?buf @ flip_plan ?fs (drop (unat off) ?buf))"
    using Cons.prems by (intro swap_fields_flip) auto
  then have first: "swap_fields bo cap ?fs (off, ?buf) = (True, off + 12, pre @ usb_desc bo d @ ?tail)"
    using Cons.prems(2) flip_usb_tables(4) [of "unat off" bo d ?tail] by simp
  have next_off: "unat (off + 16) = unat off + 16"
    using Cons.prems by (intro trans [OF unat_add_small]) auto
  have "swap_isodescs bo cap (length ds) (unat (off + 16)) (off + 16)
      ((pre @ usb_desc bo d) @ ?tail) = (pre @ usb_desc bo d) @ concat (map (usb_desc bo) ds) @ post"
    using Cons.prems pad next_off by (intro Cons.IH) auto
  then show ?case using first next_off by (simp add: add.assoc)
qed

lemma swap_usb_v1_image:
  assumes "usb_wf h ds" and "length pre = 8" and "64 + 16 * length ds \<le> unat cap"
    and "unat cap < 2 ^ 31"
    and "unat cap \<le> length (usb_fixed bo h @ pre @ usb_v1 (flip bo) h @
      concat (map (usb_desc (flip bo)) ds) @ post)"
  shows "swap_usb_v1 bo cap 48 (usb_fixed bo h @ pre @ usb_v1 (flip bo) h @
      concat (map (usb_desc (flip bo)) ds) @ post) =
    usb_fixed bo h @ pre @ usb_v1 bo h @ concat (map (usb_desc bo) ds) @ post"
proof -
  let ?tail = "concat (map (usb_desc (flip bo)) ds) @ post"
  let ?buf = "usb_fixed bo h @ pre @ usb_v1 (flip bo) h @ ?tail"
  let ?mid = "usb_fixed bo h @ pre @ usb_v1 bo h @ ?tail"
  have "swap_fields bo cap usb_v1_fields (48, ?buf) = (True, 48 + of_nat (span usb_v1_fields),
      take (unat (48 :: u32)) ?buf @ flip_plan usb_v1_fields (drop (unat (48 :: u32)) ?buf))"
    using assms by (intro swap_fields_flip) auto
  moreover have "take 48 ?buf = usb_fixed bo h @ pre" "drop 48 ?buf = usb_v1 (flip bo) h @ ?tail"
    using assms(2) by simp_all
  ultimately have v1: "swap_fields bo cap usb_v1_fields (48, ?buf) = (True, 64, ?mid)"
    using assms(2) by (simp add: flip_usb_tables(3))
  have nine: "?mid ! 9 = transfer_type h" by (rule usb_fixed_nth_9)
  have "drop 60 ?mid = encode_word bo 4 (ndesc h) @ ?tail"
    using assms(2) by (simp add: usb_v1_def)
  then have descs: "field bo 60 4 ?mid = ndesc h"
    unfolding field_def by (simp add: decode_encode_word)
  show ?thesis
  proof (cases "transfer_type h = URB_ISOCHRONOUS")
    case True
    then have count: "unat (ndesc h) = length ds" using assms(1) by (simp add: usb_wf_def)
    have "swap_isodescs bo cap (length ds) (unat (64 :: u32)) 64
        ((usb_fixed bo h @ pre @ usb_v1 bo h) @ ?tail) =
      (usb_fixed bo h @ pre @ usb_v1 bo h) @ concat (map (usb_desc bo) ds) @ post"
      using assms by (intro swap_isodescs_image) (auto simp: usb_wf_def)
    then show ?thesis
      unfolding swap_usb_v1_def v1 prod.case nine descs count using True by simp
  next
    case False
    then have "ds = []" using assms(1) by (simp add: usb_wf_def)
    then show ?thesis
      unfolding swap_usb_v1_def v1 prod.case nine using False by simp
  qed
qed

lemma length_usb_descs:
  "\<forall>d\<in>set ds. length (iso_pad d) = 4 \<Longrightarrow>
   length (concat (map (usb_desc bo) ds)) = 16 * length ds"
  by (induction ds) simp_all

text \<open>
  C11. A USB packet written by a host of the other byte order reads as the
  writer meant it: the image of the header in the writer's order, captured in full and followed
  by any payload, becomes the image of the same values in the reader's order, the setup bytes
  and the payload untouched and each isochronous descriptor converted, for both header formats.
\<close>

theorem usb_swapped_reads:
  assumes "usb_wf h ds" and "unat (caplen hdr) = length (usb_image (flip bo) mmapped h ds @ payload)"
    and "unat (caplen hdr) < 2 ^ 31"
  shows "swap_pseudo_headers bo (if mmapped then DLT_USB_LINUX_MMAPPED else DLT_USB_LINUX) hdr
      (usb_image (flip bo) mmapped h ds @ payload) = usb_image bo mmapped h ds @ payload"
proof -
  let ?cap = "caplen hdr"
  let ?tail = "(if mmapped then usb_v1 (flip bo) h @ concat (map (usb_desc (flip bo)) ds) else []) @
    payload"
  let ?buf = "usb_fixed (flip bo) h @ usb_union (flip bo) h @ ?tail"
  let ?one = "usb_fixed bo h @ usb_union (flip bo) h @ ?tail"
  let ?two = "usb_fixed bo h @ usb_union bo h @ ?tail"
  have set8: "length (usb_setup h) = 8" and pads: "\<forall>d\<in>set ds. length (iso_pad d) = 4"
    using assms(1) by (simp_all add: usb_wf_def)
  have cap: "unat ?cap = length ?buf" using assms(2) by (simp add: usb_image_def)
  have fits: "48 + (if mmapped then 16 + 16 * length ds else 0) \<le> unat ?cap"
    using cap set8 pads by (simp add: length_usb_descs)
  have "swap_fields bo ?cap usb_common_fields (0, ?buf) = (True, 0 + of_nat (span usb_common_fields),
      take (unat (0 :: u32)) ?buf @ flip_plan usb_common_fields (drop (unat (0 :: u32)) ?buf))"
    using assms(3) cap fits by (intro swap_fields_flip) auto
  then have one: "swap_fields bo ?cap usb_common_fields (0, ?buf) = (True, 40, ?one)"
    by (simp add: flip_usb_tables(1))
  have nine: "?one ! 9 = transfer_type h" by (rule usb_fixed_nth_9)
  have two: "(if ?one ! 9 = URB_ISOCHRONOUS then swap_fields bo ?cap usb_iso_fields (40, ?one)
      else (True, 40 + 8, ?one)) = (True, 48, ?two)"
  proof (cases "transfer_type h = URB_ISOCHRONOUS")
    case True
    have "swap_fields bo ?cap usb_iso_fields (40, ?one) = (True, 40 + of_nat (span usb_iso_fields),
        take (unat (40 :: u32)) ?one @ flip_plan usb_iso_fields (drop (unat (40 :: u32)) ?one))"
      using assms(3) cap fits set8 by (intro swap_fields_flip) auto
    moreover have "take 40 ?one = usb_fixed bo h" "drop 40 ?one = usb_union (flip bo) h @ ?tail"
      by simp_all
    ultimately show ?thesis
      unfolding nine using True flip_usb_tables(2) [OF True, of bo ?tail] by simp
  next
    case False
    then show ?thesis unfolding nine by (simp add: usb_union_def)
  qed
  have three: "mmapped \<Longrightarrow> swap_usb_v1 bo ?cap 48 ?two =
      usb_fixed bo h @ usb_union bo h @ usb_v1 bo h @ concat (map (usb_desc bo) ds) @ payload"
    using swap_usb_v1_image [of h ds "usb_union bo h" ?cap bo payload] assms(1,3) set8 cap fits
    by (simp add: length_usb_descs pads)
  have "swap_linux_usb_header bo hdr ?buf mmapped =
      usb_fixed bo h @ usb_union bo h @
      (if mmapped then usb_v1 bo h @ concat (map (usb_desc bo) ds) else []) @ payload"
    unfolding swap_linux_usb_header_def one prod.case two using three by simp
  then show ?thesis by (cases mmapped) (simp_all add: swap_pseudo_headers_def usb_image_def)
qed

definition sample_usb :: pcap_usb_header_mmapped where
  "sample_usb = \<lparr>urb_id = 1, event_type = 83, transfer_type = 0, endpoint_number = 1,
     device_address = 2, bus_id = 3, setup_flag = 0, data_flag = 0, ts_sec = 4, ts_usec = 5,
     urb_status = 6, urb_len = 7, data_len = 8, usb_setup = [0, 0, 0, 0, 0, 0, 0, 0],
     error_count = 9, numdesc = 1, interval = 10, start_frame = 11, xfer_flags = 12, ndesc = 1\<rparr>"

definition sample_desc :: usb_isodesc where
  "sample_desc = \<lparr>iso_status = 1, iso_offset = 0, iso_len = 188, iso_pad = [0, 0, 0, 0]\<rparr>"

theorem usb_swapped_reads_witness:
  "swap_pseudo_headers Little DLT_USB_LINUX_MMAPPED
     \<lparr>tv_sec = 0, tv_usec = 0, caplen = 81, pkt_len = 81\<rparr>
     (usb_image Big True sample_usb [sample_desc] @ [255]) =
   usb_image Little True sample_usb [sample_desc] @ [255]"
  using usb_swapped_reads [of sample_usb "[sample_desc]"
      "\<lparr>tv_sec = 0, tv_usec = 0, caplen = 81, pkt_len = 81\<rparr>" Little True "[255]"]
  by (simp add: usb_wf_def sample_usb_def sample_desc_def URB_ISOCHRONOUS_def usb_image_def)

text \<open>An NFLOG packet: the family, the version 0 and the resource id, then the TLVs.\<close>

record nflog_tlv =
  tlv_type :: u16
  tlv_value :: "u8 list"
  tlv_pad :: "u8 list"

definition tlv_bytes :: "byte_order \<Rightarrow> nflog_tlv \<Rightarrow> u8 list" where
  "tlv_bytes bo t = encode_word bo 2 (of_nat (4 + length (tlv_value t)) :: u16) @
     encode_word bo 2 (tlv_type t) @ tlv_value t @ tlv_pad t"

definition nflog_image :: "byte_order \<Rightarrow> u8 \<Rightarrow> u16 \<Rightarrow> nflog_tlv list \<Rightarrow> u8 list" where
  "nflog_image bo family rid ts =
     [family, 0] @ encode_word Big 2 rid @ concat (map (tlv_bytes bo) ts)"

text \<open>A value is padded to a multiple of four bytes, and the padded TLV has a 16-bit size.\<close>

definition tlv_wf :: "nflog_tlv \<Rightarrow> bool" where
  "tlv_wf t \<longleftrightarrow> length (tlv_pad t) = (4 - length (tlv_value t) mod 4) mod 4 \<and>
     length (tlv_value t) \<le> 65528"

lemma length_tlv_bytes [simp]:
  "length (tlv_bytes bo t) = 4 + length (tlv_value t) + length (tlv_pad t)"
  by (simp add: tlv_bytes_def)

lemma unat_tlv_size:
  assumes "unat w + 3 < 2 ^ 16"
  shows "unat (tlv_size w) = unat w + (4 - unat w mod 4) mod 4"
proof -
  have m: "unat (w mod 4) = unat w mod 4" by (simp add: unat_mod_distrib)
  show ?thesis
  proof (cases "unat w mod 4 = 0")
    case True
    then have "w mod 4 = 0" using m by (simp add: word_unat_eq_iff)
    then show ?thesis using True by (simp add: tlv_size_def)
  next
    case False
    then have "w mod 4 \<noteq> 0" using m by (metis unat_0)
    moreover have "unat (4 - w mod 4) = 4 - unat w mod 4"
      using m by (subst unat_sub) (simp_all add: word_le_nat_alt)
    moreover have "4 - unat w mod 4 < 4" using False by simp
    ultimately show ?thesis
      using assms by (simp add: tlv_size_def unat_word_ariths)
  qed
qed

lemma tlv_size_padded:
  assumes "tlv_wf t"
  shows "unat (tlv_size (of_nat (4 + length (tlv_value t)))) = length (tlv_bytes bo t)"
proof -
  let ?n = "4 + length (tlv_value t)"
  have small: "?n + 3 < 2 ^ 16" and
    pad: "length (tlv_pad t) = (4 - length (tlv_value t) mod 4) mod 4"
    using assms by (simp_all add: tlv_wf_def)
  have n: "unat (of_nat ?n :: u16) = ?n" using small by (intro unat16_of_nat) simp
  then have "unat (tlv_size (of_nat ?n)) = ?n + (4 - ?n mod 4) mod 4"
    using small unat_tlv_size [of "of_nat ?n"] by (simp only: n)
  then show ?thesis using pad by simp
qed

lemma swap_nflog_tlvs_image:
  assumes "\<forall>t\<in>set ts. tlv_wf t" and "p = length pre"
    and "cap = length (concat (map (tlv_bytes bo) ts))" and "cap \<le> wire"
  shows "swap_nflog_tlvs bo cap wire p (pre @ concat (map (tlv_bytes (flip bo)) ts) @ post) =
    pre @ concat (map (tlv_bytes bo) ts) @ post"
  using assms
proof (induction ts arbitrary: pre p cap wire)
  case Nil
  then show ?case by (simp add: swap_nflog_tlvs.simps)
next
  case (Cons t ts)
  let ?tail = "concat (map (tlv_bytes (flip bo)) ts) @ post"
  let ?sz = "length (tlv_bytes bo t)"
  define l where "l = encode_word (flip bo) 2 (of_nat (4 + length (tlv_value t)) :: u16)"
  define y where "y = encode_word (flip bo) 2 (tlv_type t)"
  have old: "tlv_bytes (flip bo) t = l @ y @ tlv_value t @ tlv_pad t"
    by (simp add: tlv_bytes_def l_def y_def)
  have new: "tlv_bytes bo t = rev l @ rev y @ tlv_value t @ tlv_pad t"
    by (simp add: tlv_bytes_def l_def y_def rev_encode_word)
  have ly: "length l = 2" "length y = 2" by (simp_all add: l_def y_def)
  let ?buf = "pre @ l @ y @ tlv_value t @ tlv_pad t @ ?tail"
  have swapped: "swap_at bo p 2 (swap_at bo (p + 2) 2 ?buf) = pre @ tlv_bytes bo t @ ?tail"
    using ly Cons.prems(2) by (simp add: swap_at_rev new put_bytes_def)
  have "field bo p 2 (pre @ tlv_bytes bo t @ ?tail) = (of_nat (4 + length (tlv_value t)) :: u16)"
    using Cons.prems(2) by (simp add: field_def tlv_bytes_def decode_encode_word)
  then have size: "unat (tlv_size (field bo p 2 (pre @ tlv_bytes bo t @ ?tail))) = ?sz"
    using tlv_size_padded [of t bo] Cons.prems(1) by simp
  have "swap_nflog_tlvs bo (cap - ?sz) (wire - ?sz) (p + ?sz) ((pre @ tlv_bytes bo t) @ ?tail) =
      (pre @ tlv_bytes bo t) @ concat (map (tlv_bytes bo) ts) @ post"
    using Cons.prems by (intro Cons.IH) auto
  moreover have "4 \<le> ?sz" "?sz \<le> cap" "?sz \<le> wire"
    using Cons.prems by simp_all
  ultimately have "swap_nflog_tlvs bo cap wire p ?buf =
      pre @ tlv_bytes bo t @ concat (map (tlv_bytes bo) ts) @ post"
    by (subst swap_nflog_tlvs.simps) (simp only: swapped size Let_def, simp)
  then show ?case by (simp add: old)
qed

text \<open>
  C12. The TLVs of an NFLOG packet that a host of the other byte order wrote,
  with their padding, are converted one after the other up to the end of the captured bytes:
  type and length of each are what the writer meant, and the values and everything after the
  packet are untouched. The captured bytes end with a TLV, and the packet on the wire was
  at least as long.
\<close>

theorem nflog_swapped_reads:
  assumes "\<forall>t\<in>set ts. tlv_wf t"
    and "unat (caplen hdr) = length (nflog_image bo family rid ts)" and "caplen hdr \<le> pkt_len hdr"
  shows "swap_pseudo_headers bo DLT_NFLOG hdr (nflog_image (flip bo) family rid ts @ post) =
    nflog_image bo family rid ts @ post"
proof -
  let ?pre = "[family, 0] @ encode_word Big 2 rid"
  have "swap_nflog_tlvs bo (unat (caplen hdr) - 4) (unat (pkt_len hdr) - 4) 4
      (?pre @ concat (map (tlv_bytes (flip bo)) ts) @ post) =
    ?pre @ concat (map (tlv_bytes bo) ts) @ post"
    using assms by (intro swap_nflog_tlvs_image) (simp_all add: nflog_image_def word_le_nat_alt)
  moreover have "4 \<le> unat (caplen hdr)" "4 \<le> unat (pkt_len hdr)"
    using assms(2,3) by (simp_all add: nflog_image_def word_le_nat_alt)
  ultimately show ?thesis
    by (simp add: swap_pseudo_headers_def swap_nflog_header_def nflog_image_def)
qed

theorem nflog_swapped_reads_witness:
  "swap_pseudo_headers Little DLT_NFLOG \<lparr>tv_sec = 0, tv_usec = 0, caplen = 12, pkt_len = 12\<rparr>
     (nflog_image Big 2 7 [\<lparr>tlv_type = 9, tlv_value = [1, 2, 3], tlv_pad = [0]\<rparr>] @ [5]) =
   nflog_image Little 2 7 [\<lparr>tlv_type = 9, tlv_value = [1, 2, 3], tlv_pad = [0]\<rparr>] @ [5]"
  using nflog_swapped_reads [of "[\<lparr>tlv_type = 9, tlv_value = [1, 2, 3], tlv_pad = [0]\<rparr>]"
      "\<lparr>tv_sec = 0, tv_usec = 0, caplen = 12, pkt_len = 12\<rparr>" Little 2 7 "[5]"]
  by (simp add: tlv_wf_def nflog_image_def)

end
