(* ===== verification/Pcap_State.thy ===== *)
theory Pcap_State
  imports Pseudo_Headers Bpf_Filter
begin

text \<open>
  What the readers of savefiles share: the host they run on, the memory they allocate, the
  errors they report, the part of \<open>struct pcap\<close> (pcap-int.h) they use, and what the reading of
  one packet can give.
\<close>

section \<open>Host and memory\<close>

text \<open>
  The host's byte order and operating system, and what \<open>1 << n\<close> gives there when \<open>n\<close> is not
  below the width of an \<open>int\<close>, which C leaves undefined.
\<close>

record host =
  host_order :: byte_order
  host_os :: platform
  wide_shift :: "nat \<Rightarrow> u32"

text \<open>
  The allocator, as one operation meets it: whether the \<open>pcap_t\<close> and the copy of its source
  name can be allocated, and what \<open>malloc\<close> returns for a size: nothing, or that many bytes.
\<close>

record heap =
  new_pcap :: bool
  dup_source :: bool
  malloc :: "nat \<Rightarrow> u8 list option"

definition heap_ok :: "heap \<Rightarrow> bool" where
  "heap_ok hp \<longleftrightarrow> (\<forall>n b. malloc hp n = Some b \<longrightarrow> length b = n)"

definition realloc :: "heap \<Rightarrow> u8 list \<Rightarrow> nat \<Rightarrow> u8 list option" where
  "realloc hp old n =
     (case malloc hp n of None \<Rightarrow> None | Some new \<Rightarrow> Some (take n old @ drop (length old) new))"

lemma heap_ok_length: "heap_ok hp \<Longrightarrow> malloc hp n = Some b \<Longrightarrow> length b = n"
  by (simp add: heap_ok_def)

lemma realloc_length: "heap_ok hp \<Longrightarrow> realloc hp old n = Some b \<Longrightarrow> length b = n"
  by (auto simp: realloc_def min_def dest: heap_ok_length split: option.splits)

definition zero_heap :: heap where
  "zero_heap = \<lparr>new_pcap = True, dup_source = True, malloc = (\<lambda>n. Some (replicate n 0))\<rparr>"

lemma zero_heap_simps [simp]:
  "heap_ok zero_heap" "new_pcap zero_heap" "dup_source zero_heap"
  "malloc zero_heap n = Some (replicate n 0)"
  by (simp_all add: zero_heap_def heap_ok_def)

definition sample_host :: host where
  "sample_host = \<lparr>host_order = Little, host_os = Other_OS, wide_shift = (\<lambda>n. 1)\<rparr>"

section \<open>Errors\<close>

text \<open>One constructor for each message of sf-pcap.c, sf-pcap-ng.c and savefile.c.\<close>

datatype sf_error =
    Read_error
  | Truncated_file_header nat nat
  | Archaic_format
  | Malloc_failed
  | Unknown_tstamp_resolution u32
  | Out_of_memory
  | Truncated_record_header nat nat
  | Bogus_header
  | Bufmod_malloc
  | Truncated_data nat nat
  | Unknown_file_format
  | Truncated_bytes nat nat
  | Block_too_big u32
  | Block_too_small u32
  | Block_too_short u32
  | Endofopt_length u16
  | Tsresol_length u16
  | Tsresol_repeated
  | Tsresol_too_high u8
  | Tsoffset_length u16
  | Tsoffset_repeated
  | Ifaces_out_of_memory u32
  | Shb_too_small u32
  | Unknown_major_version u16
  | No_idb
  | Packet_before_idb
  | Different_linktype u16
  | Different_snaplen u32
  | Byte_order_changed
  | Bad_byte_order_magic
  | Unknown_interface u32
  | Cannot_open

section \<open>The handle\<close>

definition PCAP_TSTAMP_PRECISION_MICRO :: u32 where "PCAP_TSTAMP_PRECISION_MICRO = 0"
definition PCAP_TSTAMP_PRECISION_NANO :: u32 where "PCAP_TSTAMP_PRECISION_NANO = 1"

definition MAXIMUM_SNAPLEN :: u32 where "MAXIMUM_SNAPLEN = 262144"

datatype tstamp_scale = PASS_THROUGH | SCALE_UP | SCALE_DOWN

text \<open>
  \<open>bufsize\<close>, \<open>snapshot\<close>, \<open>tzoff\<close> and \<open>linktype_ext\<close> are C \<open>int\<close>s; \<open>buffer\<close> is \<open>None\<close> for a
  null pointer and has as many bytes as were allocated; \<open>fcode\<close> is the installed filter.
\<close>

record 'priv pcap_t =
  rfile :: stream
  swapped :: bool
  version_major :: u16
  version_minor :: u16
  snapshot :: u32
  linktype :: int
  linktype_ext :: u32
  tzoff :: u32
  tstamp_precision :: u32
  bufsize :: u32
  buffer :: "u8 list option"
  priv :: 'priv
  break_loop :: bool
  fcode :: "bpf_insn list option"
  activated :: bool

text \<open>
  A \<open>pcap_t\<close> for a savefile: zeroed, with microsecond precision. Its private data is zeroed as
  well (\<open>pr\<close>), and \<open>rfile\<close>, which the code sets once the format is known, is the stream.
\<close>

definition pcap_open_offline_common :: "heap \<Rightarrow> 'priv \<Rightarrow> stream \<Rightarrow> 'priv pcap_t option" where
  "pcap_open_offline_common hp pr fp =
     (if \<not> new_pcap hp then None
      else if \<not> dup_source hp then None
      else Some \<lparr>rfile = fp, swapped = False, version_major = 0, version_minor = 0, snapshot = 0,
        linktype = 0, linktype_ext = 0, tzoff = 0,
        tstamp_precision = PCAP_TSTAMP_PRECISION_MICRO, bufsize = 0, buffer = None, priv = pr,
        break_loop = False, fcode = None, activated = False\<rparr>)"

text \<open>
  What a check of the file's format gives: not this format (\<open>NULL\<close> and \<open>err\<close> 0), an error
  (\<open>NULL\<close> and \<open>err\<close> 1), the handle, or behaviour that C does not define.
\<close>

datatype 'priv check_result =
    Not_mine stream
  | Rejected sf_error
  | Opened "'priv pcap_t"
  | Check_crash

text \<open>
  What \<open>next_packet_op\<close> gives: a header and the captured bytes (0), the end of the file (1), an
  error (-1), or behaviour that C does not define (a null pointer or an uninitialised value is
  used).
\<close>

datatype next_packet =
    Packet pcap_pkthdr "u8 list"
  | Eof
  | Failed sf_error
  | Crash

text \<open>A value as it is in the host's memory, swapped when the file's byte order is the other.\<close>

definition fix16 :: "bool \<Rightarrow> u16 \<Rightarrow> u16" where
  "fix16 sw w = (if sw then SWAPSHORT w else w)"

definition fix32 :: "bool \<Rightarrow> u32 \<Rightarrow> u32" where
  "fix32 sw w = (if sw then SWAPLONG w else w)"

definition fix64 :: "bool \<Rightarrow> u64 \<Rightarrow> u64" where
  "fix64 sw w = (if sw then SWAPLL w else w)"

text \<open>
  Reading with the fix is reading in the byte order of the file's writer: the fact every
  round trip through a savefile rests on.
\<close>

lemma fix_encoded [byte_simps]:
  "fix16 (r \<noteq> w) (decode_word r (encode_word w 2 x)) = x"
  "fix32 (r \<noteq> w) (decode_word r (encode_word w 4 y)) = y"
  "fix64 (r \<noteq> w) (decode_word r (encode_word w 8 z)) = z"
  by (cases "r = w";
      simp add: fix16_def fix32_def fix64_def decode_encode_word neq_order_iff [of r w]
        short.decode_flip_encode long.decode_flip_encode longlong.decode_flip_encode
        short.swap_swap long.swap_swap longlong.swap_swap)+

lemma fix_id [simp]: "fix16 False u = u" "fix32 False v = v" "fix64 False w = w"
  by (simp_all add: fix16_def fix32_def fix64_def)

end
