(* ===== verification/Packet_Source.thy ===== *)
theory Packet_Source
  imports Pcap_State
begin

text \<open>
  What a reader of packets promises its client, whatever the format: a locale over the
  operation \<open>next_packet_op\<close> and the two fields of the handle that belong to the client, the
  break flag and the filter. The packets a source has left are a list.
\<close>

section \<open>The fields of the client\<close>

definition mark :: "bool \<Rightarrow> bpf_insn list option \<Rightarrow> 'priv pcap_t \<Rightarrow> 'priv pcap_t" where
  "mark b f p = p\<lparr>break_loop := b, fcode := f\<rparr>"

lemma mark_simps [simp]:
  "break_loop (mark b f p) = b" "fcode (mark b f p) = f" "mark b f (mark b' f' p) = mark b f p"
  "mark (break_loop p) (fcode p) p = p" "rfile (mark b f p) = rfile p" "swapped (mark b f p) = swapped p"
  "buffer (mark b f p) = buffer p" "bufsize (mark b f p) = bufsize p" "priv (mark b f p) = priv p"
  "linktype (mark b f p) = linktype p" "snapshot (mark b f p) = snapshot p"
  "tstamp_precision (mark b f p) = tstamp_precision p"
  by (simp_all add: mark_def)

lemma mark_updates:
  "(mark b f p)\<lparr>rfile := x\<rparr> = mark b f (p\<lparr>rfile := x\<rparr>)"
  "(mark b f p)\<lparr>buffer := y\<rparr> = mark b f (p\<lparr>buffer := y\<rparr>)"
  "(mark b f p)\<lparr>priv := z\<rparr> = mark b f (p\<lparr>priv := z\<rparr>)"
  by (simp_all add: mark_def)

locale client_fields =
  fixes brk :: "'s \<Rightarrow> bool" and prog :: "'s \<Rightarrow> bpf_insn list option"
    and put :: "bool \<Rightarrow> bpf_insn list option \<Rightarrow> 's \<Rightarrow> 's"
  assumes brk_put: "brk (put b f s) = b"
    and prog_put: "prog (put b f s) = f"
    and put_put: "put b f (put b' f' s) = put b f s"
    and put_same: "put (brk s) (prog s) s = s"

section \<open>A source of packets\<close>

text \<open>\<open>reads_to nxt s ps r s'\<close>: from \<open>s\<close> come the packets \<open>ps\<close>, then \<open>r\<close>, in the state \<open>s'\<close>.\<close>

inductive reads_to ::
  "('s \<Rightarrow> next_packet \<times> 's) \<Rightarrow> 's \<Rightarrow> (pcap_pkthdr \<times> u8 list) list \<Rightarrow> next_packet \<Rightarrow> 's \<Rightarrow> bool"
  for nxt :: "'s \<Rightarrow> next_packet \<times> 's" where
  reads_stop: "nxt s = (r, s') \<Longrightarrow> \<nexists>h d. r = Packet h d \<Longrightarrow> reads_to nxt s [] r s'"
| reads_packet: "nxt s = (Packet h d, s1) \<Longrightarrow> reads_to nxt s1 ps r s' \<Longrightarrow>
    reads_to nxt s ((h, d) # ps) r s'"

inductive_cases reads_to_NilE: "reads_to nxt s [] r s'"
inductive_cases reads_to_ConsE: "reads_to nxt s (p # ps) r s'"

lemma reads_to_append:
  assumes "reads_to nxt s (ps @ qs) r s'"
  shows "\<exists>t. reads_to nxt t qs r s'"
  using assms by (induction ps arbitrary: s) (auto elim: reads_to_ConsE)

locale packet_source = client_fields +
  fixes nxt :: "'s \<Rightarrow> next_packet \<times> 's" and wf :: "'s \<Rightarrow> bool" and left :: "'s \<Rightarrow> nat"
  assumes nxt_put: "nxt (put b f s) = (case nxt s of (r, s') \<Rightarrow> (r, put b f s'))"
    and wf_put: "wf (put b f s) = wf s"
    and left_put: "left (put b f s) = left s"
    and no_crash: "wf s \<Longrightarrow> nxt s = (r, s') \<Longrightarrow> r \<noteq> Crash"
    and keeps_wf: "wf s \<Longrightarrow> nxt s = (Packet h d, s') \<Longrightarrow> wf s'"
    and consumes: "wf s \<Longrightarrow> nxt s = (Packet h d, s') \<Longrightarrow> left s' + 12 \<le> left s"
    and exact_data: "wf s \<Longrightarrow> nxt s = (Packet h d, s') \<Longrightarrow> length d = unat (caplen h)"
begin

lemma nxt_keeps:
  assumes "nxt s = (r, s')"
  shows "brk s' = brk s" and "prog s' = prog s"
proof -
  have "s' = put (brk s) (prog s) s'" using nxt_put [of "brk s" "prog s" s] assms by (simp add: put_same)
  then show "brk s' = brk s" "prog s' = prog s" by (metis brk_put, metis prog_put)
qed

lemma reads_to_put: "reads_to nxt s ps r s' \<Longrightarrow> reads_to nxt (put b f s) ps r (put b f s')"
  by (induction rule: reads_to.induct) (auto simp: nxt_put intro!: reads_to.intros)

lemma reads_to_keeps: "reads_to nxt s ps r s' \<Longrightarrow> brk s' = brk s \<and> prog s' = prog s"
  by (induction rule: reads_to.induct) (auto dest: nxt_keeps)

text \<open>A well-formed source has finitely many packets left, and every one is as long as it says.\<close>

lemma reads_to_ends:
  assumes "wf s"
  shows "\<exists>ps r s'. reads_to nxt s ps r s' \<and> r \<noteq> Crash \<and> 12 * length ps \<le> left s \<and>
    (\<forall>(h, d)\<in>set ps. length d = unat (caplen h))"
  using assms
proof (induction "left s" arbitrary: s rule: less_induct)
  case less
  obtain r s1 where nx: "nxt s = (r, s1)" by fastforce
  show ?case
  proof (cases "\<exists>h d. r = Packet h d")
    case False
    then have "reads_to nxt s [] r s1" using nx by (intro reads_stop) auto
    then show ?thesis using no_crash [OF less.prems nx] by (intro exI conjI) auto
  next
    case True
    then obtain h d where r: "r = Packet h d" by blast
    note next1 = nx [unfolded r]
    have "left s1 < left s" using consumes [OF less.prems next1] by simp
    from less.hyps [OF this keeps_wf [OF less.prems next1]]
    obtain ps r' s' where rest: "reads_to nxt s1 ps r' s'" "r' \<noteq> Crash" "12 * length ps \<le> left s1"
      "\<forall>(h, d)\<in>set ps. length d = unat (caplen h)" by blast
    show ?thesis
      using reads_packet [OF next1 rest(1)] rest consumes [OF less.prems next1]
        exact_data [OF less.prems next1]
      by (intro exI [of _ "(h, d) # ps"] exI [of _ r'] exI [of _ s']) auto
  qed
qed

end
end
