(* ===== verification/Sf_Pcap.thy ===== *)
theory Sf_Pcap
  imports Packet_Source
begin

text \<open>
  The classic savefile format (sf-pcap.c): recognising and reading the file header, reading a
  packet, writing a header and packets, opening a file to write or to append. A structure in
  the file is the sequence of its bytes; the host reads its fields in its own byte order, and
  \<open>swapped\<close> says that the file's is the other one.
\<close>

section \<open>Formats\<close>

definition TCPDUMP_MAGIC :: u32 where "TCPDUMP_MAGIC = 0xa1b2c3d4"
definition KUZNETZOV_TCPDUMP_MAGIC :: u32 where "KUZNETZOV_TCPDUMP_MAGIC = 0xa1b2cd34"
definition NAVTEL_TCPDUMP_MAGIC :: u32 where "NAVTEL_TCPDUMP_MAGIC = 0xa12b3c4d"
definition NSEC_TCPDUMP_MAGIC :: u32 where "NSEC_TCPDUMP_MAGIC = 0xa1b23c4d"

definition LT_LINKTYPE :: "u32 \<Rightarrow> u32" where "LT_LINKTYPE x = x AND 0x03FFFFFF"
definition LT_LINKTYPE_EXT :: "u32 \<Rightarrow> u32" where "LT_LINKTYPE_EXT x = x AND 0xFC000000"

abbreviation (input) "PCAP_VERSION_MAJOR \<equiv> 2 :: u16"
abbreviation (input) "PCAP_VERSION_MINOR \<equiv> 4 :: u16"

datatype swapped_type = NOT_SWAPPED | SWAPPED | MAYBE_SWAPPED

record pcap_sf =
  hdrsize :: nat
  lengths_swapped :: swapped_type
  scale_type :: tstamp_scale

definition zero_sf :: pcap_sf where
  "zero_sf = \<lparr>hdrsize = 0, lengths_swapped = NOT_SWAPPED, scale_type = PASS_THROUGH\<rparr>"

text \<open>\<open>struct pcap_file_header\<close>, 24 bytes in the file.\<close>

record pcap_file_header =
  fh_magic :: u32
  fh_version_major :: u16
  fh_version_minor :: u16
  fh_thiszone :: u32
  fh_sigfigs :: u32
  fh_snaplen :: u32
  fh_linktype :: u32

definition file_header_bytes :: "byte_order \<Rightarrow> pcap_file_header \<Rightarrow> u8 list" where
  "file_header_bytes bo h =
     encode_word bo 4 (fh_magic h) @ encode_word bo 2 (fh_version_major h) @
     encode_word bo 2 (fh_version_minor h) @ encode_word bo 4 (fh_thiszone h) @
     encode_word bo 4 (fh_sigfigs h) @ encode_word bo 4 (fh_snaplen h) @
     encode_word bo 4 (fh_linktype h)"

text \<open>The header as the host sees it: the magic number and the 20 bytes after it.\<close>

definition file_header_of :: "byte_order \<Rightarrow> u32 \<Rightarrow> u8 list \<Rightarrow> pcap_file_header" where
  "file_header_of bo magic rest =
     \<lparr>fh_magic = magic, fh_version_major = field bo 0 2 rest, fh_version_minor = field bo 2 2 rest,
      fh_thiszone = field bo 4 4 rest, fh_sigfigs = field bo 8 4 rest,
      fh_snaplen = field bo 12 4 rest, fh_linktype = field bo 16 4 rest\<rparr>"

definition swap_file_header :: "pcap_file_header \<Rightarrow> pcap_file_header" where
  "swap_file_header h = h\<lparr>fh_version_major := SWAPSHORT (fh_version_major h),
     fh_version_minor := SWAPSHORT (fh_version_minor h), fh_thiszone := SWAPLONG (fh_thiszone h),
     fh_sigfigs := SWAPLONG (fh_sigfigs h), fh_snaplen := SWAPLONG (fh_snaplen h),
     fh_linktype := SWAPLONG (fh_linktype h)\<rparr>"

text \<open>\<open>struct pcap_sf_pkthdr\<close>, 16 bytes; the patched one has 8 more.\<close>

record pcap_sf_pkthdr =
  sf_sec :: u32
  sf_usec :: u32
  sf_caplen :: u32
  sf_len :: u32

definition sf_pkthdr_bytes :: "byte_order \<Rightarrow> pcap_sf_pkthdr \<Rightarrow> u8 list" where
  "sf_pkthdr_bytes bo h = encode_word bo 4 (sf_sec h) @ encode_word bo 4 (sf_usec h) @
     encode_word bo 4 (sf_caplen h) @ encode_word bo 4 (sf_len h)"

definition sf_pkthdr_of :: "byte_order \<Rightarrow> u8 list \<Rightarrow> pcap_sf_pkthdr" where
  "sf_pkthdr_of bo bs = \<lparr>sf_sec = field bo 0 4 bs, sf_usec = field bo 4 4 bs,
     sf_caplen = field bo 8 4 bs, sf_len = field bo 12 4 bs\<rparr>"

section \<open>Recognising a savefile\<close>

definition known_magic :: "u32 \<Rightarrow> bool" where
  "known_magic magic \<longleftrightarrow> magic = TCPDUMP_MAGIC \<or> magic = KUZNETZOV_TCPDUMP_MAGIC \<or>
     magic = NSEC_TCPDUMP_MAGIC"

definition sf_scale :: "u32 \<Rightarrow> u32 \<Rightarrow> tstamp_scale option" where
  "sf_scale precision magic =
     (if precision = PCAP_TSTAMP_PRECISION_MICRO
      then Some (if magic = NSEC_TCPDUMP_MAGIC then SCALE_DOWN else PASS_THROUGH)
      else if precision = PCAP_TSTAMP_PRECISION_NANO
      then Some (if magic = NSEC_TCPDUMP_MAGIC then PASS_THROUGH else SCALE_UP)
      else None)"

definition sf_lengths :: "u16 \<Rightarrow> u16 \<Rightarrow> swapped_type" where
  "sf_lengths major minor =
     (if major = 2 then
        (if minor < 3 then SWAPPED else if minor = 3 then MAYBE_SWAPPED else NOT_SWAPPED)
      else if major = 543 then SWAPPED
      else NOT_SWAPPED)"

text \<open>
  The part after the version check: \<open>h\<close> is the header in the host's byte order. For the
  patched format with Ethernet packets the snapshot length grows by 14; a snapshot length that
  is not a positive \<open>int\<close> gives a buffer of the maximum size.
\<close>

definition sf_bufsize :: "u32 \<Rightarrow> u32" where
  "sf_bufsize snap = (if sint snap \<le> 0 then MAXIMUM_SNAPLEN else snap)"

definition sf_open ::
  "host \<Rightarrow> heap \<Rightarrow> u32 \<Rightarrow> bool \<Rightarrow> pcap_file_header \<Rightarrow> stream \<Rightarrow> pcap_sf check_result" where
  "sf_open ho hp precision swp h fp =
     (case pcap_open_offline_common hp zero_sf fp of
        None \<Rightarrow> Rejected Malloc_failed
      | Some p0 \<Rightarrow>
          let lt = linktype_to_dlt (host_os ho) (uint (LT_LINKTYPE (fh_linktype h)));
              patched = fh_magic h = KUZNETZOV_TCPDUMP_MAGIC;
              snap = (if patched \<and> lt = DLT_EN10MB then fh_snaplen h + 14 else fh_snaplen h);
              bsize = sf_bufsize snap in
          (case sf_scale precision (fh_magic h) of
             None \<Rightarrow> Rejected (Unknown_tstamp_resolution precision)
           | Some scale \<Rightarrow>
               (case malloc hp (unat bsize) of
                  None \<Rightarrow> Rejected Out_of_memory
                | Some buf \<Rightarrow>
                    Opened (p0\<lparr>swapped := swp, version_major := fh_version_major h,
                      version_minor := fh_version_minor h, tzoff := fh_thiszone h,
                      snapshot := snap, linktype := lt,
                      linktype_ext := LT_LINKTYPE_EXT (fh_linktype h),
                      tstamp_precision := precision, bufsize := bsize, buffer := Some buf,
                      priv := \<lparr>hdrsize = (if patched then 24 else 16),
                        lengths_swapped = sf_lengths (fh_version_major h) (fh_version_minor h),
                        scale_type = scale\<rparr>\<rparr>))))"

definition pcap_check_header ::
  "host \<Rightarrow> heap \<Rightarrow> u32 \<Rightarrow> stream \<Rightarrow> u32 \<Rightarrow> pcap_sf check_result" where
  "pcap_check_header ho hp magic fp precision =
     (if \<not> known_magic magic \<and> \<not> known_magic (SWAPLONG magic) then Not_mine fp
      else
        let swp = (\<not> known_magic magic);
            magic = (if swp then SWAPLONG magic else magic) in
        (case fread_bytes 20 fp of (rest, fp) \<Rightarrow>
           if length rest \<noteq> 20 then
             Rejected (if broken fp then Read_error else Truncated_file_header 24 (length rest))
           else
             let h0 = file_header_of (host_order ho) magic rest;
                 h = (if swp then swap_file_header h0 else h0) in
             if fh_version_major h < PCAP_VERSION_MAJOR then Rejected Archaic_format
             else sf_open ho hp precision swp h fp))"

section \<open>Reading a packet\<close>

definition scale_tstamp :: "tstamp_scale \<Rightarrow> u64 \<Rightarrow> u64" where
  "scale_tstamp sc usec = (case sc of PASS_THROUGH \<Rightarrow> usec | SCALE_UP \<Rightarrow> usec * 1000
     | SCALE_DOWN \<Rightarrow> c_div64 usec 1000)"

text \<open>
  The packet header from the bytes read: fields put in order, the signed 32-bit time stamp
  widened, scaled, and the two lengths exchanged where old files have them so.
\<close>

definition sf_pkthdr :: "host \<Rightarrow> pcap_sf pcap_t \<Rightarrow> u8 list \<Rightarrow> pcap_pkthdr" where
  "sf_pkthdr ho p bs =
     (let h = sf_pkthdr_of (host_order ho) bs;
          cap = fix32 (swapped p) (sf_caplen h);
          ln = fix32 (swapped p) (sf_len h);
          exchange = (case lengths_swapped (priv p) of NOT_SWAPPED \<Rightarrow> False
             | MAYBE_SWAPPED \<Rightarrow> \<not> cap \<le> ln | SWAPPED \<Rightarrow> True) in
      \<lparr>tv_sec = scast (fix32 (swapped p) (sf_sec h)),
       tv_usec = scale_tstamp (scale_type (priv p)) (scast (fix32 (swapped p) (sf_usec h))),
       caplen = (if exchange then ln else cap), pkt_len = (if exchange then cap else ln)\<rparr>)"

text \<open>
  The \<open>static\<close> buffer of the BUFMOD hack is the process's, not the handle's: its size (0 when
  there is none) is threaded through. It is grown to a multiple of 1024.
\<close>

definition grow_bufmod :: "heap \<Rightarrow> nat \<Rightarrow> u32 \<Rightarrow> bool \<times> nat" where
  "grow_bufmod hp tsize cap =
     (if tsize < unat cap then
        let n = unat ((cap + 1023) div 1024 * 1024) in
        (case malloc hp n of None \<Rightarrow> (False, 0) | Some _ \<Rightarrow> (True, n))
      else (True, tsize))"

text \<open>
  The captured bytes: \<open>cap\<close> bytes into the buffer when they fit; otherwise, up to the maximum
  snapshot length, all of them into the static buffer, of which \<open>bufsize\<close> are kept. A short
  read is an error. The result: an error or the captured length, the handle, the static size.
\<close>

definition sf_read_data ::
  "heap \<Rightarrow> u32 \<Rightarrow> pcap_sf pcap_t \<Rightarrow> u8 list \<Rightarrow> nat \<Rightarrow> (sf_error + u32) \<times> pcap_sf pcap_t \<times> nat" where
  "sf_read_data hp cap p buf tsize =
     (let short = (\<lambda>n. Inl (if broken (rfile p) then Read_error else Truncated_data (unat cap) n)) in
      if bufsize p < cap then
        if MAXIMUM_SNAPLEN < cap then (Inl Bogus_header, p, tsize)
        else
          (case grow_bufmod hp tsize cap of (ok, tsize) \<Rightarrow>
             if \<not> ok then (Inl Bufmod_malloc, p, tsize)
             else
               (case fread_bytes (unat cap) (rfile p) of (bs, fp) \<Rightarrow>
                  if length bs \<noteq> unat cap then (short (length bs), p\<lparr>rfile := fp\<rparr>, tsize)
                  else (Inr (bufsize p), p\<lparr>rfile := fp,
                    buffer := Some (put_bytes 0 (take (unat (bufsize p)) bs) buf)\<rparr>, tsize)))
      else
        (case fread_bytes (unat cap) (rfile p) of (bs, fp) \<Rightarrow>
           let p = p\<lparr>rfile := fp, buffer := Some (put_bytes 0 bs buf)\<rparr> in
           if length bs \<noteq> unat cap then (short (length bs), p, tsize) else (Inr cap, p, tsize)))"

definition pcap_next_packet ::
  "host \<Rightarrow> heap \<Rightarrow> pcap_sf pcap_t \<Rightarrow> nat \<Rightarrow> next_packet \<times> pcap_sf pcap_t \<times> nat" where
  "pcap_next_packet ho hp p tsize =
     (case fread_bytes (hdrsize (priv p)) (rfile p) of (bs, fp) \<Rightarrow>
        let p = p\<lparr>rfile := fp\<rparr> in
        if length bs \<noteq> hdrsize (priv p) then
          (if broken fp then Failed Read_error
           else if bs \<noteq> [] then Failed (Truncated_record_header (hdrsize (priv p)) (length bs))
           else Eof, p, tsize)
        else
          let h = sf_pkthdr ho p bs in
          (case buffer p of None \<Rightarrow> (Crash, p, tsize) | Some buf \<Rightarrow>
             (case sf_read_data hp (caplen h) p buf tsize of
                (Inl e, p, tsize) \<Rightarrow> (Failed e, p, tsize)
              | (Inr cap, p, tsize) \<Rightarrow>
                  let h = h\<lparr>caplen := cap\<rparr>;
                      buf = the (buffer p);
                      buf = (if swapped p
                        then swap_pseudo_headers (host_order ho) (linktype p) h buf else buf) in
                  (Packet h (take (unat cap) buf), p\<lparr>buffer := Some buf\<rparr>, tsize))))"

section \<open>Writing\<close>

text \<open>
  \<open>sf_write_header\<close> for a handle whose time stamps have the given precision; the result says
  whether everything was written.
\<close>

definition sf_header :: "u32 \<Rightarrow> u32 \<Rightarrow> u32 \<Rightarrow> u32 \<Rightarrow> pcap_file_header" where
  "sf_header precision linktyp thiszone snaplen =
     \<lparr>fh_magic = (if precision = PCAP_TSTAMP_PRECISION_NANO then NSEC_TCPDUMP_MAGIC
        else TCPDUMP_MAGIC),
      fh_version_major = PCAP_VERSION_MAJOR, fh_version_minor = PCAP_VERSION_MINOR,
      fh_thiszone = thiszone, fh_sigfigs = 0, fh_snaplen = snaplen, fh_linktype = linktyp\<rparr>"

definition sf_write_header ::
  "host \<Rightarrow> 'priv pcap_t \<Rightarrow> outfile \<Rightarrow> u32 \<Rightarrow> u32 \<Rightarrow> u32 \<Rightarrow> bool \<times> outfile" where
  "sf_write_header ho p f linktyp thiszone snaplen =
     fwrite_bytes (file_header_bytes (host_order ho)
       (sf_header (tstamp_precision p) linktyp thiszone snaplen)) f"

text \<open>
  \<open>pcap_dump\<close>: the time stamp is cut to 32 bits; the results of the two writes are ignored, so
  the packet data is written even when the header was not.
\<close>

definition pcap_dump :: "host \<Rightarrow> outfile \<Rightarrow> pcap_pkthdr \<Rightarrow> u8 list \<Rightarrow> outfile" where
  "pcap_dump ho f h sp =
     (let sf_hdr = \<lparr>sf_sec = ucast (tv_sec h), sf_usec = ucast (tv_usec h), sf_caplen = caplen h,
        sf_len = pkt_len h\<rparr>;
        f = snd (fwrite_bytes (sf_pkthdr_bytes (host_order ho) sf_hdr) f) in
      snd (fwrite_bytes (take (unat (caplen h)) sp) f))"

datatype dump_error =
    Not_activated
  | Unsupported_linktype int
  | Open_failed
  | Write_failed
  | Append_read_failed
  | Truncated_pcap_header
  | Different_precision
  | Different_byte_order
  | Not_appendable
  | Not_a_pcap_file
  | Different_version u16 u16
  | Dump_linktype_differs
  | Dump_snaplen_differs
  | Seek_failed

definition pcap_setup_dump ::
  "host \<Rightarrow> 'priv pcap_t \<Rightarrow> u32 \<Rightarrow> outfile \<Rightarrow> dump_error + outfile" where
  "pcap_setup_dump ho p linktyp f =
     (case sf_write_header ho p f linktyp (tzoff p) (snapshot p) of
        (ok, f) \<Rightarrow> if ok then Inr f else Inl Write_failed)"

text \<open>
  \<open>pcap_dump_open\<close>: \<open>-\<close> is the standard output; \<open>created\<close> is what \<open>fopen\<close> with mode \<open>w\<close>
  returns for the name.
\<close>

definition pcap_dump_open ::
  "host \<Rightarrow> 'priv pcap_t \<Rightarrow> string \<Rightarrow> outfile \<Rightarrow> outfile option \<Rightarrow> dump_error + outfile" where
  "pcap_dump_open ho p fname std_out created =
     (if \<not> activated p then Inl Not_activated
      else
        let lt = dlt_to_linktype (host_os ho) (linktype p) in
        if lt = -1 then Inl (Unsupported_linktype (linktype p))
        else
          let lt = word_of_int lt OR linktype_ext p in
          if fname = ''-'' then pcap_setup_dump ho p lt std_out
          else (case created of None \<Rightarrow> Inl Open_failed | Some f \<Rightarrow> pcap_setup_dump ho p lt f))"

definition pcap_dump_fopen :: "host \<Rightarrow> 'priv pcap_t \<Rightarrow> outfile \<Rightarrow> dump_error + outfile" where
  "pcap_dump_fopen ho p f =
     (let lt = dlt_to_linktype (host_os ho) (linktype p) in
      if lt = -1 then Inl (Unsupported_linktype (linktype p))
      else pcap_setup_dump ho p (word_of_int lt OR linktype_ext p) f)"

text \<open>The checks on the header of a file to append to; \<open>None\<close> when it fits the handle.\<close>

definition append_mismatch ::
  "'priv pcap_t \<Rightarrow> u32 \<Rightarrow> pcap_file_header \<Rightarrow> dump_error option" where
  "append_mismatch p linktyp ph =
     (let m = fh_magic ph in
      if m = TCPDUMP_MAGIC \<and> tstamp_precision p \<noteq> PCAP_TSTAMP_PRECISION_MICRO
        then Some Different_precision
      else if m = NSEC_TCPDUMP_MAGIC \<and> tstamp_precision p \<noteq> PCAP_TSTAMP_PRECISION_NANO
        then Some Different_precision
      else if m = SWAPLONG TCPDUMP_MAGIC \<or> m = SWAPLONG NSEC_TCPDUMP_MAGIC
        then Some Different_byte_order
      else if m = KUZNETZOV_TCPDUMP_MAGIC \<or> m = SWAPLONG KUZNETZOV_TCPDUMP_MAGIC \<or>
        m = NAVTEL_TCPDUMP_MAGIC \<or> m = SWAPLONG NAVTEL_TCPDUMP_MAGIC then Some Not_appendable
      else if m \<noteq> TCPDUMP_MAGIC \<and> m \<noteq> NSEC_TCPDUMP_MAGIC then Some Not_a_pcap_file
      else if fh_version_major ph \<noteq> PCAP_VERSION_MAJOR \<or> fh_version_minor ph \<noteq> PCAP_VERSION_MINOR
        then Some (Different_version (fh_version_major ph) (fh_version_minor ph))
      else if linktyp \<noteq> fh_linktype ph then Some Dump_linktype_differs
      else if snapshot p \<noteq> fh_snaplen ph then Some Dump_snaplen_differs
      else None)"

text \<open>
  \<open>pcap_dump_open_append\<close>: \<open>existing\<close> is the file \<open>fopen\<close> with mode \<open>r+\<close> gives, with its bytes
  and whether reading it fails; \<open>seeks\<close> is whether \<open>fseek\<close> to its end succeeds. The link type
  is not combined with \<open>linktype_ext\<close> here. The error for an unsupported one names the -1.
\<close>

definition pcap_dump_open_append ::
  "host \<Rightarrow> 'priv pcap_t \<Rightarrow> string \<Rightarrow> outfile \<Rightarrow> (outfile \<times> bool) option \<Rightarrow> bool \<Rightarrow> dump_error + outfile"
where
  "pcap_dump_open_append ho p fname std_out existing seeks =
     (let lt = dlt_to_linktype (host_os ho) (linktype p);
          ltw = word_of_int lt in
      if lt = -1 then Inl (Unsupported_linktype lt)
      else if fname = ''-'' then pcap_setup_dump ho p ltw std_out
      else
        (case existing of
           None \<Rightarrow> Inl Open_failed
         | Some (f, unreadable) \<Rightarrow>
             let ph = take 24 (written f) in
             if length ph \<noteq> 24 \<and> unreadable then Inl Append_read_failed
             else if length ph \<noteq> 24 \<and> ph \<noteq> [] then Inl Truncated_pcap_header
             else
               (case (if ph \<noteq> [] then
                   (case append_mismatch p ltw
                       (file_header_of (host_order ho) (field (host_order ho) 0 4 ph) (drop 4 ph)) of
                      Some e \<Rightarrow> Inl e | None \<Rightarrow> Inr f)
                  else pcap_setup_dump ho p ltw f) of
                  Inl e \<Rightarrow> Inl e
                | Inr f \<Rightarrow> if seeks then Inr f else Inl Seek_failed)))"

section \<open>Reading back a header\<close>

lemmas magic_defs =
  TCPDUMP_MAGIC_def KUZNETZOV_TCPDUMP_MAGIC_def NAVTEL_TCPDUMP_MAGIC_def NSEC_TCPDUMP_MAGIC_def

lemma magic_swaps:
  "SWAPLONG TCPDUMP_MAGIC = 0xd4c3b2a1" "SWAPLONG KUZNETZOV_TCPDUMP_MAGIC = 0x34cdb2a1"
  "SWAPLONG NSEC_TCPDUMP_MAGIC = 0x4d3cb2a1" "SWAPLONG NAVTEL_TCPDUMP_MAGIC = 0x4d3c2ba1"
  by (simp_all add: magic_defs SWAPLONG_def)

lemma known_magic_one_way: "known_magic m \<Longrightarrow> \<not> known_magic (SWAPLONG m)"
  by (auto simp: known_magic_def magic_swaps) (simp_all add: magic_defs)

lemma file_header_rest:
  "drop 4 (file_header_bytes w h) = encode_word w 2 (fh_version_major h) @
     encode_word w 2 (fh_version_minor h) @ encode_word w 4 (fh_thiszone h) @
     encode_word w 4 (fh_sigfigs h) @ encode_word w 4 (fh_snaplen h) @
     encode_word w 4 (fh_linktype h)"
  by (simp add: file_header_bytes_def)

lemma length_file_header [simp]: "length (file_header_bytes w h) = 24"
  by (simp add: file_header_bytes_def)

text \<open>The host's view of a header written by \<open>w\<close>, swapped when the orders differ.\<close>

lemma file_header_read:
  assumes "m = fh_magic h"
  shows "(if r \<noteq> w then swap_file_header (file_header_of r m (drop 4 (file_header_bytes w h)))
    else file_header_of r m (drop 4 (file_header_bytes w h))) = h"
  using assms fix_encoded [of r w, unfolded fix16_def fix32_def]
  by (cases "r = w")
    (simp_all add: swap_file_header_def file_header_of_def file_header_rest field_here field_later
      field_end decode_encode_word)

lemma check_header_written:
  assumes "known_magic (fh_magic h)" and "2 \<le> fh_version_major h"
    and "pending fp = drop 4 (file_header_bytes w h) @ rest"
  shows "pcap_check_header ho hp (decode_word (host_order ho) (encode_word w 4 (fh_magic h))) fp
      precision =
    sf_open ho hp precision (host_order ho \<noteq> w) h (fp\<lparr>pending := rest\<rparr>)"
proof -
  let ?r = "host_order ho"
  let ?magic = "decode_word ?r (encode_word w 4 (fh_magic h)) :: u32"
  have swp: "\<not> known_magic ?magic \<longleftrightarrow> ?r \<noteq> w" "\<not> known_magic ?magic \<Longrightarrow> SWAPLONG ?magic = fh_magic h"
    and known: "known_magic ?magic \<or> known_magic (SWAPLONG ?magic)"
    and same: "known_magic ?magic \<Longrightarrow> ?magic = fh_magic h"
    using assms(1) known_magic_one_way [OF assms(1)]
    by (cases "?r = w"; simp add: decode_encode_word neq_order_iff [of ?r w]
        long.decode_flip_encode long.swap_swap)+
  have read: "fread_bytes 20 fp = (drop 4 (file_header_bytes w h), fp\<lparr>pending := rest\<rparr>)"
    using assms(3) by (intro fread_bytes_enough) simp_all
  have hdr: "(if \<not> known_magic ?magic
      then swap_file_header (file_header_of ?r (fh_magic h) (drop 4 (file_header_bytes w h)))
      else file_header_of ?r (fh_magic h) (drop 4 (file_header_bytes w h))) = h"
    unfolding swp(1) by (rule file_header_read) simp
  have magic: "(if \<not> known_magic ?magic then SWAPLONG ?magic else ?magic) = fh_magic h"
    using swp(2) same by simp
  have "\<not> (?r \<noteq> w \<and> \<not> known_magic (SWAPLONG ?magic))" "\<not> fh_version_major h < 2"
    "\<not> length (drop 4 (file_header_bytes w h)) \<noteq> 20"
    using known swp(1) assms(2) by (auto simp: not_less)
  then show ?thesis
    unfolding pcap_check_header_def Let_def magic read prod.case hdr
    by (simp only: swp(1) if_False)
qed

section \<open>Reading any file\<close>

text \<open>
  What holds of a handle for a savefile: there is a buffer of \<open>bufsize\<close> bytes, a positive
  \<open>int\<close>, and a packet header takes 16 or 24 bytes.
\<close>

definition sf_wf :: "pcap_sf pcap_t \<Rightarrow> bool" where
  "sf_wf p \<longleftrightarrow> (\<exists>buf. buffer p = Some buf \<and> length buf = unat (bufsize p)) \<and>
     0 < unat (bufsize p) \<and> unat (bufsize p) < 2 ^ 31 \<and> hdrsize (priv p) \<in> {16, 24}"

lemma sint_pos_unat:
  assumes "0 < sint (w :: u32)"
  shows "0 < unat w \<and> unat w < 2 ^ 31"
proof -
  have eq: "sint w = int (unat w)" using assms by (intro sint32_nonneg) simp
  have "int (unat w) < 2 ^ 31" using sint32_range(2) [of w] by (simp only: eq)
  then have "unat w < 2 ^ 31" by (simp only: int_less_2_31)
  moreover have "0 < unat w" using assms unfolding eq by (simp only: of_nat_0_less_iff)
  ultimately show ?thesis by simp
qed

lemma sf_bufsize_range: "0 < unat (sf_bufsize snap)" "unat (sf_bufsize snap) < 2 ^ 31"
  using sint_pos_unat [of snap] by (simp_all add: sf_bufsize_def MAXIMUM_SNAPLEN_def)

lemma sf_open_wf:
  assumes "sf_open ho hp precision swp h fp = Opened p" and "heap_ok hp"
  shows "sf_wf p \<and> rfile p = fp"
  using assms sf_bufsize_range
  by (auto simp: sf_open_def Let_def pcap_open_offline_common_def sf_wf_def
      dest: heap_ok_length split: option.splits if_splits)

lemma pcap_check_header_wf:
  assumes "pcap_check_header ho hp magic fp precision = Opened p" and "heap_ok hp"
  shows "sf_wf p \<and> length (pending (rfile p)) \<le> length (pending fp)"
proof -
  obtain swp h where "sf_open ho hp precision swp h (snd (fread_bytes 20 fp)) = Opened p"
    using assms(1) by (auto simp: pcap_check_header_def Let_def split: if_splits prod.splits)
  from sf_open_wf [OF this assms(2)] show ?thesis by (simp add: fread_bytes_def)
qed

lemma put_bytes_length_0 [simp]: "length bs \<le> length buf \<Longrightarrow> length (put_bytes 0 bs buf) = length buf"
  by simp

lemma sf_read_data_wf:
  assumes "sf_read_data hp cap p buf tsize = (r, p', tsize')" and "sf_wf p" and "buffer p = Some buf"
  shows "sf_wf p' \<and> length (pending (rfile p')) \<le> length (pending (rfile p)) \<and>
    bufsize p' = bufsize p \<and> (\<forall>n. r = Inr n \<longrightarrow> n \<le> bufsize p)"
  using assms
  by (auto simp: sf_read_data_def Let_def fread_bytes_def sf_wf_def word_le_nat_alt word_less_nat_alt
      split: if_splits prod.splits)

lemma sf_next_wf:
  assumes "sf_wf p" and "pcap_next_packet ho hp p tsize = (r, p', tsize')"
  shows "r \<noteq> Crash \<and> sf_wf p' \<and> bufsize p' = bufsize p \<and>
    (\<forall>h d. r = Packet h d \<longrightarrow> length d = unat (caplen h) \<and> caplen h \<le> bufsize p \<and>
      length (pending (rfile p')) + 16 \<le> length (pending (rfile p)))"
proof -
  obtain buf where buf: "buffer p = Some buf" "length buf = unat (bufsize p)"
    and size: "0 < unat (bufsize p)" "unat (bufsize p) < 2 ^ 31"
    and hdr: "hdrsize (priv p) \<in> {16, 24}"
    using assms(1) by (auto simp: sf_wf_def)
  let ?n = "hdrsize (priv p)"
  let ?fp = "rfile p\<lparr>pending := drop ?n (pending (rfile p))\<rparr>"
  let ?p = "p\<lparr>rfile := ?fp\<rparr>"
  have wf: "sf_wf ?p" using assms(1) by (simp add: sf_wf_def)
  show ?thesis
  proof (cases "length (pending (rfile p)) < ?n")
    case True
    then show ?thesis
      using assms(2) wf by (auto simp: pcap_next_packet_def fread_bytes_def Let_def split: if_splits)
  next
    case False
    let ?h = "sf_pkthdr ho ?p (take ?n (pending (rfile p)))"
    obtain q pq tq where q: "sf_read_data hp (caplen ?h) ?p buf tsize = (q, pq, tq)"
      by (metis prod_cases3)
    have after: "sf_wf pq" "length (pending (rfile pq)) + 16 \<le> length (pending (rfile p))"
      "bufsize pq = bufsize p" "q = Inr n \<Longrightarrow> n \<le> bufsize p" for n
      using sf_read_data_wf [OF q wf] buf hdr False by auto
    obtain bq where bq: "buffer pq = Some bq" "length bq = unat (bufsize p)"
      using after(1,3) by (auto simp: sf_wf_def)
    have swap: "length (swap_pseudo_headers bo lt (?h\<lparr>caplen := n\<rparr>) bq) = length bq"
      if "q = Inr n" for n bo lt
      using swap_pseudo_headers_length [of "?h\<lparr>caplen := n\<rparr>" bq bo lt] after(4) [OF that] bq size
      by (simp add: word_le_nat_alt)
    show ?thesis
    proof (cases q)
      case (Inl e)
      then show ?thesis
        using assms(2) q False buf after
        by (auto simp: pcap_next_packet_def fread_bytes_def Let_def)
    next
      case (Inr n)
      let ?new = "if swapped pq then swap_pseudo_headers (host_order ho) (linktype pq)
        (?h\<lparr>caplen := n\<rparr>) bq else bq"
      have res: "r = Packet (?h\<lparr>caplen := n\<rparr>) (take (unat n) ?new)" "p' = pq\<lparr>buffer := Some ?new\<rparr>"
        using assms(2) q False buf bq Inr
        by (auto simp: pcap_next_packet_def fread_bytes_def Let_def)
      have "length ?new = unat (bufsize p)" using swap [OF Inr] bq by simp
      moreover have "n \<le> bufsize p" using after(4) [OF Inr] .
      ultimately show ?thesis
        using res after by (auto simp: sf_wf_def word_le_nat_alt)
    qed
  qed
qed

text \<open>
  Reading any file, well-formed or not, stays within the buffer: from a
  handle whose buffer has \<open>bufsize\<close> bytes, \<open>pcap_next_packet\<close> never uses a null pointer, keeps
  such a handle, and a packet it returns has exactly the captured length it reports, at most
  \<open>bufsize\<close>, also when the file claimed more. Every packet and every error but those of a
  header cut short leave less of the file to read.
\<close>

theorem sf_next_bounds:
  assumes "sf_wf p" and "pcap_next_packet ho hp p tsize = (r, p', tsize')"
  shows "r \<noteq> Crash \<and> sf_wf p' \<and> bufsize p' = bufsize p \<and>
    (\<forall>h d. r = Packet h d \<longrightarrow> length d = unat (caplen h) \<and> caplen h \<le> bufsize p \<and>
      length (pending (rfile p')) + 16 \<le> length (pending (rfile p)))"
  using assms by (rule sf_next_wf)

definition sample_pcap :: "u8 list \<Rightarrow> pcap_sf pcap_t" where
  "sample_pcap bs = \<lparr>rfile = \<lparr>pending = bs, broken = False\<rparr>, swapped = False, version_major = 2,
     version_minor = 4, snapshot = 4, linktype = 1, linktype_ext = 0, tzoff = 0,
     tstamp_precision = 0, bufsize = 4, buffer = Some [0, 0, 0, 0],
     priv = \<lparr>hdrsize = 16, lengths_swapped = NOT_SWAPPED, scale_type = PASS_THROUGH\<rparr>,
     break_loop = False, fcode = None, activated = True\<rparr>"

theorem sf_next_bounds_witness:
  "case pcap_next_packet sample_host zero_heap
     (sample_pcap [1, 0, 0, 0, 2, 0, 0, 0, 5, 0, 0, 0, 9, 0, 0, 0, 1, 2, 3, 4, 5]) 0 of
     (r, p', tsize') \<Rightarrow> r \<noteq> Crash \<and> sf_wf p'"
  using sf_next_bounds
    [of "sample_pcap [1, 0, 0, 0, 2, 0, 0, 0, 5, 0, 0, 0, 9, 0, 0, 0, 1, 2, 3, 4, 5]"
      sample_host zero_heap 0]
  by (auto simp: sample_pcap_def sf_wf_def split: prod.split)

section \<open>The classic format as a source of packets\<close>

lemma sf_read_data_mark:
  "sf_read_data hp cap (mark b f p) buf tsize =
     (case sf_read_data hp cap p buf tsize of (r, p, tsize) \<Rightarrow> (r, mark b f p, tsize))"
  by (simp add: sf_read_data_def Let_def mark_updates split: prod.split)

lemma sf_pkthdr_mark [simp]: "sf_pkthdr ho (mark b f p) bs = sf_pkthdr ho p bs"
  by (simp add: sf_pkthdr_def Let_def)

lemma pcap_next_packet_mark:
  "pcap_next_packet ho hp (mark b f p) tsize =
     (case pcap_next_packet ho hp p tsize of (r, p, tsize) \<Rightarrow> (r, mark b f p, tsize))"
  by (simp add: pcap_next_packet_def Let_def mark_updates sf_read_data_mark
      split: prod.split option.split sum.split)

lemma sf_wf_mark [simp]: "sf_wf (mark b f p) = sf_wf p"
  by (simp add: sf_wf_def)

interpretation classic: packet_source
  "\<lambda>(p, tsize). break_loop p" "\<lambda>(p, tsize). fcode p" "\<lambda>b f (p, tsize). (mark b f p, tsize)"
  "\<lambda>(p, tsize). pcap_next_packet ho hp p tsize" "\<lambda>(p, tsize). sf_wf p"
  "\<lambda>(p, tsize). length (pending (rfile p))" for ho hp
proof
  fix s b f show "(case case s of (p, tsize) \<Rightarrow> (mark b f p, tsize) of (p, tsize) \<Rightarrow> pcap_next_packet ho hp p tsize) =
      (case case s of (p, tsize) \<Rightarrow> pcap_next_packet ho hp p tsize of
        (r, s') \<Rightarrow> (r, case s' of (p, tsize) \<Rightarrow> (mark b f p, tsize)))"
    by (cases s) (simp add: pcap_next_packet_mark split: prod.split)
next
  fix s r s'
  assume "case s of (p, tsize) \<Rightarrow> sf_wf p"
    and "(case s of (p, tsize) \<Rightarrow> pcap_next_packet ho hp p tsize) = (r, s')"
  then show "r \<noteq> Crash" by (cases s; cases s') (simp, blast dest: sf_next_wf)
next
  fix s h d s'
  assume "case s of (p, tsize) \<Rightarrow> sf_wf p"
    and "(case s of (p, tsize) \<Rightarrow> pcap_next_packet ho hp p tsize) = (Packet h d, s')"
  then have "sf_wf (fst s)" "pcap_next_packet ho hp (fst s) (snd s) = (Packet h d, fst s', snd s')"
    by (cases s; simp)+
  from sf_next_wf [OF this]
  show "case s' of (p, tsize) \<Rightarrow> sf_wf p"
    "(case s' of (p, tsize) \<Rightarrow> length (pending (rfile p))) + 12 \<le> (case s of (p, tsize) \<Rightarrow> length (pending (rfile p)))"
    "length d = unat (caplen h)" by (auto simp: case_prod_beta)
qed (auto split: prod.split)

section \<open>What is written is read back\<close>

text \<open>A time that survives the 32-bit fields of the file, and the fields as the file has them.\<close>

definition fits32 :: "u64 \<Rightarrow> bool" where
  "fits32 t \<longleftrightarrow> - (2 ^ 31) \<le> sint t \<and> sint t < 2 ^ 31"

lemma fits32_roundtrip:
  assumes "fits32 t"
  shows "scast (ucast t :: u32) = t"
proof -
  have "signed_take_bit 31 (sint t) = sint t"
    using assms by (intro signed_take_bit_int_eq_self) (simp_all add: fits32_def)
  moreover have "sint (ucast t :: u32) = signed_take_bit 31 (uint t)"
    by (simp add: signed_ucast_eq)
  moreover have "signed_take_bit 31 (sint t) = signed_take_bit 31 (uint t)"
    by (simp add: sint_uint)
  ultimately have "word_of_int (sint (ucast t :: u32)) = (word_of_int (sint t) :: u64)" by simp
  then show ?thesis unfolding scast_eq by simp
qed

definition sf_hdr_of :: "pcap_pkthdr \<Rightarrow> pcap_sf_pkthdr" where
  "sf_hdr_of h = \<lparr>sf_sec = ucast (tv_sec h), sf_usec = ucast (tv_usec h), sf_caplen = caplen h,
     sf_len = pkt_len h\<rparr>"

text \<open>The bytes \<open>pcap_dump\<close> appends on a host whose file has room.\<close>

definition dump_bytes :: "host \<Rightarrow> pcap_pkthdr \<Rightarrow> u8 list \<Rightarrow> u8 list" where
  "dump_bytes w h d = sf_pkthdr_bytes (host_order w) (sf_hdr_of h) @ take (unat (caplen h)) d"

lemma pcap_dump_written:
  "room f = None \<Longrightarrow> pcap_dump w f h d = f\<lparr>written := written f @ dump_bytes w h d\<rparr>"
  by (simp add: pcap_dump_def stdio_simps dump_bytes_def sf_hdr_of_def Let_def)

lemma length_sf_pkthdr_bytes [simp]: "length (sf_pkthdr_bytes bo h) = 16"
  by (simp add: sf_pkthdr_bytes_def)

text \<open>A handle set up to read what the host \<open>w\<close> writes.\<close>

definition reads_from :: "host \<Rightarrow> host \<Rightarrow> pcap_sf pcap_t \<Rightarrow> bool" where
  "reads_from ho w p \<longleftrightarrow> sf_wf p \<and> swapped p = (host_order ho \<noteq> host_order w) \<and>
     priv p = \<lparr>hdrsize = 16, lengths_swapped = NOT_SWAPPED, scale_type = PASS_THROUGH\<rparr> \<and>
     (swapped p \<longrightarrow> linktype p \<notin> {DLT_USB_LINUX, DLT_USB_LINUX_MMAPPED, DLT_NFLOG})"

text \<open>A packet that fits the file format and the buffer.\<close>

definition storable :: "u32 \<Rightarrow> pcap_pkthdr \<Rightarrow> u8 list \<Rightarrow> bool" where
  "storable bsize h d \<longleftrightarrow> fits32 (tv_sec h) \<and> fits32 (tv_usec h) \<and> length d = unat (caplen h) \<and>
     caplen h \<le> bsize"

lemma sf_pkthdr_written:
  assumes "reads_from ho w p" and "fits32 (tv_sec h)" and "fits32 (tv_usec h)"
  shows "sf_pkthdr ho p (sf_pkthdr_bytes (host_order w) (sf_hdr_of h)) = h"
  using assms
  by (cases h)
    (simp add: reads_from_def sf_pkthdr_def sf_pkthdr_of_def sf_pkthdr_bytes_def sf_hdr_of_def
      Let_def field_here field_later field_end fix_encoded scale_tstamp_def fits32_roundtrip)

lemma sf_packet_reads:
  assumes "reads_from ho w p" and "storable (bufsize p) h d"
    and "pending (rfile p) = dump_bytes w h d @ rest"
  shows "\<exists>p'. pcap_next_packet ho hp p tsize = (Packet h d, p', tsize) \<and> reads_from ho w p' \<and>
    pending (rfile p') = rest \<and> broken (rfile p') = broken (rfile p) \<and>
    p' = p\<lparr>rfile := rfile p', buffer := buffer p'\<rparr>"
proof -
  obtain buf where buf: "buffer p = Some buf" "length buf = unat (bufsize p)"
    using assms(1) by (auto simp: reads_from_def sf_wf_def)
  have fits: "caplen h \<le> bufsize p" and room: "\<not> bufsize p < caplen h"
    and len: "length d = unat (caplen h)"
    using assms(2) by (simp_all add: storable_def not_less)
  let ?p = "p\<lparr>rfile := (rfile p)\<lparr>pending := d @ rest\<rparr>\<rparr>"
  let ?q = "p\<lparr>rfile := (rfile p)\<lparr>pending := rest\<rparr>, buffer := Some (put_bytes 0 d buf)\<rparr>"
  have hdr: "fread_bytes (hdrsize (priv p)) (rfile p) =
      (sf_pkthdr_bytes (host_order w) (sf_hdr_of h), (rfile p)\<lparr>pending := d @ rest\<rparr>)"
    using assms(1,3) len by (intro fread_bytes_enough) (simp_all add: reads_from_def dump_bytes_def)
  have h: "sf_pkthdr ho ?p (sf_pkthdr_bytes (host_order w) (sf_hdr_of h)) = h"
    using assms(1,2)
    by (intro sf_pkthdr_written) (simp_all add: reads_from_def sf_wf_def storable_def)
  have "fread_bytes (unat (caplen h)) (rfile ?p) = (d, (rfile p)\<lparr>pending := rest\<rparr>)"
    using len by (intro trans [OF fread_bytes_enough]) simp_all
  then have data: "sf_read_data hp (caplen h) ?p buf tsize = (Inr (caplen h), ?q, tsize)"
    using room len by (simp add: sf_read_data_def Let_def)
  have new: "swapped p \<Longrightarrow>
      swap_pseudo_headers (host_order ho) (linktype p) h (put_bytes 0 d buf) = put_bytes 0 d buf"
    using assms(1) by (intro swap_pseudo_headers_other) (simp add: reads_from_def)
  have cut: "take (unat (caplen h)) (put_bytes 0 d buf) = d"
    using len by (simp add: put_bytes_def)
  have "pcap_next_packet ho hp p tsize = (Packet h d, ?q, tsize)"
    unfolding pcap_next_packet_def hdr prod.case Let_def h
    using assms(1) buf data new cut by (simp add: reads_from_def)
  moreover have "reads_from ho w ?q"
    using assms(1) buf len fits by (simp add: reads_from_def sf_wf_def word_le_nat_alt)
  ultimately show ?thesis by (intro exI [of _ ?q]) simp
qed

text \<open>
  C8. What \<open>pcap_dump\<close> appends to a file for a packet, on one host, is read by
  \<open>pcap_next_packet\<close> on another as that packet, whatever the two byte orders: the same time stamp,
  the same lengths and the same bytes, and the file is left at the next packet with the handle
  ready for it. The provisos are that the file has room, that the time stamp fits the 32-bit
  fields, that the packet fits the reader's buffer and, for hosts of different byte order, that it
  has no pseudo-header to convert.
\<close>

theorem sf_packet_roundtrip:
  assumes "reads_from ho w p" and "storable (bufsize p) h d"
    and "room f = None" and "written (pcap_dump w f h d) = written f @ bs"
    and "pending (rfile p) = bs @ rest"
  shows "\<exists>p'. pcap_next_packet ho hp p tsize = (Packet h d, p', tsize) \<and> reads_from ho w p' \<and>
    pending (rfile p') = rest \<and> broken (rfile p') = broken (rfile p) \<and>
    p' = p\<lparr>rfile := rfile p', buffer := buffer p'\<rparr>"
proof -
  have "bs = dump_bytes w h d" using assms(4) by (simp add: pcap_dump_written [OF assms(3)])
  with assms show ?thesis by (intro sf_packet_reads) simp_all
qed

theorem sf_packet_roundtrip_witness:
  "\<exists>p'. pcap_next_packet sample_host zero_heap
      ((sample_pcap (written (pcap_dump (sample_host\<lparr>host_order := Big\<rparr>) \<lparr>written = [], room = None\<rparr>
        \<lparr>tv_sec = 5, tv_usec = 6, caplen = 2, pkt_len = 60\<rparr> [7, 8])))\<lparr>swapped := True\<rparr>) 0 =
    (Packet \<lparr>tv_sec = 5, tv_usec = 6, caplen = 2, pkt_len = 60\<rparr> [7, 8], p', 0)"
proof -
  let ?h = "\<lparr>tv_sec = 5, tv_usec = 6, caplen = 2, pkt_len = 60\<rparr>"
    and ?w = "sample_host\<lparr>host_order := Big\<rparr>" and ?f = "\<lparr>written = [], room = None\<rparr>"
  let ?p = "(sample_pcap (written (pcap_dump ?w ?f ?h [7, 8])))\<lparr>swapped := True\<rparr>"
  have "reads_from sample_host ?w ?p" "storable (bufsize ?p) ?h [7, 8]"
    "pending (rfile ?p) = written (pcap_dump ?w ?f ?h [7, 8]) @ []"
    by (auto simp: reads_from_def sf_wf_def sample_pcap_def sample_host_def storable_def fits32_def)
  from sf_packet_roundtrip [OF this(1,2) _ _ this(3), of ?f] show ?thesis by auto
qed

text \<open>The link type of a file: the class bits above, the value below.\<close>

lemma LT_LINKTYPE_value:
  assumes "0 \<le> lt" and "lt \<le> 263" and "LT_LINKTYPE ext = 0"
  shows "uint (LT_LINKTYPE (word_of_int lt OR ext)) = lt \<and>
    LT_LINKTYPE_EXT (word_of_int lt OR ext) = ext"
proof -
  let ?w = "word_of_int lt :: u32"
  have uw: "uint ?w = lt"
    using assms(1,2) by (simp add: uint_word_of_int take_bit_int_eq_self)
  have small: "take_bit 26 ?w = ?w"
    using assms(1,2) by (simp add: word_uint_eq_iff unsigned_take_bit_eq uw take_bit_int_eq_self)
  have lo: "LT_LINKTYPE x = take_bit 26 x" for x
    by (simp add: LT_LINKTYPE_def take_bit_eq_mask mask_eq_exp_minus_1)
  have "(0xFC000000 :: u32) = NOT (mask 26)" by (simp add: mask_eq_exp_minus_1 word_uint_eq_iff)
  then have hi: "LT_LINKTYPE_EXT x = x AND NOT (mask 26)" for x
    by (simp only: LT_LINKTYPE_EXT_def)
  have ext: "take_bit 26 ext = 0" using assms(3) by (simp only: lo)
  have "LT_LINKTYPE (?w OR ext) = ?w"
    unfolding lo using small ext by (simp add: take_bit_or)
  moreover have "LT_LINKTYPE_EXT (?w OR ext) = ext"
  proof (rule bit_word_eqI)
    fix n assume "n < LENGTH(32)"
    have "bit ?w n \<Longrightarrow> n < 26" using small by (metis bit_take_bit_iff)
    moreover have "n < 26 \<Longrightarrow> \<not> bit ext n" using ext by (metis bit_take_bit_iff bit_0_eq bot_apply bot_bool_def)
    ultimately show "bit (LT_LINKTYPE_EXT (?w OR ext)) n = bit ext n"
      using \<open>n < _\<close> by (auto simp: hi bit_simps)
  qed
  ultimately show ?thesis using uw by simp
qed

text \<open>The header \<open>pcap_dump_open\<close> writes for a handle.\<close>

definition dump_header :: "host \<Rightarrow> 'priv pcap_t \<Rightarrow> pcap_file_header" where
  "dump_header w p = sf_header (tstamp_precision p)
     (word_of_int (dlt_to_linktype (host_os w) (linktype p)) OR linktype_ext p) (tzoff p) (snapshot p)"

lemma pcap_dump_open_written:
  assumes "pcap_dump_open w p fname std_out (Some f) = Inr g" and "fname \<noteq> ''-''" and "room f = None"
  shows "g = f\<lparr>written := written f @ file_header_bytes (host_order w) (dump_header w p)\<rparr> \<and>
    dlt_to_linktype (host_os w) (linktype p) \<noteq> -1"
  using assms
  by (auto simp: pcap_dump_open_def pcap_setup_dump_def sf_write_header_def stdio_simps
      dump_header_def Let_def split: if_splits)

lemma sf_header_reads:
  assumes "pcap_dump_open w p fname std_out (Some \<lparr>written = [], room = None\<rparr>) = Inr f"
    and "fname \<noteq> ''-''" and "LT_LINKTYPE (linktype_ext p) = 0"
    and "tstamp_precision p \<in> {PCAP_TSTAMP_PRECISION_MICRO, PCAP_TSTAMP_PRECISION_NANO}"
    and "heap_ok hp" and "new_pcap hp" and "dup_source hp"
    and "malloc hp (unat (sf_bufsize (snapshot p))) = Some buf"
    and "fread_bytes 4 \<lparr>pending = written f @ rest, broken = b\<rparr> = (m, fp)"
  shows "\<exists>q. pcap_check_header ho hp (decode_word (host_order ho) m) fp (tstamp_precision p) = Opened q \<and>
    sf_wf q \<and> swapped q = (host_order ho \<noteq> host_order w) \<and>
    rfile q = \<lparr>pending = rest, broken = b\<rparr> \<and>
    priv q = \<lparr>hdrsize = 16, lengths_swapped = NOT_SWAPPED, scale_type = PASS_THROUGH\<rparr> \<and>
    linktype q = linktype_to_dlt (host_os ho) (dlt_to_linktype (host_os w) (linktype p)) \<and>
    linktype_ext q = linktype_ext p \<and> snapshot q = snapshot p \<and> tzoff q = tzoff p \<and>
    tstamp_precision q = tstamp_precision p \<and> bufsize q = sf_bufsize (snapshot p) \<and>
    version_major q = 2 \<and> version_minor q = 4"
proof -
  let ?h = "dump_header w p"
  let ?lt = "dlt_to_linktype (host_os w) (linktype p)"
  let ?fp = "\<lparr>pending = rest, broken = b\<rparr>"
  have f: "written f = file_header_bytes (host_order w) ?h" and lt: "?lt \<noteq> -1"
    using pcap_dump_open_written [OF assms(1,2)] by simp_all
  have m: "m = encode_word (host_order w) 4 (fh_magic ?h)"
    and fp: "pending fp = drop 4 (file_header_bytes (host_order w) ?h) @ rest"
      "fp\<lparr>pending := rest\<rparr> = ?fp"
    using assms(9) by (auto simp: f fread_bytes_def file_header_bytes_def)
  have magic: "known_magic (fh_magic ?h)" "fh_magic ?h \<noteq> KUZNETZOV_TCPDUMP_MAGIC"
    by (auto simp: dump_header_def sf_header_def known_magic_def magic_defs)
  have scale: "sf_scale (tstamp_precision p) (fh_magic ?h) = Some PASS_THROUGH"
    using assms(4)
    by (auto simp: sf_scale_def dump_header_def sf_header_def magic_defs
        PCAP_TSTAMP_PRECISION_MICRO_def PCAP_TSTAMP_PRECISION_NANO_def)
  have "0 \<le> ?lt" "?lt \<le> 263" using lt dlt_to_linktype_range by blast+
  then have ltval: "uint (LT_LINKTYPE (fh_linktype ?h)) = ?lt \<and>
      LT_LINKTYPE_EXT (fh_linktype ?h) = linktype_ext p"
    using assms(3) LT_LINKTYPE_value by (simp add: dump_header_def sf_header_def)
  have "pcap_check_header ho hp (decode_word (host_order ho) m) fp (tstamp_precision p) =
      sf_open ho hp (tstamp_precision p) (host_order ho \<noteq> host_order w) ?h ?fp"
    using check_header_written [OF magic(1) _ fp(1)] unfolding m fp(2)
    by (simp add: dump_header_def sf_header_def)
  moreover have "\<exists>q. sf_open ho hp (tstamp_precision p) (host_order ho \<noteq> host_order w) ?h ?fp = Opened q \<and>
    swapped q = (host_order ho \<noteq> host_order w) \<and>
    priv q = \<lparr>hdrsize = 16, lengths_swapped = NOT_SWAPPED, scale_type = PASS_THROUGH\<rparr> \<and>
    linktype q = linktype_to_dlt (host_os ho) ?lt \<and>
    linktype_ext q = linktype_ext p \<and> snapshot q = snapshot p \<and> tzoff q = tzoff p \<and>
    tstamp_precision q = tstamp_precision p \<and> bufsize q = sf_bufsize (snapshot p) \<and>
    version_major q = 2 \<and> version_minor q = 4"
    using assms(6-8) scale ltval magic(2)
    by (simp add: sf_open_def pcap_open_offline_common_def Let_def sf_lengths_def)
      (simp add: dump_header_def sf_header_def sf_lengths_def)
  ultimately show ?thesis using sf_open_wf assms(5) by metis
qed

text \<open>
  C9. Opening the file another host has written: \<open>pcap_check_header\<close> accepts
  what \<open>pcap_dump_open\<close> wrote, for every pair of byte orders and operating systems, and gives a
  handle with the writer's snapshot length, time zone, link type extension and precision, the
  link type mapped from the writer's platform to the reader's, a buffer for a snapshot, and the
  file left at the first packet, ready for \<open>pcap_next_packet\<close>.
\<close>

theorem sf_header_roundtrip:
  assumes "pcap_dump_open w p fname std_out (Some \<lparr>written = [], room = None\<rparr>) = Inr f"
    and "fname \<noteq> ''-''" and "LT_LINKTYPE (linktype_ext p) = 0"
    and "tstamp_precision p \<in> {PCAP_TSTAMP_PRECISION_MICRO, PCAP_TSTAMP_PRECISION_NANO}"
    and "heap_ok hp" and "new_pcap hp" and "dup_source hp"
    and "malloc hp (unat (sf_bufsize (snapshot p))) = Some buf"
    and "fread_bytes 4 \<lparr>pending = written f @ rest, broken = b\<rparr> = (m, fp)"
  shows "\<exists>q. pcap_check_header ho hp (decode_word (host_order ho) m) fp (tstamp_precision p) = Opened q \<and>
    sf_wf q \<and> swapped q = (host_order ho \<noteq> host_order w) \<and>
    rfile q = \<lparr>pending = rest, broken = b\<rparr> \<and>
    priv q = \<lparr>hdrsize = 16, lengths_swapped = NOT_SWAPPED, scale_type = PASS_THROUGH\<rparr> \<and>
    linktype q = linktype_to_dlt (host_os ho) (dlt_to_linktype (host_os w) (linktype p)) \<and>
    linktype_ext q = linktype_ext p \<and> snapshot q = snapshot p \<and> tzoff q = tzoff p \<and>
    tstamp_precision q = tstamp_precision p \<and> bufsize q = sf_bufsize (snapshot p) \<and>
    version_major q = 2 \<and> version_minor q = 4"
  using assms by (rule sf_header_reads)

theorem sf_header_roundtrip_witness:
  "\<exists>f m fp q. pcap_dump_open (sample_host\<lparr>host_order := Big, host_os := OpenBSD\<rparr>)
      ((sample_pcap [])\<lparr>linktype := 14\<rparr>) ''x.pcap'' \<lparr>written = [], room = None\<rparr>
      (Some \<lparr>written = [], room = None\<rparr>) = Inr f \<and>
    fread_bytes 4 \<lparr>pending = written f @ [], broken = False\<rparr> = (m, fp) \<and>
    pcap_check_header sample_host zero_heap (decode_word Little m) fp 0 = Opened q \<and>
    linktype q = 12"
proof -
  let ?w = "sample_host\<lparr>host_order := Big, host_os := OpenBSD\<rparr>"
  let ?p = "(sample_pcap [])\<lparr>linktype := 14\<rparr>"
  let ?o = "\<lparr>written = [], room = None\<rparr>"
  obtain f where f: "pcap_dump_open ?w ?p ''x.pcap'' ?o (Some ?o) = Inr f"
    by (simp add: pcap_dump_open_def pcap_setup_dump_def sf_write_header_def stdio_simps
        sample_pcap_def sample_host_def linktype_defs Let_def)
  obtain m fp where m: "fread_bytes 4 \<lparr>pending = written f @ [], broken = False\<rparr> = (m, fp)"
    by (metis surj_pair)
  show ?thesis
    using sf_header_roundtrip [OF f _ _ _ _ _ _ _ m, of zero_heap _ sample_host] f m
    by (auto simp: sample_pcap_def sample_host_def PCAP_TSTAMP_PRECISION_MICRO_def
        LT_LINKTYPE_def linktype_defs)
qed

section \<open>Appending\<close>

lemma own_magic:
  "SWAPLONG TCPDUMP_MAGIC \<noteq> TCPDUMP_MAGIC" "SWAPLONG NSEC_TCPDUMP_MAGIC \<noteq> TCPDUMP_MAGIC"
  "KUZNETZOV_TCPDUMP_MAGIC \<noteq> TCPDUMP_MAGIC" "SWAPLONG KUZNETZOV_TCPDUMP_MAGIC \<noteq> TCPDUMP_MAGIC"
  "NAVTEL_TCPDUMP_MAGIC \<noteq> TCPDUMP_MAGIC" "SWAPLONG NAVTEL_TCPDUMP_MAGIC \<noteq> TCPDUMP_MAGIC"
  "SWAPLONG TCPDUMP_MAGIC \<noteq> NSEC_TCPDUMP_MAGIC" "SWAPLONG NSEC_TCPDUMP_MAGIC \<noteq> NSEC_TCPDUMP_MAGIC"
  "KUZNETZOV_TCPDUMP_MAGIC \<noteq> NSEC_TCPDUMP_MAGIC" "SWAPLONG KUZNETZOV_TCPDUMP_MAGIC \<noteq> NSEC_TCPDUMP_MAGIC"
  "NAVTEL_TCPDUMP_MAGIC \<noteq> NSEC_TCPDUMP_MAGIC" "SWAPLONG NAVTEL_TCPDUMP_MAGIC \<noteq> NSEC_TCPDUMP_MAGIC"
  "NSEC_TCPDUMP_MAGIC \<noteq> TCPDUMP_MAGIC"
  by (simp_all add: magic_swaps, simp_all add: magic_defs)

lemma append_mismatch_NoneD:
  assumes "append_mismatch p lt ph = None"
  shows "tstamp_precision p \<in> {PCAP_TSTAMP_PRECISION_MICRO, PCAP_TSTAMP_PRECISION_NANO} \<and>
    fh_magic ph = fh_magic (sf_header (tstamp_precision p) lt z (snapshot p)) \<and>
    fh_version_major ph = 2 \<and> fh_version_minor ph = 4 \<and> fh_linktype ph = lt \<and>
    fh_snaplen ph = snapshot p"
  using assms
  by (auto simp: append_mismatch_def Let_def sf_header_def PCAP_TSTAMP_PRECISION_MICRO_def
      PCAP_TSTAMP_PRECISION_NANO_def split: if_splits)

lemma append_mismatch_None:
  "append_mismatch p lt ph = None \<longleftrightarrow>
     tstamp_precision p \<in> {PCAP_TSTAMP_PRECISION_MICRO, PCAP_TSTAMP_PRECISION_NANO} \<and>
     (\<exists>zone accuracy. ph = (sf_header (tstamp_precision p) lt zone (snapshot p))\<lparr>fh_sigfigs := accuracy\<rparr>)"
  (is "?l \<longleftrightarrow> ?r")
proof
  assume ?l
  from append_mismatch_NoneD [OF this, of "fh_thiszone ph"] have
    "tstamp_precision p \<in> {PCAP_TSTAMP_PRECISION_MICRO, PCAP_TSTAMP_PRECISION_NANO} \<and>
      ph = (sf_header (tstamp_precision p) lt (fh_thiszone ph) (snapshot p))\<lparr>fh_sigfigs := fh_sigfigs ph\<rparr>"
    by (cases ph) (simp add: sf_header_def)
  then show ?r by blast
next
  assume ?r
  then obtain zone accuracy where precision: "tstamp_precision p = 0 \<or> tstamp_precision p = 1"
    and ph: "ph = (sf_header (tstamp_precision p) lt zone (snapshot p))\<lparr>fh_sigfigs := accuracy\<rparr>"
    by (auto simp: PCAP_TSTAMP_PRECISION_MICRO_def PCAP_TSTAMP_PRECISION_NANO_def)
  from precision show ?l using own_magic own_magic [symmetric]
    by (elim disjE) (simp_all add: append_mismatch_def Let_def ph sf_header_def PCAP_TSTAMP_PRECISION_MICRO_def
      PCAP_TSTAMP_PRECISION_NANO_def)
qed

text \<open>Any 24 bytes are the header they are read as.\<close>

lemma field_bytes:
  "LENGTH('a) = 8 * n \<Longrightarrow> off + n \<le> length bs \<Longrightarrow>
   encode_word bo n (field bo off n bs :: 'a::len word) = take n (drop off bs)"
  using encode_decode_word [where 'a = 'a, of "take n (drop off bs)" bo] by (simp add: field_def)

lemma file_header_bytes_of:
  assumes "length ph = 24"
  shows "file_header_bytes bo (file_header_of bo (field bo 0 4 ph) (drop 4 ph)) = ph"
proof -
  have "file_header_bytes bo (file_header_of bo (field bo 0 4 ph) (drop 4 ph)) =
      take 4 ph @ take 2 (drop 4 ph) @ take 2 (drop 6 ph) @ take 4 (drop 8 ph) @
      take 4 (drop 12 ph) @ take 4 (drop 16 ph) @ take 4 (drop 20 ph)"
    using assms by (simp add: file_header_bytes_def file_header_of_def field_bytes)
  also have "\<dots> = take 24 ph"
    by (simp add: take_add [of _ "_ :: nat", symmetric] flip: append_assoc)
  finally show ?thesis using assms by simp
qed

lemma file_header_reread:
  assumes "ph = take 24 (file_header_bytes bo h @ rest)"
  shows "file_header_of bo (field bo 0 4 ph) (drop 4 ph) = h"
proof -
  have ph: "ph = file_header_bytes bo h" using assms by simp
  have "field bo 0 4 ph = fh_magic h"
    unfolding ph by (simp add: file_header_bytes_def field_here decode_encode_word)
  then show ?thesis
    unfolding ph using file_header_read [of "fh_magic h" h bo bo] by simp
qed

text \<open>
  A handle can go on with a file it has itself begun, with whatever packets
  are in it, and the file is left as it is, positioned at its end; unless the handle has
  extended link type information, such as the length of a frame check sequence:
  \<open>pcap_dump_open\<close> puts it into the header, \<open>pcap_dump_open_append\<close> leaves it out of the
  comparison value and refuses the file as one of a different link type.
\<close>

theorem append_own_file:
  assumes "pcap_dump_open ho p fname std_out (Some \<lparr>written = [], room = None\<rparr>) = Inr f"
    and "fname \<noteq> ''-''" and "LT_LINKTYPE (linktype_ext p) = 0"
    and "tstamp_precision p \<in> {PCAP_TSTAMP_PRECISION_MICRO, PCAP_TSTAMP_PRECISION_NANO}"
  shows "pcap_dump_open_append ho p fname std_out
      (Some (f\<lparr>written := written f @ rest\<rparr>, unreadable)) True =
    (if linktype_ext p = 0 then Inr (f\<lparr>written := written f @ rest\<rparr>) else Inl Dump_linktype_differs)"
proof -
  let ?h = "dump_header ho p"
  let ?lt = "dlt_to_linktype (host_os ho) (linktype p)"
  let ?ph = "take 24 (file_header_bytes (host_order ho) ?h @ rest)"
  have f: "f = \<lparr>written = file_header_bytes (host_order ho) ?h, room = None\<rparr>" and lt: "?lt \<noteq> -1"
    using pcap_dump_open_written [OF assms(1,2)] by simp_all
  have len: "length ?ph = 24" by simp
  have reread: "file_header_of (host_order ho) (field (host_order ho) 0 4 ?ph) (drop 4 ?ph) = ?h"
    by (rule file_header_reread) simp
  have range: "0 \<le> ?lt" "?lt \<le> 263" using lt dlt_to_linktype_range by blast+
  have differ: "word_of_int ?lt = word_of_int ?lt OR linktype_ext p \<longleftrightarrow> linktype_ext p = 0"
    using LT_LINKTYPE_value [OF range assms(3)] LT_LINKTYPE_value [OF range, of 0]
    by (auto simp: LT_LINKTYPE_def)
  have same: "append_mismatch p (word_of_int ?lt) ?h =
      (if linktype_ext p = 0 then None else Some Dump_linktype_differs)"
    using differ assms(4) own_magic own_magic [symmetric]
    by (auto simp: append_mismatch_def dump_header_def sf_header_def Let_def
        PCAP_TSTAMP_PRECISION_MICRO_def PCAP_TSTAMP_PRECISION_NANO_def)
  have "file_header_bytes (host_order ho) ?h \<noteq> []"
    using length_file_header [of "host_order ho" ?h] by (metis list.size(3) zero_neq_numeral)
  then show ?thesis
    using lt assms(2) len
    by (simp add: pcap_dump_open_append_def Let_def f reread same del: take_append)
qed

theorem append_own_file_witness:
  "\<exists>f. pcap_dump_open sample_host ((sample_pcap [])\<lparr>linktype_ext := 0x14000000\<rparr>) ''x.pcap''
      \<lparr>written = [], room = None\<rparr> (Some \<lparr>written = [], room = None\<rparr>) = Inr f \<and>
    pcap_dump_open_append sample_host ((sample_pcap [])\<lparr>linktype_ext := 0x14000000\<rparr>) ''x.pcap''
      \<lparr>written = [], room = None\<rparr> (Some (f\<lparr>written := written f @ []\<rparr>, False)) True =
      Inl Dump_linktype_differs"
proof -
  let ?p = "(sample_pcap [])\<lparr>linktype_ext := 0x14000000\<rparr>"
  let ?o = "\<lparr>written = [], room = None\<rparr>"
  obtain f where f: "pcap_dump_open sample_host ?p ''x.pcap'' ?o (Some ?o) = Inr f"
    by (simp add: pcap_dump_open_def pcap_setup_dump_def sf_write_header_def stdio_simps
        sample_pcap_def sample_host_def linktype_defs Let_def)
  show ?thesis
    using append_own_file [OF f, of "[]" False] f
    by (simp add: sample_pcap_def PCAP_TSTAMP_PRECISION_MICRO_def LT_LINKTYPE_def)
qed

text \<open>
  C13. Which files \<open>pcap_dump_open_append\<close> appends to. A file that is not empty is accepted, and
  left as it is, exactly when its first 24 bytes are a header that \<open>sf_write_header\<close> writes on this
  host for the handle: the magic number of its precision in the host's byte order, version 2.4,
  the snapshot length, and the link type without the handle's \<open>linktype_ext\<close>; the time zone and the
  accuracy in the header are not compared and may be anything. The handle's link type must have a
  value for files, its precision be one of the two, and the file be one whose end can be sought.
\<close>

theorem append_only_matching:
  assumes "fname \<noteq> ''-''" and "written f \<noteq> []"
  shows "pcap_dump_open_append ho p fname std_out (Some (f, unreadable)) seeks = Inr g \<longleftrightarrow>
    g = f \<and> seeks \<and> dlt_to_linktype (host_os ho) (linktype p) \<noteq> -1 \<and>
    tstamp_precision p \<in> {PCAP_TSTAMP_PRECISION_MICRO, PCAP_TSTAMP_PRECISION_NANO} \<and>
    (\<exists>zone accuracy. take 24 (written f) = file_header_bytes (host_order ho)
       ((sf_header (tstamp_precision p) (word_of_int (dlt_to_linktype (host_os ho) (linktype p))) zone
         (snapshot p))\<lparr>fh_sigfigs := accuracy\<rparr>))"
  (is "?l \<longleftrightarrow> ?r")
proof -
  let ?bo = "host_order ho" and ?ph = "take 24 (written f)" and ?lt = "dlt_to_linktype (host_os ho) (linktype p)"
  let ?h = "file_header_of ?bo (field ?bo 0 4 ?ph) (drop 4 ?ph)"
  have match: "?l \<longleftrightarrow> g = f \<and> seeks \<and> ?lt \<noteq> -1 \<and> length ?ph = 24 \<and> append_mismatch p (word_of_int ?lt) ?h = None"
    using assms by (auto simp: pcap_dump_open_append_def Let_def split: if_splits option.splits)
  have "(length ?ph = 24 \<and> ?h = h) \<longleftrightarrow> ?ph = file_header_bytes ?bo h" for h
    using file_header_bytes_of [of ?ph ?bo] file_header_reread [of ?ph ?bo h "[]"] length_file_header [of ?bo h]
    by (metis append_Nil2 take_all_iff order_refl)
  then show ?thesis unfolding match append_mismatch_None by blast
qed

definition sample_capture :: outfile where
  "sample_capture =
     \<lparr>written = file_header_bytes Little ((sf_header 0 1 7 4)\<lparr>fh_sigfigs := 3\<rparr>), room = None\<rparr>"

theorem append_only_matching_witness:
  "pcap_dump_open_append sample_host (sample_pcap []) ''x.pcap'' sample_capture
     (Some (sample_capture, False)) True = Inr sample_capture"
proof -
  have len: "length (written sample_capture) = 24" by (simp add: sample_capture_def)
  then have "written sample_capture \<noteq> []" by auto
  moreover have "take 24 (written sample_capture) = written sample_capture" using len by simp
  moreover have "dlt_to_linktype (host_os sample_host) (linktype (sample_pcap [])) = 1"
    by (simp add: sample_pcap_def sample_host_def linktype_defs)
  ultimately show ?thesis
    using append_only_matching [of "''x.pcap''" sample_capture sample_host "sample_pcap []" sample_capture False True sample_capture]
    by (auto simp: sample_capture_def sample_pcap_def sample_host_def PCAP_TSTAMP_PRECISION_MICRO_def)
qed

end
