(* ===== verification/Sf_Pcap_Ng.thy ===== *)
theory Sf_Pcap_Ng
  imports Packet_Source
begin

text \<open>
  The pcap-ng format (sf-pcap-ng.c): blocks read into a growing buffer, a cursor over the
  contents of a block, interface descriptions with their options, and packets of three kinds
  whose time stamps are converted to the resolution the user asked for.

  The code swaps fields of a block in the buffer before it reads them, each once; the model
  reads the swapped value and leaves the bytes. A structure is read at its offsets.
\<close>

section \<open>Constants and state\<close>

abbreviation (input) "BT_SHB \<equiv> 0x0A0D0D0A :: u32"
abbreviation (input) "BT_IDB \<equiv> 0x00000001 :: u32"
abbreviation (input) "BT_PB \<equiv> 0x00000002 :: u32"
abbreviation (input) "BT_SPB \<equiv> 0x00000003 :: u32"
abbreviation (input) "BT_EPB \<equiv> 0x00000006 :: u32"
abbreviation (input) "OPT_ENDOFOPT \<equiv> 0 :: u16"
abbreviation (input) "IF_TSRESOL \<equiv> 9 :: u16"
abbreviation (input) "IF_TSOFFSET \<equiv> 14 :: u16"
abbreviation (input) "PCAP_NG_VERSION_MAJOR \<equiv> 1 :: u16"

definition BYTE_ORDER_MAGIC :: u32 where "BYTE_ORDER_MAGIC = 0x1A2B3C4D"

record block_cursor =
  cur_data :: "u8 list"
  block_type :: u32

record pcap_ng_if =
  tsresol :: u32
  tsoffset :: u64
  if_scale :: tstamp_scale

text \<open>
  The interface table: \<open>ifaces\<close> is the allocated array, \<open>None\<close> for a null pointer, and an entry
  is \<open>None\<close> while it is uninitialised memory.
\<close>

record pcap_ng_sf =
  user_tsresol :: u32
  ifcount :: u32
  ifaces_size :: u32
  ifaces :: "pcap_ng_if option list option"

definition zero_ng :: pcap_ng_sf where
  "zero_ng = \<lparr>user_tsresol = 0, ifcount = 0, ifaces_size = 0, ifaces = None\<rparr>"

section \<open>Reading blocks\<close>

text \<open>\<open>read_bytes\<close>: the status (an error; end of file; all bytes), what was read, the stream.\<close>

datatype read_status = Read_failed sf_error | Read_eof | Read_ok

definition read_bytes :: "nat \<Rightarrow> bool \<Rightarrow> stream \<Rightarrow> read_status \<times> u8 list \<times> stream" where
  "read_bytes n fail_on_eof fp =
     (case fread_bytes n fp of (bs, fp) \<Rightarrow>
        (if length bs \<noteq> n then
           (if broken fp then Read_failed Read_error
            else if bs = [] \<and> \<not> fail_on_eof then Read_eof
            else Read_failed (Truncated_bytes n (length bs)))
         else Read_ok, bs, fp))"

datatype block_status = Block block_cursor | No_block | Block_failed sf_error | Block_crash

text \<open>
  The buffer grows when the block is longer than \<open>bufsize\<close>, which keeps its first value; after a
  failed \<open>realloc\<close> the buffer is null, and a later block that would have fitted is copied there.
\<close>

definition grow_buffer :: "heap \<Rightarrow> pcap_ng_sf pcap_t \<Rightarrow> u32 \<Rightarrow> pcap_ng_sf pcap_t" where
  "grow_buffer hp p tlen =
     (if bufsize p < tlen
      then p\<lparr>buffer := (case buffer p of None \<Rightarrow> malloc hp (unat tlen)
        | Some old \<Rightarrow> realloc hp old (unat tlen))\<rparr>
      else p)"

definition read_block ::
  "host \<Rightarrow> heap \<Rightarrow> pcap_ng_sf pcap_t \<Rightarrow> block_status \<times> pcap_ng_sf pcap_t" where
  "read_block ho hp p =
     (case read_bytes 8 False (rfile p) of (st, bs, fp) \<Rightarrow>
        let p = p\<lparr>rfile := fp\<rparr>; bo = host_order ho in
        (case st of
           Read_failed e \<Rightarrow> (Block_failed e, p)
         | Read_eof \<Rightarrow> (No_block, p)
         | Read_ok \<Rightarrow>
             let typ = fix32 (swapped p) (field bo 0 4 bs);
                 tlen = fix32 (swapped p) (field bo 4 4 bs) in
             if 16 * 1024 * 1024 < tlen then (Block_failed (Block_too_big tlen), p)
             else if tlen < 12 then (Block_failed (Block_too_small tlen), p)
             else
               let grown = bufsize p < tlen; p = grow_buffer hp p tlen in
               (case buffer p of
                  None \<Rightarrow> (if grown then Block_failed Out_of_memory else Block_crash, p)
                | Some buf \<Rightarrow>
                    (case read_bytes (unat tlen - 8) True (rfile p) of (st, bs, fp) \<Rightarrow>
                       let p = p\<lparr>rfile := fp, buffer :=
                             Some (put_bytes 0 (encode_word bo 4 typ @ encode_word bo 4 tlen @ bs) buf)\<rparr> in
                       (case st of
                          Read_failed e \<Rightarrow> (Block_failed e, p)
                        | _ \<Rightarrow> (Block \<lparr>cur_data = take (unat tlen - 12) bs, block_type = typ\<rparr>, p))))))"

definition get_from_block_data ::
  "block_cursor \<Rightarrow> nat \<Rightarrow> sf_error + u8 list \<times> block_cursor" where
  "get_from_block_data cur n =
     (if length (cur_data cur) < n then Inl (Block_too_short (block_type cur))
      else Inr (take n (cur_data cur), cur\<lparr>cur_data := drop n (cur_data cur)\<rparr>))"

definition get_opthdr_from_block_data ::
  "host \<Rightarrow> bool \<Rightarrow> block_cursor \<Rightarrow> sf_error + (u16 \<times> u16) \<times> block_cursor" where
  "get_opthdr_from_block_data ho swp cur =
     (case get_from_block_data cur 4 of
        Inl e \<Rightarrow> Inl e
      | Inr (bs, cur) \<Rightarrow>
          Inr ((fix16 swp (field (host_order ho) 0 2 bs), fix16 swp (field (host_order ho) 2 2 bs)), cur))"

definition get_optvalue_from_block_data ::
  "block_cursor \<Rightarrow> u16 \<Rightarrow> sf_error + u8 list \<times> block_cursor" where
  "get_optvalue_from_block_data cur optlen = get_from_block_data cur ((unat optlen + 3) div 4 * 4)"

lemma get_from_block_data_Inr:
  "get_from_block_data cur n = Inr (bs, cur') \<longleftrightarrow>
     n \<le> length (cur_data cur) \<and> bs = take n (cur_data cur) \<and>
     cur' = cur\<lparr>cur_data := drop n (cur_data cur)\<rparr>"
  by (auto simp: get_from_block_data_def)

section \<open>Interface descriptions\<close>

text \<open>
  The resolution an \<open>if_tsresol\<close> option gives: a power of two (a shift of a 32-bit 1, undefined
  from 32 on) or of ten (computed modulo \<open>2 ^ 32\<close>).
\<close>

primrec pow10 :: "nat \<Rightarrow> u32" where
  "pow10 0 = 1"
| "pow10 (Suc n) = pow10 n * 10"

definition tsresol_of :: "host \<Rightarrow> u8 \<Rightarrow> u32" where
  "tsresol_of ho opt =
     (if opt AND 0x80 \<noteq> 0 then
        (let n = unat (opt AND 0x7F) in if n < 32 then push_bit n 1 else wide_shift ho n)
      else pow10 (unat opt))"

text \<open>The loop of \<open>process_idb_options\<close>; the result: an error, or resolution and offset.\<close>

function process_idb_options ::
  "host \<Rightarrow> bool \<Rightarrow> block_cursor \<Rightarrow> u32 \<Rightarrow> u64 \<Rightarrow> bool \<Rightarrow> bool \<Rightarrow> sf_error + u32 \<times> u64" where
  "process_idb_options ho swp cur resol offset saw_resol saw_offset =
     (if cur_data cur = [] then Inr (resol, offset)
      else
        (case get_opthdr_from_block_data ho swp cur of
           Inl e \<Rightarrow> Inl e
         | Inr ((code, optlen), cur1) \<Rightarrow>
             (case get_optvalue_from_block_data cur1 optlen of
                Inl e \<Rightarrow> Inl e
              | Inr (val, cur2) \<Rightarrow>
                  if code = OPT_ENDOFOPT then
                    (if optlen \<noteq> 0 then Inl (Endofopt_length optlen) else Inr (resol, offset))
                  else if code = IF_TSRESOL then
                    (if optlen \<noteq> 1 then Inl (Tsresol_length optlen)
                     else if saw_resol then Inl Tsresol_repeated
                     else if tsresol_of ho (val ! 0) = 0 then Inl (Tsresol_too_high (val ! 0))
                     else process_idb_options ho swp cur2 (tsresol_of ho (val ! 0)) offset True saw_offset)
                  else if code = IF_TSOFFSET then
                    (if optlen \<noteq> 8 then Inl (Tsoffset_length optlen)
                     else if saw_offset then Inl Tsoffset_repeated
                     else process_idb_options ho swp cur2 resol
                       (fix64 swp (field (host_order ho) 0 8 val)) saw_resol True)
                  else process_idb_options ho swp cur2 resol offset saw_resol saw_offset)))"
  by pat_completeness auto

termination
  by (relation "measure (\<lambda>(ho, swp, cur, rest). length (cur_data cur))")
    (auto simp: get_opthdr_from_block_data_def get_optvalue_from_block_data_def
      get_from_block_data_Inr split: sum.splits)

declare process_idb_options.simps [simp del]

text \<open>
  \<open>add_interface\<close>: count it, grow the array by doubling, read the options, fill in the entry. A
  failure leaves the count as it is then; an entry outside the array would be written to memory
  that is not the array's.
\<close>

datatype add_status = Added | Add_failed sf_error | Add_crash

definition grow_ifaces :: "heap \<Rightarrow> pcap_ng_sf \<Rightarrow> pcap_ng_sf" where
  "grow_ifaces hp ps =
     (if ifaces_size ps < ifcount ps then
        (case ifaces ps of
           None \<Rightarrow> ps\<lparr>ifaces_size := 1, ifaces := (if malloc hp 24 = None then None else Some [None])\<rparr>
         | Some l \<Rightarrow>
             let n = ifaces_size ps * 2 in
             ps\<lparr>ifaces_size := n, ifaces := (if malloc hp (unat n * 24) = None then None
               else Some (take (unat n) l @ replicate (unat n - length l) None))\<rparr>)
      else ps)"

definition if_scale_for :: "u32 \<Rightarrow> u32 \<Rightarrow> tstamp_scale" where
  "if_scale_for unit resol =
     (if resol = unit then PASS_THROUGH else if unit < resol then SCALE_DOWN else SCALE_UP)"

definition add_interface ::
  "host \<Rightarrow> heap \<Rightarrow> pcap_ng_sf pcap_t \<Rightarrow> block_cursor \<Rightarrow> add_status \<times> pcap_ng_sf pcap_t" where
  "add_interface ho hp p cur =
     (let grows = ifaces_size (priv p) < ifcount (priv p) + 1;
          ps = grow_ifaces hp ((priv p)\<lparr>ifcount := ifcount (priv p) + 1\<rparr>);
          p = p\<lparr>priv := ps\<rparr> in
      if grows \<and> ifaces ps = None then (Add_failed (Ifaces_out_of_memory (ifcount ps)), p)
      else
        (case process_idb_options ho (swapped p) cur 1000000 0 False False of
           Inl e \<Rightarrow> (Add_failed e, p)
         | Inr (resol, offset) \<Rightarrow>
             let unit = (if tstamp_precision p = PCAP_TSTAMP_PRECISION_MICRO then 1000000
                   else 1000000000);
                 entry = \<lparr>tsresol = resol, tsoffset = offset, if_scale = if_scale_for unit resol\<rparr>;
                 i = unat (ifcount ps - 1) in
             (case ifaces ps of
                None \<Rightarrow> (Add_crash, p)
              | Some l \<Rightarrow>
                  if i < length l then (Added, p\<lparr>priv := ps\<lparr>ifaces := Some (l[i := Some entry])\<rparr>\<rparr>)
                  else (Add_crash, p))))"

section \<open>Recognising the format\<close>

text \<open>Blocks consume what they read, so the two loops over blocks end.\<close>

lemma read_bytes_ok:
  "read_bytes n eof fp = (Read_ok, bs, fp') \<Longrightarrow>
   length bs = n \<and> bs = take n (pending fp) \<and> fp' = fp\<lparr>pending := drop n (pending fp)\<rparr> \<and>
   n \<le> length (pending fp)"
  by (auto simp: read_bytes_def fread_bytes_def split: if_splits)

lemma grow_buffer_rfile [simp]: "rfile (grow_buffer hp p tlen) = rfile p"
  by (simp add: grow_buffer_def)

lemma read_block_consumes:
  assumes "read_block ho hp p = (Block cur, p')"
  shows "length (pending (rfile p')) + length (cur_data cur) + 12 \<le> length (pending (rfile p))"
proof -
  obtain st bs fp where r: "read_bytes 8 False (rfile p) = (st, bs, fp)" by (metis prod_cases3)
  then have st: "st = Read_ok" using assms by (auto simp: read_block_def Let_def split: read_status.splits)
  let ?tlen = "fix32 (swapped p) (field (host_order ho) 4 4 bs)"
  obtain st2 bs2 fp2 where r2: "read_bytes (unat ?tlen - 8) True fp = (st2, bs2, fp2)"
    by (metis prod_cases3)
  have big: "\<not> ?tlen < 12"
    using assms r st by (auto simp: read_block_def Let_def split: if_splits)
  then have len: "12 \<le> unat ?tlen" by (simp add: word_less_nat_alt)
  have ok: "st2 = Read_ok"
    using assms r st r2 r2 big
    by (auto simp: read_block_def Let_def read_bytes_def fread_bytes_def
        split: if_splits option.splits read_status.splits)
  have "cur_data cur = take (unat ?tlen - 12) bs2" "rfile p' = fp2"
    using assms r st r2 ok big
    by (auto simp: read_block_def Let_def split: if_splits option.splits)
  then show ?thesis
    using read_bytes_ok [OF r [unfolded st]] read_bytes_ok [OF r2 [unfolded ok]] len by auto
qed

lemma read_block_shorter:
  "read_block ho hp p = (Block cur, p') \<Longrightarrow> length (pending (rfile p')) < length (pending (rfile p))"
  using read_block_consumes by fastforce

text \<open>The search for the first interface description.\<close>

datatype idb_result =
  First_idb u16 u32 "pcap_ng_sf pcap_t" | Idb_failed sf_error | Idb_crash

function find_idb :: "host \<Rightarrow> heap \<Rightarrow> pcap_ng_sf pcap_t \<Rightarrow> idb_result" where
  "find_idb ho hp p =
     (case read_block ho hp p of
        (No_block, p) \<Rightarrow> Idb_failed No_idb
      | (Block_failed e, p) \<Rightarrow> Idb_failed e
      | (Block_crash, p) \<Rightarrow> Idb_crash
      | (Block cur, p1) \<Rightarrow>
          if block_type cur = BT_IDB then
            (case get_from_block_data cur 8 of
               Inl e \<Rightarrow> Idb_failed e
             | Inr (bs, cur) \<Rightarrow>
                 (case add_interface ho hp p1 cur of
                    (Added, p2) \<Rightarrow> First_idb (fix16 (swapped p1) (field (host_order ho) 0 2 bs))
                      (fix32 (swapped p1) (field (host_order ho) 4 4 bs)) p2
                  | (Add_failed e, p2) \<Rightarrow> Idb_failed e
                  | (Add_crash, p2) \<Rightarrow> Idb_crash))
          else if block_type cur = BT_EPB \<or> block_type cur = BT_SPB \<or> block_type cur = BT_PB
          then Idb_failed Packet_before_idb
          else find_idb ho hp p1)"
  by pat_completeness auto

termination
  by (relation "measure (\<lambda>(ho, hp, p). length (pending (rfile p)))")
    (auto dest: read_block_shorter [OF sym])

declare find_idb.simps [simp del]

text \<open>
  The Section Header Block after the magic number of the file. The size of the buffer is an
  \<open>int\<close>, so a length beyond \<open>2 ^ 31\<close> asks \<open>malloc\<close> for its sign extension to 64 bits.
\<close>

definition ng_open ::
  "host \<Rightarrow> heap \<Rightarrow> u32 \<Rightarrow> bool \<Rightarrow> u32 \<Rightarrow> stream \<Rightarrow> pcap_ng_sf check_result" where
  "ng_open ho hp precision swp tlen fp =
     (case pcap_open_offline_common hp zero_ng fp of
        None \<Rightarrow> Rejected Malloc_failed
      | Some p \<Rightarrow>
          if precision \<noteq> PCAP_TSTAMP_PRECISION_MICRO \<and> precision \<noteq> PCAP_TSTAMP_PRECISION_NANO
          then Rejected (Unknown_tstamp_resolution precision)
          else
            let bo = host_order ho;
                bsize = (if 2048 < tlen then tlen else 2048);
                unit = (if precision = PCAP_TSTAMP_PRECISION_MICRO then 1000000 else 1000000000) in
            (case malloc hp (unat (scast bsize :: u64)) of
               None \<Rightarrow> Rejected Out_of_memory
             | Some buf \<Rightarrow>
                 (case read_bytes (unat tlen - 12) True fp of (st, bs, fp) \<Rightarrow>
                    (case st of
                       Read_failed e \<Rightarrow> Rejected e
                     | _ \<Rightarrow>
                         let major = fix16 swp (field bo 0 2 bs);
                             minor = fix16 swp (field bo 2 2 bs) in
                         if major \<noteq> PCAP_NG_VERSION_MAJOR then Rejected (Unknown_major_version major)
                         else
                           (case find_idb ho hp (p\<lparr>rfile := fp, swapped := swp, bufsize := bsize,
                               buffer := Some (put_bytes 0 (encode_word bo 4 BT_SHB @
                                 encode_word bo 4 tlen @ encode_word bo 4 BYTE_ORDER_MAGIC @ bs) buf),
                               tstamp_precision := precision, version_major := major,
                               version_minor := minor, priv := zero_ng\<lparr>user_tsresol := unit\<rparr>\<rparr>) of
                              Idb_failed e \<Rightarrow> Rejected e
                            | Idb_crash \<Rightarrow> Check_crash
                            | First_idb lt snap p \<Rightarrow>
                                Opened (p\<lparr>tzoff := 0, snapshot := snap,
                                  linktype := linktype_to_dlt (host_os ho) (uint lt),
                                  linktype_ext := 0\<rparr>))))))"

definition pcap_ng_check_header ::
  "host \<Rightarrow> heap \<Rightarrow> u32 \<Rightarrow> stream \<Rightarrow> u32 \<Rightarrow> pcap_ng_sf check_result" where
  "pcap_ng_check_header ho hp magic fp precision =
     (if magic \<noteq> BT_SHB then Not_mine fp
      else
        (case fread_bytes 4 fp of (lenb, fp) \<Rightarrow>
           if length lenb < 4 then (if broken fp then Rejected Read_error else Not_mine fp)
           else
             (case fread_bytes 4 fp of (magb, fp) \<Rightarrow>
                if length magb < 4 then (if broken fp then Rejected Read_error else Not_mine fp)
                else
                  let bom = decode_word (host_order ho) magb;
                      tlen = decode_word (host_order ho) lenb;
                      swp = (bom \<noteq> BYTE_ORDER_MAGIC);
                      tlen = fix32 swp tlen in
                  if swp \<and> SWAPLONG bom \<noteq> BYTE_ORDER_MAGIC then Not_mine fp
                  else if tlen < 28 then Rejected (Shb_too_small tlen)
                  else ng_open ho hp precision swp tlen fp)))"

section \<open>Reading a packet\<close>

text \<open>The fixed part of each kind of packet block: interface, captured and original length, time.\<close>

record ng_packet =
  ng_interface :: u32
  ng_caplen :: u32
  ng_len :: u32
  ng_time :: u64

definition timestamp_of :: "u32 \<Rightarrow> u32 \<Rightarrow> u64" where
  "timestamp_of high low = push_bit 32 (ucast high) OR ucast low"

definition epb_packet :: "host \<Rightarrow> bool \<Rightarrow> u8 list \<Rightarrow> ng_packet" where
  "epb_packet ho swp bs =
     (let get = (\<lambda>off. fix32 swp (field (host_order ho) off 4 bs)) in
      \<lparr>ng_interface = get 0, ng_caplen = get 12, ng_len = get 16, ng_time = timestamp_of (get 4) (get 8)\<rparr>)"

definition pb_packet :: "host \<Rightarrow> bool \<Rightarrow> u8 list \<Rightarrow> ng_packet" where
  "pb_packet ho swp bs =
     (let get = (\<lambda>off. fix32 swp (field (host_order ho) off 4 bs)) in
      \<lparr>ng_interface = ucast (fix16 swp (field (host_order ho) 0 2 bs)), ng_caplen = get 12,
       ng_len = get 16, ng_time = timestamp_of (get 4) (get 8)\<rparr>)"

definition spb_packet :: "host \<Rightarrow> bool \<Rightarrow> u32 \<Rightarrow> u8 list \<Rightarrow> ng_packet" where
  "spb_packet ho swp snap bs =
     (let ln = fix32 swp (field (host_order ho) 0 4 bs) in
      \<lparr>ng_interface = 0, ng_caplen = (if snap < ln then snap else ln), ng_len = ln, ng_time = 0\<rparr>)"

text \<open>
  A block that is not a packet: a further interface (its link type, as it is in the file, is
  compared with the handle's, a \<open>DLT_\<close> value), a section header (which forgets the interfaces),
  or something to skip.
\<close>

datatype ng_status = Go_on | Stop sf_error | Stop_crash

definition other_block ::
  "host \<Rightarrow> heap \<Rightarrow> pcap_ng_sf pcap_t \<Rightarrow> block_cursor \<Rightarrow> ng_status \<times> pcap_ng_sf pcap_t" where
  "other_block ho hp p cur =
     (if block_type cur = BT_IDB then
        (case get_from_block_data cur 8 of
           Inl e \<Rightarrow> (Stop e, p)
         | Inr (bs, cur) \<Rightarrow>
             let lt = fix16 (swapped p) (field (host_order ho) 0 2 bs);
                 snap = fix32 (swapped p) (field (host_order ho) 4 4 bs) in
             if linktype p \<noteq> uint lt then (Stop (Different_linktype lt), p)
             else if snapshot p \<noteq> snap then (Stop (Different_snaplen snap), p)
             else
               (case add_interface ho hp p cur of
                  (Added, p) \<Rightarrow> (Go_on, p) | (Add_failed e, p) \<Rightarrow> (Stop e, p)
                | (Add_crash, p) \<Rightarrow> (Stop_crash, p)))
      else if block_type cur = BT_SHB then
        (case get_from_block_data cur 16 of
           Inl e \<Rightarrow> (Stop e, p)
         | Inr (bs, cur) \<Rightarrow>
             let bom = fix32 (swapped p) (field (host_order ho) 0 4 bs);
                 major = fix16 (swapped p) (field (host_order ho) 4 2 bs) in
             if bom = SWAPLONG BYTE_ORDER_MAGIC then (Stop Byte_order_changed, p)
             else if bom \<noteq> BYTE_ORDER_MAGIC then (Stop Bad_byte_order_magic, p)
             else if major \<noteq> PCAP_NG_VERSION_MAJOR then (Stop (Unknown_major_version major), p)
             else (Go_on, p\<lparr>priv := (priv p)\<lparr>ifcount := 0\<rparr>\<rparr>))
      else (Go_on, p))"

text \<open>The loop that looks for a packet block; it leaves the cursor at the packet data.\<close>

datatype ng_found =
    Ng_packet ng_packet block_cursor
  | Ng_eof
  | Ng_failed sf_error
  | Ng_crash

definition packet_block ::
  "host \<Rightarrow> pcap_ng_sf pcap_t \<Rightarrow> block_cursor \<Rightarrow> (sf_error + ng_packet \<times> block_cursor) option" where
  "packet_block ho p cur =
     (let part = (\<lambda>n get. Some (case get_from_block_data cur n of Inl e \<Rightarrow> Inl e
           | Inr (bs, cur) \<Rightarrow> Inr (get bs, cur))) in
      if block_type cur = BT_EPB then part 20 (epb_packet ho (swapped p))
      else if block_type cur = BT_SPB then part 4 (spb_packet ho (swapped p) (snapshot p))
      else if block_type cur = BT_PB then part 20 (pb_packet ho (swapped p))
      else None)"

lemma add_interface_rfile: "add_interface ho hp p cur = (st, p') \<Longrightarrow> rfile p' = rfile p"
  by (auto simp: add_interface_def Let_def split: if_splits sum.splits option.splits prod.splits)

lemma other_block_rfile: "other_block ho hp p cur = (st, p') \<Longrightarrow> rfile p' = rfile p"
  by (auto simp: other_block_def Let_def dest: add_interface_rfile
      split: if_splits sum.splits prod.splits add_status.splits)

function find_packet ::
  "host \<Rightarrow> heap \<Rightarrow> pcap_ng_sf pcap_t \<Rightarrow> ng_found \<times> pcap_ng_sf pcap_t" where
  "find_packet ho hp p =
     (case read_block ho hp p of
        (No_block, p) \<Rightarrow> (Ng_eof, p)
      | (Block_failed e, p) \<Rightarrow> (Ng_failed e, p)
      | (Block_crash, p) \<Rightarrow> (Ng_crash, p)
      | (Block cur, p1) \<Rightarrow>
          (case packet_block ho p1 cur of
             Some (Inl e) \<Rightarrow> (Ng_failed e, p1)
           | Some (Inr (pk, cur)) \<Rightarrow> (Ng_packet pk cur, p1)
           | None \<Rightarrow>
               (case other_block ho hp p1 cur of
                  (Stop e, p2) \<Rightarrow> (Ng_failed e, p2)
                | (Stop_crash, p2) \<Rightarrow> (Ng_crash, p2)
                | (Go_on, p2) \<Rightarrow> find_packet ho hp p2)))"
  by pat_completeness auto

termination
  by (relation "measure (\<lambda>(ho, hp, p). length (pending (rfile p)))")
    (auto dest!: read_block_shorter [OF sym] other_block_rfile [OF sym])

declare find_packet.simps [simp del]

text \<open>
  The time stamp: seconds with the interface's offset, and the fraction in units of the
  resolution the user asked for. All in 64-bit arithmetic.
\<close>

definition ng_tstamp :: "u32 \<Rightarrow> pcap_ng_if \<Rightarrow> u64 \<Rightarrow> u64 \<times> u64" where
  "ng_tstamp user f t =
     (let r = ucast (tsresol f) :: u64;
          sec = t div r + tsoffset f;
          frac = t mod r in
      (sec, case if_scale f of PASS_THROUGH \<Rightarrow> frac | _ \<Rightarrow> frac * ucast user div r))"

definition pcap_ng_next_packet ::
  "host \<Rightarrow> heap \<Rightarrow> pcap_ng_sf pcap_t \<Rightarrow> next_packet \<times> pcap_ng_sf pcap_t" where
  "pcap_ng_next_packet ho hp p =
     (case find_packet ho hp p of
        (Ng_eof, p) \<Rightarrow> (Eof, p)
      | (Ng_failed e, p) \<Rightarrow> (Failed e, p)
      | (Ng_crash, p) \<Rightarrow> (Crash, p)
      | (Ng_packet pk cur, p) \<Rightarrow>
          let i = ng_interface pk in
          if ifcount (priv p) \<le> i then (Failed (Unknown_interface i), p)
          else
            (case ifaces (priv p) of
               None \<Rightarrow> (Crash, p)
             | Some l \<Rightarrow>
                 (case (if unat i < length l then l ! unat i else None) of
                    None \<Rightarrow> (Crash, p)
                  | Some f \<Rightarrow>
                      if tsresol f = 0 then (Crash, p)
                      else
                        (case ng_tstamp (user_tsresol (priv p)) f (ng_time pk) of (sec, frac) \<Rightarrow>
                           let h = \<lparr>tv_sec = sec, tv_usec = frac, caplen = ng_caplen pk,
                                 pkt_len = ng_len pk\<rparr>;
                               d = cur_data cur in
                           (case get_from_block_data cur (unat (caplen h)) of
                              Inl e \<Rightarrow> (Failed e, p)
                            | Inr _ \<Rightarrow>
                                let d = (if swapped p
                                  then swap_pseudo_headers (host_order ho) (linktype p) h d else d) in
                                (Packet h (take (unat (caplen h)) d), p))))))"

end
