(* ===== verification/Ng_Safety.thy ===== *)
theory Ng_Safety
  imports Sf_Pcap_Ng
begin

text \<open>
  What holds of a handle for a pcap-ng file, and that reading keeps it: the buffer has at least
  \<open>bufsize\<close> bytes, the interface table is an array of \<open>ifaces_size\<close> entries whose first \<open>ifcount\<close>
  are initialised, with a resolution that is not zero. From there no block, however malformed,
  leads outside memory, to an uninitialised value or to a division by zero.
\<close>

section \<open>The invariant\<close>

definition tsresol_unit :: "u32 \<Rightarrow> u32" where
  "tsresol_unit precision = (if precision = PCAP_TSTAMP_PRECISION_MICRO then 1000000 else 1000000000)"

definition iface_ok :: "u32 \<Rightarrow> pcap_ng_if \<Rightarrow> bool" where
  "iface_ok unit f \<longleftrightarrow> tsresol f \<noteq> 0 \<and> if_scale f = if_scale_for unit (tsresol f)"

definition table_ok :: "u32 \<Rightarrow> pcap_ng_sf \<Rightarrow> bool" where
  "table_ok unit ps \<longleftrightarrow> user_tsresol ps = unit \<and>
     (case ifaces ps of
        None \<Rightarrow> ifcount ps = 0 \<and> ifaces_size ps = 0
      | Some l \<Rightarrow> l \<noteq> [] \<and> length l = unat (ifaces_size ps) \<and> unat (ifcount ps) \<le> length l \<and>
          (\<forall>i < unat (ifcount ps). \<exists>f. l ! i = Some f \<and> iface_ok unit f))"

definition buffer_wf :: "pcap_ng_sf pcap_t \<Rightarrow> bool" where
  "buffer_wf p \<longleftrightarrow> (\<exists>b. buffer p = Some b \<and> unat (bufsize p) \<le> length b)"

text \<open>
  The interfaces of a file of less than 40 GB can be counted without overflow: each takes at
  least 20 bytes of it.
\<close>

definition countable_file :: "pcap_ng_sf pcap_t \<Rightarrow> nat \<Rightarrow> bool" where
  "countable_file p n \<longleftrightarrow> 20 * unat (ifcount (priv p)) + n + length (pending (rfile p)) < 20 * 2 ^ 31"

definition ng_wf :: "pcap_ng_sf pcap_t \<Rightarrow> bool" where
  "ng_wf p \<longleftrightarrow> buffer_wf p \<and> table_ok (tsresol_unit (tstamp_precision p)) (priv p) \<and> countable_file p 0"

section \<open>Interfaces\<close>

lemma process_idb_options_nonzero:
  assumes "process_idb_options ho swp cur resol offset sr so = Inr (r, off)" and "resol \<noteq> 0"
  shows "r \<noteq> 0"
  using assms
proof (induction ho swp cur resol offset sr so rule: process_idb_options.induct)
  case (1 ho swp cur resol offset sr so)
  then show ?case
    by (subst (asm) process_idb_options.simps) (auto split: if_splits sum.splits prod.splits)
qed

lemma grow_ifaces_table:
  assumes "table_ok unit ps" and "unat (ifcount ps) < 2 ^ 31"
    and "ifaces (grow_ifaces hp (ps\<lparr>ifcount := ifcount ps + 1\<rparr>)) \<noteq> None \<or>
      \<not> ifaces_size ps < ifcount ps + 1"
  shows "\<exists>l. ifaces (grow_ifaces hp (ps\<lparr>ifcount := ifcount ps + 1\<rparr>)) = Some l \<and>
    length l = unat (ifaces_size (grow_ifaces hp (ps\<lparr>ifcount := ifcount ps + 1\<rparr>))) \<and>
    unat (ifcount ps) < length l \<and>
    (\<forall>i < unat (ifcount ps). \<exists>f. l ! i = Some f \<and> iface_ok unit f)"
proof -
  have next_count: "unat (ifcount ps + 1) = unat (ifcount ps) + 1"
    using assms(2) by (simp add: unat_word_ariths)
  show ?thesis
  proof (cases "ifaces ps")
    case None
    then have "ifcount ps = 0" "ifaces_size ps = 0" using assms(1) by (simp_all add: table_ok_def)
    then show ?thesis using None assms(3) by (auto simp: grow_ifaces_def split: if_splits)
  next
    case (Some l)
    then have l: "l \<noteq> []" "length l = unat (ifaces_size ps)" "unat (ifcount ps) \<le> length l"
      "\<forall>i < unat (ifcount ps). \<exists>f. l ! i = Some f \<and> iface_ok unit f"
      using assms(1) by (simp_all add: table_ok_def)
    show ?thesis
    proof (cases "ifaces_size ps < ifcount ps + 1")
      case False
      then show ?thesis
        using Some l next_count by (auto simp: grow_ifaces_def word_less_nat_alt)
    next
      case True
      then have full: "unat (ifaces_size ps) = unat (ifcount ps)"
        using l next_count by (simp add: word_less_nat_alt)
      have twice: "unat (ifaces_size ps * 2) = unat (ifaces_size ps) * 2"
        using assms(2) full by (simp add: unat_word_ariths)
      have "0 < unat (ifcount ps)" using l(1,2) full by (metis length_greater_0_conv)
      moreover have "ifaces (grow_ifaces hp (ps\<lparr>ifcount := ifcount ps + 1\<rparr>)) =
          Some (l @ replicate (unat (ifcount ps)) None)"
        using assms(3) True Some l(2) twice full
        by (auto simp: grow_ifaces_def Let_def split: if_splits)
      ultimately show ?thesis
        using True Some l twice full by (auto simp: grow_ifaces_def Let_def nth_append)
    qed
  qed
qed

lemma grow_ifaces_count [simp]:
  "ifcount (grow_ifaces hp ps) = ifcount ps" "user_tsresol (grow_ifaces hp ps) = user_tsresol ps"
  by (simp_all add: grow_ifaces_def Let_def split: option.split)

lemma add_interface_table:
  assumes "add_interface ho hp p cur = (st, p')"
    and "table_ok (tsresol_unit (tstamp_precision p)) (priv p)" and "unat (ifcount (priv p)) < 2 ^ 31"
  shows "st \<noteq> Add_crash \<and> (st = Added \<longrightarrow>
    table_ok (tsresol_unit (tstamp_precision p)) (priv p') \<and>
    unat (ifcount (priv p')) = unat (ifcount (priv p)) + 1)"
proof -
  let ?unit = "tsresol_unit (tstamp_precision p)"
  let ?ps = "grow_ifaces hp ((priv p)\<lparr>ifcount := ifcount (priv p) + 1\<rparr>)"
  let ?grows = "ifaces_size (priv p) < ifcount (priv p) + 1"
  have next_count: "unat (ifcount (priv p) + 1) = unat (ifcount (priv p)) + 1"
    using assms(3) by (simp add: unat_word_ariths)
  show ?thesis
  proof (cases "?grows \<and> ifaces ?ps = None")
    case True
    then show ?thesis using assms(1) by (auto simp: add_interface_def Let_def)
  next
    case False
    then obtain l where l: "ifaces ?ps = Some l" "length l = unat (ifaces_size ?ps)"
        "unat (ifcount (priv p)) < length l"
        "\<forall>i < unat (ifcount (priv p)). \<exists>f. l ! i = Some f \<and> iface_ok ?unit f"
      using grow_ifaces_table [OF assms(2,3), of hp] by auto
    let ?opts = "process_idb_options ho (swapped p) cur 1000000 0 False False"
    show ?thesis
    proof (cases ?opts)
      case (Inl e)
      then show ?thesis using assms(1) False by (auto simp: add_interface_def Let_def)
    next
      case (Inr ro)
      obtain r off where ro: "ro = (r, off)" by (cases ro)
      let ?e = "\<lparr>tsresol = r, tsoffset = off, if_scale = if_scale_for ?unit r\<rparr>"
      have e: "iface_ok ?unit ?e"
        using process_idb_options_nonzero [OF Inr [unfolded ro]] by (simp add: iface_ok_def)
      have res: "st = Added" "priv p' = ?ps\<lparr>ifaces := Some (l[unat (ifcount (priv p)) := Some ?e])\<rparr>"
        using assms(1) False Inr ro l(1,3)
        by (auto simp: add_interface_def Let_def tsresol_unit_def [symmetric])
      have "user_tsresol ?ps = ?unit" using assms(2) by (simp add: table_ok_def)
      then show ?thesis
        unfolding res using l e next_count
        by (auto simp: table_ok_def less_Suc_eq nth_list_update)
    qed
  qed
qed

section \<open>Blocks\<close>

lemma grow_buffer_wf:
  assumes "buffer_wf p" and "heap_ok hp" and "buffer (grow_buffer hp p n) = Some b"
  shows "unat (bufsize p) \<le> length b \<and> unat n \<le> length b"
  using assms
  by (auto simp: buffer_wf_def grow_buffer_def word_less_nat_alt not_less
      dest: realloc_length heap_ok_length split: if_splits option.splits)

lemma grow_buffer_same [simp]:
  "priv (grow_buffer hp p n) = priv p" "bufsize (grow_buffer hp p n) = bufsize p"
  "tstamp_precision (grow_buffer hp p n) = tstamp_precision p"
  "swapped (grow_buffer hp p n) = swapped p" "linktype (grow_buffer hp p n) = linktype p"
  by (simp_all add: grow_buffer_def)

lemma not_grown: "\<not> bufsize p < n \<Longrightarrow> grow_buffer hp p n = p"
  by (simp add: grow_buffer_def)

lemma read_bytes_length: "read_bytes n eof fp = (st, bs, fp') \<Longrightarrow> length bs \<le> n"
  by (auto simp: read_bytes_def fread_bytes_def)

lemma read_block_wf:
  assumes "read_block ho hp p = (st, p')" and "buffer_wf p" and "heap_ok hp"
  shows "st \<noteq> Block_crash \<and> priv p' = priv p \<and> tstamp_precision p' = tstamp_precision p \<and>
    length (pending (rfile p')) \<le> length (pending (rfile p)) \<and>
    ((\<exists>cur. st = Block cur) \<or> st = No_block \<longrightarrow> buffer_wf p')"
proof -
  obtain st1 bs fp where r: "read_bytes 8 False (rfile p) = (st1, bs, fp)" by (metis prod_cases3)
  have fp: "length (pending fp) \<le> length (pending (rfile p))"
    using r by (auto simp: read_bytes_def fread_bytes_def)
  show ?thesis
  proof (cases "st1 = Read_ok")
    case False
    then show ?thesis
      using assms r fp by (cases st1) (auto simp: read_block_def buffer_wf_def Let_def)
  next
    case True
    let ?p = "p\<lparr>rfile := fp\<rparr>"
    let ?n = "fix32 (swapped p) (field (host_order ho) 4 4 bs)"
    let ?ty = "fix32 (swapped p) (field (host_order ho) 0 4 bs)"
    have wf: "buffer_wf ?p" using assms(2) by (simp add: buffer_wf_def)
    show ?thesis
    proof (cases "16 * 1024 * 1024 < ?n \<or> ?n < 12")
      case True
      then show ?thesis
        using assms(1) r fp \<open>st1 = Read_ok\<close>
        by (auto simp: read_block_def Let_def buffer_wf_def split: if_splits)
    next
      case fine: False
      show ?thesis
      proof (cases "buffer (grow_buffer hp ?p ?n)")
        case None
        then have "bufsize p < ?n"
          using wf not_grown [of ?p ?n hp] by (cases "bufsize p < ?n") (auto simp: buffer_wf_def)
        then show ?thesis
          using assms(1) r fp True fine None by (auto simp: read_block_def Let_def)
      next
        case (Some b)
        obtain st2 bs2 fp2 where r2: "read_bytes (unat ?n - 8) True fp = (st2, bs2, fp2)"
          by (metis prod_cases3)
        have fp2: "length (pending fp2) \<le> length (pending fp)"
          using r2 by (auto simp: read_bytes_def fread_bytes_def)
        let ?b = "put_bytes 0 (encode_word (host_order ho) 4 ?ty @ encode_word (host_order ho) 4 ?n @ bs2) b"
        have p': "p' = (grow_buffer hp ?p ?n)\<lparr>rfile := fp2, buffer := Some ?b\<rparr>" "st \<noteq> Block_crash"
          using assms(1) r True fine Some r2
          by (auto simp: read_block_def Let_def split: read_status.splits)
        have "12 \<le> unat ?n" using fine by (simp add: word_less_nat_alt not_less)
        then have "length ?b = length b"
          using grow_buffer_wf [OF wf assms(3) Some] read_bytes_length [OF r2]
          by (intro length_put_bytes) auto
        then show ?thesis
          using p' grow_buffer_wf [OF wf assms(3) Some] fp fp2 by (simp add: buffer_wf_def)
      qed
    qed
  qed
qed

lemma read_block_small:
  assumes "read_block ho hp p = (Block cur, p')"
  shows "length (cur_data cur) < 2 ^ 31"
proof -
  obtain st bs fp where r: "read_bytes 8 False (rfile p) = (st, bs, fp)" by (metis prod_cases3)
  then have st: "st = Read_ok"
    using assms by (auto simp: read_block_def Let_def split: read_status.splits)
  let ?n = "fix32 (swapped p) (field (host_order ho) 4 4 bs)"
  have "\<not> 16 * 1024 * 1024 < ?n" using assms r st by (auto simp: read_block_def Let_def)
  then have "unat ?n \<le> 16777216" by (simp add: word_less_nat_alt)
  moreover have "length (cur_data cur) \<le> unat ?n"
    using assms r st
    by (auto simp: read_block_def Let_def
        split: if_splits option.splits prod.splits read_status.splits)
  ultimately show ?thesis by simp
qed

lemma packet_block_shorter:
  "packet_block ho p cur = Some (Inr (pk, cur')) \<Longrightarrow> length (cur_data cur') \<le> length (cur_data cur)"
  by (auto simp: packet_block_def get_from_block_data_def Let_def split: if_splits)

lemma ng_wf_ifcount: "ng_wf p \<Longrightarrow> unat (ifcount (priv p)) < 2 ^ 31"
  by (simp add: ng_wf_def countable_file_def)

lemma add_interface_same:
  "add_interface ho hp p cur = (st, p') \<Longrightarrow>
   buffer p' = buffer p \<and> bufsize p' = bufsize p \<and> tstamp_precision p' = tstamp_precision p \<and>
   rfile p' = rfile p"
  by (auto simp: add_interface_def Let_def split: if_splits sum.splits option.splits prod.splits)

text \<open>After a block of at least \<open>n\<close> bytes of contents, a further interface is affordable.\<close>

lemma other_block_wf:
  assumes "other_block ho hp p cur = (st, p')" and "buffer_wf p"
    and "table_ok (tsresol_unit (tstamp_precision p)) (priv p)"
    and "countable_file p (length (cur_data cur) + 12)"
  shows "st \<noteq> Stop_crash \<and> (st = Go_on \<longrightarrow> ng_wf p')"
proof (cases "block_type cur = BT_IDB \<and> 8 \<le> length (cur_data cur)")
  case True
  obtain a q where a: "add_interface ho hp p (cur\<lparr>cur_data := drop 8 (cur_data cur)\<rparr>) = (a, q)"
    by fastforce
  have small: "unat (ifcount (priv p)) < 2 ^ 31" using assms(4) by (simp add: countable_file_def)
  have ok: "a \<noteq> Add_crash" "a = Added \<Longrightarrow> ng_wf q"
    using add_interface_table [OF a assms(3) small] add_interface_same [OF a] assms(2,4) True
    by (auto simp: ng_wf_def buffer_wf_def countable_file_def)
  then show ?thesis
    using assms(1) True a
    by (cases a) (auto simp: other_block_def get_from_block_data_def Let_def split: if_splits)
next
  case False
  have "table_ok u ps \<Longrightarrow> table_ok u (ps\<lparr>ifcount := 0\<rparr>)" for u ps
    by (auto simp: table_ok_def split: option.splits)
  moreover have "ng_wf p" using assms(2-4) by (simp add: ng_wf_def countable_file_def)
  ultimately show ?thesis
    using assms(1) False
    by (auto simp: other_block_def get_from_block_data_def Let_def ng_wf_def buffer_wf_def
        countable_file_def split: if_splits)
qed

lemma find_packet_wf:
  assumes "ng_wf p" and "heap_ok hp" and "find_packet ho hp p = (r, p')"
  shows "r \<noteq> Ng_crash \<and> (r = Ng_eof \<longrightarrow> ng_wf p') \<and>
    (\<forall>pk cur. r = Ng_packet pk cur \<longrightarrow> ng_wf p' \<and> length (cur_data cur) < 2 ^ 31 \<and>
      length (pending (rfile p')) + 12 \<le> length (pending (rfile p)))"
  using assms
proof (induction ho hp p rule: find_packet.induct)
  case (1 ho hp p)
  obtain st p1 where b: "read_block ho hp p = (st, p1)" by fastforce
  have buf: "buffer_wf p" and heap: "heap_ok hp" using 1 by (auto simp: ng_wf_def)
  note wf1 = read_block_wf [OF b buf heap]
  have table: "table_ok (tsresol_unit (tstamp_precision p1)) (priv p1)"
    using wf1 1(2) by (simp add: ng_wf_def)
  show ?case
  proof (cases st)
    case (Block cur)
    note less = read_block_consumes [OF b [unfolded Block]]
    have count: "countable_file p1 (length (cur_data cur) + 12)"
      using less wf1 1(2) by (simp add: ng_wf_def countable_file_def)
    have wfp1: "ng_wf p1"
      using wf1 Block table count by (auto simp: ng_wf_def countable_file_def)
    show ?thesis
    proof (cases "packet_block ho p1 cur")
      case (Some x)
      then show ?thesis
        using 1(4) b Block wfp1 less read_block_small [OF b [unfolded Block]]
        by (cases x) (auto simp: find_packet.simps [of ho hp p] dest!: packet_block_shorter)
    next
      case None
      obtain o1 p2 where other: "other_block ho hp p1 cur = (o1, p2)" by fastforce
      have wf2: "o1 \<noteq> Stop_crash" "o1 = Go_on \<Longrightarrow> ng_wf p2"
        using other_block_wf [OF other _ table count] wf1 Block by auto
      note same = other_block_rfile [OF other]
      show ?thesis
      proof (cases o1)
        case Go_on
        have "find_packet ho hp p2 = (r, p')"
          using 1(4) b Block None other Go_on by (simp add: find_packet.simps [of ho hp p])
        from 1(1) [OF b [symmetric] Block None other [symmetric] Go_on wf2(2) [OF Go_on] heap this]
        show ?thesis using same less by auto
      qed (use 1(4) b Block None other wf2 in \<open>auto simp: find_packet.simps [of ho hp p]\<close>)
    qed
  next
    case No_block
    then show ?thesis
      using 1(2,4) b wf1 table
      by (auto simp: find_packet.simps [of ho hp p] ng_wf_def countable_file_def)
  qed (use 1(4) b wf1 in \<open>auto simp: find_packet.simps [of ho hp p]\<close>)
qed

section \<open>Time stamps\<close>

lemma unat_widen: "unat (ucast (w :: u32) :: u64) = unat w"
proof -
  have "unat w < 2 ^ 64" using unat32_lt [of w] by simp
  then show ?thesis by (simp add: unsigned_ucast_eq take_bit_nat_eq_self)
qed

lemma unat_div64: "unat ((a :: u64) div b) = unat a div unat b"
  by (simp add: unat_div)

lemma ng_tstamp_nat:
  assumes "iface_ok (tsresol_unit precision) f"
    and "ng_tstamp (tsresol_unit precision) f t = (sec, frac)"
  shows "sec = of_nat (unat t div unat (tsresol f)) + tsoffset f \<and>
    unat frac = unat t mod unat (tsresol f) * unat (tsresol_unit precision) div unat (tsresol f) \<and>
    unat frac < unat (tsresol_unit precision)"
proof -
  let ?u = "tsresol_unit precision"
  let ?r = "ucast (tsresol f) :: u64"
  have r: "unat ?r = unat (tsresol f)" and u: "unat (ucast ?u :: u64) = unat ?u"
    by (rule unat_widen)+
  have unit: "unat ?u \<le> 1000000000" "0 < unat ?u" by (simp_all add: tsresol_unit_def)
  have pos: "0 < unat (tsresol f)" using assms(1) by (simp add: iface_ok_def word_gt_0 unat_gt_0)
  have small: "unat t mod unat (tsresol f) < unat (tsresol f)" using pos by simp
  have "unat t mod unat (tsresol f) * unat ?u < 2 ^ 32 * 2 ^ 30"
    using small unat32_lt [of "tsresol f"] unit by (intro mult_strict_mono') auto
  then have prod: "unat ((t mod ?r) * ucast ?u) = unat t mod unat (tsresol f) * unat ?u"
    using unat_mult_lem [of "t mod ?r" "ucast ?u", THEN iffD1] by (simp add: r u unat_mod_distrib)
  have below: "unat t mod unat (tsresol f) * unat ?u div unat (tsresol f) < unat ?u"
    using small unit(2) pos by (simp add: div_less_iff_less_mult mult.commute)
  have sec: "sec = of_nat (unat t div unat (tsresol f)) + tsoffset f"
  proof -
    have "t div ?r = of_nat (unat (t div ?r))" by simp
    also have "unat (t div ?r) = unat t div unat (tsresol f)" by (simp only: unat_div64 r)
    finally show ?thesis using assms(2) by (simp add: ng_tstamp_def Let_def)
  qed
  show ?thesis
  proof (cases "tsresol f = ?u")
    case True
    then have "frac = t mod ?r" using assms by (simp add: iface_ok_def if_scale_for_def ng_tstamp_def Let_def)
    then have "unat frac = unat t mod unat (tsresol f)" using r by (simp add: unat_mod_distrib)
    then show ?thesis using sec True pos small by simp
  next
    case False
    then have "frac = (t mod ?r) * ucast ?u div ?r"
      using assms by (auto simp: iface_ok_def if_scale_for_def ng_tstamp_def Let_def)
    then have "unat frac = unat t mod unat (tsresol f) * unat ?u div unat (tsresol f)"
      using prod r by (simp add: unat_div64)
    then show ?thesis using sec below by simp
  qed
qed

lemma ng_tstamp_bound:
  "iface_ok (tsresol_unit precision) f \<Longrightarrow> ng_tstamp (tsresol_unit precision) f t = (sec, frac) \<Longrightarrow>
   unat frac < unat (tsresol_unit precision)"
  using ng_tstamp_nat by blast

text \<open>
  C27. Time stamps are converted without overflow: in exact arithmetic the
  seconds are the quotient of the 64-bit count by the interface's resolution (plus its offset),
  and the fraction is the remainder scaled to the user's resolution and rounded down, for every
  count and every interface the table holds. In particular the fraction is always below the
  user's resolution, so it is a proper \<open>tv_usec\<close>.
\<close>

theorem ng_tstamp_exact:
  assumes "iface_ok (tsresol_unit precision) f"
    and "ng_tstamp (tsresol_unit precision) f t = (sec, frac)"
  shows "sec = of_nat (unat t div unat (tsresol f)) + tsoffset f \<and>
    unat frac = unat t mod unat (tsresol f) * unat (tsresol_unit precision) div unat (tsresol f) \<and>
    unat frac < unat (tsresol_unit precision)"
  using assms by (rule ng_tstamp_nat)

theorem ng_tstamp_exact_witness:
  "case ng_tstamp (tsresol_unit 0) \<lparr>tsresol = 1000000000, tsoffset = 0, if_scale = SCALE_DOWN\<rparr> 5000001234
     of (sec, frac) \<Rightarrow> unat frac < 1000000"
proof -
  have "iface_ok (tsresol_unit 0) \<lparr>tsresol = 1000000000, tsoffset = 0, if_scale = SCALE_DOWN\<rparr>"
    by (simp add: iface_ok_def tsresol_unit_def if_scale_for_def PCAP_TSTAMP_PRECISION_MICRO_def)
  from ng_tstamp_exact [OF this] show ?thesis
    by (auto simp: tsresol_unit_def PCAP_TSTAMP_PRECISION_MICRO_def split: prod.split)
qed

section \<open>Any file\<close>

lemma ng_next_wf:
  assumes "ng_wf p" and "heap_ok hp" and "pcap_ng_next_packet ho hp p = (r, p')"
  shows "r \<noteq> Crash \<and> (r = Eof \<longrightarrow> ng_wf p') \<and>
    (\<forall>h d. r = Packet h d \<longrightarrow> ng_wf p' \<and> length d = unat (caplen h) \<and>
      tv_usec h < ucast (user_tsresol (priv p')) \<and>
      length (pending (rfile p')) + 12 \<le> length (pending (rfile p)))"
proof -
  obtain fr q where fr: "find_packet ho hp p = (fr, q)" by fastforce
  note wf = find_packet_wf [OF assms(1,2) fr]
  show ?thesis
  proof (cases fr)
    case (Ng_packet pk cur)
    then have q: "ng_wf q" "length (cur_data cur) < 2 ^ 31"
        "length (pending (rfile q)) + 12 \<le> length (pending (rfile p))"
      using wf by auto
    let ?i = "ng_interface pk"
    show ?thesis
    proof (cases "ifcount (priv q) \<le> ?i")
      case True
      then show ?thesis using assms(3) fr Ng_packet by (auto simp: pcap_ng_next_packet_def)
    next
      case False
      then have i: "unat ?i < unat (ifcount (priv q))" by (simp add: word_less_nat_alt not_le)
      have table: "table_ok (tsresol_unit (tstamp_precision q)) (priv q)"
        using q(1) by (simp add: ng_wf_def)
      then obtain l where l: "ifaces (priv q) = Some l"
        using i by (cases "ifaces (priv q)") (auto simp: table_ok_def)
      obtain f where f: "l ! unat ?i = Some f" "unat ?i < length l"
          "iface_ok (tsresol_unit (tstamp_precision q)) f"
        using table i l by (fastforce simp: table_ok_def)
      have user: "user_tsresol (priv q) = tsresol_unit (tstamp_precision q)"
        using table by (simp add: table_ok_def)
      obtain sec frac where t: "ng_tstamp (tsresol_unit (tstamp_precision q)) f (ng_time pk) = (sec, frac)"
        by fastforce
      have frac: "frac < ucast (user_tsresol (priv q))"
        using ng_tstamp_bound [OF f(3) t] user by (simp add: word_less_nat_alt unat_widen)
      let ?h = "\<lparr>tv_sec = sec, tv_usec = frac, caplen = ng_caplen pk, pkt_len = ng_len pk\<rparr>"
      have res: "r = (if length (cur_data cur) < unat (ng_caplen pk) then
          Failed (Block_too_short (block_type cur))
        else Packet ?h (take (unat (ng_caplen pk)) (if swapped q
          then swap_pseudo_headers (host_order ho) (linktype q) ?h (cur_data cur) else cur_data cur)))"
        "p' = q"
        using assms(3) fr Ng_packet False l f t user
        by (auto simp: pcap_ng_next_packet_def get_from_block_data_def iface_ok_def Let_def
            split: if_splits)
      have "\<not> length (cur_data cur) < unat (ng_caplen pk) \<Longrightarrow>
          length (swap_pseudo_headers (host_order ho) (linktype q) ?h (cur_data cur)) = length (cur_data cur)"
        using q(2) by (intro swap_pseudo_headers_length) auto
      then show ?thesis using res q frac by (auto simp: min_def)
    qed
  qed (use assms(3) fr wf in \<open>auto simp: pcap_ng_next_packet_def\<close>)
qed

text \<open>
  C25. Whatever blocks a pcap-ng file holds, reading a packet is safe from a
  well-formed handle: no null pointer, no entry of the interface table outside the array or
  uninitialised, no division by zero. A packet comes with exactly the captured bytes its header
  announces and with a fraction below the resolution the user asked for; it leaves a well-formed
  handle and at least a block's 12 bytes less to read, and so does the end of the file. (After
  an error the handle need not be well-formed.)
\<close>

theorem ng_next_safe:
  assumes "ng_wf p" and "heap_ok hp" and "pcap_ng_next_packet ho hp p = (r, p')"
  shows "r \<noteq> Crash \<and> (r = Eof \<longrightarrow> ng_wf p') \<and>
    (\<forall>h d. r = Packet h d \<longrightarrow> ng_wf p' \<and> length d = unat (caplen h) \<and>
      tv_usec h < ucast (user_tsresol (priv p')) \<and>
      length (pending (rfile p')) + 12 \<le> length (pending (rfile p)))"
  using assms by (rule ng_next_wf)

definition sample_ng :: "u8 list \<Rightarrow> pcap_ng_sf pcap_t" where
  "sample_ng bs = \<lparr>rfile = \<lparr>pending = bs, broken = False\<rparr>, swapped = False, version_major = 1,
     version_minor = 0, snapshot = 64, linktype = 1, linktype_ext = 0, tzoff = 0,
     tstamp_precision = 0, bufsize = 64, buffer = Some (replicate 64 0),
     priv = \<lparr>user_tsresol = 1000000, ifcount = 1, ifaces_size = 1,
       ifaces = Some [Some \<lparr>tsresol = 1000000, tsoffset = 0, if_scale = PASS_THROUGH\<rparr>]\<rparr>,
     break_loop = False, fcode = None, activated = True\<rparr>"

lemma sample_ng_wf: "length bs < 2 ^ 31 \<Longrightarrow> ng_wf (sample_ng bs)"
  by (simp add: sample_ng_def ng_wf_def buffer_wf_def table_ok_def iface_ok_def countable_file_def
      tsresol_unit_def if_scale_for_def PCAP_TSTAMP_PRECISION_MICRO_def)

text \<open>A Simple Packet Block that is too short for the length it announces.\<close>

theorem ng_next_safe_witness:
  "fst (pcap_ng_next_packet sample_host zero_heap
     (sample_ng [3, 0, 0, 0, 16, 0, 0, 0, 255, 0, 0, 0, 16, 0, 0, 0])) \<noteq> Crash"
proof -
  let ?p = "sample_ng [3, 0, 0, 0, 16, 0, 0, 0, 255, 0, 0, 0, 16, 0, 0, 0]"
  have "ng_wf ?p" by (rule sample_ng_wf) simp
  then show ?thesis
    using ng_next_safe [of ?p zero_heap sample_host] zero_heap_simps(1)
    by (metis prod.collapse)
qed

section \<open>pcap-ng as a source of packets\<close>

lemma grow_buffer_mark: "grow_buffer hp (mark b f p) n = mark b f (grow_buffer hp p n)"
  by (simp add: grow_buffer_def mark_updates)

lemma read_block_mark:
  "read_block ho hp (mark b f p) = map_prod id (mark b f) (read_block ho hp p)"
  by (simp add: read_block_def Let_def mark_updates grow_buffer_mark
      split: prod.split read_status.split option.split)

lemma add_interface_mark:
  "add_interface ho hp (mark b f p) cur = map_prod id (mark b f) (add_interface ho hp p cur)"
  by (simp add: add_interface_def Let_def mark_updates split: sum.split option.split)

lemma other_block_mark:
  "other_block ho hp (mark b f p) cur = map_prod id (mark b f) (other_block ho hp p cur)"
  by (simp add: other_block_def Let_def mark_updates add_interface_mark
      split: sum.split prod.split add_status.split)

lemma packet_block_mark: "packet_block ho (mark b f p) cur = packet_block ho p cur"
  by (simp add: packet_block_def Let_def split: sum.split)

lemma find_packet_mark:
  "find_packet ho hp (mark b f p) = map_prod id (mark b f) (find_packet ho hp p)"
proof (induction ho hp p rule: find_packet.induct)
  case (1 ho hp p)
  obtain st p1 where b: "read_block ho hp p = (st, p1)" by fastforce
  then have bm: "read_block ho hp (mark b f p) = (st, mark b f p1)" by (simp add: read_block_mark)
  note unfold = find_packet.simps [of ho hp p] find_packet.simps [of ho hp "mark b f p"]
  show ?case
  proof (cases st)
    case (Block cur)
    show ?thesis
    proof (cases "packet_block ho p1 cur")
      case None
      obtain o1 p2 where other: "other_block ho hp p1 cur = (o1, p2)" by fastforce
      then have om: "other_block ho hp (mark b f p1) cur = (o1, mark b f p2)"
        by (simp add: other_block_mark)
      show ?thesis
      proof (cases o1)
        case Go_on
        then show ?thesis
          using 1(1) [OF b [symmetric] Block None other [symmetric] Go_on] b bm Block None other om
          by (simp add: unfold packet_block_mark)
      qed (use b bm Block None other om in \<open>simp_all add: unfold packet_block_mark\<close>)
    next
      case (Some x)
      then show ?thesis using b bm Block by (cases x) (auto simp: unfold packet_block_mark)
    qed
  qed (use b bm in \<open>simp_all add: unfold\<close>)
qed

lemma pcap_ng_next_packet_mark:
  "pcap_ng_next_packet ho hp (mark b f p) = map_prod id (mark b f) (pcap_ng_next_packet ho hp p)"
  by (simp add: pcap_ng_next_packet_def find_packet_mark Let_def
      split: prod.split ng_found.split option.split sum.split)

lemma ng_wf_mark [simp]: "ng_wf (mark b f p) = ng_wf p"
  by (simp add: ng_wf_def buffer_wf_def countable_file_def)

interpretation ng: packet_source
  break_loop fcode mark "pcap_ng_next_packet ho hp" "\<lambda>p. heap_ok hp \<and> ng_wf p"
  "\<lambda>p. length (pending (rfile p))" for ho hp
proof
  fix p r p' assume "heap_ok hp \<and> ng_wf p" "pcap_ng_next_packet ho hp p = (r, p')"
  then show "r \<noteq> Crash" using ng_next_wf by blast
next
  fix p h d p' assume "heap_ok hp \<and> ng_wf p" "pcap_ng_next_packet ho hp p = (Packet h d, p')"
  then show "heap_ok hp \<and> ng_wf p'" "length (pending (rfile p')) + 12 \<le> length (pending (rfile p))"
    "length d = unat (caplen h)" using ng_next_wf by blast+
qed (simp_all add: pcap_ng_next_packet_mark map_prod_def)

section \<open>Opening any file\<close>

lemma unat_scast_ge: "unat w \<le> unat (scast (w :: u32) :: u64)"
proof -
  have w: "ucast (scast w :: u64) = w" by (rule bit_word_eqI) (auto simp: bit_simps)
  have "unat (ucast (scast w :: u64) :: u32) = take_bit 32 (unat (scast w :: u64))"
    by (simp add: unsigned_ucast_eq)
  then have "unat w = take_bit 32 (unat (scast w :: u64))" by (simp only: w)
  then show ?thesis by (simp only: take_bit_nat_less_eq_self)
qed

lemma find_idb_wf:
  assumes "ng_wf p" and "heap_ok hp"
  shows "find_idb ho hp p \<noteq> Idb_crash \<and>
    (\<forall>lt snap q. find_idb ho hp p = First_idb lt snap q \<longrightarrow> ng_wf q \<and>
      length (pending (rfile q)) \<le> length (pending (rfile p)))"
  using assms
proof (induction ho hp p rule: find_idb.induct)
  case (1 ho hp p)
  obtain st p1 where b: "read_block ho hp p = (st, p1)" by fastforce
  have buf: "buffer_wf p" and heap: "heap_ok hp" using 1 by (auto simp: ng_wf_def)
  note wf1 = read_block_wf [OF b buf heap]
  show ?case
  proof (cases st)
    case (Block cur)
    note less = read_block_consumes [OF b [unfolded Block]]
    have table: "table_ok (tsresol_unit (tstamp_precision p1)) (priv p1)"
      using wf1 1(2) by (simp add: ng_wf_def)
    have count: "countable_file p1 (length (cur_data cur) + 12)"
      using less wf1 1(2) by (simp add: ng_wf_def countable_file_def)
    have wfp1: "ng_wf p1" using wf1 Block table count by (auto simp: ng_wf_def countable_file_def)
    note unfold = find_idb.simps [of ho hp p]
    show ?thesis
    proof (cases "block_type cur = BT_IDB")
      case True
      obtain a q where a: "add_interface ho hp p1 (cur\<lparr>cur_data := drop 8 (cur_data cur)\<rparr>) = (a, q)"
        by fastforce
      have "8 \<le> length (cur_data cur) \<longrightarrow> a \<noteq> Add_crash \<and> (a = Added \<longrightarrow> ng_wf q) \<and> rfile q = rfile p1"
        using add_interface_table [OF a table ng_wf_ifcount [OF wfp1]] add_interface_same [OF a]
          wfp1 count
        by (auto simp: ng_wf_def buffer_wf_def countable_file_def)
      then show ?thesis
        using b Block True a less by (cases a) (auto simp: unfold get_from_block_data_def)
    next
      case other: False
      show ?thesis
      proof (cases "block_type cur = BT_EPB \<or> block_type cur = BT_SPB \<or> block_type cur = BT_PB")
        case True
        then show ?thesis using b Block other by (auto simp: unfold)
      next
        case False
        then have eq: "find_idb ho hp p = find_idb ho hp p1" using b Block other by (simp add: unfold)
        have "length (pending (rfile p1)) \<le> length (pending (rfile p))" using less by simp
        then show ?thesis
          using 1(1) [OF b [symmetric] Block other False wfp1 heap]
          unfolding eq by (blast intro: order_trans)
      qed
    qed
  qed (use b wf1 in \<open>auto simp: find_idb.simps [of ho hp p]\<close>)
qed

lemma ng_open_wf:
  assumes "heap_ok hp" and "length (pending fp) < 20 * 2 ^ 31" and "12 \<le> unat tlen"
  shows "ng_open ho hp precision swp tlen fp \<noteq> Check_crash \<and>
    (\<forall>p. ng_open ho hp precision swp tlen fp = Opened p \<longrightarrow> ng_wf p \<and>
      length (pending (rfile p)) \<le> length (pending fp))"
proof -
  let ?bsize = "if 2048 < tlen then tlen else 2048"
  obtain st bs fp' where r: "read_bytes (unat tlen - 12) True fp = (st, bs, fp')"
    by (metis prod_cases3)
  have fp': "length (pending fp') \<le> length (pending fp)"
    using r by (auto simp: read_bytes_def fread_bytes_def)
  let ?init = "\<lambda>p bo buf ma mi. p\<lparr>rfile := fp', swapped := swp, bufsize := ?bsize,
    buffer := Some (put_bytes 0 (encode_word bo 4 BT_SHB @ encode_word bo 4 tlen @
      encode_word bo 4 BYTE_ORDER_MAGIC @ bs) buf), tstamp_precision := precision,
    version_major := ma, version_minor := mi,
    priv := zero_ng\<lparr>user_tsresol := if precision = PCAP_TSTAMP_PRECISION_MICRO then 1000000
      else 1000000000\<rparr>\<rparr>"
  have wf: "ng_wf (?init p bo buf ma mi)"
    if "malloc hp (unat (scast ?bsize :: u64)) = Some buf" for p bo buf ma mi
  proof -
    have buf: "unat ?bsize \<le> length buf"
      using heap_ok_length [OF assms(1) that] unat_scast_ge by simp
    moreover have "unat tlen \<le> unat ?bsize" by (simp add: word_less_nat_alt not_less)
    ultimately have "12 + length bs \<le> length buf"
      using read_bytes_length [OF r] assms(3) by linarith
    then have "length (put_bytes 0 (encode_word bo 4 BT_SHB @ encode_word bo 4 tlen @
        encode_word bo 4 BYTE_ORDER_MAGIC @ bs) buf) = length buf" by (intro length_put_bytes) simp
    then show ?thesis
      using buf fp' assms(2)
      by (simp add: ng_wf_def buffer_wf_def table_ok_def countable_file_def zero_ng_def
          tsresol_unit_def)
  qed
  show ?thesis
  proof (cases "\<exists>buf p. malloc hp (unat (scast ?bsize :: u64)) = Some buf \<and>
      pcap_open_offline_common hp zero_ng fp = Some p")
    case False
    then show ?thesis by (auto simp: ng_open_def Let_def split: option.splits)
  next
    case True
    then obtain buf p where buf: "malloc hp (unat (scast ?bsize :: u64)) = Some buf"
      and p: "pcap_open_offline_common hp zero_ng fp = Some p" by blast
    let ?p = "?init p (host_order ho) buf (fix16 swp (field (host_order ho) 0 2 bs))
      (fix16 swp (field (host_order ho) 2 2 bs))"
    have "find_idb ho hp ?p \<noteq> Idb_crash \<and> (\<forall>lt snap q. find_idb ho hp ?p = First_idb lt snap q \<longrightarrow>
        ng_wf q \<and> length (pending (rfile q)) \<le> length (pending (rfile ?p)))"
      by (rule find_idb_wf [OF _ assms(1)]) (rule wf [OF buf])
    then have idb: "find_idb ho hp ?p \<noteq> Idb_crash"
      "find_idb ho hp ?p = First_idb lt snap q \<Longrightarrow> ng_wf q \<and> length (pending (rfile q)) \<le> length (pending fp)"
      for lt snap q
      using fp' by fastforce+
    have keep: "ng_wf q \<Longrightarrow> ng_wf (q\<lparr>tzoff := 0, snapshot := snap, linktype := lt, linktype_ext := 0\<rparr>)"
      for q snap lt by (simp add: ng_wf_def buffer_wf_def countable_file_def)
    obtain F where F: "find_idb ho hp ?p = F" by blast
    have eq: "ng_open ho hp precision swp tlen fp =
      (if precision \<noteq> PCAP_TSTAMP_PRECISION_MICRO \<and> precision \<noteq> PCAP_TSTAMP_PRECISION_NANO
       then Rejected (Unknown_tstamp_resolution precision)
       else (case st of Read_failed e \<Rightarrow> Rejected e
         | _ \<Rightarrow> if fix16 swp (field (host_order ho) 0 2 bs) \<noteq> PCAP_NG_VERSION_MAJOR
           then Rejected (Unknown_major_version (fix16 swp (field (host_order ho) 0 2 bs)))
           else (case F of Idb_failed e \<Rightarrow> Rejected e | Idb_crash \<Rightarrow> Check_crash
             | First_idb lt snap p \<Rightarrow> Opened (p\<lparr>tzoff := 0, snapshot := snap,
                 linktype := linktype_to_dlt (host_os ho) (uint lt), linktype_ext := 0\<rparr>))))"
      unfolding ng_open_def Let_def p option.case buf r prod.case F by (rule refl)
    show ?thesis
      unfolding eq using idb [unfolded F] keep by (cases F; cases st) auto
  qed
qed

lemma ng_check_header_wf:
  assumes "heap_ok hp" and "length (pending fp) < 20 * 2 ^ 31"
  shows "pcap_ng_check_header ho hp magic fp precision \<noteq> Check_crash \<and>
    (\<forall>p. pcap_ng_check_header ho hp magic fp precision = Opened p \<longrightarrow> ng_wf p)"
proof -
  have "ng_open ho hp precision swp tlen (s\<lparr>pending := drop n (pending s)\<rparr>) \<noteq> Check_crash \<and>
    (\<forall>p. ng_open ho hp precision swp tlen (s\<lparr>pending := drop n (pending s)\<rparr>) = Opened p \<longrightarrow> ng_wf p)"
    if "length (pending s) < 20 * 2 ^ 31" and "\<not> tlen < 28" for swp tlen s n
  proof -
    have "length (pending (s\<lparr>pending := drop n (pending s)\<rparr>)) < 20 * 2 ^ 31" using that(1) by simp
    moreover have "12 \<le> unat tlen" using that(2) by (simp add: word_less_nat_alt)
    ultimately show ?thesis using ng_open_wf [OF assms(1)] by blast
  qed
  note safe = this [of "fp\<lparr>pending := drop 4 (pending fp)\<rparr>"]
  show ?thesis
    using assms(2) safe [of _ _ 4]
    by (auto simp: pcap_ng_check_header_def fread_bytes_def Let_def)
qed

text \<open>
  Opening any file of less than 40 GB as pcap-ng is safe too, and a
  handle that \<open>pcap_ng_check_header\<close> returns is well-formed in the sense reading relies on,
  whatever the file claims as its block lengths, options and numbers of interfaces.
\<close>

theorem ng_check_header_safe:
  assumes "heap_ok hp" and "length (pending fp) < 20 * 2 ^ 31"
  shows "pcap_ng_check_header ho hp magic fp precision \<noteq> Check_crash \<and>
    (\<forall>p. pcap_ng_check_header ho hp magic fp precision = Opened p \<longrightarrow> ng_wf p)"
  using assms by (rule ng_check_header_wf)

theorem ng_check_header_safe_witness:
  "pcap_ng_check_header sample_host zero_heap 0x0A0D0D0A
     \<lparr>pending = [28, 0, 0, 0, 0x4D, 0x3C, 0x2B, 0x1A, 1, 0, 0, 0], broken = False\<rparr> 0 \<noteq> Check_crash"
  by (rule ng_check_header_safe [THEN conjunct1]) simp_all

end
