(* ===== verification/Ng_Reading.thy ===== *)
theory Ng_Reading
  imports Ng_Safety
begin

text \<open>
  The pcap-ng format as a writer produces it, block by block in the byte order of its host, and
  what the reader makes of it; and two ways in which reading goes wrong.
\<close>

section \<open>Images of blocks\<close>

definition block_image :: "byte_order \<Rightarrow> u32 \<Rightarrow> u8 list \<Rightarrow> u8 list" where
  "block_image w typ body = encode_word w 4 typ @ encode_word w 4 (of_nat (12 + length body) :: u32) @
     body @ encode_word w 4 (of_nat (12 + length body) :: u32)"

definition shb_image :: "byte_order \<Rightarrow> u16 \<Rightarrow> u64 \<Rightarrow> u8 list" where
  "shb_image w minor seclen = block_image w BT_SHB
     (encode_word w 4 BYTE_ORDER_MAGIC @ encode_word w 2 PCAP_NG_VERSION_MAJOR @
      encode_word w 2 minor @ encode_word w 8 seclen)"

definition idb_image :: "byte_order \<Rightarrow> u16 \<Rightarrow> u32 \<Rightarrow> u8 list \<Rightarrow> u8 list" where
  "idb_image w lt snap opts = block_image w BT_IDB
     (encode_word w 2 lt @ encode_word w 2 (0 :: u16) @ encode_word w 4 snap @ opts)"

text \<open>The option that states the resolution, padded, and the end of the options.\<close>

definition tsresol_option :: "byte_order \<Rightarrow> u8 \<Rightarrow> u8 list" where
  "tsresol_option w r = encode_word w 2 IF_TSRESOL @ encode_word w 2 (1 :: u16) @ [r, 0, 0, 0] @
     encode_word w 2 OPT_ENDOFOPT @ encode_word w 2 (0 :: u16)"

definition epb_image ::
  "byte_order \<Rightarrow> u32 \<Rightarrow> u64 \<Rightarrow> u32 \<Rightarrow> u32 \<Rightarrow> u8 list \<Rightarrow> u8 list" where
  "epb_image w i t cap ln content = block_image w BT_EPB
     (encode_word w 4 i @ encode_word w 4 (ucast (drop_bit 32 t) :: u32) @
      encode_word w 4 (ucast t :: u32) @ encode_word w 4 cap @ encode_word w 4 ln @ content)"

lemma length_block_image [simp]: "length (block_image w typ body) = 12 + length body"
  by (simp add: block_image_def)

lemma timestamp_of_halves: "timestamp_of (ucast (drop_bit 32 t)) (ucast t) = t"
  by (rule bit_word_eqI) (auto simp: timestamp_of_def bit_simps)

section \<open>Reading a block\<close>

definition fits_buffer :: "pcap_ng_sf pcap_t \<Rightarrow> u8 list \<Rightarrow> bool" where
  "fits_buffer p body \<longleftrightarrow> 12 + length body \<le> unat (bufsize p) \<and> 12 + length body \<le> 16777216"

lemma read_block_image:
  assumes "buffer_wf p" and "swapped p = (host_order ho \<noteq> w)" and "fits_buffer p body"
    and "pending (rfile p) = block_image w typ body @ rest"
  shows "\<exists>buf. read_block ho hp p = (Block \<lparr>cur_data = body, block_type = typ\<rparr>,
    p\<lparr>rfile := (rfile p)\<lparr>pending := rest\<rparr>, buffer := Some buf\<rparr>) \<and> unat (bufsize p) \<le> length buf"
proof -
  obtain b where b: "buffer p = Some b" "unat (bufsize p) \<le> length b"
    using assms(1) by (auto simp: buffer_wf_def)
  define m :: u32 where "m = of_nat (12 + length body)"
  have image: "block_image w typ body = encode_word w 4 typ @ encode_word w 4 m @ body @ encode_word w 4 m"
    by (simp only: block_image_def m_def)
  let ?bs = "encode_word w 4 typ @ encode_word w 4 m"
  let ?bs2 = "body @ encode_word w 4 m"
  have n: "unat m = 12 + length body"
    unfolding m_def using assms(3) by (intro unat32_of_nat) (simp add: fits_buffer_def)
  have "fread_bytes 8 (rfile p) = (?bs, (rfile p)\<lparr>pending := ?bs2 @ rest\<rparr>)"
    using assms(4) by (intro fread_bytes_enough) (simp_all add: image)
  then have r1: "read_bytes 8 False (rfile p) = (Read_ok, ?bs, (rfile p)\<lparr>pending := ?bs2 @ rest\<rparr>)"
    by (simp add: read_bytes_def)
  have "fread_bytes (4 + length body) ((rfile p)\<lparr>pending := body @ encode_word w 4 m @ rest\<rparr>) =
      (?bs2, (rfile p)\<lparr>pending := rest\<rparr>)"
    by (intro trans [OF fread_bytes_enough]) simp_all
  then have r2: "read_bytes (4 + length body) True
      ((rfile p)\<lparr>pending := body @ encode_word w 4 m @ rest\<rparr>) =
      (Read_ok, ?bs2, (rfile p)\<lparr>pending := rest\<rparr>)"
    by (simp add: read_bytes_def)
  have f: "fix32 (swapped p) (field (host_order ho) 0 4 ?bs) = typ"
    "fix32 (swapped p) (field (host_order ho) 4 4 ?bs) = m"
    unfolding assms(2) by (simp_all add: field_here field_later field_end fix_encoded)
  have size: "\<not> 16 * 1024 * 1024 < m" "\<not> m < 12" "\<not> bufsize p < m"
    using n assms(3) by (simp_all add: word_less_nat_alt fits_buffer_def)
  let ?buf = "put_bytes 0 (encode_word (host_order ho) 4 typ @ encode_word (host_order ho) 4 m @ ?bs2) b"
  have "read_block ho hp p = (Block \<lparr>cur_data = body, block_type = typ\<rparr>,
    p\<lparr>rfile := (rfile p)\<lparr>pending := rest\<rparr>, buffer := Some ?buf\<rparr>)"
    unfolding read_block_def r1 prod.case Let_def
    using size b by (simp add: f n r2 not_grown)
  moreover have "length ?buf = length b"
    using assms(3) b(2) by (intro length_put_bytes) (simp add: fits_buffer_def)
  ultimately show ?thesis using b(2) by auto
qed

section \<open>Packets\<close>

text \<open>Blocks of other types, which a reader is to skip.\<close>

definition skippable :: "pcap_ng_sf pcap_t \<Rightarrow> u32 \<times> u8 list \<Rightarrow> bool" where
  "skippable p b \<longleftrightarrow> fst b \<notin> {BT_SHB, BT_IDB, BT_PB, BT_SPB, BT_EPB} \<and> fits_buffer p (snd b)"

definition skipped_image :: "byte_order \<Rightarrow> (u32 \<times> u8 list) list \<Rightarrow> u8 list" where
  "skipped_image w bs = concat (map (\<lambda>(typ, body). block_image w typ body) bs)"

definition epb_body :: "byte_order \<Rightarrow> u32 \<Rightarrow> u64 \<Rightarrow> u32 \<Rightarrow> u32 \<Rightarrow> u8 list" where
  "epb_body w i t cap ln = encode_word w 4 i @ encode_word w 4 (ucast (drop_bit 32 t) :: u32) @
     encode_word w 4 (ucast t :: u32) @ encode_word w 4 cap @ encode_word w 4 ln"

lemma length_epb_body [simp]: "length (epb_body w i t cap ln) = 20"
  by (simp add: epb_body_def)

lemma epb_image_body: "epb_image w i t cap ln content = block_image w BT_EPB (epb_body w i t cap ln @ content)"
  by (simp add: epb_image_def epb_body_def)

lemma epb_packet_body:
  "epb_packet ho (host_order ho \<noteq> w) (epb_body w i t cap ln) =
     \<lparr>ng_interface = i, ng_caplen = cap, ng_len = ln, ng_time = t\<rparr>"
  by (simp add: epb_packet_def epb_body_def Let_def field_here field_later field_end fix_encoded
      timestamp_of_halves)


lemma find_packet_epb:
  assumes "buffer_wf p" and "swapped p = (host_order ho \<noteq> w)"
    and "fits_buffer p (epb_body w i t cap ln @ content)"
    and "pending (rfile p) = epb_image w i t cap ln content @ rest"
  shows "\<exists>buf. find_packet ho hp p =
    (Ng_packet \<lparr>ng_interface = i, ng_caplen = cap, ng_len = ln, ng_time = t\<rparr>
        \<lparr>cur_data = content, block_type = BT_EPB\<rparr>,
      p\<lparr>rfile := (rfile p)\<lparr>pending := rest\<rparr>, buffer := Some buf\<rparr>)"
proof -
  obtain buf where rb: "read_block ho hp p =
      (Block \<lparr>cur_data = epb_body w i t cap ln @ content, block_type = BT_EPB\<rparr>,
       p\<lparr>rfile := (rfile p)\<lparr>pending := rest\<rparr>, buffer := Some buf\<rparr>)"
    using read_block_image [OF assms(1-3)] assms(4) unfolding epb_image_body by blast
  show ?thesis
    by (rule exI [of _ buf], subst find_packet.simps)
      (simp add: rb packet_block_def get_from_block_data_def Let_def epb_packet_body assms(2))
qed




section \<open>The head of a file\<close>

definition option_bytes :: "byte_order \<Rightarrow> u8 option \<Rightarrow> u8 list" where
  "option_bytes w r = (case r of None \<Rightarrow> [] | Some r \<Rightarrow> tsresol_option w r)"

definition option_resol :: "host \<Rightarrow> u8 option \<Rightarrow> u32" where
  "option_resol ho r = (case r of None \<Rightarrow> 1000000 | Some r \<Rightarrow> tsresol_of ho r)"

lemma length_option_bytes: "length (option_bytes w r) \<le> 12"
  by (simp add: option_bytes_def tsresol_option_def split: option.split)

lemma process_option_bytes:
  assumes "option_resol ho r \<noteq> 0"
  shows "process_idb_options ho (host_order ho \<noteq> w) \<lparr>cur_data = option_bytes w r, block_type = BT_IDB\<rparr>
    1000000 0 False False = Inr (option_resol ho r, 0)"
proof (cases r)
  case None
  then show ?thesis by (simp add: process_idb_options.simps option_bytes_def option_resol_def)
next
  case (Some x)
  have opt: "option_bytes w r = encode_word w 2 IF_TSRESOL @ encode_word w 2 (1 :: u16) @ [x, 0, 0, 0] @
     encode_word w 2 OPT_ENDOFOPT @ encode_word w 2 (0 :: u16)"
    using Some by (simp add: option_bytes_def tsresol_option_def)
  have res: "option_resol ho r = tsresol_of ho x" using Some by (simp add: option_resol_def)
  let ?final = "encode_word w 2 OPT_ENDOFOPT @ encode_word w 2 (0 :: u16)"
  have last: "process_idb_options ho (host_order ho \<noteq> w) \<lparr>cur_data = ?final, block_type = BT_IDB\<rparr>
    q 0 True False = Inr (q, 0)" for q
    by (subst process_idb_options.simps)
      (simp add: get_opthdr_from_block_data_def get_optvalue_from_block_data_def
        get_from_block_data_def field_here field_later field_end fix_encoded
        length_0_conv [symmetric] del: length_0_conv)
  show ?thesis
    unfolding opt res
    using assms unfolding res
    by (subst process_idb_options.simps)
      (simp add: get_opthdr_from_block_data_def get_optvalue_from_block_data_def
        get_from_block_data_def field_here field_later field_end fix_encoded last
        length_0_conv [symmetric] del: length_0_conv)
qed

lemma add_interface_first:
  assumes "ifcount (priv p) = 0" and "ifaces_size (priv p) = 0" and "ifaces (priv p) = None"
    and "malloc hp 24 \<noteq> None" and "process_idb_options ho (swapped p) cur 1000000 0 False False = Inr (r, off)"
  shows "add_interface ho hp p cur = (Added, p\<lparr>priv := \<lparr>user_tsresol = user_tsresol (priv p), ifcount = 1,
    ifaces_size = 1, ifaces = Some [Some \<lparr>tsresol = r, tsoffset = off,
      if_scale = if_scale_for (tsresol_unit (tstamp_precision p)) r\<rparr>]\<rparr>\<rparr>)"
  using assms
  by (cases "priv p") (auto simp: add_interface_def grow_ifaces_def Let_def tsresol_unit_def)

lemma find_idb_image:
  assumes "buffer_wf p" and "swapped p = (host_order ho \<noteq> w)"
    and "\<forall>b\<in>set bs. skippable p b" and "24 \<le> unat (bufsize p)" and "2048 \<le> unat (bufsize p)"
    and "pending (rfile p) = skipped_image w bs @ idb_image w lt snap (option_bytes w r) @ rest"
    and "ifcount (priv p) = 0" and "ifaces_size (priv p) = 0" and "ifaces (priv p) = None"
    and "malloc hp 24 \<noteq> None" and "option_resol ho r \<noteq> 0"
  shows "\<exists>buf. find_idb ho hp p = First_idb lt snap (p\<lparr>rfile := (rfile p)\<lparr>pending := rest\<rparr>, buffer := Some buf,
    priv := \<lparr>user_tsresol = user_tsresol (priv p), ifcount = 1,
      ifaces_size = 1, ifaces = Some [Some \<lparr>tsresol = option_resol ho r, tsoffset = 0,
      if_scale = if_scale_for (tsresol_unit (tstamp_precision p)) (option_resol ho r)\<rparr>]\<rparr>\<rparr>)"
  using assms
proof (induction bs arbitrary: p)
  case Nil
  let ?body = "encode_word w 2 lt @ encode_word w 2 (0 :: u16) @ encode_word w 4 snap @ option_bytes w r"
  have "fits_buffer p ?body"
    using Nil.prems(5) length_option_bytes [of w r] by (simp add: fits_buffer_def)
  then obtain buf where rb: "read_block ho hp p = (Block \<lparr>cur_data = ?body, block_type = BT_IDB\<rparr>,
      p\<lparr>rfile := (rfile p)\<lparr>pending := rest\<rparr>, buffer := Some buf\<rparr>)"
    using read_block_image [OF Nil.prems(1,2), of ?body BT_IDB rest hp] Nil.prems(6)
    by (auto simp: skipped_image_def idb_image_def)
  let ?p = "p\<lparr>rfile := (rfile p)\<lparr>pending := rest\<rparr>, buffer := Some buf\<rparr>"
  have "add_interface ho hp ?p \<lparr>cur_data = option_bytes w r, block_type = BT_IDB\<rparr> = (Added, 
     ?p\<lparr>priv := \<lparr>user_tsresol = user_tsresol (priv ?p), ifcount = 1,
    ifaces_size = 1, ifaces = Some [Some \<lparr>tsresol = option_resol ho r, tsoffset = 0,
      if_scale = if_scale_for (tsresol_unit (tstamp_precision ?p)) (option_resol ho r)\<rparr>]\<rparr>\<rparr>)"
    using Nil.prems process_option_bytes [of ho r w] by (intro add_interface_first) simp_all
  then show ?case
    by (intro exI [of _ buf], subst find_idb.simps)
      (simp add: rb get_from_block_data_def field_here field_later field_end fix_encoded Nil.prems(2))
next
  case (Cons b bs)
  obtain ty body where b: "b = (ty, body)" by (cases b)
  have skip: "ty \<notin> {BT_SHB, BT_IDB, BT_PB, BT_SPB, BT_EPB}" "fits_buffer p body"
    using Cons.prems(3) b by (simp_all add: skippable_def)
  let ?rest = "skipped_image w bs @ idb_image w lt snap (option_bytes w r) @ rest"
  obtain buf where rb: "read_block ho hp p = (Block \<lparr>cur_data = body, block_type = ty\<rparr>,
      p\<lparr>rfile := (rfile p)\<lparr>pending := ?rest\<rparr>, buffer := Some buf\<rparr>)"
      "unat (bufsize p) \<le> length buf"
    using read_block_image [OF Cons.prems(1,2) skip(2), of ty ?rest hp]
      Cons.prems(6) b by (auto simp: skipped_image_def)
  let ?p = "p\<lparr>rfile := (rfile p)\<lparr>pending := ?rest\<rparr>, buffer := Some buf\<rparr>"
  have "find_idb ho hp p = find_idb ho hp ?p"
    by (subst find_idb.simps) (use skip(1) in \<open>simp add: rb\<close>)
  moreover have "\<exists>buf'. find_idb ho hp ?p = First_idb lt snap (?p\<lparr>rfile := (rfile ?p)\<lparr>pending := rest\<rparr>,
    buffer := Some buf', priv := \<lparr>user_tsresol = user_tsresol (priv ?p), ifcount = 1,
      ifaces_size = 1, ifaces = Some [Some \<lparr>tsresol = option_resol ho r, tsoffset = 0,
      if_scale = if_scale_for (tsresol_unit (tstamp_precision ?p)) (option_resol ho r)\<rparr>]\<rparr>\<rparr>)"
    using Cons.prems rb(2)
    by (intro Cons.IH) (auto simp: buffer_wf_def skippable_def fits_buffer_def)
  ultimately show ?case by simp
qed

definition new_handle :: "heap \<Rightarrow> bool" where
  "new_handle hp \<longleftrightarrow> new_pcap hp \<and> dup_source hp \<and> malloc hp 24 \<noteq> None \<and> malloc hp 2048 \<noteq> None"

definition small_blocks :: "(u32 \<times> u8 list) list \<Rightarrow> bool" where
  "small_blocks bs \<longleftrightarrow> (\<forall>(ty, body)\<in>set bs. ty \<notin> {BT_SHB, BT_IDB, BT_PB, BT_SPB, BT_EPB} \<and>
     12 + length body \<le> 2048)"

definition ng_head_image ::
  "byte_order \<Rightarrow> u16 \<Rightarrow> u64 \<Rightarrow> (u32 \<times> u8 list) list \<Rightarrow> u16 \<Rightarrow> u32 \<Rightarrow> u8 option \<Rightarrow> u8 list" where
  "ng_head_image w minor seclen bs lt snap r =
     shb_image w minor seclen @ skipped_image w bs @ idb_image w lt snap (option_bytes w r)"

lemma magic_not_swapped: "SWAPLONG BYTE_ORDER_MAGIC \<noteq> BYTE_ORDER_MAGIC"
  by (simp add: SWAPLONG_def BYTE_ORDER_MAGIC_def) 

lemma ng_check_header_reaches:
  assumes "pending fp = drop 4 (shb_image w minor seclen) @ rest"
  shows "pcap_ng_check_header ho hp BT_SHB fp precision = ng_open ho hp precision (host_order ho \<noteq> w) 28
    (fp\<lparr>pending := encode_word w 2 PCAP_NG_VERSION_MAJOR @ encode_word w 2 minor @
      encode_word w 8 seclen @ encode_word w 4 (28 :: u32) @ rest\<rparr>)"
proof -
  let ?r2 = "encode_word w 2 PCAP_NG_VERSION_MAJOR @ encode_word w 2 minor @
      encode_word w 8 seclen @ encode_word w 4 (28 :: u32) @ rest"
  let ?r1 = "encode_word w 4 BYTE_ORDER_MAGIC @ ?r2"
  have img: "pending fp = encode_word w 4 (28 :: u32) @ ?r1"
    using assms by (simp add: shb_image_def block_image_def)
  have f1: "fread_bytes 4 fp = (encode_word w 4 (28 :: u32), fp\<lparr>pending := ?r1\<rparr>)"
    by (rule fread_bytes_enough) (simp_all add: img)
  have f2: "fread_bytes 4 (fp\<lparr>pending := ?r1\<rparr>) = (encode_word w 4 BYTE_ORDER_MAGIC, fp\<lparr>pending := ?r2\<rparr>)"
    using fread_bytes_enough [of "encode_word w 4 BYTE_ORDER_MAGIC" 4 "fp\<lparr>pending := ?r1\<rparr>" ?r2] by simp
  have mag: "(decode_word (host_order ho) (encode_word w 4 BYTE_ORDER_MAGIC) \<noteq> BYTE_ORDER_MAGIC) =
      (host_order ho \<noteq> w)"
    "host_order ho \<noteq> w \<Longrightarrow> SWAPLONG (decode_word (host_order ho) (encode_word w 4 BYTE_ORDER_MAGIC)) = BYTE_ORDER_MAGIC"
    using fix_encoded(2) [of "host_order ho" w BYTE_ORDER_MAGIC] magic_not_swapped
    by (auto simp: fix32_def decode_encode_word long.swap_swap split: if_splits)
  show ?thesis
    unfolding pcap_ng_check_header_def f1 prod.case f2
    using mag by (auto simp: Let_def fix_encoded)
qed

lemma ng_open_image:
  assumes "new_handle hp" and "heap_ok hp"
    and "precision = PCAP_TSTAMP_PRECISION_MICRO \<or> precision = PCAP_TSTAMP_PRECISION_NANO"
    and "small_blocks bs" and "option_resol ho r \<noteq> 0"
    and "pending fp = encode_word w 2 PCAP_NG_VERSION_MAJOR @ encode_word w 2 minor @
      encode_word w 8 seclen @ encode_word w 4 (28 :: u32) @ skipped_image w bs @
      idb_image w lt snap (option_bytes w r) @ rest"
  shows "\<exists>p. ng_open ho hp precision (host_order ho \<noteq> w) 28 fp = Opened p \<and>
    rfile p = fp\<lparr>pending := rest\<rparr> \<and> swapped p = (host_order ho \<noteq> w) \<and> bufsize p = 2048 \<and>
    linktype p = linktype_to_dlt (host_os ho) (uint lt) \<and> snapshot p = snap \<and>
    tstamp_precision p = precision \<and> version_minor p = minor \<and>
    priv p = \<lparr>user_tsresol = tsresol_unit precision, ifcount = 1, ifaces_size = 1,
      ifaces = Some [Some \<lparr>tsresol = option_resol ho r, tsoffset = 0,
        if_scale = if_scale_for (tsresol_unit precision) (option_resol ho r)\<rparr>]\<rparr>"
proof -
  obtain p0 where p0: "pcap_open_offline_common hp zero_ng fp = Some p0"
    using assms(1) by (simp add: pcap_open_offline_common_def new_handle_def)
  obtain buf where buf: "malloc hp 2048 = Some buf" using assms(1) by (auto simp: new_handle_def)
  note len = heap_ok_length [OF assms(2) buf]
  let ?bs = "encode_word w 2 PCAP_NG_VERSION_MAJOR @ encode_word w 2 minor @
      encode_word w 8 seclen @ encode_word w 4 (28 :: u32)"
  let ?fp = "fp\<lparr>pending := skipped_image w bs @ idb_image w lt snap (option_bytes w r) @ rest\<rparr>"
  have "fread_bytes 16 fp = (?bs, ?fp)"
    by (rule fread_bytes_enough) (simp_all add: assms(6))
  then have r: "read_bytes 16 True fp = (Read_ok, ?bs, ?fp)" by (simp add: read_bytes_def)
  have ver: "fix16 (host_order ho \<noteq> w) (field (host_order ho) 0 2 ?bs) = PCAP_NG_VERSION_MAJOR"
    "fix16 (host_order ho \<noteq> w) (field (host_order ho) 2 2 ?bs) = minor"
    by (simp_all add: field_here field_later field_end fix_encoded)
  define buf' where "buf' = put_bytes 0 (encode_word (host_order ho) 4 BT_SHB @ encode_word (host_order ho) 4 (28::u32) @
                                 encode_word (host_order ho) 4 BYTE_ORDER_MAGIC @ ?bs) buf"
  let ?p = "p0\<lparr>rfile := ?fp, swapped := host_order ho \<noteq> w, bufsize := 2048, buffer := Some buf',
    tstamp_precision := precision, version_major := PCAP_NG_VERSION_MAJOR, version_minor := minor,
    priv := zero_ng\<lparr>user_tsresol := tsresol_unit precision\<rparr>\<rparr>"
  have "length buf' = length buf" unfolding buf'_def by (rule length_put_bytes) (simp add: len)
  then have "buffer_wf ?p" by (simp add: buffer_wf_def len)
  moreover have "\<forall>b\<in>set bs. skippable ?p b"
    using assms(4) by (auto simp: small_blocks_def skippable_def fits_buffer_def)
  ultimately obtain b where idb: "find_idb ho hp ?p = First_idb lt snap (?p\<lparr>rfile := (rfile ?p)\<lparr>pending := rest\<rparr>, buffer := Some b,
    priv := \<lparr>user_tsresol = user_tsresol (priv ?p), ifcount = 1,
      ifaces_size = 1, ifaces = Some [Some \<lparr>tsresol = option_resol ho r, tsoffset = 0,
      if_scale = if_scale_for (tsresol_unit (tstamp_precision ?p)) (option_resol ho r)\<rparr>]\<rparr>\<rparr>)"
    using find_idb_image [of ?p ho w bs lt snap r rest hp] assms(1,5)
    by (auto simp: zero_ng_def new_handle_def)
  have size: "(if 2048 < (28::u32) then 28 else 2048) = (2048 :: u32)"
    "unat (scast (2048 :: u32) :: u64) = 2048" "unat (28 :: u32) - 12 = 16"
    by simp_all
  have goal: "ng_open ho hp precision (host_order ho \<noteq> w) 28 fp =
    (case find_idb ho hp ?p of Idb_failed e \<Rightarrow> Rejected e | Idb_crash \<Rightarrow> Check_crash
     | First_idb lt snap p \<Rightarrow> Opened (p\<lparr>tzoff := 0, snapshot := snap,
          linktype := linktype_to_dlt (host_os ho) (uint lt), linktype_ext := 0\<rparr>))"
    unfolding ng_open_def Let_def size p0 option.case buf prod.case r ver read_status.case
    using assms(3) by (auto simp: tsresol_unit_def buf'_def)
  show ?thesis unfolding goal idb idb_result.case by (rule exI, rule conjI, rule refl) simp
qed

lemma magic_either_order: "decode_word bo (encode_word w 4 BT_SHB) = BT_SHB"
proof -
  have "SWAPLONG BT_SHB = BT_SHB" by (simp add: SWAPLONG_def)
  then show ?thesis
    using fix_encoded(2) [of bo w BT_SHB] long.swap_swap
    by (cases "bo = w") (auto simp: fix32_def, metis)
qed

lemma ng_head_opens:
  assumes "new_handle hp" and "heap_ok hp"
    and "precision = PCAP_TSTAMP_PRECISION_MICRO \<or> precision = PCAP_TSTAMP_PRECISION_NANO"
    and "small_blocks bs" and "option_resol ho r \<noteq> 0"
    and "ng_head_image w minor seclen bs lt snap r @ rest = head @ pending fp" and "length head = 4"
    and "length (pending fp) < 20 * 2 ^ 31"
  shows "\<exists>p. pcap_ng_check_header ho hp (decode_word (host_order ho) head) fp precision = Opened p \<and>
    ng_wf p \<and> rfile p = fp\<lparr>pending := rest\<rparr> \<and> swapped p = (host_order ho \<noteq> w) \<and> bufsize p = 2048 \<and>
    linktype p = linktype_to_dlt (host_os ho) (uint lt) \<and> snapshot p = snap \<and>
    tstamp_precision p = precision \<and> version_minor p = minor \<and>
    priv p = \<lparr>user_tsresol = tsresol_unit precision, ifcount = 1, ifaces_size = 1,
      ifaces = Some [Some \<lparr>tsresol = option_resol ho r, tsoffset = 0,
        if_scale = if_scale_for (tsresol_unit precision) (option_resol ho r)\<rparr>]\<rparr>"
proof -
  let ?tail = "skipped_image w bs @ idb_image w lt snap (option_bytes w r) @ rest"
  have "encode_word w 4 BT_SHB @ drop 4 (shb_image w minor seclen) @ ?tail = head @ pending fp"
    using assms(6) by (simp add: ng_head_image_def shb_image_def block_image_def)
  then have head: "head = encode_word w 4 BT_SHB" "pending fp = drop 4 (shb_image w minor seclen) @ ?tail"
    using assms(7) by (simp_all add: append_eq_append_conv)
  let ?fp = "fp\<lparr>pending := encode_word w 2 PCAP_NG_VERSION_MAJOR @ encode_word w 2 minor @
      encode_word w 8 seclen @ encode_word w 4 (28 :: u32) @ ?tail\<rparr>"
  have reach: "pcap_ng_check_header ho hp (decode_word (host_order ho) head) fp precision =
      ng_open ho hp precision (host_order ho \<noteq> w) 28 ?fp"
    unfolding head(1) magic_either_order using ng_check_header_reaches [OF head(2)] .
  have "length (pending ?fp) \<le> length (pending fp)"
    unfolding head(2) by (simp add: shb_image_def block_image_def)
  then have "length (pending ?fp) < 20 * 2 ^ 31" using assms(8) by linarith
  moreover have "12 \<le> unat (28 :: u32)" by simp
  ultimately have wf: "\<forall>p. ng_open ho hp precision (host_order ho \<noteq> w) 28 ?fp = Opened p \<longrightarrow> ng_wf p"
    using ng_open_wf [OF assms(2)] by blast
  have img: "pending ?fp = encode_word w 2 PCAP_NG_VERSION_MAJOR @ encode_word w 2 minor @
      encode_word w 8 seclen @ encode_word w 4 (28 :: u32) @ ?tail" by simp
  obtain p where p: "ng_open ho hp precision (host_order ho \<noteq> w) 28 ?fp = Opened p"
    "rfile p = ?fp\<lparr>pending := rest\<rparr> \<and> swapped p = (host_order ho \<noteq> w) \<and> bufsize p = 2048 \<and>
    linktype p = linktype_to_dlt (host_os ho) (uint lt) \<and> snapshot p = snap \<and>
    tstamp_precision p = precision \<and> version_minor p = minor \<and>
    priv p = \<lparr>user_tsresol = tsresol_unit precision, ifcount = 1, ifaces_size = 1,
      ifaces = Some [Some \<lparr>tsresol = option_resol ho r, tsoffset = 0,
        if_scale = if_scale_for (tsresol_unit precision) (option_resol ho r)\<rparr>]\<rparr>"
    using ng_open_image [OF assms(1-5) img] by blast
  then show ?thesis unfolding reach using wf by simp
qed

text \<open>
  A pcap-ng file opens as it was written, on a host of either byte order: with a
  section header, blocks of types the reader does not know, and the description of an interface,
  the handle has the link type translated to the host's \<open>DLT_\<close> value, the snapshot length, the
  minor version and one interface with the resolution its option gives (microseconds without
  one). The file is left at the first block after it, the handle in the state reading relies on.
\<close>

theorem ng_file_opens:
  assumes "new_handle hp" and "heap_ok hp"
    and "precision = PCAP_TSTAMP_PRECISION_MICRO \<or> precision = PCAP_TSTAMP_PRECISION_NANO"
    and "small_blocks bs" and "option_resol ho r \<noteq> 0"
    and "ng_head_image w minor seclen bs lt snap r @ rest = head @ pending fp" and "length head = 4"
    and "length (pending fp) < 20 * 2 ^ 31"
  shows "\<exists>p. pcap_ng_check_header ho hp (decode_word (host_order ho) head) fp precision = Opened p \<and>
    ng_wf p \<and> rfile p = fp\<lparr>pending := rest\<rparr> \<and> swapped p = (host_order ho \<noteq> w) \<and> bufsize p = 2048 \<and>
    linktype p = linktype_to_dlt (host_os ho) (uint lt) \<and> snapshot p = snap \<and>
    tstamp_precision p = precision \<and> version_minor p = minor \<and>
    priv p = \<lparr>user_tsresol = tsresol_unit precision, ifcount = 1, ifaces_size = 1,
      ifaces = Some [Some \<lparr>tsresol = option_resol ho r, tsoffset = 0,
        if_scale = if_scale_for (tsresol_unit precision) (option_resol ho r)\<rparr>]\<rparr>"
  using assms by (rule ng_head_opens)

theorem ng_file_opens_witness:
  "\<exists>p. pcap_ng_check_header sample_host zero_heap (decode_word Little
        (take 4 (ng_head_image Big 0 100 [(5, [0, 0, 0, 0])] 1 96 (Some 9))))
      \<lparr>pending = drop 4 (ng_head_image Big 0 100 [(5, [0, 0, 0, 0])] 1 96 (Some 9)), broken = False\<rparr> 0 = Opened p \<and>
    snapshot p = 96 \<and> ifaces (priv p) =
      Some [Some \<lparr>tsresol = 1000000000, tsoffset = 0, if_scale = SCALE_DOWN\<rparr>]"
proof -
  let ?img = "ng_head_image Big 0 100 [(5, [0, 0, 0, 0])] 1 96 (Some 9)"
  let ?fp = "\<lparr>pending = drop 4 ?img, broken = False\<rparr>"
  have len: "length ?img = 76"
    by (simp add: ng_head_image_def shb_image_def idb_image_def skipped_image_def option_bytes_def
        tsresol_option_def)
  have resol: "option_resol sample_host (Some 9) = 1000000000"
  proof -
    have "pow10 9 = 1000000000" by (simp add: eval_nat_numeral)
    then show ?thesis by (simp add: option_resol_def tsresol_of_def)
  qed
  show ?thesis
    using ng_file_opens [of zero_heap 0 "[(5, [0, 0, 0, 0])]" sample_host "Some 9" Big 0 100 1 96 "[]"
        "take 4 ?img" ?fp] len resol
    by (auto simp: new_handle_def small_blocks_def PCAP_TSTAMP_PRECISION_MICRO_def sample_host_def
        tsresol_unit_def if_scale_for_def)
qed

section \<open>Two ways reading goes wrong\<close>

lemma read_idb_image:
  assumes "buffer_wf p" and "swapped p = (host_order ho \<noteq> w)" and "fits_buffer p (replicate 8 0 @ opts)"
    and "pending (rfile p) = idb_image w lt snap opts @ rest"
  obtains buf where "read_block ho hp p = (Block \<lparr>cur_data = encode_word w 2 lt @ encode_word w 2 (0 :: u16) @
      encode_word w 4 snap @ opts, block_type = BT_IDB\<rparr>,
      p\<lparr>rfile := (rfile p)\<lparr>pending := rest\<rparr>, buffer := Some buf\<rparr>)" "unat (bufsize p) \<le> length buf"
proof -
  have fits: "fits_buffer p (encode_word w 2 lt @ encode_word w 2 (0 :: u16) @ encode_word w 4 snap @ opts)"
    using assms(3) by (simp add: fits_buffer_def)
  show ?thesis
    using read_block_image [OF assms(1,2) fits, of BT_IDB rest hp] assms(4) that
    by (auto simp: idb_image_def)
qed

lemma other_block_idb:
  assumes "swapped p = (host_order ho \<noteq> w)"
  shows "other_block ho hp p \<lparr>cur_data = encode_word w 2 lt @ encode_word w 2 (0 :: u16) @
      encode_word w 4 snap @ opts, block_type = BT_IDB\<rparr> =
    (if linktype p \<noteq> uint lt then (Stop (Different_linktype lt), p)
     else if snapshot p \<noteq> snap then (Stop (Different_snaplen snap), p)
     else (case add_interface ho hp p \<lparr>cur_data = opts, block_type = BT_IDB\<rparr> of
         (Added, p) \<Rightarrow> (Go_on, p) | (Add_failed e, p) \<Rightarrow> (Stop e, p) | (Add_crash, p) \<Rightarrow> (Stop_crash, p)))"
  using assms
  by (simp add: other_block_def get_from_block_data_def Let_def field_here field_later field_end fix_encoded)

text \<open>
  A file may not describe a second interface with the link type of
  its first when that link type has another number as a \<open>DLT_\<close> value, such as raw IP: the
  handle's translated link type is compared with the number in the file, and reading fails with
  a message that the interfaces differ, for identical descriptions.
\<close>

theorem ng_same_linktype_refused:
  assumes "buffer_wf p" and "swapped p = (host_order ho \<noteq> w)" and "fits_buffer p (replicate 8 0 @ opts)"
    and "pending (rfile p) = idb_image w lt snap opts @ rest"
    and "linktype p = linktype_to_dlt (host_os ho) (uint lt)"
    and "linktype_to_dlt (host_os ho) (uint lt) \<noteq> uint lt"
  shows "fst (pcap_ng_next_packet ho hp p) = Failed (Different_linktype lt)"
proof -
  obtain buf where rb: "read_block ho hp p = (Block \<lparr>cur_data = encode_word w 2 lt @ encode_word w 2 (0 :: u16) @
      encode_word w 4 snap @ opts, block_type = BT_IDB\<rparr>,
      p\<lparr>rfile := (rfile p)\<lparr>pending := rest\<rparr>, buffer := Some buf\<rparr>)"
    using read_idb_image [OF assms(1-4)] by metis
  have "fst (find_packet ho hp p) = Ng_failed (Different_linktype lt)"
    by (subst find_packet.simps)
      (use assms(2,5,6) in \<open>simp add: rb packet_block_def other_block_idb Let_def\<close>)
  then show ?thesis by (cases "find_packet ho hp p") (simp add: pcap_ng_next_packet_def)
qed

theorem ng_same_linktype_refused_witness:
  "fst (pcap_ng_next_packet sample_host zero_heap
     ((sample_ng (idb_image Little 101 64 [] @ []))\<lparr>linktype := 12\<rparr>)) = Failed (Different_linktype 101)"
proof -
  have dlt: "linktype_to_dlt Other_OS 101 = 12" by (simp add: linktype_to_dlt_def linktype_defs)
  show ?thesis
    by (rule ng_same_linktype_refused [where w = Little and opts = "[]" and snap = 64 and rest = "[]"])
      (simp_all add: sample_ng_def sample_host_def buffer_wf_def fits_buffer_def dlt)
qed

lemma add_interface_bad_options:
  assumes "ifaces (priv p) = Some l" and "length l = unat (ifcount (priv p))"
    and "ifaces_size (priv p) = ifcount (priv p)" and "unat (ifcount (priv p)) < 2 ^ 31" "l \<noteq> []"
    and "process_idb_options ho (swapped p) cur 1000000 0 False False = Inl e"
    and "\<forall>n. malloc hp n \<noteq> None"
  shows "\<exists>l'. add_interface ho hp p cur = (Add_failed e, p\<lparr>priv := (priv p)\<lparr>ifcount := ifcount (priv p) + 1,
      ifaces_size := ifaces_size (priv p) * 2, ifaces := Some l'\<rparr>\<rparr>) \<and>
    length l < length l' \<and> l' ! length l = None"
proof -
  let ?n = "ifcount (priv p)"
  have n: "unat (?n + 1) = unat ?n + 1" "unat (?n * 2) = unat ?n * 2"
    using assms(4) by (simp_all add: unat_word_ariths)
  then have less: "?n < ?n + 1" by (simp add: word_less_nat_alt)
  let ?l = "l @ replicate (length l) None"
  have "grow_ifaces hp ((priv p)\<lparr>ifcount := ?n + 1\<rparr>) = (priv p)\<lparr>ifcount := ?n + 1,
      ifaces_size := ifaces_size (priv p) * 2, ifaces := Some ?l\<rparr>"
    using assms(1-3,7) less n by (simp add: grow_ifaces_def Let_def)
  then have "add_interface ho hp p cur = (Add_failed e, p\<lparr>priv := (priv p)\<lparr>ifcount := ?n + 1,
      ifaces_size := ifaces_size (priv p) * 2, ifaces := Some ?l\<rparr>\<rparr>)"
    using assms(6) by (simp add: add_interface_def Let_def)
  then show ?thesis using assms(5) by (intro exI [of _ ?l]) (simp add: nth_append)
qed

text \<open>
  C28. Going on after an error is not safe. An interface description whose
  options are refused has been counted already: the read fails, and a packet of that interface,
  read next, is converted with an entry that was never initialised (its scale and its divisor
  are whatever the memory held).
\<close>

theorem ng_crash_after_error:
  assumes "ng_wf p" and "swapped p = (host_order ho \<noteq> w)" and "heap_ok hp" and "\<forall>n. malloc hp n \<noteq> None"
    and "ifaces_size (priv p) = ifcount (priv p)" and "0 < ifcount (priv p)"
    and "linktype p = uint lt" and "snapshot p = snap" and "fits_buffer p (replicate 8 0 @ opts)"
    and "process_idb_options ho (swapped p) \<lparr>cur_data = opts, block_type = BT_IDB\<rparr> 1000000 0 False False = Inl e"
    and "fits_buffer p (epb_body w i t cap ln @ content)" and "i = ifcount (priv p)"
    and "pending (rfile p) = idb_image w lt snap opts @ epb_image w i t cap ln content @ rest"
  shows "\<exists>p1. pcap_ng_next_packet ho hp p = (Failed e, p1) \<and> fst (pcap_ng_next_packet ho hp p1) = Crash"
proof -
  have wf: "buffer_wf p" and table: "table_ok (tsresol_unit (tstamp_precision p)) (priv p)"
    using assms(1) by (simp_all add: ng_wf_def)
  obtain l where l: "ifaces (priv p) = Some l" "length l = unat (ifcount (priv p))" "l \<noteq> []"
    using table assms(5,6) by (cases "ifaces (priv p)") (auto simp: table_ok_def)
  let ?rest = "epb_image w i t cap ln content @ rest"
  obtain buf where rb: "read_block ho hp p = (Block \<lparr>cur_data = encode_word w 2 lt @ encode_word w 2 (0 :: u16) @
      encode_word w 4 snap @ opts, block_type = BT_IDB\<rparr>,
      p\<lparr>rfile := (rfile p)\<lparr>pending := ?rest\<rparr>, buffer := Some buf\<rparr>)" "unat (bufsize p) \<le> length buf"
    using read_idb_image [OF wf assms(2,9,13)] by metis
  let ?p = "p\<lparr>rfile := (rfile p)\<lparr>pending := ?rest\<rparr>, buffer := Some buf\<rparr>"
  obtain l' where add: "add_interface ho hp ?p \<lparr>cur_data = opts, block_type = BT_IDB\<rparr> = (Add_failed e,
      ?p\<lparr>priv := (priv ?p)\<lparr>ifcount := ifcount (priv ?p) + 1,
      ifaces_size := ifaces_size (priv ?p) * 2, ifaces := Some l'\<rparr>\<rparr>)" "length l < length l'" "l' ! length l = None"
    using add_interface_bad_options [of ?p l ho "\<lparr>cur_data = opts, block_type = BT_IDB\<rparr>" e hp]
      l assms(4,5,10) ng_wf_ifcount [OF assms(1)] by auto
  let ?p1 = "?p\<lparr>priv := (priv ?p)\<lparr>ifcount := ifcount (priv ?p) + 1,
      ifaces_size := ifaces_size (priv ?p) * 2, ifaces := Some l'\<rparr>\<rparr>"
  have "find_packet ho hp p = (Ng_failed e, ?p1)"
    by (subst find_packet.simps)
      (use assms(2,7,8) add(1) in \<open>simp add: rb packet_block_def other_block_idb Let_def\<close>)
  then have first: "pcap_ng_next_packet ho hp p = (Failed e, ?p1)" by (simp add: pcap_ng_next_packet_def)
  have "buffer_wf ?p1" "fits_buffer ?p1 (epb_body w i t cap ln @ content)" "swapped ?p1 = (host_order ho \<noteq> w)"
    using rb(2) assms(2,11) by (simp_all add: buffer_wf_def fits_buffer_def)
  then obtain buf' where found: "find_packet ho hp ?p1 =
      (Ng_packet \<lparr>ng_interface = i, ng_caplen = cap, ng_len = ln, ng_time = t\<rparr>
        \<lparr>cur_data = content, block_type = BT_EPB\<rparr>,
       ?p1\<lparr>rfile := (rfile ?p1)\<lparr>pending := rest\<rparr>, buffer := Some buf'\<rparr>)"
    using find_packet_epb [of ?p1 ho w i t cap ln content rest hp] by auto
  have "unat (i + 1) = unat i + 1" using ng_wf_ifcount [OF assms(1)] assms(12) by (simp add: unat_word_ariths)
  then have "\<not> i + 1 \<le> i" by (simp add: word_le_nat_alt)
  then have "fst (pcap_ng_next_packet ho hp ?p1) = Crash"
    unfolding pcap_ng_next_packet_def found using assms(12) add(2,3) l(2) by (simp add: Let_def)
  then show ?thesis using first by blast
qed

theorem ng_crash_after_error_witness:
  "\<exists>p1. pcap_ng_next_packet sample_host zero_heap
      (sample_ng (idb_image Little 1 64 [0] @ epb_image Little 1 0 0 0 [] @ [])) =
      (Failed (Block_too_short 1), p1) \<and> fst (pcap_ng_next_packet sample_host zero_heap p1) = Crash"
proof (rule ng_crash_after_error [where w = Little and lt = 1 and content = "[]" and t = 0 and cap = 0 and
      ln = 0 and rest = "[]"])
  show "ng_wf (sample_ng (idb_image Little 1 64 [0] @ epb_image Little 1 0 0 0 [] @ []))"
    by (rule sample_ng_wf) (simp add: idb_image_def epb_image_def)
  show "process_idb_options sample_host (swapped (sample_ng (idb_image Little 1 64 [0] @
      epb_image Little 1 0 0 0 [] @ []))) \<lparr>cur_data = [0], block_type = 1\<rparr> 1000000 0 False False =
      Inl (Block_too_short 1)"
    by (subst process_idb_options.simps)
      (simp add: get_opthdr_from_block_data_def get_from_block_data_def)
qed (simp_all add: sample_ng_def sample_host_def fits_buffer_def)

end
