(* ===== verification/Savefile.thy ===== *)
theory Savefile
  imports Sf_Pcap Ng_Reading Bpf_Validate
begin

text \<open>
  The front end of savefiles (savefile.c) with the calls of pcap.c that read through it: which
  format a file has, the operations of a handle for a savefile, the installation of a filter,
  and the loop that reads, filters and delivers packets.
\<close>

section \<open>Handles of either format\<close>

text \<open>
  The code keeps one \<open>pcap_t\<close> with a function pointer \<open>next_packet_op\<close> and private data of the
  format. The size of the static buffer of the classic format goes with it.
\<close>

datatype savefile = Pcap_file "pcap_sf pcap_t" | Ng_file "pcap_ng_sf pcap_t"

type_synonym reader = "savefile \<times> nat"

fun next_packet_op :: "host \<Rightarrow> heap \<Rightarrow> reader \<Rightarrow> next_packet \<times> reader" where
  "next_packet_op ho hp (Pcap_file p, tsize) =
     (case pcap_next_packet ho hp p tsize of (r, p, tsize) \<Rightarrow> (r, Pcap_file p, tsize))"
| "next_packet_op ho hp (Ng_file p, tsize) =
     (case pcap_ng_next_packet ho hp p of (r, p) \<Rightarrow> (r, Ng_file p, tsize))"

text \<open>The two fields the loop uses, read and written together.\<close>

fun reader_break :: "reader \<Rightarrow> bool" where
  "reader_break (Pcap_file p, tsize) = break_loop p"
| "reader_break (Ng_file p, tsize) = break_loop p"

fun reader_fcode :: "reader \<Rightarrow> bpf_insn list option" where
  "reader_fcode (Pcap_file p, tsize) = fcode p"
| "reader_fcode (Ng_file p, tsize) = fcode p"

fun reader_set :: "bool \<Rightarrow> bpf_insn list option \<Rightarrow> reader \<Rightarrow> reader" where
  "reader_set b f (Pcap_file p, tsize) = (Pcap_file (p\<lparr>break_loop := b, fcode := f\<rparr>), tsize)"
| "reader_set b f (Ng_file p, tsize) = (Ng_file (p\<lparr>break_loop := b, fcode := f\<rparr>), tsize)"

definition set_break :: "bool \<Rightarrow> reader \<Rightarrow> reader" where
  "set_break b s = reader_set b (reader_fcode s) s"

definition pcap_breakloop :: "reader \<Rightarrow> reader" where
  "pcap_breakloop s = set_break True s"

section \<open>Opening\<close>

datatype open_result = Open_failed sf_error | File reader | Open_crash

definition file_found :: "'priv pcap_t \<Rightarrow> 'priv pcap_t" where
  "file_found p = p\<lparr>activated := True\<rparr>"

definition pcap_fopen_offline_with_tstamp_precision ::
  "host \<Rightarrow> heap \<Rightarrow> nat \<Rightarrow> stream \<Rightarrow> u32 \<Rightarrow> open_result" where
  "pcap_fopen_offline_with_tstamp_precision ho hp tsize fp precision =
     (case fread_bytes 4 fp of (bs, fp) \<Rightarrow>
        if length bs \<noteq> 4 then
          Open_failed (if broken fp then Read_error else Truncated_file_header 4 (length bs))
        else
          let magic = decode_word (host_order ho) bs in
          (case pcap_check_header ho hp magic fp precision of
             Opened p \<Rightarrow> File (Pcap_file (file_found p), tsize)
           | Rejected e \<Rightarrow> Open_failed e
           | Check_crash \<Rightarrow> Open_crash
           | Not_mine fp \<Rightarrow>
               (case pcap_ng_check_header ho hp magic fp precision of
                  Opened p \<Rightarrow> File (Ng_file (file_found p), tsize)
                | Rejected e \<Rightarrow> Open_failed e
                | Check_crash \<Rightarrow> Open_crash
                | Not_mine fp \<Rightarrow> Open_failed Unknown_file_format)))"

definition pcap_fopen_offline :: "host \<Rightarrow> heap \<Rightarrow> nat \<Rightarrow> stream \<Rightarrow> open_result" where
  "pcap_fopen_offline ho hp tsize fp =
     pcap_fopen_offline_with_tstamp_precision ho hp tsize fp PCAP_TSTAMP_PRECISION_MICRO"

text \<open>
  By name: \<open>-\<close> is the standard input. \<open>opened\<close> is what \<open>fopen\<close> gives. The second result says
  whether the stream is closed again, which it is on a failure unless it is the standard input.
\<close>

definition pcap_open_offline_with_tstamp_precision ::
  "host \<Rightarrow> heap \<Rightarrow> nat \<Rightarrow> string \<Rightarrow> stream \<Rightarrow> stream option \<Rightarrow> u32 \<Rightarrow> open_result \<times> bool" where
  "pcap_open_offline_with_tstamp_precision ho hp tsize fname std_in opened precision =
     (case (if fname = ''-'' then Some std_in else opened) of
        None \<Rightarrow> (Open_failed Cannot_open, False)
      | Some fp \<Rightarrow>
          let r = pcap_fopen_offline_with_tstamp_precision ho hp tsize fp precision in
          (r, case r of Open_failed e \<Rightarrow> fname \<noteq> ''-'' | _ \<Rightarrow> False))"

definition pcap_open_offline ::
  "host \<Rightarrow> heap \<Rightarrow> nat \<Rightarrow> string \<Rightarrow> stream \<Rightarrow> stream option \<Rightarrow> open_result \<times> bool" where
  "pcap_open_offline ho hp tsize fname std_in opened =
     pcap_open_offline_with_tstamp_precision ho hp tsize fname std_in opened PCAP_TSTAMP_PRECISION_MICRO"

section \<open>The other operations of a savefile\<close>

text \<open>The result and the message left in \<open>errbuf\<close>.\<close>

definition sf_getnonblock :: "savefile \<Rightarrow> int" where
  "sf_getnonblock p = 0"

definition sf_setnonblock :: "savefile \<Rightarrow> int \<Rightarrow> int \<times> string" where
  "sf_setnonblock p nonblock = (-1, ''Savefiles cannot be put into non-blocking mode'')"

definition sf_stats :: "savefile \<Rightarrow> int \<times> string" where
  "sf_stats p = (-1, ''Statistics aren't available from savefiles'')"

definition sf_inject :: "savefile \<Rightarrow> u8 list \<Rightarrow> int \<times> string" where
  "sf_inject p buf = (-1, ''Sending packets isn't supported on savefiles'')"

definition sf_setdirection :: "savefile \<Rightarrow> int \<Rightarrow> int \<times> string" where
  "sf_setdirection p d = (-1, ''Setting direction is not supported on savefiles'')"

text \<open>
  Closing: the stream unless it is the standard input, the buffer if there is one, the filter,
  and for pcap-ng the interface table. The result: whether the stream was closed, and the handle
  with what was freed gone.
\<close>

definition sf_cleanup :: "bool \<Rightarrow> 'priv pcap_t \<Rightarrow> bool \<times> 'priv pcap_t" where
  "sf_cleanup is_stdin p = (\<not> is_stdin, p\<lparr>buffer := None, fcode := None\<rparr>)"

definition pcap_ng_cleanup :: "bool \<Rightarrow> pcap_ng_sf pcap_t \<Rightarrow> bool \<times> pcap_ng_sf pcap_t" where
  "pcap_ng_cleanup is_stdin p = sf_cleanup is_stdin (p\<lparr>priv := (priv p)\<lparr>ifaces := None\<rparr>\<rparr>)"

text \<open>Installing a filter: the program is validated, the old one freed, the new one copied.\<close>

definition install_bpf_program :: "heap \<Rightarrow> bpf_insn list \<Rightarrow> reader \<Rightarrow> (string + unit) \<times> reader" where
  "install_bpf_program hp f s =
     (if \<not> bpf_validate f then (Inl ''BPF program is not valid'', s)
      else
        (case malloc hp (8 * length f) of
           None \<Rightarrow> (Inl ''malloc'', reader_set (reader_break s) None s)
         | Some _ \<Rightarrow> (Inr (), reader_set (reader_break s) (Some f) s)))"

section \<open>Reading packets\<close>

text \<open>
  The filter's outcome for a packet; without a program every packet passes. \<open>bpf_filter\<close> starts
  on a scratch memory that is not initialised, whose contents are a parameter.
\<close>

type_synonym bpf_setting = "u32 list \<times> (u32 \<times> u32) option"

definition filter_packet ::
  "bpf_setting \<Rightarrow> bpf_insn list option \<Rightarrow> pcap_pkthdr \<Rightarrow> u8 list \<Rightarrow> bpf_outcome option" where
  "filter_packet bs prog h d =
     (case prog of
        None \<Rightarrow> Some (Returned 1)
      | Some f \<Rightarrow> bpf_filter (fst bs) (snd bs) (Some f) d (pkt_len h) (caplen h))"

text \<open>
  The callback gets the header, the data and its user data, and says whether it called
  \<open>pcap_breakloop\<close>. The loop ends by returning a number (and perhaps an error message), or in
  behaviour C does not define; its state is the user data and the handle. \<open>None\<close>: it does not
  end. The count is a 32-bit \<open>int\<close>.
\<close>

type_synonym 'u handler = "pcap_pkthdr \<Rightarrow> u8 list \<Rightarrow> 'u \<Rightarrow> 'u \<times> bool"

datatype read_outcome = Returns int "sf_error option" | Undefined

definition enough :: "u32 \<Rightarrow> u32 \<Rightarrow> bool" where
  "enough cnt n \<longleftrightarrow> sint cnt \<le> sint n \<and> 0 < sint cnt"

partial_function (option) offline_loop ::
  "host \<Rightarrow> heap \<Rightarrow> bpf_setting \<Rightarrow> u32 \<Rightarrow> 'u handler \<Rightarrow> u32 \<Rightarrow> 'u \<Rightarrow> reader \<Rightarrow>
   (read_outcome \<times> 'u \<times> reader) option" where
  "offline_loop ho hp bs cnt cb n u s =
     (if reader_break s then
        (if n = 0 then Some (Returns (-2) None, u, set_break False s)
         else Some (Returns (sint n) None, u, s))
      else
        (case next_packet_op ho hp s of
           (Eof, s) \<Rightarrow> Some (Returns 0 None, u, s)
         | (Failed e, s) \<Rightarrow> Some (Returns (-1) (Some e), u, s)
         | (Crash, s) \<Rightarrow> Some (Undefined, u, s)
         | (Packet h d, s) \<Rightarrow>
             (case filter_packet bs (reader_fcode s) h d of
                None \<Rightarrow> None
              | Some (Returned v) \<Rightarrow>
                  if v \<noteq> 0 then
                    (case cb h d u of (u, stop) \<Rightarrow>
                       let s = (if stop then pcap_breakloop s else s); n = n + 1 in
                       if enough cnt n then Some (Returns (sint n) None, u, s)
                       else offline_loop ho hp bs cnt cb n u s)
                  else offline_loop ho hp bs cnt cb n u s
              | Some r \<Rightarrow> Some (Undefined, u, s))))"

definition pcap_offline_read ::
  "host \<Rightarrow> heap \<Rightarrow> bpf_setting \<Rightarrow> u32 \<Rightarrow> 'u handler \<Rightarrow> 'u \<Rightarrow> reader \<Rightarrow>
   (read_outcome \<times> 'u \<times> reader) option" where
  "pcap_offline_read ho hp bs cnt cb u s = offline_loop ho hp bs cnt cb 0 u s"

text \<open>\<open>pcap_loop\<close> on a savefile: reads until a number that is not positive, or the count is used up.\<close>

partial_function (option) pcap_loop ::
  "host \<Rightarrow> heap \<Rightarrow> bpf_setting \<Rightarrow> u32 \<Rightarrow> 'u handler \<Rightarrow> 'u \<Rightarrow> reader \<Rightarrow>
   (read_outcome \<times> 'u \<times> reader) option" where
  "pcap_loop ho hp bs cnt cb u s =
     (case pcap_offline_read ho hp bs cnt cb u s of
        None \<Rightarrow> None
      | Some (Undefined, u, s) \<Rightarrow> Some (Undefined, u, s)
      | Some (Returns n e, u, s) \<Rightarrow>
          if n \<le> 0 then Some (Returns n e, u, s)
          else if 0 < sint cnt then
            (let cnt = cnt - word_of_int n in
             if sint cnt \<le> 0 then Some (Returns 0 None, u, s)
             else pcap_loop ho hp bs cnt cb u s)
          else pcap_loop ho hp bs cnt cb u s)"

text \<open>One packet: \<open>pcap_oneshot\<close> stores it, \<open>pcap_next\<close> returns it (or a null pointer); \<open>pcap_next_ex\<close> maps the end of the file to \<open>-2\<close>.\<close>

definition pcap_oneshot :: "(pcap_pkthdr \<times> u8 list) option handler" where
  "pcap_oneshot h d u = (Some (h, d), False)"

definition pcap_next ::
  "host \<Rightarrow> heap \<Rightarrow> bpf_setting \<Rightarrow> reader \<Rightarrow>
   (read_outcome \<times> (pcap_pkthdr \<times> u8 list) option \<times> reader) option" where
  "pcap_next ho hp bs s =
     (case pcap_offline_read ho hp bs 1 pcap_oneshot None s of
        Some (Returns n e, u, s) \<Rightarrow> Some (Returns n e, if n \<le> 0 then None else u, s)
      | r \<Rightarrow> r)"

definition pcap_next_ex ::
  "host \<Rightarrow> heap \<Rightarrow> bpf_setting \<Rightarrow> reader \<Rightarrow>
   (read_outcome \<times> (pcap_pkthdr \<times> u8 list) option \<times> reader) option" where
  "pcap_next_ex ho hp bs s =
     (case pcap_offline_read ho hp bs 1 pcap_oneshot None s of
        Some (Returns n e, u, s) \<Rightarrow> Some (Returns (if n = 0 then -2 else n) e, u, s)
      | r \<Rightarrow> r)"

section \<open>A handle of either format is a source of packets\<close>

fun reader_wf :: "heap \<Rightarrow> reader \<Rightarrow> bool" where
  "reader_wf hp (Pcap_file p, tsize) = sf_wf p"
| "reader_wf hp (Ng_file p, tsize) = (heap_ok hp \<and> ng_wf p)"

fun reader_left :: "reader \<Rightarrow> nat" where
  "reader_left (Pcap_file p, tsize) = length (pending (rfile p))"
| "reader_left (Ng_file p, tsize) = length (pending (rfile p))"

lemma reader_set_mark:
  "reader_set b f (Pcap_file p, tsize) = (Pcap_file (mark b f p), tsize)"
  "reader_set b f (Ng_file q, tsize) = (Ng_file (mark b f q), tsize)"
  by (simp_all add: mark_def)

definition mark_file :: "bool \<Rightarrow> bpf_insn list option \<Rightarrow> savefile \<Rightarrow> savefile" where
  "mark_file b f s = (case s of Pcap_file p \<Rightarrow> Pcap_file (mark b f p) | Ng_file p \<Rightarrow> Ng_file (mark b f p))"

lemma reader_set_as_mark: "reader_set b f s = (mark_file b f (fst s), snd s)"
  by (cases "(b, f, s)" rule: reader_set.cases) (simp_all add: mark_def mark_file_def)

lemma mark_file_simps [simp]:
  "mark_file b f (Pcap_file p) = Pcap_file (mark b f p)" "mark_file b f (Ng_file q) = Ng_file (mark b f q)"
  by (simp_all add: mark_file_def)

lemma reader_cases: obtains p tsize where "s = (Pcap_file p, tsize)" | q tsize where "s = (Ng_file q, tsize)"
  by (metis prod.collapse savefile.exhaust)

lemma next_packet_op_mark:
  "next_packet_op ho hp (reader_set b f s) = map_prod id (reader_set b f) (next_packet_op ho hp s)"
  by (cases s rule: reader_cases)
    (simp_all add: reader_set_mark pcap_next_packet_mark pcap_ng_next_packet_mark map_prod_def
      split: prod.split del: reader_set.simps)

interpretation reader: packet_source
  reader_break reader_fcode reader_set "next_packet_op ho hp" "reader_wf hp" reader_left for ho hp
proof
  fix b f b' f' and s :: reader
  show "reader_break (reader_set b f s) = b" "reader_fcode (reader_set b f s) = f"
    "reader_wf hp (reader_set b f s) = reader_wf hp s" "reader_left (reader_set b f s) = reader_left s"
    unfolding reader_set_as_mark by (cases s rule: reader_cases; simp)+
  show "reader_set b f (reader_set b' f' s) = reader_set b f s"
    "reader_set (reader_break s) (reader_fcode s) s = s"
    unfolding reader_set_as_mark by (cases s rule: reader_cases; simp)+
  show "next_packet_op ho hp (reader_set b f s) = (case next_packet_op ho hp s of (r, s') \<Rightarrow> (r, reader_set b f s'))"
    by (simp add: next_packet_op_mark map_prod_def)
next
  fix s r s' assume wf: "reader_wf hp s" and nx: "next_packet_op ho hp s = (r, s')"
  show "r \<noteq> Crash"
    using wf nx classic.no_crash ng.no_crash
    by (cases s rule: reader_cases) (fastforce split: prod.splits)+
next
  fix s h d s' assume wf: "reader_wf hp s" and nx: "next_packet_op ho hp s = (Packet h d, s')"
  have "reader_wf hp s' \<and> reader_left s' + 12 \<le> reader_left s \<and> length d = unat (caplen h)"
  proof (cases s rule: reader_cases)
    case (1 p tsize)
    obtain p' t' where "pcap_next_packet ho hp p tsize = (Packet h d, p', t')" "s' = (Pcap_file p', t')"
      using nx 1 by (auto split: prod.splits)
    then show ?thesis
      using wf 1 classic.keeps_wf [of "(p, tsize)" ho hp h d "(p', t')"]
        classic.consumes [of "(p, tsize)" ho hp h d "(p', t')"]
        classic.exact_data [of "(p, tsize)" ho hp h d "(p', t')"] by simp
  next
    case (2 q tsize)
    obtain q' where "pcap_ng_next_packet ho hp q = (Packet h d, q')" "s' = (Ng_file q', tsize)"
      using nx 2 by (auto split: prod.splits)
    then show ?thesis
      using wf 2 ng.keeps_wf [of hp q ho h d q'] ng.consumes [of hp q ho h d q']
        ng.exact_data [of hp q ho h d q'] by simp
  qed
  then show "reader_wf hp s'" "reader_left s' + 12 \<le> reader_left s" "length d = unat (caplen h)"
    by blast+
qed

end
