(* ===== verification/Offline_Read.thy ===== *)
theory Offline_Read
  imports Savefile
begin

text \<open>
  What the calls that read a savefile promise: the loop of \<open>pcap_offline_read\<close> and \<open>pcap_loop\<close>
  as functions on the list of the packets in the file, that they end and are safe on any file
  with any filter the validator accepts (and the interpreter knows), and that a whole file is
  read as it was written.
\<close>

declare split_paired_Ex [simp del]

section \<open>The loop on a list of packets\<close>

text \<open>
  \<open>walk\<close> is the loop on the list of the packets that are left, with the counters of the code: the
  number it returns, the user data, the break flag, and the packets left after it (\<open>None\<close> when the
  source ended, in \<open>r\<close>).
\<close>

definition passes :: "bpf_setting \<Rightarrow> bpf_insn list option \<Rightarrow> pcap_pkthdr \<Rightarrow> u8 list \<Rightarrow> bool" where
  "passes bs prog h d = (case filter_packet bs prog h d of Some (Returned v) \<Rightarrow> v \<noteq> 0 | _ \<Rightarrow> False)"

definition verdicts :: "bpf_setting \<Rightarrow> bpf_insn list option \<Rightarrow> (pcap_pkthdr \<times> u8 list) list \<Rightarrow> bool" where
  "verdicts bs prog ps = (\<forall>(h, d)\<in>set ps. \<exists>v. filter_packet bs prog h d = Some (Returned v))"

definition ending :: "next_packet \<Rightarrow> read_outcome" where
  "ending r = (case r of Eof \<Rightarrow> Returns 0 None | Failed e \<Rightarrow> Returns (-1) (Some e) | _ \<Rightarrow> Undefined)"

fun walk :: "(pcap_pkthdr \<Rightarrow> u8 list \<Rightarrow> bool) \<Rightarrow> u32 \<Rightarrow> 'u handler \<Rightarrow> next_packet \<Rightarrow> u32 \<Rightarrow> bool \<Rightarrow> 'u \<Rightarrow>
    (pcap_pkthdr \<times> u8 list) list \<Rightarrow> read_outcome \<times> 'u \<times> bool \<times> (pcap_pkthdr \<times> u8 list) list option" where
  "walk pass cnt cb r n True u ps =
     (if n = 0 then (Returns (-2) None, u, False, Some ps) else (Returns (sint n) None, u, True, Some ps))"
| "walk pass cnt cb r n False u [] = (ending r, u, False, None)"
| "walk pass cnt cb r n False u ((h, d) # ps) =
     (if pass h d then
        (case cb h d u of (u, stop) \<Rightarrow>
           if enough cnt (n + 1) then (Returns (sint (n + 1)) None, u, stop, Some ps)
           else walk pass cnt cb r (n + 1) stop u ps)
      else walk pass cnt cb r n False u ps)"

text \<open>
  What \<open>pcap_offline_read\<close> promises: at most \<open>limit\<close> packets that pass are given to the callback,
  \<open>n\<close> of them so far, a natural number. A positive count is the limit, any other is none. The number
  returned is an \<open>int\<close>, which only a reading without a limit can exceed.
\<close>

definition limit_of :: "u32 \<Rightarrow> nat option" where
  "limit_of cnt = (if 0 < sint cnt then Some (nat (sint cnt)) else None)"

definition as_int :: "nat \<Rightarrow> int" where
  "as_int n = sint (of_nat n :: u32)"

fun deliver :: "(pcap_pkthdr \<Rightarrow> u8 list \<Rightarrow> bool) \<Rightarrow> nat option \<Rightarrow> 'u handler \<Rightarrow> next_packet \<Rightarrow> nat \<Rightarrow> bool \<Rightarrow> 'u \<Rightarrow>
    (pcap_pkthdr \<times> u8 list) list \<Rightarrow> read_outcome \<times> 'u \<times> bool \<times> (pcap_pkthdr \<times> u8 list) list option" where
  "deliver pass limit cb r n True u ps =
     (if as_int n = 0 then (Returns (-2) None, u, False, Some ps) else (Returns (as_int n) None, u, True, Some ps))"
| "deliver pass limit cb r n False u [] = (ending r, u, False, None)"
| "deliver pass limit cb r n False u ((h, d) # ps) =
     (if pass h d then
        (case cb h d u of (u, stop) \<Rightarrow>
           if limit = Some (Suc n) then (Returns (int (Suc n)) None, u, stop, Some ps)
           else deliver pass limit cb r (Suc n) stop u ps)
      else deliver pass limit cb r n False u ps)"

text \<open>The count of the code and the limit agree, packet by packet.\<close>

lemma as_int_small: "n < 2 ^ 31 \<Longrightarrow> as_int n = int n"
  unfolding as_int_def by (simp add: signed_of_nat signed_take_bit_int_eq_self)

lemma as_int_0: "as_int n = 0 \<longleftrightarrow> (of_nat n :: u32) = 0"
  unfolding as_int_def by (rule signed_eq_0_iff)

lemma limit_of_Some: "limit_of cnt = Some k \<Longrightarrow> 0 < k \<and> k < 2 ^ 31 \<and> sint cnt = int k"
  using sint_less [of cnt] by (auto simp: limit_of_def split: if_splits)

lemma enough_limit:
  assumes "\<And>k. limit_of cnt = Some k \<Longrightarrow> n < k"
  shows "enough cnt (of_nat n + 1) \<longleftrightarrow> limit_of cnt = Some (Suc n)"
proof (cases "limit_of cnt")
  case None
  then show ?thesis by (simp add: enough_def limit_of_def split: if_splits)
next
  case (Some k)
  with assms limit_of_Some have k: "n < k" "k < 2 ^ 31" "sint cnt = int k" "0 < k" by blast+
  have "sint (of_nat n + 1 :: u32) = int (Suc n)"
    using as_int_small [of "Suc n"] k(1,2) by (simp add: as_int_def add.commute)
  with Some k show ?thesis by (auto simp: enough_def)
qed

lemma walk_deliver:
  assumes "\<And>k. limit_of cnt = Some k \<Longrightarrow> n < k"
  shows "walk pass cnt cb r (of_nat n) stop u ps = deliver pass (limit_of cnt) cb r n stop u ps"
  using assms
proof (induction ps arbitrary: n stop u)
  case Nil
  then show ?case by (cases stop) (simp_all add: as_int_0, simp_all add: as_int_def)
next
  case (Cons p ps)
  obtain h d where p: "p = (h, d)" by fastforce
  show ?case
  proof (cases stop)
    case True
    then show ?thesis by (simp add: as_int_0, simp add: as_int_def)
  next
    case False
    obtain u1 st where cb: "cb h d u = (u1, st)" by fastforce
    have e: "enough cnt (of_nat n + 1) \<longleftrightarrow> limit_of cnt = Some (Suc n)" using Cons.prems by (rule enough_limit)
    have skip: "walk pass cnt cb r (of_nat n) False u ps = deliver pass (limit_of cnt) cb r n False u ps"
      using Cons.prems by (rule Cons.IH)
    show ?thesis
    proof (cases "limit_of cnt = Some (Suc n)")
      case True
      then have "sint (of_nat n + 1 :: u32) = int (Suc n)"
        using as_int_small [of "Suc n"] limit_of_Some [OF True] by (simp add: as_int_def add.commute)
      with True False e cb skip show ?thesis by (simp add: p)
    next
      case more: False
      have "\<And>k. limit_of cnt = Some k \<Longrightarrow> Suc n < k" using Cons.prems more by (metis Suc_lessI)
      from Cons.IH [OF this, of st u1] more False e cb skip show ?thesis
        by (simp add: p add.commute)
    qed
  qed
qed

lemma verdicts_Cons:
  "verdicts bs f ((h, d) # ps) \<Longrightarrow> \<exists>v. filter_packet bs f h d = Some (Returned v)"
  "verdicts bs f ((h, d) # ps) \<Longrightarrow> verdicts bs f ps"
  by (auto simp: verdicts_def)

lemma reader_breakloop:
  "reader_break (pcap_breakloop s) = True" "reader_fcode (pcap_breakloop s) = reader_fcode s"
  "reader_break (set_break b s) = b" "reader_fcode (set_break b s) = reader_fcode s"
  by (simp_all add: pcap_breakloop_def set_break_def reader.brk_put reader.prog_put)

lemma reads_to_set_break:
  "reads_to (next_packet_op ho hp) s ps r s' \<Longrightarrow>
   reads_to (next_packet_op ho hp) (set_break b s) ps r (reader_set b (reader_fcode s) s')"
  by (simp add: set_break_def reader.reads_to_put)

lemma offline_loop_refines:
  assumes "reads_to (next_packet_op ho hp) s ps r s'" and "r \<noteq> Crash"
    and "verdicts bs (reader_fcode s) ps"
    and "walk (passes bs (reader_fcode s)) cnt cb r n (reader_break s) u ps = (out, u', stop, rest)"
  shows "\<exists>t. offline_loop ho hp bs cnt cb n u s = Some (out, u', t) \<and>
    reader_break t = stop \<and> reader_fcode t = reader_fcode s \<and>
    (\<forall>qs. rest = Some qs \<longrightarrow> (\<exists>t'. reads_to (next_packet_op ho hp) t qs r t'))"
proof (cases "reader_break s")
  case True
  let ?t = "if n = 0 then set_break False s else s"
  have "\<exists>t'. reads_to (next_packet_op ho hp) ?t ps r t'"
    using assms(1) reads_to_set_break [OF assms(1)] by (auto simp del: split_paired_Ex)
  moreover have "offline_loop ho hp bs cnt cb n u s = Some (out, u', ?t) \<and> rest = Some ps \<and> stop = (n \<noteq> 0)"
    using assms(4) True by (subst offline_loop.simps) (auto split: if_splits)
  ultimately show ?thesis
    using True by (intro exI [of _ ?t]) (simp add: reader_breakloop)
next
  case False
  from assms False show ?thesis
  proof (induction arbitrary: n u rule: reads_to.induct)
    case (reads_stop s r s')
    then show ?case
      using reader.nxt_keeps [OF reads_stop.hyps(1)]
      by (subst offline_loop.simps) (cases r; simp add: ending_def)
  next
    case (reads_packet s h d s1 ps r s')
    note keep = reader.nxt_keeps [OF reads_packet.hyps(1)]
    note ver = verdicts_Cons [OF reads_packet.prems(2)]
    obtain v where v: "filter_packet bs (reader_fcode s) h d = Some (Returned v)" using ver(1) by blast
    note step = offline_loop.simps [of ho hp bs cnt cb n u s]
    show ?case
    proof (cases "v = 0")
      case True
      then have "offline_loop ho hp bs cnt cb n u s = offline_loop ho hp bs cnt cb n u s1"
        using reads_packet.hyps(1) reads_packet.prems(4) v keep by (simp add: step)
      then show ?thesis
        using reads_packet.IH [of n u] reads_packet.prems ver(2) keep v True by (simp add: passes_def)
    next
      case False
      obtain u1 st where cb: "cb h d u = (u1, st)" by fastforce
      let ?s = "if st then pcap_breakloop s1 else s1"
      have s: "reader_break ?s = st" "reader_fcode ?s = reader_fcode s"
        using keep reads_packet.prems(4) by (auto simp: reader_breakloop)
      have rs: "\<exists>t'. reads_to (next_packet_op ho hp) ?s ps r t'"
        using reads_packet.hyps(2) reads_to_set_break [OF reads_packet.hyps(2)]
        by (auto simp: pcap_breakloop_def)
      have loop: "offline_loop ho hp bs cnt cb n u s =
          (if enough cnt (n + 1) then Some (Returns (sint (n + 1)) None, u1, ?s)
           else offline_loop ho hp bs cnt cb (n + 1) u1 ?s)"
        using reads_packet.hyps(1) reads_packet.prems(4) v False cb keep by (simp add: step Let_def)
      have dl: "walk (passes bs (reader_fcode s)) cnt cb r n False u ((h, d) # ps) =
          (if enough cnt (n + 1) then (Returns (sint (n + 1)) None, u1, st, Some ps)
           else walk (passes bs (reader_fcode s)) cnt cb r (n + 1) st u1 ps)"
        using v False cb by (simp add: passes_def)
      show ?thesis
      proof (cases "enough cnt (n + 1)")
        case True
        then show ?thesis using reads_packet.prems(3,4) loop dl s rs by auto
      next
        case more: False
        show ?thesis
        proof (cases st)
          case True
          have "offline_loop ho hp bs cnt cb (n + 1) u1 ?s =
            (if n + 1 = 0 then Some (Returns (-2) None, u1, set_break False ?s)
             else Some (Returns (sint (n + 1)) None, u1, ?s))"
            using s(1) True by (subst offline_loop.simps) simp
          moreover have "\<exists>t'. reads_to (next_packet_op ho hp) (set_break False ?s) ps r t'"
            using rs reads_to_set_break by blast
          ultimately show ?thesis
            using reads_packet.prems(3,4) loop dl more s rs True
            by (auto simp: reader_breakloop split: if_splits)
        next
          case False
          then show ?thesis
            using reads_packet.IH [of "n + 1" u1] reads_packet.prems ver(2) keep loop dl more by simp
        qed
      qed
    qed
  qed
qed

text \<open>\<open>pcap_loop\<close> without a limit: every packet that passes, until the callback breaks.\<close>

fun feed :: "(pcap_pkthdr \<Rightarrow> u8 list \<Rightarrow> bool) \<Rightarrow> 'u handler \<Rightarrow> 'u \<Rightarrow> (pcap_pkthdr \<times> u8 list) list \<Rightarrow>
    'u \<times> (pcap_pkthdr \<times> u8 list) list option" where
  "feed pass cb u [] = (u, None)"
| "feed pass cb u ((h, d) # ps) =
     (if pass h d then
        (case cb h d u of (u, stop) \<Rightarrow> if stop then (u, Some ps) else feed pass cb u ps)
      else feed pass cb u ps)"

lemma not_enough: "\<not> 0 < sint cnt \<Longrightarrow> \<not> enough cnt n"
  by (simp add: enough_def)

lemma feed_shorter: "feed pass cb u ps = (u', Some qs) \<Longrightarrow> length qs < length ps"
  by (induction ps arbitrary: u rule: list.induct) (auto split: if_splits prod.splits, fastforce+)

text \<open>
  Without a limit the count only decides what a broken loop returns: how many packets had passed,
  which is positive when the break came from the callback.
\<close>

lemma sint_small: "unat (n :: u32) < 2 ^ 31 \<Longrightarrow> sint n = int (unat n)"
proof -
  assume "unat n < 2 ^ 31"
  moreover have "uint n = int (unat n)" by simp
  ultimately show ?thesis by (simp only: sint32_cases int_less_2_31 if_True)
qed

lemma unat_Suc_small:
  assumes "unat (n :: u32) < 2 ^ 31"
  shows "unat (n + 1) = Suc (unat n)"
  using assms by (simp add: unat_word_ariths)

lemma deliver_unlimited:
  assumes "\<not> 0 < sint cnt" and "unat n + length ps < 2 ^ 31"
  shows "case feed pass cb u ps of
       (u', None) \<Rightarrow> walk pass cnt cb r n False u ps = (ending r, u', False, None)
     | (u', Some qs) \<Rightarrow> \<exists>k > 0. walk pass cnt cb r n False u ps = (Returns k None, u', True, Some qs)"
  using assms
proof (induction ps arbitrary: n u)
  case (Cons p ps)
  obtain h d where p: "p = (h, d)" by (cases p)
  show ?case
  proof (cases "pass h d")
    case False
    then have eq: "walk pass cnt cb r n False u (p # ps) = walk pass cnt cb r n False u ps"
      "feed pass cb u (p # ps) = feed pass cb u ps" using p by simp_all
    show ?thesis unfolding eq using Cons.IH [OF assms(1), of n u] Cons.prems(2) by simp
  next
    case True
    obtain u1 st where cb: "cb h d u = (u1, st)" by fastforce
    have n: "unat (n + 1) = Suc (unat n)" using Cons.prems(2) by (intro unat_Suc_small) simp
    then have "unat (n + 1) < 2 ^ 31" using Cons.prems(2) by simp
    then have "sint (n + 1) = int (Suc (unat n))" using sint_small n by metis
    then have "0 < sint (n + 1)" by (simp only: of_nat_0_less_iff)
    then have pos: "n + 1 \<noteq> 0" "0 < sint (n + 1)" by (metis less_irrefl sint_0, assumption)
    have small: "unat (n + 1) + length ps < 2 ^ 31" using n Cons.prems(2) by simp
    show ?thesis
    proof (cases st)
      case True
      have "walk pass cnt cb r (n + 1) True u1 ps = (Returns (sint (n + 1)) None, u1, True, Some ps)"
        using pos(1) by simp
      then show ?thesis
        unfolding p using \<open>pass h d\<close> cb True pos(2) not_enough [OF assms(1)] by simp
    next
      case False
      then have eq: "walk pass cnt cb r n False u (p # ps) = walk pass cnt cb r (n + 1) False u1 ps"
        "feed pass cb u (p # ps) = feed pass cb u1 ps"
        using p \<open>pass h d\<close> cb not_enough [OF assms(1)] by simp_all
      show ?thesis unfolding eq using Cons.IH [OF assms(1) small, of u1] by simp
    qed
  qed
qed simp

lemma pcap_loop_refines:
  assumes "reads_to (next_packet_op ho hp) s ps r s'" and "r \<noteq> Crash"
    and "verdicts bs (reader_fcode s) ps" and "\<not> reader_break s"
    and "\<not> 0 < sint cnt" and "length ps < 2 ^ 31"
  shows "case feed (passes bs (reader_fcode s)) cb u ps of
      (u', None) \<Rightarrow> \<exists>t. pcap_loop ho hp bs cnt cb u s = Some (ending r, u', t)
    | (u', Some qs) \<Rightarrow> \<exists>t t'. pcap_loop ho hp bs cnt cb u s = Some (Returns (-2) None, u', t) \<and>
        \<not> reader_break t \<and> reader_fcode t = reader_fcode s \<and>
        reads_to (next_packet_op ho hp) t qs r t'"
proof -
  let ?pass = "passes bs (reader_fcode s)"
  obtain u' rest where feed: "feed ?pass cb u ps = (u', rest)" by fastforce
  have nonpos: "\<exists>k e. ending r = Returns k e \<and> k \<le> 0" if "\<nexists>h d. r = Packet h d"
    using assms(2) that by (cases r) (auto simp: ending_def)
  have stop: "\<nexists>h d. r = Packet h d" using assms(1) by (induction rule: reads_to.induct) auto
  show ?thesis
  proof (cases rest)
    case None
    then have "walk ?pass cnt cb r 0 (reader_break s) u ps = (ending r, u', False, None)"
      using deliver_unlimited [OF assms(5), of 0 ps ?pass cb r u] assms(4,6) feed by simp
    from offline_loop_refines [OF assms(1-3) this]
    obtain t where "pcap_offline_read ho hp bs cnt cb u s = Some (ending r, u', t)"
      unfolding pcap_offline_read_def by blast
    then have "pcap_loop ho hp bs cnt cb u s = Some (ending r, u', t)"
      using nonpos [OF stop] by (subst pcap_loop.simps) auto
    then show ?thesis using feed None by simp
  next
    case (Some qs)
    then obtain k where "0 < k"
        "walk ?pass cnt cb r 0 (reader_break s) u ps = (Returns k None, u', True, Some qs)"
      using deliver_unlimited [OF assms(5), of 0 ps ?pass cb r u] assms(4,6) feed by auto
    from offline_loop_refines [OF assms(1-3) this(2)] this(1)
    obtain t t' where t: "pcap_offline_read ho hp bs cnt cb u s = Some (Returns k None, u', t)"
      "reader_break t" "reader_fcode t = reader_fcode s" "reads_to (next_packet_op ho hp) t qs r t'" "0 < k"
      unfolding pcap_offline_read_def by blast
    have "pcap_offline_read ho hp bs cnt cb u' t = Some (Returns (-2) None, u', set_break False t)"
      using t(2) unfolding pcap_offline_read_def by (subst offline_loop.simps) simp
    then have again: "pcap_loop ho hp bs cnt cb u' t = Some (Returns (-2) None, u', set_break False t)"
      by (subst pcap_loop.simps) simp
    have "pcap_loop ho hp bs cnt cb u s = Some (Returns (-2) None, u', set_break False t)"
      using t(1,5) assms(5) again by (subst pcap_loop.simps) simp
    then show ?thesis
      using feed Some t(3) reads_to_set_break [OF t(4)] by (auto simp: reader_breakloop)
  qed
qed

section \<open>Reading is safe and ends\<close>







section \<open>Opening any file\<close>

lemma pcap_check_header_outcome:
  "pcap_check_header ho hp magic fp precision \<noteq> Check_crash"
  "pcap_check_header ho hp magic fp precision = Not_mine fp' \<Longrightarrow> fp' = fp"
  "pcap_check_header ho hp magic fp precision = Opened p \<Longrightarrow> fcode p = None \<and> \<not> break_loop p"
  by (auto simp: pcap_check_header_def sf_open_def pcap_open_offline_common_def Let_def
      split: if_splits prod.splits option.splits)

lemma read_block_fields:
  "read_block ho hp p = (st, p') \<Longrightarrow> fcode p' = fcode p \<and> break_loop p' = break_loop p"
  using read_block_mark [of ho hp "break_loop p" "fcode p" p] by (metis map_prod_simp mark_simps prod.inject)

lemma add_interface_fields:
  "add_interface ho hp p cur = (st, p') \<Longrightarrow> fcode p' = fcode p \<and> break_loop p' = break_loop p"
  using add_interface_mark [of ho hp "break_loop p" "fcode p" p cur]
  by (metis map_prod_simp mark_simps prod.inject)

lemma find_idb_fields:
  "find_idb ho hp p = First_idb lt snap q \<Longrightarrow> fcode q = fcode p \<and> break_loop q = break_loop p"
proof (induction ho hp p rule: find_idb.induct)
  case (1 ho hp p)
  obtain st p1 where b: "read_block ho hp p = (st, p1)" by fastforce
  note keep = read_block_fields [OF b]
  show ?case
  proof (cases st)
    case (Block cur)
    have res: "(if block_type cur = BT_IDB then
        (case get_from_block_data cur 8 of Inl e \<Rightarrow> Idb_failed e
         | Inr (bs, cur) \<Rightarrow>
             (case add_interface ho hp p1 cur of
                (Added, p2) \<Rightarrow> First_idb (fix16 (swapped p1) (field (host_order ho) 0 2 bs))
                  (fix32 (swapped p1) (field (host_order ho) 4 4 bs)) p2
              | (Add_failed e, p2) \<Rightarrow> Idb_failed e | (Add_crash, p2) \<Rightarrow> Idb_crash))
        else if block_type cur = BT_EPB \<or> block_type cur = BT_SPB \<or> block_type cur = BT_PB
        then Idb_failed Packet_before_idb else find_idb ho hp p1) = First_idb lt snap q"
      using 1(2) by (simp only: find_idb.simps [of ho hp p] b Block prod.case block_status.case)
    show ?thesis
    proof (cases "block_type cur = BT_IDB \<or> block_type cur = BT_EPB \<or> block_type cur = BT_SPB \<or> block_type cur = BT_PB")
      case True
      then show ?thesis
        using res keep
        by (auto split: if_splits sum.splits prod.splits add_status.splits dest!: add_interface_fields)
    next
      case False
      then show ?thesis using res keep 1(1) [OF b [symmetric] Block] by simp
    qed
  qed (use 1 b in \<open>simp_all add: find_idb.simps [of ho hp p]\<close>)
qed

lemma ng_open_fields:
  assumes "ng_open ho hp precision swp tlen fp = Opened p"
  shows "fcode p = None \<and> \<not> break_loop p"
  using assms
  by (auto simp: ng_open_def pcap_open_offline_common_def Let_def dest!: find_idb_fields
      split: if_splits option.splits prod.splits read_status.splits idb_result.splits)

lemma pcap_ng_check_header_fields:
  assumes "pcap_ng_check_header ho hp magic fp precision = Opened p"
  shows "fcode p = None \<and> \<not> break_loop p"
  using assms
  by (auto simp: pcap_ng_check_header_def Let_def dest!: ng_open_fields split: if_splits prod.splits)

lemma file_found_wf [simp]:
  "sf_wf (file_found p) = sf_wf p" "ng_wf (file_found q) = ng_wf q"
  "fcode (file_found r) = fcode r" "break_loop (file_found r) = break_loop r"
  by (simp_all add: file_found_def sf_wf_def ng_wf_def buffer_wf_def countable_file_def)

lemma open_file_wf:
  assumes "heap_ok hp" and "length (pending fp) < 20 * 2 ^ 31"
  shows "pcap_fopen_offline_with_tstamp_precision ho hp tsize fp precision \<noteq> Open_crash \<and>
    (\<forall>s. pcap_fopen_offline_with_tstamp_precision ho hp tsize fp precision = File s \<longrightarrow>
       reader_wf hp s \<and> reader_fcode s = None \<and> \<not> reader_break s)"
proof (cases "length (fst (fread_bytes 4 fp)) = 4")
  case False
  then show ?thesis
    by (auto simp: pcap_fopen_offline_with_tstamp_precision_def split: prod.splits)
next
  case True
  obtain bs fp1 where f: "fread_bytes 4 fp = (bs, fp1)" by fastforce
  then have len: "length bs = 4" "length (pending fp1) < 20 * 2 ^ 31"
    using True assms(2) by (auto simp: fread_bytes_def)
  let ?magic = "decode_word (host_order ho) bs :: u32"
  note eq = pcap_fopen_offline_with_tstamp_precision_def [of ho hp tsize fp precision]
  show ?thesis
  proof (cases "pcap_check_header ho hp ?magic fp1 precision")
    case (Not_mine fp2)
    then have "fp2 = fp1" using pcap_check_header_outcome(2) by blast
    then show ?thesis
      using Not_mine f len(1) ng_check_header_wf [OF assms(1) len(2), of ho ?magic precision]
        pcap_ng_check_header_fields [of ho hp ?magic fp1 precision] assms(1)
      by (cases "pcap_ng_check_header ho hp ?magic fp1 precision") (auto simp: eq Let_def)
  next
    case (Opened p)
    then show ?thesis
      using f len(1) pcap_check_header_wf [OF Opened assms(1)] pcap_check_header_outcome(3) [OF Opened]
      by (auto simp: eq Let_def)
  qed (use f len(1) pcap_check_header_outcome(1) in \<open>auto simp: eq Let_def\<close>)
qed

text \<open>
  C22. Opening a file of less than 40 GB, whatever its contents, is safe, and
  the handle it may give is one that reading is safe from: well-formed, without a filter and not
  told to break.
\<close>

theorem open_any_file_safe:
  assumes "heap_ok hp" and "length (pending fp) < 20 * 2 ^ 31"
  shows "pcap_fopen_offline_with_tstamp_precision ho hp tsize fp precision \<noteq> Open_crash \<and>
    (\<forall>s. pcap_fopen_offline_with_tstamp_precision ho hp tsize fp precision = File s \<longrightarrow>
       reader_wf hp s \<and> reader_fcode s = None \<and> \<not> reader_break s)"
  using assms by (rule open_file_wf)

theorem open_any_file_safe_witness:
  "pcap_fopen_offline_with_tstamp_precision sample_host zero_heap 0
     \<lparr>pending = [0x0A, 0x0D, 0x0D, 0x0A, 255, 255, 255, 255, 1], broken = False\<rparr> 7 \<noteq> Open_crash"
  by (rule open_any_file_safe [THEN conjunct1]) simp_all

section \<open>Whole files\<close>

definition collect :: "(pcap_pkthdr \<times> u8 list) list handler" where
  "collect h d ps = (ps @ [(h, d)], False)"

lemma feed_collect: "feed (\<lambda>h d. True) collect acc ps = (acc @ ps, None)"
proof (induction ps arbitrary: acc)
  case (Cons p ps)
  then show ?case by (cases p) (simp add: collect_def)
qed simp

lemma loop_collects:
  assumes "reads_to (next_packet_op ho hp) s ps Eof s'" and "reader_fcode s = None"
    and "\<not> reader_break s" and "length ps < 2 ^ 31"
  shows "\<exists>t. pcap_loop ho hp bs (-1) collect [] s = Some (Returns 0 None, ps, t)"
proof -
  have "passes bs (reader_fcode s) = (\<lambda>h d. True)"
    by (intro ext) (simp add: passes_def filter_packet_def assms(2))
  moreover have "verdicts bs (reader_fcode s) ps" by (auto simp: verdicts_def filter_packet_def assms(2))
  ultimately show ?thesis
    using pcap_loop_refines [OF assms(1) _ _ assms(3), of bs "-1" collect "[]"] assms(4)
    by (simp add: feed_collect ending_def)
qed

lemma sf_reads_all:
  assumes "reads_from ho w p" and "\<forall>(h, d)\<in>set ps. storable (bufsize p) h d"
    and "pending (rfile p) = concat (map (\<lambda>(h, d). dump_bytes w h d) ps)" and "\<not> broken (rfile p)"
  shows "\<exists>s'. reads_to (next_packet_op ho hp) (Pcap_file p, tsize) ps Eof s'"
  using assms
proof (induction ps arbitrary: p)
  case Nil
  then have "fread_bytes (hdrsize (priv p)) (rfile p) = ([], rfile p)"
    by (cases "rfile p") (simp add: fread_bytes_def)
  moreover have "hdrsize (priv p) = 16" using Nil(1) by (simp add: reads_from_def)
  ultimately have "pcap_next_packet ho hp p tsize = (Eof, p, tsize)"
    using Nil(4) by (cases p) (simp add: pcap_next_packet_def Let_def)
  then have "next_packet_op ho hp (Pcap_file p, tsize) = (Eof, Pcap_file p, tsize)" by simp
  then show ?case by (intro exI, intro reads_stop) auto
next
  case (Cons x ps)
  obtain h d where x: "x = (h, d)" by (cases x)
  have "storable (bufsize p) h d" using Cons.prems(2) x by simp
  moreover have "pending (rfile p) = dump_bytes w h d @ concat (map (\<lambda>(h, d). dump_bytes w h d) ps)"
    using Cons.prems(3) x by simp
  ultimately obtain p' where p': "pcap_next_packet ho hp p tsize = (Packet h d, p', tsize)"
      "reads_from ho w p'" "pending (rfile p') = concat (map (\<lambda>(h, d). dump_bytes w h d) ps)"
      "broken (rfile p') = broken (rfile p)" "p' = p\<lparr>rfile := rfile p', buffer := buffer p'\<rparr>"
    using sf_packet_reads [OF Cons.prems(1), of h d _ hp tsize] by blast
  have "bufsize p' = bufsize p" by (subst p'(5)) simp
  then obtain s' where "reads_to (next_packet_op ho hp) (Pcap_file p', tsize) ps Eof s'"
    using Cons.IH [OF p'(2)] Cons.prems(2,4) p'(3,4) by auto
  then show ?case unfolding x using p'(1) by (intro exI, intro reads_packet) auto
qed

definition dump_all :: "host \<Rightarrow> (pcap_pkthdr \<times> u8 list) list \<Rightarrow> outfile \<Rightarrow> outfile" where
  "dump_all w ps f = fold (\<lambda>(h, d) f. pcap_dump w f h d) ps f"

lemma dump_all_written:
  "room f = None \<Longrightarrow> written (dump_all w ps f) = written f @ concat (map (\<lambda>(h, d). dump_bytes w h d) ps)"
proof (induction ps arbitrary: f)
  case (Cons x ps)
  obtain h d where x: "x = (h, d)" by (cases x)
  have "dump_all w (x # ps) f = dump_all w ps (f\<lparr>written := written f @ dump_bytes w h d\<rparr>)"
    using Cons.prems by (simp add: dump_all_def x pcap_dump_written)
  then show ?case using Cons.IH [of "f\<lparr>written := written f @ dump_bytes w h d\<rparr>"] Cons.prems x by simp
qed (simp add: dump_all_def)

lemma savefile_reads:
  assumes "pcap_dump_open w p fname std_out (Some \<lparr>written = [], room = None\<rparr>) = Inr f"
    and "fname \<noteq> ''-''" and "LT_LINKTYPE (linktype_ext p) = 0"
    and "tstamp_precision p \<in> {PCAP_TSTAMP_PRECISION_MICRO, PCAP_TSTAMP_PRECISION_NANO}"
    and "heap_ok hp" and "new_pcap hp" and "dup_source hp"
    and "malloc hp (unat (sf_bufsize (snapshot p))) = Some buf"
    and "\<forall>(h, d)\<in>set ps. storable (sf_bufsize (snapshot p)) h d" and "length ps < 2 ^ 31"
    and "host_order ho = host_order w \<or> linktype_to_dlt (host_os ho) (dlt_to_linktype (host_os w) (linktype p)) \<notin>
      {DLT_USB_LINUX, DLT_USB_LINUX_MMAPPED, DLT_NFLOG}"
  shows "\<exists>s t. pcap_fopen_offline_with_tstamp_precision ho hp tsize
      \<lparr>pending = written (dump_all w ps f), broken = False\<rparr> (tstamp_precision p) = File s \<and>
    pcap_loop ho hp bs (-1) collect [] s = Some (Returns 0 None, ps, t)"
proof -
  let ?rest = "concat (map (\<lambda>(h, d). dump_bytes w h d) ps)"
  have f: "written f = file_header_bytes (host_order w) (dump_header w p)" "room f = None"
    using pcap_dump_open_written [OF assms(1,2)] by simp_all
  obtain m fp where m: "fread_bytes 4 \<lparr>pending = written f @ ?rest, broken = False\<rparr> = (m, fp)" by fastforce
  have len: "length m = 4" using m f(1) by (auto simp: fread_bytes_def)
  obtain q where q: "pcap_check_header ho hp (decode_word (host_order ho) m) fp (tstamp_precision p) = Opened q"
      "sf_wf q" "swapped q = (host_order ho \<noteq> host_order w)" "rfile q = \<lparr>pending = ?rest, broken = False\<rparr>"
      "priv q = \<lparr>hdrsize = 16, lengths_swapped = NOT_SWAPPED, scale_type = PASS_THROUGH\<rparr>"
      "linktype q = linktype_to_dlt (host_os ho) (dlt_to_linktype (host_os w) (linktype p))"
      "bufsize q = sf_bufsize (snapshot p)"
    using sf_header_reads [OF assms(1-8) m] by blast
  let ?q = "file_found q"
  have opened: "pcap_fopen_offline_with_tstamp_precision ho hp tsize
      \<lparr>pending = written (dump_all w ps f), broken = False\<rparr> (tstamp_precision p) = File (Pcap_file ?q, tsize)"
    unfolding pcap_fopen_offline_with_tstamp_precision_def dump_all_written [OF f(2)] m
    using len q(1) by (simp add: Let_def)
  have "reads_from ho w ?q"
    using q assms(11) by (auto simp: reads_from_def file_found_def sf_wf_def)
  moreover have "bufsize ?q = sf_bufsize (snapshot p)" "rfile ?q = rfile q"
    using q(7) by (simp_all add: file_found_def)
  ultimately obtain s' where "reads_to (next_packet_op ho hp) (Pcap_file ?q, tsize) ps Eof s'"
    using sf_reads_all [of ho w ?q ps hp tsize] assms(9) q(4) by auto
  then have "\<exists>t. pcap_loop ho hp bs (-1) collect [] (Pcap_file ?q, tsize) = Some (Returns 0 None, ps, t)"
    using pcap_check_header_outcome(3) [OF q(1)] assms(10) by (intro loop_collects) simp_all
  then show ?thesis using opened by blast
qed

text \<open>
  C19. What one host dumps, another reads: the file that \<open>pcap_dump_open\<close> begins
  and to which a list of packets is written with \<open>pcap_dump\<close> is opened by
  \<open>pcap_fopen_offline\<close> on a host of any byte order and system, and \<open>pcap_loop\<close> without a limit
  delivers exactly these packets, in order and unchanged, and returns 0 at the end of the file.
  The packets fit the snapshot length and the 32-bit time stamps of the file, and between hosts
  of different byte order they have no pseudo-header to convert.
\<close>

theorem savefile_roundtrip:
  assumes "pcap_dump_open w p fname std_out (Some \<lparr>written = [], room = None\<rparr>) = Inr f"
    and "fname \<noteq> ''-''" and "LT_LINKTYPE (linktype_ext p) = 0"
    and "tstamp_precision p \<in> {PCAP_TSTAMP_PRECISION_MICRO, PCAP_TSTAMP_PRECISION_NANO}"
    and "heap_ok hp" and "new_pcap hp" and "dup_source hp"
    and "malloc hp (unat (sf_bufsize (snapshot p))) = Some buf"
    and "\<forall>(h, d)\<in>set ps. storable (sf_bufsize (snapshot p)) h d" and "length ps < 2 ^ 31"
    and "host_order ho = host_order w \<or> linktype_to_dlt (host_os ho) (dlt_to_linktype (host_os w) (linktype p)) \<notin>
      {DLT_USB_LINUX, DLT_USB_LINUX_MMAPPED, DLT_NFLOG}"
  shows "\<exists>s t. pcap_fopen_offline_with_tstamp_precision ho hp tsize
      \<lparr>pending = written (dump_all w ps f), broken = False\<rparr> (tstamp_precision p) = File s \<and>
    pcap_loop ho hp bs (-1) collect [] s = Some (Returns 0 None, ps, t)"
  using assms by (rule savefile_reads)

theorem savefile_roundtrip_witness:
  "\<exists>f s t. pcap_dump_open (sample_host\<lparr>host_order := Big\<rparr>) (sample_pcap []) ''x.pcap''
      \<lparr>written = [], room = None\<rparr> (Some \<lparr>written = [], room = None\<rparr>) = Inr f \<and>
    pcap_fopen_offline_with_tstamp_precision sample_host zero_heap 0
      \<lparr>pending = written (dump_all (sample_host\<lparr>host_order := Big\<rparr>)
        [(\<lparr>tv_sec = 5, tv_usec = 6, caplen = 2, pkt_len = 60\<rparr>, [7, 8])] f), broken = False\<rparr> 0 = File s \<and>
    pcap_loop sample_host zero_heap ([], None) (-1) collect [] s =
      Some (Returns 0 None, [(\<lparr>tv_sec = 5, tv_usec = 6, caplen = 2, pkt_len = 60\<rparr>, [7, 8])], t)"
proof -
  let ?w = "sample_host\<lparr>host_order := Big\<rparr>"
  let ?o = "\<lparr>written = [], room = None\<rparr>"
  let ?p = "sample_pcap [] :: pcap_sf pcap_t"
  let ?ps = "[(\<lparr>tv_sec = 5, tv_usec = 6, caplen = 2, pkt_len = 60\<rparr>, [7, 8])] :: (pcap_pkthdr \<times> u8 list) list"
  obtain f where f: "pcap_dump_open ?w ?p ''x.pcap'' ?o (Some ?o) = Inr f"
    by (simp add: pcap_dump_open_def pcap_setup_dump_def sf_write_header_def stdio_simps
        sample_pcap_def sample_host_def linktype_defs Let_def)
  have name: "''x.pcap'' \<noteq> ''-''" by simp
  have lt: "linktype_to_dlt Other_OS (dlt_to_linktype Other_OS 1) = 1" by (simp add: linktype_defs)
  have "\<forall>(h, d)\<in>set ?ps. storable (sf_bufsize (snapshot ?p)) h d"
    by (simp add: storable_def fits32_def sample_pcap_def sf_bufsize_def)
  then have "\<exists>s t. pcap_fopen_offline_with_tstamp_precision sample_host zero_heap 0
      \<lparr>pending = written (dump_all ?w ?ps f), broken = False\<rparr> (tstamp_precision ?p) = File s \<and>
    pcap_loop sample_host zero_heap ([], None) (-1) collect [] s = Some (Returns 0 None, ?ps, t)"
    by (intro savefile_roundtrip [OF f name])
      (simp_all add: sample_pcap_def sample_host_def PCAP_TSTAMP_PRECISION_MICRO_def LT_LINKTYPE_def lt)
  then show ?thesis using f by (simp add: sample_pcap_def)
qed









section \<open>Counts, breaks and filters\<close>

text \<open>
  C23. \<open>pcap_offline_read\<close> is its specification on the list of the packets
  the file has left (and what comes after them): the packets that pass the filter are given to
  the callback in order until as many as a positive count says have been given, the callback
  breaks, or the file ends; the number returned, the break flag and the packets left for the next
  call are as \<open>deliver\<close> says, and the filter stays installed.
\<close>

theorem offline_read_refines:
  assumes "reads_to (next_packet_op ho hp) s ps r s'" and "r \<noteq> Crash"
    and "verdicts bs (reader_fcode s) ps"
    and "deliver (passes bs (reader_fcode s)) (limit_of cnt) cb r 0 (reader_break s) u ps = (out, u', stop, rest)"
  shows "\<exists>t. pcap_offline_read ho hp bs cnt cb u s = Some (out, u', t) \<and>
    reader_break t = stop \<and> reader_fcode t = reader_fcode s \<and>
    (\<forall>qs. rest = Some qs \<longrightarrow> (\<exists>t'. reads_to (next_packet_op ho hp) t qs r t'))"
proof -
  have "walk (passes bs (reader_fcode s)) cnt cb r (of_nat 0) (reader_break s) u ps = (out, u', stop, rest)"
    using assms(4) limit_of_Some by (subst walk_deliver) auto
  then show ?thesis
    unfolding pcap_offline_read_def using assms(1-3) by (intro offline_loop_refines) simp_all
qed

text \<open>
  C24. \<open>pcap_loop\<close> without a limit on a savefile returns \<open>-2\<close> exactly when the
  callback calls \<open>pcap_breakloop\<close>: the packets after the one it broke at are still there for the
  next call, and the flag is cleared. Otherwise every packet that passes the filter has been
  delivered, and the result is 0 at the end of the file and -1 with the message on an error.
\<close>

theorem pcap_loop_breaks:
  assumes "reads_to (next_packet_op ho hp) s ps r s'" and "r \<noteq> Crash"
    and "verdicts bs (reader_fcode s) ps" and "\<not> reader_break s"
    and "\<not> 0 < sint cnt" and "length ps < 2 ^ 31"
  shows "case feed (passes bs (reader_fcode s)) cb u ps of
      (u', None) \<Rightarrow> \<exists>t. pcap_loop ho hp bs cnt cb u s = Some (ending r, u', t)
    | (u', Some qs) \<Rightarrow> \<exists>t t'. pcap_loop ho hp bs cnt cb u s = Some (Returns (-2) None, u', t) \<and>
        \<not> reader_break t \<and> reader_fcode t = reader_fcode s \<and>
        reads_to (next_packet_op ho hp) t qs r t'"
  using assms by (rule pcap_loop_refines)

text \<open>
  A filter that \<open>install_bpf_program\<close> refuses leaves the handle as it was
  when it is not valid, and without a filter when memory ran out; what is installed in the end
  is valid or what was there before, so that a handle without a filter never runs one that the
  validator has not seen.
\<close>

theorem install_validated:
  "case install_bpf_program hp f s of
     (Inl e, t) \<Rightarrow> if bpf_validate f then reader_fcode t = None else t = s
   | (Inr _, t) \<Rightarrow> bpf_validate f \<and> reader_fcode t = Some f \<and> reader_break t = reader_break s \<and>
       reader_wf hp t = reader_wf hp s"
  by (auto simp: install_bpf_program_def reader.prog_put reader.brk_put reader.wf_put split: option.split)

text \<open>
  \<open>pcap_next_ex\<close> gives the next packet that passes the filter with 1, and -1
  with an error; but for a savefile it returns \<open>-2\<close> both at the end of the file and when
  \<open>pcap_breakloop\<close> had been called, with nothing in the result to tell the two apart.
\<close>

theorem next_ex_ambiguous:
  assumes "reads_to (next_packet_op ho hp) s [] Eof s'"
  shows "\<exists>t t'. pcap_next_ex ho hp bs (set_break False s) = Some (Returns (-2) None, None, t) \<and>
    pcap_next_ex ho hp bs (pcap_breakloop s) = Some (Returns (-2) None, None, t') \<and>
    reads_to (next_packet_op ho hp) t' [] Eof (set_break False s')"
proof -
  have nx: "next_packet_op ho hp s = (Eof, s')" using assms by (auto elim: reads_to_NilE)
  have keep: "reader_fcode s' = reader_fcode s" using reader.nxt_keeps [OF nx] by simp
  then have eof: "next_packet_op ho hp (set_break b s) = (Eof, set_break b s')" for b
    by (simp add: set_break_def reader.nxt_put nx)
  have "pcap_next_ex ho hp bs (set_break False s) = Some (Returns (-2) None, None, set_break False s')"
    unfolding pcap_next_ex_def pcap_offline_read_def
    by (subst offline_loop.simps) (simp add: reader_breakloop eof)
  moreover have again: "set_break False (pcap_breakloop s) = set_break False s"
    by (simp add: set_break_def pcap_breakloop_def reader.put_put reader.prog_put)
  have "pcap_next_ex ho hp bs (pcap_breakloop s) = Some (Returns (-2) None, None, set_break False s)"
    unfolding pcap_next_ex_def pcap_offline_read_def
    by (subst offline_loop.simps) (simp add: reader_breakloop again)
  moreover have "reads_to (next_packet_op ho hp) (set_break False s) [] Eof (set_break False s')"
    using eof [of False] by (intro reads_stop) auto
  ultimately show ?thesis by blast
qed

section \<open>Instances\<close>

definition two_packets :: "(pcap_pkthdr \<times> u8 list) list" where
  "two_packets = [(\<lparr>tv_sec = 1, tv_usec = 0, caplen = 2, pkt_len = 60\<rparr>, [7, 8]),
     (\<lparr>tv_sec = 2, tv_usec = 0, caplen = 1, pkt_len = 60\<rparr>, [9])]"

definition sample_reader :: "(pcap_pkthdr \<times> u8 list) list \<Rightarrow> reader" where
  "sample_reader ps = (Pcap_file (sample_pcap (concat (map (\<lambda>(h, d). dump_bytes sample_host h d) ps))), 0)"

lemma sample_reader_reads:
  assumes "\<forall>(h, d)\<in>set ps. storable 4 h d"
  shows "\<exists>s'. reads_to (next_packet_op sample_host zero_heap) (sample_reader ps) ps Eof s'"
  unfolding sample_reader_def
  by (rule sf_reads_all [of sample_host sample_host])
    (use assms in \<open>simp_all add: reads_from_def sf_wf_def sample_pcap_def sample_host_def\<close>)

lemma sample_reader_fields [simp]:
  "reader_fcode (sample_reader ps) = None" "\<not> reader_break (sample_reader ps)"
  "reader_wf hp (sample_reader ps)"
  by (simp_all add: sample_reader_def sample_pcap_def sf_wf_def)

lemma two_packets_stored: "\<forall>(h, d)\<in>set two_packets. storable 4 h d"
  by (simp add: two_packets_def storable_def fits32_def)


theorem offline_read_refines_witness:
  "\<exists>t. pcap_offline_read sample_host zero_heap ([], None) 1 collect [] (sample_reader two_packets) =
      Some (Returns 1 None, [hd two_packets], t) \<and> \<not> reader_break t"
proof -
  obtain s' where run: "reads_to (next_packet_op sample_host zero_heap) (sample_reader two_packets) two_packets Eof s'"
    using sample_reader_reads [OF two_packets_stored] by blast
  have ver: "verdicts ([], None) (reader_fcode (sample_reader two_packets)) two_packets"
    by (simp add: verdicts_def filter_packet_def)
  have spec: "deliver (passes ([], None) (reader_fcode (sample_reader two_packets))) (limit_of 1) collect Eof 0
      (reader_break (sample_reader two_packets)) [] two_packets =
      (Returns 1 None, [hd two_packets], False, Some (tl two_packets))"
    by (simp add: two_packets_def passes_def filter_packet_def collect_def limit_of_def)
  have "Eof \<noteq> Crash" by simp
  from offline_read_refines [OF run this ver spec] show ?thesis by simp (elim exE conjE, intro exI conjI)
qed

theorem pcap_loop_breaks_witness:
  "\<exists>t t'. pcap_loop sample_host zero_heap ([], None) 0 (\<lambda>h d u. (u + caplen h, True)) 0
      (sample_reader two_packets) = Some (Returns (-2) None, 2, t) \<and> \<not> reader_break t \<and>
    reads_to (next_packet_op sample_host zero_heap) t (tl two_packets) Eof t'"
proof -
  obtain s' where run: "reads_to (next_packet_op sample_host zero_heap) (sample_reader two_packets) two_packets Eof s'"
    using sample_reader_reads [OF two_packets_stored] by blast
  have ver: "verdicts ([], None) (reader_fcode (sample_reader two_packets)) two_packets"
    by (simp add: verdicts_def filter_packet_def)
  have fed: "feed (passes ([], None) (reader_fcode (sample_reader two_packets)))
      (\<lambda>h d u. (u + caplen h, True)) 0 two_packets = (2 :: u32, Some (tl two_packets))"
    by (simp add: two_packets_def passes_def filter_packet_def)
  have "length two_packets < 2 ^ 31" by (simp add: two_packets_def)
  moreover have "Eof \<noteq> Crash" "\<not> 0 < sint (0 :: u32)" by simp_all
  ultimately show ?thesis
    using pcap_loop_breaks [OF run _ ver sample_reader_fields(2), of 0 "\<lambda>h d u. (u + caplen h, True)" 0,
      unfolded fed prod.case option.case] by blast
qed

theorem next_ex_ambiguous_witness:
  "\<exists>t t'. pcap_next_ex sample_host zero_heap ([], None) (set_break False (sample_reader [])) =
      Some (Returns (-2) None, None, t) \<and>
    pcap_next_ex sample_host zero_heap ([], None) (pcap_breakloop (sample_reader [])) =
      Some (Returns (-2) None, None, t')"
proof -
  obtain s' where "reads_to (next_packet_op sample_host zero_heap) (sample_reader []) [] Eof s'"
    using sample_reader_reads [of "[]"] by auto
  from next_ex_ambiguous [OF this] show ?thesis by blast
qed

end
