(* ===== verification/Filter_Reading.thy ===== *)
theory Filter_Reading
  imports Filter_Compile Offline_Read
begin

text \<open>
  The compiler, the interpreter and the reading of savefiles together: a filter is compiled for the
  handle of a savefile (\<open>pcap_compile\<close>), installed (\<open>pcap_setfilter\<close>, which for a savefile is
  \<open>install_bpf_program\<close>), and the file is read with \<open>pcap_loop\<close>.
\<close>

text \<open>The fields of a savefile's handle that the compiler reads, and a packet as the filter sees it.\<close>

definition reader_handle :: "reader \<Rightarrow> filter_handle" where
  "reader_handle s =
     (case fst s of
        Pcap_file p \<Rightarrow> \<lparr>fp_activated = activated p, fp_snapshot = snapshot p, fp_linktype = linktype p\<rparr>
      | Ng_file p \<Rightarrow> \<lparr>fp_activated = activated p, fp_snapshot = snapshot p, fp_linktype = linktype p\<rparr>)"

definition packet_env :: "bpf_setting \<Rightarrow> pcap_pkthdr \<times> u8 list \<Rightarrow> bpf_env" where
  "packet_env bs p = \<lparr>packet = snd p, wirelen = pkt_len (fst p), buflen = caplen (fst p), aux_data = None,
     ancillary = snd bs\<rparr>"

lemma feed_filtered: "feed pass collect acc ps = (acc @ filter (\<lambda>(h, d). pass h d) ps, None)"
proof (induction ps arbitrary: acc)
  case (Cons p ps)
  then show ?case by (cases p) (simp add: collect_def)
qed simp

text \<open>A compiled filter in the loop: it gives the verdict its meaning has.\<close>

lemma compiled_filter_packet:
  assumes run: "\<And>e vm. buffer_ok e \<Longrightarrow> vm_wf vm \<Longrightarrow>
      run_machine (bpf_step code e) (vm\<lparr>pc := 0\<rparr>) = Some (test_outcome n (p e))"
    and "length (fst bs) = BPF_MEMWORDS" and "unat (caplen h) \<le> length d"
  shows "filter_packet bs (Some code) h d = Some (test_outcome n (p (packet_env bs (h, d))))"
  using compiled_run [OF run assms(2,3)]
  by (simp add: filter_packet_def bpf_filter_def packet_env_def)

lemma filtered_loop:
  assumes reads: "reads_to (next_packet_op ho hp) s ps Eof s'" and brk: "\<not> reader_break s" and len: "length ps < 2 ^ 31"
    and run: "\<And>e vm. buffer_ok e \<Longrightarrow> vm_wf vm \<Longrightarrow>
      run_machine (bpf_step code e) (vm\<lparr>pc := 0\<rparr>) = Some (test_outcome n (p e))"
    and valid: "bpf_validate code" and heap: "malloc hp (8 * length code) \<noteq> None"
    and mem: "length (fst bs) = BPF_MEMWORDS"
    and packets: "\<And>q. q \<in> set ps \<Longrightarrow> unat (caplen (fst q)) \<le> length (snd q) \<and>
      (\<exists>v. test_outcome n (p (packet_env bs q)) = Returned v)"
  shows "\<exists>s1 t. install_bpf_program hp code s = (Inr (), s1) \<and>
    pcap_loop ho hp bs (- 1) collect [] s1 =
      Some (Returns 0 None, filter (\<lambda>q. test_outcome n (p (packet_env bs q)) \<noteq> Returned 0) ps, t)"
proof -
  let ?s = "reader_set (reader_break s) (Some code) s"
  have inst: "install_bpf_program hp code s = (Inr (), ?s)"
    using valid heap by (auto simp: install_bpf_program_def)
  have code: "reader_fcode ?s = Some code" "\<not> reader_break ?s"
    using brk by (simp_all add: reader.prog_put reader.brk_put)
  have outcome: "filter_packet bs (Some code) h d = Some (test_outcome n (p (packet_env bs (h, d))))"
    if "(h, d) \<in> set ps" for h d
    by (rule compiled_filter_packet [OF run mem]) (use packets [OF that] in simp_all)
  have "\<exists>v. filter_packet bs (Some code) h d = Some (Returned v)" if "(h, d) \<in> set ps" for h d
    using outcome [OF that] packets [OF that] by simp
  then have "verdicts bs (reader_fcode ?s) ps" by (auto simp: verdicts_def code(1))
  moreover have "filter (\<lambda>(h, d). passes bs (Some code) h d) ps =
      filter (\<lambda>q. test_outcome n (p (packet_env bs q)) \<noteq> Returned 0) ps"
  proof (rule filter_cong)
    fix q assume q: "q \<in> set ps"
    obtain h d where hd: "q = (h, d)" by (cases q)
    show "(case q of (h, d) \<Rightarrow> passes bs (Some code) h d) = (test_outcome n (p (packet_env bs q)) \<noteq> Returned 0)"
      using outcome [of h d] packets [OF q] q by (auto simp: hd passes_def)
  qed simp
  ultimately show ?thesis
    using pcap_loop_refines [OF reader.reads_to_put [OF reads, of "reader_break s" "Some code"], of bs "- 1" collect "[]"]
      code len inst by (simp add: feed_filtered ending_def)
qed

section \<open>Properties\<close>

text \<open>
  C3. Compiling a filter for a savefile, installing it and reading the file to its end delivers
  exactly the packets for which the filter holds, in order and unchanged: \<open>pcap_compile\<close> succeeds,
  \<open>install_bpf_program\<close> accepts the program, and \<open>pcap_loop\<close> without a limit returns 0. The filter
  has a meaning for the link-layer type of the file, and its evaluation on each packet comes to
  a verdict (it does not shift by 32 or more, which the interpreter leaves undefined).
\<close>

theorem filtered_savefile:
  assumes "reads_to (next_packet_op ho hp) s ps Eof s'" and "\<not> reader_break s" and "length ps < 2 ^ 31"
    and "h = reader_handle s" and "fp_activated h" and "fp_snapshot h \<noteq> 0" and "fp_linktype h \<notin> radio_types"
    and "init_linktype (h_platform gh) (h_fddipad gh) (fp_linktype h) = Inr l"
    and "\<And>e'. e = Some e' \<Longrightarrow> plain_expr e' \<and> expr_size db e' + 6 < 2 ^ 31"
    and "filter_meaning db gh l (fp_snapshot h) msk e = Inr p"
    and "\<And>n. malloc hp n \<noteq> None" and "length (fst bs) = BPF_MEMWORDS"
    and "\<And>q. q \<in> set ps \<Longrightarrow> unat (caplen (fst q)) \<le> length (snd q) \<and>
      (\<exists>v. test_outcome (fp_snapshot h) (p (packet_env bs q)) = Returned v)"
  shows "\<exists>code s1 t. pcap_compile db gh h e msk = Some (Inr code) \<and>
    install_bpf_program hp code s = (Inr (), s1) \<and>
    pcap_loop ho hp bs (- 1) collect [] s1 = Some (Returns 0 None,
      filter (\<lambda>q. test_outcome (fp_snapshot h) (p (packet_env bs q)) \<noteq> Returned 0) ps, t)"
proof -
  from compile_outcome [where e = e and msk = msk, OF assms(5-9)] assms(10)
  obtain code where code: "pcap_compile db gh h e msk = Some (Inr code)" "bpf_validate code"
    and run: "\<And>e vm. buffer_ok e \<Longrightarrow> vm_wf vm \<Longrightarrow>
      run_machine (bpf_step code e) (vm\<lparr>pc := 0\<rparr>) = Some (test_outcome (fp_snapshot h) (p e))" by auto
  from filtered_loop [OF assms(1-3) run code(2) assms(11,12,13)] code(1) show ?thesis by blast
qed

text \<open>A file with a DNS query between two other packets.\<close>

definition dns_header :: pcap_pkthdr where
  "dns_header = \<lparr>tv_sec = 1, tv_usec = 0, caplen = 42, pkt_len = 42\<rparr>"

definition dns_packets :: "(pcap_pkthdr \<times> u8 list) list" where
  "dns_packets = [(dns_header, dns_packet 54), (dns_header, dns_packet 53), (dns_header\<lparr>caplen := 20\<rparr>, take 20 (dns_packet 53))]"

definition dns_reader :: reader where
  "dns_reader =
     (Pcap_file ((sample_pcap (concat (map (\<lambda>(h, d). dump_bytes sample_host h d) dns_packets)))
       \<lparr>snapshot := 65535, bufsize := 42, buffer := Some (replicate 42 0)\<rparr>), 0)"

theorem filtered_savefile_witness:
  "\<exists>code s1 t. pcap_compile no_databases linux_host (reader_handle dns_reader) (Some dns_filter) 0 = Some (Inr code) \<and>
    install_bpf_program zero_heap code dns_reader = (Inr (), s1) \<and>
    pcap_loop sample_host zero_heap (replicate 16 0, None) (- 1) collect [] s1 =
      Some (Returns 0 None, [(dns_header, dns_packet 53)], t)"
proof -
  have stored: "\<forall>(h, d)\<in>set dns_packets. storable 42 h d"
    by (simp add: dns_packets_def storable_def fits32_def dns_header_def dns_packet_def)
  have "\<exists>s'. reads_to (next_packet_op sample_host zero_heap) dns_reader dns_packets Eof s'"
    unfolding dns_reader_def
    by (rule sf_reads_all [of sample_host sample_host])
      (use stored in \<open>simp_all add: reads_from_def sf_wf_def sample_pcap_def sample_host_def\<close>)
  then obtain s' where reads: "reads_to (next_packet_op sample_host zero_heap) dns_reader dns_packets Eof s'" by blast
  have h: "reader_handle dns_reader = \<lparr>fp_activated = True, fp_snapshot = 65535, fp_linktype = 1\<rparr>"
    by (simp add: reader_handle_def dns_reader_def sample_pcap_def)
  have l: "init_linktype Other_OS 0 1 = Inr ether_layout" by code_simp
  have e: "plain_expr dns_filter" "expr_size no_databases dns_filter + 6 < 2 ^ 31"
    by (simp_all add: dns_filter_def plain_quals_def)
  have radio: "1 \<notin> radio_types" by (simp add: radio_types_def)
  have linux: "h_platform linux_host = Other_OS" "h_fddipad linux_host = 0" by (simp_all add: linux_host_def)
  obtain p where p: "filter_meaning no_databases linux_host ether_layout 65535 0 (Some dns_filter) = Inr p"
    using dns_tests(1) by (cases "filter_meaning no_databases linux_host ether_layout 65535 0 (Some dns_filter)")
      (simp_all add: dns_test_def)
  have "map (\<lambda>q. dns_test ether_layout (packet_env (replicate 16 0, None) q)) dns_packets =
      [Some (Returned 0), Some (Returned 65535), Some (Returned 0)]" by code_simp
  then have out: "map (\<lambda>q. test_outcome 65535 (p (packet_env (replicate 16 0, None) q))) dns_packets =
      [Returned 0, Returned 65535, Returned 0]" by (simp add: dns_test_def p dns_packets_def)
  have "\<not> reader_break dns_reader" by (simp add: dns_reader_def sample_pcap_def)
  moreover have "length dns_packets < 2 ^ 31" by (simp add: dns_packets_def)
  moreover have "unat (caplen (fst q)) \<le> length (snd q) \<and>
      (\<exists>v. test_outcome 65535 (p (packet_env (replicate 16 0, None) q)) = Returned v)" if "q \<in> set dns_packets" for q
    using that out by (auto simp: dns_packets_def dns_header_def dns_packet_def)
  ultimately have "\<exists>code s1 t. pcap_compile no_databases linux_host (reader_handle dns_reader) (Some dns_filter) 0 = Some (Inr code) \<and>
    install_bpf_program zero_heap code dns_reader = (Inr (), s1) \<and>
    pcap_loop sample_host zero_heap (replicate 16 0, None) (- 1) collect [] s1 = Some (Returns 0 None,
      filter (\<lambda>q. test_outcome (fp_snapshot (reader_handle dns_reader)) (p (packet_env (replicate 16 0, None) q)) \<noteq> Returned 0) dns_packets, t)"
    by (intro filtered_savefile [OF reads _ _ refl, where l = ether_layout])
      (use e in \<open>simp_all add: h p l radio linux\<close>)
  moreover have "filter (\<lambda>q. test_outcome 65535 (p (packet_env (replicate 16 0, None) q)) \<noteq> Returned 0) dns_packets =
      [(dns_header, dns_packet 53)]"
    using out by (simp add: dns_packets_def)
  ultimately show ?thesis by (simp add: h)
qed

end
