(* ===== verification/Opt_Values.thy ===== *)
theory Opt_Values
  imports Tree_Run
begin

unbundle bit_operations_syntax

text \<open>
  The optimizer's work on the statements of a block (optimize.c): value numbering, constant
  folding and the rewriting of statements whose operands are known (\<open>F\<close>, \<open>vstore\<close>, \<open>fold_op\<close>,
  \<open>opt_stmt\<close>), and the removal of dead definitions (\<open>atomuse\<close>, \<open>atomdef\<close>, \<open>deadstmt\<close>,
  \<open>opt_deadstores\<close>).

  An atom is a scratch location (0 to 15), the accumulator (16) or the index register (17). A value
  number stands for a value of the run; 0 is no value. What the rewriting preserves is stated with
  an interpretation of the value numbers by the values of the run.
\<close>

section \<open>Value numbers\<close>

definition N_ATOMS :: nat where "N_ATOMS = 18"
definition A_ATOM :: nat where "A_ATOM = 16"
definition X_ATOM :: nat where "X_ATOM = 17"
definition AX_ATOM :: nat where "AX_ATOM = N_ATOMS"

lemmas atom_defs = N_ATOMS_def A_ATOM_def X_ATOM_def

record valnode =
  vn_code :: u32
  vn_v0 :: u32
  vn_v1 :: u32
  vn_val :: u32

text \<open>
  The hash table of nodes, the last value number, what is constant (\<open>vmap\<close>), and the flag \<open>done\<close>,
  which a change resets. Value numbers are \<open>int\<close>s in the code.
\<close>

record valtable =
  vt_hash :: "nat \<Rightarrow> valnode list"
  vt_curval :: u32
  vt_vmap :: "u32 \<Rightarrow> u32 option"
  vt_done :: bool

definition init_val :: "bool \<Rightarrow> valtable" where
  "init_val dn = \<lparr>vt_hash = (\<lambda>_. []), vt_curval = 0, vt_vmap = (\<lambda>_. None), vt_done = dn\<rparr>"

definition hash_of :: "u32 \<Rightarrow> u32 \<Rightarrow> u32 \<Rightarrow> nat" where
  "hash_of code v0 v1 = unat ((code XOR push_bit 4 v0 XOR push_bit 8 v1) mod 213)"

fun find_node :: "u32 \<Rightarrow> u32 \<Rightarrow> u32 \<Rightarrow> valnode list \<Rightarrow> u32 option" where
  "find_node code v0 v1 [] = None"
| "find_node code v0 v1 (p # ps) =
     (if vn_code p = code \<and> vn_v0 p = v0 \<and> vn_v1 p = v1 then Some (vn_val p)
      else find_node code v0 v1 ps)"

text \<open>\<open>BPF_MODE(code) == BPF_IMM\<close> for a load.\<close>

definition is_immediate :: "u32 \<Rightarrow> bool" where
  "is_immediate code \<longleftrightarrow> code AND 0xe0 = 0 \<and> (code AND 0x07 = 0 \<or> code AND 0x07 = 1)"

definition F :: "u32 \<Rightarrow> u32 \<Rightarrow> u32 \<Rightarrow> valtable \<Rightarrow> u32 \<times> valtable" where
  "F code v0 v1 vt =
     (let h = hash_of code v0 v1 in
      case find_node code v0 v1 (vt_hash vt h) of
        Some v \<Rightarrow> (v, vt)
      | None \<Rightarrow>
          let v = vt_curval vt + 1;
              m = (if is_immediate code then (vt_vmap vt)(v \<mapsto> v0) else vt_vmap vt);
              p = \<lparr>vn_code = code, vn_v0 = v0, vn_v1 = v1, vn_val = v\<rparr>
          in (v, vt\<lparr>vt_curval := v, vt_vmap := m, vt_hash := (vt_hash vt)(h := p # vt_hash vt h)\<rparr>))"

definition op_code :: "opcode \<Rightarrow> u32" where
  "op_code op = ucast (label op)"

definition K :: "u32 \<Rightarrow> valtable \<Rightarrow> u32 \<times> valtable" where
  "K i vt = F (op_code Ld_Imm) i 0 vt"

definition changed :: "valtable \<Rightarrow> valtable" where
  "changed vt = vt\<lparr>vt_done := False\<rparr>"

text \<open>\<open>vstore\<close>: the statement and the values of the atoms afterwards.\<close>

definition vstore :: "stmt \<Rightarrow> nat \<Rightarrow> u32 \<Rightarrow> bool \<Rightarrow> u32 list \<Rightarrow> stmt \<times> u32 list" where
  "vstore s a newval alter val =
     (if alter \<and> val ! a = newval then (s\<lparr>s_code := NOP\<rparr>, val) else (s, val[a := newval]))"

section \<open>Constant folding\<close>

text \<open>The errors: those of \<open>bpf_error\<close>, \<open>abort()\<close>, and what C leaves undefined.\<close>

datatype opt_error = Division_by_zero | Modulus_by_zero | Opt_abort | Undefined_shift | Bad_atom

text \<open>The result of an operation on constants; a shift by 32 or more is undefined in C.\<close>

fun fold_alu :: "alu \<Rightarrow> u32 \<Rightarrow> u32 \<Rightarrow> opt_error + u32" where
  "fold_alu Add a b = Inr (a + b)"
| "fold_alu Sub a b = Inr (a - b)"
| "fold_alu Mul a b = Inr (a * b)"
| "fold_alu Div a b = (if b = 0 then Inl Division_by_zero else Inr (a div b))"
| "fold_alu Mod a b = (if b = 0 then Inl Modulus_by_zero else Inr (a mod b))"
| "fold_alu And a b = Inr (a AND b)"
| "fold_alu Or a b = Inr (a OR b)"
| "fold_alu Xor a b = Inr (a XOR b)"
| "fold_alu Lsh a b = (if unat b < 32 then Inr (push_bit (unat b) a) else Inl Undefined_shift)"
| "fold_alu Rsh a b = (if unat b < 32 then Inr (drop_bit (unat b) a) else Inl Undefined_shift)"

text \<open>\<open>vmap[v].const_val\<close> of a value that is not constant is 0, as the table is zeroed.\<close>

definition const_val :: "valtable \<Rightarrow> u32 \<Rightarrow> u32" where
  "const_val vt v = (case vt_vmap vt v of None \<Rightarrow> 0 | Some c \<Rightarrow> c)"

definition is_const :: "valtable \<Rightarrow> u32 \<Rightarrow> bool" where
  "is_const vt v \<longleftrightarrow> vt_vmap vt v \<noteq> None"

definition fold_op :: "alu \<Rightarrow> stmt \<Rightarrow> u32 \<Rightarrow> u32 \<Rightarrow> valtable \<Rightarrow> opt_error + (stmt \<times> valtable)" where
  "fold_op op s v0 v1 vt =
     (case fold_alu op (const_val vt v0) (const_val vt v1) of
        Inl e \<Rightarrow> Inl e
      | Inr a \<Rightarrow> Inr (s\<lparr>s_k := a, s_code := op_code Ld_Imm\<rparr>, changed vt))"

section \<open>One statement\<close>

type_synonym opt_result = "opt_error + (stmt \<times> u32 list \<times> valtable)"

definition with_store :: "stmt \<Rightarrow> nat \<Rightarrow> bool \<Rightarrow> u32 list \<Rightarrow> u32 \<times> valtable \<Rightarrow> opt_result" where
  "with_store s a alter val r = (case r of (v, vt) \<Rightarrow> case vstore s a v alter val of (s, val) \<Rightarrow> Inr (s, val, vt))"

definition assign_A :: "stmt \<Rightarrow> u32 list \<Rightarrow> u32 \<times> valtable \<Rightarrow> opt_result" where
  "assign_A s val r = (case r of (v, vt) \<Rightarrow> Inr (s, val[A_ATOM := v], vt))"

definition opt_ind :: "ld_size \<Rightarrow> stmt \<Rightarrow> u32 list \<Rightarrow> bool \<Rightarrow> valtable \<Rightarrow> opt_result" where
  "opt_ind sz s val alter vt =
     (let v = val ! X_ATOM in
      if alter \<and> is_const vt v then
        let s = s\<lparr>s_code := op_code (Ld_Abs sz), s_k := s_k s + const_val vt v\<rparr>
        in with_store s A_ATOM alter val (F (s_code s) (s_k s) 0 (changed vt))
      else with_store s A_ATOM alter val (F (s_code s) (s_k s) v vt))"

definition opt_neg :: "stmt \<Rightarrow> u32 list \<Rightarrow> bool \<Rightarrow> valtable \<Rightarrow> opt_result" where
  "opt_neg s val alter vt =
     (if alter \<and> is_const vt (val ! A_ATOM) then
        let s = s\<lparr>s_code := op_code Ld_Imm, s_k := - const_val vt (val ! A_ATOM)\<rparr>
        in assign_A s val (K (s_k s) vt)
      else assign_A s val (F (s_code s) (val ! A_ATOM) 0 vt))"

definition opt_alu_k :: "alu \<Rightarrow> stmt \<Rightarrow> u32 list \<Rightarrow> bool \<Rightarrow> valtable \<Rightarrow> opt_result" where
  "opt_alu_k op s val alter vt =
     (if alter \<and> s_k s = 0 \<and> op \<in> {Add, Lsh, Rsh, Or, Xor} then Inr (s\<lparr>s_code := NOP\<rparr>, val, vt)
      else if alter \<and> s_k s = 0 \<and> op \<in> {Mul, And} then
        assign_A (s\<lparr>s_code := op_code Ld_Imm\<rparr>) val (K (s_k s) vt)
      else if alter \<and> is_const vt (val ! A_ATOM) then
        (case K (s_k s) vt of (v1, vt) \<Rightarrow>
           (case fold_op op s (val ! A_ATOM) v1 vt of
              Inl e \<Rightarrow> Inl e
            | Inr (s, vt) \<Rightarrow> assign_A s val (K (s_k s) vt)))
      else (case K (s_k s) vt of (v1, vt) \<Rightarrow> assign_A s val (F (s_code s) (val ! A_ATOM) v1 vt)))"

definition opt_alu_x :: "alu \<Rightarrow> stmt \<Rightarrow> u32 list \<Rightarrow> bool \<Rightarrow> valtable \<Rightarrow> opt_result" where
  "opt_alu_x op s val alter vt =
     (if alter \<and> is_const vt (val ! X_ATOM) then
        if is_const vt (val ! A_ATOM) then
          (case fold_op op s (val ! A_ATOM) (val ! X_ATOM) vt of
             Inl e \<Rightarrow> Inl e
           | Inr (s, vt) \<Rightarrow> assign_A s val (K (s_k s) vt))
        else
          let s = s\<lparr>s_code := op_code (Alu op SrcK), s_k := const_val vt (val ! X_ATOM)\<rparr>
          in (case K (s_k s) (changed vt) of (v1, vt) \<Rightarrow> assign_A s val (F (s_code s) (val ! A_ATOM) v1 vt))
      else if alter \<and> is_const vt (val ! A_ATOM) \<and> const_val vt (val ! A_ATOM) = 0 \<and> op \<in> {Add, Or, Xor} then
        with_store (s\<lparr>s_code := op_code Txa\<rparr>) A_ATOM alter val (val ! X_ATOM, vt)
      else if alter \<and> is_const vt (val ! A_ATOM) \<and> const_val vt (val ! A_ATOM) = 0 \<and>
        op \<in> {Mul, Div, Mod, And, Lsh, Rsh} then
        let s = s\<lparr>s_code := op_code Ld_Imm, s_k := 0\<rparr> in with_store s A_ATOM alter val (K (s_k s) vt)
      else assign_A s val (F (s_code s) (val ! A_ATOM) (val ! X_ATOM) vt))"

text \<open>An index behind \<open>val[]\<close> is an error: the code reads or writes there.\<close>

definition opt_mem :: "opcode \<Rightarrow> nat \<Rightarrow> stmt \<Rightarrow> u32 list \<Rightarrow> bool \<Rightarrow> valtable \<Rightarrow> opt_result" where
  "opt_mem imm a s val alter vt =
     (if N_ATOMS \<le> unat (s_k s) then Inl Bad_atom
      else
        let v = val ! unat (s_k s) in
        if alter \<and> is_const vt v then
          with_store (s\<lparr>s_code := op_code imm, s_k := const_val vt v\<rparr>) a alter val (v, changed vt)
        else with_store s a alter val (v, vt))"

definition opt_st :: "nat \<Rightarrow> stmt \<Rightarrow> u32 list \<Rightarrow> bool \<Rightarrow> valtable \<Rightarrow> opt_result" where
  "opt_st a s val alter vt =
     (if N_ATOMS \<le> unat (s_k s) then Inl Bad_atom
      else with_store s (unat (s_k s)) alter val (val ! a, vt))"

text \<open>\<open>switch (s->code)\<close>; the codes without a case, among them that of a deleted statement, stay.\<close>

fun opt_op :: "opcode \<Rightarrow> stmt \<Rightarrow> u32 list \<Rightarrow> bool \<Rightarrow> valtable \<Rightarrow> opt_result" where
  "opt_op (Ld_Abs sz) s val alter vt = with_store s A_ATOM alter val (F (s_code s) (s_k s) 0 vt)"
| "opt_op (Ld_Ind sz) s val alter vt = opt_ind sz s val alter vt"
| "opt_op Ld_Len s val alter vt = with_store s A_ATOM alter val (F (s_code s) 0 0 vt)"
| "opt_op Ld_Imm s val alter vt = with_store s A_ATOM alter val (K (s_k s) vt)"
| "opt_op Ldx_Imm s val alter vt = with_store s X_ATOM alter val (K (s_k s) vt)"
| "opt_op Ldx_Msh s val alter vt = with_store s X_ATOM alter val (F (s_code s) (s_k s) 0 vt)"
| "opt_op Neg s val alter vt = opt_neg s val alter vt"
| "opt_op (Alu op SrcK) s val alter vt = opt_alu_k op s val alter vt"
| "opt_op (Alu op SrcX) s val alter vt = opt_alu_x op s val alter vt"
| "opt_op Txa s val alter vt = with_store s A_ATOM alter val (val ! X_ATOM, vt)"
| "opt_op Ld_Mem s val alter vt = opt_mem Ld_Imm A_ATOM s val alter vt"
| "opt_op Tax s val alter vt = with_store s X_ATOM alter val (val ! A_ATOM, vt)"
| "opt_op Ldx_Mem s val alter vt = opt_mem Ldx_Imm X_ATOM s val alter vt"
| "opt_op St s val alter vt = opt_st A_ATOM s val alter vt"
| "opt_op Stx s val alter vt = opt_st X_ATOM s val alter vt"
| "opt_op op s val alter vt = Inr (s, val, vt)"

definition opt_stmt :: "stmt \<Rightarrow> u32 list \<Rightarrow> bool \<Rightarrow> valtable \<Rightarrow> opt_result" where
  "opt_stmt s val alter vt =
     (case decode (stmt_code s) of
        None \<Rightarrow> Inr (s, val, vt)
      | Some op \<Rightarrow> if s_code s = op_code op then opt_op op s val alter vt else Inr (s, val, vt))"

text \<open>The loop of \<open>opt_blk\<close> over the statements of a block.\<close>

fun opt_stmts :: "slist list \<Rightarrow> u32 list \<Rightarrow> bool \<Rightarrow> valtable \<Rightarrow> opt_error + (slist list \<times> u32 list \<times> valtable)" where
  "opt_stmts [] val alter vt = Inr ([], val, vt)"
| "opt_stmts (x # xs) val alter vt =
     (case opt_stmt (sl_stmt x) val alter vt of
        Inl e \<Rightarrow> Inl e
      | Inr (s, val, vt) \<Rightarrow>
          (case opt_stmts xs val alter vt of
             Inl e \<Rightarrow> Inl e
           | Inr (xs, val, vt) \<Rightarrow> Inr (x\<lparr>sl_stmt := s\<rparr> # xs, val, vt)))"

section \<open>Dead definitions\<close>

text \<open>
  The atoms a statement uses and the one it defines. The code has a negative number for none and a
  number of its own for both registers; a scratch location is \<open>s->k\<close> as an \<open>int\<close>.
\<close>

definition mem_atom :: "u32 \<Rightarrow> nat option" where
  "mem_atom k = (if 0 \<le> sint k then Some (unat k) else None)"

text \<open>\<open>atom == AX_ATOM\<close>: both registers.\<close>

definition used_atoms :: "nat \<Rightarrow> nat list" where
  "used_atoms a = (if a = AX_ATOM then [X_ATOM, A_ATOM] else [a])"

lemma used_atoms [simp]:
  "used_atoms A_ATOM = [A_ATOM]" "used_atoms AX_ATOM = [X_ATOM, A_ATOM]" "a < 16 \<Longrightarrow> used_atoms a = [a]"
  by (simp_all add: used_atoms_def AX_ATOM_def atom_defs)

definition atomuse :: "stmt \<Rightarrow> opt_error + nat list" where
  "atomuse s =
     (let c = stmt_code s in
      if s_code s = NOP then Inr []
      else if BPF_CLASS c = BPF_RET then
        Inr (if BPF_RVAL c = BPF_A then [A_ATOM] else if BPF_RVAL c = BPF_X then [X_ATOM] else [])
      else if BPF_CLASS c = BPF_LD \<or> BPF_CLASS c = BPF_LDX then
        Inr (if BPF_MODE c = BPF_IND then [X_ATOM]
             else if BPF_MODE c = BPF_MEM then (case mem_atom (s_k s) of None \<Rightarrow> [] | Some a \<Rightarrow> used_atoms a)
             else [])
      else if BPF_CLASS c = BPF_ST then Inr [A_ATOM]
      else if BPF_CLASS c = BPF_STX then Inr [X_ATOM]
      else if BPF_CLASS c = BPF_JMP \<or> BPF_CLASS c = BPF_ALU then
        Inr (used_atoms (if BPF_SRC c = BPF_X then AX_ATOM else A_ATOM))
      else if BPF_CLASS c = BPF_MISC then Inr [if BPF_MISCOP c = BPF_TXA then X_ATOM else A_ATOM]
      else Inl Opt_abort)"

definition atomdef :: "stmt \<Rightarrow> nat option" where
  "atomdef s =
     (let c = stmt_code s in
      if s_code s = NOP then None
      else if BPF_CLASS c = BPF_LD \<or> BPF_CLASS c = BPF_ALU then Some A_ATOM
      else if BPF_CLASS c = BPF_LDX then Some X_ATOM
      else if BPF_CLASS c = BPF_ST \<or> BPF_CLASS c = BPF_STX then mem_atom (s_k s)
      else if BPF_CLASS c = BPF_MISC then Some (if BPF_MISCOP c = BPF_TAX then X_ATOM else A_ATOM)
      else None)"

text \<open>
  The statements with the branch at the end, \<open>last[]\<close> as positions among them, and \<open>done\<close>. An
  atom outside the array is an error: the code writes there.
\<close>

record deads =
  ds_stmts :: "stmt list"
  ds_last :: "nat option list"
  ds_done :: bool

definition delete_at :: "nat \<Rightarrow> deads \<Rightarrow> deads" where
  "delete_at j d = d\<lparr>ds_stmts := (ds_stmts d)[j := (ds_stmts d ! j)\<lparr>s_code := NOP\<rparr>], ds_done := False\<rparr>"

definition forget :: "nat list \<Rightarrow> deads \<Rightarrow> deads" where
  "forget us d = d\<lparr>ds_last := fold (\<lambda>u l. l[u := None]) us (ds_last d)\<rparr>"

definition deadstmt :: "nat \<Rightarrow> deads \<Rightarrow> opt_error + deads" where
  "deadstmt i d =
     (let s = ds_stmts d ! i in
      case atomuse s of
        Inl e \<Rightarrow> Inl e
      | Inr us \<Rightarrow>
          if list_ex (\<lambda>u. N_ATOMS \<le> u) us then Inl Bad_atom
          else
            let d = forget us d in
            case atomdef s of
              None \<Rightarrow> Inr d
            | Some a \<Rightarrow>
                if N_ATOMS \<le> a then Inl Bad_atom
                else
                  let d = (case ds_last d ! a of None \<Rightarrow> d | Some j \<Rightarrow> delete_at j d)
                  in Inr (d\<lparr>ds_last := (ds_last d)[a := Some i]\<rparr>))"

fun deadstmts :: "nat list \<Rightarrow> deads \<Rightarrow> opt_error + deads" where
  "deadstmts [] d = Inr d"
| "deadstmts (i # is) d = (case deadstmt i d of Inl e \<Rightarrow> Inl e | Inr d \<Rightarrow> deadstmts is d)"

definition bury_atom :: "(nat \<Rightarrow> bool) \<Rightarrow> nat \<Rightarrow> deads \<Rightarrow> deads" where
  "bury_atom out_use a d = (case ds_last d ! a of None \<Rightarrow> d | Some j \<Rightarrow> if out_use a then d else delete_at j d)"

definition opt_deadstores :: "slist list \<Rightarrow> stmt \<Rightarrow> (nat \<Rightarrow> bool) \<Rightarrow> bool \<Rightarrow> opt_error + (slist list \<times> stmt \<times> bool)" where
  "opt_deadstores ss b out_use dn =
     (let d = \<lparr>ds_stmts = map sl_stmt ss @ [b], ds_last = replicate N_ATOMS None, ds_done = dn\<rparr> in
      case deadstmts [0..<Suc (length ss)] d of
        Inl e \<Rightarrow> Inl e
      | Inr d \<Rightarrow>
          let d = fold (bury_atom out_use) [0..<N_ATOMS] d
          in Inr (map2 (\<lambda>x s. x\<lparr>sl_stmt := s\<rparr>) ss (ds_stmts d), ds_stmts d ! length ss, ds_done d))"

end
