(* ===== verification/Opt_Sound.thy ===== *)
theory Opt_Sound
  imports Opt_Values
begin

unbundle bit_operations_syntax

text \<open>
  What the optimizer's rewriting of statements preserves: a run of the statements that does not
  reject the packet ends with the same registers and scratch memory, and the value numbers stand
  for the values of that run. The runs that do reject the packet may be changed, as two examples
  show.
\<close>

section \<open>Statements as assignments\<close>

type_synonym regs = "u32 \<times> u32 \<times> u32 list"

definition regs_of :: "bpf_vm \<Rightarrow> regs" where
  "regs_of vm = (reg_A vm, reg_X vm, scratch vm)"

fun atom :: "regs \<Rightarrow> nat \<Rightarrow> u32" where
  "atom (a, x, m) i = (if i = A_ATOM then a else if i = X_ATOM then x else m ! i)"

fun set_atom :: "nat \<Rightarrow> u32 \<Rightarrow> regs \<Rightarrow> regs" where
  "set_atom i v (a, x, m) = (if i = A_ATOM then (v, x, m) else if i = X_ATOM then (a, v, m) else (a, x, m[i := v]))"

definition ok :: "u32 + bpf_outcome \<Rightarrow> u32 option" where
  "ok r = (case r of Inl v \<Rightarrow> Some v | Inr _ \<Rightarrow> None)"

lemma ok_iff [simp]: "ok r = Some v \<longleftrightarrow> r = Inl v" "ok (Inl v) = Some v" "ok (Inr u) = None"
  by (cases r) (simp_all add: ok_def)

text \<open>The value a straight instruction computes, and the atom it assigns.\<close>

fun op_value :: "bpf_env \<Rightarrow> opcode \<Rightarrow> u32 \<Rightarrow> regs \<Rightarrow> u32 option" where
  "op_value e (Ld_Abs sz) k (a, x, m) = ok (ld_abs e sz k)"
| "op_value e (Ld_Ind sz) k (a, x, m) = ok (ld_ind e sz x k)"
| "op_value e Ld_Len k (a, x, m) = Some (wirelen e)"
| "op_value e Ldx_Len k (a, x, m) = Some (wirelen e)"
| "op_value e Ldx_Msh k (a, x, m) = ok (ldx_msh e k)"
| "op_value e Ld_Imm k (a, x, m) = Some k"
| "op_value e Ldx_Imm k (a, x, m) = Some k"
| "op_value e Ld_Mem k (a, x, m) = ok (mem_read m k)"
| "op_value e Ldx_Mem k (a, x, m) = ok (mem_read m k)"
| "op_value e St k (a, x, m) = (if unat k < 16 then Some a else None)"
| "op_value e Stx k (a, x, m) = (if unat k < 16 then Some x else None)"
| "op_value e (Alu op SrcK) k (a, x, m) = ok (alu_op op SrcK a k)"
| "op_value e (Alu op SrcX) k (a, x, m) = ok (alu_op op SrcX a x)"
| "op_value e Neg k (a, x, m) = Some (- a)"
| "op_value e Tax k (a, x, m) = Some a"
| "op_value e Txa k (a, x, m) = Some x"
| "op_value e _ k r = None"

fun target :: "opcode \<Rightarrow> u32 \<Rightarrow> nat" where
  "target Ldx_Len k = X_ATOM"
| "target Ldx_Msh k = X_ATOM"
| "target Ldx_Imm k = X_ATOM"
| "target Ldx_Mem k = X_ATOM"
| "target Tax k = X_ATOM"
| "target St k = unat k"
| "target Stx k = unat k"
| "target _ k = A_ATOM"

fun uses :: "opcode \<Rightarrow> u32 \<Rightarrow> nat set" where
  "uses (Ld_Ind sz) k = {X_ATOM}"
| "uses Ld_Mem k = {unat k}"
| "uses Ldx_Mem k = {unat k}"
| "uses St k = {A_ATOM}"
| "uses Stx k = {X_ATOM}"
| "uses (Alu op SrcK) k = {A_ATOM}"
| "uses (Alu op SrcX) k = {A_ATOM, X_ATOM}"
| "uses Neg k = {A_ATOM}"
| "uses Tax k = {A_ATOM}"
| "uses Txa k = {X_ATOM}"
| "uses _ k = {}"

lemma exec_stmt_value:
  assumes "decode (stmt_code s) = Some op" and "straight_op op" and "length (scratch vm) = 16"
  shows "exec_stmt e s vm = Inl vm' \<longleftrightarrow>
    (\<exists>v. op_value e op (s_k s) (regs_of vm) = Some v \<and> regs_of vm' = set_atom (target op (s_k s)) v (regs_of vm) \<and>
      pc vm' = pc vm + 1)"
proof -
  have k: "i_k (stmt_insn s) = s_k s" by (simp add: stmt_insn_def BPF_STMT_def)
  have vm: "vm' = vm'' \<longleftrightarrow> regs_of vm' = regs_of vm'' \<and> pc vm' = pc vm''" for vm' vm'' :: bpf_vm
    by (auto simp: regs_of_def)
  show ?thesis
  proof (cases op)
    case (Alu a sr)
    then show ?thesis using assms
      by (cases sr) (auto simp: exec_stmt_def k set_reg_defs vm regs_of_def atom_defs split: sum.splits)
  next
    case St
    then show ?thesis using assms
      by (auto simp: exec_stmt_def k set_reg_defs vm regs_of_def atom_defs mem_write_def split: sum.splits if_splits)
  next
    case Stx
    then show ?thesis using assms
      by (auto simp: exec_stmt_def k set_reg_defs vm regs_of_def atom_defs mem_write_def split: sum.splits if_splits)
  qed (use assms in \<open>auto simp: exec_stmt_def k set_reg_defs vm regs_of_def atom_defs split: sum.splits\<close>)
qed

lemma atom_set [simp]:
  "i < N_ATOMS \<Longrightarrow> length (snd (snd r)) = 16 \<Longrightarrow> atom (set_atom i v r) j = (if i = j then v else atom r j)"
  by (cases r) (auto simp: atom_defs)

lemma ucast_up_down [simp]: "(ucast (ucast (w :: u16) :: u32) :: u16) = w"
  by (rule bit_word_eqI) (simp add: bit_simps)

lemma length_set_atom [simp]: "length (snd (snd (set_atom i v r))) = length (snd (snd r))"
  by (cases r) simp

lemma op_value_uses:
  assumes "\<forall>i\<in>uses op k. atom r i = atom r' i" and "length (snd (snd r)) = 16" "length (snd (snd r')) = 16"
  shows "op_value e op k r' = op_value e op k r"
proof -
  obtain a x m a' x' m' where r: "r = (a, x, m)" "r' = (a', x', m')" by (metis prod_cases3)
  show ?thesis
  proof (cases op)
    case (Alu b sr)
    with assms r show ?thesis by (cases sr) (auto simp: atom_defs)
  qed (use assms r in \<open>auto simp: atom_defs mem_read_def\<close>)
qed

section \<open>What value numbers stand for\<close>

text \<open>
  The value of a node, for an interpretation \<open>I\<close> of value numbers in a run on the packet of \<open>e\<close>;
  \<open>deps\<close> are the value numbers among its operands.
\<close>

fun op_meaning :: "bpf_env \<Rightarrow> (u32 \<Rightarrow> u32) \<Rightarrow> opcode \<Rightarrow> u32 \<Rightarrow> u32 \<Rightarrow> u32 option" where
  "op_meaning e I (Ld_Abs sz) v0 v1 = ok (ld_abs e sz v0)"
| "op_meaning e I (Ld_Ind sz) v0 v1 = ok (ld_ind e sz (I v1) v0)"
| "op_meaning e I Ld_Len v0 v1 = Some (wirelen e)"
| "op_meaning e I Ldx_Msh v0 v1 = ok (ldx_msh e v0)"
| "op_meaning e I Ld_Imm v0 v1 = Some v0"
| "op_meaning e I Neg v0 v1 = Some (- I v0)"
| "op_meaning e I (Alu op sr) v0 v1 = ok (alu_op op sr (I v0) (I v1))"
| "op_meaning e I _ v0 v1 = None"

fun op_deps :: "opcode \<Rightarrow> u32 \<Rightarrow> u32 \<Rightarrow> u32 set" where
  "op_deps (Ld_Ind sz) v0 v1 = {v1}"
| "op_deps Neg v0 v1 = {v0}"
| "op_deps (Alu op sr) v0 v1 = {v0, v1}"
| "op_deps _ v0 v1 = {}"

definition node_ok :: "bpf_env \<Rightarrow> (u32 \<Rightarrow> u32) \<Rightarrow> valtable \<Rightarrow> valnode \<Rightarrow> bool" where
  "node_ok e I vt p \<longleftrightarrow> vn_val p \<noteq> 0 \<and> vn_val p \<le> vt_curval vt \<and>
     (is_immediate (vn_code p) \<longrightarrow> vt_vmap vt (vn_val p) = Some (vn_v0 p)) \<and>
     (\<exists>op. vn_code p = op_code op \<and> (\<forall>v\<in>op_deps op (vn_v0 p) (vn_v1 p). v \<le> vt_curval vt) \<and>
       op_meaning e I op (vn_v0 p) (vn_v1 p) = Some (I (vn_val p)))"

definition table_ok :: "bpf_env \<Rightarrow> (u32 \<Rightarrow> u32) \<Rightarrow> valtable \<Rightarrow> bool" where
  "table_ok e I vt \<longleftrightarrow> (\<forall>h. \<forall>p\<in>set (vt_hash vt h). node_ok e I vt p) \<and>
     (\<forall>v c. vt_vmap vt v = Some c \<longrightarrow> v \<noteq> 0 \<and> v \<le> vt_curval vt \<and> I v = c)"

definition extends :: "(u32 \<Rightarrow> u32) \<Rightarrow> valtable \<Rightarrow> (u32 \<Rightarrow> u32) \<Rightarrow> valtable \<Rightarrow> bool" where
  "extends I vt I' vt' \<longleftrightarrow> vt_curval vt \<le> vt_curval vt' \<and> (\<forall>v \<le> vt_curval vt. I' v = I v)"

text \<open>A value number with the value it stands for.\<close>

definition stands :: "(u32 \<Rightarrow> u32) \<Rightarrow> valtable \<Rightarrow> u32 \<Rightarrow> u32 \<Rightarrow> bool" where
  "stands I vt v w \<longleftrightarrow> v \<noteq> 0 \<and> v \<le> vt_curval vt \<and> I v = w"

definition vals_ok :: "(u32 \<Rightarrow> u32) \<Rightarrow> valtable \<Rightarrow> u32 list \<Rightarrow> regs \<Rightarrow> bool" where
  "vals_ok I vt val r \<longleftrightarrow> length val = N_ATOMS \<and> length (snd (snd r)) = 16 \<and>
     (\<forall>i < N_ATOMS. val ! i \<noteq> 0 \<longrightarrow> stands I vt (val ! i) (atom r i))"

lemma extends_refl [simp]: "extends I vt I vt" "extends I vt I (changed vt)"
  by (simp_all add: extends_def changed_def)

lemma extends_trans: "extends I vt I1 vt1 \<Longrightarrow> extends I1 vt1 I2 vt2 \<Longrightarrow> extends I vt I2 vt2"
  by (auto simp: extends_def)

lemma stands_extends: "stands I vt v w \<Longrightarrow> extends I vt I' vt' \<Longrightarrow> stands I' vt' v w"
  by (auto simp: stands_def extends_def)

lemma vals_ok_extends: "vals_ok I vt val r \<Longrightarrow> extends I vt I' vt' \<Longrightarrow> vals_ok I' vt' val r"
  by (auto simp: vals_ok_def intro: stands_extends)

lemma table_ok_changed [simp]: "table_ok e I (changed vt) = table_ok e I vt"
  by (simp add: table_ok_def node_ok_def changed_def)

lemma changed_simps [simp]: "vt_curval (changed vt) = vt_curval vt" "vt_vmap (changed vt) = vt_vmap vt"
  by (simp_all add: changed_def)

lemma vals_ok_store:
  assumes "vals_ok I vt val r" and "stands I vt v w" and "a < N_ATOMS"
  shows "vals_ok I vt (val[a := v]) (set_atom a w r)"
  using assms by (auto simp: vals_ok_def N_ATOMS_def nth_list_update)

text \<open>Only the immediate load of the accumulator is immediate and has a meaning.\<close>

lemma is_immediate_meaning:
  assumes "is_immediate (op_code op)" and "op_meaning e I op v0 v1 = Some w"
  shows "w = v0"
proof -
  have "op = Ld_Imm \<or> op_meaning e I op v0 v1 = None \<or> \<not> is_immediate (op_code op)"
  proof (cases op)
    case (Ld_Abs sz)
    then show ?thesis by (cases sz) (simp_all add: is_immediate_def op_code_def)
  next
    case (Ld_Ind sz)
    then show ?thesis by (cases sz) (simp_all add: is_immediate_def op_code_def)
  next
    case (Alu a sr)
    then show ?thesis by (cases a; cases sr) (simp_all add: is_immediate_def op_code_def)
  qed (simp_all add: is_immediate_def op_code_def)
  with assms show ?thesis by auto
qed

lemma op_meaning_cong:
  "\<forall>v\<in>op_deps op v0 v1. I' v = I v \<Longrightarrow> op_meaning e I' op v0 v1 = op_meaning e I op v0 v1"
  by (cases op) simp_all

lemma node_ok_extends:
  assumes "node_ok e I vt p" and "extends I vt I' vt'"
    and "\<And>v c. v \<le> vt_curval vt \<Longrightarrow> vt_vmap vt v = Some c \<Longrightarrow> vt_vmap vt' v = Some c"
  shows "node_ok e I' vt' p"
proof -
  from assms(1) obtain op where p: "vn_val p \<noteq> 0" "vn_val p \<le> vt_curval vt"
    "is_immediate (vn_code p) \<longrightarrow> vt_vmap vt (vn_val p) = Some (vn_v0 p)" "vn_code p = op_code op"
    "\<forall>v\<in>op_deps op (vn_v0 p) (vn_v1 p). v \<le> vt_curval vt"
    "op_meaning e I op (vn_v0 p) (vn_v1 p) = Some (I (vn_val p))" unfolding node_ok_def by blast
  have "op_meaning e I' op (vn_v0 p) (vn_v1 p) = Some (I' (vn_val p))"
    using p assms(2) op_meaning_cong [of op "vn_v0 p" "vn_v1 p" I' I] by (simp add: extends_def)
  moreover have "vt_curval vt \<le> vt_curval vt'" using assms(2) by (simp add: extends_def)
  ultimately show ?thesis using p assms(3) unfolding node_ok_def by (meson order_trans)
qed

lemma find_node_some: "find_node code v0 v1 ps = Some v \<Longrightarrow>
   \<exists>p\<in>set ps. vn_code p = code \<and> vn_v0 p = v0 \<and> vn_v1 p = v1 \<and> vn_val p = v"
  by (induction ps) (auto split: if_splits)

lemma op_code_inject [simp]: "op_code a = op_code b \<longleftrightarrow> a = b"
proof
  assume "op_code a = op_code b"
  then have "ucast (ucast (label a) :: u32) = (ucast (ucast (label b) :: u32) :: u16)"
    unfolding op_code_def by (rule arg_cong)
  then show "a = b" by (simp add: label_inject)
qed simp

lemma decode_op_code [simp]: "decode (ucast (op_code op)) = Some op"
  by (simp add: op_code_def decode_Some_iff)

text \<open>\<open>F\<close> gives a number for the value of its operation, and a known constant its own.\<close>

lemma F_stands:
  assumes t: "table_ok e I vt" and m: "op_meaning e I op v0 v1 = Some w"
    and d: "\<forall>v\<in>op_deps op v0 v1. v \<le> vt_curval vt" and room: "vt_curval vt \<noteq> - 1"
    and f: "F (op_code op) v0 v1 vt = (v, vt')"
  shows "\<exists>I'. table_ok e I' vt' \<and> extends I vt I' vt' \<and> stands I' vt' v w \<and>
    (op = Ld_Imm \<longrightarrow> vt_vmap vt' v = Some v0) \<and> unat (vt_curval vt') \<le> unat (vt_curval vt) + 1"
proof (cases "find_node (op_code op) v0 v1 (vt_hash vt (hash_of (op_code op) v0 v1))")
  case (Some u)
  with f have eq: "u = v" "vt' = vt" by (simp_all add: F_def Let_def)
  from find_node_some [OF Some] obtain p where p: "p \<in> set (vt_hash vt (hash_of (op_code op) v0 v1))"
    "vn_code p = op_code op" "vn_v0 p = v0" "vn_v1 p = v1" "vn_val p = u" by blast
  with t have n: "node_ok e I vt p" unfolding table_ok_def by blast
  with p m have "stands I vt v w" by (auto simp: node_ok_def stands_def eq)
  moreover have "op = Ld_Imm \<longrightarrow> vt_vmap vt v = Some v0"
    using n p by (auto simp: node_ok_def eq is_immediate_def op_code_def)
  ultimately show ?thesis using t by (intro exI [of _ I]) (simp add: eq)
next
  case None
  define n where "n = vt_curval vt + 1"
  let ?I = "I(n := w)"
  have n: "n \<noteq> 0" "vt_curval vt < n" "unat n = unat (vt_curval vt) + 1"
  proof -
    have nz: "1 + vt_curval vt \<noteq> 0" using room by (metis add.commute add_eq_0_iff2)
    from unatSuc [OF this] show "unat n = unat (vt_curval vt) + 1" by (simp add: n_def add.commute)
    then show "vt_curval vt < n" by (simp add: word_less_nat_alt)
    show "n \<noteq> 0" using nz by (simp add: n_def add.commute)
  qed
  from None f have v: "v = n" and vt': "vt' = vt\<lparr>vt_curval := n,
      vt_vmap := (if is_immediate (op_code op) then (vt_vmap vt)(n \<mapsto> v0) else vt_vmap vt),
      vt_hash := (vt_hash vt)(hash_of (op_code op) v0 v1 :=
        \<lparr>vn_code = op_code op, vn_v0 = v0, vn_v1 = v1, vn_val = n\<rparr> # vt_hash vt (hash_of (op_code op) v0 v1))\<rparr>"
    by (auto simp: F_def Let_def n_def)
  have ext: "extends I vt ?I vt'" using n by (auto simp: extends_def vt')
  have old: "v \<le> vt_curval vt \<Longrightarrow> vt_vmap vt v = Some c \<Longrightarrow> vt_vmap vt' v = Some c" for v c
    using n by (auto simp: vt')
  have "op_meaning e ?I op v0 v1 = Some w"
    using m d n op_meaning_cong [of op v0 v1 ?I I e] by force
  then have new: "node_ok e ?I vt' \<lparr>vn_code = op_code op, vn_v0 = v0, vn_v1 = v1, vn_val = n\<rparr>"
    using n d by (fastforce simp: node_ok_def vt')
  have nodes: "\<forall>h. \<forall>p\<in>set (vt_hash vt' h). node_ok e ?I vt' p"
    using t new node_ok_extends [OF _ ext old] by (auto simp: vt' table_ok_def split: if_splits)
  have vmaps: "u \<noteq> 0 \<and> u \<le> vt_curval vt' \<and> ?I u = c" if "vt_vmap vt' u = Some c" for u c
  proof (cases "u = n")
    case True
    have "vt_vmap vt n = None" using t n unfolding table_ok_def by (meson leD not_Some_eq)
    with True that n is_immediate_meaning [OF _ m] show ?thesis by (auto simp: vt' split: if_splits)
  next
    case False
    with that t n show ?thesis by (fastforce simp: vt' table_ok_def split: if_splits)
  qed
  have "op = Ld_Imm \<longrightarrow> vt_vmap vt' v = Some v0"
    by (auto simp: vt' v is_immediate_def op_code_def)
  with nodes vmaps ext n show ?thesis
    by (intro exI [of _ ?I]) (simp add: table_ok_def stands_def v vt')
qed

lemma F_vmap:
  assumes "u \<le> vt_curval vt" and "vt_vmap vt u = Some c" and "F code v0 v1 vt = (v, vt')"
    and "unat (vt_curval vt) + 2 < 2 ^ 32"
  shows "vt_vmap vt' u = Some c"
proof -
  have "unat (vt_curval vt + 1) = unat (vt_curval vt) + 1" using assms(4) by (simp add: unat_word_ariths)
  then have "u \<noteq> vt_curval vt + 1" using assms(1) by (auto simp: word_le_nat_alt)
  then show ?thesis using assms(2,3) by (auto simp: F_def Let_def split: option.splits if_splits)
qed

lemma K_stands:
  assumes "table_ok e I vt" and "vt_curval vt \<noteq> - 1" and "K k vt = (v, vt')"
  shows "\<exists>I'. table_ok e I' vt' \<and> extends I vt I' vt' \<and> stands I' vt' v k \<and> vt_vmap vt' v = Some k \<and>
    unat (vt_curval vt') \<le> unat (vt_curval vt) + 1"
  using F_stands [of e I vt Ld_Imm k 0 k v vt'] assms by (simp add: K_def)

section \<open>One statement\<close>

text \<open>The rewritten statement still assigns the value to the atom, or the atom has it already.\<close>

definition does :: "bpf_env \<Rightarrow> stmt \<Rightarrow> regs \<Rightarrow> u32 \<Rightarrow> nat \<Rightarrow> bool" where
  "does e s r w a \<longleftrightarrow> s_code s = NOP \<and> atom r a = w \<or>
     (\<exists>op. s_code s = op_code op \<and> straight_op op \<and> target op (s_k s) = a \<and> op_value e op (s_k s) r = Some w)"

definition preserved ::
  "bpf_env \<Rightarrow> (u32 \<Rightarrow> u32) \<Rightarrow> valtable \<Rightarrow> u32 list \<Rightarrow> regs \<Rightarrow> u32 \<Rightarrow> nat \<Rightarrow> opt_result \<Rightarrow> bool" where
  "preserved e I vt val r w a res \<longleftrightarrow> (\<exists>s' v vt' I'. res = Inr (s', val[a := v], vt') \<and> does e s' r w a \<and>
     table_ok e I' vt' \<and> extends I vt I' vt' \<and> stands I' vt' v w \<and>
     unat (vt_curval vt') \<le> unat (vt_curval vt) + 2)"

lemma preserved_store:
  assumes "vals_ok I vt val r" "a < N_ATOMS" "does e s r w a"
    and "table_ok e I' vt'" "extends I vt I' vt'" "stands I' vt' v w"
    and "unat (vt_curval vt') \<le> unat (vt_curval vt) + 2"
  shows "preserved e I vt val r w a (with_store s a alter val (v, vt'))"
proof (cases "alter \<and> val ! a = v")
  case True
  have "stands I' vt' (val ! a) (atom r a)"
  proof -
    have "val ! a \<noteq> 0" using True assms(6) by (simp add: stands_def)
    with assms(1,2) have "stands I vt (val ! a) (atom r a)" by (simp add: vals_ok_def)
    with assms(5) show ?thesis by (rule stands_extends [rotated])
  qed
  then have "atom r a = w" using True assms(6) by (simp add: stands_def)
  then have "does e (s\<lparr>s_code := NOP\<rparr>) r w a" by (simp add: does_def)
  moreover have "val = val[a := v]" using True by (metis list_update_id)
  ultimately show ?thesis using True assms unfolding preserved_def with_store_def vstore_def by auto
next
  case False
  then show ?thesis using assms unfolding preserved_def with_store_def vstore_def by auto
qed

lemma preserved_assign:
  assumes "does e s r w A_ATOM" and "table_ok e I' vt'" "extends I vt I' vt'" "stands I' vt' v w"
    and "unat (vt_curval vt') \<le> unat (vt_curval vt) + 2"
  shows "preserved e I vt val r w A_ATOM (assign_A s val (v, vt'))"
  using assms unfolding preserved_def assign_A_def by auto

lemma preserved_F:
  assumes "vals_ok I vt val r" "a < N_ATOMS" "does e s r w a" "table_ok e I vt"
    and "op_meaning e I op v0 v1 = Some w" "\<forall>v\<in>op_deps op v0 v1. v \<le> vt_curval vt" "vt_curval vt \<noteq> - 1"
  shows "preserved e I vt val r w a (with_store s a alter val (F (op_code op) v0 v1 vt))"
proof -
  obtain v vt' where f: "F (op_code op) v0 v1 vt = (v, vt')" by fastforce
  from F_stands [OF assms(4-7) f] obtain I' where "table_ok e I' vt'" "extends I vt I' vt'" "stands I' vt' v w"
    "unat (vt_curval vt') \<le> unat (vt_curval vt) + 1" by blast
  then show ?thesis unfolding f by (intro preserved_store [OF assms(1-3)]) simp_all
qed

lemma preserved_K:
  assumes "vals_ok I vt val r" "a < N_ATOMS" "does e s r w a" "table_ok e I vt" "vt_curval vt \<noteq> - 1"
  shows "preserved e I vt val r w a (with_store s a alter val (K w vt))"
  unfolding K_def by (rule preserved_F [OF assms(1-4) _ _ assms(5)]) simp_all

lemma extends_room:
  assumes "unat (vt_curval vt') \<le> unat (vt_curval vt) + 1" and "unat (vt_curval vt) + 2 < 2 ^ 32"
  shows "vt_curval vt' \<noteq> - 1"
proof
  assume "vt_curval vt' = - 1"
  then have "unat (vt_curval vt') = 2 ^ 32 - 1" by (simp add: unsigned_minus_1_eq_mask mask_eq_exp_minus_1)
  with assms show False by simp
qed

text \<open>A number made after another one.\<close>

lemma preserved_assign_F:
  assumes s: "does e s r w A_ATOM" and t: "table_ok e I1 vt1" and x: "extends I vt I1 vt1"
    and m: "op_meaning e I1 op v0 v1 = Some w" "\<forall>v\<in>op_deps op v0 v1. v \<le> vt_curval vt1"
    and room: "unat (vt_curval vt1) \<le> unat (vt_curval vt) + 1" "unat (vt_curval vt) + 2 < 2 ^ 32"
  shows "preserved e I vt val r w A_ATOM (assign_A s val (F (op_code op) v0 v1 vt1))"
proof -
  obtain v vt' where f: "F (op_code op) v0 v1 vt1 = (v, vt')" by fastforce
  from F_stands [OF t m extends_room [OF room] f] obtain I' where "table_ok e I' vt'" "extends I1 vt1 I' vt'"
    "stands I' vt' v w" "unat (vt_curval vt') \<le> unat (vt_curval vt1) + 1" by blast
  then show ?thesis unfolding f using s room extends_trans [OF x] by (intro preserved_assign) auto
qed

lemma preserved_assign_K:
  assumes "does e s r w A_ATOM" "table_ok e I1 vt1" "extends I vt I1 vt1"
    and "unat (vt_curval vt1) \<le> unat (vt_curval vt) + 1" "unat (vt_curval vt) + 2 < 2 ^ 32"
  shows "preserved e I vt val r w A_ATOM (assign_A s val (K w vt1))"
  unfolding K_def using assms by (intro preserved_assign_F) simp_all

text \<open>
  A load relative to a known index register becomes an absolute one. Where the relative load
  delivers, so does the absolute one, if the offsets of the ancillary data lie behind the packet.
\<close>

definition behind :: "bpf_env \<Rightarrow> bool" where
  "behind e \<longleftrightarrow> (\<forall>tag present. ancillary e = Some (tag, present) \<longrightarrow> buflen e \<le> tag \<and> buflen e \<le> present)"

lemma ld_ind_abs:
  assumes "behind e" and "ld_ind e sz x k = Inl w"
  shows "ld_abs e sz (k + x) = Inl w"
proof (cases sz)
  case SzW
  with assms index_sum [of k "buflen e" x] show ?thesis
    by (auto simp: add.commute word_le_nat_alt not_less Let_def split: if_splits)
next
  case SzH
  with assms index_sum [of x "buflen e" k] show ?thesis
    by (auto simp: add.commute word_le_nat_alt not_less Let_def split: if_splits)
next
  case SzB
  then have r: "k < buflen e" "x < buflen e - k" and p: "packet_byte (packet e) (unat (k + x)) = Inl w"
    using assms(2) by (auto simp: Let_def add.commute split: if_splits)
  have "unat (buflen e - k) = unat (buflen e) - unat k" using r(1) by (simp add: unat_diff_le)
  with r index_sum(1) [of k "buflen e" x] have "k + x < buflen e"
    by (simp add: word_less_nat_alt word_le_nat_alt add.commute)
  with assms(1) p SzB show ?thesis
    by (auto simp: ld_abs_byte_def behind_def not_le split: option.splits)
qed

lemma fold_alu_ok: "alu_op op sr a x = Inl w \<Longrightarrow> fold_alu op a x = Inr w"
  by (cases op; cases sr) (auto split: if_splits)

lemma known_value:
  assumes "table_ok e I vt" "vals_ok I vt val r" "i < N_ATOMS" "is_const vt (val ! i)"
  shows "const_val vt (val ! i) = atom r i" and "val ! i \<noteq> 0"
proof -
  obtain c where c: "vt_vmap vt (val ! i) = Some c" using assms(4) by (auto simp: is_const_def)
  with assms(1) have "val ! i \<noteq> 0" "I (val ! i) = c" unfolding table_ok_def by blast+
  with assms(2,3) c show "const_val vt (val ! i) = atom r i" "val ! i \<noteq> 0"
    by (auto simp: vals_ok_def stands_def const_val_def)
qed

lemma stands_atom:
  "vals_ok I vt val r \<Longrightarrow> i < N_ATOMS \<Longrightarrow> val ! i \<noteq> 0 \<Longrightarrow> stands I vt (val ! i) (atom r i)"
  by (simp add: vals_ok_def)

text \<open>Every statement whose operands have numbers, in a run that goes on after it.\<close>

lemma preserved_ind:
  assumes v: "vals_ok I vt val r" and t: "table_ok e I vt" and s: "s_code s = op_code (Ld_Ind sz)"
    and known: "val ! X_ATOM \<noteq> 0" and w: "op_value e (Ld_Ind sz) (s_k s) r = Some w"
    and room: "vt_curval vt \<noteq> - 1" and behind: "behind e"
  shows "preserved e I vt val r w A_ATOM (opt_ind sz s val alter vt)"
proof -
  obtain a x m where r: "r = (a, x, m)" by (metis prod_cases3)
  have A: "A_ATOM < N_ATOMS" and X: "X_ATOM < N_ATOMS" by (simp_all add: atom_defs)
  have x: "atom r X_ATOM = x" by (simp add: r atom_defs)
  have st: "stands I vt (val ! X_ATOM) x" using stands_atom [OF v X known] x by simp
  have l: "ld_ind e sz x (s_k s) = Inl w" using w by (simp add: r)
  show ?thesis
  proof (cases "alter \<and> is_const vt (val ! X_ATOM)")
    case True
    let ?s = "s\<lparr>s_code := op_code (Ld_Abs sz), s_k := s_k s + x\<rparr>"
    have c: "const_val vt (val ! X_ATOM) = x" using known_value [OF t v X] True x by simp
    have abs: "ld_abs e sz (s_k s + x) = Inl w" by (rule ld_ind_abs [OF behind l])
    then have "does e ?s r w A_ATOM" by (auto simp: does_def r intro: exI [of _ "Ld_Abs sz"])
    moreover have "vals_ok I (changed vt) val r" using v by (simp add: vals_ok_def stands_def)
    ultimately have "preserved e I (changed vt) val r w A_ATOM
        (with_store ?s A_ATOM alter val (F (op_code (Ld_Abs sz)) (s_k s + x) 0 (changed vt)))"
      using A t abs room by (intro preserved_F) simp_all
    then show ?thesis using True c by (simp add: opt_ind_def Let_def preserved_def extends_def)
  next
    case False
    have "does e s r w A_ATOM" using s w by (auto simp: does_def intro: exI [of _ "Ld_Ind sz"])
    then have "preserved e I vt val r w A_ATOM
        (with_store s A_ATOM alter val (F (op_code (Ld_Ind sz)) (s_k s) (val ! X_ATOM) vt))"
      using A t v l st room by (intro preserved_F) (simp_all add: stands_def)
    then show ?thesis using False by (auto simp: opt_ind_def s Let_def)
  qed
qed

lemma preserved_neg:
  assumes v: "vals_ok I vt val r" and t: "table_ok e I vt" and s: "s_code s = op_code Neg"
    and known: "val ! A_ATOM \<noteq> 0" and room: "unat (vt_curval vt) + 2 < 2 ^ 32"
  shows "preserved e I vt val r (- atom r A_ATOM) A_ATOM (opt_neg s val alter vt)"
proof -
  have A: "A_ATOM < N_ATOMS" by (simp add: atom_defs)
  have st: "stands I vt (val ! A_ATOM) (atom r A_ATOM)" by (rule stands_atom [OF v A known])
  show ?thesis
  proof (cases "alter \<and> is_const vt (val ! A_ATOM)")
    case True
    let ?s = "s\<lparr>s_code := op_code Ld_Imm, s_k := - atom r A_ATOM\<rparr>"
    have c: "const_val vt (val ! A_ATOM) = atom r A_ATOM" using known_value [OF t v A] True by simp
    have "does e ?s r (- atom r A_ATOM) A_ATOM"
      by (cases r) (auto simp: does_def intro: exI [of _ Ld_Imm])
    from preserved_assign_K [OF this t extends_refl(1) _ room] True c show ?thesis
      by (simp add: opt_neg_def Let_def)
  next
    case False
    have "does e s r (- atom r A_ATOM) A_ATOM"
      using s by (cases r) (auto simp: does_def atom_defs intro: exI [of _ Neg])
    moreover have "op_meaning e I Neg (val ! A_ATOM) 0 = Some (- atom r A_ATOM)" using st by (simp add: stands_def)
    ultimately have "preserved e I vt val r (- atom r A_ATOM) A_ATOM (assign_A s val (F (op_code Neg) (val ! A_ATOM) 0 vt))"
      using st by (intro preserved_assign_F [OF _ t extends_refl(1) _ _ _ room]) (simp_all add: stands_def)
    then show ?thesis using False by (auto simp: opt_neg_def s)
  qed
qed

lemma neutral_alu: "op \<in> {Add, Lsh, Rsh, Or, Xor} \<Longrightarrow> alu_op op sr a 0 = Inl w \<Longrightarrow> w = a"
  by (cases sr) auto

lemma zero_alu: "op \<in> {Mul, And} \<Longrightarrow> alu_op op sr a 0 = Inl w \<Longrightarrow> w = 0"
  by (cases sr) auto

lemma zero_left_alu:
  "op \<in> {Add, Or, Xor} \<Longrightarrow> alu_op op sr 0 x = Inl w \<Longrightarrow> w = x"
  "op \<in> {Mul, Div, Mod, And, Lsh, Rsh} \<Longrightarrow> alu_op op sr 0 x = Inl w \<Longrightarrow> w = 0"
  by (cases sr; auto split: if_splits)+

lemma alu_op_const: "alu_op op SrcX a x = Inl w \<Longrightarrow> alu_op op SrcK a x = Inl w"
  by (cases op) (auto split: if_splits)

lemma does_imm: "s_code s = op_code Ld_Imm \<Longrightarrow> s_k s = w \<Longrightarrow> does e s r w A_ATOM"
  by (cases r) (auto simp: does_def intro: exI [of _ Ld_Imm])

lemma preserved_alu_k:
  assumes v: "vals_ok I vt val r" and t: "table_ok e I vt" and s: "s_code s = op_code (Alu op SrcK)"
    and known: "val ! A_ATOM \<noteq> 0" and w: "alu_op op SrcK (atom r A_ATOM) (s_k s) = Inl w"
    and room: "unat (vt_curval vt) + 2 < 2 ^ 32"
  shows "preserved e I vt val r w A_ATOM (opt_alu_k op s val alter vt)"
proof -
  have A: "A_ATOM < N_ATOMS" by (simp add: atom_defs)
  have st: "stands I vt (val ! A_ATOM) (atom r A_ATOM)" by (rule stands_atom [OF v A known])
  obtain v1 vt1 where k: "K (s_k s) vt = (v1, vt1)" by fastforce
  have "vt_curval vt \<noteq> - 1" using room by (intro extends_room [of vt vt]) simp_all
  from K_stands [OF t this k] obtain I1 where t1: "table_ok e I1 vt1" and x1: "extends I vt I1 vt1"
    and s1: "stands I1 vt1 v1 (s_k s)" and c1: "vt_vmap vt1 v1 = Some (s_k s)"
    and r1: "unat (vt_curval vt1) \<le> unat (vt_curval vt) + 1" by blast
  have st1: "stands I1 vt1 (val ! A_ATOM) (atom r A_ATOM)" by (rule stands_extends [OF st x1])
  consider (neutral) "alter" "s_k s = 0" "op \<in> {Add, Lsh, Rsh, Or, Xor}"
    | (zero) "alter" "s_k s = 0" "op \<in> {Mul, And}"
    | (const) "alter" "is_const vt (val ! A_ATOM)" "\<not> (s_k s = 0 \<and> op \<in> {Add, Lsh, Rsh, Or, Xor, Mul, And})"
    | (other) "\<not> (alter \<and> (is_const vt (val ! A_ATOM) \<or> s_k s = 0 \<and> op \<in> {Add, Lsh, Rsh, Or, Xor, Mul, And}))"
    by fastforce
  then show ?thesis
  proof cases
    case neutral
    with neutral_alu w have "w = atom r A_ATOM" by metis
    then have "does e (s\<lparr>s_code := NOP\<rparr>) r w A_ATOM" by (simp add: does_def)
    moreover have "val = val[A_ATOM := val ! A_ATOM]" by simp
    ultimately show ?thesis using neutral t st \<open>w = atom r A_ATOM\<close>
      unfolding preserved_def opt_alu_k_def by force
  next
    case zero
    then have "w = 0" using zero_alu w by metis
    with preserved_assign_K [OF does_imm t extends_refl(1) _ room, of "s\<lparr>s_code := op_code Ld_Imm\<rparr>" 0] zero
    show ?thesis by (auto simp: opt_alu_k_def)
  next
    case const
    have ca: "const_val vt (val ! A_ATOM) = atom r A_ATOM" using known_value [OF t v A] const by simp
    have cv: "const_val vt1 (val ! A_ATOM) = atom r A_ATOM"
      using F_vmap [of "val ! A_ATOM" vt _ "op_code Ld_Imm" "s_k s" 0 v1 vt1] st const(2) ca k room
      by (auto simp: stands_def is_const_def const_val_def K_def)
    have "fold_alu op (atom r A_ATOM) (s_k s) = Inr w" by (rule fold_alu_ok [OF w])
    moreover have "const_val vt1 v1 = s_k s" by (simp add: const_val_def c1)
    ultimately have f: "fold_op op s (val ! A_ATOM) v1 vt1 = Inr (s\<lparr>s_k := w, s_code := op_code Ld_Imm\<rparr>, changed vt1)"
      by (simp add: fold_op_def cv)
    have "table_ok e I1 (changed vt1)" "extends I vt I1 (changed vt1)"
      using t1 x1 by (simp_all add: extends_def)
    from preserved_assign_K [OF does_imm this _ room, of "s\<lparr>s_k := w, s_code := op_code Ld_Imm\<rparr>" w] r1 const k f
    show ?thesis by (auto simp: opt_alu_k_def)
  next
    case other
    have "does e s r w A_ATOM" using s w by (cases r) (auto simp: does_def atom_defs intro: exI [of _ "Alu op SrcK"])
    with preserved_assign_F [OF this t1 x1 _ _ r1 room, of "Alu op SrcK" "val ! A_ATOM" v1] w st1 s1 other k
    show ?thesis by (auto simp: opt_alu_k_def s stands_def)
  qed
qed

lemma preserved_alu_x:
  assumes v: "vals_ok I vt val r" and t: "table_ok e I vt" and s: "s_code s = op_code (Alu op SrcX)"
    and known: "val ! A_ATOM \<noteq> 0" "val ! X_ATOM \<noteq> 0"
    and w: "alu_op op SrcX (atom r A_ATOM) (atom r X_ATOM) = Inl w"
    and room: "unat (vt_curval vt) + 2 < 2 ^ 32"
  shows "preserved e I vt val r w A_ATOM (opt_alu_x op s val alter vt)"
proof -
  have A: "A_ATOM < N_ATOMS" and X: "X_ATOM < N_ATOMS" by (simp_all add: atom_defs)
  have sa: "stands I vt (val ! A_ATOM) (atom r A_ATOM)" by (rule stands_atom [OF v A known(1)])
  have sx: "stands I vt (val ! X_ATOM) (atom r X_ATOM)" by (rule stands_atom [OF v X known(2)])
  have room1: "vt_curval vt \<noteq> - 1" using room by (intro extends_room [of vt vt]) simp_all
  let ?cA = "is_const vt (val ! A_ATOM)" and ?cX = "is_const vt (val ! X_ATOM)"
  have va: "?cA \<Longrightarrow> const_val vt (val ! A_ATOM) = atom r A_ATOM" using known_value [OF t v A] by simp
  have vx: "?cX \<Longrightarrow> const_val vt (val ! X_ATOM) = atom r X_ATOM" using known_value [OF t v X] by simp
  consider (both) "alter" "?cX" "?cA" | (one) "alter" "?cX" "\<not> ?cA"
    | (other) "\<not> (alter \<and> ?cX)" "\<not> (alter \<and> ?cA \<and> atom r A_ATOM = 0)" | (zero) "alter" "\<not> ?cX" "?cA" "atom r A_ATOM = 0"
    by blast
  then show ?thesis
  proof cases
    case both
    from fold_alu_ok [OF w] both have
      f: "fold_op op s (val ! A_ATOM) (val ! X_ATOM) vt = Inr (s\<lparr>s_k := w, s_code := op_code Ld_Imm\<rparr>, changed vt)"
      by (simp add: fold_op_def va vx)
    from preserved_assign_K [OF does_imm _ extends_refl(2) _ room, of "s\<lparr>s_k := w, s_code := op_code Ld_Imm\<rparr>" w] t both f
    show ?thesis by (auto simp: opt_alu_x_def)
  next
    case one
    let ?s = "s\<lparr>s_code := op_code (Alu op SrcK), s_k := atom r X_ATOM\<rparr>"
    obtain v1 vt1 where k: "K (atom r X_ATOM) (changed vt) = (v1, vt1)" by fastforce
    from K_stands [of e I "changed vt", OF _ _ this] t room1 obtain I1 where t1: "table_ok e I1 vt1"
      and x1: "extends I vt I1 vt1" and s1: "stands I1 vt1 v1 (atom r X_ATOM)"
      and r1: "unat (vt_curval vt1) \<le> unat (vt_curval vt) + 1" by (auto simp: extends_def)
    have w': "alu_op op SrcK (atom r A_ATOM) (atom r X_ATOM) = Inl w" by (rule alu_op_const [OF w])
    then have "does e ?s r w A_ATOM" by (cases r) (auto simp: does_def atom_defs intro: exI [of _ "Alu op SrcK"])
    from preserved_assign_F [OF this t1 x1 _ _ r1 room, of "Alu op SrcK" "val ! A_ATOM" v1]
      w' stands_extends [OF sa x1] s1 one k
    show ?thesis by (auto simp: opt_alu_x_def stands_def vx Let_def)
  next
    case zero
    consider "op \<in> {Add, Or, Xor}" | "op \<in> {Mul, Div, Mod, And, Lsh, Rsh}" | "op = Sub" by (cases op) simp_all
    then show ?thesis
    proof cases
      case 1
      with zero_left_alu(1) w zero(4) have "w = atom r X_ATOM" by metis
      moreover have "does e (s\<lparr>s_code := op_code Txa\<rparr>) r (atom r X_ATOM) A_ATOM"
        by (cases r) (auto simp: does_def atom_defs intro: exI [of _ Txa])
      ultimately show ?thesis using zero 1 preserved_store [OF v A _ t extends_refl(1) sx, of "s\<lparr>s_code := op_code Txa\<rparr>" alter]
        by (simp add: opt_alu_x_def va)
    next
      case 2
      with zero_left_alu(2) w zero(4) have "w = 0" by metis
      with zero 2 preserved_K [OF v A does_imm t room1, of "s\<lparr>s_code := op_code Ld_Imm, s_k := 0\<rparr>" 0 alter]
      show ?thesis by (auto simp: opt_alu_x_def va Let_def)
    next
      case 3
      have "does e s r w A_ATOM" using s w by (cases r) (auto simp: does_def atom_defs intro: exI [of _ "Alu op SrcX"])
      with preserved_assign_F [OF this t extends_refl(1) _ _ _ room, of "Alu op SrcX" "val ! A_ATOM" "val ! X_ATOM"] w sa sx zero 3
      show ?thesis by (auto simp: opt_alu_x_def s stands_def)
    qed
  next
    case other
    have "does e s r w A_ATOM" using s w by (cases r) (auto simp: does_def atom_defs intro: exI [of _ "Alu op SrcX"])
    with preserved_assign_F [OF this t extends_refl(1) _ _ _ room, of "Alu op SrcX" "val ! A_ATOM" "val ! X_ATOM"] w sa sx other
    show ?thesis by (auto simp: opt_alu_x_def s stands_def va)
  qed
qed

lemma preserved_mem:
  assumes v: "vals_ok I vt val r" and t: "table_ok e I vt" and i: "unat (s_k s) < N_ATOMS"
    and known: "val ! unat (s_k s) \<noteq> 0" and a: "a < N_ATOMS"
    and s: "does e s r (atom r (unat (s_k s))) a"
    and imm: "does e (s\<lparr>s_code := op_code imm, s_k := atom r (unat (s_k s))\<rparr>) r (atom r (unat (s_k s))) a"
  shows "preserved e I vt val r (atom r (unat (s_k s))) a (opt_mem imm a s val alter vt)"
proof -
  note st = stands_atom [OF v i known]
  show ?thesis
  proof (cases "alter \<and> is_const vt (val ! unat (s_k s))")
    case True
    have "table_ok e I (changed vt)" "stands I (changed vt) (val ! unat (s_k s)) (atom r (unat (s_k s)))"
      using t st by (simp_all add: stands_def)
    from preserved_store [OF v a imm this(1) extends_refl(2) this(2), of alter]
    show ?thesis using True known_value [OF t v i] i by (simp add: opt_mem_def Let_def not_le)
  next
    case False
    with preserved_store [OF v a s t extends_refl(1) st, of alter] i show ?thesis by (auto simp: opt_mem_def Let_def)
  qed
qed

lemma does_op: "s_code s = op_code op \<Longrightarrow> straight_op op \<Longrightarrow> op_value e op (s_k s) r = Some w \<Longrightarrow>
    does e s r w (target op (s_k s))"
  by (auto simp: does_def)

lemma preserved_op:
  assumes v: "vals_ok I vt val r" and t: "table_ok e I vt" and s: "s_code s = op_code op" "straight_op op" "op \<noteq> Ldx_Len"
    and known: "\<forall>i\<in>uses op (s_k s). val ! i \<noteq> 0" and w: "op_value e op (s_k s) r = Some w"
    and room: "unat (vt_curval vt) + 2 < 2 ^ 32" and behind: "behind e"
  shows "preserved e I vt val r w (target op (s_k s)) (opt_op op s val alter vt)"
proof -
  obtain a x m where r: "r = (a, x, m)" by (metis prod_cases3)
  have m: "length m = 16" using v by (simp add: vals_ok_def r)
  have A: "A_ATOM < N_ATOMS" and X: "X_ATOM < N_ATOMS" and M: "\<And>k. k < 16 \<Longrightarrow> k < N_ATOMS"
    and rA: "atom r A_ATOM = a" and rX: "atom r X_ATOM = x" and rM: "\<And>k. k < 16 \<Longrightarrow> atom r k = m ! k"
    by (simp_all add: atom_defs r)
  have room1: "vt_curval vt \<noteq> - 1" using room by (intro extends_room [of vt vt]) simp_all
  have sA: "val ! A_ATOM \<noteq> 0 \<Longrightarrow> stands I vt (val ! A_ATOM) a" and sX: "val ! X_ATOM \<noteq> 0 \<Longrightarrow> stands I vt (val ! X_ATOM) x"
    using stands_atom [OF v A] stands_atom [OF v X] rA rX by simp_all
  note d = does_op [OF s(1,2) w]
  note F = preserved_F [OF v _ d t _ _ room1]
  note st = preserved_store [OF v _ d t extends_refl(1)]
  show ?thesis
  proof (cases op)
    case (Ld_Ind sz)
    with preserved_ind [OF v t _ _ _ room1 behind] s known w show ?thesis by simp
  next
    case (Alu b sr)
    then show ?thesis
      using s known w preserved_alu_k [OF v t _ _ _ room] preserved_alu_x [OF v t _ _ _ _ room]
      by (cases sr) (auto simp: r atom_defs)
  next
    case Neg
    with preserved_neg [OF v t _ _ room] s known w show ?thesis by (simp add: r atom_defs)
  next
    case Ld_Mem
    then have k: "unat (s_k s) < 16" "w = atom r (unat (s_k s))"
      using w m by (auto simp: r mem_read_def atom_defs split: if_splits)
    have "does e (s\<lparr>s_code := op_code Ld_Imm, s_k := w\<rparr>) r w A_ATOM" by (rule does_imm) simp_all
    with preserved_mem [OF v t M [OF k(1)] _ A, of Ld_Imm alter] d known k Ld_Mem show ?thesis by simp
  next
    case Ldx_Mem
    then have k: "unat (s_k s) < 16" "w = atom r (unat (s_k s))"
      using w m by (auto simp: r mem_read_def atom_defs split: if_splits)
    have "does e (s\<lparr>s_code := op_code Ldx_Imm, s_k := w\<rparr>) r w X_ATOM"
      by (auto simp: does_def r intro: exI [of _ Ldx_Imm])
    with preserved_mem [OF v t M [OF k(1)] _ X, of Ldx_Imm alter] d known k Ldx_Mem show ?thesis by simp
  next
    case (Ld_Abs sz)
    with F [of "Ld_Abs sz" "s_k s" 0 alter] s w A show ?thesis by (simp add: r)
  next
    case Ld_Len
    with F [of Ld_Len 0 0 alter] s w A show ?thesis by (simp add: r)
  next
    case Ld_Imm
    with preserved_K [OF v _ d t room1, of alter] w A show ?thesis by (simp add: r)
  next
    case Ldx_Imm
    with preserved_K [OF v _ d t room1, of alter] w X show ?thesis by (simp add: r)
  next
    case Ldx_Msh
    with F [of Ldx_Msh "s_k s" 0 alter] s w X show ?thesis by (simp add: r)
  next
    case Txa
    with st [of "val ! X_ATOM" alter] sX known w A show ?thesis by (simp add: r)
  next
    case Tax
    with st [of "val ! A_ATOM" alter] sA known w X show ?thesis by (simp add: r)
  next
    case St
    with st [of "val ! A_ATOM" alter] sA known w M show ?thesis by (auto simp: r opt_st_def not_le N_ATOMS_def split: if_splits)
  next
    case Stx
    with st [of "val ! X_ATOM" alter] sX known w M show ?thesis by (auto simp: r opt_st_def not_le N_ATOMS_def split: if_splits)
  qed (use s in simp_all)
qed

section \<open>The statements of a block\<close>

text \<open>
  A block reads an atom only after a statement that defines it, or if it is among those known
  before. This is what the unknown value number 0 needs: two unknown values have the same number.
\<close>

fun reads_known :: "nat set \<Rightarrow> slist list \<Rightarrow> bool" where
  "reads_known D [] = True"
| "reads_known D (x # xs) =
     (let s = sl_stmt x in
      if s_code s = NOP then reads_known D xs
      else case decode (stmt_code s) of
          None \<Rightarrow> False
        | Some op \<Rightarrow> s_code s = op_code op \<and> straight_op op \<and> op \<noteq> Ldx_Len \<and> uses op (s_k s) \<subseteq> D \<and>
            reads_known (insert (target op (s_k s)) D) xs)"

lemma op_code_NOP [simp]: "op_code op \<noteq> NOP" "NOP \<noteq> op_code op"
proof -
  have "\<not> bit (op_code op) 31" by (auto simp: op_code_def bit_simps dest: bit_imp_le_length)
  moreover have "bit NOP 31" by (simp add: NOP_def)
  ultimately show "op_code op \<noteq> NOP" "NOP \<noteq> op_code op" by metis+
qed

lemma stmt_code_op [simp]: "s_code s = op_code op \<Longrightarrow> decode (stmt_code s) = Some op"
  by (simp add: stmt_code_def)

lemma set_atom_same: "a < N_ATOMS \<Longrightarrow> length (snd (snd r)) = 16 \<Longrightarrow> atom r a = w \<Longrightarrow> set_atom a w r = r"
  by (cases r) (auto simp: atom_defs)

lemma length_regs: "length (snd (snd (regs_of vm))) = length (scratch vm)"
  by (simp add: regs_of_def)

text \<open>A run of the statements depends on the registers only.\<close>

lemma exec_does:
  assumes d: "does e (sl_stmt x) (regs_of vm) w a" and a: "a < N_ATOMS" and m: "length (scratch vm) = 16"
  shows "\<exists>vm1. (\<forall>xs. exec_stmts e (x # xs) vm = exec_stmts e xs vm1) \<and> regs_of vm1 = set_atom a w (regs_of vm)"
proof (cases "s_code (sl_stmt x) = NOP")
  case True
  then have "atom (regs_of vm) a = w" using d by (auto simp: does_def)
  then show ?thesis using True a m set_atom_same [of a "regs_of vm" w] by (auto simp: length_regs)
next
  case False
  with d obtain op where op: "s_code (sl_stmt x) = op_code op" "straight_op op" "target op (s_k (sl_stmt x)) = a"
    "op_value e op (s_k (sl_stmt x)) (regs_of vm) = Some w" by (auto simp: does_def)
  obtain r where r: "r = set_atom a w (regs_of vm)" by blast
  let ?vm = "vm\<lparr>reg_A := fst r, reg_X := fst (snd r), scratch := snd (snd r), pc := pc vm + 1\<rparr>"
  have "exec_stmt e (sl_stmt x) vm = Inl ?vm"
    using exec_stmt_value [OF stmt_code_op [OF op(1)] op(2) m, of e ?vm] op(3,4) r by (simp add: regs_of_def)
  then show ?thesis using False r by (intro exI [of _ ?vm]) (simp add: regs_of_def)
qed

lemma exec_first:
  assumes "exec_stmts e (x # xs) vm = Inl vm'" and "s_code (sl_stmt x) = op_code op" "straight_op op"
    and "length (scratch vm) = 16"
  shows "\<exists>w vm1. op_value e op (s_k (sl_stmt x)) (regs_of vm) = Some w \<and>
    regs_of vm1 = set_atom (target op (s_k (sl_stmt x))) w (regs_of vm) \<and> exec_stmts e xs vm1 = Inl vm'"
proof -
  from assms(1,2) obtain vm1 where "exec_stmt e (sl_stmt x) vm = Inl vm1" and rest: "exec_stmts e xs vm1 = Inl vm'"
    by (auto split: sum.splits)
  with exec_stmt_value [OF stmt_code_op [OF assms(2)] assms(3,4), of e vm1] rest show ?thesis by blast
qed

lemma target_less: "op_value e op k (a, x, m) = Some w \<Longrightarrow> target op k < N_ATOMS"
  by (cases op) (auto simp: atom_defs split: if_splits)

lemma opt_stmt_NOP: "s_code s = NOP \<Longrightarrow> opt_stmt s val alter vt = Inr (s, val, vt)"
  by (auto simp: opt_stmt_def split: option.splits)

lemma opt_stmt_step:
  assumes op: "s_code (sl_stmt x) = op_code op" "straight_op op" "op \<noteq> Ldx_Len" "uses op (s_k (sl_stmt x)) \<subseteq> D"
    and v: "vals_ok I vt val (regs_of vm)" and D: "\<forall>i\<in>D. val ! i \<noteq> 0" and t: "table_ok e I vt" and behind: "behind e"
    and room: "unat (vt_curval vt) + 2 < 2 ^ 32"
    and run: "exec_stmts e (x # xs) vm = Inl vm'" and same: "regs_of vm2 = regs_of vm"
  shows "\<exists>s' val1 vt1 I1 vma vmb. opt_stmt (sl_stmt x) val alter vt = Inr (s', val1, vt1) \<and>
    vals_ok I1 vt1 val1 (regs_of vma) \<and> (\<forall>i\<in>insert (target op (s_k (sl_stmt x))) D. val1 ! i \<noteq> 0) \<and>
    table_ok e I1 vt1 \<and> extends I vt I1 vt1 \<and> unat (vt_curval vt1) \<le> unat (vt_curval vt) + 2 \<and>
    exec_stmts e xs vma = Inl vm' \<and> regs_of vmb = regs_of vma \<and>
    (\<forall>ys. exec_stmts e (x\<lparr>sl_stmt := s'\<rparr> # ys) vm2 = exec_stmts e ys vmb)"
proof -
  let ?s = "sl_stmt x" and ?a = "target op (s_k (sl_stmt x))"
  have m: "length (scratch vm) = 16" "length (scratch vm2) = 16"
    using v same length_regs [of vm] length_regs [of vm2] by (simp_all add: vals_ok_def)
  from exec_first [OF run op(1,2) m(1)] obtain w vma where w: "op_value e op (s_k ?s) (regs_of vm) = Some w"
    and ra: "regs_of vma = set_atom ?a w (regs_of vm)" and rest: "exec_stmts e xs vma = Inl vm'" by blast
  have a: "?a < N_ATOMS" using target_less w by (metis prod_cases3)
  have known: "\<forall>i\<in>uses op (s_k ?s). val ! i \<noteq> 0" using op(4) D by blast
  from preserved_op [OF v t op(1-3) known w room behind, of alter] obtain s' u vt1 I1 where
    o1: "opt_op op ?s val alter vt = Inr (s', val[?a := u], vt1)" and d: "does e s' (regs_of vm) w ?a"
    and t1: "table_ok e I1 vt1" and x1: "extends I vt I1 vt1" and st: "stands I1 vt1 u w"
    and n1: "unat (vt_curval vt1) \<le> unat (vt_curval vt) + 2" unfolding preserved_def by blast
  have "opt_stmt ?s val alter vt = Inr (s', val[?a := u], vt1)" using o1 op(1) by (simp add: opt_stmt_def)
  moreover have "vals_ok I1 vt1 (val[?a := u]) (regs_of vma)"
    unfolding ra by (rule vals_ok_store [OF vals_ok_extends [OF v x1] st a])
  moreover have "\<forall>i\<in>insert ?a D. val[?a := u] ! i \<noteq> 0"
    using v D st a by (auto simp: nth_list_update stands_def vals_ok_def)
  moreover obtain vmb where "\<forall>ys. exec_stmts e (x\<lparr>sl_stmt := s'\<rparr> # ys) vm2 = exec_stmts e ys vmb"
      "regs_of vmb = regs_of vma"
    using exec_does [of e "x\<lparr>sl_stmt := s'\<rparr>" vm2 w ?a] d a m same ra by auto
  ultimately show ?thesis using t1 x1 n1 rest by blast
qed

lemma opt_stmts_sound:
  assumes "reads_known D ss" and "vals_ok I vt val (regs_of vm)" and "\<forall>i\<in>D. val ! i \<noteq> 0"
    and "table_ok e I vt" and behind: "behind e" and "unat (vt_curval vt) + 2 * length ss < 2 ^ 32"
    and "exec_stmts e ss vm = Inl vm'" and "regs_of vm2 = regs_of vm"
  shows "\<exists>ss' val' vt' I' vm1. opt_stmts ss val alter vt = Inr (ss', val', vt') \<and>
    exec_stmts e ss' vm2 = Inl vm1 \<and> regs_of vm1 = regs_of vm' \<and>
    vals_ok I' vt' val' (regs_of vm1) \<and> table_ok e I' vt' \<and> extends I vt I' vt'"
  using assms(1-4,6-)
proof (induction ss arbitrary: D val vt I vm vm2)
  case Nil
  then show ?case by (auto intro: exI [of _ I])
next
  case (Cons x xs)
  let ?s = "sl_stmt x"
  show ?case
  proof (cases "s_code ?s = NOP")
    case True
    from Cons.prems True have "reads_known D xs" "unat (vt_curval vt) + 2 * length xs < 2 ^ 32"
      "exec_stmts e xs vm = Inl vm'" by simp_all
    from Cons.IH [OF this(1) Cons.prems(2-4) this(2,3) Cons.prems(7)] True show ?thesis
      by (auto simp: opt_stmt_NOP)
  next
    case False
    with Cons.prems(1) obtain op where op: "s_code ?s = op_code op" "straight_op op" "op \<noteq> Ldx_Len"
      "uses op (s_k ?s) \<subseteq> D" "reads_known (insert (target op (s_k ?s)) D) xs"
      by (auto simp: Let_def split: option.splits)
    have "unat (vt_curval vt) + 2 < 2 ^ 32" using Cons.prems(5) by simp
    from opt_stmt_step [OF op(1-4) Cons.prems(2,3,4) behind this Cons.prems(6,7), of alter] obtain
      s' val1 vt1 I1 vma vmb where o1: "opt_stmt ?s val alter vt = Inr (s', val1, vt1)"
      and s1: "vals_ok I1 vt1 val1 (regs_of vma)" "\<forall>i\<in>insert (target op (s_k ?s)) D. val1 ! i \<noteq> 0" "table_ok e I1 vt1"
      and x1: "extends I vt I1 vt1" and n1: "unat (vt_curval vt1) \<le> unat (vt_curval vt) + 2"
      and run: "exec_stmts e xs vma = Inl vm'" "regs_of vmb = regs_of vma"
      and rb: "\<forall>ys. exec_stmts e (x\<lparr>sl_stmt := s'\<rparr> # ys) vm2 = exec_stmts e ys vmb" by blast
    have "unat (vt_curval vt1) + 2 * length xs < 2 ^ 32" using Cons.prems(5) n1 by simp
    from Cons.IH [OF op(5) s1 this run] o1 rb extends_trans [OF x1] show ?thesis by fastforce
  qed
qed

text \<open>
  The value numbers of a block stand for the values of a run on the packet of \<open>e\<close>: a number that
  two atoms share means that they are equal, and a constant is the atom's value.
\<close>

definition tracks :: "bpf_env \<Rightarrow> valtable \<Rightarrow> u32 list \<Rightarrow> regs \<Rightarrow> bool" where
  "tracks e vt val r \<longleftrightarrow> (\<exists>I. vals_ok I vt val r \<and> table_ok e I vt)"

lemma tracks_start: "length (scratch vm) = 16 \<Longrightarrow> tracks e (init_val dn) (replicate N_ATOMS 0) (regs_of vm)"
  by (auto simp: tracks_def vals_ok_def table_ok_def init_val_def length_regs)

lemma tracks_const: "tracks e vt val r \<Longrightarrow> i < N_ATOMS \<Longrightarrow> is_const vt (val ! i) \<Longrightarrow> atom r i = const_val vt (val ! i)"
  unfolding tracks_def by (metis known_value(1))

lemma tracks_equal: "tracks e vt val r \<Longrightarrow> i < N_ATOMS \<Longrightarrow> j < N_ATOMS \<Longrightarrow> val ! i = val ! j \<Longrightarrow> val ! i \<noteq> 0 \<Longrightarrow>
    atom r i = atom r j"
  unfolding tracks_def vals_ok_def stands_def by metis

text \<open>
  C4. The pass of the optimizer over the statements of a block (\<open>opt_stmt\<close>: value numbers, constant
  folding, deletion of what changes nothing) succeeds, and a run of the statements that goes
  through goes through afterwards, with the same registers and scratch memory; the value numbers
  it leaves are true of them. Every atom read is known at the entry or defined before.
\<close>

theorem opt_stmts_preserve:
  assumes "reads_known D ss" and "tracks e vt val (regs_of vm)" and "\<forall>i\<in>D. val ! i \<noteq> 0" and "behind e"
    and "unat (vt_curval vt) + 2 * length ss < 2 ^ 32" and "exec_stmts e ss vm = Inl vm'"
  shows "\<exists>ss' val' vt' vm1. opt_stmts ss val alter vt = Inr (ss', val', vt') \<and>
    exec_stmts e ss' vm = Inl vm1 \<and> regs_of vm1 = regs_of vm' \<and> tracks e vt' val' (regs_of vm1)"
proof -
  from assms(2) obtain I where I: "vals_ok I vt val (regs_of vm)" "table_ok e I vt" by (auto simp: tracks_def)
  from opt_stmts_sound [OF assms(1) I(1) assms(3) I(2) assms(4-6) refl, of alter] show ?thesis
    unfolding tracks_def by blast
qed

definition op_node :: "opcode \<Rightarrow> u32 \<Rightarrow> slist" where
  "op_node op k = \<lparr>sl_addr = 0, sl_stmt = plain_stmt (op_code op) k\<rparr>"

definition sample_block :: "slist list" where
  "sample_block = [op_node Ld_Imm 2, op_node St 0, op_node Ldx_Mem 0, op_node (Ld_Ind SzB) 1,
     op_node (Alu Add SrcX) 0]"

definition sample_packet :: bpf_env where
  "sample_packet = \<lparr>packet = [10, 20, 30, 48], wirelen = 4, buflen = 4, aux_data = None, ancillary = None\<rparr>"

definition sample_regs :: bpf_vm where
  "sample_regs = \<lparr>reg_A = 0, reg_X = 0, scratch = replicate 16 0, pc = 0\<rparr>"

lemma sample_run: "\<exists>vm. exec_stmts sample_packet sample_block sample_regs = Inl vm \<and> reg_A vm = 50"
  by (simp add: sample_block_def sample_packet_def sample_regs_def op_node_def plain_stmt_def exec_stmt_def
    stmt_code_def stmt_insn_def BPF_STMT_def set_reg_defs mem_write_def mem_read_def packet_byte_def word_le_nat_alt)

theorem opt_stmts_preserve_witness:
  "\<exists>ss' val' vt' vm1. opt_stmts sample_block (replicate N_ATOMS 0) True (init_val True) = Inr (ss', val', vt') \<and>
    exec_stmts sample_packet ss' sample_regs = Inl vm1 \<and> reg_A vm1 = 50"
proof -
  obtain vm where vm: "exec_stmts sample_packet sample_block sample_regs = Inl vm" "reg_A vm = 50"
    using sample_run by blast
  have "reads_known {} sample_block"
    by (simp add: sample_block_def op_node_def plain_stmt_def stmt_code_def atom_defs)
  moreover have "tracks sample_packet (init_val True) (replicate N_ATOMS 0) (regs_of sample_regs)"
    by (rule tracks_start) (simp add: sample_regs_def)
  moreover have "behind sample_packet" by (simp add: behind_def sample_packet_def)
  ultimately show ?thesis
    using opt_stmts_preserve [of "{}" sample_block sample_packet "init_val True" "replicate N_ATOMS 0" sample_regs vm True] vm
    by (fastforce simp: sample_block_def init_val_def regs_of_def)
qed

definition rewritten :: "slist list \<Rightarrow> slist list" where
  "rewritten ss =
     (case opt_stmts ss (replicate N_ATOMS 0) True (init_val True) of Inl _ \<Rightarrow> [] | Inr (ss, _) \<Rightarrow> ss)"

definition accumulated :: "slist list \<Rightarrow> bpf_vm \<Rightarrow> u32 option" where
  "accumulated ss vm = (case exec_stmts sample_packet ss vm of Inl vm \<Rightarrow> Some (reg_A vm) | Inr _ \<Rightarrow> None)"

lemma sample_rewritten:
  "rewritten sample_block =
     [op_node Ld_Imm 2, op_node St 0, op_node Ldx_Imm 2, op_node (Ld_Abs SzB) 3, op_node (Alu Add SrcK) 2]"
  by code_simp

text \<open>
  A load of an unknown scratch location into an unknown accumulator is deleted, because both have
  the value number 0; \<open>reads_known\<close> excludes it.
\<close>

lemma unknown_load_dropped:
  "map (s_code \<circ> sl_stmt) (rewritten [op_node Ld_Mem 3]) = [NOP] \<and>
   accumulated [op_node Ld_Mem 3] (sample_regs\<lparr>reg_A := 1, scratch := replicate 16 7\<rparr>) = Some 7 \<and>
   accumulated (rewritten [op_node Ld_Mem 3]) (sample_regs\<lparr>reg_A := 1, scratch := replicate 16 7\<rparr>) = Some 1"
  by code_simp

text \<open>
  Runs that reject the packet: an offset that wraps around, and a division of 0 by 0. The
  rewritten statements go on.
\<close>

lemma rejecting_runs_changed:
  "accumulated [op_node Ldx_Imm (- 1), op_node (Ld_Ind SzB) 1] sample_regs = None \<and>
   accumulated (rewritten [op_node Ldx_Imm (- 1), op_node (Ld_Ind SzB) 1]) sample_regs = Some 10 \<and>
   accumulated [op_node Ldx_Msh 3, op_node Ld_Imm 0, op_node (Alu Div SrcX) 0] sample_regs = None \<and>
   accumulated (rewritten [op_node Ldx_Msh 3, op_node Ld_Imm 0, op_node (Alu Div SrcX) 0]) sample_regs = Some 0"
  by (intro conjI; code_simp)

end
