(* ===== verification/Opt_Dead.thy ===== *)
theory Opt_Dead
  imports Opt_Sound
begin

unbundle bit_operations_syntax

text \<open>
  What the removal of dead definitions preserves: the atoms used on exit from the block, and the
  outcome of its branch. A definition is pending while nothing has used it; the invariant of the
  pass is that any of the pending definitions may be deleted.
\<close>

section \<open>Runs on the registers\<close>

definition act :: "bpf_env \<Rightarrow> stmt \<Rightarrow> regs \<Rightarrow> regs option" where
  "act e s r =
     (if s_code s = NOP then Some r
      else case decode (stmt_code s) of
          None \<Rightarrow> None
        | Some op \<Rightarrow>
            (case op_value e op (s_k s) r of None \<Rightarrow> None | Some w \<Rightarrow> Some (set_atom (target op (s_k s)) w r)))"

fun acts :: "bpf_env \<Rightarrow> stmt list \<Rightarrow> regs \<Rightarrow> regs option" where
  "acts e [] r = Some r"
| "acts e (s # ss) r = (case act e s r of None \<Rightarrow> None | Some r \<Rightarrow> acts e ss r)"

lemma acts_append: "acts e (ss @ ts) r = (case acts e ss r of None \<Rightarrow> None | Some r \<Rightarrow> acts e ts r)"
  by (induction ss arbitrary: r) (auto split: option.splits)

text \<open>Statements that the compiler makes.\<close>

definition plain_op :: "stmt \<Rightarrow> bool" where
  "plain_op s \<longleftrightarrow> s_code s = NOP \<or>
     (case decode (stmt_code s) of None \<Rightarrow> False | Some op \<Rightarrow> s_code s = op_code op \<and> straight_op op)"

lemma plain_op_NOP [simp]: "plain_op (s\<lparr>s_code := NOP\<rparr>)"
  by (simp add: plain_op_def)

lemma exec_acts:
  assumes "list_all (\<lambda>x. plain_op (sl_stmt x)) ss" and "length (scratch vm) = 16"
  shows "acts e (map sl_stmt ss) (regs_of vm) = (case exec_stmts e ss vm of Inl vm \<Rightarrow> Some (regs_of vm) | Inr _ \<Rightarrow> None)"
  using assms
proof (induction ss arbitrary: vm)
  case (Cons x xs)
  show ?case
  proof (cases "s_code (sl_stmt x) = NOP")
    case False
    with Cons.prems(1) obtain op where op: "s_code (sl_stmt x) = op_code op" "straight_op op"
      by (auto simp: plain_op_def split: option.splits)
    note ex = exec_stmt_value [OF stmt_code_op [OF op(1)] op(2) Cons.prems(2), of e]
    show ?thesis
    proof (cases "exec_stmt e (sl_stmt x) vm")
      case (Inl vm1)
      with ex [of vm1] Cons.prems(2) length_regs [of vm1] length_regs [of vm] Cons.IH [of vm1] Cons.prems(1) False op
      show ?thesis by (auto simp: act_def)
    next
      case (Inr u)
      have "op_value e op (s_k (sl_stmt x)) (regs_of vm) = None"
      proof (rule ccontr)
        assume "op_value e op (s_k (sl_stmt x)) (regs_of vm) \<noteq> None"
        then obtain w where w: "op_value e op (s_k (sl_stmt x)) (regs_of vm) = Some w" by blast
        obtain r where r: "r = set_atom (target op (s_k (sl_stmt x))) w (regs_of vm)" by blast
        from ex [of "vm\<lparr>reg_A := fst r, reg_X := fst (snd r), scratch := snd (snd r), pc := pc vm + 1\<rparr>"] w r Inr
        show False by (simp add: regs_of_def)
      qed
      with Inr False op show ?thesis by (simp add: act_def)
    qed
  qed (use Cons in \<open>simp add: act_def\<close>)
qed simp

section \<open>Uses and definitions\<close>

lemma mem_atom_small [simp]:
  assumes "unat k < 16"
  shows "mem_atom k = Some (unat k)"
proof -
  have "uint k < 16" using assms unfolding uint_nat by linarith
  have "- (2 ^ 31) \<le> (0 :: int)" by simp
  also have "0 \<le> uint k" by simp
  finally have "signed_take_bit 31 (uint k) = uint k"
    using \<open>uint k < 16\<close> by (intro signed_take_bit_int_eq_self) simp_all
  then have "0 \<le> sint k" by (simp add: sint_uint)
  then show ?thesis by (simp add: mem_atom_def)
qed

lemma op_value_index: "op_value e op k r = Some w \<Longrightarrow> op \<in> {Ld_Mem, Ldx_Mem, St, Stx} \<Longrightarrow> unat k < 16"
  by (cases r) (auto simp: mem_read_def split: if_splits)

lemma atoms_of_op:
  assumes "s_code s = op_code op" and "straight_op op" and "op_value e op (s_k s) r = Some w"
  shows "\<exists>us. atomuse s = Inr us \<and> set us = uses op (s_k s)" and "atomdef s = Some (target op (s_k s))"
proof -
  have "s_code s \<noteq> NOP" using assms(1) by simp
  moreover have "stmt_code s = label op" using assms(1) by (simp add: stmt_code_def op_code_def)
  ultimately have c: "stmt_code s = label op" "s_code s \<noteq> NOP" by blast+
  note d = atomuse_def atomdef_def Let_def c BPF_CLASS_def BPF_MODE_def BPF_SRC_def BPF_MISCOP_def
  have "(\<exists>us. atomuse s = Inr us \<and> set us = uses op (s_k s)) \<and> atomdef s = Some (target op (s_k s))"
  proof (cases op)
    case (Ld_Abs sz)
    then show ?thesis by (cases sz) (simp_all add: d)
  next
    case (Ld_Ind sz)
    then show ?thesis by (cases sz) (simp_all add: d)
  next
    case (Alu b sr)
    then show ?thesis by (cases b; cases sr) (simp_all add: d insert_commute)
  next
    case Ld_Mem
    with op_value_index [OF assms(3)] show ?thesis by (simp add: d)
  next
    case Ldx_Mem
    with op_value_index [OF assms(3)] show ?thesis by (simp add: d)
  next
    case St
    with op_value_index [OF assms(3)] show ?thesis by (simp add: d)
  next
    case Stx
    with op_value_index [OF assms(3)] show ?thesis by (simp add: d)
  qed (use assms(2) in \<open>simp_all add: d\<close>)
  then show "\<exists>us. atomuse s = Inr us \<and> set us = uses op (s_k s)" and "atomdef s = Some (target op (s_k s))" by blast+
qed

section \<open>Deleting statements\<close>

definition nop_set :: "nat set \<Rightarrow> stmt list \<Rightarrow> stmt list" where
  "nop_set D ss = map (\<lambda>i. if i \<in> D then (ss ! i)\<lparr>s_code := NOP\<rparr> else ss ! i) [0..<length ss]"

lemma length_nop_set [simp]: "length (nop_set D ss) = length ss"
  by (simp add: nop_set_def)

lemma nth_nop_set: "i < length ss \<Longrightarrow> nop_set D ss ! i = (if i \<in> D then (ss ! i)\<lparr>s_code := NOP\<rparr> else ss ! i)"
  by (simp add: nop_set_def)

lemma nop_set_empty [simp]: "nop_set {} ss = ss"
  by (simp add: nop_set_def map_nth)

lemma nop_set_insert: "j < length ss \<Longrightarrow> (nop_set D ss)[j := (nop_set D ss ! j)\<lparr>s_code := NOP\<rparr>] = nop_set (insert j D) ss"
  by (intro nth_equalityI) (auto simp: nth_nop_set nth_list_update)

lemma take_nop_set: "D \<inter> {..<i} = D' \<inter> {..<i} \<Longrightarrow> take i (nop_set D ss) = take i (nop_set D' ss)"
  by (intro nth_equalityI) (auto simp: nth_nop_set)

lemma act_NOP [simp]: "s_code s = NOP \<Longrightarrow> act e s r = Some r"
  by (simp add: act_def)

lemma act_cong:
  assumes "s_code s = op_code op" and "act e s r = Some r1"
    and "\<forall>a\<in>uses op (s_k s). atom r' a = atom r a" and "length (snd (snd r)) = 16" "length (snd (snd r')) = 16"
  shows "\<exists>w. r1 = set_atom (target op (s_k s)) w r \<and> act e s r' = Some (set_atom (target op (s_k s)) w r') \<and>
    op_value e op (s_k s) r = Some w"
proof -
  from assms(1,2) obtain w where w: "op_value e op (s_k s) r = Some w" "r1 = set_atom (target op (s_k s)) w r"
    by (auto simp: act_def split: option.splits)
  with op_value_uses [of op "s_k s" r r' e] assms show ?thesis by (auto simp: act_def)
qed

lemma act_length: "act e s r = Some r' \<Longrightarrow> length (snd (snd r')) = length (snd (snd r))"
  by (auto simp: act_def split: if_splits option.splits)

lemma acts_length: "acts e ss r = Some r' \<Longrightarrow> length (snd (snd r')) = length (snd (snd r))"
  by (induction ss arbitrary: r) (auto split: option.splits dest: act_length)

section \<open>Pending definitions\<close>

definition awaiting :: "deads \<Rightarrow> nat set" where
  "awaiting d = {a. a < N_ATOMS \<and> ds_last d ! a \<noteq> None}"

definition places :: "deads \<Rightarrow> nat set \<Rightarrow> nat set" where
  "places d P = {j. \<exists>a\<in>P. ds_last d ! a = Some j}"

text \<open>
  \<open>survives\<close>: with the statements at \<open>J\<close> deleted, the run of the first \<open>i\<close> statements reaches
  the same values but for the atoms in \<open>P\<close>.
\<close>

definition survives :: "bpf_env \<Rightarrow> stmt list \<Rightarrow> regs \<Rightarrow> nat \<Rightarrow> regs \<Rightarrow> nat set \<Rightarrow> nat set \<Rightarrow> bool" where
  "survives e ss r0 i r J P \<longleftrightarrow> (\<exists>r'. acts e (take i (nop_set J ss)) r0 = Some r' \<and>
     length (snd (snd r')) = 16 \<and> (\<forall>a < N_ATOMS. a \<notin> P \<longrightarrow> atom r' a = atom r a))"

definition burying :: "bpf_env \<Rightarrow> stmt list \<Rightarrow> regs \<Rightarrow> nat \<Rightarrow> regs \<Rightarrow> nat set \<Rightarrow> deads \<Rightarrow> bool" where
  "burying e ss r0 i r D d \<longleftrightarrow> ds_stmts d = nop_set D ss \<and> D \<subseteq> {..<i} \<and> length (ds_last d) = N_ATOMS \<and>
     (\<forall>a < N_ATOMS. \<forall>j. ds_last d ! a = Some j \<longrightarrow> j < i) \<and>
     (\<forall>P \<subseteq> awaiting d. survives e ss r0 i r (D \<union> places d P) P)"

lemma burying_survives: "burying e ss r0 i r D d \<Longrightarrow> P \<subseteq> awaiting d \<Longrightarrow> survives e ss r0 i r (D \<union> places d P) P"
  by (simp add: burying_def)

lemma forget_nth:
  "a < length l \<Longrightarrow> fold (\<lambda>u l. l[u := None]) us l ! a = (if a \<in> set us then None else l ! a)"
  by (induction us arbitrary: l) (auto simp: nth_list_update)

lemma forget_length [simp]: "length (fold (\<lambda>u l. l[u := None]) us l) = length l"
  by (induction us arbitrary: l) auto

lemma burying_forget:
  assumes "burying e ss r0 i r D d"
  shows "burying e ss r0 i r D (forget us d)" and "awaiting (forget us d) = awaiting d - set us"
proof -
  have l: "length (ds_last d) = N_ATOMS" using assms by (simp add: burying_def)
  show p: "awaiting (forget us d) = awaiting d - set us"
    using l by (auto simp: awaiting_def forget_def forget_nth split: if_splits)
  have places: "places (forget us d) P = places d P" if "P \<subseteq> awaiting (forget us d)" for P
  proof -
    have "\<forall>a\<in>P. ds_last (forget us d) ! a = ds_last d ! a"
      using that l unfolding p by (auto simp: forget_def forget_nth awaiting_def)
    then show ?thesis by (auto simp: places_def)
  qed
  have "survives e ss r0 i r (D \<union> places (forget us d) P) P" if "P \<subseteq> awaiting (forget us d)" for P
    using assms that unfolding places [OF that] burying_def p by blast
  moreover have "\<forall>a < N_ATOMS. \<forall>j. ds_last (forget us d) ! a = Some j \<longrightarrow> j < i"
    using assms l unfolding burying_def by (auto simp: forget_def forget_nth split: if_splits)
  ultimately show "burying e ss r0 i r D (forget us d)"
    using assms unfolding burying_def by (simp add: forget_def)
qed

lemma uses_less: "op_value e op k r = Some w \<Longrightarrow> u \<in> uses op k \<Longrightarrow> u < N_ATOMS"
proof -
  assume a: "op_value e op k r = Some w" "u \<in> uses op k"
  show ?thesis
  proof (cases op)
    case (Alu b sr)
    with a show ?thesis by (cases sr) (auto simp: atom_defs)
  qed (use a op_value_index [OF a(1)] in \<open>auto simp: atom_defs\<close>)
qed

lemma acts_take_Suc: "i < length ss \<Longrightarrow> acts e (take (Suc i) ss) r =
    (case acts e (take i ss) r of None \<Rightarrow> None | Some r \<Rightarrow> act e (ss ! i) r)"
  by (simp add: take_Suc_conv_app_nth acts_append split: option.splits)

lemma survives_NOP:
  "survives e ss r0 i r J P \<Longrightarrow> i < length ss \<Longrightarrow> s_code (ss ! i) = NOP \<Longrightarrow> survives e ss r0 (Suc i) r J P"
proof -
  assume v: "survives e ss r0 i r J P" and i: "i < length ss" "s_code (ss ! i) = NOP"
  have "acts e (take (Suc i) (nop_set J ss)) r0 = acts e (take i (nop_set J ss)) r0"
    using i by (simp add: acts_take_Suc nth_nop_set split: option.splits)
  with v show ?thesis unfolding survives_def by metis
qed

lemma survives_step:
  assumes v: "survives e ss r0 i r J P" and i: "i < length ss" and J: "J \<subseteq> {..<i}" and m: "length (snd (snd r)) = 16"
    and op: "s_code (ss ! i) = op_code op" and r2: "act e (ss ! i) r = Some r2" and u: "uses op (s_k (ss ! i)) \<inter> P = {}"
    and a: "a = target op (s_k (ss ! i))"
  shows "survives e ss r0 (Suc i) r2 (insert i J) (insert a P)" and "survives e ss r0 (Suc i) r2 J (P - {a})"
proof -
  from v obtain r' where r': "acts e (take i (nop_set J ss)) r0 = Some r'" "length (snd (snd r')) = 16"
    "\<forall>b < N_ATOMS. b \<notin> P \<longrightarrow> atom r' b = atom r b" unfolding survives_def by blast
  from op r2 obtain w0 where "op_value e op (s_k (ss ! i)) r = Some w0" by (auto simp: act_def split: option.splits)
  with uses_less u r'(3) have "\<forall>b\<in>uses op (s_k (ss ! i)). atom r' b = atom r b" by blast
  from act_cong [OF op r2 this m r'(2)] obtain w where w: "r2 = set_atom a w r" "act e (ss ! i) r' = Some (set_atom a w r')"
    "op_value e op (s_k (ss ! i)) r = Some w" unfolding a by blast
  have a18: "a < N_ATOMS" using target_less w(3) unfolding a by (metis prod_cases3)
  have i': "i \<notin> J" using J by blast
  have "take i (nop_set (insert i J) ss) = take i (nop_set J ss)" by (rule take_nop_set) auto
  then have "acts e (take (Suc i) (nop_set (insert i J) ss)) r0 = Some r'"
    using i r'(1) by (simp add: acts_take_Suc nth_nop_set)
  moreover have "\<forall>b < N_ATOMS. b \<notin> insert a P \<longrightarrow> atom r' b = atom r2 b" using r'(3) w(1) a18 m by simp
  ultimately show "survives e ss r0 (Suc i) r2 (insert i J) (insert a P)" using r'(2) unfolding survives_def by blast
  have "acts e (take (Suc i) (nop_set J ss)) r0 = Some (set_atom a w r')"
    using i r'(1) i' w(2) by (simp add: acts_take_Suc nth_nop_set)
  moreover have "\<forall>b < N_ATOMS. b \<notin> P - {a} \<longrightarrow> atom (set_atom a w r') b = atom r2 b" using r' w(1) a18 m by simp
  ultimately show "survives e ss r0 (Suc i) r2 J (P - {a})" using r'(2) unfolding survives_def by (metis length_set_atom)
qed

definition define_atom :: "nat \<Rightarrow> nat \<Rightarrow> deads \<Rightarrow> deads" where
  "define_atom i a d =
     (let d = (case ds_last d ! a of None \<Rightarrow> d | Some j \<Rightarrow> delete_at j d) in d\<lparr>ds_last := (ds_last d)[a := Some i]\<rparr>)"

lemma define_atom_simps:
  assumes "burying e ss r0 i r D d" and "i < length ss" and "a < N_ATOMS"
  shows "ds_stmts (define_atom i a d) = nop_set (D \<union> places d {a}) ss"
    and "ds_last (define_atom i a d) = (ds_last d)[a := Some i]" and "D \<union> places d {a} \<subseteq> {..<i}"
  using assms nop_set_insert [of _ ss D]
  by (auto simp: burying_def define_atom_def delete_at_def places_def Let_def nop_set_insert split: option.splits)

lemma burying_define:
  assumes b: "burying e ss r0 i r D d" and i: "i < length ss" and m: "length (snd (snd r)) = 16"
    and op: "s_code (ss ! i) = op_code op" and r2: "act e (ss ! i) r = Some r2"
    and u: "uses op (s_k (ss ! i)) \<inter> awaiting d = {}" and a: "a = target op (s_k (ss ! i))" "a < N_ATOMS"
  shows "burying e ss r0 (Suc i) r2 (D \<union> places d {a}) (define_atom i a d)"
proof -
  note ds = define_atom_simps [OF b i a(2)]
  have l: "length (ds_last d) = N_ATOMS" "\<forall>a < N_ATOMS. \<forall>j. ds_last d ! a = Some j \<longrightarrow> j < i" "D \<subseteq> {..<i}"
    using b by (auto simp: burying_def)
  have "survives e ss r0 (Suc i) r2 (D \<union> places d {a} \<union> places (define_atom i a d) P) P"
    if P: "P \<subseteq> awaiting (define_atom i a d)" for P
  proof -
    let ?Q = "(P - {a}) \<union> ({a} \<inter> awaiting d)"
    have Q: "?Q \<subseteq> awaiting d" using P l by (auto simp: awaiting_def ds nth_list_update split: if_splits)
    have J: "D \<union> places d ?Q \<subseteq> {..<i}" using l Q by (fastforce simp: places_def awaiting_def)
    have v: "survives e ss r0 i r (D \<union> places d ?Q) ?Q" using b Q by (simp add: burying_def)
    have dis: "uses op (s_k (ss ! i)) \<inter> ?Q = {}" using u Q by blast
    note st = survives_step [OF v i J m op r2 dis a(1)]
    have pa: "places d ({a} \<inter> awaiting d) = places d {a}" using a(2) by (auto simp: places_def awaiting_def)
    have pQ: "places d ?Q = places d (P - {a}) \<union> places d {a}" using pa by (auto simp: places_def)
    have pP: "places (define_atom i a d) P = places d (P - {a}) \<union> (if a \<in> P then {i} else {})"
      using l a(2) by (auto simp: places_def ds nth_list_update split: if_splits)
    show ?thesis
    proof (cases "a \<in> P")
      case True
      then have "insert a ?Q = P" by blast
      with st(1) True show ?thesis unfolding pQ pP by (simp add: Un_ac)
    next
      case False
      then have "?Q - {a} = P" by blast
      with st(2) False show ?thesis unfolding pQ pP by (simp add: Un_ac)
    qed
  qed
  moreover have "\<forall>b < N_ATOMS. \<forall>j. ds_last (define_atom i a d) ! b = Some j \<longrightarrow> j < Suc i"
  proof (intro allI impI)
    fix b j assume "b < N_ATOMS" and j: "ds_last (define_atom i a d) ! b = Some j"
    with l show "j < Suc i" by (cases "b = a") (auto simp: ds(2) intro: less_SucI)
  qed
  ultimately show ?thesis using ds l unfolding burying_def by (auto intro: less_SucI)
qed

section \<open>The pass over a block\<close>

lemma forget_none [simp]: "forget [] d = d"
  by (simp add: forget_def)

lemma burying_nth: "burying e ss r0 i r D d \<Longrightarrow> i < length ss \<Longrightarrow> ds_stmts d ! i = ss ! i"
  by (auto simp: burying_def nth_nop_set)

lemma deadstmt_keeps:
  assumes b: "burying e ss r0 i r D d" and i: "i < length ss" and m: "length (snd (snd r)) = 16"
    and plain: "plain_op (ss ! i)" and r2: "act e (ss ! i) r = Some r2"
  shows "\<exists>d' D'. deadstmt i d = Inr d' \<and> burying e ss r0 (Suc i) r2 D' d'"
proof (cases "s_code (ss ! i) = NOP")
  case True
  then have "deadstmt i d = Inr d" by (simp add: deadstmt_def burying_nth [OF b i] atomuse_def atomdef_def Let_def)
  moreover have "burying e ss r0 (Suc i) r2 D d"
    using b True r2 survives_NOP [OF _ i True] unfolding burying_def by (auto simp: less_Suc_eq)
  ultimately show ?thesis by blast
next
  case False
  with plain obtain op where op: "s_code (ss ! i) = op_code op" "straight_op op"
    by (auto simp: plain_op_def split: option.splits)
  with r2 obtain w where w: "op_value e op (s_k (ss ! i)) r = Some w" by (auto simp: act_def split: option.splits)
  from atoms_of_op [OF op w] obtain us where us: "atomuse (ss ! i) = Inr us" "set us = uses op (s_k (ss ! i))"
    and def: "atomdef (ss ! i) = Some (target op (s_k (ss ! i)))" by blast
  have a: "target op (s_k (ss ! i)) < N_ATOMS" using target_less w by (metis prod_cases3)
  have "\<not> list_ex (\<lambda>u. N_ATOMS \<le> u) us" using uses_less [OF w] us(2) by (auto simp: list_ex_iff not_le)
  then have "deadstmt i d = Inr (define_atom i (target op (s_k (ss ! i))) (forget us d))"
    using a us def by (simp add: deadstmt_def burying_nth [OF b i] define_atom_def Let_def)
  moreover have "uses op (s_k (ss ! i)) \<inter> awaiting (forget us d) = {}"
    using burying_forget(2) [OF b, of us] us(2) by blast
  ultimately show ?thesis using burying_define [OF burying_forget(1) [OF b] i m op(1) r2 _ refl a] by blast
qed

lemma deadstmts_keep:
  assumes "burying e ss r0 i r D d" and "i \<le> n" "n \<le> length ss" and "\<forall>j < n. plain_op (ss ! j)"
    and "acts e (drop i (take n ss)) r = Some r2" and "length (snd (snd r)) = 16"
  shows "\<exists>d' D'. deadstmts ([i..<n] @ is) d = deadstmts is d' \<and> burying e ss r0 n r2 D' d'"
  using assms
proof (induction "n - i" arbitrary: i r D d)
  case 0
  then show ?case by auto
next
  case (Suc k)
  then have i: "i < n" by simp
  then have dr: "drop i (take n ss) = ss ! i # drop (Suc i) (take n ss)"
    using Suc.prems(3) by (metis Cons_nth_drop_Suc length_take min.absorb2 nth_take)
  with Suc.prems(5) obtain r1 where r1: "act e (ss ! i) r = Some r1" "acts e (drop (Suc i) (take n ss)) r1 = Some r2"
    by (auto split: option.splits)
  have "i < length ss" "plain_op (ss ! i)" using i Suc.prems(3,4) by simp_all
  from deadstmt_keeps [OF Suc.prems(1) this(1) Suc.prems(6) this(2) r1(1)] obtain d1 D1 where
    d1: "deadstmt i d = Inr d1" "burying e ss r0 (Suc i) r1 D1 d1" by blast
  have "length (snd (snd r1)) = 16" using act_length [OF r1(1)] Suc.prems(6) by simp
  moreover have "k = n - Suc i" "Suc i \<le> n" using Suc.hyps(2) i by simp_all
  ultimately obtain d' D' where
    dd: "deadstmts ([Suc i..<n] @ is) d1 = deadstmts is d'" "burying e ss r0 n r2 D' d'"
    using Suc.hyps(1) [OF _ d1(2) _ Suc.prems(3,4) r1(2)] by blast
  moreover have "[i..<n] = i # [Suc i..<n]" using i by (rule upt_conv_Cons)
  ultimately show ?case using d1(1) by auto
qed

lemma bury_atoms:
  assumes "ds_stmts d = nop_set D ss" and "\<forall>a\<in>set as. \<forall>j. ds_last d ! a = Some j \<longrightarrow> j < length ss"
  shows "ds_stmts (fold (bury_atom out_use) as d) = nop_set (D \<union> places d {a \<in> set as. \<not> out_use a}) ss"
  using assms
proof (induction as arbitrary: d D)
  case Nil
  then show ?case by (simp add: places_def)
next
  case (Cons a as)
  let ?d = "bury_atom out_use a d"
  have last: "ds_last ?d = ds_last d" by (simp add: bury_atom_def delete_at_def split: option.splits)
  have st: "ds_stmts ?d = nop_set (D \<union> places d ({a} \<inter> {a. \<not> out_use a})) ss"
    using Cons.prems nop_set_insert by (auto simp: bury_atom_def delete_at_def places_def split: option.splits)
  have "places ?d {b \<in> set as. \<not> out_use b} = places d {b \<in> set as. \<not> out_use b}" by (simp add: places_def last)
  moreover have "places d {b \<in> set (a # as). \<not> out_use b} =
      places d ({a} \<inter> {a. \<not> out_use a}) \<union> places d {b \<in> set as. \<not> out_use b}"
    by (auto simp: places_def)
  ultimately show ?case using Cons.IH [OF st] Cons.prems(2) by (simp add: last Un_assoc)
qed

lemma atom_less: "A_ATOM < N_ATOMS" "X_ATOM < N_ATOMS"
  by (simp_all add: atom_defs)

lemma branch_atoms:
  assumes "s_code b = op_code op" and "\<not> straight_op op"
  shows "\<exists>us. atomuse b = Inr us \<and> (\<forall>u\<in>set us. u < N_ATOMS) \<and> (op = Ret_A \<longrightarrow> A_ATOM \<in> set us) \<and>
      (\<forall>c sr. op = Jmp c sr \<longrightarrow> A_ATOM \<in> set us \<and> (sr = SrcX \<longrightarrow> X_ATOM \<in> set us))" and "atomdef b = None"
proof -
  have "s_code b \<noteq> NOP" using assms(1) by simp
  moreover have "stmt_code b = label op" using assms(1) by (simp add: stmt_code_def op_code_def)
  ultimately have c: "stmt_code b = label op" "s_code b \<noteq> NOP" by blast+
  note d = atomuse_def atomdef_def Let_def c BPF_CLASS_def BPF_SRC_def BPF_RVAL_def atom_less
  have "(\<exists>us. atomuse b = Inr us \<and> (\<forall>u\<in>set us. u < N_ATOMS) \<and> (op = Ret_A \<longrightarrow> A_ATOM \<in> set us) \<and>
      (\<forall>c sr. op = Jmp c sr \<longrightarrow> A_ATOM \<in> set us \<and> (sr = SrcX \<longrightarrow> X_ATOM \<in> set us))) \<and> atomdef b = None"
  proof (cases op)
    case (Jmp c sr)
    then show ?thesis by (cases c; cases sr) (simp_all add: d)
  qed (use assms(2) in \<open>simp_all add: d\<close>)
  then show "\<exists>us. atomuse b = Inr us \<and> (\<forall>u\<in>set us. u < N_ATOMS) \<and> (op = Ret_A \<longrightarrow> A_ATOM \<in> set us) \<and>
      (\<forall>c sr. op = Jmp c sr \<longrightarrow> A_ATOM \<in> set us \<and> (sr = SrcX \<longrightarrow> X_ATOM \<in> set us))" and "atomdef b = None" by blast+
qed

text \<open>The branch decides, and a return returns, the same.\<close>

definition same_end :: "bpf_env \<Rightarrow> stmt \<Rightarrow> bpf_vm \<Rightarrow> bpf_vm \<Rightarrow> bool" where
  "same_end e b vm vm1 \<longleftrightarrow> branch_cond b vm1 = branch_cond b vm \<and>
     (\<forall>u. exec_stmt e b vm = Inr u \<longrightarrow> exec_stmt e b vm1 = Inr u)"

lemma same_end_atoms:
  assumes op: "s_code b = op_code op" "\<not> straight_op op"
    and "op = Ret_A \<Longrightarrow> atom (regs_of vm1) A_ATOM = atom (regs_of vm) A_ATOM"
    and "\<And>c sr. op = Jmp c sr \<Longrightarrow> atom (regs_of vm1) A_ATOM = atom (regs_of vm) A_ATOM"
    and "\<And>c. op = Jmp c SrcX \<Longrightarrow> atom (regs_of vm1) X_ATOM = atom (regs_of vm) X_ATOM"
  shows "same_end e b vm vm1"
proof -
  note dec = stmt_code_op [OF op(1)]
  show ?thesis
  proof (cases op)
    case (Jmp c sr)
    with assms(3-) show ?thesis
      by (cases sr) (auto simp: same_end_def branch_cond_def dec exec_stmt_def continue_at_def regs_of_def atom_defs Let_def)
  qed (use op(2) assms(3-) in \<open>auto simp: same_end_def branch_cond_def dec exec_stmt_def continue_at_def regs_of_def atom_defs\<close>)
qed

lemma burying_start:
  "length (snd (snd r0)) = 16 \<Longrightarrow>
   burying e ss r0 0 r0 {} \<lparr>ds_stmts = ss, ds_last = replicate N_ATOMS None, ds_done = dn\<rparr>"
  by (auto simp: burying_def survives_def awaiting_def)

text \<open>The statements left after the pass, and what a run of them reaches.\<close>

lemma deadstores_run:
  assumes plain: "list_all (\<lambda>x. plain_op (sl_stmt x)) ss" and b: "s_code b = op_code op" "\<not> straight_op op"
    and m: "length (snd (snd r0)) = 16" and run: "acts e (map sl_stmt ss) r0 = Some r"
  shows "\<exists>us J dn' r1. atomuse b = Inr us \<and> opt_deadstores ss b out_use dn =
      Inr (map2 (\<lambda>x s. x\<lparr>sl_stmt := s\<rparr>) ss (nop_set J (map sl_stmt ss)), b, dn') \<and>
    acts e (nop_set J (map sl_stmt ss)) r0 = Some r1 \<and> length (snd (snd r1)) = 16 \<and>
    (\<forall>a < N_ATOMS. out_use a \<or> a \<in> set us \<longrightarrow> atom r1 a = atom r a)"
proof -
  let ?n = "length ss" and ?SS = "map sl_stmt ss @ [b]"
  let ?d = "\<lparr>ds_stmts = ?SS, ds_last = replicate N_ATOMS None, ds_done = dn\<rparr>"
  have pl: "\<forall>j < ?n. plain_op (?SS ! j)" using plain by (simp add: list_all_length nth_append)
  have run': "acts e (drop 0 (take ?n ?SS)) r0 = Some r" using run by simp
  from deadstmts_keep [OF burying_start [OF m] _ _ pl run' m, of "[?n]" dn] obtain d D where
    d: "deadstmts ([0..<?n] @ [?n]) ?d = deadstmts [?n] d" "burying e ?SS r0 ?n r D d" by auto
  from branch_atoms [OF b] obtain us where us: "atomuse b = Inr us" "\<forall>u\<in>set us. u < N_ATOMS" "atomdef b = None" by blast
  let ?f = "forget us d" and ?J = "D \<union> places (forget us d) {a \<in> set [0..<N_ATOMS]. \<not> out_use a}"
  note f = burying_forget [OF d(2), of us]
  have "\<not> list_ex (\<lambda>u. N_ATOMS \<le> u) us" using us(2) by (auto simp: list_ex_iff not_le)
  then have "deadstmts [?n] d = Inr ?f"
    using us burying_nth [OF d(2)] by (simp add: deadstmt_def nth_append Let_def)
  with d(1) have loop: "deadstmts [0..<Suc ?n] ?d = Inr ?f" by simp
  have last: "\<forall>a\<in>set [0..<N_ATOMS]. \<forall>j. ds_last ?f ! a = Some j \<longrightarrow> j < ?n"
    using f(1) by (simp add: burying_def)
  have st: "ds_stmts (fold (bury_atom out_use) [0..<N_ATOMS] ?f) = nop_set ?J ?SS"
    using f(1) last by (intro bury_atoms) (auto simp: burying_def)
  have J: "?J \<subseteq> {..<?n}" using f(1) last by (auto simp: burying_def places_def)
  then have split: "nop_set ?J ?SS = nop_set ?J (map sl_stmt ss) @ [b]"
    by (intro nth_equalityI) (auto simp: nth_nop_set nth_append less_Suc_eq)
  let ?P = "{a \<in> awaiting ?f. \<not> out_use a}"
  have "places ?f ?P = places ?f {a \<in> set [0..<N_ATOMS]. \<not> out_use a}" by (auto simp: places_def awaiting_def)
  with burying_survives [OF f(1), of ?P] have "survives e ?SS r0 ?n r ?J ?P" by simp
  then obtain r1 where "acts e (take ?n (nop_set ?J ?SS)) r0 = Some r1" and r1: "length (snd (snd r1)) = 16"
    "\<forall>a < N_ATOMS. a \<notin> ?P \<longrightarrow> atom r1 a = atom r a" unfolding survives_def by blast
  then have r1_run: "acts e (nop_set ?J (map sl_stmt ss)) r0 = Some r1" unfolding split by simp
  have "opt_deadstores ss b out_use dn = Inr (map2 (\<lambda>x s. x\<lparr>sl_stmt := s\<rparr>) ss (nop_set ?J (map sl_stmt ss)), b,
      ds_done (fold (bury_atom out_use) [0..<N_ATOMS] ?f))"
    unfolding opt_deadstores_def Let_def loop sum.case st split
    by (simp add: zip_append2 nth_append del: set_upt)
  moreover have "\<forall>a < N_ATOMS. out_use a \<or> a \<in> set us \<longrightarrow> a \<notin> ?P" using f(2) by blast
  ultimately show ?thesis using us(1) r1 r1_run by blast
qed

text \<open>
  C5. The removal of dead definitions from a block (\<open>opt_deadstores\<close>) succeeds, and where the run
  of its statements goes through, it still does, the atoms used on exit have the values they had,
  and the branch at the end decides, or returns, the same.
\<close>

theorem opt_deadstores_preserve:
  assumes plain: "list_all (\<lambda>x. plain_op (sl_stmt x)) ss" and b: "s_code b = op_code op" "\<not> straight_op op"
    and m: "length (scratch vm) = 16" and run: "exec_stmts e ss vm = Inl vm'"
  shows "\<exists>ss' dn' vm1. opt_deadstores ss b out_use dn = Inr (ss', b, dn') \<and> exec_stmts e ss' vm = Inl vm1 \<and>
    (\<forall>a < N_ATOMS. out_use a \<longrightarrow> atom (regs_of vm1) a = atom (regs_of vm') a) \<and> same_end e b vm' vm1"
proof -
  have run': "acts e (map sl_stmt ss) (regs_of vm) = Some (regs_of vm')" using exec_acts [OF plain m] run by simp
  have m': "length (snd (snd (regs_of vm))) = 16" by (simp add: length_regs m)
  from deadstores_run [OF plain b m' run', of out_use dn] obtain us J dn' r1 where us: "atomuse b = Inr us"
    and o: "opt_deadstores ss b out_use dn = Inr (map2 (\<lambda>x s. x\<lparr>sl_stmt := s\<rparr>) ss (nop_set J (map sl_stmt ss)), b, dn')"
    and r1: "acts e (nop_set J (map sl_stmt ss)) (regs_of vm) = Some r1"
      "\<forall>a < N_ATOMS. out_use a \<or> a \<in> set us \<longrightarrow> atom r1 a = atom (regs_of vm') a" by blast
  let ?ss = "map2 (\<lambda>x s. x\<lparr>sl_stmt := s\<rparr>) ss (nop_set J (map sl_stmt ss))"
  have st: "map sl_stmt ?ss = nop_set J (map sl_stmt ss)" by (intro nth_equalityI) simp_all
  have "list_all plain_op (map sl_stmt ?ss)"
    unfolding st using plain by (auto simp: list_all_length nth_nop_set)
  then have "list_all (\<lambda>x. plain_op (sl_stmt x)) ?ss" by (simp only: list.pred_map comp_def)
  from exec_acts [OF this m, of e] r1(1) st obtain vm1 where vm1: "exec_stmts e ?ss vm = Inl vm1" "regs_of vm1 = r1"
    by (auto split: sum.splits)
  from branch_atoms(1) [OF b] us r1(2) vm1(2) have "same_end e b vm' vm1"
    by (intro same_end_atoms [OF b]) auto
  with o vm1 r1(2) show ?thesis by blast
qed

definition sample_stores :: "slist list" where
  "sample_stores = [op_node Ld_Imm 1, op_node St 1, op_node Ld_Imm 2, op_node St 0, op_node Tax 0]"

definition sample_jump :: stmt where
  "sample_jump = plain_stmt (op_code (Jmp Jeq SrcK)) 2"

lemma sample_stores_run: "\<exists>vm. exec_stmts sample_packet sample_stores sample_regs = Inl vm \<and>
    scratch vm ! 0 = 2 \<and> branch_cond sample_jump vm = Some True"
  by (simp add: sample_stores_def sample_jump_def sample_packet_def sample_regs_def op_node_def plain_stmt_def exec_stmt_def
    stmt_code_def stmt_insn_def BPF_STMT_def set_reg_defs mem_write_def branch_cond_def)

theorem opt_deadstores_preserve_witness:
  "\<exists>ss' dn' vm1. opt_deadstores sample_stores sample_jump (\<lambda>a. a = 0) True = Inr (ss', sample_jump, dn') \<and>
    exec_stmts sample_packet ss' sample_regs = Inl vm1 \<and> scratch vm1 ! 0 = 2 \<and> branch_cond sample_jump vm1 = Some True"
proof -
  obtain vm where vm: "exec_stmts sample_packet sample_stores sample_regs = Inl vm" "scratch vm ! 0 = 2"
    "branch_cond sample_jump vm = Some True" using sample_stores_run by blast
  have plain: "list_all (\<lambda>x. plain_op (sl_stmt x)) sample_stores"
    by (simp add: sample_stores_def op_node_def plain_stmt_def plain_op_def stmt_code_def)
  have jump: "s_code sample_jump = op_code (Jmp Jeq SrcK)" "\<not> straight_op (Jmp Jeq SrcK)" "length (scratch sample_regs) = 16"
    by (simp_all add: sample_jump_def plain_stmt_def sample_regs_def)
  from opt_deadstores_preserve [OF plain jump vm(1), of "\<lambda>a. a = 0" True] obtain ss' dn' vm1 where
    "opt_deadstores sample_stores sample_jump (\<lambda>a. a = 0) True = Inr (ss', sample_jump, dn')"
    "exec_stmts sample_packet ss' sample_regs = Inl vm1" "atom (regs_of vm1) 0 = atom (regs_of vm) 0"
    "same_end sample_packet sample_jump vm vm1" by (auto simp: N_ATOMS_def simp del: atom.simps)
  with vm show ?thesis by (auto simp: same_end_def regs_of_def atom_defs)
qed

text \<open>What is left of it: the store that nothing uses and the definition of the index register go.\<close>

lemma sample_stores_left:
  "(case opt_deadstores sample_stores sample_jump (\<lambda>a. a = 0) True of
      Inl _ \<Rightarrow> [] | Inr (ss, _) \<Rightarrow> map (s_code \<circ> sl_stmt) ss) =
     [op_code Ld_Imm, NOP, op_code Ld_Imm, op_code St, NOP]"
  by code_simp

end
