(* ===== verification/Live_Handle.thy ===== *)
theory Live_Handle
  imports Pcap_State Datalink_Names Bpf_Image
begin

text \<open>
  The life of a handle (pcap.c): it is created, its options are set, it is activated, it is used
  through the operations its module has installed, it is closed. The modules, which talk to the
  system, are a parameter: what each of their routines returns and does to the handle.
\<close>

section \<open>Handles and their operations\<close>

text \<open>
  The operations of a handle are function pointers. \<open>Module r\<close> is a routine of the module, the
  other constructors are the routines of pcap.c that the pointers may hold. A C \<open>int\<close> that the
  code only stores or compares is an \<open>int\<close>; a message buffer is the text up to its null byte.
\<close>

datatype 'r routine =
    Null_routine
  | Not_initialized
  | Cant_set_rfmon
  | Stats_dead
  | Module 'r

datatype 'r cleanup = Null_cleanup | Cleanup_live_common | Cleanup_dead | Module_cleanup 'r

record 'r operations =
  read_op :: "'r routine"
  activate_op :: "'r routine"
  can_set_rfmon_op :: "'r routine"
  inject_op :: "'r routine"
  setfilter_op :: "'r routine"
  setdirection_op :: "'r routine"
  set_datalink_op :: "'r routine"
  getnonblock_op :: "'r routine"
  setnonblock_op :: "'r routine"
  stats_op :: "'r routine"
  cleanup_op :: "'r cleanup"

record pcap_opt =
  opt_timeout :: int
  opt_buffer_size :: int
  opt_promisc :: int
  opt_rfmon :: int
  opt_immediate :: int
  opt_tstamp_type :: int
  opt_tstamp_precision :: int

text \<open>
  \<open>struct pcap\<close> of a handle that is not for a savefile. Lists stand for a count and an array; the
  snapshot length and the options are what a client may set before it activates the handle.
\<close>

record 'r live =
  lv_source :: string
  lv_snapshot :: int
  lv_opt :: pcap_opt
  lv_linktype :: int
  lv_linktype_ext :: int
  lv_version :: "int \<times> int"
  lv_swapped :: int
  lv_fd :: int
  lv_selectable_fd :: int
  lv_buffer :: "u8 list option"
  lv_break_loop :: bool
  lv_activated :: bool
  lv_oldstyle :: bool
  lv_errbuf :: string
  lv_dlt_list :: "int list"
  lv_tstamp_type_list :: "int list"
  lv_tstamp_precision_list :: "int list"
  lv_fcode :: "bpf_insn list option"
  lv_ops :: "'r operations"

text \<open>
  What a routine is asked to do. For the two calls on non-blocking mode the request carries the
  contents of the client's message buffer, which a routine returns, changed or not.
\<close>

datatype request =
    Read u32
  | Inject "u8 list"
  | Setfilter "bpf_insn list"
  | Setdirection int
  | Set_datalink int
  | Getnonblock string
  | Setnonblock int string
  | Stats
  | Activate
  | Can_set_rfmon
  | Cleanup

fun client_errbuf :: "request \<Rightarrow> string" where
  "client_errbuf (Getnonblock e) = e"
| "client_errbuf (Setnonblock n e) = e"
| "client_errbuf _ = ''''"

type_synonym 'r modules = "'r \<Rightarrow> request \<Rightarrow> 'r live \<Rightarrow> int \<times> string \<times> 'r live"

section \<open>Messages\<close>

definition PCAP_ERRBUF_SIZE :: nat where "PCAP_ERRBUF_SIZE = 256"

text \<open>\<open>snprintf\<close> into a message buffer keeps what fits before the null byte.\<close>

definition printed :: "string \<Rightarrow> string" where
  "printed s = take (PCAP_ERRBUF_SIZE - 1) s"

definition PCAP_ERROR :: int where "PCAP_ERROR = - 1"
definition PCAP_ERROR_NOT_ACTIVATED :: int where "PCAP_ERROR_NOT_ACTIVATED = - 3"
definition PCAP_ERROR_ACTIVATED :: int where "PCAP_ERROR_ACTIVATED = - 4"
definition PCAP_ERROR_NO_SUCH_DEVICE :: int where "PCAP_ERROR_NO_SUCH_DEVICE = - 5"
definition PCAP_ERROR_PERM_DENIED :: int where "PCAP_ERROR_PERM_DENIED = - 8"
definition PCAP_ERROR_PROMISC_PERM_DENIED :: int where "PCAP_ERROR_PROMISC_PERM_DENIED = - 11"
definition PCAP_ERROR_TSTAMP_PRECISION_NOTSUP :: int where "PCAP_ERROR_TSTAMP_PRECISION_NOTSUP = - 12"
definition PCAP_WARNING_TSTAMP_TYPE_NOTSUP :: int where "PCAP_WARNING_TSTAMP_TYPE_NOTSUP = 3"
definition PCAP_TSTAMP_HOST :: int where "PCAP_TSTAMP_HOST = 0"

lemmas pcap_code_defs = PCAP_ERROR_def PCAP_ERROR_NOT_ACTIVATED_def PCAP_ERROR_ACTIVATED_def
  PCAP_ERROR_NO_SUCH_DEVICE_def PCAP_ERROR_PERM_DENIED_def PCAP_ERROR_PROMISC_PERM_DENIED_def
  PCAP_ERROR_TSTAMP_PRECISION_NOTSUP_def PCAP_WARNING_TSTAMP_TYPE_NOTSUP_def PCAP_TSTAMP_HOST_def

text \<open>
  The default message is built in a static buffer of 15+10+1 bytes.
\<close>

definition pcap_statustostr :: "int \<Rightarrow> string" where
  "pcap_statustostr errnum =
     (if errnum = 1 then ''Generic warning''
      else if errnum = 3 then ''That type of time stamp is not supported by that device''
      else if errnum = 2 then ''That device doesn't support promiscuous mode''
      else if errnum = -1 then ''Generic error''
      else if errnum = -2 then ''Loop terminated by pcap_breakloop''
      else if errnum = -3 then ''The pcap_t has not been activated''
      else if errnum = -4 then ''The setting can't be changed after the pcap_t is activated''
      else if errnum = -5 then ''No such device exists''
      else if errnum = -6 then ''That device doesn't support monitor mode''
      else if errnum = -7 then ''That operation is supported only in monitor mode''
      else if errnum = -8 then ''You don't have permission to capture on that device''
      else if errnum = -9 then ''That device is not up''
      else if errnum = -10 then ''That device doesn't support setting the time stamp type''
      else if errnum = -11 then
        ''You don't have permission to capture in promiscuous mode on that device''
      else if errnum = -12 then ''That device doesn't support that time stamp precision''
      else take 25 (''Unknown error: '' @ show_int errnum))"

section \<open>Calling an operation\<close>

text \<open>
  \<open>pcap_cleanup_live_common\<close> frees what the handle has and closes its descriptor.
\<close>

definition pcap_cleanup_live_common :: "'r live \<Rightarrow> 'r live" where
  "pcap_cleanup_live_common p =
     p\<lparr>lv_buffer := None, lv_dlt_list := [], lv_tstamp_type_list := [],
       lv_tstamp_precision_list := [], lv_fcode := None,
       lv_fd := (if 0 \<le> lv_fd p then - 1 else lv_fd p), lv_selectable_fd := - 1\<rparr>"

definition pcap_stats_dead :: "'r live \<Rightarrow> int \<times> 'r live" where
  "pcap_stats_dead p =
     (- 1, p\<lparr>lv_errbuf := printed ''Statistics aren't available from a pcap_open_dead pcap_t''\<rparr>)"

text \<open>
  Calling a null pointer is behaviour C does not define: \<open>None\<close>. \<open>pcap_cleanup_dead\<close> does
  nothing.
\<close>

fun run_routine :: "'r modules \<Rightarrow> 'r routine \<Rightarrow> request \<Rightarrow> 'r live \<Rightarrow> (int \<times> string \<times> 'r live) option" where
  "run_routine md Null_routine q p = None"
| "run_routine md Not_initialized q p = Some (PCAP_ERROR_NOT_ACTIVATED, client_errbuf q, p)"
| "run_routine md Cant_set_rfmon q p = Some (0, client_errbuf q, p)"
| "run_routine md Stats_dead q p = (case pcap_stats_dead p of (n, p) \<Rightarrow> Some (n, client_errbuf q, p))"
| "run_routine md (Module r) q p = Some (md r q p)"

fun run_cleanup :: "'r modules \<Rightarrow> 'r cleanup \<Rightarrow> 'r live \<Rightarrow> 'r live option" where
  "run_cleanup md Null_cleanup p = None"
| "run_cleanup md Cleanup_live_common p = Some (pcap_cleanup_live_common p)"
| "run_cleanup md Cleanup_dead p = Some p"
| "run_cleanup md (Module_cleanup r) p = Some (snd (snd (md r Cleanup p)))"

definition call_op :: "'r modules \<Rightarrow> 'r routine \<Rightarrow> request \<Rightarrow> 'r live \<Rightarrow> (int \<times> 'r live) option" where
  "call_op md f q p = map_option (\<lambda>(n, e, p). (n, p)) (run_routine md f q p)"

section \<open>Creation\<close>

definition initialize_ops :: "'r live \<Rightarrow> 'r live" where
  "initialize_ops p = p\<lparr>lv_ops := (lv_ops p)\<lparr>
     read_op := Not_initialized, inject_op := Not_initialized, setfilter_op := Not_initialized,
     setdirection_op := Not_initialized, set_datalink_op := Not_initialized,
     getnonblock_op := Not_initialized, setnonblock_op := Not_initialized,
     stats_op := Not_initialized, cleanup_op := Cleanup_live_common\<rparr>\<rparr>"

text \<open>A \<open>pcap_t\<close> with every byte zero.\<close>

definition zero_live :: "'r live" where
  "zero_live = \<lparr>lv_source = '''', lv_snapshot = 0,
     lv_opt = \<lparr>opt_timeout = 0, opt_buffer_size = 0, opt_promisc = 0, opt_rfmon = 0,
       opt_immediate = 0, opt_tstamp_type = 0, opt_tstamp_precision = 0\<rparr>,
     lv_linktype = 0, lv_linktype_ext = 0, lv_version = (0, 0), lv_swapped = 0, lv_fd = 0,
     lv_selectable_fd = 0, lv_buffer = None, lv_break_loop = False, lv_activated = False,
     lv_oldstyle = False, lv_errbuf = '''', lv_dlt_list = [], lv_tstamp_type_list = [],
     lv_tstamp_precision_list = [], lv_fcode = None,
     lv_ops = \<lparr>read_op = Null_routine, activate_op = Null_routine, can_set_rfmon_op = Null_routine,
       inject_op = Null_routine, setfilter_op = Null_routine, setdirection_op = Null_routine,
       set_datalink_op = Null_routine, getnonblock_op = Null_routine,
       setnonblock_op = Null_routine, stats_op = Null_routine, cleanup_op = Null_cleanup\<rparr>\<rparr>"

definition pcap_alloc_pcap_t :: "heap \<Rightarrow> 'r live option" where
  "pcap_alloc_pcap_t hp =
     (if new_pcap hp then Some (zero_live\<lparr>lv_fd := - 1, lv_selectable_fd := - 1\<rparr>) else None)"

section \<open>Options\<close>

definition pcap_check_activated :: "'r live \<Rightarrow> int \<times> 'r live" where
  "pcap_check_activated p =
     (if lv_activated p then
        (- 1, p\<lparr>lv_errbuf := printed ''can't perform  operation on activated capture''\<rparr>)
      else (0, p))"

definition pcap_set_snaplen :: "int \<Rightarrow> 'r live \<Rightarrow> int \<times> 'r live" where
  "pcap_set_snaplen snaplen p =
     (case pcap_check_activated p of (c, p) \<Rightarrow>
        if c \<noteq> 0 then (PCAP_ERROR_ACTIVATED, p) else (0, p\<lparr>lv_snapshot := snaplen\<rparr>))"

definition pcap_set_promisc :: "int \<Rightarrow> 'r live \<Rightarrow> int \<times> 'r live" where
  "pcap_set_promisc promisc p =
     (case pcap_check_activated p of (c, p) \<Rightarrow>
        if c \<noteq> 0 then (PCAP_ERROR_ACTIVATED, p)
        else (0, p\<lparr>lv_opt := (lv_opt p)\<lparr>opt_promisc := promisc\<rparr>\<rparr>))"

definition pcap_set_rfmon :: "int \<Rightarrow> 'r live \<Rightarrow> int \<times> 'r live" where
  "pcap_set_rfmon rfmon p =
     (case pcap_check_activated p of (c, p) \<Rightarrow>
        if c \<noteq> 0 then (PCAP_ERROR_ACTIVATED, p)
        else (0, p\<lparr>lv_opt := (lv_opt p)\<lparr>opt_rfmon := rfmon\<rparr>\<rparr>))"

definition pcap_set_timeout :: "int \<Rightarrow> 'r live \<Rightarrow> int \<times> 'r live" where
  "pcap_set_timeout timeout_ms p =
     (case pcap_check_activated p of (c, p) \<Rightarrow>
        if c \<noteq> 0 then (PCAP_ERROR_ACTIVATED, p)
        else (0, p\<lparr>lv_opt := (lv_opt p)\<lparr>opt_timeout := timeout_ms\<rparr>\<rparr>))"

definition pcap_set_immediate_mode :: "int \<Rightarrow> 'r live \<Rightarrow> int \<times> 'r live" where
  "pcap_set_immediate_mode immediate p =
     (case pcap_check_activated p of (c, p) \<Rightarrow>
        if c \<noteq> 0 then (PCAP_ERROR_ACTIVATED, p)
        else (0, p\<lparr>lv_opt := (lv_opt p)\<lparr>opt_immediate := immediate\<rparr>\<rparr>))"

definition pcap_set_buffer_size :: "int \<Rightarrow> 'r live \<Rightarrow> int \<times> 'r live" where
  "pcap_set_buffer_size buffer_size p =
     (case pcap_check_activated p of (c, p) \<Rightarrow>
        if c \<noteq> 0 then (PCAP_ERROR_ACTIVATED, p)
        else (0, p\<lparr>lv_opt := (lv_opt p)\<lparr>opt_buffer_size := buffer_size\<rparr>\<rparr>))"

text \<open>Whether a value is one of a list, as the loops over the two lists of time stamps find it.\<close>

fun listed :: "int \<Rightarrow> int list \<Rightarrow> bool" where
  "listed v [] = False"
| "listed v (x # xs) = (if x = v then True else listed v xs)"

definition pcap_set_tstamp_type :: "int \<Rightarrow> 'r live \<Rightarrow> int \<times> 'r live" where
  "pcap_set_tstamp_type tstamp_type p =
     (case pcap_check_activated p of (c, p) \<Rightarrow>
        if c \<noteq> 0 then (PCAP_ERROR_ACTIVATED, p)
        else if (if lv_tstamp_type_list p = [] then tstamp_type = PCAP_TSTAMP_HOST
                 else listed tstamp_type (lv_tstamp_type_list p)) then
          (0, p\<lparr>lv_opt := (lv_opt p)\<lparr>opt_tstamp_type := tstamp_type\<rparr>\<rparr>)
        else (PCAP_WARNING_TSTAMP_TYPE_NOTSUP, p))"

definition pcap_set_tstamp_precision :: "int \<Rightarrow> 'r live \<Rightarrow> int \<times> 'r live" where
  "pcap_set_tstamp_precision precision p =
     (case pcap_check_activated p of (c, p) \<Rightarrow>
        if c \<noteq> 0 then (PCAP_ERROR_ACTIVATED, p)
        else if (if lv_tstamp_precision_list p = []
                 then precision = uint PCAP_TSTAMP_PRECISION_MICRO
                 else listed precision (lv_tstamp_precision_list p)) then
          (0, p\<lparr>lv_opt := (lv_opt p)\<lparr>opt_tstamp_precision := precision\<rparr>\<rparr>)
        else (PCAP_ERROR_TSTAMP_PRECISION_NOTSUP, p))"

definition pcap_get_tstamp_precision :: "'r live \<Rightarrow> int" where
  "pcap_get_tstamp_precision p = opt_tstamp_precision (lv_opt p)"

text \<open>
  The part of creation that the modules share. \<open>strerr\<close> is what \<open>pcap_strerror(errno)\<close> gives.
\<close>

definition pcap_create_common :: "heap \<Rightarrow> string \<Rightarrow> string \<Rightarrow> string + 'r live" where
  "pcap_create_common hp strerr source =
     (case pcap_alloc_pcap_t hp of
        None \<Rightarrow> Inl (printed (''malloc: '' @ strerr))
      | Some p \<Rightarrow>
          if \<not> dup_source hp then Inl (printed (''malloc: '' @ strerr))
          else
            let p = p\<lparr>lv_source := source\<rparr>;
                p = p\<lparr>lv_ops := (lv_ops p)\<lparr>can_set_rfmon_op := Cant_set_rfmon\<rparr>\<rparr>;
                p = initialize_ops p;
                p = snd (pcap_set_snaplen (uint MAXIMUM_SNAPLEN) p)
            in Inr (p\<lparr>lv_opt := \<lparr>opt_timeout = 0, opt_buffer_size = 0, opt_promisc = 0, opt_rfmon = 0,
                 opt_immediate = 0, opt_tstamp_type = - 1,
                 opt_tstamp_precision = uint PCAP_TSTAMP_PRECISION_MICRO\<rparr>\<rparr>))"

text \<open>
  Creation by source name: the first type of source that claims the name decides, otherwise it is
  a regular network interface. A creator gets the name and the message buffer and gives the
  handle, if there is one, the buffer, and whether the name is one of its own.
\<close>

type_synonym 'r creator = "string \<Rightarrow> string \<Rightarrow> 'r live option \<times> string \<times> bool"

fun create_loop :: "'r creator list \<Rightarrow> string \<Rightarrow> string \<Rightarrow> ('r live option \<times> string) + string" where
  "create_loop [] source errbuf = Inr errbuf"
| "create_loop (c # cs) source errbuf =
     (case c source errbuf of (p, errbuf, is_theirs) \<Rightarrow>
        if is_theirs then Inl (p, errbuf) else create_loop cs source errbuf)"

definition pcap_create ::
  "'r creator list \<Rightarrow> (string \<Rightarrow> string \<Rightarrow> 'r live option \<times> string) \<Rightarrow> string option \<Rightarrow> string \<Rightarrow>
   'r live option \<times> string" where
  "pcap_create capture_source_types pcap_create_interface source errbuf =
     (let source = (case source of None \<Rightarrow> ''any'' | Some s \<Rightarrow> s) in
      case create_loop capture_source_types source errbuf of
        Inl r \<Rightarrow> r
      | Inr errbuf \<Rightarrow> pcap_create_interface source errbuf)"

section \<open>Activation\<close>

definition pcap_activate :: "'r modules \<Rightarrow> 'r live \<Rightarrow> (int \<times> 'r live) option" where
  "pcap_activate md p =
     (case pcap_check_activated p of (c, p) \<Rightarrow>
        if c \<noteq> 0 then Some (PCAP_ERROR_ACTIVATED, p)
        else
          (case call_op md (activate_op (lv_ops p)) Activate p of
             None \<Rightarrow> None
           | Some (status, p) \<Rightarrow>
               if 0 \<le> status then Some (status, p\<lparr>lv_activated := True\<rparr>)
               else
                 let p = (if lv_errbuf p = ''''
                          then p\<lparr>lv_errbuf := printed (pcap_statustostr status)\<rparr> else p)
                 in Some (status, initialize_ops p)))"

text \<open>
  Closing frees the handle after its cleanup; the result is what the cleanup left.
\<close>

definition pcap_close :: "'r modules \<Rightarrow> 'r live \<Rightarrow> 'r live option" where
  "pcap_close md p = run_cleanup md (cleanup_op (lv_ops p)) p"

text \<open>
  \<open>pcap_open_live\<close>: create, set, activate. A failure leaves a message that begins with the name of
  the source; a null name is printed with \<open>%s\<close>, which C leaves undefined.
\<close>

definition open_live_message :: "int \<Rightarrow> string \<Rightarrow> string \<Rightarrow> string" where
  "open_live_message status source p_errbuf =
     printed
      (if status = PCAP_ERROR then source @ '': '' @ p_errbuf
       else if status = PCAP_ERROR_NO_SUCH_DEVICE \<or> status = PCAP_ERROR_PERM_DENIED \<or>
         status = PCAP_ERROR_PROMISC_PERM_DENIED then
         source @ '': '' @ pcap_statustostr status @ '' ('' @ p_errbuf @ '')''
       else source @ '': '' @ pcap_statustostr status)"

definition open_live_fail ::
  "'r modules \<Rightarrow> string option \<Rightarrow> int \<Rightarrow> 'r live \<Rightarrow> ('r live option \<times> string) option" where
  "open_live_fail md source status p =
     (case source of
        None \<Rightarrow> None
      | Some s \<Rightarrow>
          (case pcap_close md p of
             None \<Rightarrow> None
           | Some _ \<Rightarrow> Some (None, open_live_message status s (lv_errbuf p))))"

definition pcap_open_live ::
  "'r modules \<Rightarrow> 'r creator list \<Rightarrow> (string \<Rightarrow> string \<Rightarrow> 'r live option \<times> string) \<Rightarrow>
   string option \<Rightarrow> int \<Rightarrow> int \<Rightarrow> int \<Rightarrow> string \<Rightarrow> ('r live option \<times> string) option" where
  "pcap_open_live md types iface source snaplen promisc to_ms errbuf =
     (case pcap_create types iface source errbuf of
        (None, errbuf) \<Rightarrow> Some (None, errbuf)
      | (Some p, errbuf) \<Rightarrow>
          (case pcap_set_snaplen snaplen p of (status, p) \<Rightarrow>
           if status < 0 then open_live_fail md source status p else
           (case pcap_set_promisc promisc p of (status, p) \<Rightarrow>
            if status < 0 then open_live_fail md source status p else
            (case pcap_set_timeout to_ms p of (status, p) \<Rightarrow>
             if status < 0 then open_live_fail md source status p else
             (case pcap_activate md (p\<lparr>lv_oldstyle := True\<rparr>) of
                None \<Rightarrow> None
              | Some (status, p) \<Rightarrow>
                  if status < 0 then open_live_fail md source status p
                  else Some (Some p, errbuf))))))"

section \<open>Use\<close>

definition pcap_can_set_rfmon :: "'r modules \<Rightarrow> 'r live \<Rightarrow> (int \<times> 'r live) option" where
  "pcap_can_set_rfmon md p = call_op md (can_set_rfmon_op (lv_ops p)) Can_set_rfmon p"

definition pcap_dispatch :: "'r modules \<Rightarrow> u32 \<Rightarrow> 'r live \<Rightarrow> (int \<times> 'r live) option" where
  "pcap_dispatch md cnt p = call_op md (read_op (lv_ops p)) (Read cnt) p"

definition pcap_setfilter :: "'r modules \<Rightarrow> bpf_insn list \<Rightarrow> 'r live \<Rightarrow> (int \<times> 'r live) option" where
  "pcap_setfilter md fp p = call_op md (setfilter_op (lv_ops p)) (Setfilter fp) p"

definition pcap_setdirection :: "'r modules \<Rightarrow> int \<Rightarrow> 'r live \<Rightarrow> (int \<times> 'r live) option" where
  "pcap_setdirection md d p =
     (if setdirection_op (lv_ops p) = Null_routine then
        Some (- 1, p\<lparr>lv_errbuf := printed ''Setting direction is not implemented on this platform''\<rparr>)
      else call_op md (setdirection_op (lv_ops p)) (Setdirection d) p)"

definition pcap_stats :: "'r modules \<Rightarrow> 'r live \<Rightarrow> (int \<times> 'r live) option" where
  "pcap_stats md p = call_op md (stats_op (lv_ops p)) Stats p"

definition pcap_inject :: "'r modules \<Rightarrow> u8 list \<Rightarrow> 'r live \<Rightarrow> (int \<times> 'r live) option" where
  "pcap_inject md buf p = call_op md (inject_op (lv_ops p)) (Inject buf) p"

definition pcap_sendpacket :: "'r modules \<Rightarrow> u8 list \<Rightarrow> 'r live \<Rightarrow> (int \<times> 'r live) option" where
  "pcap_sendpacket md buf p =
     (case call_op md (inject_op (lv_ops p)) (Inject buf) p of
        None \<Rightarrow> None
      | Some (n, p) \<Rightarrow> Some (if n = - 1 then - 1 else 0, p))"

text \<open>The two calls on non-blocking mode copy the client's message into the handle on a failure.\<close>

definition copy_client_errbuf :: "(int \<times> string \<times> 'r live) option \<Rightarrow> (int \<times> string \<times> 'r live) option" where
  "copy_client_errbuf r =
     (case r of
        None \<Rightarrow> None
      | Some (ret, errbuf, p) \<Rightarrow>
          Some (ret, errbuf, if ret = - 1 then p\<lparr>lv_errbuf := printed errbuf\<rparr> else p))"

definition pcap_getnonblock :: "'r modules \<Rightarrow> string \<Rightarrow> 'r live \<Rightarrow> (int \<times> string \<times> 'r live) option" where
  "pcap_getnonblock md errbuf p =
     copy_client_errbuf (run_routine md (getnonblock_op (lv_ops p)) (Getnonblock errbuf) p)"

definition pcap_setnonblock ::
  "'r modules \<Rightarrow> int \<Rightarrow> string \<Rightarrow> 'r live \<Rightarrow> (int \<times> string \<times> 'r live) option" where
  "pcap_setnonblock md nonblock errbuf p =
     copy_client_errbuf (run_routine md (setnonblock_op (lv_ops p)) (Setnonblock nonblock errbuf) p)"

definition when_activated :: "('r live \<Rightarrow> int) \<Rightarrow> 'r live \<Rightarrow> int" where
  "when_activated f p = (if \<not> lv_activated p then PCAP_ERROR_NOT_ACTIVATED else f p)"

definition pcap_datalink :: "'r live \<Rightarrow> int" where
  "pcap_datalink = when_activated lv_linktype"

definition pcap_datalink_ext :: "'r live \<Rightarrow> int" where
  "pcap_datalink_ext = when_activated lv_linktype_ext"

definition pcap_snapshot :: "'r live \<Rightarrow> int" where
  "pcap_snapshot = when_activated lv_snapshot"

definition pcap_is_swapped :: "'r live \<Rightarrow> int" where
  "pcap_is_swapped = when_activated lv_swapped"

definition pcap_major_version :: "'r live \<Rightarrow> int" where
  "pcap_major_version = when_activated (\<lambda>p. fst (lv_version p))"

definition pcap_minor_version :: "'r live \<Rightarrow> int" where
  "pcap_minor_version = when_activated (\<lambda>p. snd (lv_version p))"

definition pcap_fileno :: "'r live \<Rightarrow> int" where
  "pcap_fileno p = lv_fd p"

definition pcap_get_selectable_fd :: "'r live \<Rightarrow> int" where
  "pcap_get_selectable_fd p = lv_selectable_fd p"

definition pcap_list_tstamp_types :: "heap \<Rightarrow> string \<Rightarrow> 'r live \<Rightarrow> (int \<times> int list) \<times> 'r live" where
  "pcap_list_tstamp_types hp strerr p =
     (if lv_tstamp_type_list p = [] then ((0, []), p)
      else
        (case malloc hp (4 * length (lv_tstamp_type_list p)) of
           None \<Rightarrow> ((PCAP_ERROR, []), p\<lparr>lv_errbuf := printed (''malloc: '' @ strerr)\<rparr>)
         | Some _ \<Rightarrow> ((int (length (lv_tstamp_type_list p)), lv_tstamp_type_list p), p)))"

text \<open>
  \<open>pcap_loop\<close> on a handle without a file: the inner loop reads again while the module gives 0. A
  null \<open>read_op\<close> is a crash; a loop that never ends is \<open>None\<close>.
\<close>

datatype 'r loop_result = Loop_returns int "'r live" | Loop_crash

definition read_step :: "'r modules \<Rightarrow> u32 \<Rightarrow> 'r live \<Rightarrow> 'r live + 'r loop_result" where
  "read_step md cnt p =
     (case call_op md (read_op (lv_ops p)) (Read cnt) p of
        None \<Rightarrow> Inr Loop_crash
      | Some (n, p) \<Rightarrow> if n = 0 then Inl p else Inr (Loop_returns n p))"

partial_function (option) live_loop :: "'r modules \<Rightarrow> u32 \<Rightarrow> 'r live \<Rightarrow> 'r loop_result option" where
  "live_loop md cnt p =
     (case run_machine (read_step md cnt) p of
        None \<Rightarrow> None
      | Some Loop_crash \<Rightarrow> Some Loop_crash
      | Some (Loop_returns n p) \<Rightarrow>
          if n \<le> 0 then Some (Loop_returns n p)
          else if 0 < sint cnt then
            (let cnt = cnt - word_of_int n in
             if sint cnt \<le> 0 then Some (Loop_returns 0 p) else live_loop md cnt p)
          else live_loop md cnt p)"

section \<open>Handles that are not for capturing\<close>

text \<open>
  \<open>pcap_open_dead\<close>: a handle for compiling filters and writing savefiles. The memory is zeroed and
  not passed through \<open>pcap_alloc_pcap_t\<close>.
\<close>

definition pcap_open_dead_with_tstamp_precision :: "heap \<Rightarrow> int \<Rightarrow> int \<Rightarrow> u32 \<Rightarrow> 'r live option" where
  "pcap_open_dead_with_tstamp_precision hp lt snaplen precision =
     (if precision \<noteq> PCAP_TSTAMP_PRECISION_MICRO \<and> precision \<noteq> PCAP_TSTAMP_PRECISION_NANO then None
      else if \<not> new_pcap hp then None
      else
        let p = zero_live\<lparr>lv_snapshot := snaplen, lv_linktype := lt\<rparr>;
            p = p\<lparr>lv_opt := (lv_opt p)\<lparr>opt_tstamp_precision := uint precision\<rparr>\<rparr>;
            p = p\<lparr>lv_ops := (lv_ops p)\<lparr>stats_op := Stats_dead, cleanup_op := Cleanup_dead\<rparr>\<rparr>
        in Some (p\<lparr>lv_activated := True\<rparr>))"

definition pcap_open_dead :: "heap \<Rightarrow> int \<Rightarrow> int \<Rightarrow> 'r live option" where
  "pcap_open_dead hp lt snaplen =
     pcap_open_dead_with_tstamp_precision hp lt snaplen PCAP_TSTAMP_PRECISION_MICRO"

section \<open>A client's calls\<close>

text \<open>
  The calls of a client on a handle: the settings, the activation, the operations of the module
  and the questions a handle answers itself.
\<close>

datatype setting =
    Snaplen int | Promisc int | Rfmon int | Timeout int | Tstamp_type int | Immediate_mode int
  | Buffer_size int | Tstamp_precision int

fun set_option :: "setting \<Rightarrow> 'r live \<Rightarrow> int \<times> 'r live" where
  "set_option (Snaplen n) = pcap_set_snaplen n"
| "set_option (Promisc n) = pcap_set_promisc n"
| "set_option (Rfmon n) = pcap_set_rfmon n"
| "set_option (Timeout n) = pcap_set_timeout n"
| "set_option (Tstamp_type n) = pcap_set_tstamp_type n"
| "set_option (Immediate_mode n) = pcap_set_immediate_mode n"
| "set_option (Buffer_size n) = pcap_set_buffer_size n"
| "set_option (Tstamp_precision n) = pcap_set_tstamp_precision n"

datatype operation =
    Dispatch u32 | Set_filter "bpf_insn list" | Set_direction int | Get_stats | Inject_bytes "u8 list"
  | Send_packet "u8 list" | Get_nonblock string | Set_nonblock int string

fun operate :: "'r modules \<Rightarrow> operation \<Rightarrow> 'r live \<Rightarrow> (int \<times> 'r live) option" where
  "operate md (Dispatch cnt) p = pcap_dispatch md cnt p"
| "operate md (Set_filter f) p = pcap_setfilter md f p"
| "operate md (Set_direction d) p = pcap_setdirection md d p"
| "operate md Get_stats p = pcap_stats md p"
| "operate md (Inject_bytes b) p = pcap_inject md b p"
| "operate md (Send_packet b) p = pcap_sendpacket md b p"
| "operate md (Get_nonblock e) p = map_option (\<lambda>(n, e, p). (n, p)) (pcap_getnonblock md e p)"
| "operate md (Set_nonblock n e) p = map_option (\<lambda>(n, e, p). (n, p)) (pcap_setnonblock md n e p)"

datatype question =
  Datalink | Datalink_ext | Snapshot | Is_swapped | Major_version | Minor_version

fun answer :: "question \<Rightarrow> 'r live \<Rightarrow> int" where
  "answer Datalink = pcap_datalink"
| "answer Datalink_ext = pcap_datalink_ext"
| "answer Snapshot = pcap_snapshot"
| "answer Is_swapped = pcap_is_swapped"
| "answer Major_version = pcap_major_version"
| "answer Minor_version = pcap_minor_version"

datatype call = Setting setting | Rfmon_possible | Start | Use operation | Ask question

fun perform :: "'r modules \<Rightarrow> call \<Rightarrow> 'r live \<Rightarrow> (int \<times> 'r live) option" where
  "perform md (Setting o1) p = Some (set_option o1 p)"
| "perform md Rfmon_possible p = pcap_can_set_rfmon md p"
| "perform md Start p = pcap_activate md p"
| "perform md (Use u) p = operate md u p"
| "perform md (Ask q) p = Some (answer q p, p)"

text \<open>A session: calls that all return, with what they return.\<close>

inductive session :: "'r modules \<Rightarrow> 'r live \<Rightarrow> (call \<times> int) list \<Rightarrow> 'r live \<Rightarrow> bool"
  for md :: "'r modules" and p0 :: "'r live" where
  session_start: "session md p0 [] p0"
| session_call: "session md p0 log p \<Longrightarrow> perform md c p = Some (n, p') \<Longrightarrow> session md p0 (log @ [(c, n)]) p'"

end
