(* ===== verification/Live_Session.thy ===== *)
theory Live_Session
  imports Live_Handle
begin

text \<open>
  What a client may rely on in the life of a handle: the order of creation, settings, activation
  and use is enforced, the settings a module sees are those that were made, a loop ends when the
  module delivers, and a handle opened only for compiling has no operations of a module.
\<close>

section \<open>A handle that is not activated\<close>

definition idle :: "'r live \<Rightarrow> bool" where
  "idle p \<longleftrightarrow> \<not> lv_activated p \<and> read_op (lv_ops p) = Not_initialized \<and>
     inject_op (lv_ops p) = Not_initialized \<and> setfilter_op (lv_ops p) = Not_initialized \<and>
     setdirection_op (lv_ops p) = Not_initialized \<and> set_datalink_op (lv_ops p) = Not_initialized \<and>
     getnonblock_op (lv_ops p) = Not_initialized \<and> setnonblock_op (lv_ops p) = Not_initialized \<and>
     stats_op (lv_ops p) = Not_initialized \<and> cleanup_op (lv_ops p) = Cleanup_live_common"

lemma initialize_ops_idle: "\<not> lv_activated p \<Longrightarrow> idle (initialize_ops p)"
  by (simp add: idle_def initialize_ops_def)

lemma initialize_ops_simps [simp]:
  "lv_activated (initialize_ops p) = lv_activated p" "lv_errbuf (initialize_ops p) = lv_errbuf p"
  "lv_opt (initialize_ops p) = lv_opt p" "lv_snapshot (initialize_ops p) = lv_snapshot p"
  "activate_op (lv_ops (initialize_ops p)) = activate_op (lv_ops p)"
  "can_set_rfmon_op (lv_ops (initialize_ops p)) = can_set_rfmon_op (lv_ops p)"
  by (simp_all add: initialize_ops_def)

lemma created_idle: "pcap_create_common hp strerr source = Inr p \<Longrightarrow> idle p"
  by (auto simp: pcap_create_common_def pcap_alloc_pcap_t_def zero_live_def initialize_ops_def
      pcap_set_snaplen_def pcap_check_activated_def idle_def Let_def split: if_splits)

lemma idle_message [simp]: "idle (p\<lparr>lv_errbuf := e\<rparr>) = idle p"
  by (simp add: idle_def)

lemmas setting_defs = pcap_set_snaplen_def pcap_set_promisc_def pcap_set_rfmon_def pcap_set_timeout_def
  pcap_set_tstamp_type_def pcap_set_immediate_mode_def pcap_set_buffer_size_def
  pcap_set_tstamp_precision_def pcap_check_activated_def

lemma listed_iff [simp]: "listed v xs \<longleftrightarrow> v \<in> set xs"
  by (induction xs) auto

text \<open>The settings as a client sees them: which are supported, and their effect on the options.\<close>

fun supported :: "setting \<Rightarrow> 'r live \<Rightarrow> bool" where
  "supported (Tstamp_type n) p =
     (if lv_tstamp_type_list p = [] then n = PCAP_TSTAMP_HOST else n \<in> set (lv_tstamp_type_list p))"
| "supported (Tstamp_precision n) p =
     (if lv_tstamp_precision_list p = [] then n = 0 else n \<in> set (lv_tstamp_precision_list p))"
| "supported _ p = True"

fun refusal :: "setting \<Rightarrow> int" where
  "refusal (Tstamp_type n) = PCAP_WARNING_TSTAMP_TYPE_NOTSUP"
| "refusal _ = PCAP_ERROR_TSTAMP_PRECISION_NOTSUP"

type_synonym config = "int \<times> pcap_opt"

definition config_of :: "'r live \<Rightarrow> config" where
  "config_of p = (lv_snapshot p, lv_opt p)"

fun apply_setting :: "setting \<Rightarrow> config \<Rightarrow> config" where
  "apply_setting (Snaplen n) (s, opts) = (n, opts)"
| "apply_setting (Promisc n) (s, opts) = (s, opts\<lparr>opt_promisc := n\<rparr>)"
| "apply_setting (Rfmon n) (s, opts) = (s, opts\<lparr>opt_rfmon := n\<rparr>)"
| "apply_setting (Timeout n) (s, opts) = (s, opts\<lparr>opt_timeout := n\<rparr>)"
| "apply_setting (Tstamp_type n) (s, opts) = (s, opts\<lparr>opt_tstamp_type := n\<rparr>)"
| "apply_setting (Immediate_mode n) (s, opts) = (s, opts\<lparr>opt_immediate := n\<rparr>)"
| "apply_setting (Buffer_size n) (s, opts) = (s, opts\<lparr>opt_buffer_size := n\<rparr>)"
| "apply_setting (Tstamp_precision n) (s, opts) = (s, opts\<lparr>opt_tstamp_precision := n\<rparr>)"

text \<open>What no setting touches.\<close>

definition same_rest :: "'r live \<Rightarrow> 'r live \<Rightarrow> bool" where
  "same_rest p p' \<longleftrightarrow> lv_activated p' = lv_activated p \<and> lv_ops p' = lv_ops p \<and>
     lv_tstamp_type_list p' = lv_tstamp_type_list p \<and>
     lv_tstamp_precision_list p' = lv_tstamp_precision_list p"

lemma set_option_inactive:
  assumes "\<not> lv_activated p" and "set_option c p = (n, p')"
  shows "n = (if supported c p then 0 else refusal c)"
    "config_of p' = (if supported c p then apply_setting c (config_of p) else config_of p)"
    "same_rest p p'"
  using assms
  by (cases c; auto simp: setting_defs config_of_def same_rest_def PCAP_TSTAMP_PRECISION_MICRO_def
      split: if_splits)+

lemma set_option_active:
  assumes "lv_activated p" and "set_option c p = (n, p')"
  shows "n = PCAP_ERROR_ACTIVATED" "config_of p' = config_of p" "lv_activated p'"
  using assms by (cases c; auto simp: setting_defs config_of_def)+

lemma idle_same_rest: "idle p \<Longrightarrow> same_rest p p' \<Longrightarrow> idle p'"
  by (simp add: idle_def same_rest_def)

text \<open>The result of an operation on a handle that is not activated.\<close>

fun idle_result :: "operation \<Rightarrow> int" where
  "idle_result (Send_packet b) = 0"
| "idle_result _ = PCAP_ERROR_NOT_ACTIVATED"

lemma operate_idle: "idle p \<Longrightarrow> operate md u p = Some (idle_result u, p)"
  by (cases u) (simp_all add: idle_def pcap_dispatch_def pcap_setfilter_def pcap_setdirection_def
      pcap_stats_def pcap_inject_def pcap_sendpacket_def pcap_getnonblock_def pcap_setnonblock_def
      call_op_def copy_client_errbuf_def PCAP_ERROR_NOT_ACTIVATED_def)

lemma answer_idle: "idle p \<Longrightarrow> answer q p = PCAP_ERROR_NOT_ACTIVATED"
  by (cases q) (simp_all add: idle_def pcap_datalink_def pcap_datalink_ext_def pcap_snapshot_def
      pcap_is_swapped_def pcap_major_version_def pcap_minor_version_def when_activated_def)

section \<open>What is expected of a module\<close>

text \<open>
  A module's routines leave the activation flag to pcap.c; only its activation changes the
  settings; and the question about monitor mode, which a client may ask before the activation,
  leaves the operations and the lists of time stamps alone.
\<close>

definition keeps_protocol :: "'r modules \<Rightarrow> bool" where
  "keeps_protocol md \<longleftrightarrow> (\<forall>r q p n e p'. md r q p = (n, e, p') \<longrightarrow>
     lv_activated p' = lv_activated p \<and>
     (q \<noteq> Activate \<longrightarrow> config_of p' = config_of p) \<and>
     (q = Can_set_rfmon \<longrightarrow> same_rest p p'))"

lemma module_keeps:
  assumes "keeps_protocol md" and "md r q p = (n, e, p')"
  shows "lv_activated p' = lv_activated p" "q \<noteq> Activate \<Longrightarrow> config_of p' = config_of p"
    "q = Can_set_rfmon \<Longrightarrow> same_rest p p'"
  using assms unfolding keeps_protocol_def by blast+

lemma config_message [simp]: "config_of (p\<lparr>lv_errbuf := e\<rparr>) = config_of p"
  by (simp add: config_of_def)

lemma run_routine_keeps:
  assumes md: "keeps_protocol md" and run: "run_routine md f q p = Some (n, e, p')"
  shows "lv_activated p' = lv_activated p \<and> (q \<noteq> Activate \<longrightarrow> config_of p' = config_of p)"
proof (cases f)
  case (Module r)
  with run have "md r q p = (n, e, p')" by simp
  from module_keeps [OF md this] show ?thesis by blast
qed (use run in \<open>auto simp: pcap_stats_dead_def\<close>)

lemma call_op_keeps:
  assumes md: "keeps_protocol md" and run: "call_op md f q p = Some (n, p')"
  shows "lv_activated p' = lv_activated p \<and> (q \<noteq> Activate \<longrightarrow> config_of p' = config_of p)"
proof -
  from run obtain e where "run_routine md f q p = Some (n, e, p')" by (auto simp: call_op_def)
  from run_routine_keeps [OF md this] show ?thesis .
qed

lemma copy_client_errbuf_keeps:
  assumes md: "keeps_protocol md" and q: "q \<noteq> Activate"
    and run: "copy_client_errbuf (run_routine md f q p) = Some (n, e, p')"
  shows "lv_activated p' = lv_activated p \<and> config_of p' = config_of p"
proof -
  from run obtain p1 where r: "run_routine md f q p = Some (n, e, p1)"
    and p': "p' = (if n = - 1 then p1\<lparr>lv_errbuf := printed e\<rparr> else p1)"
    by (auto simp: copy_client_errbuf_def split: option.splits)
  from run_routine_keeps [OF md r] q show ?thesis by (simp add: p')
qed

lemma operate_keeps:
  assumes md: "keeps_protocol md" and run: "operate md u p = Some (n, p')"
  shows "lv_activated p' = lv_activated p \<and> config_of p' = config_of p"
proof (cases u)
  case (Set_direction d)
  with run show ?thesis
    by (auto simp: pcap_setdirection_def dest: call_op_keeps [OF md] split: if_splits)
next
  case (Send_packet b)
  with run show ?thesis
    by (auto simp: pcap_sendpacket_def dest: call_op_keeps [OF md] split: option.splits)
next
  case (Get_nonblock e)
  with run show ?thesis
    by (auto simp: pcap_getnonblock_def dest: copy_client_errbuf_keeps [OF md, rotated])
next
  case (Set_nonblock k e)
  with run show ?thesis
    by (auto simp: pcap_setnonblock_def dest: copy_client_errbuf_keeps [OF md, rotated])
qed (use run in \<open>auto simp: pcap_dispatch_def pcap_setfilter_def pcap_stats_def pcap_inject_def
      dest: call_op_keeps [OF md]\<close>)

section \<open>The order of a session\<close>

text \<open>An activation that succeeds; what is refused afterwards; what is refused before.\<close>

fun starts :: "call \<times> int \<Rightarrow> bool" where
  "starts (Start, n) \<longleftrightarrow> 0 \<le> n"
| "starts _ \<longleftrightarrow> False"

fun refused_after :: "call \<times> int \<Rightarrow> bool" where
  "refused_after (Setting c, n) \<longleftrightarrow> n = PCAP_ERROR_ACTIVATED"
| "refused_after (Start, n) \<longleftrightarrow> n = PCAP_ERROR_ACTIVATED"
| "refused_after _ \<longleftrightarrow> True"

fun refused_before :: "call \<times> int \<Rightarrow> bool" where
  "refused_before (Use u, n) \<longleftrightarrow> n = idle_result u"
| "refused_before (Ask q, n) \<longleftrightarrow> n = PCAP_ERROR_NOT_ACTIVATED"
| "refused_before (Start, n) \<longleftrightarrow> n < 0"
| "refused_before _ \<longleftrightarrow> True"

lemma check_activated_cases:
  "pcap_check_activated p = (if lv_activated p
     then (- 1, p\<lparr>lv_errbuf := printed ''can't perform  operation on activated capture''\<rparr>) else (0, p))"
  by (simp add: pcap_check_activated_def)

lemma activate_active: "lv_activated p \<Longrightarrow> pcap_activate md p =
   Some (PCAP_ERROR_ACTIVATED, p\<lparr>lv_errbuf := printed ''can't perform  operation on activated capture''\<rparr>)"
  by (simp add: pcap_activate_def check_activated_cases)

lemma activate_inactive:
  assumes md: "keeps_protocol md" and idle: "\<not> lv_activated p" and run: "pcap_activate md p = Some (n, p')"
  shows "if 0 \<le> n then lv_activated p' else idle p'"
proof -
  from idle run obtain p1 where c: "call_op md (activate_op (lv_ops p)) Activate p = Some (n, p1)"
    by (auto simp: pcap_activate_def check_activated_cases Let_def split: option.splits if_splits)
  from call_op_keeps [OF md c] idle have "\<not> lv_activated p1" by simp
  with idle run c show ?thesis
    by (auto simp: pcap_activate_def check_activated_cases Let_def intro: initialize_ops_idle split: if_splits)
qed

lemma perform_idle:
  assumes md: "keeps_protocol md" and idle: "idle p" and run: "perform md c p = Some (n, p')"
  shows "if starts (c, n) then lv_activated p' else idle p' \<and> refused_before (c, n)"
proof (cases c)
  case (Setting s)
  with idle run set_option_inactive [of p s n p'] show ?thesis
    by (auto simp: idle_def [of p] intro: idle_same_rest [OF idle])
next
  case Rfmon_possible
  with run obtain e where r: "run_routine md (can_set_rfmon_op (lv_ops p)) Can_set_rfmon p = Some (n, e, p')"
    by (auto simp: pcap_can_set_rfmon_def call_op_def)
  have "idle p'"
  proof (cases "can_set_rfmon_op (lv_ops p)")
    case (Module m)
    with r have "md m Can_set_rfmon p = (n, e, p')" by simp
    from module_keeps(3) [OF md this] show ?thesis by (simp add: idle_same_rest [OF idle])
  qed (use r idle in \<open>auto simp: pcap_stats_dead_def idle_def\<close>)
  with Rfmon_possible show ?thesis by simp
next
  case Start
  with activate_inactive [OF md _ run [unfolded Start perform.simps]] idle show ?thesis
    by (auto simp: idle_def [of p] split: if_splits)
qed (use idle run operate_idle [OF idle] answer_idle [OF idle] in auto)

lemma perform_active:
  assumes md: "keeps_protocol md" and act: "lv_activated p" and run: "perform md c p = Some (n, p')"
  shows "lv_activated p' \<and> config_of p' = config_of p \<and> refused_after (c, n)"
proof (cases c)
  case (Setting s)
  with run set_option_active [OF act, of s n p'] show ?thesis by simp
next
  case Rfmon_possible
  with run call_op_keeps [OF md] act show ?thesis by (fastforce simp: pcap_can_set_rfmon_def)
next
  case Start
  with run activate_active [OF act, of md] act show ?thesis by auto
next
  case (Use u)
  with run operate_keeps [OF md] act show ?thesis by fastforce
next
  case (Ask q)
  with run act show ?thesis by simp
qed

text \<open>A session that has not started capturing, and one that has.\<close>

definition before_start :: "(call \<times> int) list \<Rightarrow> bool" where
  "before_start log \<longleftrightarrow> (\<forall>e\<in>set log. \<not> starts e \<and> refused_before e)"

definition started :: "'r modules \<Rightarrow> 'r live \<Rightarrow> (call \<times> int) list \<Rightarrow> 'r live \<Rightarrow> bool" where
  "started md p0 log p \<longleftrightarrow> (\<exists>before n after p1.
     log = before @ (Start, n) # after \<and> 0 \<le> n \<and> before_start before \<and>
     session md p0 (before @ [(Start, n)]) p1 \<and> (\<forall>e\<in>set after. refused_after e) \<and>
     lv_activated p \<and> config_of p = config_of p1)"

lemma started_now:
  assumes "session md p0 log p" and "perform md c p = Some (n, p')" and "before_start log"
    and "starts (c, n)" and "lv_activated p'"
  shows "started md p0 (log @ [(c, n)]) p'"
proof -
  from assms(4) have "c = Start" "0 \<le> n" by (cases c; simp)+
  with assms(3,5) session_call [OF assms(1,2)] show ?thesis
    unfolding started_def by (intro exI [of _ log] exI [of _ n] exI [of _ "[]"] exI [of _ p']) simp
qed

lemma started_later:
  assumes "started md p0 log p" and "lv_activated p'" "config_of p' = config_of p" "refused_after e"
  shows "started md p0 (log @ [e]) p'"
proof -
  from assms(1) obtain before n after p1 where
    "log = before @ (Start, n) # after" "0 \<le> n" "before_start before"
    "session md p0 (before @ [(Start, n)]) p1" "\<forall>e\<in>set after. refused_after e" "config_of p = config_of p1"
    unfolding started_def by blast
  with assms(2-) show ?thesis
    unfolding started_def by (intro exI [of _ before] exI [of _ n] exI [of _ "after @ [e]"] exI [of _ p1]) auto
qed

text \<open>
  C32. A session on a handle that is not activated is either still before the activation, and then
  every operation and every question has been refused (\<open>PCAP_ERROR_NOT_ACTIVATED\<close>, but 0 from
  \<open>pcap_sendpacket\<close>) and failed activations have left the handle as before; or it has the calls
  before the one activation that succeeded and the calls after it, where each setting and each new
  activation was refused (\<open>PCAP_ERROR_ACTIVATED\<close>) and the settings are those the activation left.
\<close>

theorem session_order:
  assumes md: "keeps_protocol md" and idle: "idle p0" and run: "session md p0 log p"
  shows "idle p \<and> before_start log \<or> started md p0 log p"
  using run
proof (induction rule: session.induct)
  case session_start
  then show ?case using idle by (simp add: before_start_def)
next
  case (session_call log p c n p')
  note run = session_call.hyps
  from session_call.IH show ?case
  proof (elim disjE conjE)
    assume i: "idle p" and quiet: "before_start log"
    note step = perform_idle [OF md i run(2)]
    show ?case
    proof (cases "starts (c, n)")
      case True
      with step show ?thesis by (simp add: started_now [OF run quiet])
    next
      case False
      with step quiet show ?thesis by (auto simp: before_start_def)
    qed
  next
    assume s: "started md p0 log p"
    then have "lv_activated p" by (auto simp: started_def)
    from perform_active [OF md this run(2)] show ?case by (simp add: started_later [OF s])
  qed
qed

text \<open>
  A module for the witnesses: its activation installs its reading and sending routines unless
  monitor mode was asked for, it delivers two packets at a time, and gives an error at the end.
\<close>

definition sample_module :: "unit modules" where
  "sample_module r q p =
     (case q of
        Activate \<Rightarrow>
          if opt_rfmon (lv_opt p) \<noteq> 0 then (- 6, '''', p)
          else (0, '''', p\<lparr>lv_ops := (lv_ops p)\<lparr>read_op := Module (), inject_op := Module ()\<rparr>,
            lv_linktype := 1, lv_fd := 3\<rparr>)
      | Read cnt \<Rightarrow>
          if lv_linktype_ext p = 1 then (- 1, '''', p\<lparr>lv_errbuf := ''gone''\<rparr>)
          else if lv_linktype_ext p = 0 then (0, '''', p\<lparr>lv_linktype_ext := 4\<rparr>)
          else (2, '''', p\<lparr>lv_linktype_ext := lv_linktype_ext p - 1\<rparr>)
      | _ \<Rightarrow> (0, client_errbuf q, p))"

lemma sample_module_keeps: "keeps_protocol sample_module"
  by (auto simp: keeps_protocol_def sample_module_def config_of_def same_rest_def
      split: request.splits if_splits)

definition sample_live :: "unit live" where
  "sample_live = (initialize_ops zero_live)\<lparr>lv_tstamp_precision_list := [0, 1],
     lv_ops := (lv_ops (initialize_ops zero_live))\<lparr>activate_op := Module ()\<rparr>\<rparr>"

lemma sample_live_idle: "idle sample_live"
  by (simp add: sample_live_def idle_def initialize_ops_def zero_live_def)

lemmas sample_live_defs = sample_live_def sample_module_def initialize_ops_def zero_live_def
  pcap_activate_def check_activated_cases call_op_def setting_defs pcap_code_defs pcap_dispatch_def

definition sample_log :: "(call \<times> int) list" where
  "sample_log = [(Setting (Snaplen 96), 0), (Use (Dispatch 5), -3)]"

lemma sample_session: "session sample_module sample_live sample_log (sample_live\<lparr>lv_snapshot := 96\<rparr>)"
proof -
  have "session sample_module sample_live ([] @ [(Setting (Snaplen 96), 0)]) (sample_live\<lparr>lv_snapshot := 96\<rparr>)"
    by (rule session.intros)+ (simp add: sample_live_defs)
  from session_call [OF this, of "Use (Dispatch 5)" "-3" "sample_live\<lparr>lv_snapshot := 96\<rparr>"]
  show ?thesis by (simp add: sample_log_def sample_live_defs)
qed

theorem session_order_witness:
  "\<exists>p. session sample_module sample_live ((sample_log @ [(Start, 0)]) @ [(Setting (Promisc 1), -4)]) p \<and>
     (idle p \<and> before_start ((sample_log @ [(Start, 0)]) @ [(Setting (Promisc 1), -4)]) \<or>
      started sample_module sample_live ((sample_log @ [(Start, 0)]) @ [(Setting (Promisc 1), -4)]) p)"
proof -
  from session_call [OF sample_session, of Start 0] obtain p3 where
    s3: "session sample_module sample_live (sample_log @ [(Start, 0)]) p3" and a: "lv_activated p3"
    by (simp add: sample_live_defs)
  obtain p4 where "perform sample_module (Setting (Promisc 1)) p3 = Some (-4, p4)"
    using a by (simp add: setting_defs pcap_code_defs)
  from session_call [OF s3 this] session_order [OF sample_module_keeps sample_live_idle, of _ p4]
  show ?thesis by blast
qed

section \<open>The settings an activation sees\<close>

fun made_setting :: "call \<times> int \<Rightarrow> setting list" where
  "made_setting (Setting c, n) = (if n = 0 then [c] else [])"
| "made_setting _ = []"

lemma same_rest_trans: "same_rest p0 p \<Longrightarrow> same_rest p p' \<Longrightarrow> same_rest p0 p'"
  by (simp add: same_rest_def)

lemma same_rest_supported: "same_rest p0 p \<Longrightarrow> supported c p = supported c p0"
  by (cases c) (simp_all add: same_rest_def)

lemma same_rest_refl [simp]: "same_rest p p" by (simp add: same_rest_def)

lemma refusal_nonzero [simp]: "refusal c \<noteq> 0"
  by (cases c) (simp_all add: pcap_code_defs)

lemma perform_before:
  assumes md: "keeps_protocol md" and idle: "idle p" and run: "perform md c p = Some (n, p')"
    and c: "c \<noteq> Start"
  shows "idle p' \<and> same_rest p p' \<and> config_of p' = fold apply_setting (made_setting (c, n)) (config_of p)"
proof -
  have i: "idle p'" using perform_idle [OF md idle run] c by (cases c) auto
  have "same_rest p p' \<and> config_of p' = fold apply_setting (made_setting (c, n)) (config_of p)"
  proof (cases c)
    case (Setting s)
    with idle run set_option_inactive [of p s n p'] show ?thesis by (auto simp: idle_def [of p])
  next
    case Rfmon_possible
    with run obtain e where r: "run_routine md (can_set_rfmon_op (lv_ops p)) Can_set_rfmon p = Some (n, e, p')"
      by (auto simp: pcap_can_set_rfmon_def call_op_def)
    from run_routine_keeps [OF md r] have "config_of p' = config_of p" by simp
    moreover have "same_rest p p'"
    proof (cases "can_set_rfmon_op (lv_ops p)")
      case (Module m)
      with r have "md m Can_set_rfmon p = (n, e, p')" by simp
      from module_keeps(3) [OF md this] show ?thesis by simp
    qed (use r in \<open>auto simp: pcap_stats_dead_def same_rest_def\<close>)
    ultimately show ?thesis using Rfmon_possible by simp
  qed (use c run operate_idle [OF idle] in auto)
  with i show ?thesis by blast
qed

text \<open>
  C33. Before the activation each setting is answered by whether the handle supports it, and the
  settings in force, which the module will find when it is activated, are the supported ones that
  were made, applied in their order to the defaults.
\<close>

theorem settings_in_force:
  assumes md: "keeps_protocol md" and idle: "idle p0" and run: "session md p0 log p"
    and "\<forall>n. (Start, n) \<notin> set log"
  shows "config_of p = fold apply_setting (concat (map made_setting log)) (config_of p0) \<and>
    (\<forall>c n. (Setting c, n) \<in> set log \<longrightarrow> n = (if supported c p0 then 0 else refusal c))"
proof -
  have "idle p \<and> same_rest p0 p \<and>
    config_of p = fold apply_setting (concat (map made_setting log)) (config_of p0) \<and>
    (\<forall>c n. (Setting c, n) \<in> set log \<longrightarrow> n = (if supported c p0 then 0 else refusal c))"
    using run assms(4)
  proof (induction rule: session.induct)
    case session_start
    then show ?case using idle by simp
  next
    case (session_call log p c n p')
    then have IH: "idle p" "same_rest p0 p"
      "config_of p = fold apply_setting (concat (map made_setting log)) (config_of p0)"
      "\<forall>c n. (Setting c, n) \<in> set log \<longrightarrow> n = (if supported c p0 then 0 else refusal c)"
      and c: "c \<noteq> Start" by auto
    note step = perform_before [OF md IH(1) session_call.hyps(2) c]
    have "n = (if supported s p0 then 0 else refusal s)" if "c = Setting s" for s
      using that session_call.hyps(2) IH(1) set_option_inactive(1) [of p s n p'] same_rest_supported [OF IH(2)]
      by (simp add: idle_def)
    with step IH show ?case by (auto intro: same_rest_trans)
  qed
  then show ?thesis by blast
qed

theorem settings_in_force_witness:
  "config_of (sample_live\<lparr>lv_snapshot := 96\<rparr>) =
     fold apply_setting (concat (map made_setting sample_log)) (config_of sample_live)"
  using settings_in_force [OF sample_module_keeps sample_live_idle sample_session]
  by (simp add: sample_log_def)

section \<open>The loop on a live handle\<close>

text \<open>What a module's successive reads return, while the loop counts the packets.\<close>

definition count_left :: "u32 \<Rightarrow> int \<Rightarrow> u32" where
  "count_left cnt n = (if 0 < n \<and> 0 < sint cnt then cnt - word_of_int n else cnt)"

inductive reads :: "'r modules \<Rightarrow> u32 \<Rightarrow> 'r live \<Rightarrow> int list \<Rightarrow> 'r live \<Rightarrow> bool" for md :: "'r modules" where
  reads_none: "reads md cnt p [] p"
| reads_one: "call_op md (read_op (lv_ops p)) (Read cnt) p = Some (n, p1) \<Longrightarrow>
    reads md (count_left cnt n) p1 ns p' \<Longrightarrow> reads md cnt p (n # ns) p'"

text \<open>
  A module whose reading routine keeps itself installed, returns an \<open>int\<close>, and does not return 0
  for ever: something eventually arrives.
\<close>

definition delivers :: "'r modules \<Rightarrow> 'r \<Rightarrow> ('r live \<Rightarrow> bool) \<Rightarrow> ('r live \<Rightarrow> nat) \<Rightarrow> bool" where
  "delivers md r ok rank \<longleftrightarrow> (\<forall>cnt p n e p'. ok p \<longrightarrow> md r (Read cnt) p = (n, e, p') \<longrightarrow>
     ok p' \<and> read_op (lv_ops p') = Module r \<and> n < 2 ^ 31 \<and> (n = 0 \<longrightarrow> rank p' < rank p))"

lemma sint_count_left:
  assumes "0 < n" "n < 2 ^ 31" "0 < sint cnt"
  shows "sint (count_left cnt n) = sint cnt - n"
proof -
  have "cnt - word_of_int n = word_of_int (sint cnt - n)" by simp
  moreover have "sint (word_of_int (sint cnt - n) :: u32) = sint cnt - n"
    using assms sint32_range [of cnt]
    by (subst sint_sbintrunc') (simp add: signed_take_bit_int_eq_self)
  ultimately show ?thesis using assms by (simp add: count_left_def)
qed

lemma count_left_zero [simp]: "count_left cnt 0 = cnt"
  by (simp add: count_left_def)

lemma reads_zeros:
  "reads md cnt p (replicate k 0 @ [n]) p1 \<Longrightarrow> reads md (count_left cnt n) p1 ns p2 \<Longrightarrow>
   reads md cnt p (replicate k 0 @ n # ns) p2"
proof (induction k arbitrary: p)
  case 0
  then show ?case by (auto elim!: reads.cases [of md cnt p] intro: reads.intros elim: reads.cases)
next
  case (Suc k)
  from Suc.prems(1) obtain q where "call_op md (read_op (lv_ops p)) (Read cnt) p = Some (0, q)"
    "reads md (count_left cnt 0) q (replicate k 0 @ [n]) p1"
    by (auto elim: reads.cases)
  with Suc show ?case by (auto intro!: reads_one)
qed

lemma read_until_something:
  assumes d: "delivers md r ok rank"
  shows "ok p \<Longrightarrow> read_op (lv_ops p) = Module r \<Longrightarrow>
    \<exists>k n p'. run_machine (read_step md cnt) p = Some (Loop_returns n p') \<and> n \<noteq> 0 \<and> n < 2 ^ 31 \<and>
      ok p' \<and> read_op (lv_ops p') = Module r \<and> reads md cnt p (replicate k 0 @ [n]) p'"
proof (induction p rule: measure_induct_rule [where f=rank])
  case (less p)
  obtain n e p1 where m: "md r (Read cnt) p = (n, e, p1)" by (metis prod_cases3)
  with d less.prems(1) have p1: "ok p1" "read_op (lv_ops p1) = Module r" "n < 2 ^ 31"
    "n = 0 \<Longrightarrow> rank p1 < rank p" unfolding delivers_def by blast+
  from m less.prems(2) have c: "call_op md (read_op (lv_ops p)) (Read cnt) p = Some (n, p1)"
    by (simp add: call_op_def)
  show ?case
  proof (cases "n = 0")
    case True
    from less.IH [OF p1(4) [OF True] p1(1,2)] obtain k n' p' where
      IH: "run_machine (read_step md cnt) p1 = Some (Loop_returns n' p')" "n' \<noteq> 0" "n' < 2 ^ 31"
        "ok p'" "read_op (lv_ops p') = Module r" "reads md cnt p1 (replicate k 0 @ [n']) p'" by blast
    have "reads md cnt p (replicate (Suc k) 0 @ [n']) p'"
      using reads_one [of md p cnt 0 p1] c IH(6) True by simp
    moreover have "run_machine (read_step md cnt) p = run_machine (read_step md cnt) p1"
      by (rule run_machine_Inl) (simp add: read_step_def c True)
    ultimately show ?thesis using IH by metis
  next
    case False
    then have "run_machine (read_step md cnt) p = Some (Loop_returns n p1)"
      by (intro run_machine_Inr) (simp add: read_step_def c)
    moreover have "reads md cnt p (replicate 0 0 @ [n]) p1" using c by (auto intro: reads.intros)
    ultimately show ?thesis using p1 False by blast
  qed
qed

text \<open>
  C34. On a live handle whose module eventually delivers something, \<open>pcap_loop\<close> with a positive
  count ends: with 0 as soon as the reads have delivered that many packets, and not before, or with
  the first negative number a read returns.
\<close>

theorem live_loop_ends:
  assumes d: "delivers md r ok rank" and p: "ok p" "read_op (lv_ops p) = Module r"
    and cnt: "0 < sint cnt"
  shows "\<exists>n p' ns. live_loop md cnt p = Some (Loop_returns n p') \<and> reads md cnt p ns p' \<and> ns \<noteq> [] \<and>
    (\<forall>m\<in>set (butlast ns). 0 \<le> m) \<and>
    (if n = 0 then sum_list (butlast ns) < sint cnt \<and> sint cnt \<le> sum_list ns
     else n < 0 \<and> last ns = n)"
  using p cnt
proof (induction "nat (sint cnt)" arbitrary: cnt p rule: less_induct)
  case less
  from read_until_something [OF d less.prems(1,2), of cnt] obtain k n p1 where
    r: "run_machine (read_step md cnt) p = Some (Loop_returns n p1)" "n \<noteq> 0" "n < 2 ^ 31"
      "ok p1" "read_op (lv_ops p1) = Module r" "reads md cnt p (replicate k 0 @ [n]) p1" by blast
  consider "n < 0" | "0 < n" "sint cnt \<le> n" | "0 < n" "n < sint cnt" using r(2) by linarith
  then show ?case
  proof cases
    case 1
    then have "live_loop md cnt p = Some (Loop_returns n p1)" by (simp add: live_loop.simps [of md cnt] r(1))
    with 1 r(6) show ?thesis
      by (intro exI [of _ n] exI [of _ p1] exI [of _ "replicate k 0 @ [n]"]) auto
  next
    case 2
    with less.prems(3) r(3) sint_count_left [of n cnt] have "live_loop md cnt p = Some (Loop_returns 0 p1)"
      by (simp add: live_loop.simps [of md cnt] r(1) count_left_def Let_def)
    with 2 r(6) less.prems(3) show ?thesis
      by (intro exI [of _ 0] exI [of _ p1] exI [of _ "replicate k 0 @ [n]"]) (auto simp: sum_list_replicate)
  next
    case 3
    note left = sint_count_left [OF 3(1) r(3) less.prems(3)]
    with less.prems(3) 3 have loop: "live_loop md cnt p = live_loop md (count_left cnt n) p1"
      by (simp add: live_loop.simps [of md cnt p] r(1) count_left_def Let_def)
    have "nat (sint (count_left cnt n)) < nat (sint cnt)" "0 < sint (count_left cnt n)"
      using left 3 less.prems(3) by simp_all
    from less.hyps [OF this(1) r(4,5) this(2)] obtain n' p' ns where
      IH: "live_loop md (count_left cnt n) p1 = Some (Loop_returns n' p')"
        "reads md (count_left cnt n) p1 ns p'" "ns \<noteq> []" "\<forall>m\<in>set (butlast ns). 0 \<le> m"
        "if n' = 0 then sum_list (butlast ns) < sint (count_left cnt n) \<and>
           sint (count_left cnt n) \<le> sum_list ns else n' < 0 \<and> last ns = n'" by blast
    with reads_zeros [OF r(6) IH(2)] loop left 3 show ?thesis
      by (intro exI [of _ n'] exI [of _ p'] exI [of _ "replicate k 0 @ n # ns"])
        (auto simp: sum_list_replicate butlast_append split: if_splits)
  qed
qed

definition sample_open :: "unit live" where
  "sample_open = sample_live\<lparr>lv_activated := True, lv_ops := (lv_ops sample_live)\<lparr>read_op := Module ()\<rparr>\<rparr>"

theorem live_loop_ends_witness:
  "\<exists>n p' ns. live_loop sample_module 5 sample_open = Some (Loop_returns n p') \<and>
    reads sample_module 5 sample_open ns p' \<and> ns \<noteq> [] \<and>
    (if n = 0 then sum_list (butlast ns) < sint (5::u32) \<and> sint (5::u32) \<le> sum_list ns
     else n < 0 \<and> last ns = n)"
proof -
  have "delivers sample_module () (\<lambda>p. read_op (lv_ops p) = Module ())
      (\<lambda>p. if lv_linktype_ext p = 0 then 1 else 0)"
    by (auto simp: delivers_def sample_module_def split: if_splits)
  moreover have "read_op (lv_ops sample_open) = Module ()" by (simp add: sample_open_def)
  moreover have "0 < sint (5::u32)" by simp
  ultimately show ?thesis using live_loop_ends [of sample_module "()" _ _ sample_open 5] by blast
qed

section \<open>Failed activations\<close>

lemma statustostr_nonempty: "pcap_statustostr n \<noteq> ''''"
  by (simp add: pcap_statustostr_def)

text \<open>
  A message left by an earlier call stays after an activation that fails without one: the client
  is told the old reason whatever the new status is.
\<close>

lemma stale_activation_message:
  assumes "\<not> lv_activated p" and "activate_op (lv_ops p) = Module r"
    and "md r Activate p = (status, e, p')" and "status < 0"
    and "lv_errbuf p = old" "old \<noteq> ''''" and "lv_errbuf p' = lv_errbuf p"
  shows "\<exists>q. pcap_activate md p = Some (status, q) \<and> lv_errbuf q = old"
  using assms by (simp add: pcap_activate_def check_activated_cases call_op_def)

text \<open>
  C35. \<open>pcap_open_live\<close> on a created handle: the module is activated with the snapshot length, the
  mode and the timeout that were passed. If it succeeds the handle is returned, activated; if not,
  nothing is returned and the message names the source, the status or the module's message, or
  both for the three statuses that carry details.
\<close>

theorem open_live_outcome:
  assumes created: "pcap_create types iface (Some source) errbuf = (Some p, errbuf')"
    and idle: "idle p" and act: "activate_op (lv_ops p) = Module r" and md: "keeps_protocol md"
    and run: "md r Activate (p\<lparr>lv_snapshot := snaplen,
      lv_opt := (lv_opt p)\<lparr>opt_promisc := promisc, opt_timeout := to_ms\<rparr>, lv_oldstyle := True\<rparr>) = (status, e, p')"
  shows "pcap_open_live md types iface (Some source) snaplen promisc to_ms errbuf =
    (if 0 \<le> status then Some (Some (p'\<lparr>lv_activated := True\<rparr>), errbuf')
     else Some (None, open_live_message status source
       (if lv_errbuf p' = '''' then printed (pcap_statustostr status) else lv_errbuf p')))"
proof -
  let ?q = "p\<lparr>lv_snapshot := snaplen,
    lv_opt := (lv_opt p)\<lparr>opt_promisc := promisc, opt_timeout := to_ms\<rparr>, lv_oldstyle := True\<rparr>"
  from idle have na: "\<not> lv_activated p" by (simp add: idle_def)
  have act': "pcap_activate md ?q = Some (status, if 0 \<le> status then p'\<lparr>lv_activated := True\<rparr>
    else initialize_ops (if lv_errbuf p' = '''' then p'\<lparr>lv_errbuf := printed (pcap_statustostr status)\<rparr> else p'))"
    using na act run by (simp add: pcap_activate_def check_activated_cases call_op_def)
  have close: "pcap_close md (initialize_ops q) \<noteq> None" for q
    by (simp add: pcap_close_def initialize_ops_def)
  from na created act' show ?thesis
    by (auto simp: pcap_open_live_def setting_defs open_live_fail_def close option.case_eq_if)
qed

definition sample_creator :: "string \<Rightarrow> string \<Rightarrow> unit live option \<times> string" where
  "sample_creator source errbuf = (Some sample_live, errbuf)"

theorem open_live_outcome_witness:
  "\<exists>q. pcap_open_live sample_module [] sample_creator (Some ''eth0'') 96 1 1000 '''' = Some (Some q, '''') \<and>
     lv_activated q"
proof -
  let ?p = "sample_live\<lparr>lv_snapshot := 96,
    lv_opt := (lv_opt sample_live)\<lparr>opt_promisc := 1, opt_timeout := 1000\<rparr>, lv_oldstyle := True\<rparr>"
  obtain p' where run: "sample_module () Activate ?p = (0, '''', p')"
    by (simp add: sample_module_def sample_live_def initialize_ops_def zero_live_def)
  have "pcap_create [] sample_creator (Some ''eth0'') '''' = (Some sample_live, '''')"
    by (simp add: pcap_create_def sample_creator_def)
  from open_live_outcome [OF this sample_live_idle _ sample_module_keeps run]
  show ?thesis by (simp add: sample_live_def)
qed

section \<open>Handles opened only for compiling\<close>

text \<open>The calls that need no operation of a module.\<close>

fun safe_on_dead :: "call \<Rightarrow> bool" where
  "safe_on_dead (Use u) = (case u of Set_direction d \<Rightarrow> True | Get_stats \<Rightarrow> True | _ \<Rightarrow> False)"
| "safe_on_dead Rfmon_possible = False"
| "safe_on_dead _ = True"

text \<open>
  C36. On a handle of \<open>pcap_open_dead\<close> the settings and activation are refused, the questions are
  answered, statistics and direction give an error; but every operation that would need a module
  calls a null pointer: reading, injecting, sending, installing a filter, the non-blocking mode
  and the question about monitor mode.
\<close>

theorem dead_handle_calls:
  assumes "pcap_open_dead_with_tstamp_precision hp lt snaplen precision = Some p"
  shows "(perform md c p = None \<longleftrightarrow> \<not> safe_on_dead c) \<and>
    (\<forall>n p'. perform md c p = Some (n, p') \<longrightarrow> refused_after (c, n) \<and> lv_linktype p' = lt \<and> lv_snapshot p' = snaplen)"
proof -
  have act: "lv_activated p" and ops: "read_op (lv_ops p) = Null_routine" "inject_op (lv_ops p) = Null_routine"
    "setfilter_op (lv_ops p) = Null_routine" "setdirection_op (lv_ops p) = Null_routine"
    "getnonblock_op (lv_ops p) = Null_routine" "setnonblock_op (lv_ops p) = Null_routine"
    "can_set_rfmon_op (lv_ops p) = Null_routine" "stats_op (lv_ops p) = Stats_dead"
    and vals: "lv_linktype p = lt" "lv_snapshot p = snaplen"
    using assms by (auto simp: pcap_open_dead_with_tstamp_precision_def zero_live_def Let_def split: if_splits)
  show ?thesis
  proof (cases c)
    case (Setting s)
    then show ?thesis using act vals by (cases s) (auto simp: setting_defs)
  next
    case Start
    then show ?thesis using act vals by (simp add: activate_active)
  next
    case (Use u)
    then show ?thesis using ops vals
      by (cases u) (auto simp: pcap_dispatch_def pcap_setfilter_def pcap_setdirection_def pcap_stats_def
        pcap_inject_def pcap_sendpacket_def pcap_getnonblock_def pcap_setnonblock_def copy_client_errbuf_def
        call_op_def pcap_stats_dead_def)
  qed (use ops vals in \<open>auto simp: pcap_can_set_rfmon_def call_op_def\<close>)
qed

definition sample_dead :: "unit live" where
  "sample_dead = the (pcap_open_dead zero_heap 1 96)"

theorem dead_handle_calls_witness:
  "perform sample_module (Use (Dispatch 1)) sample_dead = None \<and>
   perform sample_module (Setting (Promisc 1)) sample_dead \<noteq> None"
proof -
  have "pcap_open_dead_with_tstamp_precision zero_heap 1 96 PCAP_TSTAMP_PRECISION_MICRO = Some sample_dead"
    by (simp add: sample_dead_def pcap_open_dead_def pcap_open_dead_with_tstamp_precision_def Let_def)
  from dead_handle_calls [OF this, of sample_module "Use (Dispatch 1)"]
    dead_handle_calls [OF this, of sample_module "Setting (Promisc 1)"]
  show ?thesis by simp
qed

text \<open>
  The descriptor of such a handle is 0, that of the standard input, although the manual page says
  that \<open>pcap_fileno\<close> gives -1; and a packet sent on a handle that is not activated is reported
  as sent.
\<close>

lemma dead_fileno: "pcap_open_dead hp lt snaplen = Some p \<Longrightarrow> pcap_fileno p = 0 \<and> pcap_get_selectable_fd p = 0"
  by (auto simp: pcap_open_dead_def pcap_open_dead_with_tstamp_precision_def zero_live_def pcap_fileno_def
      pcap_get_selectable_fd_def Let_def split: if_splits)

lemma sendpacket_not_activated:
  assumes "idle p"
  shows "pcap_inject md buf p = Some (PCAP_ERROR_NOT_ACTIVATED, p)" "pcap_sendpacket md buf p = Some (0, p)"
  using operate_idle [OF assms, of md "Inject_bytes buf"] operate_idle [OF assms, of md "Send_packet buf"]
  by simp_all

end
