(* ===== verification/Close_List.thy ===== *)
theory Close_List
  imports Live_Session
begin

text \<open>
  The list of handles whose modes must be undone when the process exits (pcap.c,
  \<open>pcaps_to_close\<close>): a list linked through the handles themselves, so the model has a store of
  handles by address. An address that holds no handle is memory that is not a handle (any more).
\<close>

section \<open>The store\<close>

record 'r opened =
  op_live :: "'r live"
  op_next :: "nat option"

record 'r process =
  pr_handles :: "nat \<Rightarrow> 'r opened option"
  pr_to_close :: "nat option"
  pr_did_atexit :: bool

text \<open>An operation gives the process afterwards or uses memory that is not a handle.\<close>

datatype 'r outcome = Process "'r process" | Bad_access

definition pcap_add_to_pcaps_to_close :: "nat \<Rightarrow> 'r process \<Rightarrow> 'r outcome" where
  "pcap_add_to_pcaps_to_close p st =
     (case pr_handles st p of
        None \<Rightarrow> Bad_access
      | Some h \<Rightarrow> Process (st\<lparr>pr_handles := (pr_handles st)(p \<mapsto> h\<lparr>op_next := pr_to_close st\<rparr>),
          pr_to_close := Some p\<rparr>))"

text \<open>The walk along the list: the handle looked at and the one before it.\<close>

definition remove_step ::
  "nat \<Rightarrow> 'r process \<Rightarrow> nat option \<times> nat option \<Rightarrow> (nat option \<times> nat option) + 'r outcome" where
  "remove_step p st = (\<lambda>(cur, prev).
     case cur of
       None \<Rightarrow> Inr (Process st)
     | Some cur \<Rightarrow>
         (case pr_handles st cur of
            None \<Rightarrow> Inr Bad_access
          | Some h \<Rightarrow>
              if cur = p then
                (case prev of
                   None \<Rightarrow> Inr (Process (st\<lparr>pr_to_close := op_next h\<rparr>))
                 | Some q \<Rightarrow>
                     (case pr_handles st q of
                        None \<Rightarrow> Inr Bad_access
                      | Some g \<Rightarrow> Inr (Process
                          (st\<lparr>pr_handles := (pr_handles st)(q \<mapsto> g\<lparr>op_next := op_next h\<rparr>)\<rparr>))))
              else Inl (op_next h, Some cur)))"

definition pcap_remove_from_pcaps_to_close :: "nat \<Rightarrow> 'r process \<Rightarrow> 'r outcome option" where
  "pcap_remove_from_pcaps_to_close p st = run_machine (remove_step p st) (pr_to_close st, None)"

text \<open>
  \<open>pcap_do_addexit\<close>: the first call registers \<open>pcap_close_all\<close> to run at the exit, which may fail.
\<close>

definition pcap_do_addexit :: "bool \<Rightarrow> nat \<Rightarrow> 'r process \<Rightarrow> int \<times> 'r process" where
  "pcap_do_addexit atexit_ok p st =
     (if \<not> pr_did_atexit st then
        if \<not> atexit_ok then
          (0, st\<lparr>pr_handles := (pr_handles st)(p := map_option (\<lambda>h. h\<lparr>op_live :=
             (op_live h)\<lparr>lv_errbuf := ''atexit failed''\<rparr>\<rparr>) (pr_handles st p))\<rparr>)
        else (1, st\<lparr>pr_did_atexit := True\<rparr>)
      else (1, st))"

section \<open>Closing\<close>

text \<open>
  The cleanup of a module works on the process, as it may take the handle off the list; it is a
  parameter. The routines of pcap.c only change the handle.
\<close>

type_synonym 'r cleaners = "'r \<Rightarrow> nat \<Rightarrow> 'r process \<Rightarrow> 'r outcome option"

definition clean_in_place :: "nat \<Rightarrow> 'r process \<Rightarrow> 'r outcome option" where
  "clean_in_place p st =
     Some (Process (st\<lparr>pr_handles := (pr_handles st)(p := map_option
       (\<lambda>h. h\<lparr>op_live := pcap_cleanup_live_common (op_live h)\<rparr>) (pr_handles st p))\<rparr>))"

definition call_cleanup :: "'r cleaners \<Rightarrow> nat \<Rightarrow> 'r opened \<Rightarrow> 'r process \<Rightarrow> 'r outcome option" where
  "call_cleanup mc p h st =
     (case cleanup_op (lv_ops (op_live h)) of
        Null_cleanup \<Rightarrow> Some Bad_access
      | Cleanup_live_common \<Rightarrow> clean_in_place p st
      | Cleanup_dead \<Rightarrow> Some (Process st)
      | Module_cleanup r \<Rightarrow> mc r p st)"

definition close_handle :: "'r cleaners \<Rightarrow> nat \<Rightarrow> 'r process \<Rightarrow> 'r outcome option" where
  "close_handle mc p st =
     (case pr_handles st p of
        None \<Rightarrow> Some Bad_access
      | Some h \<Rightarrow>
          (case call_cleanup mc p h st of
             None \<Rightarrow> None
           | Some Bad_access \<Rightarrow> Some Bad_access
           | Some (Process st) \<Rightarrow> Some (Process (st\<lparr>pr_handles := (pr_handles st)(p := None)\<rparr>))))"

partial_function (option) pcap_close_all :: "'r cleaners \<Rightarrow> 'r process \<Rightarrow> 'r outcome option" where
  "pcap_close_all mc st =
     (case pr_to_close st of
        None \<Rightarrow> Some (Process st)
      | Some handle \<Rightarrow>
          (case close_handle mc handle st of
             None \<Rightarrow> None
           | Some Bad_access \<Rightarrow> Some Bad_access
           | Some (Process st) \<Rightarrow> pcap_close_all mc st))"

section \<open>The list in the store\<close>

fun chain :: "(nat \<Rightarrow> 'r opened option) \<Rightarrow> nat option \<Rightarrow> nat list \<Rightarrow> bool" where
  "chain m s [] \<longleftrightarrow> s = None"
| "chain m s (x # xs) \<longleftrightarrow> s = Some x \<and> (case m x of None \<Rightarrow> False | Some h \<Rightarrow> chain m (op_next h) xs)"

definition to_close :: "'r process \<Rightarrow> nat list \<Rightarrow> bool" where
  "to_close st xs \<longleftrightarrow> chain (pr_handles st) (pr_to_close st) xs"

definition live_at :: "'r process \<Rightarrow> nat \<Rightarrow> 'r live option" where
  "live_at st p = map_option op_live (pr_handles st p)"

lemma chain_unique: "chain m s xs \<Longrightarrow> chain m s ys \<Longrightarrow> xs = ys"
proof (induction xs arbitrary: s ys)
  case Nil
  then show ?case by (cases ys) auto
next
  case (Cons x xs)
  then show ?case by (cases ys) (auto split: option.splits)
qed

lemma chain_append: "chain m s (xs @ ys) \<Longrightarrow> \<exists>t. chain m t ys"
  by (induction xs arbitrary: s) (auto split: option.splits)

lemma chain_distinct: "chain m s xs \<Longrightarrow> distinct xs"
proof (induction xs arbitrary: s)
  case (Cons x xs)
  have "x \<notin> set xs"
  proof
    assume "x \<in> set xs"
    then obtain as bs where xs: "xs = as @ x # bs" by (auto dest: split_list)
    from Cons.prems chain_append [of m s "x # as" "x # bs"] obtain t where "chain m t (x # bs)"
      by (auto simp: xs)
    then have "chain m s (x # bs)" using Cons.prems by simp
    from chain_unique [OF this Cons.prems] show False by (simp add: xs)
  qed
  with Cons show ?case by (auto split: option.splits)
qed simp

lemma chain_frame: "chain m s xs \<Longrightarrow> (\<And>x. x \<in> set xs \<Longrightarrow> m' x = m x) \<Longrightarrow> chain m' s xs"
  by (induction xs arbitrary: s) (auto split: option.splits)

lemma chain_update [simp]: "x \<notin> set xs \<Longrightarrow> chain (m(x := v)) s xs = chain m s xs"
  by (auto intro: chain_frame elim: chain_frame)

lemma add_to_close:
  assumes "to_close st xs" "p \<notin> set xs" "pr_handles st p \<noteq> None"
  shows "\<exists>st'. pcap_add_to_pcaps_to_close p st = Process st' \<and> to_close st' (p # xs) \<and> live_at st' = live_at st"
  using assms
  by (auto simp: pcap_add_to_pcaps_to_close_def to_close_def live_at_def fun_eq_iff intro: chain_frame)

lemma remove_found:
  assumes "chain (pr_handles st) (Some q) (q # as @ p # bs)" and "distinct (q # as @ p # bs)"
  shows "\<exists>m. run_machine (remove_step p st) (op_next (the (pr_handles st q)), Some q) =
      Some (Process (st\<lparr>pr_handles := m\<rparr>)) \<and> chain m (Some q) (q # as @ bs) \<and>
    (\<forall>x. x \<notin> set (q # as) \<longrightarrow> m x = pr_handles st x) \<and>
    (\<forall>x. map_option op_live (m x) = map_option op_live (pr_handles st x))"
  using assms
proof (induction as arbitrary: q)
  case Nil
  then obtain h g where q: "pr_handles st q = Some h" "op_next h = Some p" and p: "pr_handles st p = Some g"
    and bs: "chain (pr_handles st) (op_next g) bs" by (auto split: option.splits)
  let ?m = "(pr_handles st)(q \<mapsto> h\<lparr>op_next := op_next g\<rparr>)"
  have "run_machine (remove_step p st) (op_next (the (pr_handles st q)), Some q) =
      Some (Process (st\<lparr>pr_handles := ?m\<rparr>))"
    by (rule run_machine_Inr) (simp add: remove_step_def q p)
  moreover have "chain ?m (Some q) (q # [] @ bs)" using Nil bs by simp
  moreover have "\<forall>x. x \<notin> set [q] \<longrightarrow> ?m x = pr_handles st x"
    "\<forall>x. map_option op_live (?m x) = map_option op_live (pr_handles st x)" using q by simp_all
  ultimately show ?case by blast
next
  case (Cons a as)
  then obtain h where q: "pr_handles st q = Some h" "op_next h = Some a"
    and a: "chain (pr_handles st) (Some a) (a # as @ p # bs)" by (auto split: option.splits)
  from Cons.IH [OF a] Cons.prems(2) obtain m where
    m: "run_machine (remove_step p st) (op_next (the (pr_handles st a)), Some a) = Some (Process (st\<lparr>pr_handles := m\<rparr>))"
      "chain m (Some a) (a # as @ bs)" "\<forall>x. x \<notin> set (a # as) \<longrightarrow> m x = pr_handles st x"
      "\<forall>x. map_option op_live (m x) = map_option op_live (pr_handles st x)" by auto
  obtain g where g: "pr_handles st a = Some g" using a by (auto split: option.splits)
  have "run_machine (remove_step p st) (Some a, Some q) =
      run_machine (remove_step p st) (op_next g, Some a)"
    using Cons.prems(2) by (intro run_machine_Inl) (auto simp: remove_step_def g)
  then have "run_machine (remove_step p st) (op_next (the (pr_handles st q)), Some q) =
      Some (Process (st\<lparr>pr_handles := m\<rparr>))"
    using q g m(1) by simp
  moreover have "m q = Some h" using m(3) q Cons.prems(2) by auto
  ultimately show ?case using m q by (intro exI [of _ m]) auto
qed

lemma remove_absent:
  assumes "chain (pr_handles st) s xs" and "p \<notin> set xs"
  shows "run_machine (remove_step p st) (s, prev) = Some (Process st)"
  using assms
proof (induction xs arbitrary: s prev)
  case Nil
  then show ?case by (auto intro!: run_machine_Inr simp: remove_step_def)
next
  case (Cons x xs)
  then obtain h where h: "s = Some x" "pr_handles st x = Some h" "chain (pr_handles st) (op_next h) xs"
    by (auto split: option.splits)
  with Cons.prems have "run_machine (remove_step p st) (s, prev) = run_machine (remove_step p st) (op_next h, Some x)"
    by (intro run_machine_Inl) (auto simp: remove_step_def)
  with Cons h show ?case by simp
qed

lemma remove_from_list_steps:
  assumes "to_close st xs"
  shows "\<exists>st'. pcap_remove_from_pcaps_to_close p st = Some (Process st') \<and> to_close st' (remove1 p xs) \<and>
    (\<forall>x. live_at st' x = live_at st x) \<and> pr_did_atexit st' = pr_did_atexit st"
proof (cases "p \<in> set xs")
  case False
  with assms remove_absent [of st "pr_to_close st" xs p None] show ?thesis
    by (simp add: pcap_remove_from_pcaps_to_close_def to_close_def remove1_idem)
next
  case True
  then obtain as bs where xs: "xs = as @ p # bs" and p: "p \<notin> set as" by (meson split_list_first)
  have d: "distinct xs" using assms chain_distinct unfolding to_close_def by blast
  show ?thesis
  proof (cases as)
    case Nil
    with assms xs obtain h where h: "pr_to_close st = Some p" "pr_handles st p = Some h"
      "chain (pr_handles st) (op_next h) bs" by (auto simp: to_close_def split: option.splits)
    have "pcap_remove_from_pcaps_to_close p st = Some (Process (st\<lparr>pr_to_close := op_next h\<rparr>))"
      unfolding pcap_remove_from_pcaps_to_close_def
      by (rule run_machine_Inr) (simp add: remove_step_def h)
    then show ?thesis using h xs Nil by (simp add: to_close_def live_at_def)
  next
    case (Cons q as')
    with assms xs obtain h where q: "pr_to_close st = Some q" "pr_handles st q = Some h"
      and c: "chain (pr_handles st) (Some q) (q # as' @ p # bs)" by (auto simp: to_close_def split: option.splits)
    have "run_machine (remove_step p st) (Some q, None) = run_machine (remove_step p st) (op_next h, Some q)"
      using p Cons q by (intro run_machine_Inl) (auto simp: remove_step_def)
    with remove_found [OF c] d xs Cons q p obtain m where
      "pcap_remove_from_pcaps_to_close p st = Some (Process (st\<lparr>pr_handles := m\<rparr>))"
      "chain m (Some q) (q # as' @ bs)" "\<forall>x. map_option op_live (m x) = map_option op_live (pr_handles st x)"
      by (auto simp: pcap_remove_from_pcaps_to_close_def)
    then show ?thesis using xs Cons p q
      by (simp add: to_close_def live_at_def remove1_append split: option.splits)
  qed
qed

text \<open>
  C37. \<open>pcap_remove_from_pcaps_to_close\<close> removes the handle from the list, wherever it is, leaves a
  list without it as it is, changes nothing of any handle but links, and ends.
\<close>

theorem remove_from_list:
  assumes "to_close st xs"
  shows "\<exists>st'. pcap_remove_from_pcaps_to_close p st = Some (Process st') \<and> to_close st' (remove1 p xs) \<and>
    (\<forall>x. live_at st' x = live_at st x) \<and> pr_did_atexit st' = pr_did_atexit st"
  by (rule remove_from_list_steps [OF assms])

definition sample_process :: "unit process" where
  "sample_process = \<lparr>pr_handles = (\<lambda>_. None)(1 \<mapsto> \<lparr>op_live = sample_live, op_next = Some 2\<rparr>,
     2 \<mapsto> \<lparr>op_live = sample_open, op_next = None\<rparr>), pr_to_close = Some 1, pr_did_atexit = True\<rparr>"

lemma sample_process_list: "to_close sample_process [1, 2]"
  by (simp add: sample_process_def to_close_def)

theorem remove_from_list_witness:
  "\<exists>st'. pcap_remove_from_pcaps_to_close 2 sample_process = Some (Process st') \<and>
    to_close st' (remove1 2 [1, 2]) \<and> (\<forall>x. live_at st' x = live_at sample_process x) \<and>
    pr_did_atexit st' = pr_did_atexit sample_process"
  by (rule remove_from_list [OF sample_process_list])

section \<open>Closing all\<close>

text \<open>
  A cleanup that takes its handle off the list and leaves the other handles alone.
\<close>

definition unlinks :: "'r cleaners \<Rightarrow> bool" where
  "unlinks mc \<longleftrightarrow> (\<forall>r p st xs. to_close st xs \<longrightarrow> p \<in> set xs \<longrightarrow>
     (\<exists>st'. mc r p st = Some (Process st') \<and> to_close st' (remove1 p xs) \<and>
       (\<forall>x. x \<noteq> p \<longrightarrow> live_at st' x = live_at st x)))"

text \<open>The cleanup that the two routines of pcap.c make up, as the modules call them.\<close>

definition unlink_and_clean :: "'r cleaners" where
  "unlink_and_clean r p st =
     (case pcap_remove_from_pcaps_to_close p st of
        None \<Rightarrow> None
      | Some Bad_access \<Rightarrow> Some Bad_access
      | Some (Process st) \<Rightarrow> clean_in_place p st)"

lemma unlink_and_clean_unlinks: "unlinks unlink_and_clean"
  unfolding unlinks_def
proof (intro allI impI)
  fix r p xs and st :: "'a process"
  assume l: "to_close st xs" and p: "p \<in> set xs"
  from remove_from_list_steps [OF l, of p] obtain st' where
    r: "pcap_remove_from_pcaps_to_close p st = Some (Process st')" "to_close st' (remove1 p xs)"
      "\<forall>x. live_at st' x = live_at st x" by blast
  have "p \<notin> set (remove1 p xs)" using chain_distinct l unfolding to_close_def by fastforce
  with r show "\<exists>st'. unlink_and_clean r p st = Some (Process st') \<and> to_close st' (remove1 p xs) \<and>
     (\<forall>x. x \<noteq> p \<longrightarrow> live_at st' x = live_at st x)"
    by (auto simp: unlink_and_clean_def clean_in_place_def to_close_def live_at_def)
qed

text \<open>
  C38. At the exit of the process \<open>pcap_close_all\<close> closes every handle of the list, each once, leaves
  the list empty and every other handle as it is, and ends, provided the cleanup of each handle on
  the list takes it off the list.
\<close>

theorem close_all_ends:
  assumes mc: "unlinks mc" and l: "to_close st xs"
    and ops: "\<forall>x\<in>set xs. \<exists>p r. live_at st x = Some p \<and> cleanup_op (lv_ops p) = Module_cleanup r"
  shows "\<exists>st'. pcap_close_all mc st = Some (Process st') \<and> pr_to_close st' = None \<and>
    (\<forall>x. live_at st' x = (if x \<in> set xs then None else live_at st x))"
  using l ops
proof (induction xs arbitrary: st)
  case Nil
  then show ?case by (simp add: to_close_def pcap_close_all.simps [of mc st])
next
  case (Cons a xs)
  then obtain p r h where h: "pr_handles st a = Some h" "op_live h = p" "cleanup_op (lv_ops p) = Module_cleanup r"
    by (auto simp: live_at_def)
  have a: "a \<notin> set xs" using chain_distinct Cons.prems(1) unfolding to_close_def by fastforce
  obtain st1 where st1: "mc r a st = Some (Process st1)" "to_close st1 xs"
    "\<forall>x. x \<noteq> a \<longrightarrow> live_at st1 x = live_at st x"
    using mc Cons.prems(1) unfolding unlinks_def by force
  let ?st = "st1\<lparr>pr_handles := (pr_handles st1)(a := None)\<rparr>"
  have l: "to_close ?st xs" using st1(2) a by (simp add: to_close_def)
  have same: "live_at ?st x = (if x = a then None else live_at st x)" for x
    using st1(3) by (simp add: live_at_def)
  have "\<forall>x\<in>set xs. \<exists>p r. live_at ?st x = Some p \<and> cleanup_op (lv_ops p) = Module_cleanup r"
    using Cons.prems(2) a by (auto simp: same)
  from Cons.IH [OF l this] obtain st' where st': "pcap_close_all mc ?st = Some (Process st')"
    "pr_to_close st' = None" "\<forall>x. live_at st' x = (if x \<in> set xs then None else live_at ?st x)" by blast
  have "pr_to_close st = Some a" using Cons.prems(1) by (simp add: to_close_def)
  with h st1 st' have "pcap_close_all mc st = Some (Process st')"
    by (simp add: pcap_close_all.simps [of mc st] close_handle_def call_cleanup_def)
  with st' show ?case by (auto simp: same)
qed

definition sample_to_close :: "unit process" where
  "sample_to_close = sample_process\<lparr>pr_handles := (\<lambda>_. None)
     (1 \<mapsto> \<lparr>op_live = sample_open\<lparr>lv_ops := (lv_ops sample_open)\<lparr>cleanup_op := Module_cleanup ()\<rparr>\<rparr>, op_next = None\<rparr>)\<rparr>"

theorem close_all_ends_witness:
  "\<exists>st'. pcap_close_all unlink_and_clean sample_to_close = Some (Process st') \<and> pr_to_close st' = None \<and>
    (\<forall>x. live_at st' x = (if x \<in> set [1] then None else live_at sample_to_close x))"
  by (rule close_all_ends [OF unlink_and_clean_unlinks])
    (simp_all add: sample_to_close_def sample_process_def to_close_def live_at_def)

text \<open>
  A handle that is put on the list twice in a row is its own successor, and the removal of any
  other handle then never ends.
\<close>

lemma added_twice_hangs:
  assumes h: "pr_handles st p \<noteq> None" and other: "q \<noteq> p"
    and "pcap_add_to_pcaps_to_close p st = Process st1" and "pcap_add_to_pcaps_to_close p st1 = Process st2"
  shows "pcap_remove_from_pcaps_to_close q st2 = None"
proof -
  from assms obtain g where g: "pr_to_close st2 = Some p" "pr_handles st2 p = Some g" "op_next g = Some p"
    by (auto simp: pcap_add_to_pcaps_to_close_def)
  have "remove_step q st2 (Some p, Some p) = Inl (Some p, Some p)"
    using g other by (simp add: remove_step_def)
  note stuck = self_loop_stuck [of "remove_step q st2", OF this]
  have "remove_step q st2 (Some p, None) = Inl (Some p, Some p)"
    using g other by (simp add: remove_step_def)
  from run_machine_Inl [of "remove_step q st2", OF this] stuck g show ?thesis
    by (simp add: pcap_remove_from_pcaps_to_close_def)
qed

end
