(* ===== verification/Device_List.thy ===== *)
theory Device_List
  imports Live_Session "HOL-Library.Multiset"
begin

text \<open>
  The list of the devices that can be captured on (inet.c, \<open>pcap_findalldevs\<close> of pcap.c): entries
  are added in the order of a figure of merit, with their addresses; the first device that is not
  a loopback device is the default one.
\<close>

section \<open>Entries\<close>

text \<open>\<open>pcap_addr_t\<close>: four addresses, each of which may be missing. \<open>pcap_if_t\<close> is an entry.\<close>

record pcap_addr =
  ad_addr :: "u8 list option"
  ad_netmask :: "u8 list option"
  ad_broadaddr :: "u8 list option"
  ad_dstaddr :: "u8 list option"

record pcap_if =
  if_name :: string
  if_description :: "string option"
  if_addresses :: "pcap_addr list"
  if_flags :: u32

definition PCAP_IF_LOOPBACK :: u32 where "PCAP_IF_LOOPBACK = 1"
definition PCAP_IF_UP :: u32 where "PCAP_IF_UP = 2"
definition PCAP_IF_RUNNING :: u32 where "PCAP_IF_RUNNING = 4"

lemmas if_flag_defs = PCAP_IF_LOOPBACK_def PCAP_IF_UP_def PCAP_IF_RUNNING_def

text \<open>
  What the code takes from the system: the flags of \<open>net/if.h\<close>, each of which may be missing, what
  \<open>atoi\<close> gives for a number that is no \<open>int\<close>, and the character in front of a name, which the
  figure of merit of an empty name looks at.
\<close>

record if_system =
  iff_loopback :: "u32 option"
  iff_up :: "u32 option"
  iff_running :: "u32 option"
  atoi_overflow :: "string \<Rightarrow> u32"
  char_before :: char

definition is_digit :: "char \<Rightarrow> bool" where
  "is_digit c \<longleftrightarrow> 48 \<le> (of_char c :: nat) \<and> (of_char c :: nat) \<le> 57"

definition ISLOOPBACK :: "if_system \<Rightarrow> string \<Rightarrow> u32 \<Rightarrow> bool" where
  "ISLOOPBACK sys nm flags =
     (case iff_loopback sys of
        Some b \<Rightarrow> flags AND b \<noteq> 0
      | None \<Rightarrow>
          (case nm of
             c0 # c1 # rest \<Rightarrow> c0 = CHR ''l'' \<and> c1 = CHR ''o'' \<and>
               (case rest of [] \<Rightarrow> True | c2 # _ \<Rightarrow> is_digit c2)
           | _ \<Rightarrow> False))"

definition ISUP :: "if_system \<Rightarrow> u32 \<Rightarrow> bool" where
  "ISUP sys flags = (case iff_up sys of None \<Rightarrow> False | Some b \<Rightarrow> flags AND b \<noteq> 0)"

definition ISRUNNING :: "if_system \<Rightarrow> u32 \<Rightarrow> bool" where
  "ISRUNNING sys flags = (case iff_running sys of None \<Rightarrow> False | Some b \<Rightarrow> flags AND b \<noteq> 0)"

section \<open>The figure of merit\<close>

definition digits_value :: "string \<Rightarrow> nat" where
  "digits_value ds = foldl (\<lambda>n c. n * 10 + (of_char c - 48)) 0 ds"

definition atoi :: "if_system \<Rightarrow> string \<Rightarrow> u32" where
  "atoi sys s =
     (let n = digits_value (takeWhile is_digit s)
      in if n < 2 ^ 31 then word_of_nat n else atoi_overflow sys s)"

text \<open>
  The unit number: from the last character of the name back while the character before is a
  digit.
\<close>

definition unit_text :: "if_system \<Rightarrow> string \<Rightarrow> string" where
  "unit_text sys nm =
     (case rev nm of
        [] \<Rightarrow> [char_before sys]
      | c # cs \<Rightarrow> rev (takeWhile is_digit cs) @ [c])"

definition unit_number :: "if_system \<Rightarrow> string \<Rightarrow> u32" where
  "unit_number sys nm =
     (if nm = ''any'' then 0x1FFFFFFF
      else if is_digit (hd (unit_text sys nm)) then atoi sys (unit_text sys nm)
      else 0)"

definition get_figure_of_merit :: "if_system \<Rightarrow> pcap_if \<Rightarrow> u32" where
  "get_figure_of_merit sys dev =
     (let n = unit_number sys (if_name dev);
          n = (if if_flags dev AND PCAP_IF_RUNNING = 0 then n OR 0x80000000 else n);
          n = (if if_flags dev AND PCAP_IF_UP = 0 then n OR 0x40000000 else n)
      in if if_flags dev AND PCAP_IF_LOOPBACK \<noteq> 0 then n OR 0x20000000 else n)"

section \<open>Adding a device\<close>

text \<open>
  Whether a device can be opened: it is created, activated with a small snapshot length, and
  closed. No handle, or the status of the activation.
\<close>

definition try_open ::
  "'r modules \<Rightarrow> 'r creator list \<Rightarrow> (string \<Rightarrow> string \<Rightarrow> 'r live option \<times> string) \<Rightarrow> string \<Rightarrow> int option option" where
  "try_open md types iface nm =
     (case fst (pcap_create types iface (Some nm) '''') of
        None \<Rightarrow> Some None
      | Some p \<Rightarrow>
          (case pcap_activate md (snd (pcap_set_snaplen 68 p)) of
             None \<Rightarrow> None
           | Some (ret, p) \<Rightarrow>
               (case pcap_close md p of None \<Rightarrow> None | Some _ \<Rightarrow> Some (Some ret))))"

text \<open>The place for a new entry: before the first entry that is worse.\<close>

fun insert_if :: "if_system \<Rightarrow> pcap_if \<Rightarrow> pcap_if list \<Rightarrow> pcap_if list" where
  "insert_if sys dev [] = [dev]"
| "insert_if sys dev (next # rest) =
     (if get_figure_of_merit sys dev < get_figure_of_merit sys next then dev # next # rest
      else next # insert_if sys dev rest)"

fun position_if :: "if_system \<Rightarrow> pcap_if \<Rightarrow> pcap_if list \<Rightarrow> nat" where
  "position_if sys dev [] = 0"
| "position_if sys dev (next # rest) =
     (if get_figure_of_merit sys dev < get_figure_of_merit sys next then 0
      else Suc (position_if sys dev rest))"

fun find_if :: "string \<Rightarrow> pcap_if list \<Rightarrow> nat option" where
  "find_if nm [] = None"
| "find_if nm (d # ds) = (if nm = if_name d then Some 0 else map_option Suc (find_if nm ds))"

definition new_if :: "if_system \<Rightarrow> string \<Rightarrow> u32 \<Rightarrow> string option \<Rightarrow> pcap_if" where
  "new_if sys nm flags descr = \<lparr>if_name = nm, if_description = descr, if_addresses = [],
     if_flags = (if ISLOOPBACK sys nm flags then PCAP_IF_LOOPBACK else 0) OR
       (if ISUP sys flags then PCAP_IF_UP else 0) OR (if ISRUNNING sys flags then PCAP_IF_RUNNING else 0)\<rparr>"

text \<open>
  The result: a code, the place of the entry that was found or made (if there is one), and the
  list. \<open>ok i\<close> says whether the allocation succeeds of the entry (0), its name (1) and its
  description (2). \<open>opened\<close> is what opening the device gives; \<open>None\<close> is undefined behaviour there.
\<close>

definition add_or_find_if ::
  "if_system \<Rightarrow> (nat \<Rightarrow> bool) \<Rightarrow> (string \<Rightarrow> int option option) \<Rightarrow> string \<Rightarrow> u32 \<Rightarrow> string option \<Rightarrow>
   pcap_if list \<Rightarrow> (int \<times> nat option \<times> pcap_if list) option" where
  "add_or_find_if sys ok opened nm flags descr alldevs =
     (case find_if nm alldevs of
        Some i \<Rightarrow> Some (0, Some i, alldevs)
      | None \<Rightarrow>
          (case opened nm of
             None \<Rightarrow> None
           | Some None \<Rightarrow> Some (0, None, alldevs)
           | Some (Some ret) \<Rightarrow>
               if ret = PCAP_ERROR_NO_SUCH_DEVICE \<or> ret = - 9 then Some (0, None, alldevs)
               else if \<not> ok 0 then Some (- 1, None, alldevs)
               else if \<not> ok 1 then Some (- 1, None, alldevs)
               else if descr \<noteq> None \<and> \<not> ok 2 then Some (- 1, None, alldevs)
               else
                 let dev = new_if sys nm flags descr
                 in Some (0, Some (position_if sys dev alldevs), insert_if sys dev alldevs)))"

definition pcap_add_if ::
  "if_system \<Rightarrow> (nat \<Rightarrow> bool) \<Rightarrow> (string \<Rightarrow> int option option) \<Rightarrow> string \<Rightarrow> u32 \<Rightarrow> string option \<Rightarrow>
   pcap_if list \<Rightarrow> (int \<times> pcap_if list) option" where
  "pcap_add_if sys ok opened nm flags descr devlist =
     map_option (\<lambda>(r, c, l). (r, l)) (add_or_find_if sys ok opened nm flags descr devlist)"

text \<open>Copies of the four addresses; \<open>ok i\<close>: the entry (0) and the addresses (1 to 4) can be allocated.\<close>

definition dup_sockaddr :: "bool \<Rightarrow> u8 list \<Rightarrow> u8 list option" where
  "dup_sockaddr alloc sa = (if alloc then Some sa else None)"

definition dup_optional :: "bool \<Rightarrow> u8 list option \<Rightarrow> u8 list option option" where
  "dup_optional alloc sa = (case sa of None \<Rightarrow> Some None | Some s \<Rightarrow> map_option Some (dup_sockaddr alloc s))"

definition new_addr :: "(nat \<Rightarrow> bool) \<Rightarrow> pcap_addr \<Rightarrow> pcap_addr option" where
  "new_addr ok a =
     (if \<not> ok 0 then None else
      case dup_optional (ok 1) (ad_addr a) of None \<Rightarrow> None | Some addr \<Rightarrow>
     (case dup_optional (ok 2) (ad_netmask a) of None \<Rightarrow> None | Some netmask \<Rightarrow>
     (case dup_optional (ok 3) (ad_broadaddr a) of None \<Rightarrow> None | Some broadaddr \<Rightarrow>
     (case dup_optional (ok 4) (ad_dstaddr a) of None \<Rightarrow> None | Some dstaddr \<Rightarrow>
        Some \<lparr>ad_addr = addr, ad_netmask = netmask, ad_broadaddr = broadaddr, ad_dstaddr = dstaddr\<rparr>))))"

definition add_addr_to_dev :: "(nat \<Rightarrow> bool) \<Rightarrow> pcap_addr \<Rightarrow> pcap_if \<Rightarrow> int \<times> pcap_if" where
  "add_addr_to_dev ok a curdev =
     (case new_addr ok a of
        None \<Rightarrow> (- 1, curdev)
      | Some a \<Rightarrow> (0, curdev\<lparr>if_addresses := if_addresses curdev @ [a]\<rparr>))"

text \<open>An interface with an address, as the system reports it; its description is asked for first.\<close>

definition add_addr_to_iflist ::
  "if_system \<Rightarrow> (nat \<Rightarrow> bool) \<Rightarrow> (nat \<Rightarrow> bool) \<Rightarrow> (string \<Rightarrow> int option option) \<Rightarrow> (string \<Rightarrow> string option) \<Rightarrow>
   string \<Rightarrow> u32 \<Rightarrow> pcap_addr \<Rightarrow> pcap_if list \<Rightarrow> (int \<times> pcap_if list) option" where
  "add_addr_to_iflist sys ok ok_addr opened get_if_description nm flags a alldevs =
     (case add_or_find_if sys ok opened nm flags (get_if_description nm) alldevs of
        None \<Rightarrow> None
      | Some (r, curdev, alldevs) \<Rightarrow>
          if r = - 1 then Some (- 1, alldevs)
          else
            (case curdev of
               None \<Rightarrow> Some (0, alldevs)
             | Some i \<Rightarrow>
                 if ad_addr a = None then Some (0, alldevs)
                 else (case add_addr_to_dev ok_addr a (alldevs ! i) of (r, d) \<Rightarrow> Some (r, alldevs[i := d]))))"

section \<open>All devices\<close>

text \<open>
  The sources of devices, each of which gives a code and the list with its additions. An error
  frees the list, but for an error of the first source, which frees what it has made itself.
\<close>

type_synonym if_finder = "pcap_if list \<Rightarrow> int \<times> pcap_if list"

fun find_loop :: "if_finder list \<Rightarrow> pcap_if list \<Rightarrow> int \<times> pcap_if list" where
  "find_loop [] alldevs = (0, alldevs)"
| "find_loop (f # fs) alldevs =
     (case f alldevs of (r, alldevs) \<Rightarrow> if r = - 1 then (- 1, []) else find_loop fs alldevs)"

definition pcap_findalldevs :: "(int \<times> pcap_if list) \<Rightarrow> if_finder \<Rightarrow> if_finder list \<Rightarrow> int \<times> pcap_if list" where
  "pcap_findalldevs interfaces pcap_platform_finddevs capture_source_types =
     (case interfaces of (r, alldevs) \<Rightarrow>
        if r = - 1 then (- 1, alldevs)
        else
          (case pcap_platform_finddevs alldevs of (r, alldevs) \<Rightarrow>
             if r = - 1 then (- 1, []) else find_loop capture_source_types alldevs))"

text \<open>The default device; \<open>IF_NAMESIZE\<close> bounds the copy of its name.\<close>

definition pcap_lookupdev :: "nat \<Rightarrow> int \<times> pcap_if list \<Rightarrow> string \<Rightarrow> string option \<times> string" where
  "pcap_lookupdev IF_NAMESIZE found errbuf =
     (case found of (r, alldevs) \<Rightarrow>
        if r = - 1 then (None, errbuf)
        else
          (case alldevs of
             [] \<Rightarrow> (None, ''no suitable device found'')
           | d # _ \<Rightarrow>
               if if_flags d AND PCAP_IF_LOOPBACK \<noteq> 0 then (None, ''no suitable device found'')
               else (Some (take IF_NAMESIZE (if_name d)), errbuf)))"

section \<open>The network of a device\<close>

text \<open>
  \<open>pcap_lookupnet\<close>: the address and the mask that the system has for a device, as values of the
  host; without a mask the class of the address gives one. \<open>special\<close> has the parts of names that
  are compiled in as devices without addresses (\<open>strstr\<close>); \<open>sock\<close>, \<open>get_addr\<close> and \<open>get_mask\<close> are
  what \<open>socket\<close> and the two \<open>ioctl\<close>s give, an error being the message for it.
\<close>

fun strstr :: "string \<Rightarrow> string \<Rightarrow> bool" where
  "strstr [] sub = (sub = [])"
| "strstr (c # cs) sub = (take (length sub) (c # cs) = sub \<or> strstr cs sub)"

definition IN_CLASSA :: "u32 \<Rightarrow> bool" where "IN_CLASSA a \<longleftrightarrow> a AND 0x80000000 = 0"
definition IN_CLASSB :: "u32 \<Rightarrow> bool" where "IN_CLASSB a \<longleftrightarrow> a AND 0xc0000000 = 0x80000000"
definition IN_CLASSC :: "u32 \<Rightarrow> bool" where "IN_CLASSC a \<longleftrightarrow> a AND 0xe0000000 = 0xc0000000"

datatype net_error = Socket_error string | No_address string | Address_error string | Mask_error string
  | Class_unknown u32

definition class_mask :: "u32 \<Rightarrow> u32 option" where
  "class_mask net =
     (if IN_CLASSA net then Some 0xff000000
      else if IN_CLASSB net then Some 0xffff0000
      else if IN_CLASSC net then Some 0xffffff00
      else None)"

definition pcap_lookupnet ::
  "byte_order \<Rightarrow> string list \<Rightarrow> string option \<Rightarrow> (string \<Rightarrow> net_error + u8 list) \<Rightarrow> (string \<Rightarrow> net_error + u8 list) \<Rightarrow>
   string option \<Rightarrow> net_error + (u32 \<times> u32)" where
  "pcap_lookupnet bo special sock get_addr get_mask device =
     (case device of
        None \<Rightarrow> Inr (0, 0)
      | Some dev \<Rightarrow>
          if dev = ''any'' \<or> list_ex (strstr dev) special then Inr (0, 0)
          else
            (case sock of
               Some e \<Rightarrow> Inl (Socket_error e)
             | None \<Rightarrow>
                 (case get_addr dev of
                    Inl e \<Rightarrow> Inl e
                  | Inr addr \<Rightarrow>
                      let net = decode_word bo addr in
                      (case get_mask dev of
                         Inl e \<Rightarrow> Inl e
                       | Inr netmask \<Rightarrow>
                           let m = decode_word bo netmask in
                           if m = 0 then
                             (case class_mask net of
                                None \<Rightarrow> Inl (Class_unknown net)
                              | Some m \<Rightarrow> Inr (net AND m, m))
                           else Inr (net AND m, m)))))"

section \<open>The order of the list\<close>

definition bare :: "pcap_if \<Rightarrow> pcap_if" where
  "bare d = d\<lparr>if_addresses := []\<rparr>"

lemma bare_simps [simp]:
  "if_name (bare d) = if_name d" "if_flags (bare d) = if_flags d" "bare (bare d) = bare d"
  "get_figure_of_merit sys (bare d) = get_figure_of_merit sys d"
  "bare (d\<lparr>if_addresses := a\<rparr>) = bare d" "bare (new_if sys nm flags descr) = new_if sys nm flags descr"
  by (simp_all add: bare_def get_figure_of_merit_def new_if_def)

lemma mset_insert_if [simp]: "mset (insert_if sys d xs) = add_mset d (mset xs)"
  by (induction xs) auto

lemma length_insert_if [simp]: "length (insert_if sys d xs) = Suc (length xs)"
  by (induction xs) auto

lemma set_insert_if [simp]: "set (insert_if sys d xs) = insert d (set xs)"
  by (induction xs) auto

lemma map_bare_insert_if: "map bare (insert_if sys d xs) = insert_if sys (bare d) (map bare xs)"
  by (induction xs) auto

lemma insert_if_nth: "position_if sys d xs < length (insert_if sys d xs) \<and> insert_if sys d xs ! position_if sys d xs = d"
  by (induction xs) auto

lemma sorted_insert_if:
  "sorted (map (get_figure_of_merit sys) xs) \<Longrightarrow> sorted (map (get_figure_of_merit sys) (insert_if sys d xs))"
  by (induction xs) fastforce+

lemma filter_insert_if:
  assumes "sorted (map (get_figure_of_merit sys) xs)"
  shows "filter (\<lambda>x. k = get_figure_of_merit sys x) (insert_if sys d xs) =
     filter (\<lambda>x. k = get_figure_of_merit sys x) xs @ (if k = get_figure_of_merit sys d then [d] else [])"
  using assms
proof (induction xs)
  case (Cons a xs)
  show ?case
  proof (cases "get_figure_of_merit sys d < get_figure_of_merit sys a")
    case True
    then have "\<forall>x\<in>set (a # xs). get_figure_of_merit sys d < get_figure_of_merit sys x"
      using Cons.prems by auto
    then have "k = get_figure_of_merit sys d \<Longrightarrow> filter (\<lambda>x. k = get_figure_of_merit sys x) (a # xs) = []"
      by (auto simp: filter_empty_conv)
    with True show ?thesis by auto
  qed (use Cons in auto)
qed simp

text \<open>Adding at the end of what was found and sorting is adding to the sorted list.\<close>

lemma stable_filter:
  "filter (\<lambda>x. k = get_figure_of_merit sys x) (sort_key (get_figure_of_merit sys) ds) =
   filter (\<lambda>x. k = get_figure_of_merit sys x) ds"
  using sort_key_stable [of "get_figure_of_merit sys" k ds] by (simp add: eq_commute)

lemma insert_if_sort:
  "insert_if sys d (sort_key (get_figure_of_merit sys) ds) = sort_key (get_figure_of_merit sys) (ds @ [d])"
proof (rule properties_for_sort_key [symmetric])
  show "mset (insert_if sys d (sort_key (get_figure_of_merit sys) ds)) = mset (ds @ [d])" by simp
  show "sorted (map (get_figure_of_merit sys) (insert_if sys d (sort_key (get_figure_of_merit sys) ds)))"
    by (simp add: sorted_insert_if)
  show "filter (\<lambda>x. get_figure_of_merit sys e = get_figure_of_merit sys x)
      (insert_if sys d (sort_key (get_figure_of_merit sys) ds)) =
    filter (\<lambda>x. get_figure_of_merit sys e = get_figure_of_merit sys x) (ds @ [d])"
    if "e \<in> set (insert_if sys d (sort_key (get_figure_of_merit sys) ds))" for e
    by (simp add: filter_insert_if stable_filter)
qed

lemma find_if_none: "find_if nm ds = None \<longleftrightarrow> nm \<notin> if_name ` set ds"
  by (induction ds) auto

lemma find_if_some: "find_if nm ds = Some i \<Longrightarrow> i < length ds \<and> if_name (ds ! i) = nm"
  by (induction ds arbitrary: i) (auto split: if_splits)

text \<open>A device that opening does not rule out.\<close>

definition capturable :: "(string \<Rightarrow> int option option) \<Rightarrow> string \<Rightarrow> bool" where
  "capturable opened nm \<longleftrightarrow> (case opened nm of Some (Some ret) \<Rightarrow> ret \<noteq> PCAP_ERROR_NO_SUCH_DEVICE \<and> ret \<noteq> - 9
     | _ \<Rightarrow> False)"

lemma add_or_find_cases:
  assumes "add_or_find_if sys ok opened nm flags descr l = Some (r, c, l')"
  shows "l' = l \<and> (\<forall>i. c = Some i \<longrightarrow> i < length l) \<or>
    find_if nm l = None \<and> capturable opened nm \<and> r = 0 \<and> l' = insert_if sys (new_if sys nm flags descr) l \<and>
    c = Some (position_if sys (new_if sys nm flags descr) l)"
  using assms
  by (auto simp: add_or_find_if_def capturable_def Let_def dest: find_if_some split: option.splits if_splits)

text \<open>
  The lists that arise from the calls of the sources of devices: \<open>found ds l\<close> when the new devices
  were \<open>ds\<close>, in the order in which they were found, and \<open>l\<close> is the list.
\<close>

inductive found ::
  "if_system \<Rightarrow> (string \<Rightarrow> int option option) \<Rightarrow> pcap_if list \<Rightarrow> pcap_if list \<Rightarrow> bool" for sys opened where
  found_none: "found sys opened [] []"
| found_if: "found sys opened ds l \<Longrightarrow> pcap_add_if sys ok opened nm flags descr l = Some (r, l') \<Longrightarrow>
    found sys opened (if length l' = length l then ds else ds @ [new_if sys nm flags descr]) l'"
| found_addr: "found sys opened ds l \<Longrightarrow>
    add_addr_to_iflist sys ok ok_addr opened descr nm flags a l = Some (r, l') \<Longrightarrow>
    found sys opened (if length l' = length l then ds else ds @ [new_if sys nm flags (descr nm)]) l'"

definition in_order :: "if_system \<Rightarrow> (string \<Rightarrow> int option option) \<Rightarrow> pcap_if list \<Rightarrow> pcap_if list \<Rightarrow> bool" where
  "in_order sys opened ds l \<longleftrightarrow> map bare l = sort_key (get_figure_of_merit sys) ds \<and>
     distinct (map if_name ds) \<and> (\<forall>d\<in>set ds. capturable opened (if_name d))"

lemma in_order_names: "in_order sys opened ds l \<Longrightarrow> if_name ` set l = if_name ` set ds"
proof -
  assume "in_order sys opened ds l"
  then have "set (map bare l) = set ds" by (simp add: in_order_def)
  then have "if_name ` bare ` set l = if_name ` set ds" by simp
  then show ?thesis by (simp add: image_image)
qed

lemma in_order_add:
  assumes o: "in_order sys opened ds l" and add: "add_or_find_if sys ok opened nm flags descr l = Some (r, c, l')"
  shows "in_order sys opened (if length l' = length l then ds else ds @ [new_if sys nm flags descr]) l'"
  using add_or_find_cases [OF add]
proof (elim disjE conjE)
  assume "find_if nm l = None" "capturable opened nm" and l': "l' = insert_if sys (new_if sys nm flags descr) l"
  moreover have "nm \<notin> if_name ` set ds" using \<open>find_if nm l = None\<close> in_order_names [OF o] by (simp add: find_if_none)
  moreover have "map bare l' = sort_key (get_figure_of_merit sys) (ds @ [new_if sys nm flags descr])"
    using o by (simp add: l' map_bare_insert_if in_order_def insert_if_sort)
  ultimately show ?thesis using o by (auto simp: in_order_def new_if_def)
qed (use o in simp)

lemma in_order_addr:
  assumes "in_order sys opened ds l" and "bare d = bare (l ! i)" "i < length l"
  shows "in_order sys opened ds (l[i := d])"
proof -
  have "map bare (l[i := d]) = map bare l" using assms(2,3) by (simp add: map_update list_update_same_conv)
  with assms(1) show ?thesis by (simp add: in_order_def)
qed

lemma found_in_order: "found sys opened ds l \<Longrightarrow> in_order sys opened ds l"
proof (induction rule: found.induct)
  case found_none
  then show ?case by (simp add: in_order_def)
next
  case (found_if ds l ok nm flags descr r l')
  from found_if.hyps(2) obtain c where "add_or_find_if sys ok opened nm flags descr l = Some (r, c, l')"
    by (auto simp: pcap_add_if_def)
  from in_order_add [OF found_if.IH this] show ?case .
next
  case (found_addr ds l ok ok_addr descr nm flags a r l')
  from found_addr.hyps(2) obtain r0 c l0 where add: "add_or_find_if sys ok opened nm flags (descr nm) l = Some (r0, c, l0)"
    and l': "l' = l0 \<or> (\<exists>i. c = Some i \<and> l' = l0[i := snd (add_addr_to_dev ok_addr a (l0 ! i))])"
    by (auto simp: add_addr_to_iflist_def split: option.splits if_splits prod.splits)
  note o = in_order_add [OF found_addr.IH add]
  from l' show ?case
  proof (elim disjE exE conjE)
    fix i assume c: "c = Some i" and eq: "l' = l0[i := snd (add_addr_to_dev ok_addr a (l0 ! i))]"
    have "i < length l0" using add_or_find_cases [OF add] insert_if_nth [of sys "new_if sys nm flags (descr nm)" l] c by auto
    moreover have "bare (snd (add_addr_to_dev ok_addr a (l0 ! i))) = bare (l0 ! i)"
      by (simp add: add_addr_to_dev_def split: option.split)
    ultimately show ?thesis using in_order_addr [OF o] by (simp add: eq)
  qed (use o in simp)
qed

lemma in_order_distinct:
  assumes o: "in_order sys opened ds l"
  shows "distinct (map if_name l)"
proof -
  have "mset (map if_name (map bare l)) = mset (map if_name ds)" using o by (simp add: in_order_def del: map_map)
  then have "mset (map if_name l) = mset (map if_name ds)" by (simp add: comp_def)
  with o show ?thesis using mset_eq_imp_distinct_iff unfolding in_order_def by metis
qed

text \<open>
  C39. However the sources report devices and addresses, the list has each device that can be
  captured on once, and its order is the stable sort of the devices, in the order in which they
  were found, by the figure of merit.
\<close>

theorem devices_by_merit:
  assumes "found sys opened ds l"
  shows "map bare l = sort_key (get_figure_of_merit sys) ds \<and> distinct (map if_name l) \<and>
    (\<forall>d\<in>set l. capturable opened (if_name d))"
proof -
  have o: "in_order sys opened ds l" using assms by (rule found_in_order)
  with in_order_distinct [OF o] in_order_names [OF o] show ?thesis unfolding in_order_def by (metis image_iff)
qed

definition sample_system :: if_system where
  "sample_system = \<lparr>iff_loopback = Some 8, iff_up = Some 1, iff_running = Some 64,
     atoi_overflow = (\<lambda>s. 0xFFFFFFFF), char_before = CHR 0x00\<rparr>"

definition sample_opened :: "string \<Rightarrow> int option option" where
  "sample_opened nm = Some (Some (if nm = ''vmnet1'' then - 5 else 0))"

text \<open>Three devices: a loopback device, one that is up but not running, and one that is both.\<close>

definition sample_found :: "pcap_if list" where
  "sample_found = [new_if sample_system ''lo'' 73 None, new_if sample_system ''eth1'' 1 None,
     new_if sample_system ''eth0'' 65 None]"

definition sample_list :: "pcap_if list" where
  "sample_list = [new_if sample_system ''eth0'' 65 None, new_if sample_system ''lo'' 73 None,
     new_if sample_system ''eth1'' 1 None]"

lemmas sample_if_defs = sample_system_def sample_opened_def sample_found_def sample_list_def new_if_def
  pcap_add_if_def add_or_find_if_def get_figure_of_merit_def unit_number_def unit_text_def is_digit_def
  atoi_def digits_value_def ISLOOPBACK_def ISUP_def ISRUNNING_def if_flag_defs pcap_code_defs Let_def

lemma found_new:
  assumes "found sys opened ds l" and "find_if nm l = None" and "capturable opened nm"
  shows "found sys opened (ds @ [new_if sys nm flags descr]) (insert_if sys (new_if sys nm flags descr) l)"
proof -
  have "pcap_add_if sys (\<lambda>_. True) opened nm flags descr l = Some (0, insert_if sys (new_if sys nm flags descr) l)"
    using assms(2,3)
    by (auto simp: pcap_add_if_def add_or_find_if_def capturable_def Let_def split: option.splits)
  from found_if [OF assms(1) this] show ?thesis by simp
qed

lemma sample_found_lo: "found sample_system sample_opened
    [new_if sample_system ''lo'' 73 None] [new_if sample_system ''lo'' 73 None]"
  using found_new [OF found_none, of "''lo''" sample_opened sample_system 73 None]
  by (simp add: sample_opened_def capturable_def pcap_code_defs)

lemma sample_found_two: "found sample_system sample_opened (take 2 sample_found) (drop 1 sample_list)"
  using found_new [OF sample_found_lo, of "''eth1''" 1 None] by (simp add: sample_if_defs capturable_def)

lemma sample_found: "found sample_system sample_opened sample_found sample_list"
  using found_new [OF sample_found_two, of "''eth0''" 65 None] by (simp add: sample_if_defs capturable_def)

theorem devices_by_merit_witness:
  "map bare sample_list = sort_key (get_figure_of_merit sample_system) sample_found \<and>
   distinct (map if_name sample_list) \<and>
   list_all (\<lambda>d. capturable sample_opened (if_name d)) sample_list"
  unfolding list_all_iff using devices_by_merit [OF sample_found] by blast

section \<open>All sources together\<close>

text \<open>A source that reports its devices by the routines above.\<close>

definition reports :: "if_system \<Rightarrow> (string \<Rightarrow> int option option) \<Rightarrow> if_finder \<Rightarrow> bool" where
  "reports sys opened f \<longleftrightarrow> (\<forall>ds l. found sys opened ds l \<longrightarrow> (\<exists>ds'. found sys opened (ds @ ds') (snd (f l))))"

lemma find_loop_reports:
  assumes "found sys opened ds l" and "\<forall>f\<in>set fs. reports sys opened f"
  shows "fst (find_loop fs l) = - 1 \<and> snd (find_loop fs l) = [] \<or> (\<exists>ds'. found sys opened (ds @ ds') (snd (find_loop fs l)))"
  using assms
proof (induction fs arbitrary: ds l)
  case Nil
  then show ?case by (auto intro: exI [of _ "[]"])
next
  case (Cons f fs)
  then obtain ds' where f: "found sys opened (ds @ ds') (snd (f l))" unfolding reports_def by fastforce
  from Cons.IH [OF f] Cons.prems(2) show ?case by (auto split: prod.split)
qed

text \<open>
  \<open>pcap_findalldevs\<close> gives the devices of all sources in the order of their merit, each once,
  those of the interfaces of the system included; or a source behind the first failed, and the list
  is empty.
\<close>

theorem findalldevs_by_merit:
  assumes "pcap_findalldevs (r0, l0) plat fs = (r, l)" and "r0 \<noteq> - 1" and "found sys opened ds l0"
    and "\<forall>f\<in>set (plat # fs). reports sys opened f"
  shows "r = - 1 \<and> l = [] \<or>
    (\<exists>ds'. map bare l = sort_key (get_figure_of_merit sys) (ds @ ds') \<and> distinct (map if_name l))"
proof -
  obtain r1 l1 where p: "plat l0 = (r1, l1)" by fastforce
  with assms(3,4) obtain ds1 where f: "found sys opened (ds @ ds1) l1" unfolding reports_def by fastforce
  from find_loop_reports [OF f, of fs] assms(4) consider
      "find_loop fs l1 = (- 1, [])" | ds2 where "found sys opened (ds @ ds1 @ ds2) (snd (find_loop fs l1))"
    by (auto simp: prod_eq_iff)
  then show ?thesis
  proof cases
    case 1
    with assms(1,2) p show ?thesis by (auto simp: pcap_findalldevs_def split: if_splits)
  next
    case 2
    from found_in_order [OF this] have "map bare (snd (find_loop fs l1)) = sort_key (get_figure_of_merit sys) (ds @ ds1 @ ds2)"
      by (simp add: in_order_def)
    moreover have "distinct (map if_name (snd (find_loop fs l1)))"
      using found_in_order [OF 2] in_order_distinct by blast
    ultimately show ?thesis using assms(1,2) p by (auto simp: pcap_findalldevs_def split: if_splits)
  qed
qed

theorem findalldevs_by_merit_witness:
  "\<exists>r l. pcap_findalldevs (0, sample_list) (\<lambda>l. (0, l)) [] = (r, l) \<and>
    (r = - 1 \<and> l = [] \<or>
    (\<exists>ds'. map bare l = sort_key (get_figure_of_merit sample_system) (sample_found @ ds') \<and> distinct (map if_name l)))"
proof -
  have eq: "pcap_findalldevs (0, sample_list) (\<lambda>l. (0, l)) [] = (0, sample_list)"
    by (simp add: pcap_findalldevs_def)
  have "reports sample_system sample_opened (\<lambda>l. (0, l))"
    unfolding reports_def by (metis append_Nil2 snd_conv)
  with findalldevs_by_merit [OF eq _ sample_found] eq show ?thesis by simp
qed

section \<open>The default device\<close>

definition usable :: "pcap_if \<Rightarrow> bool" where
  "usable d \<longleftrightarrow> if_flags d AND PCAP_IF_RUNNING \<noteq> 0 \<and> if_flags d AND PCAP_IF_UP \<noteq> 0 \<and>
     if_flags d AND PCAP_IF_LOOPBACK = 0"

lemma usable_merit: "usable d \<Longrightarrow> get_figure_of_merit sys d = unit_number sys (if_name d)"
  by (simp add: usable_def get_figure_of_merit_def)

lemma merit_usable:
  assumes "get_figure_of_merit sys d < 0x20000000"
  shows "usable d"
proof (rule ccontr)
  have or: "b \<le> n OR b" for n b :: u32 by (rule le_word_or1)
  assume "\<not> usable d"
  then have "0x20000000 \<le> get_figure_of_merit sys d"
    unfolding usable_def get_figure_of_merit_def Let_def
    by (auto intro: or order_trans [OF _ or] order_trans [OF or le_word_or2])
  with assms show False by simp
qed

text \<open>
  C40. When some device is up, running and no loopback device, \<open>pcap_lookupdev\<close> gives such a device,
  with the lowest unit number, provided the unit numbers have at most 29 bits.
\<close>

theorem lookupdev_usable:
  assumes f: "found sys opened ds l" and d: "d \<in> set ds" "usable d"
    and small: "\<forall>d\<in>set ds. unit_number sys (if_name d) < 0x20000000"
  shows "\<exists>e\<in>set ds. pcap_lookupdev n (0, l) errbuf = (Some (take n (if_name e)), errbuf) \<and> usable e \<and>
    (\<forall>d\<in>set ds. usable d \<longrightarrow> unit_number sys (if_name e) \<le> unit_number sys (if_name d))"
proof -
  have m: "map bare l = sort_key (get_figure_of_merit sys) ds" using found_in_order [OF f] by (simp add: in_order_def)
  then obtain h rest where l: "l = h # rest" using d(1) by (cases l) (auto dest: arg_cong [of _ _ set])
  have h: "bare h \<in> set ds" using m l by (metis list.set_intros(1) list.simps(9) set_sort)
  have least: "get_figure_of_merit sys h \<le> get_figure_of_merit sys e" if "e \<in> set ds" for e
  proof -
    have "sorted (map (get_figure_of_merit sys) (map bare l))" unfolding m by simp
    moreover have "e \<in> set (map bare l)" using that unfolding m by simp
    ultimately show ?thesis by (auto simp: l)
  qed
  have "get_figure_of_merit sys h < 0x20000000"
    using least [OF d(1)] usable_merit [OF d(2)] small d(1) by (metis order_le_less_trans)
  then have u: "usable h" by (rule merit_usable)
  have "unit_number sys (if_name h) \<le> unit_number sys (if_name e)" if "e \<in> set ds" "usable e" for e
    using least [OF that(1)] usable_merit [OF that(2)] usable_merit [OF u] by simp
  with u h show ?thesis
    by (intro bexI [of _ "bare h"]) (auto simp: pcap_lookupdev_def l usable_def)
qed

theorem lookupdev_usable_witness:
  "pcap_lookupdev 16 (0, sample_list) '''' = (Some ''eth0'', '''')"
proof -
  let ?d = "new_if sample_system ''eth0'' 65 None"
  have small: "\<forall>d\<in>set sample_found. unit_number sample_system (if_name d) < 0x20000000"
    by (simp add: sample_if_defs)
  have named: "if_name e = ''eth0''" if "e \<in> set sample_found" "usable e" for e
    using that by (auto simp: sample_if_defs usable_def)
  have "?d \<in> set sample_found" "usable ?d" by (simp_all add: sample_if_defs usable_def)
  from lookupdev_usable [OF sample_found this small, of 16 "''''"] show ?thesis
    using named by fastforce
qed

text \<open>
  A loopback device that is running comes before a device that is up but not running: then there
  is no default device, although a device that is no loopback device is on the list. And a device
  that is down is the default one when nothing better is there.
\<close>

lemma lookupdev_hidden:
  "found sample_system sample_opened (take 2 sample_found) (drop 1 sample_list) \<and>
   fst (pcap_lookupdev 16 (0, drop 1 sample_list) '''') = None \<and>
   (\<exists>d\<in>set (drop 1 sample_list). if_flags d AND PCAP_IF_LOOPBACK = 0)"
  using sample_found_two by (simp add: pcap_lookupdev_def sample_if_defs)

lemma lookupdev_down:
  "found sample_system sample_opened [new_if sample_system ''eth0'' 0 None] [new_if sample_system ''eth0'' 0 None] \<and>
   fst (pcap_lookupdev 16 (0, [new_if sample_system ''eth0'' 0 None]) '''') = Some ''eth0''"
  using found_new [OF found_none, of "''eth0''" sample_opened sample_system 0 None]
  by (simp add: capturable_def pcap_lookupdev_def sample_if_defs)

section \<open>Networks without a mask\<close>

text \<open>
  The addresses are in network byte order and the class macros are for values of the host: on a
  little-endian host the last octet decides the class, and the mask keeps the last octets.
\<close>

lemma lookupnet_class:
  "pcap_lookupnet Big [] None (\<lambda>_. Inr [10, 1, 2, 200]) (\<lambda>_. Inr [0, 0, 0, 0]) (Some ''eth0'') =
     Inr (decode_word Big [10, 0, 0, 0], decode_word Big [255, 0, 0, 0])"
  "pcap_lookupnet Little [] None (\<lambda>_. Inr [10, 1, 2, 200]) (\<lambda>_. Inr [0, 0, 0, 0]) (Some ''eth0'') =
     Inr (decode_word Little [0, 1, 2, 200], decode_word Little [0, 255, 255, 255])"
  by (simp_all add: pcap_lookupnet_def decode_word_def word_of_bytes_def class_mask_def IN_CLASSA_def
      IN_CLASSB_def IN_CLASSC_def)

end
