(* ===== verification/Spec2Isabelle.thy ===== *)
theory Spec2Isabelle
  imports Bpf_Image Address_Texts Filter_Reading Opt_Dead Close_List Device_List
begin

text \<open>
  A verification development for Jxnet, a Java binding to packet capture whose C code, under
  src/jni, is a JNI layer (src/jni/src) over the capture library src/jni/libpcap. The core of
  the program is in the library. A filter, written as a text, is compiled to a program for a small
  virtual machine; captures come from a live handle, whose module talks to the system, or from
  files in one of two formats that any host must be able to read; a handle runs its filter on each
  packet and hands those that pass to a callback.

  Foundations:

  \<^item> \<open>Jx_Prelude\<close>: machine integers, bytes and byte orders, the swap macros (pcap-common.h,
    pcap-int.h), the part of stdio the code uses, and the rules for loops: a loop body is a
    function into a sum, and its iteration may fail to end.
  \<^item> \<open>Linktype\<close>: link-layer types on different platforms and in files (pcap-common.c,
    \<open>dlt_to_linktype\<close>, \<open>linktype_to_dlt\<close>). \<open>Datalink_Names\<close>: their names (pcap.c).

  The filter machine:

  \<^item> \<open>Bpf_Insn\<close>: the encoding of instructions (pcap/bpf.h).
  \<^item> \<open>Bpf_Filter\<close>: the interpreter (bpf/net/bpf_filter.c). Every instruction is a branch of
    \<open>exec_op\<close>; what C leaves undefined (reading outside the buffer or the scratch memory, leaving
    the program, dividing by zero, shifting by 32 or more) is a fault, \<open>abort()\<close> an outcome of its
    own, and a run that never ends is \<open>None\<close>.
  \<^item> \<open>Bpf_Validate\<close>: the validator \<open>bpf_validate\<close> and what it guarantees of the interpreter, as
    interpretations of the loop locales. \<open>Bpf_Image\<close>: the disassembler (bpf_image.c, bpf_dump.c).

  The filter compiler:

  \<^item> \<open>Icode\<close>, \<open>Gencode_State\<close>: the flow graph of blocks with its list surgery (\<open>gen_and\<close>,
    \<open>gen_or\<close>, \<open>gen_not\<close>, back-patching), and the code generator's static variables, scratch
    registers and loads (gencode.h, gencode.c).
  \<^item> \<open>Icode_To_Fcode\<close>: the conversion of the graph to instructions (optimize.c).
    \<open>Decision_Tree\<close>, \<open>Tree_Run\<close>, \<open>Fcode_Layout\<close>, \<open>Fcode_Valid\<close>, \<open>Fcode_Correct\<close>: a graph means
    the tree it unfolds to; the program laid out for it decides as the tree does and passes
    \<open>bpf_validate\<close>, and the loop that inserts long jumps ends.
  \<^item> \<open>Gencode_Logic\<close>, \<open>Gencode_Fields\<close>: how generator functions are specified; what a condition
    means is a function of the packet, and the connectives and field tests are proved once.
  \<^item> \<open>Gencode_Linktype\<close>, \<open>Gencode_Hosts\<close>, \<open>Gencode_Ports\<close>, \<open>Gencode_Layers\<close>, \<open>Gencode_Names\<close>,
    \<open>Gencode_Arith\<close>, \<open>Gencode_Prefix\<close>: the tests of gencode.c by subject. \<open>Linktype_Tests\<close>,
    \<open>Host_Tests\<close>, \<open>Port_Tests\<close>, \<open>Layer_Tests\<close>, \<open>Name_Tests\<close>, \<open>Arith_Code\<close>, \<open>Arith_Values\<close>,
    \<open>Arith_Tests\<close>: the denotation of each generator function, a condition on the packet or the
    error that ends the compilation, and that the generated blocks decide it.
  \<^item> \<open>Nametoaddr\<close>: numbers and addresses as texts (nametoaddr.c, etherent.c), \<open>Address_Texts\<close> what
    the parsers make of well-formed ones. \<open>Filter_Syntax\<close>: the actions of grammar.y over parse
    trees. \<open>Filter_Compile\<close>: \<open>pcap_compile\<close>, and the meaning of a filter.
  \<^item> \<open>Opt_Values\<close>: the optimizer's work on the statements of a block (optimize.c: \<open>F\<close>, \<open>vstore\<close>,
    \<open>fold_op\<close>, \<open>opt_stmt\<close>, \<open>deadstmt\<close>, \<open>opt_deadstores\<close>). \<open>Opt_Sound\<close>, \<open>Opt_Dead\<close>: what it
    preserves.

  Savefiles:

  \<^item> \<open>Pseudo_Headers\<close>: conversion of USB and NFLOG pseudo-headers (pcap-common.c).
  \<^item> \<open>Pcap_State\<close>: the host, the allocator, the errors and the handle (\<open>struct pcap\<close> of
    pcap-int.h) that the readers share. \<open>Packet_Source\<close>: what a reader of packets promises, as a
    locale; both formats and the front end interpret it.
  \<^item> \<open>Sf_Pcap\<close>: the classic format (sf-pcap.c): reading, writing, appending. \<open>Sf_Pcap_Ng\<close>: the
    pcap-ng format (sf-pcap-ng.c): blocks, interfaces with their options, packets. \<open>Ng_Safety\<close>: the
    invariant of its handle, and that reading any file keeps it. \<open>Ng_Reading\<close>: what is read of the
    files a writer produces, and two ways it goes wrong.
  \<^item> \<open>Savefile\<close>: the front end (savefile.c; \<open>pcap_loop\<close>, \<open>pcap_next\<close>, \<open>pcap_next_ex\<close> of pcap.c;
    \<open>install_bpf_program\<close> of optimize.c). \<open>Offline_Read\<close>: the reading loop as a function on the
    list of the packets in a file. \<open>Filter_Reading\<close>: compiler, machine and reader together.

  Handles and devices:

  \<^item> \<open>Live_Handle\<close>: creation, settings, activation, the calls through the operations, handles opened
    only for compiling (pcap.c). \<open>Live_Session\<close>: sessions with a handle, as an inductive relation on
    the calls and their results. \<open>Close_List\<close>: the linked list of handles to close at exit, in a
    store. \<open>Device_List\<close>: the list of devices (inet.c, \<open>pcap_findalldevs\<close>).

  What the lemmas show. The program compiled for a filter, without the optimizer, accepts exactly
  the packets for which the filter holds, gives the errors the meaning gives, and passes
  \<open>bpf_validate\<close>. A validated program runs without faults on every packet and, without backward
  jumps, ends; a run depends on the captured bytes only; the gaps the validator leaves are stated
  as such. The optimizer's rewriting of statements and its removal of dead definitions keep every
  run that goes through. A link type and a file written on one platform are read on any other;
  headers and packets survive writing and reading for every pair of byte orders; reading stays
  inside its buffers on any file and always ends; the files that can be
  appended to are characterised by their first bytes; a whole
  file of either format is delivered as it was written, and the loop that delivers it refines its
  specification: filter, count, break flag. On a live handle the order of settings, activation and
  use is enforced, and a loop ends when the module delivers. The list of handles to close behaves
  as a list, and the list of devices is sorted stably by merit.

  Bounds. The meaning of a filter is proved for handles whose headers have fixed places, for
  filters without protocol chains, Geneve and the byte operators \<open>&\<close> and \<open>|\<close>, and for graphs with
  fewer than 2^31 instructions, where the counters of the code do not wrap around. The two
  recursions over a graph in \<open>Icode_To_Fcode\<close> have the number of its blocks and one as fuel; a path
  of an acyclic graph is no longer, and \<open>Fcode_Layout\<close> proves that they return. All other loops that
  may not end are iterations with \<open>None\<close> for a run that never ends, and the theorems that a call
  returns say that it is not \<open>None\<close>. A value table of the optimizer has room for two numbers per
  statement. Reading is proved safe for files of less than 40 GB.

  Parameters of the model, for what is not under src/: the host's byte order and operating
  system, the allocator (any outcome of each allocation), the streams (any contents, ending by
  end-of-file or by an error), the room on a device, the databases of names of the C library, and
  the routines of the capture modules. A \<open>long\<close> has 64 bits. Messages of errors are the
  constructors of error datatypes, or texts where the code composes them.

  Not modelled: the failure of the compiler's own allocations (\<open>newchunk\<close>, \<open>icode_to_fcode\<close>); the
  parser and the scanner that yacc and lex generate (a filter is given by its parse tree); of the optimizer, the peephole rules, the merging of values at joins, the movement
  of branches and the sharing of equal blocks, so \<open>pcap_compile\<close> is modelled with \<open>optimize\<close> not
  set; the capture modules and the enumeration of interfaces, which are system calls; the calls that
  exist on Windows only; and the JNI layer, which converts Java objects by calls through the JNI
  environment.
\<close>

end
